(* ===== verification/Prelude.thy ===== *)
theory Prelude
  imports Main "HOL-Library.Word" "HOL-Library.Signed_Division"
begin

unbundle bit_operations_syntax

text \<open>
  Shared vocabulary of the development: Rust's fixed-width integers as words, the casts and the
  truncating division the sources use on them, the integer square root of the standard library,
  and the lemmas that read word arithmetic as integer arithmetic. Signed and unsigned integers
  of one width share a word type (Rust's \<^verbatim>\<open>as\<close> between them is the identity on bits); \<^term>\<open>sint\<close>
  and \<^term>\<open>uint\<close> read them. Arithmetic that Rust checks only in debug builds wraps here, as in
  the release profile the firmware ships; unconditional panics are values of the model.
\<close>

section \<open>Machine integers\<close>

type_synonym u8 = "8 word"
type_synonym u16 = "16 word"
type_synonym i32 = "32 word"
type_synonym u32 = "32 word"
type_synonym i64 = "64 word"
type_synonym u64 = "64 word"

named_theorems wide_simps \<open>widened arithmetic read as integer arithmetic\<close>

definition i32_MIN :: i32 where
  "i32_MIN = 0x80000000"

definition i32_MAX :: i32 where
  "i32_MAX = 0x7FFFFFFF"

definition as_i64 :: "i32 \<Rightarrow> i64" where
  "as_i64 a = scast a"

definition as_i32 :: "i64 \<Rightarrow> i32" where
  "as_i32 w = ucast w"

definition as_u64 :: "u32 \<Rightarrow> u64" where
  "as_u64 a = ucast a"

definition as_u32 :: "u64 \<Rightarrow> u32" where
  "as_u32 w = ucast w"

text \<open>Rust's \<^verbatim>\<open>/\<close> and \<^verbatim>\<open>%\<close> on signed integers truncate towards zero; a zero divisor panics, so every
  use in the sources is guarded.\<close>

definition word_sdiv :: "'a::len word \<Rightarrow> 'a word \<Rightarrow> 'a word" where
  "word_sdiv a b = word_of_int (sint a sdiv sint b)"

definition word_srem :: "'a::len word \<Rightarrow> 'a word \<Rightarrow> 'a word" where
  "word_srem a b = word_of_int (sint a smod sint b)"

definition wrapping_abs :: "i32 \<Rightarrow> i32" where
  "wrapping_abs a = (if sint a < 0 then - a else a)"

definition smin :: "i32 \<Rightarrow> i32 \<Rightarrow> i32" where
  "smin a b = (if sint a \<le> sint b then a else b)"

definition smax :: "i32 \<Rightarrow> i32 \<Rightarrow> i32" where
  "smax a b = (if sint a \<le> sint b then b else a)"

text \<open>The integer reading of a clamp, used in statements.\<close>

definition clamp_int :: "int \<Rightarrow> int \<Rightarrow> int \<Rightarrow> int" where
  "clamp_int lo hi x = max lo (min hi x)"

abbreviation i32_min_int :: int where
  "i32_min_int \<equiv> - 2147483648"

abbreviation i32_max_int :: int where
  "i32_max_int \<equiv> 2147483647"

abbreviation sat32 :: "int \<Rightarrow> int" where
  "sat32 x \<equiv> clamp_int i32_min_int i32_max_int x"

section \<open>Integer square root\<close>

text \<open>\<^verbatim>\<open>u64::isqrt\<close>: the largest root whose square does not exceed the argument, computed digit by
  digit in base four.\<close>

fun isqrt :: "nat \<Rightarrow> nat" where
  "isqrt n =
     (if n = 0 then 0
      else let r = 2 * isqrt (n div 4)
           in if (r + 1) * (r + 1) \<le> n then r + 1 else r)"

declare isqrt.simps [simp del]

lemma isqrt_correct: "isqrt n * isqrt n \<le> n \<and> n < (isqrt n + 1) * (isqrt n + 1)"
proof (induction n rule: isqrt.induct)
  case (1 n)
  show ?case
  proof (cases "n = 0")
    case True
    then show ?thesis by (simp add: isqrt.simps)
  next
    case False
    define q where "q = isqrt (n div 4)"
    from 1 [OF False] have lo: "q * q \<le> n div 4" and hi: "n div 4 < (q + 1) * (q + 1)"
      by (auto simp: q_def)
    have sq: "(2 * q) * (2 * q) = 4 * (q * q)" "(2 * q + 2) * (2 * q + 2) = 4 * ((q + 1) * (q + 1))"
      by (simp_all add: algebra_simps)
    from lo hi have "(2 * q) * (2 * q) \<le> n" "n < (2 * q + 2) * (2 * q + 2)"
      unfolding sq by linarith+
    moreover have "isqrt n = (if (2 * q + 1) * (2 * q + 1) \<le> n then 2 * q + 1 else 2 * q)"
      using False by (subst isqrt.simps) (simp add: q_def Let_def)
    ultimately show ?thesis by (auto simp: algebra_simps)
  qed
qed

lemma isqrt_unique:
  assumes "r * r \<le> n" and "n < (r + 1) * (r + 1)"
  shows "isqrt n = r"
proof -
  from isqrt_correct [of n] assms have "isqrt n * isqrt n < (r + 1) * (r + 1)"
    and "r * r < (isqrt n + 1) * (isqrt n + 1)"
    by linarith+
  then have "isqrt n < r + 1" "r < isqrt n + 1"
    using mult_le_mono [of "r + 1" "isqrt n" "r + 1" "isqrt n"]
      mult_le_mono [of "isqrt n + 1" r "isqrt n + 1" r]
    by (metis not_less)+
  then show ?thesis by simp
qed

lemma isqrt_le: "r * r \<le> n \<Longrightarrow> r \<le> isqrt n"
  using isqrt_correct [of n] mult_le_mono [of "isqrt n + 1" r "isqrt n + 1" r]
  by (metis Suc_eq_plus1 not_less_eq_eq le_less_trans less_irrefl)

section \<open>Reading words as integers\<close>

lemma sint32_bounds: "i32_min_int \<le> sint (x :: i32)" "sint (x :: i32) \<le> i32_max_int"
  using sint_greater_eq [of x] sint_less [of x] by simp_all

lemma uint32_bounds: "0 \<le> uint (x :: u32)" "uint (x :: u32) < 4294967296"
  using uint_lt2p [of x] by simp_all

lemma sint_word_of_int_id:
  "- (2 ^ (LENGTH('a) - 1)) \<le> k \<Longrightarrow> k < 2 ^ (LENGTH('a) - 1) \<Longrightarrow>
     sint (word_of_int k :: 'a::len word) = k"
  by (simp add: sint_sbintrunc' signed_take_bit_int_eq_self)

lemma sint_inj: "sint a = sint b \<longleftrightarrow> a = b"
  by (metis signed_word_eqI)

lemma sint_eq_0: "sint a = 0 \<longleftrightarrow> a = 0"
  using sint_inj [of a 0] by simp

lemma uint_eq_sint:
  assumes "0 \<le> sint (x :: i32)"
  shows "uint x = sint x"
  using assms sint32_bounds [of x] by (simp add: uint_sint) (simp add: take_bit_int_eq_self)

lemma sint_eq_uint:
  assumes "uint (x :: i32) \<le> i32_max_int"
  shows "sint x = uint x"
proof -
  have "- 2147483648 \<le> uint x" "uint x < 2147483648"
    using assms uint32_bounds(1) [of x] by linarith+
  then have "signed_take_bit 31 (uint x) = uint x"
    by (simp add: signed_take_bit_int_eq_self)
  then show ?thesis by (simp add: sint_uint)
qed

lemma uint_word_of_int_id:
  assumes "0 \<le> k" and "k < 2 ^ LENGTH('a)"
  shows "uint (word_of_int k :: 'a::len word) = k"
  using assms by (simp add: unsigned_of_int take_bit_int_eq_self)

lemma sint_neg_i32:
  assumes "sint (x :: i32) \<noteq> i32_min_int"
  shows "sint (- x) = - sint x"
  using assms sint32_bounds [of x] by (simp add: sint_word_ariths signed_take_bit_int_eq_self)

lemma sint_xor_sign: "sint ((a :: i32) XOR b) < 0 \<longleftrightarrow> (sint a < 0) \<noteq> (sint b < 0)"
  using bit_last_iff [of "a XOR b"] bit_last_iff [of a] bit_last_iff [of b]
  by (simp add: bit_xor_iff)

lemma sint_as_i64 [simp, wide_simps]: "sint (as_i64 a) = sint a"
  unfolding as_i64_def by (rule sint_up_scast) (simp add: is_up)

lemma as_i32_word_of_int [simp]: "as_i32 (word_of_int k) = word_of_int k"
  by (simp add: as_i32_def unsigned_of_int take_bit_word_eq_self
      flip: of_int_take_bit) (simp add: word_of_int_eq_iff)

lemma as_i32_eq: "as_i32 w = word_of_int (sint w)"
  using as_i32_word_of_int [of "sint w"] by simp

lemma sint_as_i32:
  assumes "i32_min_int \<le> sint w" and "sint w \<le> i32_max_int"
  shows "sint (as_i32 w) = sint w"
  unfolding as_i32_eq using assms by (intro sint_word_of_int_id) simp_all

lemma sint_plus64 [wide_simps]:
  "sint (as_i64 a + as_i64 b) = sint a + sint b"
  using sint32_bounds [of a] sint32_bounds [of b]
  by (simp add: sint_word_ariths signed_take_bit_int_eq_self)

lemma sint_minus64 [wide_simps]:
  "sint (as_i64 a - as_i64 b) = sint a - sint b"
  using sint32_bounds [of a] sint32_bounds [of b]
  by (simp add: sint_word_ariths signed_take_bit_int_eq_self)

lemma abs_mult_bound:
  fixes x y :: int
  assumes "\<bar>x\<bar> \<le> m" and "\<bar>y\<bar> \<le> n"
  shows "- (m * n) \<le> x * y" and "x * y \<le> m * n"
proof -
  have "\<bar>x * y\<bar> \<le> m * n"
    unfolding abs_mult using assms by (intro mult_mono) auto
  then show "- (m * n) \<le> x * y" and "x * y \<le> m * n"
    by (simp_all add: abs_le_iff)
qed

lemma sint_times64 [wide_simps]:
  "sint (as_i64 a * as_i64 b) = sint a * sint b"
proof -
  have "\<bar>sint a\<bar> \<le> 2147483648" "\<bar>sint b\<bar> \<le> 2147483648"
    using sint32_bounds [of a] sint32_bounds [of b] by (simp_all add: abs_le_iff)
  from abs_mult_bound [OF this] show ?thesis
    by (simp add: sint_word_ariths signed_take_bit_int_eq_self)
qed

lemma sint_shift16_64 [wide_simps]:
  "sint (push_bit 16 (as_i64 a)) = sint a * 65536"
proof -
  have "push_bit 16 (as_i64 a) = word_of_int (sint a * 65536)"
    unfolding of_int_mult by (simp add: as_i64_def push_bit_eq_mult)
  moreover have "sint (word_of_int (sint a * 65536) :: i64) = sint a * 65536"
    using sint32_bounds [of a] by (intro sint_word_of_int_id) simp_all
  ultimately show ?thesis by metis
qed

lemma sint_asr [wide_simps]: "sint (signed_drop_bit n w) = sint w div 2 ^ n"
  by (simp add: sint_signed_drop_bit_eq drop_bit_eq_div)

lemma int_div_bounds:
  fixes a b :: int
  assumes "0 < b"
  shows "a div b * b \<le> a" and "a < (a div b + 1) * b"
  using pos_mod_sign [OF assms, of a] pos_mod_bound [OF assms, of a] div_mult_mod_eq [of a b]
  unfolding distrib_right by linarith+

lemma int_div_unique:
  fixes a b q :: int
  assumes "q * b \<le> a" and "a < (q + 1) * b" and "0 < b"
  shows "a div b = q"
proof -
  have "q * b < (a div b + 1) * b" "a div b * b < (q + 1) * b"
    using assms int_div_bounds [OF assms(3), of a] by linarith+
  then have "q < a div b + 1" "a div b < q + 1"
    using assms(3) by (simp_all add: mult_less_cancel_right_pos)
  then show ?thesis by simp
qed

lemma int_div_mod_split:
  fixes a b :: int
  assumes "0 < b"
  obtains q m where "a = q * b + m" "0 \<le> m" "m < b" "a div b = q" "a mod b = m"
  using that [of "a div b" "a mod b"] assms by simp

lemma int_div_less:
  fixes a b c :: int
  assumes "0 < b" and "a < c * b"
  shows "a div b < c"
proof (rule ccontr)
  assume "\<not> a div b < c"
  then have "c * b \<le> a div b * b"
    using assms(1) by (intro mult_right_mono) simp_all
  also have "\<dots> \<le> a"
    using assms(1) pos_mod_sign [of b a] div_mult_mod_eq [of a b] by linarith
  finally show False using assms(2) by simp
qed

lemma sint_take_bit:
  fixes w :: i32
  assumes "n < 32"
  shows "sint (take_bit n w) = sint w mod 2 ^ n"
proof -
  have "take_bit n (signed_take_bit 31 (uint w)) = take_bit n (uint w)"
    using assms by (intro take_bit_signed_take_bit) simp
  then have "take_bit n (uint w) = take_bit n (sint w)"
    by (simp add: sint_uint)
  then have u: "uint (take_bit n w) = sint w mod 2 ^ n"
    unfolding unsigned_take_bit_eq by (simp add: take_bit_eq_mod [of n "sint w"])
  have "sint w mod 2 ^ n < 2 ^ n" by simp
  also have "(2 :: int) ^ n \<le> 2 ^ 31" using assms by (intro power_increasing) simp_all
  finally have "uint (take_bit n w) \<le> i32_max_int"
    unfolding u by simp
  then show ?thesis by (simp add: sint_eq_uint u)
qed

lemma sint_shl16:
  fixes w :: i32
  assumes "- 32768 \<le> sint w" and "sint w \<le> 32767"
  shows "sint (push_bit 16 w) = sint w * 65536"
proof -
  have "push_bit 16 w = word_of_int (sint w * 65536)"
    unfolding of_int_mult by (simp add: push_bit_eq_mult)
  moreover have "sint (word_of_int (sint w * 65536) :: i32) = sint w * 65536"
    using assms by (intro sint_word_of_int_id) simp_all
  ultimately show ?thesis by metis
qed

lemma sint_add_i32:
  "i32_min_int \<le> sint a + sint b \<Longrightarrow> sint a + sint b \<le> i32_max_int \<Longrightarrow>
     sint ((a :: i32) + b) = sint a + sint b"
  by (simp add: sint_word_ariths signed_take_bit_int_eq_self)

lemma sint_sub_i32:
  "i32_min_int \<le> sint a - sint b \<Longrightarrow> sint a - sint b \<le> i32_max_int \<Longrightarrow>
     sint ((a :: i32) - b) = sint a - sint b"
  by (simp add: sint_word_ariths signed_take_bit_int_eq_self)

lemma sint_div16_bounds: "- 32768 \<le> sint (w :: i32) div 65536" "sint (w :: i32) div 65536 \<le> 32767"
  using sint32_bounds [of w] by simp_all

lemma clamp_int_bounds: "lo \<le> hi \<Longrightarrow> lo \<le> clamp_int lo hi x \<and> clamp_int lo hi x \<le> hi"
  by (auto simp: clamp_int_def)

lemma clamp_int_id [simp]: "lo \<le> x \<Longrightarrow> x \<le> hi \<Longrightarrow> clamp_int lo hi x = x"
  by (simp add: clamp_int_def)

end
