(* ===== verification/Q32.thy ===== *)
theory Q32
  imports Prelude
begin

text \<open>
  The reference fixed-point type of \<^verbatim>\<open>lp-shader/lps-q32/src/q32.rs\<close>: a signed Q16.16 value in an
  \<^verbatim>\<open>i32\<close>, with saturating operators, the wrapping variants, and the conversions; and the raw
  \<^verbatim>\<open>i32\<close> helpers of \<^verbatim>\<open>lps-q32/src/lpir.rs\<close> that its elementary functions use. The lemmas read
  every operation as an operation on the integer \<open>sint (raw q)\<close>, which is the represented value
  scaled by 65536.
\<close>

section \<open>The type\<close>

datatype q32 = Q32 (raw: i32)

definition SHIFT :: nat where
  "SHIFT = 16"

definition ONE :: i32 where
  "ONE = push_bit SHIFT 1"

definition Q32_MAX_RAW :: i32 where
  "Q32_MAX_RAW = 0x7FFFFFFF"

definition Q32_ZERO :: q32 where
  "Q32_ZERO = Q32 0"

definition Q32_HALF :: q32 where
  "Q32_HALF = Q32 (word_sdiv ONE 2)"

definition Q32_ONE :: q32 where
  "Q32_ONE = Q32 ONE"

text \<open>The derived order compares the raw words as signed integers.\<close>

instantiation q32 :: linorder
begin

definition less_eq_q32 :: "q32 \<Rightarrow> q32 \<Rightarrow> bool" where
  "less_eq_q32 a b \<longleftrightarrow> sint (raw a) \<le> sint (raw b)"

definition less_q32 :: "q32 \<Rightarrow> q32 \<Rightarrow> bool" where
  "less_q32 a b \<longleftrightarrow> sint (raw a) < sint (raw b)"

instance
  by standard (auto simp: less_eq_q32_def less_q32_def sint_inj intro: q32.expand)

end

section \<open>Operations\<close>

definition sat_i64_const :: "i64 \<Rightarrow> i32" where
  "sat_i64_const wide =
     (if sint wide > sint (as_i64 Q32_MAX_RAW) then Q32_MAX_RAW
      else if sint wide < sint (as_i64 i32_MIN) then i32_MIN
      else as_i32 wide)"

definition sat_i64_to_q32_raw :: "i64 \<Rightarrow> i32" where
  "sat_i64_to_q32_raw wide = sat_i64_const wide"

definition from_fixed :: "i32 \<Rightarrow> q32" where
  "from_fixed f = Q32 f"

definition from_i32 :: "i32 \<Rightarrow> q32" where
  "from_i32 i = Q32 (push_bit SHIFT i)"

definition to_fixed :: "q32 \<Rightarrow> i32" where
  "to_fixed q = raw q"

definition q32_half :: "q32 \<Rightarrow> q32" where
  "q32_half q = Q32 (signed_drop_bit 1 (raw q))"

definition mul_wrapping :: "q32 \<Rightarrow> q32 \<Rightarrow> q32" where
  "mul_wrapping a b = Q32 (as_i32 (signed_drop_bit SHIFT (as_i64 (raw a) * as_i64 (raw b))))"

definition add_wrapping :: "q32 \<Rightarrow> q32 \<Rightarrow> q32" where
  "add_wrapping a b = Q32 (raw a + raw b)"

definition sub_wrapping :: "q32 \<Rightarrow> q32 \<Rightarrow> q32" where
  "sub_wrapping a b = Q32 (raw a - raw b)"

text \<open>\<^verbatim>\<open>Ord::clamp\<close> panics when the bounds cross; \<open>None\<close> is that panic.\<close>

definition q32_clamp :: "q32 \<Rightarrow> q32 \<Rightarrow> q32 \<Rightarrow> q32 option" where
  "q32_clamp q mn mx =
     (if sint (raw mn) > sint (raw mx) then None
      else Some (if sint (raw q) < sint (raw mn) then mn
                 else if sint (raw q) > sint (raw mx) then mx else q))"

definition q32_max :: "q32 \<Rightarrow> q32 \<Rightarrow> q32" where
  "q32_max a b = Q32 (smax (raw a) (raw b))"

definition q32_min :: "q32 \<Rightarrow> q32 \<Rightarrow> q32" where
  "q32_min a b = Q32 (smin (raw a) (raw b))"

definition q32_abs :: "q32 \<Rightarrow> q32" where
  "q32_abs q = Q32 (wrapping_abs (raw q))"

definition is_zero :: "q32 \<Rightarrow> bool" where
  "is_zero q \<longleftrightarrow> raw q = 0"

definition frac :: "q32 \<Rightarrow> q32" where
  "frac q = Q32 (raw q AND (ONE - 1))"

definition to_i32 :: "q32 \<Rightarrow> i32" where
  "to_i32 q = signed_drop_bit SHIFT (raw q)"

definition to_u8_saturating :: "q32 \<Rightarrow> u8" where
  "to_u8_saturating q =
     (let i = to_i32 q
      in ucast (if sint i < 0 then 0 else if sint i > 255 then 255 else i))"

definition to_u16_saturating :: "q32 \<Rightarrow> u16" where
  "to_u16_saturating q =
     (let scaled = word_sdiv (as_i64 (raw q) * 65535) 65536
      in ucast (if sint scaled < 0 then 0 else if sint scaled > 65535 then 65535 else scaled))"

definition mul_int :: "q32 \<Rightarrow> i32 \<Rightarrow> q32" where
  "mul_int q i = Q32 (sat_i64_const (as_i64 (raw q) * as_i64 i))"

definition q32_add :: "q32 \<Rightarrow> q32 \<Rightarrow> q32" where
  "q32_add a b = Q32 (sat_i64_to_q32_raw (as_i64 (raw a) + as_i64 (raw b)))"

definition q32_sub :: "q32 \<Rightarrow> q32 \<Rightarrow> q32" where
  "q32_sub a b = Q32 (sat_i64_to_q32_raw (as_i64 (raw a) - as_i64 (raw b)))"

definition q32_mul :: "q32 \<Rightarrow> q32 \<Rightarrow> q32" where
  "q32_mul a b =
     Q32 (sat_i64_to_q32_raw (signed_drop_bit SHIFT (as_i64 (raw a) * as_i64 (raw b))))"

definition q32_div :: "q32 \<Rightarrow> q32 \<Rightarrow> q32" where
  "q32_div a b =
     (if raw b = 0 then
        (if raw a = 0 then Q32 0
         else if sint (raw a) > 0 then Q32 Q32_MAX_RAW
         else Q32 i32_MIN)
      else Q32 (sat_i64_to_q32_raw (word_sdiv (push_bit SHIFT (as_i64 (raw a))) (as_i64 (raw b)))))"

definition q32_rem :: "q32 \<Rightarrow> q32 \<Rightarrow> q32" where
  "q32_rem a b = (if raw b \<noteq> 0 then Q32 (word_srem (raw a) (raw b)) else Q32 0)"

definition q32_neg :: "q32 \<Rightarrow> q32" where
  "q32_neg q = Q32 (- raw q)"

definition q32_mix :: "q32 \<Rightarrow> q32 \<Rightarrow> q32 \<Rightarrow> q32" where
  "q32_mix a b t = q32_add a (q32_mul t (q32_sub b a))"

definition to_q32_saturating :: "u32 \<Rightarrow> q32" where
  "to_q32_saturating n =
     (let max_representable = signed_drop_bit SHIFT i32_MAX
      in if n \<le> max_representable then from_i32 n else from_i32 max_representable)"

section \<open>Raw helpers matching the LPIR builtins (lpir.rs)\<close>

definition MAX_FIXED :: i32 where
  "MAX_FIXED = 0x7FFFFFFF"

definition MIN_FIXED :: i32 where
  "MIN_FIXED = i32_MIN"

definition FIX16_PI :: i32 where
  "FIX16_PI = 205887"

definition fmul_q32 :: "i32 \<Rightarrow> i32 \<Rightarrow> i32" where
  "fmul_q32 a b =
     (if a = 0 \<or> b = 0 then 0
      else let shifted_wide = signed_drop_bit 16 (as_i64 a * as_i64 b)
           in if sint shifted_wide > sint (as_i64 MAX_FIXED) then MAX_FIXED
              else if sint shifted_wide < sint (as_i64 MIN_FIXED) then MIN_FIXED
              else as_i32 shifted_wide)"

definition fdiv_q32 :: "i32 \<Rightarrow> i32 \<Rightarrow> i32" where
  "fdiv_q32 dividend divisor =
     (if divisor = 0 then
        (if dividend = 0 then 0 else if sint dividend > 0 then MAX_FIXED else MIN_FIXED)
      else let result_wide = word_sdiv (push_bit 16 (as_i64 dividend)) (as_i64 divisor)
           in if sint result_wide > sint (as_i64 MAX_FIXED) then MAX_FIXED
              else if sint result_wide < sint (as_i64 MIN_FIXED) then MIN_FIXED
              else as_i32 result_wide)"

definition fsqrt_q32 :: "i32 \<Rightarrow> i32" where
  "fsqrt_q32 x =
     (if sint x \<le> 0 then 0
      else as_u32 (of_nat (isqrt (unat (push_bit 16 (as_u64 x))))))"

definition sin_q32 :: "i32 \<Rightarrow> i32" where
  "sin_q32 x =
     (if x = 0 then 0
      else
        let two_pi = push_bit 1 FIX16_PI;
            t = word_srem x two_pi;
            a = (if sint t > sint FIX16_PI then t - two_pi
                 else if sint t < - sint FIX16_PI then t + two_pi else t);
            sq = fmul_q32 a a;
            term3 = fmul_q32 a sq;
            result3 = a - word_sdiv term3 6;
            term5 = fmul_q32 term3 sq;
            result5 = result3 + word_sdiv term5 120;
            term7 = fmul_q32 term5 sq;
            result7 = result5 - word_sdiv term7 5040;
            term9 = fmul_q32 term7 sq;
            result9 = result7 + word_sdiv term9 362880;
            term11 = fmul_q32 term9 sq
        in result9 - word_sdiv term11 39916800)"

definition cos_q32 :: "i32 \<Rightarrow> i32" where
  "cos_q32 x = sin_q32 (x + signed_drop_bit 1 FIX16_PI)"

definition mod_q32 :: "i32 \<Rightarrow> i32 \<Rightarrow> i32" where
  "mod_q32 x y =
     (let div_result = fdiv_q32 x y;
          floored = push_bit 16 (signed_drop_bit 16 div_result);
          y_times_floor = fmul_q32 y floored
      in x - y_times_floor)"

definition q32_sqrt :: "q32 \<Rightarrow> q32" where
  "q32_sqrt q = Q32 (fsqrt_q32 (raw q))"

section \<open>Reading the constants\<close>

lemma ONE_eq [simp]: "ONE = 65536"
  by (simp add: ONE_def SHIFT_def push_bit_eq_mult)

lemma sint_consts [simp]:
  "sint i32_MIN = i32_min_int" "sint i32_MAX = i32_max_int" "sint Q32_MAX_RAW = i32_max_int"
  "sint MAX_FIXED = i32_max_int" "sint MIN_FIXED = i32_min_int"
  by (simp_all add: i32_MIN_def i32_MAX_def Q32_MAX_RAW_def MAX_FIXED_def MIN_FIXED_def)

section \<open>Saturating operators\<close>

lemma sint_sat_i64_const: "sint (sat_i64_const w) = sat32 (sint w)"
  by (auto simp: sat_i64_const_def clamp_int_def sint_as_i32)

lemma sdiv_bound:
  fixes a b :: int
  assumes "b \<noteq> 0"
  shows "\<bar>a sdiv b\<bar> \<le> \<bar>a\<bar>"
proof -
  have "\<bar>a sdiv b\<bar> = \<bar>a\<bar> div \<bar>b\<bar>"
    by (cases "a = 0") (simp_all add: signed_divide_int_def abs_mult abs_sgn_eq pos_imp_zdiv_nonneg_iff assms)
  also have "\<dots> \<le> \<bar>a\<bar>"
    using assms zdiv_mono2 [of "\<bar>a\<bar>" 1 "\<bar>b\<bar>"] by simp
  finally show ?thesis .
qed

lemma sint_div_wide:
  assumes "b \<noteq> 0"
  shows "sint (word_sdiv (push_bit 16 (as_i64 a)) (as_i64 b)) = (sint a * 65536) sdiv sint b"
proof -
  have "sint b \<noteq> 0" using assms by (simp add: sint_eq_0)
  from sdiv_bound [OF this, of "sint a * 65536"] sint32_bounds [of a] show ?thesis
    unfolding word_sdiv_def sint_shift16_64 sint_as_i64
    by (intro sint_word_of_int_id) (auto simp: abs_le_iff)
qed

lemma q32_add_sat: "sint (raw (q32_add a b)) = sat32 (sint (raw a) + sint (raw b))"
  by (simp add: q32_add_def sat_i64_to_q32_raw_def sint_sat_i64_const wide_simps)

lemma q32_sub_sat: "sint (raw (q32_sub a b)) = sat32 (sint (raw a) - sint (raw b))"
  by (simp add: q32_sub_def sat_i64_to_q32_raw_def sint_sat_i64_const wide_simps)

lemma q32_mul_sat: "sint (raw (q32_mul a b)) = sat32 (sint (raw a) * sint (raw b) div 65536)"
  by (simp add: q32_mul_def sat_i64_to_q32_raw_def sint_sat_i64_const wide_simps SHIFT_def)

lemma q32_div_sat:
  "raw b \<noteq> 0 \<Longrightarrow>
     sint (raw (q32_div a b)) = sat32 ((sint (raw a) * 65536) sdiv sint (raw b))"
  by (simp add: q32_div_def sat_i64_to_q32_raw_def sint_sat_i64_const sint_div_wide SHIFT_def)

lemma mul_int_sat: "sint (raw (mul_int q i)) = sat32 (sint (raw q) * sint i)"
  by (simp add: mul_int_def sint_sat_i64_const wide_simps)

lemmas q32_sats = q32_add_sat q32_sub_sat q32_mul_sat q32_div_sat mul_int_sat

section \<open>The raw helpers agree with the operators\<close>

lemma fmul_q32_eq: "fmul_q32 a b = raw (q32_mul (Q32 a) (Q32 b))"
proof (cases "a = 0 \<or> b = 0")
  case True
  then have "sint (raw (q32_mul (Q32 a) (Q32 b))) = sint (0 :: i32)"
    by (auto simp: q32_mul_sat)
  then have "raw (q32_mul (Q32 a) (Q32 b)) = 0" by (rule signed_word_eqI)
  with True show ?thesis by (simp add: fmul_q32_def)
next
  case False
  then show ?thesis
    by (simp add: fmul_q32_def q32_mul_def sat_i64_to_q32_raw_def sat_i64_const_def Let_def
        SHIFT_def MAX_FIXED_def Q32_MAX_RAW_def MIN_FIXED_def)
qed

lemma fdiv_q32_eq: "fdiv_q32 a b = raw (q32_div (Q32 a) (Q32 b))"
  by (simp add: fdiv_q32_def q32_div_def sat_i64_to_q32_raw_def sat_i64_const_def Let_def
      SHIFT_def MAX_FIXED_def Q32_MAX_RAW_def MIN_FIXED_def)

lemma sint_fmul_q32: "sint (fmul_q32 a b) = sat32 (sint a * sint b div 65536)"
  by (simp add: fmul_q32_eq q32_mul_sat)

lemma sint_fdiv_q32:
  "b \<noteq> 0 \<Longrightarrow> sint (fdiv_q32 a b) = sat32 ((sint a * 65536) sdiv sint b)"
  by (simp add: fdiv_q32_eq q32_div_sat)

section \<open>Conversions\<close>

lemma to_i32_floor: "sint (to_i32 q) = sint (raw q) div 65536"
  by (simp add: to_i32_def SHIFT_def wide_simps)

lemma low16_mod: "sint ((w :: i32) AND 0xFFFF) = sint w mod 65536"
  using sint_take_bit [of 16 w] by (simp add: take_bit_eq_mask mask_eq_exp_minus_1)

lemma frac_mod: "sint (raw (frac q)) = sint (raw q) mod 65536"
  by (simp add: frac_def low16_mod)

lemma floor16: "sint (push_bit 16 (signed_drop_bit 16 (w :: i32))) = sint w div 65536 * 65536"
  using sint32_bounds [of w] by (subst sint_shl16) (simp_all add: wide_simps)

section \<open>Square root, remainder and interpolation\<close>

lemma sint_of_nat_u32:
  assumes "n < 2 ^ 31"
  shows "sint (of_nat n :: u32) = int n"
proof -
  have "(of_nat n :: u32) = word_of_int (int n)" by simp
  moreover have "sint (word_of_int (int n) :: u32) = int n"
    using assms by (intro sint_word_of_int_id) simp_all
  ultimately show ?thesis by metis
qed

lemma as_u32_of_nat: "as_u32 (of_nat n) = of_nat n"
  by (simp add: as_u32_def unsigned_of_nat word_of_nat_eq_iff)

lemma fsqrt_arg:
  assumes "0 < sint x"
  shows "unat (push_bit 16 (as_u64 x)) = nat (sint x) * 65536"
proof -
  have u: "uint x = sint x"
    using assms by (simp add: uint_eq_sint)
  have "uint (push_bit 16 (as_u64 x)) = sint x * 65536"
    using assms sint32_bounds [of x]
    unfolding as_u64_def unsigned_push_bit_eq unsigned_ucast_eq u
    by (simp add: push_bit_int_def take_bit_int_eq_self)
  then show ?thesis
    using assms by (simp add: nat_mult_distrib flip: nat_uint_eq)
qed

lemma fsqrt_q32_isqrt:
  assumes "0 < sint x"
  shows "sint (fsqrt_q32 x) = int (isqrt (nat (sint x) * 65536))"
proof -
  have "isqrt (nat (sint x) * 65536) < 2 ^ 24"
  proof (rule ccontr)
    assume "\<not> ?thesis"
    then have "(2 ^ 24) * (2 ^ 24) \<le> isqrt (nat (sint x) * 65536) * isqrt (nat (sint x) * 65536)"
      by (intro mult_le_mono) simp_all
    moreover have "nat (sint x) * 65536 < 2 ^ 24 * 2 ^ 24"
      using sint32_bounds [of x] by simp
    ultimately show False
      using isqrt_correct [of "nat (sint x) * 65536"] by linarith
  qed
  then show ?thesis
    using assms by (simp add: fsqrt_q32_def fsqrt_arg as_u32_of_nat sint_of_nat_u32)
qed

lemma mod_q32_nonneg:
  assumes "0 \<le> sint x" and "0 < sint y" and "sint x < 32768 * sint y"
  shows "sint (mod_q32 x y) = sint x mod sint y"
proof -
  define X Y where "X = sint x" and "Y = sint y"
  note XY = assms [folded X_def Y_def]
  have bx: "X \<le> i32_max_int" using sint32_bounds [of x] by (simp add: X_def)
  have sdiv: "(X * 65536) sdiv Y = X * 65536 div Y"
    using XY by (cases "X = 0") (simp_all add: signed_divide_int_def sgn_if)
  have "X * 65536 div Y < 2147483648"
    using XY by (intro int_div_less) simp_all
  moreover have "0 \<le> X * 65536 div Y"
    using XY by (simp add: pos_imp_zdiv_nonneg_iff)
  moreover have "y \<noteq> 0" using XY by (auto simp: Y_def)
  ultimately have q: "sint (fdiv_q32 x y) = X * 65536 div Y"
    by (simp add: sint_fdiv_q32 sdiv flip: X_def Y_def)
  have "X * 65536 div Y div 65536 = X div Y"
    using XY by (metis div_mult_mult2 zdiv_zmult2_eq zero_le_numeral zero_neq_numeral)
  then have fl: "sint (push_bit 16 (signed_drop_bit 16 (fdiv_q32 x y))) = X div Y * 65536"
    by (simp add: floor16 q)
  have le: "0 \<le> Y * (X div Y)" "Y * (X div Y) \<le> X"
    using XY pos_mod_sign [of Y X] mult_div_mod_eq [of Y X]
    by (simp add: pos_imp_zdiv_nonneg_iff, linarith)
  then have t: "sint (fmul_q32 y (push_bit 16 (signed_drop_bit 16 (fdiv_q32 x y)))) = Y * (X div Y)"
    using bx by (simp add: sint_fmul_q32 fl flip: Y_def mult.assoc)
  have "sint (mod_q32 x y) = X - Y * (X div Y)"
    using sint_sub_i32 [of x "fmul_q32 y (push_bit 16 (signed_drop_bit 16 (fdiv_q32 x y)))"] le bx
    unfolding t X_def [symmetric] by (simp add: mod_q32_def Let_def)
  then show ?thesis by (simp add: minus_mult_div_eq_mod flip: X_def Y_def)
qed

section \<open>Properties\<close>

text \<open>C22. The operators of the reference type saturate: addition, subtraction, multiplication
  (rounding towards minus infinity) and division (rounding towards zero) are the exact results
  clamped to the representable range, and division by zero gives zero, the largest or the smallest
  value by the sign of the dividend.\<close>

theorem q32_operators_saturate:
  "sint (raw (q32_add a b)) = sat32 (sint (raw a) + sint (raw b)) \<and>
   sint (raw (q32_sub a b)) = sat32 (sint (raw a) - sint (raw b)) \<and>
   sint (raw (q32_mul a b)) = sat32 (sint (raw a) * sint (raw b) div 65536) \<and>
   sint (raw (q32_div a b)) =
     (if raw b = 0
      then (if raw a = 0 then 0 else if sint (raw a) > 0 then i32_max_int else i32_min_int)
      else sat32 ((sint (raw a) * 65536) sdiv sint (raw b)))"
proof -
  have "raw b = 0 \<Longrightarrow> sint (raw (q32_div a b)) =
      (if raw a = 0 then 0 else if sint (raw a) > 0 then i32_max_int else i32_min_int)"
    by (simp add: q32_div_def)
  then show ?thesis by (simp add: q32_sats)
qed

text \<open>The square root is the exact floor of the root of the scaled argument.\<close>

theorem q32_sqrt_floor:
  "let n = sint (raw q) * 65536; r = sint (raw (q32_sqrt q))
   in if n \<le> 0 then r = 0 else 0 \<le> r \<and> r * r \<le> n \<and> n < (r + 1) * (r + 1)"
proof (cases "sint (raw q) \<le> 0")
  case True
  then show ?thesis by (simp add: q32_sqrt_def fsqrt_q32_def)
next
  case False
  define n where "n = nat (sint (raw q)) * 65536"
  from False have r: "sint (raw (q32_sqrt q)) = int (isqrt n)"
    by (simp add: q32_sqrt_def fsqrt_q32_isqrt n_def)
  have n: "sint (raw q) * 65536 = int n"
    using False by (simp add: n_def)
  from isqrt_correct [of n]
  have "int (isqrt n * isqrt n) \<le> int n" "int n < int ((isqrt n + 1) * (isqrt n + 1))"
    by (simp_all only: of_nat_le_iff of_nat_less_iff)
  moreover have "\<not> int n \<le> 0" using False n by linarith
  ultimately show ?thesis unfolding r n Let_def by (simp add: algebra_simps)
qed

text \<open>The remainder of a non-negative argument by a positive one is the Euclidean remainder, as
  long as the quotient is representable.\<close>

theorem mod_q32_euclidean:
  assumes "0 \<le> sint x" and "0 < sint y" and "sint x < 32768 * sint y"
  shows "sint (mod_q32 x y) = sint x mod sint y"
  using assms by (rule mod_q32_nonneg)

theorem mod_q32_euclidean_witness: "sint (mod_q32 458752 196608) = 65536"
  using mod_q32_euclidean [of 458752 196608] by simp

text \<open>For a negative argument whose quotient is closer to zero than the resolution, the truncating
  division makes the floor zero, and the remainder is negative.\<close>

theorem mod_q32_negative: "sint (mod_q32 (- 1) 196608) = - 1"
  by code_simp

text \<open>Interpolation reaches both ends: the first operand at parameter zero, the second at one when
  the difference of the operands is representable.\<close>

theorem q32_mix_ends:
  assumes "i32_min_int \<le> sint (raw b) - sint (raw a)" and "sint (raw b) - sint (raw a) \<le> i32_max_int"
  shows "q32_mix a b Q32_ZERO = a \<and> q32_mix a b Q32_ONE = b"
proof
  have "sint (raw (q32_mix a b Q32_ZERO)) = sint (raw a)"
    using sint32_bounds [of "raw a"] by (simp add: q32_mix_def q32_sats Q32_ZERO_def)
  then show "q32_mix a b Q32_ZERO = a" by (simp add: sint_inj q32.expand)
next
  have "sint (raw (q32_mix a b Q32_ONE)) = sint (raw b)"
    using assms sint32_bounds [of "raw b"] by (simp add: q32_mix_def q32_sats Q32_ONE_def)
  then show "q32_mix a b Q32_ONE = b" by (simp add: sint_inj q32.expand)
qed

theorem q32_mix_ends_witness:
  "q32_mix (Q32 65536) (Q32 (- 131072)) Q32_ZERO = Q32 65536 \<and>
   q32_mix (Q32 65536) (Q32 (- 131072)) Q32_ONE = Q32 (- 131072)"
  using q32_mix_ends [of "Q32 (- 131072)" "Q32 65536"] by simp

end
