(* ===== verification/Q32_Builtins.thy ===== *)
theory Q32_Builtins
  imports Q32
begin

text \<open>
  The \<^verbatim>\<open>extern "C"\<close> builtins of \<^verbatim>\<open>lp-shader/lps-builtins/src/builtins\<close> that compiled shaders call for
  Q16.16 arithmetic: the saturating reference operators, the reciprocal divide that is shipped for
  \<^verbatim>\<open>Fdiv\<close>, rounding, conversions and the modulus. Each is shown equal to the corresponding operator
  of the reference type or to its meaning on the scaled integers.
\<close>

section \<open>Definitions\<close>

subsection \<open>Saturating arithmetic\<close>

definition lp_lpir_fadd_q32 :: "i32 \<Rightarrow> i32 \<Rightarrow> i32" where
  "lp_lpir_fadd_q32 a b =
     (let result_wide = as_i64 a + as_i64 b
      in if sint result_wide > sint (as_i64 MAX_FIXED) then MAX_FIXED
         else if sint result_wide < sint (as_i64 MIN_FIXED) then MIN_FIXED
         else as_i32 result_wide)"

definition lp_lpir_fsub_q32 :: "i32 \<Rightarrow> i32 \<Rightarrow> i32" where
  "lp_lpir_fsub_q32 a b =
     (let result_wide = as_i64 a - as_i64 b
      in if sint result_wide > sint (as_i64 MAX_FIXED) then MAX_FIXED
         else if sint result_wide < sint (as_i64 MIN_FIXED) then MIN_FIXED
         else as_i32 result_wide)"

definition fmul_q32_sat :: "i32 \<Rightarrow> i32 \<Rightarrow> i32" where
  "fmul_q32_sat a b =
     (if a = 0 \<or> b = 0 then 0
      else let shifted_wide = signed_drop_bit 16 (as_i64 a * as_i64 b)
           in if sint shifted_wide > sint (as_i64 MAX_FIXED) then MAX_FIXED
              else if sint shifted_wide < sint (as_i64 MIN_FIXED) then MIN_FIXED
              else as_i32 shifted_wide)"

definition lp_lpir_fmul_q32 :: "i32 \<Rightarrow> i32 \<Rightarrow> i32" where
  "lp_lpir_fmul_q32 a b = fmul_q32_sat a b"

definition lp_lpir_fdiv_q32 :: "i32 \<Rightarrow> i32 \<Rightarrow> i32" where
  "lp_lpir_fdiv_q32 dividend divisor =
     (if divisor = 0 then
        (if dividend = 0 then 0 else if sint dividend > 0 then MAX_FIXED else MIN_FIXED)
      else let result_wide = word_sdiv (push_bit 16 (as_i64 dividend)) (as_i64 divisor)
           in if sint result_wide > sint (as_i64 MAX_FIXED) then MAX_FIXED
              else if sint result_wide < sint (as_i64 MIN_FIXED) then MIN_FIXED
              else as_i32 result_wide)"

subsection \<open>Reciprocal divide\<close>

text \<open>\<^verbatim>\<open>i32::unsigned_abs\<close> is the magnitude as an unsigned word; for the smallest value it is
  the word itself.\<close>

definition unsigned_abs :: "i32 \<Rightarrow> u32" where
  "unsigned_abs a = (if sint a < 0 then - a else a)"

definition lp_lpir_fdiv_recip_q32 :: "i32 \<Rightarrow> i32 \<Rightarrow> i32" where
  "lp_lpir_fdiv_recip_q32 dividend divisor =
     (if divisor = 0 then
        (if dividend = 0 then 0 else if sint dividend > 0 then MAX_FIXED else MIN_FIXED)
      else
        let result_sign = (if sint (dividend XOR divisor) < 0 then - 1 else 1);
            abs_dividend = unsigned_abs dividend;
            abs_divisor = unsigned_abs divisor;
            recip = 0x80000000 div abs_divisor;
            quot = as_u32 (drop_bit 16 (as_u64 abs_dividend * as_u64 recip * 2))
        in quot * result_sign)"

subsection \<open>Absolute value, extrema, rounding\<close>

definition lp_lpir_fabs_q32 :: "i32 \<Rightarrow> i32" where
  "lp_lpir_fabs_q32 v = (if sint v < 0 then - v else v)"

definition lp_lpir_fmin_q32 :: "i32 \<Rightarrow> i32 \<Rightarrow> i32" where
  "lp_lpir_fmin_q32 a b = smin a b"

definition lp_lpir_fmax_q32 :: "i32 \<Rightarrow> i32 \<Rightarrow> i32" where
  "lp_lpir_fmax_q32 a b = smax a b"

definition lp_lpir_ffloor_q32 :: "i32 \<Rightarrow> i32" where
  "lp_lpir_ffloor_q32 v = push_bit 16 (signed_drop_bit 16 v)"

definition lp_lpir_fceil_q32 :: "i32 \<Rightarrow> i32" where
  "lp_lpir_fceil_q32 v = push_bit 16 (signed_drop_bit 16 (v + 0xFFFF))"

definition lp_lpir_ftrunc_q32 :: "i32 \<Rightarrow> i32" where
  "lp_lpir_ftrunc_q32 v =
     (let t = push_bit 16 (signed_drop_bit 16 v)
      in if v \<noteq> t \<and> sint v < 0 then t + push_bit 16 1 else t)"

definition lp_lpir_fnearest_q32 :: "i32 \<Rightarrow> i32" where
  "lp_lpir_fnearest_q32 x =
     (if x = 0 then 0
      else
        let integer_part = (if sint x \<ge> 0 then signed_drop_bit 16 x
                            else signed_drop_bit 16 (x + 0xFFFF));
            fractional_part = x AND 0xFFFF;
            is_halfway = (fractional_part = 0x8000)
        in if is_halfway then
             (if integer_part AND 1 = 0 then push_bit 16 integer_part
              else if sint x > 0 then push_bit 16 (integer_part + 1)
              else push_bit 16 (integer_part - 1))
           else
             let added = x + 0x8000
             in push_bit 16 (signed_drop_bit 16 added))"

definition lps_round_q32 :: "i32 \<Rightarrow> i32" where
  "lps_round_q32 x =
     (if x = 0 then 0
      else
        let half = 0x8000
        in if sint x > 0 then push_bit 16 (signed_drop_bit 16 (x + half))
           else
             let added = x + half;
                 result = push_bit 16 (signed_drop_bit 16 added);
                 fractional_part = x AND 0xFFFF
             in if fractional_part = half then result - 0x10000 else result)"

subsection \<open>Conversions\<close>

definition Q32_FRAC :: i32 where
  "Q32_FRAC = push_bit 16 1 - 1"

definition lp_lpir_ftoi_sat_s_q32 :: "i32 \<Rightarrow> i32" where
  "lp_lpir_ftoi_sat_s_q32 v =
     (let biased_value = (if sint v < 0 then v + Q32_FRAC else v)
      in signed_drop_bit 16 biased_value)"

definition lp_lpir_ftoi_sat_u_q32 :: "i32 \<Rightarrow> i32" where
  "lp_lpir_ftoi_sat_u_q32 v =
     (let t = lp_lpir_ftoi_sat_s_q32 v in if sint t < 0 then 0 else t)"

definition lp_lpir_itof_s_q32 :: "i32 \<Rightarrow> i32" where
  "lp_lpir_itof_s_q32 x =
     (let clamped = (if sint x < - 32768 then - 32768 else if sint x > 32767 then 32767 else x)
      in push_bit 16 clamped)"

definition lp_lpir_itof_u_q32 :: "i32 \<Rightarrow> i32" where
  "lp_lpir_itof_u_q32 x =
     (let clamped = (if sint x < 0 then 32767 else smin x 32767)
      in push_bit 16 clamped)"

definition lp_lpir_fto_unorm16_q32 :: "i32 \<Rightarrow> i32" where
  "lp_lpir_fto_unorm16_q32 v = (if sint v < 0 then 0 else if sint v > 65535 then 65535 else v)"

definition lp_lpir_fto_unorm8_q32 :: "i32 \<Rightarrow> i32" where
  "lp_lpir_fto_unorm8_q32 v =
     (let s = signed_drop_bit 8 v in if sint s < 0 then 0 else if sint s > 255 then 255 else s)"

definition lp_lpir_unorm16_to_f_q32 :: "i32 \<Rightarrow> i32" where
  "lp_lpir_unorm16_to_f_q32 v = v AND 0xFFFF"

definition lp_lpir_unorm8_to_f_q32 :: "i32 \<Rightarrow> i32" where
  "lp_lpir_unorm8_to_f_q32 v = push_bit 8 (v AND 0xFF)"

definition lps_mod_q32 :: "i32 \<Rightarrow> i32 \<Rightarrow> i32" where
  "lps_mod_q32 x y =
     (let div_result = lp_lpir_fdiv_q32 x y;
          floored = push_bit 16 (signed_drop_bit 16 div_result);
          y_times_floor = lp_lpir_fmul_q32 y floored
      in x - y_times_floor)"

section \<open>The saturating builtins are the reference operators\<close>

lemma fmul_q32_sat_eq: "fmul_q32_sat a b = fmul_q32 a b"
  by (simp add: fmul_q32_sat_def fmul_q32_def)

lemma lp_lpir_fdiv_q32_eq: "lp_lpir_fdiv_q32 a b = fdiv_q32 a b"
  by (simp add: lp_lpir_fdiv_q32_def fdiv_q32_def)

lemma lps_mod_q32_eq: "lps_mod_q32 x y = mod_q32 x y"
  by (simp add: lps_mod_q32_def mod_q32_def lp_lpir_fdiv_q32_eq lp_lpir_fmul_q32_def fmul_q32_sat_eq)

lemma lp_lpir_fadd_q32_eq: "lp_lpir_fadd_q32 a b = raw (q32_add (Q32 a) (Q32 b))"
  by (simp add: lp_lpir_fadd_q32_def q32_add_def sat_i64_to_q32_raw_def sat_i64_const_def Let_def
      MAX_FIXED_def Q32_MAX_RAW_def MIN_FIXED_def)

lemma lp_lpir_fsub_q32_eq: "lp_lpir_fsub_q32 a b = raw (q32_sub (Q32 a) (Q32 b))"
  by (simp add: lp_lpir_fsub_q32_def q32_sub_def sat_i64_to_q32_raw_def sat_i64_const_def Let_def
      MAX_FIXED_def Q32_MAX_RAW_def MIN_FIXED_def)


section \<open>The reciprocal divide\<close>

lemma uint_unsigned_abs: "uint (unsigned_abs a) = \<bar>sint a\<bar>"
proof (cases "sint a < 0")
  case True
  have "- a = word_of_int (- sint a)" by simp
  moreover have "uint (word_of_int (- sint a) :: u32) = - sint a"
    using True sint32_bounds [of a] by (intro uint_word_of_int_id) simp_all
  ultimately have "uint (- a) = - sint a" by metis
  with True show ?thesis by (simp add: unsigned_abs_def)
next
  case False
  then show ?thesis by (simp add: unsigned_abs_def uint_eq_sint)
qed

lemma recip_bounds:
  fixes A B :: int
  assumes "0 \<le> A" and "0 < B"
  defines "R \<equiv> 2147483648 div B"
  defines "Q \<equiv> A * R * 2 div 65536" and "E \<equiv> A * 65536 div B"
  shows "Q \<le> E" and "E \<le> Q + A div 32768 + 1"
proof -
  have R: "R * B \<le> 2147483648" "2147483648 < (R + 1) * B" "0 \<le> R"
    using int_div_bounds [OF assms(2), of 2147483648] assms(2)
    by (simp_all add: R_def pos_imp_zdiv_nonneg_iff)
  have Q: "Q * 65536 \<le> A * R * 2" "A * R * 2 < Q * 65536 + 65536"
    unfolding Q_def by linarith+
  have E: "E * B \<le> A * 65536" "A * 65536 < (E + 1) * B"
    using int_div_bounds [OF assms(2), of "A * 65536"] by (simp_all add: E_def)
  have D: "A < (A div 32768) * 32768 + 32768" by linarith
  have "Q * B * 65536 = Q * 65536 * B" by (simp add: algebra_simps)
  also have "\<dots> \<le> A * R * 2 * B"
    using Q(1) assms(2) by (intro mult_right_mono) simp_all
  also have "\<dots> = A * 2 * (R * B)" by (simp add: algebra_simps)
  also have "\<dots> \<le> A * 2 * 2147483648"
    using R(1) assms(1) by (intro mult_left_mono) simp_all
  finally have "Q * B \<le> A * 65536" by linarith
  then have "Q * B < (E + 1) * B" using E(2) by linarith
  then show "Q \<le> E" using assms(2) by (simp add: mult_less_cancel_right_pos)
  show "E \<le> Q + A div 32768 + 1"
  proof (rule ccontr)
    assume "\<not> ?thesis"
    then have "2 * A * R + 2 * A < E * 65536"
      using Q(2) D by (simp add: algebra_simps)
    then have "(2 * A * (R + 1)) * B < (E * 65536) * B"
      using assms(2) by (intro mult_strict_right_mono) (simp_all add: algebra_simps)
    moreover have "2 * A * 2147483648 \<le> 2 * A * ((R + 1) * B)"
      using R(2) assms(1) by (intro mult_left_mono) simp_all
    ultimately show False using E(1) by (simp add: algebra_simps)
  qed
qed

lemma uint_recip_quot:
  fixes a b :: i32
  assumes "b \<noteq> 0"
  defines "A \<equiv> \<bar>sint a\<bar>" and "R \<equiv> 2147483648 div \<bar>sint b\<bar>"
  shows "uint (as_u32 (drop_bit 16 (as_u64 (unsigned_abs a) * as_u64 (0x80000000 div unsigned_abs b) * 2)))
    = (A * R * 2 div 65536) mod 4294967296"
proof -
  have B: "1 \<le> \<bar>sint b\<bar>" using assms(1) sint_eq_0 [of b] by linarith
  have r: "uint (0x80000000 div unsigned_abs b) = R"
    by (simp add: uint_div_distrib uint_unsigned_abs R_def)
  have R: "0 \<le> R" "R \<le> 2147483648"
    using B zdiv_mono2 [of 2147483648 1 "\<bar>sint b\<bar>"] by (simp_all add: R_def pos_imp_zdiv_nonneg_iff)
  have A: "0 \<le> A" "A \<le> 2147483648"
    using sint32_bounds [of a] by (simp_all add: A_def abs_le_iff)
  have AR: "A * R \<le> 2147483648 * 2147483648"
    using A R by (intro mult_mono) simp_all
  have w: "as_u64 (unsigned_abs a) * as_u64 (0x80000000 div unsigned_abs b) * 2 = word_of_int (A * R * 2)"
    unfolding of_int_mult
    by (simp add: as_u64_def A_def flip: r uint_unsigned_abs)
  have "uint (as_u64 (unsigned_abs a) * as_u64 (0x80000000 div unsigned_abs b) * 2) = A * R * 2"
    unfolding w using A R AR by (intro uint_word_of_int_id) simp_all
  then show ?thesis
    unfolding as_u32_def unsigned_ucast_eq unsigned_drop_bit_eq
    using A R AR by (simp add: drop_bit_int_def take_bit_int_def)
qed

lemma lp_lpir_fdiv_recip_value:
  fixes a b :: i32
  assumes "b \<noteq> 0"
  defines "Q \<equiv> \<bar>sint a\<bar> * (2147483648 div \<bar>sint b\<bar>) * 2 div 65536"
  assumes "Q \<le> i32_max_int"
  shows "sint (lp_lpir_fdiv_recip_q32 a b) = (if (sint a < 0) \<noteq> (sint b < 0) then - Q else Q)"
proof -
  define q where "q = as_u32 (drop_bit 16 (as_u64 (unsigned_abs a) *
    as_u64 (0x80000000 div unsigned_abs b) * 2))"
  have "0 \<le> Q" by (simp add: Q_def pos_imp_zdiv_nonneg_iff div_int_pos_iff)
  then have "uint q = Q"
    using assms(3) uint_recip_quot [OF assms(1), of a] by (simp add: q_def Q_def)
  then have q: "sint q = Q" using assms(3) by (simp add: sint_eq_uint)
  moreover have "sint (- q) = - Q" using q \<open>0 \<le> Q\<close> by (simp add: sint_neg_i32)
  ultimately show ?thesis
    using assms(1) by (simp add: lp_lpir_fdiv_recip_q32_def Let_def sint_xor_sign flip: q_def)
qed



text \<open>The shortfall is not small next to the quotient when the divisor is large: 32767 divided by
  16384.5 is 1.9999 by the exact divide and 0.99997 by the shipped one.\<close>

theorem fdiv_recip_large_divisor:
  "sint (lp_lpir_fdiv_recip_q32 2147418112 1073774592) = 65534 \<and>
   sint (lp_lpir_fdiv_q32 2147418112 1073774592) = 131064"
  by code_simp

section \<open>Rounding\<close>

lemma low_bit_even: "(w :: i32) AND 1 = 0 \<longleftrightarrow> even (sint w)"
proof -
  have "w AND 1 = take_bit 1 w" by (simp add: take_bit_eq_mask)
  moreover have "sint (take_bit 1 w) = sint w mod 2" using sint_take_bit [of 1 w] by simp
  ultimately show ?thesis by (metis sint_eq_0 even_iff_mod_2_eq_zero)
qed

lemma halfway_iff: "(x :: i32) AND 0xFFFF = 0x8000 \<longleftrightarrow> sint x mod 65536 = 32768"
  using sint_inj [of "x AND 0xFFFF" "0x8000"] by (simp add: low16_mod)

lemma shl16_one: "push_bit 16 (1 :: i32) = 65536"
  by (simp add: push_bit_eq_mult)

lemma ffloor_value: "sint (lp_lpir_ffloor_q32 v) = sint v div 65536 * 65536"
  by (simp add: lp_lpir_ffloor_q32_def floor16)

lemma fceil_value:
  assumes "sint v \<le> i32_max_int - 65535"
  shows "sint (lp_lpir_fceil_q32 v) = (sint v + 65535) div 65536 * 65536"
  using assms sint32_bounds [of v] by (simp add: lp_lpir_fceil_q32_def floor16 sint_add_i32)

lemma ftrunc_value: "sint (lp_lpir_ftrunc_q32 v) = sint v sdiv 65536 * 65536"
proof -
  define t where "t = push_bit 16 (signed_drop_bit 16 v)"
  have t: "sint t = sint v div 65536 * 65536" by (simp add: t_def floor16)
  have ne: "v \<noteq> t \<longleftrightarrow> sint v mod 65536 \<noteq> 0"
    unfolding sint_inj [symmetric] t minus_div_mult_eq_mod [symmetric] by auto
  have d: "sint v = sint v div 65536 * 65536 + sint v mod 65536" by simp
  have s: "sint v sdiv 65536 = (if sint v < 0 then - (- sint v div 65536) else sint v div 65536)"
    by (simp add: signed_divide_int_def sgn_if)
  show ?thesis
  proof (cases "sint v < 0 \<and> sint v mod 65536 \<noteq> 0")
    case True
    have "- (- sint v div 65536) = sint v div 65536 + 1"
      using True by (simp add: zdiv_zminus1_eq_if)
    moreover have "sint (t + 65536) = sint t + 65536"
      using True pos_imp_zdiv_neg_iff [of 65536 "sint v"] sint_div16_bounds [of v] t
        sint_add_i32 [of t 65536] by simp
    ultimately show ?thesis
      using True ne t s by (simp add: lp_lpir_ftrunc_q32_def Let_def shl16_one flip: t_def)
  next
    case False
    then have "sint v sdiv 65536 = sint v div 65536"
      unfolding s by (auto simp: zdiv_zminus1_eq_if)
    with False ne t show ?thesis by (auto simp: lp_lpir_ftrunc_q32_def Let_def simp flip: t_def)
  qed
qed

lemma round_value:
  assumes "sint x < 2147450880"
  shows "sint (lps_round_q32 x) = sgn (sint x) * ((\<bar>sint x\<bar> + 32768) div 65536) * 65536"
proof (cases "sint x > 0")
  case True
  then have "sint (x + 0x8000) = sint x + 32768"
    using assms by (simp add: sint_add_i32)
  with True show ?thesis by (auto simp: lps_round_q32_def Let_def floor16)
next
  case False
  then have a: "sint (x + 0x8000) = sint x + 32768"
    using sint32_bounds [of x] by (simp add: sint_add_i32)
  define r where "r = push_bit 16 (signed_drop_bit 16 (x + 0x8000))"
  have r: "sint r = (sint x + 32768) div 65536 * 65536" by (simp add: r_def floor16 a)
  have "x = 0 \<or> sint x < 0" using False sint_eq_0 [of x] by linarith
  then show ?thesis
  proof
    assume x: "sint x < 0"
    show ?thesis
    proof (cases "sint x mod 65536 = 32768")
      case True
      then have up: "(sint x + 32768) div 65536 = sint x div 65536 + 1"
        and down: "(- sint x + 32768) div 65536 = - (sint x div 65536)"
        using div_mult_mod_eq [of "sint x" 65536] by (intro int_div_unique; simp)+
      then have "i32_min_int \<le> sint r - 65536"
        using sint_div16_bounds [of x] up unfolding r by simp
      then have "sint (r - 0x10000) = sint r - 65536"
        using x unfolding r by (subst sint_sub_i32) (simp_all add: r)
      moreover have "(sint x + 32768) div 65536 * 65536 - 65536 = - ((- sint x + 32768) div 65536) * 65536"
        unfolding up down by simp
      ultimately show ?thesis
        using x True by (auto simp: lps_round_q32_def Let_def halfway_iff r simp flip: r_def)
    next
      case False
      obtain k m where x: "sint x = k * 65536 + m" "0 \<le> m" "m < 65536" "sint x mod 65536 = m"
        by (rule int_div_mod_split [of 65536 "sint x"]) simp_all
      define q where "q = (if m < 32768 then k else k + 1)"
      have "(sint x + 32768) div 65536 = q" and "(- sint x + 32768) div 65536 = - q"
        using False x by (intro int_div_unique; simp add: q_def split: if_splits)+
      moreover have "lps_round_q32 x = r"
        using \<open>sint x < 0\<close> False sint_eq_0 [of x]
        by (simp add: lps_round_q32_def Let_def halfway_iff r_def)
      ultimately show ?thesis using \<open>sint x < 0\<close> by (simp add: r)
    qed
  qed (simp add: lps_round_q32_def)
qed

text \<open>The nearest integer with ties to even, as a relation between a scaled value and an integer.\<close>

definition nearest_even :: "int \<Rightarrow> int \<Rightarrow> bool" where
  "nearest_even v n \<longleftrightarrow>
     \<bar>v - n * 65536\<bar> \<le> 32768 \<and> (\<bar>v - n * 65536\<bar> = 32768 \<longrightarrow> even n)"

lemma fnearest_halfway:
  assumes "sint x mod 65536 = 32768" and "sint x < 2147450880"
  shows "\<exists>n. sint (lp_lpir_fnearest_q32 x) = n * 65536 \<and> nearest_even (sint x) n"
proof -
  obtain k where k: "sint x = k * 65536 + 32768" "sint x div 65536 = k"
    using assms(1) by (rule_tac int_div_mod_split [of 65536 "sint x"]) simp_all
  have kb: "- 32768 \<le> k" "k < 32767" using sint_div16_bounds [of x] assms(2) k by simp_all
  define ip where "ip = (if 0 \<le> sint x then signed_drop_bit 16 x else signed_drop_bit 16 (x + 0xFFFF))"
  define i where "i = (if 0 \<le> sint x then k else k + 1)"
  have "sint (x + 0xFFFF) = sint x + 65535" if "sint x < 0"
    using that sint32_bounds [of x] by (simp add: sint_add_i32)
  moreover have "(sint x + 65535) div 65536 = k + 1"
    by (intro int_div_unique) (simp_all add: k)
  ultimately have ip: "sint ip = i"
    by (auto simp: ip_def i_def wide_simps k)
  have "0 \<le> sint x \<longleftrightarrow> 0 \<le> k" using k by linarith
  then have ib: "- 32768 \<le> i" "i < 32767" using kb by (auto simp: i_def)
  define n where "n = (if even i then i else if 0 \<le> sint x then i + 1 else i - 1)"
  have "sint (ip + 1) = i + 1" "odd i \<Longrightarrow> sint (ip - 1) = i - 1"
    using ib by (simp_all add: sint_add_i32 sint_sub_i32 ip)
  moreover have "odd i \<Longrightarrow> - 32768 \<le> i - 1" using ib by presburger
  moreover have "lp_lpir_fnearest_q32 x = (if ip AND 1 = 0 then push_bit 16 ip
      else if 0 < sint x then push_bit 16 (ip + 1) else push_bit 16 (ip - 1))"
    unfolding lp_lpir_fnearest_q32_def Let_def ip_def [symmetric]
    using assms(1) by (auto simp: halfway_iff)
  moreover have "0 < sint x \<longleftrightarrow> 0 \<le> sint x" using assms(1) by (cases "sint x = 0") auto
  ultimately have "sint (lp_lpir_fnearest_q32 x) = n * 65536"
    using ib by (auto simp: low_bit_even ip n_def sint_shl16)
  moreover have "nearest_even (sint x) n"
    unfolding nearest_even_def by (auto simp: n_def i_def k)
  ultimately show ?thesis by blast
qed

lemma fnearest_other:
  assumes "sint x mod 65536 \<noteq> 32768" and "sint x < 2147450880"
  shows "\<exists>n. sint (lp_lpir_fnearest_q32 x) = n * 65536 \<and> nearest_even (sint x) n"
proof -
  define n where "n = (sint x + 32768) div 65536"
  have "sint (x + 0x8000) = sint x + 32768"
    using assms(2) sint32_bounds [of x] by (simp add: sint_add_i32)
  then have "sint (lp_lpir_fnearest_q32 x) = n * 65536"
    using assms(1) by (auto simp: lp_lpir_fnearest_q32_def Let_def halfway_iff floor16 n_def)
  moreover have "\<bar>sint x - n * 65536\<bar> \<le> 32768"
    using int_div_bounds [of 65536 "sint x + 32768"] unfolding n_def abs_le_iff by auto
  moreover have "\<bar>sint x - n * 65536\<bar> \<noteq> 32768"
  proof
    assume "\<bar>sint x - n * 65536\<bar> = 32768"
    then obtain k where k: "sint x = 32768 + k * 65536"
      by (auto simp: abs_if split: if_splits intro: that [of n] that [of "n - 1"])
    have "sint x mod 65536 = 32768" unfolding k by (simp only: mod_mult_self1) simp
    with assms(1) show False ..
  qed
  ultimately show ?thesis by (auto simp: nearest_even_def)
qed

text \<open>Rounding builtins on the scaled integer: floor rounds down, truncation towards zero,
  \<^verbatim>\<open>round\<close> to the nearest with ties away from zero, \<^verbatim>\<open>roundEven\<close> to the nearest with ties to even.
  The last two need a result that is representable; values of 32767.5 and above wrap.\<close>

theorem q32_rounding:
  assumes "sint x < 2147450880"
  shows "sint (lp_lpir_ffloor_q32 x) = sint x div 65536 * 65536 \<and>
    sint (lp_lpir_ftrunc_q32 x) = sint x sdiv 65536 * 65536 \<and>
    sint (lps_round_q32 x) = sgn (sint x) * ((\<bar>sint x\<bar> + 32768) div 65536) * 65536 \<and>
    (\<exists>n. sint (lp_lpir_fnearest_q32 x) = n * 65536 \<and> nearest_even (sint x) n)"
  using ffloor_value [of x] ftrunc_value [of x] round_value [OF assms]
    fnearest_halfway [OF _ assms] fnearest_other [OF _ assms]
  by blast

theorem q32_rounding_witness:
  "sint (lp_lpir_ffloor_q32 (- 98304)) = - 131072 \<and> sint (lp_lpir_ftrunc_q32 (- 98304)) = - 65536 \<and>
   sint (lps_round_q32 (- 98304)) = - 131072 \<and>
   (\<exists>n. sint (lp_lpir_fnearest_q32 (- 98304)) = n * 65536 \<and> nearest_even (- 98304) n)"
  using q32_rounding [of "- 98304"] by simp

lemma ftoi_value: "sint (lp_lpir_ftoi_sat_s_q32 v) = sint v sdiv 65536"
proof -
  have Q: "Q32_FRAC = 65535" by (simp add: Q32_FRAC_def push_bit_eq_mult)
  have "sint (v + 65535) = sint v + 65535" if "sint v < 0"
    using that sint32_bounds [of v] by (simp add: sint_add_i32)
  moreover have "(sint v + 65535) div 65536 = - (- sint v div 65536)"
    using int_div_bounds [of 65536 "- sint v"] by (intro int_div_unique) auto
  ultimately show ?thesis
    by (auto simp: lp_lpir_ftoi_sat_s_q32_def Let_def Q wide_simps signed_divide_int_def sgn_if)
qed

lemma itof_value: "sint (lp_lpir_itof_s_q32 x) = clamp_int (- 32768) 32767 (sint x) * 65536"
proof -
  define c where "c = (if sint x < - 32768 then - 32768 else if sint x > 32767 then 32767 else x)"
  have "sint c = clamp_int (- 32768) 32767 (sint x)"
    by (auto simp: c_def clamp_int_def)
  moreover have "lp_lpir_itof_s_q32 x = push_bit 16 c"
    by (simp add: lp_lpir_itof_s_q32_def c_def Let_def)
  moreover have "- 32768 \<le> sint c" "sint c \<le> 32767" by (auto simp: c_def)
  ultimately show ?thesis by (simp add: sint_shl16)
qed

text \<open>Conversions: a float converts to an integer by truncation, an integer converts to a float
  with saturation to the range -32768..32767, and converting there and back is that saturation, so
  it is the identity on every representable integer.\<close>

theorem itof_ftoi_roundtrip:
  "sint (lp_lpir_ftoi_sat_s_q32 v) = sint v sdiv 65536 \<and>
   sint (lp_lpir_itof_s_q32 x) = clamp_int (- 32768) 32767 (sint x) * 65536 \<and>
   sint (lp_lpir_ftoi_sat_s_q32 (lp_lpir_itof_s_q32 x)) = clamp_int (- 32768) 32767 (sint x)"
  by (simp add: ftoi_value itof_value signed_divide_int_def abs_mult sgn_mult sgn_mult_abs)

end
