(* ===== verification/Q32_Sqrt.thy ===== *)
theory Q32_Sqrt
  imports Q32
begin

text \<open>
  The square-root builtin \<^verbatim>\<open>lps-builtins/src/builtins/lpir/fsqrt_q32.rs\<close>: a table seed, two Newton
  steps for the reciprocal root in 32-bit arithmetic, and an upward correction loop. It is shown
  equal, on every input, to the 64-bit integer square root it replaced. The source proves this by
  running all \<open>2^32\<close> inputs; here it follows from one inequality: a Newton step on truncated words
  never exceeds the true reciprocal root.
\<close>

section \<open>Definitions\<close>

definition rsqrt_seed_entry :: "nat \<Rightarrow> u16" where
  "rsqrt_seed_entry i =
     (if i < 64 then 0xFFFF
      else let four_v = 2 ^ 41 div (2 * i + 1) in of_nat ((1 + isqrt four_v) div 2))"

definition RSQRT_SEED_Q15 :: "u16 list" where
  "RSQRT_SEED_Q15 = map rsqrt_seed_entry [0..<256]"

definition mul_hi_u32 :: "u32 \<Rightarrow> u32 \<Rightarrow> u32" where
  "mul_hi_u32 a b = as_u32 (drop_bit 32 (as_u64 a * as_u64 b))"

definition rsqrt_newton :: "u32 \<Rightarrow> u32 \<Rightarrow> u32" where
  "rsqrt_newton m recip =
     (let sq = mul_hi_u32 recip recip;
          m_sq = mul_hi_u32 m sq;
          residual = push_bit 28 3 - m_sq
      in push_bit 3 (mul_hi_u32 recip residual - 1))"

definition fsqrt_candidate :: "u32 \<Rightarrow> u32" where
  "fsqrt_candidate x =
     (let m = x; k = 0;
          sh = (if m < push_bit 16 1 then 16 else 0); m = push_bit sh m; k = k + sh div 2;
          sh = (if m < push_bit 24 1 then 8 else 0); m = push_bit sh m; k = k + sh div 2;
          sh = (if m < push_bit 28 1 then 4 else 0); m = push_bit sh m; k = k + sh div 2;
          sh = (if m < push_bit 30 1 then 2 else 0); m = push_bit sh m; k = k + sh div 2;
          recip = push_bit 15 (ucast (RSQRT_SEED_Q15 ! unat (drop_bit 24 m)));
          recip = rsqrt_newton m recip;
          recip = rsqrt_newton m recip;
          scaled_root = push_bit 2 (mul_hi_u32 m recip)
      in drop_bit (8 + k) scaled_root)"

text \<open>The correction loop; \<open>None\<close> is a loop that does not end.\<close>

partial_function (option) fsqrt_correct :: "u32 \<Rightarrow> u32 \<Rightarrow> u32 \<Rightarrow> u32 option" where
  "fsqrt_correct n_hi n_lo root =
     (let nxt = root + 1;
          sq_lo = nxt * nxt;
          sq_hi = mul_hi_u32 nxt nxt
      in if sq_hi > n_hi \<or> (sq_hi = n_hi \<and> sq_lo > n_lo) then Some root
         else fsqrt_correct n_hi n_lo nxt)"

definition lp_lpir_fsqrt_q32 :: "i32 \<Rightarrow> i32 option" where
  "lp_lpir_fsqrt_q32 x =
     (if sint x \<le> 0 then Some 0
      else fsqrt_correct (drop_bit 16 x) (push_bit 16 x) (fsqrt_candidate x))"

section \<open>Words as integers\<close>

lemma uint_mul_hi: "uint (mul_hi_u32 a b) = uint a * uint b div 2 ^ 32"
proof -
  have lt: "uint a * uint b < 18446744073709551616"
    using mult_strict_mono [of "uint a" 4294967296 "uint b" 4294967296] uint32_bounds by simp
  have "as_u64 a * as_u64 b = word_of_int (uint a * uint b)"
    by (simp add: as_u64_def)
  then have "uint (as_u64 a * as_u64 b) = uint a * uint b"
    using lt uint_word_of_int_id [of "uint a * uint b", where 'a = 64] by simp
  moreover have "uint a * uint b div 2 ^ 32 < 2 ^ 32"
    using lt by (intro int_div_less) simp_all
  moreover have "0 \<le> uint a * uint b div 2 ^ 32"
    by (simp add: pos_imp_zdiv_nonneg_iff)
  ultimately show ?thesis
    unfolding mul_hi_u32_def as_u32_def unsigned_ucast_eq unsigned_drop_bit_eq
    by (simp add: drop_bit_int_def take_bit_int_eq_self)
qed

lemma uint_shl:
  assumes "uint (w :: u32) * 2 ^ n < 4294967296"
  shows "uint (push_bit n w) = uint w * 2 ^ n"
  unfolding unsigned_push_bit_eq using assms by (simp add: push_bit_int_def take_bit_int_eq_self)

lemma uint_shr: "uint (drop_bit n (w :: u32)) = uint w div 2 ^ n"
proof -
  have "take_bit 32 (uint w) = uint w"
    using uint32_bounds [of w] by (simp add: take_bit_int_eq_self)
  then show ?thesis
    unfolding unsigned_drop_bit_eq by (simp add: drop_bit_int_def)
qed

lemma uint_minus_id:
  assumes "uint (b :: u32) \<le> uint a"
  shows "uint (a - b) = uint a - uint b"
  using assms uint_sub_lem [of b a] by simp

section \<open>A Newton step stays below the reciprocal root\<close>

lemma newton_poly:
  fixes N K :: int
  assumes "0 \<le> N" and "N \<le> 3 * K"
  shows "N * ((3 * K - N) * (3 * K - N)) \<le> 4 * (K * K * K)"
proof -
  have "4 * (K * K * K) - N * ((3 * K - N) * (3 * K - N)) = ((N - K) * (N - K)) * (4 * K - N)"
    by (simp add: algebra_simps)
  also have "0 \<le> \<dots>" using assms by (intro mult_nonneg_nonneg zero_le_square) linarith
  finally show ?thesis by simp
qed

lemma square_mono_int:
  fixes a b :: int
  shows "0 \<le> a \<Longrightarrow> a \<le> b \<Longrightarrow> a * a \<le> b * b"
  by (intro mult_mono) simp_all

lemma square_le_cancel_int:
  fixes a b :: int
  assumes "a * a \<le> b * b" and "0 \<le> b"
  shows "a \<le> b"
proof (rule ccontr)
  assume "\<not> a \<le> b"
  then have "b * b < a * a" using assms(2) by (intro mult_strict_mono) simp_all
  then show False using assms(1) by simp
qed

lemma newton_below:
  fixes m R :: int
  assumes m: "0 \<le> m" "m \<le> 2 ^ 32" and R: "0 \<le> R" "R \<le> 2 ^ 31" and N: "m * (R * R) \<le> 3 * 2 ^ 92"
  defines "p \<equiv> m * (R * R div 2 ^ 32) div 2 ^ 32"
  defines "T \<equiv> R * (3 * 2 ^ 28 - p) div 2 ^ 32"
  assumes T: "1 \<le> T"
  shows "m * ((T - 1) * 8 * ((T - 1) * 8)) \<le> 2 ^ 92"
proof -
  define N where "N = m * (R * R)"
  define V where "V = 3 * 2 ^ 92 - N"
  have sq: "R * R - 2 ^ 32 \<le> (R * R div 2 ^ 32) * 2 ^ 32"
    using int_div_bounds(2) [of "2 ^ 32" "R * R"] by simp
  have "N - 2 ^ 64 \<le> m * (R * R - 2 ^ 32)"
    using m by (simp add: N_def algebra_simps)
  also have "\<dots> \<le> m * ((R * R div 2 ^ 32) * 2 ^ 32)"
    using sq m by (intro mult_left_mono) simp_all
  also have "\<dots> = (m * (R * R div 2 ^ 32)) * 2 ^ 32" by (simp add: algebra_simps)
  also have "\<dots> \<le> (p + 1) * 2 ^ 32 * 2 ^ 32"
    using int_div_bounds(2) [of "2 ^ 32" "m * (R * R div 2 ^ 32)"] unfolding p_def
    by (intro mult_right_mono) simp_all
  finally have p: "N - 2 ^ 65 \<le> p * 2 ^ 64" by simp
  have "T * 2 ^ 32 \<le> R * (3 * 2 ^ 28 - p)"
    using int_div_bounds(1) [of "2 ^ 32" "R * (3 * 2 ^ 28 - p)"] by (simp add: T_def)
  then have "T * 2 ^ 96 \<le> R * (3 * 2 ^ 92 - p * 2 ^ 64)"
    by (simp add: algebra_simps)
  also have "\<dots> \<le> R * (V + 2 ^ 65)"
    using p R by (intro mult_left_mono) (simp_all add: V_def)
  also have "\<dots> \<le> R * V + 2 ^ 96"
    using R by (simp add: algebra_simps)
  finally have t: "(T - 1) * 8 * 2 ^ 93 \<le> R * V" by simp
  have "(m * ((T - 1) * 8 * ((T - 1) * 8))) * 2 ^ 186
      = m * (((T - 1) * 8 * 2 ^ 93) * ((T - 1) * 8 * 2 ^ 93))"
    by (simp add: algebra_simps)
  also have "\<dots> \<le> m * ((R * V) * (R * V))"
    by (rule mult_left_mono [OF square_mono_int [OF _ t] m(1)]) (use T in simp)
  also have "\<dots> = N * (V * V)" by (simp add: N_def algebra_simps)
  also have "\<dots> \<le> 4 * (2 ^ 92 * 2 ^ 92 * 2 ^ 92)"
    unfolding V_def by (rule newton_poly) (use m R N in \<open>simp_all add: N_def\<close>)
  finally show ?thesis by simp
qed

text \<open>One step on words: nothing wraps, and the result is at most the true reciprocal root.\<close>

lemma rsqrt_newton_step:
  fixes m r :: u32
  assumes m: "2 ^ 30 \<le> uint m" and r: "2 ^ 28 \<le> uint r" "uint r \<le> 2 ^ 31"
    and N: "uint m * (uint r * uint r) \<le> 2 * 2 ^ 92"
  shows "uint m * (uint (rsqrt_newton m r) * uint (rsqrt_newton m r)) \<le> 2 ^ 92"
    and "uint (rsqrt_newton m r) \<le> 2 ^ 31"
    and "2 ^ 30 \<le> uint r \<Longrightarrow> 2 ^ 28 \<le> uint (rsqrt_newton m r)"
proof -
  define p where "p = uint m * (uint r * uint r div 2 ^ 32) div 2 ^ 32"
  define T where "T = uint r * (3 * 2 ^ 28 - p) div 2 ^ 32"
  have m32: "uint m \<le> 2 ^ 32" using uint32_bounds(2) [of m] by simp
  have "p * 2 ^ 32 \<le> uint m * (uint r * uint r div 2 ^ 32)"
    unfolding p_def by (rule int_div_bounds(1)) simp
  also have "\<dots> * 2 ^ 32 \<le> uint m * (uint r * uint r)"
    using mult_left_mono [OF int_div_bounds(1) [of "2 ^ 32" "uint r * uint r"], of "uint m"]
    by (simp add: mult.assoc)
  finally have p: "p \<le> 2 * 2 ^ 28" using N by simp
  have p0: "0 \<le> p" by (simp add: p_def pos_imp_zdiv_nonneg_iff)
  have "uint r * 2 ^ 28 \<le> uint r * (3 * 2 ^ 28 - p)"
    using p by (intro mult_left_mono) simp_all
  also have "\<dots> < (T + 1) * 2 ^ 32"
    unfolding T_def by (rule int_div_bounds(2)) simp
  finally have Tlo: "uint r < (T + 1) * 16" by simp
  then have T1: "1 \<le> T" using r by simp
  have below: "uint m * ((T - 1) * 8 * ((T - 1) * 8)) \<le> 2 ^ 92"
    unfolding T_def p_def
    by (rule newton_below) (use m32 r N T1 in \<open>simp_all add: T_def p_def\<close>)
  have "2 ^ 30 * ((T - 1) * 8 * ((T - 1) * 8)) \<le> uint m * ((T - 1) * 8 * ((T - 1) * 8))"
    using m by (intro mult_right_mono zero_le_square)
  then have "(T - 1) * 8 * ((T - 1) * 8) \<le> 2 ^ 31 * 2 ^ 31" using below by simp
  then have T8: "(T - 1) * 8 \<le> 2 ^ 31" by (rule square_le_cancel_int) simp
  have "uint (push_bit 28 3 - mul_hi_u32 m (mul_hi_u32 r r)) = 3 * 2 ^ 28 - p"
    using p by (subst uint_minus_id) (simp_all add: uint_mul_hi p_def)
  then have "uint (mul_hi_u32 r (push_bit 28 3 - mul_hi_u32 m (mul_hi_u32 r r))) = T"
    by (simp add: uint_mul_hi T_def)
  then have "uint (mul_hi_u32 r (push_bit 28 3 - mul_hi_u32 m (mul_hi_u32 r r)) - 1) = T - 1"
    using T1 by (subst uint_minus_id) simp_all
  then have *: "uint (rsqrt_newton m r) = (T - 1) * 8"
    using T8 by (simp add: rsqrt_newton_def Let_def uint_shl)
  show "uint m * (uint (rsqrt_newton m r) * uint (rsqrt_newton m r)) \<le> 2 ^ 92"
    unfolding * by (rule below)
  show "uint (rsqrt_newton m r) \<le> 2 ^ 31"
    unfolding * by (rule T8)
  show "2 ^ 28 \<le> uint (rsqrt_newton m r)" if "2 ^ 30 \<le> uint r"
    unfolding * using Tlo that by simp
qed

section \<open>The seed table\<close>

lemma seed_entry_bounds:
  assumes "64 \<le> i" and "i < 256"
  defines "e \<equiv> (1 + isqrt (2 ^ 41 div (2 * i + 1))) div 2"
  shows "32768 \<le> e" and "e \<le> 65535" and "(i + 1) * (e * e) \<le> 2 ^ 39"
proof -
  define s where "s = isqrt (2 ^ 41 div (2 * i + 1))"
  have le: "s * s * (2 * i + 1) \<le> 2 ^ 41"
    using mult_le_mono1 [of "s * s" "2 ^ 41 div (2 * i + 1)" "2 * i + 1"]
      isqrt_correct [of "2 ^ 41 div (2 * i + 1)"] div_times_less_eq_dividend [of "2 ^ 41" "2 * i + 1"]
    unfolding s_def by linarith
  have "65535 * 65535 * (2 * i + 1) \<le> (2 ^ 41 :: nat)" using assms(2) by simp
  then have "65535 * 65535 \<le> (2 ^ 41 :: nat) div (2 * i + 1)"
    by (subst less_eq_div_iff_mult_less_eq) simp_all
  then have lo: "65535 \<le> s" unfolding s_def by (rule isqrt_le)
  have "s * s * 129 \<le> s * s * (2 * i + 1)" using assms(1) by (intro mult_le_mono2) simp
  from order_trans [OF this le] have "s * s \<le> 131070 * 131070" by simp
  then have hi: "s \<le> 131070"
    using mult_le_mono [of 131071 s 131071 s] by (cases "131071 \<le> s") simp_all
  show "32768 \<le> e" and "e \<le> 65535" using lo hi unfolding e_def s_def [symmetric] by simp_all
  have "(2 * e) * (2 * e) \<le> (1 + s) * (1 + s)"
    unfolding e_def s_def [symmetric] by (intro mult_le_mono) simp_all
  moreover have "2 * ((1 + s) * (1 + s)) \<le> 3 * (s * s)"
  proof -
    have "2 * ((1 + s) * (1 + s)) = 2 * (s * s) + 4 * s + 2" by (simp add: algebra_simps)
    with mult_le_mono1 [OF lo, of s] lo show ?thesis by linarith
  qed
  ultimately have "8 * (e * e) \<le> 3 * (s * s)" by simp
  then have "3 * (i + 1) * (8 * (e * e)) \<le> 2 * (2 * i + 1) * (3 * (s * s))"
    by (rule mult_le_mono [rotated]) (use assms(1) in simp)
  also have "\<dots> \<le> 6 * 2 ^ 41" using le by (simp add: algebra_simps)
  also have "3 * (i + 1) * (8 * (e * e)) = 24 * ((i + 1) * (e * e))" by (simp add: algebra_simps)
  finally show "(i + 1) * (e * e) \<le> 2 ^ 39" by (simp add: mult.assoc distrib_right)
qed

lemma seed_table:
  assumes "64 \<le> i" and "i < 256"
  shows "32768 \<le> uint (RSQRT_SEED_Q15 ! i)" and "uint (RSQRT_SEED_Q15 ! i) \<le> 65535"
    and "(int i + 1) * (uint (RSQRT_SEED_Q15 ! i) * uint (RSQRT_SEED_Q15 ! i)) \<le> 2 ^ 39"
proof -
  define e where "e = (1 + isqrt (2 ^ 41 div (2 * i + 1))) div 2"
  note b = seed_entry_bounds [OF assms, folded e_def]
  have "RSQRT_SEED_Q15 ! i = of_nat e"
    using assms by (simp add: RSQRT_SEED_Q15_def rsqrt_seed_entry_def e_def)
  then have *: "uint (RSQRT_SEED_Q15 ! i) = int e"
    using b(2) by (simp add: unsigned_of_nat take_bit_nat_eq_self)
  show "32768 \<le> uint (RSQRT_SEED_Q15 ! i)" "uint (RSQRT_SEED_Q15 ! i) \<le> 65535"
    unfolding * using b by simp_all
  have "int ((i + 1) * (e * e)) \<le> int (2 ^ 39)" using b(3) by (simp only: of_nat_le_iff)
  then show "(int i + 1) * (uint (RSQRT_SEED_Q15 ! i) * uint (RSQRT_SEED_Q15 ! i)) \<le> 2 ^ 39"
    unfolding * by (simp add: distrib_right)
qed

section \<open>The candidate never exceeds the root\<close>

lemma normalise_step:
  fixes m :: u32
  assumes "2 ^ lo \<le> uint m" and "t + s = 32" and "lo + s = t" and "uint b = 2 ^ t"
  defines "sh \<equiv> if m < b then s else 0"
  shows "uint (push_bit sh m) = uint m * 2 ^ sh" and "2 ^ t \<le> uint (push_bit sh m)"
proof -
  have *: "uint (push_bit sh m) = uint m * 2 ^ sh \<and> 2 ^ t \<le> uint (push_bit sh m)"
  proof (cases "m < b")
    case True
    then have lt: "uint m < 2 ^ t" using assms(4) by (simp add: word_less_def)
    have "uint m * 2 ^ s < 2 ^ t * 2 ^ s" using lt by (intro mult_strict_right_mono) simp_all
    also have "\<dots> = 4294967296" unfolding power_add [symmetric] assms(2) by simp
    finally have eq: "uint (push_bit s m) = uint m * 2 ^ s" by (rule uint_shl)
    have "2 ^ lo * 2 ^ s \<le> uint m * 2 ^ s" using assms(1) by (intro mult_right_mono) simp_all
    then show ?thesis using True eq unfolding power_add [symmetric] assms(3) by (simp add: sh_def)
  next
    case False
    then show ?thesis using assms(4) by (simp add: sh_def word_less_def)
  qed
  from * show "uint (push_bit sh m) = uint m * 2 ^ sh" by (rule conjunct1)
  from * show "2 ^ t \<le> uint (push_bit sh m)" by (rule conjunct2)
qed

lemma even_shift: "sh \<in> {0, s} \<Longrightarrow> even s \<Longrightarrow> (2 :: int) ^ sh = 4 ^ (sh div 2)"
  by (auto elim!: evenE simp: power_mult)

lemma normalised_root:
  fixes m x :: u32
  assumes m: "2 ^ 30 \<le> uint m" and mx: "uint m = uint x * 4 ^ k"
  defines "r0 \<equiv> push_bit 15 (ucast (RSQRT_SEED_Q15 ! unat (drop_bit 24 m))) :: u32"
  defines "c \<equiv> drop_bit (8 + k) (push_bit 2 (mul_hi_u32 m (rsqrt_newton m (rsqrt_newton m r0))))"
  shows "uint c * uint c \<le> uint x * 65536"
proof -
  define i where "i = nat (uint m div 2 ^ 24)"
  define e where "e = uint (RSQRT_SEED_Q15 ! i)"
  have i: "int i = uint m div 2 ^ 24" "unat (drop_bit 24 m) = i"
    unfolding unat_eq_nat_uint uint_shr by (simp_all add: i_def pos_imp_zdiv_nonneg_iff)
  have "64 \<le> int i" "int i < 256" "uint m < (int i + 1) * 2 ^ 24"
    using m uint32_bounds(2) [of m] unfolding i(1)
    by (auto intro: int_div_less int_div_bounds(2))
  then have ib: "64 \<le> i" "i < 256" and mi: "uint m \<le> (int i + 1) * 2 ^ 24" by simp_all
  note seed = seed_table [OF ib, folded e_def]
  have "uint (ucast (RSQRT_SEED_Q15 ! i) :: u32) = e"
    unfolding unsigned_ucast_eq e_def using uint_lt2p [of "RSQRT_SEED_Q15 ! i"]
    by (simp add: take_bit_int_eq_self)
  then have r0: "uint r0 = e * 2 ^ 15"
    unfolding r0_def i(2) using seed(2) by (subst uint_shl) simp_all
  have "uint m * (uint r0 * uint r0) \<le> ((int i + 1) * 2 ^ 24) * (uint r0 * uint r0)"
    using mi by (intro mult_right_mono) simp_all
  also have "\<dots> = ((int i + 1) * (e * e)) * 2 ^ 54" unfolding r0 by (simp add: algebra_simps)
  also have "\<dots> \<le> 2 ^ 39 * 2 ^ 54" using seed(3) by (rule mult_right_mono) simp
  finally have N0: "uint m * (uint r0 * uint r0) \<le> 2 * 2 ^ 92" by simp
  have r0b: "2 ^ 30 \<le> uint r0" "uint r0 \<le> 2 ^ 31" using seed unfolding r0 by simp_all
  define r1 where "r1 = rsqrt_newton m r0"
  define r2 where "r2 = rsqrt_newton m r1"
  have s1: "uint m * (uint r1 * uint r1) \<le> 2 ^ 92" "uint r1 \<le> 2 ^ 31" "2 ^ 28 \<le> uint r1"
    unfolding r1_def using rsqrt_newton_step [OF m _ r0b(2) N0] r0b(1) by simp_all
  have s2: "uint m * (uint r2 * uint r2) \<le> 2 ^ 92"
    unfolding r2_def using s1 by (intro rsqrt_newton_step(1) m) simp_all
  define q where "q = uint m * uint r2 div 2 ^ 32"
  have q: "q * 2 ^ 32 \<le> uint m * uint r2" and q0: "0 \<le> q"
    unfolding q_def by (auto intro: int_div_bounds(1) simp: pos_imp_zdiv_nonneg_iff)
  have "(q * 2 ^ 32) * (q * 2 ^ 32) \<le> (uint m * uint r2) * (uint m * uint r2)"
    using q0 q by (intro square_mono_int) simp_all
  also have "\<dots> = uint m * (uint m * (uint r2 * uint r2))" by (simp add: algebra_simps)
  also have "\<dots> \<le> uint m * 2 ^ 92" using s2 by (intro mult_left_mono) simp_all
  finally have qq: "(q * 4) * (q * 4) \<le> uint m * 2 ^ 32" by simp
  also have "\<dots> < 2 ^ 32 * 2 ^ 32" using uint32_bounds(2) [of m] by simp
  finally have "q * 4 < 2 ^ 32" using square_mono_int [of "2 ^ 32" "q * 4"] by (meson not_le order.asym zero_le_numeral zero_le_power le_less_trans less_irrefl)
  moreover have "uint (mul_hi_u32 m r2) = q" by (simp add: uint_mul_hi q_def)
  ultimately have "uint (push_bit 2 (mul_hi_u32 m r2)) = q * 4" by (subst uint_shl) simp_all
  then have c: "uint c = q * 4 div 2 ^ (8 + k)"
    unfolding c_def r1_def [symmetric] r2_def [symmetric] uint_shr by simp
  have "uint c * 2 ^ (8 + k) \<le> q * 4" unfolding c by (rule int_div_bounds(1)) simp
  then have "(uint c * 2 ^ (8 + k)) * (uint c * 2 ^ (8 + k)) \<le> (q * 4) * (q * 4)"
    by (intro square_mono_int) simp_all
  also have "\<dots> \<le> (uint x * 65536) * (65536 * 4 ^ k)" using qq unfolding mx by simp
  also have "(uint c * 2 ^ (8 + k)) * (uint c * 2 ^ (8 + k)) = (uint c * uint c) * (65536 * 4 ^ k)"
    by (simp add: power_add power_mult_distrib [symmetric])
  finally show ?thesis by simp
qed

lemma fsqrt_candidate_le:
  assumes "0 < uint x"
  shows "uint (fsqrt_candidate x) * uint (fsqrt_candidate x) \<le> uint x * 65536"
proof -
  define sh1 where "sh1 = (if x < push_bit 16 1 then 16 else 0 :: nat)"
  define m1 where "m1 = push_bit sh1 x"
  define sh2 where "sh2 = (if m1 < push_bit 24 1 then 8 else 0 :: nat)"
  define m2 where "m2 = push_bit sh2 m1"
  define sh3 where "sh3 = (if m2 < push_bit 28 1 then 4 else 0 :: nat)"
  define m3 where "m3 = push_bit sh3 m2"
  define sh4 where "sh4 = (if m3 < push_bit 30 1 then 2 else 0 :: nat)"
  define m4 where "m4 = push_bit sh4 m3"
  note n1 = normalise_step [of 0 x 16 16 "push_bit 16 1", folded sh1_def m1_def]
  note n2 = normalise_step [of 16 m1 24 8 "push_bit 24 1", folded sh2_def m2_def]
  note n3 = normalise_step [of 24 m2 28 4 "push_bit 28 1", folded sh3_def m3_def]
  note n4 = normalise_step [of 28 m3 30 2 "push_bit 30 1", folded sh4_def m4_def]
  have b: "2 ^ 16 \<le> uint m1" "2 ^ 24 \<le> uint m2" "2 ^ 28 \<le> uint m3" "2 ^ 30 \<le> uint m4"
    using assms n1(2) n2(2) n3(2) n4(2) by simp_all
  have "uint m4 = uint x * 2 ^ sh1 * 2 ^ sh2 * 2 ^ sh3 * 2 ^ sh4"
    using assms n1(1) n2(1) n3(1) n4(1) b by simp
  also have "\<dots> = uint x * 4 ^ (sh1 div 2 + sh2 div 2 + sh3 div 2 + sh4 div 2)"
    unfolding power_add using even_shift [of sh1 16] even_shift [of sh2 8] even_shift [of sh3 4]
      even_shift [of sh4 2] by (simp add: sh1_def sh2_def sh3_def sh4_def)
  finally have mx: "uint m4 = \<dots>" .
  have "fsqrt_candidate x = drop_bit (8 + (0 + sh1 div 2 + sh2 div 2 + sh3 div 2 + sh4 div 2))
      (push_bit 2 (mul_hi_u32 m4 (rsqrt_newton m4 (rsqrt_newton m4
         (push_bit 15 (ucast (RSQRT_SEED_Q15 ! unat (drop_bit 24 m4))))))))"
    unfolding fsqrt_candidate_def Let_def sh1_def m1_def sh2_def m2_def sh3_def m3_def sh4_def m4_def
    by (rule refl)
  then show ?thesis using normalised_root [OF b(4) mx] unfolding add_0 by (simp only:)
qed

section \<open>The correction loop reaches the root\<close>

lemma uint_wrapping_mul: "uint ((a :: u32) * b) = uint a * uint b mod 2 ^ 32"
  by (simp add: uint_word_ariths)

lemma hi_lo_less:
  fixes a b :: int
  assumes B: "0 < B"
  shows "b div B < a div B \<or> (a div B = b div B \<and> b mod B < a mod B) \<longleftrightarrow> b < a"
proof -
  obtain qa ra where a: "a = qa * B + ra" "0 \<le> ra" "ra < B" "a div B = qa" "a mod B = ra"
    by (rule int_div_mod_split [OF B])
  obtain qb rb where b: "b = qb * B + rb" "0 \<le> rb" "rb < B" "b div B = qb" "b mod B = rb"
    by (rule int_div_mod_split [OF B])
  consider "qb < qa" | "qa = qb" | "qa < qb" by linarith
  then show ?thesis
  proof cases
    case 1
    then have "(qb + 1) * B \<le> qa * B" using B by (intro mult_right_mono) simp_all
    then have "b < a" using a b by (simp add: distrib_right)
    with 1 a(4) b(4) show ?thesis by simp
  next
    case 2
    then show ?thesis unfolding a(4,5) b(4,5) using a(1) b(1) by simp
  next
    case 3
    then have "(qa + 1) * B \<le> qb * B" using B by (intro mult_right_mono) simp_all
    then have "a < b" using a b by (simp add: distrib_right)
    with 3 a(4) b(4) show ?thesis by simp
  qed
qed

lemma fsqrt_correct_exit:
  fixes x nxt :: u32
  shows "(drop_bit 16 x < mul_hi_u32 nxt nxt \<or>
           (mul_hi_u32 nxt nxt = drop_bit 16 x \<and> push_bit 16 x < nxt * nxt)) \<longleftrightarrow>
         uint x * 65536 < uint nxt * uint nxt"
proof -
  have hi: "uint (drop_bit 16 x) = uint x * 65536 div 2 ^ 32"
    unfolding uint_shr by (simp add: div_mult2_eq [of _ 65536 65536, simplified, symmetric])
  have lo: "uint (push_bit 16 x) = uint x * 65536 mod 2 ^ 32"
    unfolding unsigned_push_bit_eq by (simp add: push_bit_int_def take_bit_eq_mod)
  show ?thesis
    unfolding word_less_def word_uint_eq_iff uint_mul_hi uint_wrapping_mul hi lo
    by (rule hi_lo_less) simp
qed

lemma fsqrt_correct_total:
  fixes x root :: u32
  assumes "unat root * unat root \<le> unat x * 65536" and "unat x < 2 ^ 31"
  shows "fsqrt_correct (drop_bit 16 x) (push_bit 16 x) root = Some (of_nat (isqrt (unat x * 65536)))"
  using assms(1)
proof (induction "isqrt (unat x * 65536) - unat root" arbitrary: root rule: less_induct)
  case less
  have "unat root * unat root < 2 ^ 24 * 2 ^ 24" using less.prems assms(2) by simp
  then have "unat root < 2 ^ 24" using mult_le_mono [of "2 ^ 24" "unat root" "2 ^ 24" "unat root"]
    by (meson not_le)
  then have nxt: "unat (root + 1) = unat root + 1"
    by (subst unat_add_lem [THEN iffD1]) simp_all
  then have ui: "uint (root + 1) = int (unat root + 1)" by (metis uint_nat)
  have gt: "uint x * 65536 < uint (root + 1) * uint (root + 1) \<longleftrightarrow>
      unat x * 65536 < (unat root + 1) * (unat root + 1)"
    unfolding ui uint_nat [of x] by (metis of_nat_less_iff of_nat_mult of_nat_numeral)
  show ?case
  proof (cases "unat x * 65536 < (unat root + 1) * (unat root + 1)")
    case True
    then have "isqrt (unat x * 65536) = unat root" using less.prems by (intro isqrt_unique)
    then show ?thesis
      using True by (subst fsqrt_correct.simps) (simp add: Let_def fsqrt_correct_exit gt)
  next
    case False
    then have le: "unat (root + 1) * unat (root + 1) \<le> unat x * 65536" unfolding nxt by simp
    then have "unat (root + 1) \<le> isqrt (unat x * 65536)" by (rule isqrt_le)
    then have "isqrt (unat x * 65536) - unat (root + 1) < isqrt (unat x * 65536) - unat root"
      unfolding nxt by simp
    from less.hyps [OF this le] show ?thesis
      using False by (subst fsqrt_correct.simps) (simp add: Let_def fsqrt_correct_exit gt)
  qed
qed

text \<open>C15. The square-root builtin, with its table seed, two 32-bit Newton steps and correction loop,
  returns on every 32-bit input, and returns exactly the 64-bit integer square root of the
  reference, zero for a non-positive argument.\<close>

theorem lp_lpir_fsqrt_q32_exact: "lp_lpir_fsqrt_q32 x = Some (fsqrt_q32 x)"
proof (cases "sint x \<le> 0")
  case True
  then show ?thesis by (simp add: lp_lpir_fsqrt_q32_def fsqrt_q32_def)
next
  case False
  then have u: "uint x = sint x" by (simp add: uint_eq_sint)
  then have n: "unat x = nat (sint x)" by (simp add: unat_eq_nat_uint)
  define c where "c = fsqrt_candidate x"
  have "uint c * uint c \<le> uint x * 65536"
    unfolding c_def using False u by (intro fsqrt_candidate_le) simp
  then have "int (unat c * unat c) \<le> int (unat x * 65536)"
    unfolding uint_nat of_nat_mult of_nat_numeral .
  then have "unat c * unat c \<le> unat x * 65536" by (simp only: of_nat_le_iff)
  moreover have "unat x < 2 ^ 31" unfolding n using sint32_bounds [of x] by simp
  ultimately have "lp_lpir_fsqrt_q32 x = Some (of_nat (isqrt (unat x * 65536)))"
    using False by (simp add: lp_lpir_fsqrt_q32_def fsqrt_correct_total c_def)
  then show ?thesis
    using False by (simp add: fsqrt_q32_def fsqrt_arg as_u32_of_nat n)
qed

end
