(* ===== verification/Vec_Map.thy ===== *)
theory Vec_Map
  imports Prelude
begin

text \<open>
  The sorted-vector map and set of \<^verbatim>\<open>lp-base/lp-collection\<close> (\<^verbatim>\<open>map.rs\<close>, \<^verbatim>\<open>set.rs\<close>, \<^verbatim>\<open>entry.rs\<close>), over
  the branch-free binary search of the standard library. The map contract that clients rely on is
  the locale \<open>key_map\<close>; the set contract is \<open>key_set\<close>; both are interpreted on the model.
\<close>

section \<open>Binary search on a slice\<close>

datatype Ordering = Less | Equal | Greater

definition cmp :: "'a::linorder \<Rightarrow> 'a \<Rightarrow> Ordering" where
  "cmp a b = (if a < b then Less else if a = b then Equal else Greater)"

text \<open>The loop of \<^verbatim>\<open><[T]>::binary_search_by\<close>: \<open>base\<close> and \<open>sz\<close> bound the window.\<close>

fun bs_loop :: "('a \<Rightarrow> Ordering) \<Rightarrow> 'a list \<Rightarrow> nat \<Rightarrow> nat \<Rightarrow> nat" where
  "bs_loop f xs base sz =
     (if 1 < sz
      then let half = sz div 2; mid = base + half
           in bs_loop f xs (if f (xs ! mid) = Greater then base else mid) (sz - half)
      else base)"

declare bs_loop.simps [simp del]

text \<open>\<open>Inr\<close> is \<^verbatim>\<open>Ok\<close> with the index found, \<open>Inl\<close> is \<^verbatim>\<open>Err\<close> with the insertion point.\<close>

definition binary_search_by :: "('a \<Rightarrow> Ordering) \<Rightarrow> 'a list \<Rightarrow> nat + nat" where
  "binary_search_by f xs =
     (if xs = [] then Inl 0
      else let base = bs_loop f xs 0 (length xs)
           in case f (xs ! base) of
                Equal \<Rightarrow> Inr base
              | Less \<Rightarrow> Inl (base + 1)
              | Greater \<Rightarrow> Inl base)"

section \<open>VecMap\<close>

datatype ('k, 'v) VecMap = VecMap (entries: "('k \<times> 'v) list")

definition vm_new :: "('k, 'v) VecMap" where
  "vm_new = VecMap []"

definition vm_len :: "('k, 'v) VecMap \<Rightarrow> nat" where
  "vm_len m = length (entries m)"

definition vm_is_empty :: "('k, 'v) VecMap \<Rightarrow> bool" where
  "vm_is_empty m \<longleftrightarrow> entries m = []"

definition vm_clear :: "('k, 'v) VecMap \<Rightarrow> ('k, 'v) VecMap" where
  "vm_clear m = VecMap []"

definition vm_keys :: "('k, 'v) VecMap \<Rightarrow> 'k list" where
  "vm_keys m = map fst (entries m)"

definition vm_values :: "('k, 'v) VecMap \<Rightarrow> 'v list" where
  "vm_values m = map snd (entries m)"

definition vm_first_key_value :: "('k, 'v) VecMap \<Rightarrow> ('k \<times> 'v) option" where
  "vm_first_key_value m = (case entries m of [] \<Rightarrow> None | e # _ \<Rightarrow> Some e)"

definition vm_last_key_value :: "('k, 'v) VecMap \<Rightarrow> ('k \<times> 'v) option" where
  "vm_last_key_value m = (if entries m = [] then None else Some (last (entries m)))"

definition vm_search :: "('k::linorder, 'v) VecMap \<Rightarrow> 'k \<Rightarrow> nat + nat" where
  "vm_search m key = binary_search_by (\<lambda>(k, _). cmp k key) (entries m)"

definition vm_get :: "('k::linorder, 'v) VecMap \<Rightarrow> 'k \<Rightarrow> 'v option" where
  "vm_get m key =
     (case vm_search m key of Inr index \<Rightarrow> Some (snd (entries m ! index)) | Inl _ \<Rightarrow> None)"

definition vm_get_key_value :: "('k::linorder, 'v) VecMap \<Rightarrow> 'k \<Rightarrow> ('k \<times> 'v) option" where
  "vm_get_key_value m key =
     (case vm_search m key of Inr index \<Rightarrow> Some (entries m ! index) | Inl _ \<Rightarrow> None)"

definition vm_contains_key :: "('k::linorder, 'v) VecMap \<Rightarrow> 'k \<Rightarrow> bool" where
  "vm_contains_key m key \<longleftrightarrow> (case vm_search m key of Inr _ \<Rightarrow> True | Inl _ \<Rightarrow> False)"

text \<open>\<^verbatim>\<open>Vec::insert\<close> and \<^verbatim>\<open>Vec::remove\<close> at an index.\<close>

definition insert_at :: "nat \<Rightarrow> 'a \<Rightarrow> 'a list \<Rightarrow> 'a list" where
  "insert_at i x xs = take i xs @ x # drop i xs"

definition remove_at :: "nat \<Rightarrow> 'a list \<Rightarrow> 'a list" where
  "remove_at i xs = take i xs @ drop (i + 1) xs"

definition vm_insert :: "('k::linorder, 'v) VecMap \<Rightarrow> 'k \<Rightarrow> 'v \<Rightarrow> 'v option \<times> ('k, 'v) VecMap" where
  "vm_insert m key value =
     (case vm_search m key of
        Inr index \<Rightarrow>
          (Some (snd (entries m ! index)),
           VecMap ((entries m)[index := (fst (entries m ! index), value)]))
      | Inl index \<Rightarrow> (None, VecMap (insert_at index (key, value) (entries m))))"

definition vm_remove_entry ::
    "('k::linorder, 'v) VecMap \<Rightarrow> 'k \<Rightarrow> ('k \<times> 'v) option \<times> ('k, 'v) VecMap" where
  "vm_remove_entry m key =
     (case vm_search m key of
        Inr index \<Rightarrow> (Some (entries m ! index), VecMap (remove_at index (entries m)))
      | Inl _ \<Rightarrow> (None, m))"

definition vm_remove :: "('k::linorder, 'v) VecMap \<Rightarrow> 'k \<Rightarrow> 'v option \<times> ('k, 'v) VecMap" where
  "vm_remove m key =
     (case vm_search m key of
        Inr index \<Rightarrow> (Some (snd (entries m ! index)), VecMap (remove_at index (entries m)))
      | Inl _ \<Rightarrow> (None, m))"

text \<open>\<^verbatim>\<open>entry(key).or_insert(dflt)\<close>: the value in the slot and the map holding it.\<close>

definition vm_entry_or_insert ::
    "('k::linorder, 'v) VecMap \<Rightarrow> 'k \<Rightarrow> 'v \<Rightarrow> 'v \<times> ('k, 'v) VecMap" where
  "vm_entry_or_insert m key dflt =
     (case vm_search m key of
        Inr index \<Rightarrow> (snd (entries m ! index), m)
      | Inl index \<Rightarrow> (dflt, VecMap (insert_at index (key, dflt) (entries m))))"

text \<open>\<^verbatim>\<open>entry(key).and_modify(f)\<close>.\<close>

definition vm_entry_and_modify ::
    "('k::linorder, 'v) VecMap \<Rightarrow> 'k \<Rightarrow> ('v \<Rightarrow> 'v) \<Rightarrow> ('k, 'v) VecMap" where
  "vm_entry_and_modify m key f =
     (case vm_search m key of
        Inr index \<Rightarrow>
          VecMap ((entries m)[index := (fst (entries m ! index), f (snd (entries m ! index)))])
      | Inl _ \<Rightarrow> m)"

text \<open>\<^verbatim>\<open>retain\<close>: the predicate may change the value it is given.\<close>

definition vm_retain :: "('k \<Rightarrow> 'v \<Rightarrow> bool \<times> 'v) \<Rightarrow> ('k, 'v) VecMap \<Rightarrow> ('k, 'v) VecMap" where
  "vm_retain f m =
     VecMap (concat (map (\<lambda>(k, v). case f k v of (keep, v') \<Rightarrow> if keep then [(k, v')] else [])
               (entries m)))"

definition vm_extend :: "('k::linorder, 'v) VecMap \<Rightarrow> ('k \<times> 'v) list \<Rightarrow> ('k, 'v) VecMap" where
  "vm_extend m kvs = fold (\<lambda>(k, v) m. snd (vm_insert m k v)) kvs m"

definition vm_from_iter :: "('k::linorder \<times> 'v) list \<Rightarrow> ('k, 'v) VecMap" where
  "vm_from_iter kvs = vm_extend vm_new kvs"

text \<open>\<^verbatim>\<open>append\<close> drains the other map, which is returned empty.\<close>

definition vm_append ::
    "('k::linorder, 'v) VecMap \<Rightarrow> ('k, 'v) VecMap \<Rightarrow> ('k, 'v) VecMap \<times> ('k, 'v) VecMap" where
  "vm_append m other = (vm_extend m (entries other), VecMap [])"

datatype 'k Bound = Unbounded | Included 'k | Excluded 'k

definition range_start :: "('k::linorder, 'v) VecMap \<Rightarrow> 'k Bound \<Rightarrow> nat" where
  "range_start m lo =
     (case lo of
        Unbounded \<Rightarrow> 0
      | Included b \<Rightarrow> (case vm_search m b of Inr i \<Rightarrow> i | Inl i \<Rightarrow> i)
      | Excluded b \<Rightarrow> (case vm_search m b of Inr i \<Rightarrow> i + 1 | Inl i \<Rightarrow> i))"

definition range_end :: "('k::linorder, 'v) VecMap \<Rightarrow> 'k Bound \<Rightarrow> nat" where
  "range_end m hi =
     (case hi of
        Unbounded \<Rightarrow> length (entries m)
      | Included b \<Rightarrow> (case vm_search m b of Inr i \<Rightarrow> i + 1 | Inl i \<Rightarrow> i)
      | Excluded b \<Rightarrow> (case vm_search m b of Inr i \<Rightarrow> i | Inl i \<Rightarrow> i))"

definition vm_range ::
    "('k::linorder, 'v) VecMap \<Rightarrow> 'k Bound \<Rightarrow> 'k Bound \<Rightarrow> ('k \<times> 'v) list" where
  "vm_range m lo hi =
     (let start = range_start m lo; end = range_end m hi
      in drop start (take (max end start) (entries m)))"

section \<open>VecSet\<close>

datatype 'a VecSet = VecSet (items: "'a list")

definition vs_new :: "'a VecSet" where
  "vs_new = VecSet []"

definition vs_search :: "'a::linorder VecSet \<Rightarrow> 'a \<Rightarrow> nat + nat" where
  "vs_search s item = binary_search_by (\<lambda>probe. cmp probe item) (items s)"

definition vs_contains :: "'a::linorder VecSet \<Rightarrow> 'a \<Rightarrow> bool" where
  "vs_contains s item \<longleftrightarrow> (case vs_search s item of Inr _ \<Rightarrow> True | Inl _ \<Rightarrow> False)"

definition vs_get :: "'a::linorder VecSet \<Rightarrow> 'a \<Rightarrow> 'a option" where
  "vs_get s item = (case vs_search s item of Inr index \<Rightarrow> Some (items s ! index) | Inl _ \<Rightarrow> None)"

definition vs_insert :: "'a::linorder VecSet \<Rightarrow> 'a \<Rightarrow> bool \<times> 'a VecSet" where
  "vs_insert s item =
     (case vs_search s item of
        Inr _ \<Rightarrow> (False, s)
      | Inl index \<Rightarrow> (True, VecSet (insert_at index item (items s))))"

definition vs_remove :: "'a::linorder VecSet \<Rightarrow> 'a \<Rightarrow> bool \<times> 'a VecSet" where
  "vs_remove s item =
     (case vs_search s item of
        Inr index \<Rightarrow> (True, VecSet (remove_at index (items s)))
      | Inl _ \<Rightarrow> (False, s))"

definition vs_take :: "'a::linorder VecSet \<Rightarrow> 'a \<Rightarrow> 'a option \<times> 'a VecSet" where
  "vs_take s item =
     (case vs_search s item of
        Inr index \<Rightarrow> (Some (items s ! index), VecSet (remove_at index (items s)))
      | Inl _ \<Rightarrow> (None, s))"

definition vs_retain :: "('a \<Rightarrow> bool) \<Rightarrow> 'a VecSet \<Rightarrow> 'a VecSet" where
  "vs_retain f s = VecSet (filter f (items s))"

definition vs_extend :: "'a::linorder VecSet \<Rightarrow> 'a list \<Rightarrow> 'a VecSet" where
  "vs_extend s xs = fold (\<lambda>x s. snd (vs_insert s x)) xs s"

section \<open>The search finds the insertion point\<close>

text \<open>Stated on the key of each element, so that it serves the map and the set.\<close>

lemma bs_loop_window:
  fixes g :: "'a \<Rightarrow> 'k::linorder"
  assumes "sorted_wrt (<) (map g xs)" and "0 < sz" and "base + sz \<le> length xs"
    and "base = 0 \<or> g (xs ! base) \<le> key"
    and "\<And>j. base + sz \<le> j \<Longrightarrow> j < length xs \<Longrightarrow> key < g (xs ! j)"
  shows "let b = bs_loop (\<lambda>x. cmp (g x) key) xs base sz in
    b < length xs \<and> (b = 0 \<or> g (xs ! b) \<le> key) \<and> (\<forall>j. b < j \<and> j < length xs \<longrightarrow> key < g (xs ! j))"
  using assms(2-5)
proof (induction sz arbitrary: base rule: less_induct)
  case (less sz)
  show ?case
  proof (cases "1 < sz")
    case False
    with less.prems have "sz = 1" by simp
    with less.prems show ?thesis by (subst bs_loop.simps) (simp add: Suc_le_eq)
  next
    case True
    define half where "half = sz div 2"
    have half: "0 < half" "half < sz" using True by (auto simp: half_def)
    define base' where
      "base' = (if cmp (g (xs ! (base + half))) key = Greater then base else base + half)"
    have step: "bs_loop (\<lambda>x. cmp (g x) key) xs base sz
        = bs_loop (\<lambda>x. cmp (g x) key) xs base' (sz - half)"
      using True by (subst bs_loop.simps) (simp add: half_def base'_def Let_def)
    have mono: "g (xs ! i) < g (xs ! j)" if "i < j" "j < length xs" for i j
      using sorted_wrt_nth_less [OF assms(1) that(1)] that by simp
    show ?thesis
      unfolding step
    proof (rule less.IH)
      show "sz - half < sz" "0 < sz - half" using half by simp_all
      show "base' + (sz - half) \<le> length xs"
        using less.prems(2) half by (auto simp: base'_def)
      show "base' = 0 \<or> g (xs ! base') \<le> key"
        using less.prems(3) by (auto simp: base'_def cmp_def not_less split: if_splits)
    next
      fix j
      assume j: "base' + (sz - half) \<le> j" "j < length xs"
      show "key < g (xs ! j)"
      proof (cases "cmp (g (xs ! (base + half))) key = Greater")
        case gt: True
        then have "key < g (xs ! (base + half))" by (auto simp: cmp_def split: if_splits)
        moreover have "base + half \<le> j" using j gt half by (simp add: base'_def half_def)
        ultimately show ?thesis using mono [of "base + half" j] j(2) by (cases "base + half = j") auto
      next
        case False
        then show ?thesis using less.prems(4) [of j] j half by (simp add: base'_def)
      qed
    qed
  qed
qed

lemma binary_search_sorted:
  fixes g :: "'a \<Rightarrow> 'k::linorder"
  assumes "sorted_wrt (<) (map g xs)"
  shows "case binary_search_by (\<lambda>x. cmp (g x) key) xs of
      Inr i \<Rightarrow> i < length xs \<and> g (xs ! i) = key
    | Inl i \<Rightarrow> i \<le> length xs \<and> (\<forall>j < i. g (xs ! j) < key) \<and> (\<forall>j. i \<le> j \<and> j < length xs \<longrightarrow> key < g (xs ! j))"
proof (cases "xs = []")
  case True
  then show ?thesis by (simp add: binary_search_by_def)
next
  case False
  define b where "b = bs_loop (\<lambda>x. cmp (g x) key) xs 0 (length xs)"
  have b: "b < length xs" "b = 0 \<or> g (xs ! b) \<le> key" "\<And>j. b < j \<Longrightarrow> j < length xs \<Longrightarrow> key < g (xs ! j)"
    using bs_loop_window [OF assms, of "length xs" 0 key] False by (auto simp: Let_def b_def)
  have mono: "g (xs ! i) < g (xs ! j)" if "i < j" "j < length xs" for i j
    using sorted_wrt_nth_less [OF assms that(1)] that by simp
  have bs: "binary_search_by (\<lambda>x. cmp (g x) key) xs
      = (case cmp (g (xs ! b)) key of Equal \<Rightarrow> Inr b | Less \<Rightarrow> Inl (b + 1) | Greater \<Rightarrow> Inl b)"
    unfolding binary_search_by_def Let_def b_def [symmetric] using False by simp
  consider "g (xs ! b) < key" | "g (xs ! b) = key" | "key < g (xs ! b)" by (rule linorder_cases)
  then show ?thesis
  proof cases
    case 1
    then have "g (xs ! j) < key" if "j < b + 1" for j
      using that mono [of j b] b(1) by (cases "j = b") auto
    with 1 b show ?thesis unfolding bs by (simp add: cmp_def Suc_le_eq)
  next
    case 2
    with b show ?thesis unfolding bs by (simp add: cmp_def)
  next
    case 3
    with b(2) have "b = 0" by (auto simp: not_less)
    with 3 b(3) have "key < g (xs ! j)" if "j < length xs" for j
      using that by (cases "j = 0") auto
    with 3 \<open>b = 0\<close> show ?thesis unfolding bs by (auto simp: cmp_def)
  qed
qed

section \<open>Search, insertion and removal on sorted entries\<close>

definition vm_inv :: "('k::linorder, 'v) VecMap \<Rightarrow> bool" where
  "vm_inv m \<longleftrightarrow> sorted_wrt (<) (map fst (entries m))"

definition vs_inv :: "'a::linorder VecSet \<Rightarrow> bool" where
  "vs_inv s \<longleftrightarrow> sorted_wrt (<) (items s)"

lemma vm_search_cases:
  assumes "vm_inv m"
  obtains i where "vm_search m key = Inr i" "i < length (entries m)" "fst (entries m ! i) = key"
  | i where "vm_search m key = Inl i" "i \<le> length (entries m)"
      "\<And>j. j < i \<Longrightarrow> fst (entries m ! j) < key"
      "\<And>j. i \<le> j \<Longrightarrow> j < length (entries m) \<Longrightarrow> key < fst (entries m ! j)"
proof (cases "vm_search m key")
  case (Inr i)
  then show ?thesis
    using that(1) binary_search_sorted [of fst "entries m" key] assms
    by (simp add: vm_inv_def vm_search_def case_prod_unfold)
next
  case (Inl i)
  then show ?thesis
    using that(2) binary_search_sorted [of fst "entries m" key] assms
    by (simp add: vm_inv_def vm_search_def case_prod_unfold)
qed

lemma vs_search_cases:
  assumes "vs_inv s"
  obtains i where "vs_search s item = Inr i" "i < length (items s)" "items s ! i = item"
  | i where "vs_search s item = Inl i" "i \<le> length (items s)"
      "\<And>j. j < i \<Longrightarrow> items s ! j < item"
      "\<And>j. i \<le> j \<Longrightarrow> j < length (items s) \<Longrightarrow> item < items s ! j"
proof (cases "vs_search s item")
  case (Inr i)
  then show ?thesis
    using that(1) binary_search_sorted [of "\<lambda>x. x" "items s" item] assms
    by (simp add: vs_inv_def vs_search_def)
next
  case (Inl i)
  then show ?thesis
    using that(2) binary_search_sorted [of "\<lambda>x. x" "items s" item] assms
    by (simp add: vs_inv_def vs_search_def)
qed

text \<open>Elements below and above the insertion point, as statements on \<^term>\<open>take\<close> and \<^term>\<open>drop\<close>.\<close>

lemma split_point:
  assumes "i \<le> length xs" and "\<And>j. j < i \<Longrightarrow> P (xs ! j)"
    and "\<And>j. i \<le> j \<Longrightarrow> j < length xs \<Longrightarrow> Q (xs ! j)"
  shows "\<forall>x \<in> set (take i xs). P x" and "\<forall>x \<in> set (drop i xs). Q x"
  using assms by (auto simp: in_set_conv_nth)

lemma sorted_insert_at:
  fixes g :: "'a \<Rightarrow> 'k::linorder"
  assumes "sorted_wrt (<) (map g xs)" and "i \<le> length xs"
    and "\<And>j. j < i \<Longrightarrow> g (xs ! j) < g x"
    and "\<And>j. i \<le> j \<Longrightarrow> j < length xs \<Longrightarrow> g x < g (xs ! j)"
  shows "sorted_wrt (<) (map g (insert_at i x xs))"
proof -
  have "sorted_wrt (<) (map g (take i xs @ drop i xs))" using assms(1) by simp
  then show ?thesis
    using split_point [of i xs "\<lambda>y. g y < g x" "\<lambda>y. g x < g y", OF assms(2-4)]
    unfolding insert_at_def map_append sorted_wrt_append by auto
qed

lemma sorted_remove_at:
  assumes "sorted_wrt R (map g xs)"
  shows "sorted_wrt R (map g (remove_at i xs))"
proof -
  have "sorted_wrt R (map g (take i xs @ drop i xs))" using assms by simp
  then have "sorted_wrt R (map g (take i xs @ tl (drop i xs)))"
    unfolding map_append sorted_wrt_append by (cases "drop i xs") auto
  then show ?thesis by (simp add: remove_at_def tl_drop drop_Suc)
qed

lemma map_of_split:
  assumes "sorted_wrt (<) (map fst xs)" and "i < length xs" and "fst (xs ! i) = (k :: 'k::linorder)"
  shows "map_of (take i xs) k = None" and "map_of (drop (i + 1) xs) k = None"
    and "map_of xs k = Some (snd (xs ! i))"
proof -
  have xs: "xs = take i xs @ xs ! i # drop (i + 1) xs"
    using assms(2) by (simp add: Cons_nth_drop_Suc)
  have "distinct (map fst xs)" using assms(1) by (simp add: strict_sorted_iff)
  then have d: "distinct (map fst (take i xs @ xs ! i # drop (i + 1) xs))"
    using xs by simp
  then show "map_of (take i xs) k = None" "map_of (drop (i + 1) xs) k = None"
    using assms(3) by (auto simp: map_of_eq_None_iff)
  show "map_of xs k = Some (snd (xs ! i))"
    using \<open>distinct (map fst xs)\<close> assms(2,3) by (metis map_of_eq_Some_iff nth_mem prod.collapse)
qed

lemma vm_absent:
  assumes "\<And>j. j < i \<Longrightarrow> fst (es ! j) < (k :: 'k::linorder)"
    and "\<And>j. i \<le> j \<Longrightarrow> j < length es \<Longrightarrow> k < fst (es ! j)"
  shows "map_of es k = None"
  unfolding map_of_eq_None_iff using assms
  by (auto simp: in_set_conv_nth) (metis fst_conv leI less_irrefl)

lemma vm_get_eq:
  assumes "vm_inv m"
  shows "vm_get m k = map_of (entries m) k"
proof (cases rule: vm_search_cases [OF assms, of k])
  case (1 i)
  then show ?thesis
    using assms map_of_split(3) [of "entries m" i k] by (simp add: vm_get_def vm_inv_def)
next
  case (2 i)
  then show ?thesis using vm_absent [of i "entries m" k] by (simp add: vm_get_def)
qed

section \<open>The contracts\<close>

text \<open>What a client of a keyed map relies on.\<close>

locale key_map =
  fixes new :: 'm
    and get :: "'m \<Rightarrow> 'k \<Rightarrow> 'v option"
    and ins :: "'m \<Rightarrow> 'k \<Rightarrow> 'v \<Rightarrow> 'v option \<times> 'm"
    and rem :: "'m \<Rightarrow> 'k \<Rightarrow> 'v option \<times> 'm"
    and inv :: "'m \<Rightarrow> bool"
  assumes inv_new: "inv new"
    and get_new: "get new k = None"
    and inv_ins: "inv m \<Longrightarrow> inv (snd (ins m k v))"
    and get_ins: "inv m \<Longrightarrow> get (snd (ins m k v)) = (get m)(k \<mapsto> v)"
    and old_ins: "inv m \<Longrightarrow> fst (ins m k v) = get m k"
    and inv_rem: "inv m \<Longrightarrow> inv (snd (rem m k))"
    and get_rem: "inv m \<Longrightarrow> get (snd (rem m k)) = (get m)(k := None)"
    and old_rem: "inv m \<Longrightarrow> fst (rem m k) = get m k"
begin

lemma extend_inv: "inv m \<Longrightarrow> inv (fold (\<lambda>(k, v) m. snd (ins m k v)) kvs m)"
  by (induction kvs arbitrary: m) (auto simp: inv_ins)

lemma extend_get:
  "inv m \<Longrightarrow> get (fold (\<lambda>(k, v) m. snd (ins m k v)) kvs m) = get m ++ map_of (rev kvs)"
proof (induction kvs arbitrary: m)
  case (Cons kv kvs)
  then show ?case
    by (cases kv) (auto simp: inv_ins get_ins map_add_def fun_eq_iff split: option.splits)
qed simp

lemma ins_rem_id: "inv m \<Longrightarrow> get m k = None \<Longrightarrow> get (snd (rem (snd (ins m k v)) k)) = get m"
  by (auto simp: inv_ins get_ins get_rem fun_upd_idem)

end

text \<open>What a client of a set relies on: an insertion reports whether the item is new.\<close>

locale key_set =
  fixes new :: 's
    and mem :: "'s \<Rightarrow> 'a \<Rightarrow> bool"
    and ins :: "'s \<Rightarrow> 'a \<Rightarrow> bool \<times> 's"
    and inv :: "'s \<Rightarrow> bool"
  assumes inv_new: "inv new"
    and mem_new: "\<not> mem new x"
    and inv_ins: "inv s \<Longrightarrow> inv (snd (ins s x))"
    and mem_ins: "inv s \<Longrightarrow> mem (snd (ins s x)) y \<longleftrightarrow> y = x \<or> mem s y"
    and fresh_ins: "inv s \<Longrightarrow> fst (ins s x) \<longleftrightarrow> \<not> mem s x"
begin

lemma extend_mem:
  "inv s \<Longrightarrow> inv (fold (\<lambda>x s. snd (ins s x)) xs s) \<and>
     (\<forall>y. mem (fold (\<lambda>x s. snd (ins s x)) xs s) y \<longleftrightarrow> y \<in> set xs \<or> mem s y)"
  by (induction xs arbitrary: s) (auto simp: inv_ins mem_ins)

text \<open>Feeding a list through the set reports every element fresh exactly when there are no
  duplicates.\<close>

lemma all_fresh_distinct:
  "inv s \<Longrightarrow> (\<forall>i < length xs. fst (ins (fold (\<lambda>x s. snd (ins s x)) (take i xs) s) (xs ! i))) \<longleftrightarrow>
     distinct xs \<and> (\<forall>x \<in> set xs. \<not> mem s x)"
proof (induction xs arbitrary: s)
  case (Cons x xs)
  have "(\<forall>i < length (x # xs). fst (ins (fold (\<lambda>x s. snd (ins s x)) (take i (x # xs)) s) ((x # xs) ! i)))
      \<longleftrightarrow> fst (ins s x) \<and> (\<forall>i < length xs.
            fst (ins (fold (\<lambda>x s. snd (ins s x)) (take i xs) (snd (ins s x))) (xs ! i)))"
    by (simp add: All_less_Suc2)
  also have "\<dots> \<longleftrightarrow> distinct (x # xs) \<and> (\<forall>y \<in> set (x # xs). \<not> mem s y)"
    using Cons by (auto simp: inv_ins mem_ins fresh_ins)
  finally show ?case .
qed simp

end

section \<open>The vectors meet the contracts\<close>

lemma map_of_insert_at:
  assumes "map_of es k = None"
  shows "map_of (insert_at i (k, v) es) = (map_of es)(k \<mapsto> v)"
proof -
  have "map_of (take i es @ drop i es) k = None" using assms by simp
  then have "map_of (take i es) k = None" "map_of (drop i es) k = None"
    unfolding map_of_append map_add_None by auto
  moreover have "map_of es = map_of (drop i es) ++ map_of (take i es)"
    by (metis append_take_drop_id map_of_append)
  ultimately show ?thesis
    by (auto simp: insert_at_def map_add_def fun_eq_iff split: option.splits)
qed

lemma map_of_remove_at:
  assumes "sorted_wrt (<) (map fst es)" and "i < length es" and "fst (es ! i) = (k :: 'k::linorder)"
  shows "map_of (remove_at i es) = (map_of es)(k := None)"
proof -
  have "map_of es = map_of (take i es @ es ! i # drop (i + 1) es)"
    using assms(2) by (simp add: Cons_nth_drop_Suc)
  moreover obtain v where "es ! i = (k, v)" using assms(3) by (cases "es ! i") auto
  ultimately show ?thesis
    using map_of_split(1,2) [OF assms] by (auto simp: remove_at_def map_add_def fun_eq_iff split: option.splits)
qed

lemma map_of_update_at:
  assumes "sorted_wrt (<) (map fst es)" and "i < length es" and "fst (es ! i) = (k :: 'k::linorder)"
  shows "map_of (es[i := (k, v)]) = (map_of es)(k \<mapsto> v)"
proof -
  have "map_of es = map_of (take i es @ es ! i # drop (i + 1) es)"
    using assms(2) by (simp add: Cons_nth_drop_Suc)
  moreover obtain w where "es ! i = (k, w)" using assms(3) by (cases "es ! i") auto
  ultimately show ?thesis
    using map_of_split(1,2) [OF assms] assms(2)
    by (auto simp: upd_conv_take_nth_drop map_add_def fun_eq_iff split: option.splits)
qed

lemma vm_insert_spec:
  assumes "vm_inv m"
  shows "vm_inv (snd (vm_insert m k v))"
    and "map_of (entries (snd (vm_insert m k v))) = (map_of (entries m))(k \<mapsto> v)"
    and "fst (vm_insert m k v) = map_of (entries m) k"
proof -
  have *: "vm_inv (snd (vm_insert m k v)) \<and>
      map_of (entries (snd (vm_insert m k v))) = (map_of (entries m))(k \<mapsto> v) \<and>
      fst (vm_insert m k v) = map_of (entries m) k"
  proof (cases rule: vm_search_cases [OF assms, of k])
    case (1 i)
    then have "map fst ((entries m)[i := (k, v)]) = map fst (entries m)"
      by (simp add: map_update list_update_same_conv)
    with 1 show ?thesis
      using assms map_of_update_at [of "entries m" i k v] map_of_split(3) [of "entries m" i k]
      by (simp add: vm_insert_def vm_inv_def)
  next
    case (2 i)
    have "sorted_wrt (<) (map fst (insert_at i (k, v) (entries m)))"
      by (rule sorted_insert_at) (use 2 assms in \<open>simp_all add: vm_inv_def\<close>)
    with 2 show ?thesis
      using vm_absent [of i "entries m" k] map_of_insert_at [of "entries m" k i v]
      by (simp add: vm_insert_def vm_inv_def)
  qed
  from * show "vm_inv (snd (vm_insert m k v))" by blast
  from * show "map_of (entries (snd (vm_insert m k v))) = (map_of (entries m))(k \<mapsto> v)" by blast
  from * show "fst (vm_insert m k v) = map_of (entries m) k" by blast
qed

lemma vm_remove_spec:
  assumes "vm_inv m"
  shows "vm_inv (snd (vm_remove m k)) \<and>
      map_of (entries (snd (vm_remove m k))) = (map_of (entries m))(k := None) \<and>
      fst (vm_remove m k) = map_of (entries m) k"
proof (cases rule: vm_search_cases [OF assms, of k])
  case (1 i)
  then show ?thesis
    using assms map_of_remove_at [of "entries m" i k] map_of_split(3) [of "entries m" i k]
      sorted_remove_at [of "(<)" fst "entries m" i]
    by (simp add: vm_remove_def vm_inv_def)
next
  case (2 i)
  then show ?thesis using assms vm_absent [of i "entries m" k] by (auto simp: vm_remove_def)
qed

lemma vm_new_spec: "vm_inv vm_new" "entries vm_new = []"
  by (simp_all add: vm_new_def vm_inv_def)

interpretation vm: key_map vm_new vm_get vm_insert vm_remove vm_inv
  by unfold_locales (simp_all add: vm_new_spec vm_insert_spec vm_remove_spec vm_get_eq fun_eq_iff)

lemma set_insert_at: "set (insert_at i x xs) = insert x (set xs)"
  unfolding insert_at_def by (metis append_take_drop_id list.simps(15) set_append Un_insert_right)

lemma vs_contains_eq:
  assumes "vs_inv s"
  shows "vs_contains s x \<longleftrightarrow> x \<in> set (items s)"
proof (cases rule: vs_search_cases [OF assms, of x])
  case (1 i)
  then show ?thesis by (auto simp: vs_contains_def)
next
  case (2 i)
  then have "x \<notin> set (items s)"
    by (auto simp: in_set_conv_nth) (metis leI less_irrefl)
  with 2 show ?thesis by (simp add: vs_contains_def)
qed

lemma vs_insert_spec:
  assumes "vs_inv s"
  shows "vs_inv (snd (vs_insert s x)) \<and> set (items (snd (vs_insert s x))) = insert x (set (items s)) \<and>
    (fst (vs_insert s x) \<longleftrightarrow> x \<notin> set (items s))"
proof (cases rule: vs_search_cases [OF assms, of x])
  case (1 i)
  then show ?thesis using assms by (auto simp: vs_insert_def)
next
  case (2 i)
  have "sorted_wrt (<) (map (\<lambda>x. x) (insert_at i x (items s)))"
    by (rule sorted_insert_at) (use 2 assms in \<open>simp_all add: vs_inv_def\<close>)
  moreover have "x \<notin> set (items s)"
    using 2 by (auto simp: in_set_conv_nth) (metis leI less_irrefl)
  ultimately show ?thesis using 2 by (simp add: vs_insert_def vs_inv_def set_insert_at)
qed

lemma vs_new_spec: "vs_inv vs_new" "items vs_new = []"
  by (simp_all add: vs_new_def vs_inv_def)

interpretation vs: key_set vs_new vs_contains vs_insert vs_inv
  by unfold_locales (simp_all add: vs_new_spec vs_insert_spec vs_contains_eq)

section \<open>Properties\<close>

text \<open>Building a map from a list of pairs, or extending and appending, keeps the entries strictly
  sorted by key, and a later pair wins over an earlier one and over the old map.\<close>

theorem vm_extend_append:
  assumes "vm_inv m" and "vm_inv other"
  shows "vm_inv (vm_extend m kvs) \<and> vm_get (vm_extend m kvs) = vm_get m ++ map_of (rev kvs) \<and>
    vm_inv (fst (vm_append m other)) \<and> vm_get (fst (vm_append m other)) = vm_get m ++ vm_get other"
proof -
  have inv: "vm_inv (vm_extend m kvs)"
    and get: "vm_get (vm_extend m kvs) = vm_get m ++ map_of (rev kvs)" for kvs
    unfolding vm_extend_def by (rule vm.extend_inv vm.extend_get, rule assms)+
  have "distinct (map fst (entries other))"
    using assms(2) by (simp add: vm_inv_def strict_sorted_iff)
  then have "map_of (rev (entries other)) = map_of (entries other)"
    by (subst map_of_inject_set) (simp_all add: rev_map [symmetric])
  moreover have "map_of (entries other) = vm_get other"
    using assms(2) by (simp add: vm_get_eq fun_eq_iff)
  ultimately show ?thesis using inv get by (simp add: vm_append_def)
qed

text \<open>A map of two keys, appended to a map that shares one of them.\<close>

lemma vm_extend_append_witness:
  "vm_get (fst (vm_append (VecMap [(1 :: nat, ''a''), (3, ''b'')]) (VecMap [(3, ''c'')]))) 3 = Some ''c''"
  using vm_extend_append [of "VecMap [(1 :: nat, ''a''), (3, ''b'')]" "VecMap [(3, ''c'')]"]
  by (simp add: vm_inv_def vm_get_eq)

fun in_lower :: "'k::linorder Bound \<Rightarrow> 'k \<Rightarrow> bool" where
  "in_lower Unbounded k \<longleftrightarrow> True"
| "in_lower (Included b) k \<longleftrightarrow> b \<le> k"
| "in_lower (Excluded b) k \<longleftrightarrow> b < k"

fun in_upper :: "'k::linorder Bound \<Rightarrow> 'k \<Rightarrow> bool" where
  "in_upper Unbounded k \<longleftrightarrow> True"
| "in_upper (Included b) k \<longleftrightarrow> k \<le> b"
| "in_upper (Excluded b) k \<longleftrightarrow> k < b"

lemma drop_filter:
  assumes "\<And>j. j < i \<Longrightarrow> j < length xs \<Longrightarrow> \<not> P (xs ! j)"
    and "\<And>j. i \<le> j \<Longrightarrow> j < length xs \<Longrightarrow> P (xs ! j)"
  shows "drop i xs = filter P xs"
proof -
  have "filter P (take i xs) = []" "filter P (drop i xs) = drop i xs"
    using assms by (auto simp: filter_empty_conv filter_id_conv in_set_conv_nth)
  then show ?thesis by (metis append_Nil append_take_drop_id filter_append)
qed

lemma take_filter:
  assumes "\<And>j. j < i \<Longrightarrow> j < length xs \<Longrightarrow> P (xs ! j)"
    and "\<And>j. i \<le> j \<Longrightarrow> j < length xs \<Longrightarrow> \<not> P (xs ! j)"
  shows "take i xs = filter P xs"
proof -
  have "filter P (drop i xs) = []" "filter P (take i xs) = take i xs"
    using assms by (auto simp: filter_empty_conv filter_id_conv in_set_conv_nth)
  then show ?thesis by (metis append_Nil2 append_take_drop_id filter_append)
qed

lemma vm_mono:
  assumes "vm_inv m" and "i < j" and "j < length (entries m)"
  shows "fst (entries m ! i) < fst (entries m ! j)"
  using sorted_wrt_nth_less [of "(<)" "map fst (entries m)" i j] assms by (simp add: vm_inv_def)

lemma vm_range_bounds:
  assumes "vm_inv m" and "j < length (entries m)"
  shows "in_lower lo (fst (entries m ! j)) \<longleftrightarrow> range_start m lo \<le> j"
    and "in_upper lo (fst (entries m ! j)) \<longleftrightarrow> j < range_end m lo"
proof -
  have "(in_lower lo (fst (entries m ! j)) \<longleftrightarrow> range_start m lo \<le> j) \<and>
      (in_upper lo (fst (entries m ! j)) \<longleftrightarrow> j < range_end m lo)"
    if "lo = Included b \<or> lo = Excluded b" for b
  proof (cases rule: vm_search_cases [OF assms(1), of b])
    case (1 i)
    then show ?thesis
      using that vm_mono [OF assms(1), of i j] vm_mono [OF assms(1), of j i] assms(2)
      by (cases i j rule: linorder_cases) (auto simp: range_start_def range_end_def)
  next
    case (2 i)
    show ?thesis
    proof (cases "i \<le> j")
      case True
      with 2(1) 2(4) [of j] that assms(2) show ?thesis
        by (auto simp: range_start_def range_end_def)
    next
      case False
      with 2(1) 2(3) [of j] that show ?thesis
        by (auto simp: range_start_def range_end_def)
    qed
  qed
  then show "in_lower lo (fst (entries m ! j)) \<longleftrightarrow> range_start m lo \<le> j"
    and "in_upper lo (fst (entries m ! j)) \<longleftrightarrow> j < range_end m lo"
    using assms(2) by (cases lo; simp add: range_start_def range_end_def)+
qed

text \<open>C21. A range query returns, in key order, exactly the entries whose keys lie within the bounds,
  also when the bounds are reversed.\<close>

theorem vm_range_filter:
  assumes "vm_inv m"
  shows "vm_range m lo hi = filter (\<lambda>(k, _). in_lower lo k \<and> in_upper hi k) (entries m)"
proof -
  define start stop where "start = range_start m lo" and "stop = range_end m hi"
  note lo = vm_range_bounds(1) [OF assms, of _ lo, folded start_def stop_def]
  note hi = vm_range_bounds(2) [OF assms, of _ hi, folded start_def stop_def]
  have "vm_range m lo hi = drop start (take (max stop start) (entries m))"
    by (simp add: vm_range_def Let_def start_def stop_def)
  also have "\<dots> = filter (\<lambda>e. in_lower lo (fst e)) (take (max stop start) (entries m))"
    by (rule drop_filter) (simp_all add: lo)
  also have "\<dots> = filter (\<lambda>e. in_lower lo (fst e) \<and> in_upper hi (fst e)) (entries m)"
  proof (cases "start \<le> stop")
    case True
    then have "take (max stop start) (entries m) = filter (\<lambda>e. in_upper hi (fst e)) (entries m)"
      unfolding max.absorb1 [OF True] by (intro take_filter) (simp_all add: hi)
    then show ?thesis by (simp add: conj_commute)
  next
    case False
    then have "filter (\<lambda>e. in_lower lo (fst e)) (take start (entries m)) = []"
      using lo by (auto simp: filter_empty_conv in_set_conv_nth) (metis fst_conv not_le)
    moreover have "filter (\<lambda>e. in_lower lo (fst e) \<and> in_upper hi (fst e)) (entries m) = []"
      using lo hi False by (auto simp: filter_empty_conv in_set_conv_nth)
        (metis fst_conv le_less_trans less_imp_le)
    ultimately show ?thesis using False by (simp add: max_def)
  qed
  finally show ?thesis by (simp add: case_prod_unfold)
qed

lemma vm_range_filter_witness:
  "vm_range (VecMap [(1 :: nat, ''a''), (3, ''b''), (7, ''c'')]) (Excluded 1) (Included 7)
     = [(3, ''b''), (7, ''c'')]"
  by (subst vm_range_filter) (simp_all add: vm_inv_def)

end
