(* ===== verification/Chunked_Vec.thy ===== *)
theory Chunked_Vec
  imports Vec_Map "HOL-Library.While_Combinator"
begin

text \<open>
  The chunked vector of \<^verbatim>\<open>lp-base/lp-collection/src/chunked_vec.rs\<close>: a vector cut into chunks of
  bounded size, so that no single allocation is large. The operations take the size of an element in
  bytes, \<open>elem\<close>, from which the source computes the chunk size at compile time. Methods with
  \<^verbatim>\<open>&mut self\<close> return the new vector; \<open>None\<close> is a panic, or the \<^verbatim>\<open>None\<close> of the source where it returns
  an option. The vector refines a list, its elements in order.
\<close>

section \<open>Definitions\<close>

definition CHUNK_BYTES :: nat where
  "CHUNK_BYTES = 1024"

definition CHUNK_SIZE :: "nat \<Rightarrow> nat" where
  "CHUNK_SIZE elem = (if elem = 0 then 64 else while (\<lambda>n. n * 2 * elem \<le> CHUNK_BYTES) (\<lambda>n. n * 2) 1)"

record 'a ChunkedVec =
  chunks :: "'a list list"
  cv_len :: nat

definition cv_new :: "'a ChunkedVec" where
  "cv_new = \<lparr>chunks = [], cv_len = 0\<rparr>"

lemma chunk_size_loop:
  assumes "0 < elem"
  shows "\<exists>k. while (\<lambda>n. n * 2 * elem \<le> CHUNK_BYTES) (\<lambda>n. n * 2) 1 = 2 ^ k \<and>
    (k = 0 \<or> 2 ^ k * elem \<le> CHUNK_BYTES) \<and> CHUNK_BYTES < 2 ^ k * 2 * elem"
proof (rule while_rule [where P = "\<lambda>n. \<exists>k. n = 2 ^ k \<and> (k = 0 \<or> 2 ^ k * elem \<le> CHUNK_BYTES)"
      and r = "measure (\<lambda>n. CHUNK_BYTES - n)"])
  fix n assume "\<exists>k. n = 2 ^ k \<and> (k = 0 \<or> 2 ^ k * elem \<le> CHUNK_BYTES)" and "n * 2 * elem \<le> CHUNK_BYTES"
  then show "\<exists>k. n * 2 = 2 ^ k \<and> (k = 0 \<or> 2 ^ k * elem \<le> CHUNK_BYTES)"
    by (metis power_Suc2)
next
  fix n assume n: "\<exists>k. n = 2 ^ k \<and> (k = 0 \<or> 2 ^ k * elem \<le> CHUNK_BYTES)" and le: "n * 2 * elem \<le> CHUNK_BYTES"
  have "n * 2 * 1 \<le> n * 2 * elem" using assms by (intro mult_le_mono) simp_all
  moreover have "0 < n" using n by auto
  ultimately have "n < n * 2 \<and> n * 2 \<le> CHUNK_BYTES" using le by linarith
  then show "(n * 2, n) \<in> measure (\<lambda>n. CHUNK_BYTES - n)"
    by (auto intro: diff_less_mono2)
qed (auto intro: exI [of _ 0])

lemma CHUNK_SIZE_pos [simp]: "0 < CHUNK_SIZE elem"
  using chunk_size_loop [of elem] by (cases "elem = 0") (auto simp: CHUNK_SIZE_def)

function default_chunks :: "nat \<Rightarrow> nat \<Rightarrow> 'a \<Rightarrow> 'a list list" where
  "default_chunks elem remaining x =
     (if remaining > 0
      then let chunk_len = min remaining (CHUNK_SIZE elem)
           in replicate chunk_len x # default_chunks elem (remaining - chunk_len) x
      else [])"
  by auto
termination by (relation "measure (\<lambda>(_, remaining, _). remaining)") auto

declare default_chunks.simps [simp del]

definition with_capacity_and_default :: "nat \<Rightarrow> nat \<Rightarrow> 'a \<Rightarrow> 'a ChunkedVec" where
  "with_capacity_and_default elem n x = \<lparr>chunks = default_chunks elem n x, cv_len = n\<rparr>"

definition cv_with_capacity :: "nat \<Rightarrow> 'a ChunkedVec" where
  "cv_with_capacity cap = \<lparr>chunks = (if cap > 0 then [[]] else []), cv_len = 0\<rparr>"

definition cv_is_empty :: "'a ChunkedVec \<Rightarrow> bool" where
  "cv_is_empty v \<longleftrightarrow> cv_len v = 0"

text \<open>Called only with an index below the length, so there is a chunk and the subtraction is exact.\<close>

definition chunk_and_offset :: "nat \<Rightarrow> 'a ChunkedVec \<Rightarrow> nat \<Rightarrow> nat \<times> nat" where
  "chunk_and_offset elem v i =
     (if length (chunks v) = 1 then (0, i)
      else if i < (length (chunks v) - 1) * CHUNK_SIZE elem
      then (i div CHUNK_SIZE elem, i mod CHUNK_SIZE elem)
      else let full_chunk_elems = (length (chunks v) - 1) * CHUNK_SIZE elem
           in (length (chunks v) - 1, i - full_chunk_elems))"

definition cv_push :: "nat \<Rightarrow> 'a \<Rightarrow> 'a ChunkedVec \<Rightarrow> 'a ChunkedVec" where
  "cv_push elem x v =
     (let need_new_chunk = (chunks v = [] \<or> length (last (chunks v)) \<ge> CHUNK_SIZE elem);
          cs = (if need_new_chunk then chunks v @ [[]] else chunks v);
          l = length cs - 1
      in \<lparr>chunks = cs[l := cs ! l @ [x]], cv_len = cv_len v + 1\<rparr>)"

function push_until :: "nat \<Rightarrow> nat \<Rightarrow> 'a \<Rightarrow> 'a ChunkedVec \<Rightarrow> 'a ChunkedVec" where
  "push_until elem new_len x v =
     (if cv_len v < new_len then push_until elem new_len x (cv_push elem x v) else v)"
  by auto
termination
  by (relation "measure (\<lambda>(_, new_len, _, v). new_len - cv_len v)") (auto simp: cv_push_def Let_def)

declare push_until.simps [simp del]

definition div_ceil :: "nat \<Rightarrow> nat \<Rightarrow> nat" where
  "div_ceil a b = (if a mod b = 0 then a div b else a div b + 1)"

definition cv_resize :: "nat \<Rightarrow> nat \<Rightarrow> 'a \<Rightarrow> 'a ChunkedVec \<Rightarrow> 'a ChunkedVec" where
  "cv_resize elem new_len x v =
     (if new_len \<le> cv_len v
      then let keep_chunks = div_ceil new_len (CHUNK_SIZE elem)
           in if keep_chunks = 0 then \<lparr>chunks = [], cv_len = new_len\<rparr>
              else let cs = take keep_chunks (chunks v);
                       last_offset = new_len mod CHUNK_SIZE elem;
                       last_len = (if last_offset = 0 \<and> new_len > 0 then CHUNK_SIZE elem else last_offset)
                   in \<lparr>chunks = cs[keep_chunks - 1 := take last_len (cs ! (keep_chunks - 1))], cv_len = new_len\<rparr>
      else push_until elem new_len x v)"

definition cv_get :: "nat \<Rightarrow> 'a ChunkedVec \<Rightarrow> nat \<Rightarrow> 'a option" where
  "cv_get elem v i =
     (if i \<ge> cv_len v then None
      else let (ci, off) = chunk_and_offset elem v i
           in if ci < length (chunks v) \<and> off < length (chunks v ! ci)
              then Some (chunks v ! ci ! off) else None)"

text \<open>Writing through \<^verbatim>\<open>get_mut\<close>.\<close>

definition cv_set :: "nat \<Rightarrow> 'a ChunkedVec \<Rightarrow> nat \<Rightarrow> 'a \<Rightarrow> 'a ChunkedVec option" where
  "cv_set elem v i x =
     (if i \<ge> cv_len v then None
      else let (ci, off) = chunk_and_offset elem v i
           in if ci < length (chunks v) \<and> off < length (chunks v ! ci)
              then Some (v\<lparr>chunks := (chunks v)[ci := (chunks v ! ci)[off := x]]\<rparr>) else None)"

text \<open>\<^verbatim>\<open>ptr::swap\<close> of two elements obtained by \<^verbatim>\<open>get_mut(..).expect(..)\<close>.\<close>

definition cv_swap :: "nat \<Rightarrow> nat \<Rightarrow> nat \<Rightarrow> 'a ChunkedVec \<Rightarrow> 'a ChunkedVec option" where
  "cv_swap elem i j v =
     Option.bind (cv_get elem v i) (\<lambda>a. Option.bind (cv_get elem v j) (\<lambda>b.
       Option.bind (cv_set elem v i b) (\<lambda>v. cv_set elem v j a)))"

text \<open>\<^verbatim>\<open>Vec::swap_remove\<close>, for an index in range.\<close>

definition vec_swap_remove :: "'a list \<Rightarrow> nat \<Rightarrow> 'a \<times> 'a list" where
  "vec_swap_remove xs i = (xs ! i, butlast (xs[i := last xs]))"

text \<open>\<^verbatim>\<open>swap_remove\<close> once the element is in the last place \<open>l\<close>. The outer option is a panic, the inner
  one the result of the source.\<close>

definition cv_take_last :: "nat \<Rightarrow> nat \<Rightarrow> 'a ChunkedVec \<Rightarrow> ('a option \<times> 'a ChunkedVec) option" where
  "cv_take_last elem l v =
     (let (ci, off) = chunk_and_offset elem v l
      in if ci \<ge> length (chunks v) then Some (None, v)
         else if off \<ge> length (chunks v ! ci) then None
         else let (x, chunk) = vec_swap_remove (chunks v ! ci) off;
                  cs = (chunks v)[ci := chunk]
              in Some (Some x, \<lparr>chunks = (if chunk = [] then butlast cs else cs), cv_len = cv_len v - 1\<rparr>))"

definition cv_swap_remove :: "nat \<Rightarrow> nat \<Rightarrow> 'a ChunkedVec \<Rightarrow> ('a option \<times> 'a ChunkedVec) option" where
  "cv_swap_remove elem i v =
     (if i \<ge> cv_len v then Some (None, v)
      else let l = cv_len v - 1
           in Option.bind (if i \<noteq> l then cv_swap elem i l v else Some v) (cv_take_last elem l))"

text \<open>\<^verbatim>\<open>Iter::next\<close>: the chunk being read and the chunks after it.\<close>

fun iter_next :: "'a list option \<times> 'a list list \<Rightarrow> ('a \<times> 'a list option \<times> 'a list list) option" where
  "iter_next (Some (x # xs), cs) = Some (x, Some xs, cs)"
| "iter_next (_, c # cs) = iter_next (Some c, cs)"
| "iter_next (_, []) = None"

definition cv_iter :: "'a ChunkedVec \<Rightarrow> 'a list option \<times> 'a list list" where
  "cv_iter v = (case chunks v of [] \<Rightarrow> (None, []) | c # cs \<Rightarrow> (Some c, cs))"

text \<open>\<^verbatim>\<open>IterFrom::next\<close>.\<close>

definition iter_from_next :: "nat \<Rightarrow> 'a ChunkedVec \<Rightarrow> nat \<Rightarrow> ('a \<times> nat) option" where
  "iter_from_next elem v i =
     (if i \<ge> cv_len v then None else map_option (\<lambda>x. (x, i + 1)) (cv_get elem v i))"

definition cv_reverse :: "nat \<Rightarrow> 'a ChunkedVec \<Rightarrow> 'a ChunkedVec option" where
  "cv_reverse elem v =
     fold (\<lambda>i acc. Option.bind acc (cv_swap elem i (cv_len v - 1 - i))) [0..<cv_len v div 2] (Some v)"

text \<open>The variable \<^verbatim>\<open>size\<close> of the source is \<open>right - left\<close> at every test of the loop.\<close>

function cv_bs_loop :: "nat \<Rightarrow> 'a ChunkedVec \<Rightarrow> ('a \<Rightarrow> Ordering) \<Rightarrow> nat \<Rightarrow> nat \<Rightarrow> (nat + nat) option" where
  "cv_bs_loop elem v f left right =
     (if left < right
      then let mid = left + (right - left) div 2
           in case cv_get elem v mid of
                None \<Rightarrow> None
              | Some x \<Rightarrow>
                  (case f x of
                     Less \<Rightarrow> cv_bs_loop elem v f (mid + 1) right
                   | Greater \<Rightarrow> cv_bs_loop elem v f left mid
                   | Equal \<Rightarrow> Some (Inr mid))
      else Some (Inl left))"
  by auto
termination by (relation "measure (\<lambda>(_, _, _, left, right). right - left)") auto

declare cv_bs_loop.simps [simp del]

definition cv_binary_search_by ::
    "nat \<Rightarrow> 'a ChunkedVec \<Rightarrow> ('a \<Rightarrow> Ordering) \<Rightarrow> (nat + nat) option" where
  "cv_binary_search_by elem v f = cv_bs_loop elem v f 0 (cv_len v)"

definition cv_collect :: "'a ChunkedVec \<Rightarrow> 'a list" where
  "cv_collect v = concat (chunks v)"

definition cv_sort_by_key :: "nat \<Rightarrow> ('a \<Rightarrow> 'k::linorder) \<Rightarrow> 'a ChunkedVec \<Rightarrow> 'a ChunkedVec" where
  "cv_sort_by_key elem key v = fold (cv_push elem) (sort_key key (cv_collect v)) \<lparr>chunks = [], cv_len = 0\<rparr>"


section \<open>The layout\<close>

text \<open>All chunks but the last are full, the last is not longer; only a vector made for a capacity has an
  empty chunk.\<close>

definition cv_inv :: "nat \<Rightarrow> 'a ChunkedVec \<Rightarrow> bool" where
  "cv_inv elem v \<longleftrightarrow>
     cv_len v = length (concat (chunks v)) \<and>
     (chunks v = [] \<or>
      (list_all (\<lambda>c. length c = CHUNK_SIZE elem) (butlast (chunks v)) \<and>
       length (last (chunks v)) \<le> CHUNK_SIZE elem \<and> (last (chunks v) \<noteq> [] \<or> chunks v = [[]])))"

lemma cv_inv_cases:
  assumes "cv_inv elem v"
  obtains "chunks v = []" "cv_len v = 0"
  | fulls l where "chunks v = fulls @ [l]" "list_all (\<lambda>c. length c = CHUNK_SIZE elem) fulls"
      "length l \<le> CHUNK_SIZE elem" "l \<noteq> [] \<or> fulls = []"
      "cv_len v = length fulls * CHUNK_SIZE elem + length l"
proof (cases "chunks v = []")
  case True
  then show ?thesis using assms that(1) by (simp add: cv_inv_def)
next
  case False
  define fulls l where "fulls = butlast (chunks v)" and "l = last (chunks v)"
  have "chunks v = fulls @ [l]" using False by (simp add: fulls_def l_def)
  moreover have "length (concat fulls) = length fulls * n" if "list_all (\<lambda>c. length c = n) fulls" for n
    using that by (induction fulls) auto
  ultimately show ?thesis
    using assms that(2) [of fulls l] by (auto simp: cv_inv_def fulls_def [symmetric] l_def [symmetric])
qed

text \<open>The layout is a condition on the lengths of the chunks.\<close>

lemma cv_inv_lengths:
  "cv_inv elem v \<longleftrightarrow> (let ls = map length (chunks v) in
     cv_len v = sum_list ls \<and>
     (ls = [] \<or> (list_all (\<lambda>n. n = CHUNK_SIZE elem) (butlast ls) \<and> last ls \<le> CHUNK_SIZE elem \<and>
        (last ls \<noteq> 0 \<or> ls = [0]))))"
  by (cases "chunks v = []")
    (auto simp: cv_inv_def Let_def length_concat last_map map_butlast [symmetric] list_all_iff map_eq_Cons_conv)

lemma cv_inv_intro:
  assumes "chunks v = fulls @ [l]" "list_all (\<lambda>c. length c = CHUNK_SIZE elem) fulls"
    "length l \<le> CHUNK_SIZE elem" "l \<noteq> [] \<or> fulls = []" "cv_len v = length (concat (chunks v))"
  shows "cv_inv elem v"
  using assms by (auto simp: cv_inv_def)

lemma length_concat_full: "list_all (\<lambda>c. length c = n) cs \<Longrightarrow> length (concat cs) = length cs * n"
  by (induction cs) auto

lemma concat_nth_update:
  assumes "ci < length cs" and "off < length (cs ! ci)"
  shows "concat cs ! (length (concat (take ci cs)) + off) = cs ! ci ! off"
    and "concat (cs[ci := (cs ! ci)[off := x]]) = (concat cs)[length (concat (take ci cs)) + off := x]"
    and "length (concat (take ci cs)) + off < length (concat cs)"
proof -
  have *: "cs = take ci cs @ cs ! ci # drop (Suc ci) cs" using assms(1) by (rule id_take_nth_drop)
  have c: "concat cs = concat (take ci cs) @ cs ! ci @ concat (drop (Suc ci) cs)"
    by (subst *) simp
  show "concat cs ! (length (concat (take ci cs)) + off) = cs ! ci ! off"
    using assms(2) by (simp add: c nth_append)
  show "length (concat (take ci cs)) + off < length (concat cs)"
    using assms(2) by (simp add: c)
  have "cs[ci := y] = take ci cs @ y # drop (Suc ci) cs" for y
    using assms(1) by (simp add: upd_conv_take_nth_drop)
  then show "concat (cs[ci := (cs ! ci)[off := x]]) = (concat cs)[length (concat (take ci cs)) + off := x]"
    using assms(2) by (simp add: c list_update_append)
qed

text \<open>The chunk and offset of an index name the element at that index.\<close>

lemma chunk_and_offset_correct:
  assumes "cv_inv elem v" and "i < cv_len v" and "chunk_and_offset elem v i = (ci, off)"
  shows "ci < length (chunks v) \<and> off < length (chunks v ! ci) \<and>
    length (concat (take ci (chunks v))) + off = i"
  using assms(1)
proof (cases rule: cv_inv_cases)
  case 1
  then show ?thesis using assms(2) by simp
next
  case (2 fulls l)
  define n where "n = CHUNK_SIZE elem"
  have n: "0 < n" by (simp add: n_def)
  note 2 = 2 [folded n_def]
  show ?thesis
  proof (cases "fulls \<noteq> [] \<and> i < length fulls * n")
    case True
    then have co: "ci = i div n" "off = i mod n"
      using assms(3) 2(1) by (auto simp: chunk_and_offset_def n_def)
    have "ci < length fulls" using True n by (simp add: co div_less_iff_less_mult)
    moreover from this have "fulls ! ci \<in> set fulls" by simp
    ultimately have "length (fulls ! ci) = n" "list_all (\<lambda>c. length c = n) (take ci fulls)"
      using 2(2) by (auto simp: list_all_iff dest: in_set_takeD)
    then show ?thesis
      using \<open>ci < length fulls\<close> n by (simp add: 2(1) co nth_append length_concat_full)
  next
    case False
    then have "ci = length fulls" "off = i - length fulls * n"
      using assms(3) 2(1) by (auto simp: chunk_and_offset_def n_def Let_def split: if_splits)
    moreover have "length fulls * n \<le> i" using False by (cases fulls) auto
    ultimately show ?thesis
      using 2 assms(2) by (simp add: length_concat_full)
  qed
qed

section \<open>Refinement of lists\<close>

lemma cv_get_eq:
  assumes "cv_inv elem v"
  shows "cv_get elem v i = (if i < length (cv_collect v) then Some (cv_collect v ! i) else None)"
proof -
  have len: "cv_len v = length (cv_collect v)" using assms by (simp add: cv_inv_def cv_collect_def)
  obtain ci off where co: "chunk_and_offset elem v i = (ci, off)" by force
  then show ?thesis
    using chunk_and_offset_correct [OF assms _ co] concat_nth_update(1) [of ci "chunks v" off]
    by (auto simp: cv_get_def len cv_collect_def)
qed

lemma cv_set_eq:
  assumes "cv_inv elem v"
  shows "if i < length (cv_collect v)
    then \<exists>v'. cv_set elem v i x = Some v' \<and> cv_inv elem v' \<and> cv_collect v' = (cv_collect v)[i := x]
    else cv_set elem v i x = None"
proof -
  have len: "cv_len v = length (cv_collect v)" using assms by (simp add: cv_inv_def cv_collect_def)
  obtain ci off where co: "chunk_and_offset elem v i = (ci, off)" by force
  show ?thesis
  proof (cases "i < length (cv_collect v)")
    case True
    then have c: "ci < length (chunks v)" "off < length (chunks v ! ci)"
      "length (concat (take ci (chunks v))) + off = i"
      using chunk_and_offset_correct [OF assms _ co] len by simp_all
    define v' where "v' = v\<lparr>chunks := (chunks v)[ci := (chunks v ! ci)[off := x]]\<rparr>"
    have abs: "cv_collect v' = (cv_collect v)[i := x]"
      using concat_nth_update(2) [OF c(1,2), of x] c(3) by (simp add: v'_def cv_collect_def)
    have lens: "map length (chunks v') = map length (chunks v)"
      using c(1) by (auto simp: v'_def map_update intro!: list_update_same_conv [THEN iffD2])
    then have "cv_inv elem v'" using assms by (simp add: cv_inv_lengths) (simp add: v'_def)
    with True c co len abs show ?thesis by (simp add: cv_set_def v'_def)
  next
    case False
    then show ?thesis by (simp add: cv_set_def len)
  qed
qed


lemma cv_push_eq:
  assumes "cv_inv elem v"
  shows "cv_inv elem (cv_push elem x v)" and "cv_collect (cv_push elem x v) = cv_collect v @ [x]"
proof -
  have "cv_inv elem (cv_push elem x v) \<and> cv_collect (cv_push elem x v) = cv_collect v @ [x]"
    using assms
  proof (cases rule: cv_inv_cases)
    case 1
    then have "cv_push elem x v = \<lparr>chunks = [[x]], cv_len = 1\<rparr>" by (simp add: cv_push_def)
    with 1 show ?thesis
      using CHUNK_SIZE_pos [of elem] by (auto simp: cv_collect_def cv_inv_def simp del: CHUNK_SIZE_pos)
  next
    case (2 fulls l)
    show ?thesis
    proof (cases "length l < CHUNK_SIZE elem")
      case True
      then have p: "cv_push elem x v = \<lparr>chunks = fulls @ [l @ [x]], cv_len = cv_len v + 1\<rparr>"
        using 2(1) by (simp add: cv_push_def Let_def)
      show ?thesis
        unfolding p using 2 True
        by (auto simp: cv_collect_def length_concat_full intro!: cv_inv_intro [of _ fulls "l @ [x]"])
    next
      case False
      then have p: "cv_push elem x v = \<lparr>chunks = (fulls @ [l]) @ [[x]], cv_len = cv_len v + 1\<rparr>"
        using 2(1) by (simp add: cv_push_def Let_def nth_append list_update_append)
      show ?thesis
        unfolding p using 2 False CHUNK_SIZE_pos [of elem]
        by (auto simp: cv_collect_def length_concat_full simp del: CHUNK_SIZE_pos
            intro!: cv_inv_intro [of _ "fulls @ [l]" "[x]"])
    qed
  qed
  then show "cv_inv elem (cv_push elem x v)" "cv_collect (cv_push elem x v) = cv_collect v @ [x]" by simp_all
qed

lemma cv_new_eq: "cv_inv elem cv_new" "cv_collect cv_new = []"
  by (simp_all add: cv_new_def cv_inv_def cv_collect_def)

text \<open>What a client of a growable vector relies on.\<close>

locale growable_vector =
  fixes inv :: "'v \<Rightarrow> bool" and elems :: "'v \<Rightarrow> 'a list"
    and new :: 'v and push :: "'a \<Rightarrow> 'v \<Rightarrow> 'v" and get :: "'v \<Rightarrow> nat \<Rightarrow> 'a option"
    and upd :: "'v \<Rightarrow> nat \<Rightarrow> 'a \<Rightarrow> 'v option"
  assumes inv_new: "inv new" and elems_new: "elems new = []"
    and inv_push: "inv v \<Longrightarrow> inv (push x v)" and elems_push: "inv v \<Longrightarrow> elems (push x v) = elems v @ [x]"
    and get_elems: "inv v \<Longrightarrow> get v i = (if i < length (elems v) then Some (elems v ! i) else None)"
    and upd_elems: "inv v \<Longrightarrow> if i < length (elems v)
      then \<exists>v'. upd v i x = Some v' \<and> inv v' \<and> elems v' = (elems v)[i := x] else upd v i x = None"
begin

lemma push_all: "inv v \<Longrightarrow> inv (fold push xs v) \<and> elems (fold push xs v) = elems v @ xs"
  by (induction xs arbitrary: v) (simp_all add: inv_push elems_push)

definition swap :: "nat \<Rightarrow> nat \<Rightarrow> 'v \<Rightarrow> 'v option" where
  "swap i j v = Option.bind (get v i) (\<lambda>a. Option.bind (get v j) (\<lambda>b.
     Option.bind (upd v i b) (\<lambda>v. upd v j a)))"

lemma swap_elems:
  assumes "inv v" and "i < length (elems v)" and "j < length (elems v)"
  shows "\<exists>v'. swap i j v = Some v' \<and> inv v' \<and>
    elems v' = (elems v)[i := elems v ! j, j := elems v ! i]"
proof -
  obtain v1 where v1: "upd v i (elems v ! j) = Some v1" "inv v1" "elems v1 = (elems v)[i := elems v ! j]"
    using upd_elems [OF assms(1), of i "elems v ! j"] assms(2) by auto
  then obtain v2 where "upd v1 j (elems v ! i) = Some v2" "inv v2" "elems v2 = (elems v1)[j := elems v ! i]"
    using upd_elems [OF v1(2), of j "elems v ! i"] assms(3) by auto
  with v1 assms show ?thesis by (simp add: swap_def get_elems)
qed

text \<open>Swapping the pairs \<open>(i, n - 1 - i)\<close> for \<open>i\<close> below \<open>k\<close> reverses the two ends.\<close>

lemma reverse_ends:
  assumes "inv v" and "k \<le> length (elems v) div 2"
  shows "\<exists>v'. fold (\<lambda>i acc. Option.bind acc (swap i (length (elems v) - 1 - i))) [0..<k] (Some v) = Some v' \<and>
    inv v' \<and> length (elems v') = length (elems v) \<and>
    (\<forall>i < length (elems v). elems v' ! i =
       (if i < k \<or> length (elems v) - 1 - k < i then elems v ! (length (elems v) - 1 - i) else elems v ! i))"
  using assms(2)
proof (induction k)
  case 0
  then show ?case using assms(1) by auto
next
  case (Suc k)
  let ?n = "length (elems v)"
  have lt: "k < ?n - 1 - k" "?n - 1 - k < ?n" using Suc.prems by linarith+
  obtain v' where v': "fold (\<lambda>i acc. Option.bind acc (swap i (?n - 1 - i))) [0..<k] (Some v) = Some v'"
    "inv v'" "length (elems v') = ?n"
    "\<forall>i < ?n. elems v' ! i = (if i < k \<or> ?n - 1 - k < i then elems v ! (?n - 1 - i) else elems v ! i)"
    using Suc by auto
  obtain v'' where "swap k (?n - 1 - k) v' = Some v''" "inv v''"
    "elems v'' = (elems v')[k := elems v' ! (?n - 1 - k), ?n - 1 - k := elems v' ! k]"
    using swap_elems [OF v'(2), of k "?n - 1 - k"] v'(3) lt by auto
  then show ?case
    using v' lt by (auto simp: nth_list_update)
qed

lemma reverse_elems:
  assumes "inv v"
  shows "\<exists>v'. fold (\<lambda>i acc. Option.bind acc (swap i (length (elems v) - 1 - i))) [0..<length (elems v) div 2] (Some v)
    = Some v' \<and> inv v' \<and> elems v' = rev (elems v)"
proof -
  let ?n = "length (elems v)"
  obtain v' where v': "fold (\<lambda>i acc. Option.bind acc (swap i (?n - 1 - i))) [0..<?n div 2] (Some v) = Some v'"
    "inv v'" "length (elems v') = ?n"
    "\<forall>i < ?n. elems v' ! i =
       (if i < ?n div 2 \<or> ?n - 1 - ?n div 2 < i then elems v ! (?n - 1 - i) else elems v ! i)"
    using reverse_ends [OF assms, of "?n div 2"] by auto
  have "elems v' ! i = rev (elems v) ! i" if i: "i < ?n" for i
  proof (cases "i < ?n div 2 \<or> ?n - 1 - ?n div 2 < i")
    case True
    then show ?thesis using v'(4) i by (simp add: rev_nth)
  next
    case False
    define n m where "n = ?n" and "m = ?n div 2"
    have "2 * m \<le> n" "n \<le> 2 * m + 1" by (simp_all add: n_def m_def)
    with False i have "i = n - 1 - i" unfolding n_def [symmetric] m_def [symmetric] by linarith
    then have "i = ?n - 1 - i" by (simp only: n_def)
    then show ?thesis using v'(4) i False by (simp add: rev_nth)
  qed
  with v' show ?thesis by (auto intro: nth_equalityI)
qed

end

interpretation cv: growable_vector "cv_inv elem" cv_collect cv_new "cv_push elem" "cv_get elem" "cv_set elem"
  for elem
  by unfold_locales (simp_all add: cv_new_eq cv_push_eq cv_get_eq cv_set_eq)


section \<open>Operations on the whole vector\<close>

lemma cv_len_collect: "cv_inv elem v \<Longrightarrow> cv_len v = length (cv_collect v)"
  by (simp add: cv_inv_def cv_collect_def)

lemma cv_swap_eq: "cv_swap elem = cv.swap elem"
  by (simp add: fun_eq_iff cv_swap_def cv.swap_def)

lemma cv_reverse_eq:
  "cv_inv elem v \<Longrightarrow> \<exists>v'. cv_reverse elem v = Some v' \<and> cv_inv elem v' \<and> cv_collect v' = rev (cv_collect v)"
  using cv.reverse_elems [of elem v] by (simp add: cv_reverse_def cv_swap_eq cv_len_collect)

lemma cv_sort_eq:
  "cv_inv elem (cv_sort_by_key elem key v) \<and> cv_collect (cv_sort_by_key elem key v) = sort_key key (cv_collect v)"
  using cv.push_all [OF cv_new_eq(1), of elem "sort_key key (cv_collect v)"]
  by (simp add: cv_sort_by_key_def cv_new_def [symmetric] cv_new_eq)

lemma push_until_eq:
  "cv_inv elem v \<Longrightarrow> cv_inv elem (push_until elem n x v) \<and>
     cv_collect (push_until elem n x v) = cv_collect v @ replicate (n - length (cv_collect v)) x"
proof (induction elem n x v rule: push_until.induct)
  case (1 elem n x v)
  have "replicate (n - length (cv_collect v)) x = x # replicate (n - (length (cv_collect v) + 1)) x"
    if "length (cv_collect v) < n"
    using that by (metis Suc_diff_Suc Suc_eq_plus1 replicate_Suc)
  with 1 show ?case
    by (subst (1 2) push_until.simps) (auto simp: cv_push_eq cv_len_collect)
qed

lemma default_chunks_eq:
  "concat (default_chunks elem n x) = replicate n x \<and>
   cv_inv elem \<lparr>chunks = default_chunks elem n x, cv_len = n\<rparr>"
proof (induction elem n x rule: default_chunks.induct)
  case (1 elem n x)
  show ?case
  proof (cases "n = 0")
    case False
    define m where "m = min n (CHUNK_SIZE elem)"
    have d: "default_chunks elem n x = replicate m x # default_chunks elem (n - m) x"
      using False by (subst default_chunks.simps) (simp add: m_def Let_def)
    have IH: "concat (default_chunks elem (n - m) x) = replicate (n - m) x"
      "cv_inv elem \<lparr>chunks = default_chunks elem (n - m) x, cv_len = n - m\<rparr>"
      using 1 False by (simp_all add: m_def)
    have m: "m \<le> n" "0 < m" "m \<le> CHUNK_SIZE elem" using False by (simp_all add: m_def)
    have "cv_inv elem \<lparr>chunks = default_chunks elem n x, cv_len = n\<rparr>"
    proof (cases "n \<le> CHUNK_SIZE elem")
      case True
      then have "n - m = 0" by (simp add: m_def)
      then have "default_chunks elem (n - m) x = []" by (simp add: default_chunks.simps)
      then show ?thesis using m True by (simp add: d cv_inv_def m_def)
    next
      case False
      then have "m = CHUNK_SIZE elem" "0 < n - m" by (simp_all add: m_def)
      moreover from this have "default_chunks elem (n - m) x \<noteq> []" "default_chunks elem (n - m) x \<noteq> [[]]"
        by (subst default_chunks.simps; simp add: Let_def)+
      ultimately show ?thesis using IH m by (auto simp: d cv_inv_def)
    qed
    moreover have "concat (default_chunks elem n x) = replicate n x"
      using IH(1) m(1) by (simp add: d replicate_add [symmetric])
    ultimately show ?thesis by simp
  qed (simp add: default_chunks.simps cv_inv_def)
qed


lemma div_ceil_split:
  assumes "0 < n" and "0 < k"
  defines "q \<equiv> div_ceil k n - 1" and "r \<equiv> (if k mod n = 0 \<and> k > 0 then n else k mod n)"
  shows "div_ceil k n = q + 1" and "k = q * n + r" and "0 < r" and "r \<le> n"
proof -
  have "0 < k div n" if "k mod n = 0"
    using that assms(1,2) by (metis div_greater_zero_iff dvd_imp_le mod_eq_0_iff_dvd)
  then show "div_ceil k n = q + 1" by (auto simp: q_def div_ceil_def)
  show "0 < r" "r \<le> n" using assms(1,2) by (auto simp: r_def less_imp_le)
  show "k = q * n + r"
  proof (cases "k mod n = 0")
    case True
    then have "k = k div n * n" "0 < k div n" using \<open>k mod n = 0 \<Longrightarrow> 0 < k div n\<close> by auto
    then show ?thesis
      using True assms(2) by (simp add: q_def r_def div_ceil_def) (metis Suc_pred add.commute mult_Suc)
  qed (use assms(2) in \<open>simp add: q_def r_def div_ceil_def\<close>)
qed

lemma cv_shrink_eq:
  assumes "cv_inv elem v" and "k \<le> length (cv_collect v)"
  shows "cv_inv elem (cv_resize elem k x v) \<and> cv_collect (cv_resize elem k x v) = take k (cv_collect v)"
proof (cases "k = 0")
  case True
  then have "div_ceil k (CHUNK_SIZE elem) = 0" by (simp add: div_ceil_def)
  then show ?thesis using True by (simp add: cv_resize_def cv_inv_def cv_collect_def)
next
  case False
  define n where "n = CHUNK_SIZE elem"
  define q where "q = div_ceil k n - 1"
  define r where "r = (if k mod n = 0 \<and> k > 0 then n else k mod n)"
  have n: "0 < n" by (simp add: n_def)
  have k: "0 < k" using False by simp
  note qr = div_ceil_split [OF n k, folded q_def r_def]
  from assms(1) show ?thesis
  proof (cases rule: cv_inv_cases)
    case 1
    then show ?thesis using assms False by (simp add: cv_collect_def)
  next
    case (2 fulls l)
    note 2 = 2 [folded n_def]
    have len: "length (cv_collect v) = length fulls * n + length l"
      using 2 by (simp add: cv_collect_def length_concat_full)
    have "q * n < (length fulls + 1) * n" using qr(2,3) assms(2) len 2(3) by simp
    then have "q < length fulls + 1" by (simp only: mult_less_cancel2)
    then have q: "q \<le> length fulls" by simp
    define fs where "fs = take q fulls"
    define c where "c = (fulls @ [l]) ! q"
    have fs: "list_all (\<lambda>c. length c = n) fs" "length fs = q" "take q (chunks v) = fs"
      using 2(1,2) q by (auto simp: fs_def list_all_iff dest: in_set_takeD)
    have c: "r \<le> length c"
    proof (cases "q = length fulls")
      case True
      then show ?thesis using qr(2) assms(2) len by (simp add: c_def)
    next
      case False
      then have "c \<in> set fulls" using q by (simp add: c_def nth_append)
      then show ?thesis using 2(2) qr(4) by (simp add: list_all_iff)
    qed
    have res: "cv_resize elem k x v = \<lparr>chunks = fs @ [take r c], cv_len = k\<rparr>"
    proof -
      have "take (q + 1) (chunks v) = fs @ [c]"
        using 2(1) q by (simp add: fs_def c_def take_Suc_conv_app_nth nth_append)
      moreover have "k \<le> cv_len v" using assms cv_len_collect by metis
      moreover have "div_ceil k (CHUNK_SIZE elem) = q + 1" using qr(1) by (simp add: n_def)
      ultimately show ?thesis
        using fs(2) by (simp add: cv_resize_def Let_def r_def n_def nth_append list_update_append)
    qed
    have "concat (chunks v) = concat fs @ c @ concat (drop (Suc q) (chunks v))"
      using id_take_nth_drop [of q "chunks v"] q fs(3) 2(1) c_def
      by (metis concat.simps(2) concat_append length_append_singleton less_Suc_eq_le)
    then have "take k (cv_collect v) = concat fs @ take r c"
      using c qr(2) fs by (simp add: cv_collect_def length_concat_full)
    moreover have "cv_inv elem (cv_resize elem k x v)"
      unfolding res using fs c qr(2-4) 
      by (intro cv_inv_intro [of _ fs "take r c"]) (auto simp: n_def length_concat_full)
    ultimately show ?thesis by (simp add: res cv_collect_def)
  qed
qed

lemma cv_resize_eq:
  assumes "cv_inv elem v"
  shows "cv_inv elem (cv_resize elem k x v) \<and>
    cv_collect (cv_resize elem k x v) = take k (cv_collect v) @ replicate (k - length (cv_collect v)) x"
proof (cases "k \<le> length (cv_collect v)")
  case True
  then show ?thesis using cv_shrink_eq [OF assms True] by simp
next
  case False
  then have "cv_resize elem k x v = push_until elem k x v"
    by (simp add: cv_resize_def cv_len_collect [OF assms])
  with False show ?thesis using push_until_eq [OF assms, of k x] by simp
qed

lemma last_chunk:
  assumes "cv_inv elem v" and "cv_len v \<noteq> 0"
  obtains fulls l where "chunks v = fulls @ [l]" "l \<noteq> []"
    "chunk_and_offset elem v (cv_len v - 1) = (length fulls, length l - 1)"
    "list_all (\<lambda>c. length c = CHUNK_SIZE elem) fulls" "length l \<le> CHUNK_SIZE elem"
  using assms(1)
proof (cases rule: cv_inv_cases)
  case 1
  then show ?thesis using assms(2) by simp
next
  case (2 fulls l)
  then have "l \<noteq> []" using assms(2) by auto
  moreover from this have "chunk_and_offset elem v (cv_len v - 1) = (length fulls, length l - 1)"
  proof -
    have "0 < length l" using \<open>l \<noteq> []\<close> by simp
    then have "cv_len v - 1 = length fulls * CHUNK_SIZE elem + (length l - 1)" using 2(5) by linarith
    then show ?thesis using 2(1) by (simp add: chunk_and_offset_def Let_def)
  qed
  ultimately show ?thesis using that 2 by blast
qed

lemma cv_drop_last:
  assumes "cv_inv elem v" and "cv_len v \<noteq> 0"
  shows "\<exists>v'. cv_take_last elem (cv_len v - 1) v = Some (Some (last (cv_collect v)), v') \<and> cv_inv elem v' \<and>
    cv_collect v' = butlast (cv_collect v)"
proof -
  obtain fulls l where c: "chunks v = fulls @ [l]" "l \<noteq> []"
    "chunk_and_offset elem v (cv_len v - 1) = (length fulls, length l - 1)"
    "list_all (\<lambda>c. length c = CHUNK_SIZE elem) fulls" "length l \<le> CHUNK_SIZE elem"
    using last_chunk [OF assms(1,2)] .
  have sr: "vec_swap_remove l (length l - 1) = (last l, butlast l)"
    using c(2) by (simp add: vec_swap_remove_def last_conv_nth)
  have len: "cv_len v = length (concat fulls) + length l"
    using assms(1) c(1) by (simp add: cv_inv_def)
  define v' where "v' = \<lparr>chunks = (if butlast l = [] then fulls else fulls @ [butlast l]), cv_len = cv_len v - 1\<rparr>"
  have "\<not> length l \<le> length l - 1" using c(2) by (cases l) simp_all
  then have r: "cv_take_last elem (cv_len v - 1) v = Some (Some (last l), v')"
    using c(1,2,3) sr by (simp add: cv_take_last_def v'_def)
  have "cv_inv elem v'"
  proof (cases "butlast l = []")
    case True
    then have "length l = 1" using c(2) by (cases l rule: rev_cases) auto
    moreover have "last fulls \<noteq> []" if "fulls \<noteq> []"
    proof -
      have "length (last fulls) = CHUNK_SIZE elem" using c(4) last_in_set [OF that] by (simp add: list_all_iff)
      then show ?thesis using CHUNK_SIZE_pos [of elem] by (metis length_0_conv less_irrefl)
    qed
    ultimately show ?thesis
      using True c(4) len by (auto simp: v'_def cv_inv_def list_all_iff dest: in_set_butlastD)
  next
    case False
    have "cv_len v - 1 = length (concat fulls) + (length l - 1)" using c(2) len by (cases l) simp_all
    with False show ?thesis
      using c(4,5) by (intro cv_inv_intro [of _ fulls "butlast l"]) (auto simp: v'_def)
  qed
  moreover have "cv_collect v' = butlast (cv_collect v)"
    using c(1,2) by (simp add: v'_def cv_collect_def butlast_append)
  ultimately show ?thesis using r c(1,2) by (simp add: cv_collect_def)
qed

lemma cv_swap_remove_eq:
  assumes "cv_inv elem v"
  shows "if i < length (cv_collect v)
    then \<exists>v'. cv_swap_remove elem i v = Some (Some (cv_collect v ! i), v') \<and> cv_inv elem v' \<and>
      cv_collect v' = butlast ((cv_collect v)[i := last (cv_collect v)])
    else cv_swap_remove elem i v = Some (None, v)"
proof (cases "i < length (cv_collect v)")
  case True
  let ?xs = "cv_collect v"
  define l where "l = length ?xs - 1"
  have len: "cv_len v = length ?xs" using assms by (rule cv_len_collect)
  obtain v1 where v1: "(if i \<noteq> l then cv_swap elem i l v else Some v) = Some v1" "cv_inv elem v1"
    "cv_collect v1 = ?xs[i := ?xs ! l, l := ?xs ! i]"
  proof -
    have "l < length ?xs" using True by (simp add: l_def)
    with that cv.swap_elems [OF assms True, of l] assms show ?thesis
      by (cases "i = l") (auto simp: cv_swap_eq)
  qed
  have ne: "cv_len v1 \<noteq> 0" "cv_len v1 - 1 = l"
    using cv_len_collect [OF v1(2)] v1(3) True by (auto simp: l_def)
  have last: "last (cv_collect v1) = ?xs ! i" "butlast (cv_collect v1) = butlast (?xs[i := last ?xs])"
  proof -
    have ne: "?xs \<noteq> []" using True by auto
    then have l: "l < length ?xs" and ll: "last ?xs = ?xs ! l" by (simp_all add: l_def last_conv_nth)
    show "last (cv_collect v1) = ?xs ! i"
      using l ne by (simp add: v1(3) last_conv_nth l_def [symmetric] del: One_nat_def)
    show "butlast (cv_collect v1) = butlast (?xs[i := last ?xs])"
      unfolding v1(3) ll by (simp add: butlast_list_update l_def)
  qed
  show ?thesis
    using cv_drop_last [OF v1(2) ne(1)] v1(1) True unfolding ne(2) last
    by (simp add: cv_swap_remove_def len l_def Let_def split: if_splits)
next
  case False
  then show ?thesis using cv_len_collect [OF assms] by (simp add: cv_swap_remove_def)
qed


section \<open>Iteration and search\<close>

fun remaining_elems :: "'a list option \<times> 'a list list \<Rightarrow> 'a list" where
  "remaining_elems (None, cs) = concat cs"
| "remaining_elems (Some xs, cs) = xs @ concat cs"

lemma iter_next_elems:
  "(iter_next it = Some (x, it') \<longrightarrow> remaining_elems it = x # remaining_elems it') \<and>
   (iter_next it = None \<longrightarrow> remaining_elems it = [])"
  by (induction it rule: iter_next.induct) auto

lemma cv_iter_elems: "remaining_elems (cv_iter v) = cv_collect v"
  by (simp add: cv_iter_def cv_collect_def split: list.split)

definition ordered_by :: "('a \<Rightarrow> Ordering) \<Rightarrow> 'a list \<Rightarrow> bool" where
  "ordered_by f xs \<longleftrightarrow> (\<forall>i j. i < j \<longrightarrow> j < length xs \<longrightarrow>
     (f (xs ! j) = Less \<longrightarrow> f (xs ! i) = Less) \<and> (f (xs ! i) = Greater \<longrightarrow> f (xs ! j) = Greater))"

definition search_result :: "('a \<Rightarrow> Ordering) \<Rightarrow> 'a list \<Rightarrow> nat + nat \<Rightarrow> bool" where
  "search_result f xs r \<longleftrightarrow>
     (case r of
        Inr i \<Rightarrow> i < length xs \<and> f (xs ! i) = Equal
      | Inl i \<Rightarrow> i \<le> length xs \<and> (\<forall>k < i. f (xs ! k) = Less) \<and>
          (\<forall>k. i \<le> k \<longrightarrow> k < length xs \<longrightarrow> f (xs ! k) = Greater))"

lemma cv_bs_loop_eq:
  assumes "cv_inv elem v" and "ordered_by f (cv_collect v)" and "left \<le> right" and "right \<le> length (cv_collect v)"
    and "\<forall>k < left. f (cv_collect v ! k) = Less"
    and "\<forall>k. right \<le> k \<longrightarrow> k < length (cv_collect v) \<longrightarrow> f (cv_collect v ! k) = Greater"
  shows "\<exists>r. cv_bs_loop elem v f left right = Some r \<and> search_result f (cv_collect v) r"
  using assms
proof (induction elem v f left right rule: cv_bs_loop.induct)
  case (1 elem v f left right)
  let ?xs = "cv_collect v"
  show ?case
  proof (cases "left < right")
    case True
    define mid where "mid = left + (right - left) div 2"
    have mid: "left \<le> mid" "mid < right" using True by (simp_all add: mid_def)
    with "1.prems"(4) have get: "cv_get elem v mid = Some (?xs ! mid)"
      by (simp add: cv_get_eq [OF "1.prems"(1)])
    note step = cv_bs_loop.simps [of elem v f left right]
    show ?thesis
    proof (cases "f (?xs ! mid)")
      case Less
      then have "\<forall>k < mid + 1. f (?xs ! k) = Less"
        using "1.prems"(2,4) mid unfolding ordered_by_def by (metis Suc_eq_plus1 less_Suc_eq less_le_trans)
      then show ?thesis
        using "1.IH"(1) [OF True mid_def get Less] "1.prems" mid True Less get
        by (subst step) (simp add: mid_def [symmetric])
    next
      case Greater
      then have "\<forall>k. mid \<le> k \<longrightarrow> k < length ?xs \<longrightarrow> f (?xs ! k) = Greater"
        using "1.prems"(2) unfolding ordered_by_def by (metis le_neq_implies_less)
      then show ?thesis
        using "1.IH"(2) [OF True mid_def get Greater] "1.prems" mid True Greater get
        by (subst step) (simp add: mid_def [symmetric])
    next
      case Equal
      then show ?thesis
        using True get mid "1.prems"(4) by (subst step) (simp add: mid_def [symmetric] search_result_def)
    qed
  next
    case False
    then show ?thesis
      using "1.prems" by (subst cv_bs_loop.simps) (auto simp: search_result_def)
  qed
qed

section \<open>Properties\<close>


text \<open>No allocation is large: a chunk of elements of at most 1024 bytes takes at most 1024 bytes, and
  the chunk size is the largest power of two for which that holds.\<close>

theorem chunk_allocation_bound:
  assumes "cv_inv elem v" and "0 < elem" and "elem \<le> CHUNK_BYTES" and "c \<in> set (chunks v)"
  shows "length c * elem \<le> CHUNK_BYTES \<and> CHUNK_BYTES < 2 * CHUNK_SIZE elem * elem \<and> (\<exists>k. CHUNK_SIZE elem = 2 ^ k)"
proof -
  obtain k where k: "CHUNK_SIZE elem = 2 ^ k" "k = 0 \<or> 2 ^ k * elem \<le> CHUNK_BYTES" "CHUNK_BYTES < 2 ^ k * 2 * elem"
    using chunk_size_loop [OF assms(2)] assms(2) by (auto simp: CHUNK_SIZE_def)
  have "length c \<le> CHUNK_SIZE elem"
    using assms(1,4) by (cases rule: cv_inv_cases) (auto simp: list_all_iff)
  then have "length c * elem \<le> CHUNK_SIZE elem * elem" by simp
  also have "\<dots> \<le> CHUNK_BYTES" using k(1,2) assms(3) by auto
  finally show ?thesis using k by (auto simp: mult.commute mult.left_commute)
qed

text \<open>Binary search on a vector ordered for the comparator always returns: the index of an equal
  element, or the insertion point with everything before it less and everything after it greater.\<close>

theorem chunked_binary_search:
  assumes "cv_inv elem v" and "ordered_by f (cv_collect v)"
  shows "\<exists>r. cv_binary_search_by elem v f = Some r \<and> search_result f (cv_collect v) r"
  unfolding cv_binary_search_by_def
  using assms by (intro cv_bs_loop_eq) (simp_all add: cv_len_collect)


section \<open>A concrete vector\<close>

text \<open>Elements of 300 bytes come two to a chunk.\<close>

definition sample_vec :: "nat ChunkedVec" where
  "sample_vec = fold (cv_push 300) [5, 3, 9, 1, 7] cv_new"

lemma sample_vec_layout: "chunks sample_vec = [[5, 3], [9, 1], [7]]"
  by code_simp

lemma sample_vec_inv: "cv_inv 300 sample_vec" "cv_collect sample_vec = [5, 3, 9, 1, 7]"
  using cv.push_all [OF cv_new_eq(1), of 300 "[5, 3, 9, 1, 7 :: nat]"] by (simp_all add: sample_vec_def cv_new_eq)


lemma chunk_allocation_bound_witness: "length [9 :: nat, 1] * 300 \<le> CHUNK_BYTES"
proof -
  have "[9, 1] \<in> set (chunks sample_vec)" by (simp add: sample_vec_layout)
  from chunk_allocation_bound [OF sample_vec_inv(1) _ _ this] show ?thesis by (simp add: CHUNK_BYTES_def)
qed

lemma chunked_binary_search_witness:
  "\<exists>r. cv_binary_search_by 300 (cv_sort_by_key 300 id sample_vec) (\<lambda>x. cmp x 7) = Some r \<and>
     search_result (\<lambda>x. cmp x (7 :: nat)) [1, 3, 5, 7, 9] r"
proof -
  have i: "cv_inv 300 (cv_sort_by_key 300 id sample_vec)"
    by (rule cv_sort_eq [THEN conjunct1])
  have s: "cv_collect (cv_sort_by_key 300 id sample_vec) = [1, 3, 5, 7, 9]"
    using cv_sort_eq [of 300 id sample_vec] by (simp add: sample_vec_inv)
  have "ordered_by (\<lambda>x. cmp x (7 :: nat)) [1, 3, 5, 7, 9]"
    unfolding ordered_by_def by (auto simp: less_Suc_eq cmp_def numeral_eq_Suc)
  then show ?thesis
    using chunked_binary_search [OF i, of "\<lambda>x. cmp x 7"] by (simp add: s)
qed

end
