(* ===== verification/Lpir.thy ===== *)
theory Lpir
  imports Prelude Vec_Map
begin

text \<open>
  The data of the shader intermediate representation: \<^verbatim>\<open>lp-shader/lpir/src/types.rs\<close>,
  \<^verbatim>\<open>lpir_op.rs\<close> and \<^verbatim>\<open>lpir_module.rs\<close>. Register numbers, slot numbers and offsets keep their 32-bit
  width; \<^term>\<open>unat\<close> reads them as indices. The 89 variants of \<^verbatim>\<open>LpirOp\<close> are grouped by operand
  shape: variants with the same fields share a constructor that carries the variant's name as an
  enumeration. A body is the list of its operations (\<^verbatim>\<open>LpirBody\<close> wraps the chunked vector, whose
  \<^verbatim>\<open>get\<close>, \<^verbatim>\<open>push\<close> and indexing are those of the list it represents).
\<close>

section \<open>Types\<close>

datatype FloatMode = Mode_Q32 | Mode_F32

datatype IrType = F32 | I32 | Pointer

type_synonym VReg = u32
type_synonym SlotId = u32
type_synonym ImportId = u16
type_synonym FuncId = u16

text \<open>A 32-bit float is its bit pattern.\<close>

type_synonym f32 = u32

record VRegRange =
  vr_start :: u32
  vr_count :: u16

definition VRegRange_EMPTY :: VRegRange where
  "VRegRange_EMPTY = \<lparr>vr_start = 0, vr_count = 0\<rparr>"

datatype CalleeRef = CalleeImport ImportId | CalleeLocal FuncId

section \<open>Operations\<close>

datatype FBin = Fadd | Fsub | Fmul | Fdiv | Fmin | Fmax

datatype FUn = Fneg | Fabs | Fsqrt | Ffloor | Fceil | Ftrunc | Fnearest

datatype FCmp = Feq | Fne | Flt | Fle | Fgt | Fge

datatype IArith = Iadd | Isub | Imul | IdivS | IdivU | IremS | IremU

datatype ICmp = Ieq | Ine | IltS | IleS | IgtS | IgeS | IltU | IleU | IgtU | IgeU

datatype IBit = Iand | Ior | Ixor | Ishl | IshrS | IshrU

datatype IUn = Ineg | Ibnot

datatype IImm = IaddImm | IsubImm | ImulImm | IshlImm | IshrSImm | IshrUImm | IeqImm

datatype FtoI = FtoiSatS | FtoiSatU | FtoUnorm16 | FtoUnorm8

datatype ItoF = ItofS | ItofU | FfromI32Bits | Unorm16toF | Unorm8toF

datatype NarrowLoad = Load8U | Load8S | Load16U | Load16S

datatype NarrowStore = Store8 | Store16

text \<open>Fields are in the order of the source: the destination first, then the operands.\<close>

datatype LpirOp =
    OpFBin FBin VReg VReg VReg
  | FdivConstF32 VReg VReg f32
  | OpFUn FUn VReg VReg
  | OpIArith IArith VReg VReg VReg
  | OpIUn IUn VReg VReg
  | OpFCmp FCmp VReg VReg VReg
  | OpICmp ICmp VReg VReg VReg
  | OpIBit IBit VReg VReg VReg
  | FconstF32 VReg f32
  | IconstI32 VReg i32
  | OpIImm IImm VReg VReg i32
  | OpFtoI FtoI VReg VReg
  | OpItoF ItoF VReg VReg
  | Select VReg VReg VReg VReg
  | Copy VReg VReg
  | SlotAddr VReg SlotId
  | Load VReg VReg u32
  | Store VReg u32 VReg
  | OpNarrowStore NarrowStore VReg u32 VReg
  | OpNarrowLoad NarrowLoad VReg VReg u32
  | Memcpy VReg VReg u32
  | IfStart VReg u32 u32
  | Else
  | LoopStart u32 u32
  | SwitchStart VReg u32
  | CaseStart i32 u32
  | DefaultStart u32
  | End
  | Block u32
  | Break
  | Continue
  | BrIfNot VReg
  | ExitBlock
  | Call CalleeRef VRegRange VRegRange
  | Return VRegRange

fun def_vreg :: "LpirOp \<Rightarrow> VReg option" where
  "def_vreg (OpFBin _ dst _ _) = Some dst"
| "def_vreg (FdivConstF32 dst _ _) = Some dst"
| "def_vreg (OpFUn _ dst _) = Some dst"
| "def_vreg (OpIArith _ dst _ _) = Some dst"
| "def_vreg (OpIUn _ dst _) = Some dst"
| "def_vreg (OpFCmp _ dst _ _) = Some dst"
| "def_vreg (OpICmp _ dst _ _) = Some dst"
| "def_vreg (OpIBit _ dst _ _) = Some dst"
| "def_vreg (FconstF32 dst _) = Some dst"
| "def_vreg (IconstI32 dst _) = Some dst"
| "def_vreg (OpIImm _ dst _ _) = Some dst"
| "def_vreg (OpFtoI _ dst _) = Some dst"
| "def_vreg (OpItoF _ dst _) = Some dst"
| "def_vreg (Select dst _ _ _) = Some dst"
| "def_vreg (Copy dst _) = Some dst"
| "def_vreg (SlotAddr dst _) = Some dst"
| "def_vreg (Load dst _ _) = Some dst"
| "def_vreg (OpNarrowLoad _ dst _ _) = Some dst"
| "def_vreg _ = None"

section \<open>Modules\<close>

definition VMCTX_VREG :: VReg where
  "VMCTX_VREG = 0"

record ImportDecl =
  imp_module_name :: string
  imp_func_name :: string
  imp_param_types :: "IrType list"
  imp_return_types :: "IrType list"
  imp_lpfn_glsl_params :: "string option"
  imp_needs_vmctx :: bool
  imp_sret :: bool

record SlotDecl =
  slot_size :: u32

type_synonym LpirBody = "LpirOp list"

record IrFunction =
  fn_name :: string
  is_entry :: bool
  vmctx_vreg :: VReg
  param_count :: u16
  return_types :: "IrType list"
  sret_arg :: "VReg option"
  vreg_types :: "IrType list"
  slots :: "SlotDecl list"
  body :: LpirBody
  vreg_pool :: "VReg list"

definition hidden_param_slots :: "IrFunction \<Rightarrow> u32" where
  "hidden_param_slots f = 1 + (if sret_arg f \<noteq> None then 1 else 0)"

definition user_param_vreg :: "IrFunction \<Rightarrow> u16 \<Rightarrow> VReg" where
  "user_param_vreg f user_index = vmctx_vreg f + hidden_param_slots f + ucast user_index"

definition total_param_slots :: "IrFunction \<Rightarrow> u16" where
  "total_param_slots f =
     of_nat (min 65535 (unat (ucast (hidden_param_slots f) :: u16) + unat (param_count f)))"

definition pool_slice :: "IrFunction \<Rightarrow> VRegRange \<Rightarrow> VReg list" where
  "pool_slice f r =
     (let start = unat (vr_start r); end = start + unat (vr_count r)
      in if end > length (vreg_pool f) then [] else drop start (take end (vreg_pool f)))"

fun accesses_memory :: "LpirOp \<Rightarrow> bool" where
  "accesses_memory (Load _ _ _) = True"
| "accesses_memory (OpNarrowLoad _ _ _ _) = True"
| "accesses_memory (Store _ _ _) = True"
| "accesses_memory (OpNarrowStore _ _ _ _) = True"
| "accesses_memory (SlotAddr _ _) = True"
| "accesses_memory (Memcpy _ _ _) = True"
| "accesses_memory _ = False"

definition uses_memory :: "IrFunction \<Rightarrow> bool" where
  "uses_memory f \<longleftrightarrow> slots f \<noteq> [] \<or> list_ex accesses_memory (body f)"

record LpirModule =
  mod_imports :: "ImportDecl list"
  mod_functions :: "(FuncId, IrFunction) VecMap"

definition callee_as_import :: "LpirModule \<Rightarrow> CalleeRef \<Rightarrow> nat option" where
  "callee_as_import m callee =
     (case callee of
        CalleeImport i \<Rightarrow> if unat i < length (mod_imports m) then Some (unat i) else None
      | CalleeLocal _ \<Rightarrow> None)"

definition callee_as_function :: "LpirModule \<Rightarrow> CalleeRef \<Rightarrow> IrFunction option" where
  "callee_as_function m callee =
     (case callee of
        CalleeImport _ \<Rightarrow> None
      | CalleeLocal fid \<Rightarrow> vm_get (mod_functions m) fid)"

section \<open>Shared facts\<close>

lemma pool_slice_subset: "set (pool_slice f r) \<subseteq> set (vreg_pool f)"
  by (auto simp: pool_slice_def Let_def dest: in_set_dropD in_set_takeD)

lemma length_pool_slice:
  "length (pool_slice f r) = unat (vr_count r) \<longleftrightarrow>
     unat (vr_start r) + unat (vr_count r) \<le> length (vreg_pool f) \<or> vr_count r = 0"
  by (auto simp: pool_slice_def Let_def unat_eq_0)

lemma hidden_param_slots_unat: "unat (hidden_param_slots f) = (if sret_arg f = None then 1 else 2)"
  by (simp add: hidden_param_slots_def)

end
