(* ===== verification/F32.thy ===== *)
theory F32
  imports Lpir
begin

text \<open>
  The 32-bit floats that the interpreter computes with, on their bit patterns: IEEE 754 binary32
  with rounding to nearest, ties to even, as Rust's \<^verbatim>\<open>f32\<close>. Every finite float is an integer
  multiple of \<open>2^-149\<close>, so a float is read as that integer, operations are computed exactly and one
  function rounds the result. A NaN result is the canonical one and \<open>min\<close>, \<open>max\<close> of zeros of
  opposite sign return the second argument: Rust leaves both open.
\<close>

section \<open>Definitions\<close>

definition f32_sign :: "f32 \<Rightarrow> bool" where
  "f32_sign a = bit a 31"

definition f32_mag :: "f32 \<Rightarrow> int" where
  "f32_mag a = uint (take_bit 31 a)"

definition f32_is_nan :: "f32 \<Rightarrow> bool" where
  "f32_is_nan a \<longleftrightarrow> f32_mag a > 0x7F800000"

definition f32_is_inf :: "f32 \<Rightarrow> bool" where
  "f32_is_inf a \<longleftrightarrow> f32_mag a = 0x7F800000"

definition f32_nan :: f32 where
  "f32_nan = 0x7FC00000"

definition f32_pack :: "bool \<Rightarrow> int \<Rightarrow> f32" where
  "f32_pack s mag = word_of_int ((if s then 0x80000000 else 0) + mag)"

definition f32_inf :: "bool \<Rightarrow> f32" where
  "f32_inf s = f32_pack s 0x7F800000"

definition f32_zero :: "bool \<Rightarrow> f32" where
  "f32_zero s = f32_pack s 0"

text \<open>The magnitude of a finite float in units of \<open>2^-149\<close>.\<close>

definition f32_abs_units :: "f32 \<Rightarrow> int" where
  "f32_abs_units a =
     (let e = f32_mag a div 0x800000; frac = f32_mag a mod 0x800000
      in if e = 0 then frac else (frac + 0x800000) * 2 ^ nat (e - 1))"

definition f32_units :: "f32 \<Rightarrow> int" where
  "f32_units a = (if f32_sign a then - f32_abs_units a else f32_abs_units a)"

text \<open>\<open>p / q\<close> rounded to an integer, ties to even, and to the 24 significant bits of a float.\<close>

definition div_half_even :: "int \<Rightarrow> int \<Rightarrow> int" where
  "div_half_even p q =
     (let d = p div q; r = p mod q
      in if 2 * r > q \<or> (2 * r = q \<and> odd d) then d + 1 else d)"

function int_bits :: "int \<Rightarrow> nat" where
  "int_bits n = (if n \<le> 0 then 0 else Suc (int_bits (n div 2)))"
  by auto
termination by (relation "measure nat") auto

declare int_bits.simps [simp del]

definition f32_round :: "bool \<Rightarrow> int \<Rightarrow> int \<Rightarrow> f32" where
  "f32_round s p q =
     (let k = int_bits (p div q) - 24;
          m = div_half_even p (q * 2 ^ k)
      in f32_pack s (min 0x7F800000 (int k * 0x800000 + m)))"

definition f32_add :: "f32 \<Rightarrow> f32 \<Rightarrow> f32" where
  "f32_add a b =
     (if f32_is_nan a \<or> f32_is_nan b then f32_nan
      else if f32_is_inf a then (if f32_is_inf b \<and> f32_sign a \<noteq> f32_sign b then f32_nan else a)
      else if f32_is_inf b then b
      else let v = f32_units a + f32_units b
           in if v = 0 then f32_zero (f32_sign a \<and> f32_sign b) else f32_round (v < 0) \<bar>v\<bar> 1)"

definition f32_neg :: "f32 \<Rightarrow> f32" where
  "f32_neg a = a XOR 0x80000000"

definition f32_abs :: "f32 \<Rightarrow> f32" where
  "f32_abs a = take_bit 31 a"

definition f32_sub :: "f32 \<Rightarrow> f32 \<Rightarrow> f32" where
  "f32_sub a b = (if f32_is_nan b then f32_nan else f32_add a (f32_neg b))"

definition f32_mul :: "f32 \<Rightarrow> f32 \<Rightarrow> f32" where
  "f32_mul a b =
     (let s = (f32_sign a \<noteq> f32_sign b)
      in if f32_is_nan a \<or> f32_is_nan b then f32_nan
         else if f32_is_inf a \<or> f32_is_inf b
              then (if f32_mag a = 0 \<or> f32_mag b = 0 then f32_nan else f32_inf s)
         else f32_round s (f32_abs_units a * f32_abs_units b) (2 ^ 149))"

definition f32_div :: "f32 \<Rightarrow> f32 \<Rightarrow> f32" where
  "f32_div a b =
     (let s = (f32_sign a \<noteq> f32_sign b)
      in if f32_is_nan a \<or> f32_is_nan b then f32_nan
         else if f32_is_inf a then (if f32_is_inf b then f32_nan else f32_inf s)
         else if f32_is_inf b then f32_zero s
         else if f32_mag b = 0 then (if f32_mag a = 0 then f32_nan else f32_inf s)
         else f32_round s (f32_abs_units a * 2 ^ 149) (f32_abs_units b))"

text \<open>Comparison of floats that are not NaN: by the signed magnitude of the bit pattern.\<close>

definition f32_key :: "f32 \<Rightarrow> int" where
  "f32_key a = (if f32_sign a then - f32_mag a else f32_mag a)"

definition f32_lt :: "f32 \<Rightarrow> f32 \<Rightarrow> bool" where
  "f32_lt a b \<longleftrightarrow> \<not> f32_is_nan a \<and> \<not> f32_is_nan b \<and> f32_key a < f32_key b"

definition f32_le :: "f32 \<Rightarrow> f32 \<Rightarrow> bool" where
  "f32_le a b \<longleftrightarrow> \<not> f32_is_nan a \<and> \<not> f32_is_nan b \<and> f32_key a \<le> f32_key b"

definition f32_eq :: "f32 \<Rightarrow> f32 \<Rightarrow> bool" where
  "f32_eq a b \<longleftrightarrow> \<not> f32_is_nan a \<and> \<not> f32_is_nan b \<and> f32_key a = f32_key b"

definition f32_min :: "f32 \<Rightarrow> f32 \<Rightarrow> f32" where
  "f32_min a b =
     (if f32_is_nan a then b else if f32_is_nan b then a else if f32_lt a b then a else b)"

definition f32_max :: "f32 \<Rightarrow> f32 \<Rightarrow> f32" where
  "f32_max a b =
     (if f32_is_nan a then b else if f32_is_nan b then a else if f32_lt b a then a else b)"

definition f32_signum :: "f32 \<Rightarrow> f32" where
  "f32_signum a = (if f32_is_nan a then a else f32_pack (f32_sign a) 0x3F800000)"

text \<open>Casts: \<^verbatim>\<open>as f32\<close> rounds, \<^verbatim>\<open>as\<close> to an integer truncates and saturates, NaN gives zero.\<close>

definition f32_of_int :: "int \<Rightarrow> f32" where
  "f32_of_int i = f32_round (i < 0) (\<bar>i\<bar> * 2 ^ 149) 1"

definition f32_trunc_int :: "f32 \<Rightarrow> int" where
  "f32_trunc_int a =
     (let n = f32_abs_units a div 2 ^ 149 in if f32_sign a then - n else n)"

definition f32_to_int :: "int \<Rightarrow> int \<Rightarrow> f32 \<Rightarrow> int" where
  "f32_to_int lo hi a =
     (if f32_is_nan a then 0
      else if f32_is_inf a then (if f32_sign a then lo else hi)
      else clamp_int lo hi (f32_trunc_int a))"

section \<open>Integers survive the round trip through a float\<close>

lemma int_bits_bounds:
  assumes "0 < n"
  shows "2 ^ (int_bits n - 1) \<le> n" and "n < 2 ^ int_bits n" and "0 < int_bits n"
proof -
  have "0 < n \<Longrightarrow> 2 ^ (int_bits n - 1) \<le> n \<and> n < 2 ^ int_bits n \<and> 0 < int_bits n"
  proof (induction n rule: int_bits.induct)
    case (1 n)
    have eq: "int_bits n = Suc (int_bits (n div 2))" using 1(2) by (subst int_bits.simps) simp
    show ?case
    proof (cases "n = 1")
      case True
      then show ?thesis unfolding eq by (simp add: int_bits.simps)
    next
      case False
      then have "0 < n div 2" using 1(2) by linarith
      with 1 have IH: "2 ^ (int_bits (n div 2) - 1) \<le> n div 2" "n div 2 < 2 ^ int_bits (n div 2)"
        "0 < int_bits (n div 2)" by auto
      then obtain j where j: "int_bits (n div 2) = Suc j" by (cases "int_bits (n div 2)") auto
      from IH show ?thesis unfolding eq j by simp linarith
    qed
  qed
  with assms show "2 ^ (int_bits n - 1) \<le> n" "n < 2 ^ int_bits n" "0 < int_bits n" by blast+
qed

lemma int_bits_unique:
  assumes "2 ^ j \<le> n" and "n < 2 ^ Suc j"
  shows "int_bits n = Suc j"
proof -
  have "0 < n" using assms(1) by (rule less_le_trans [rotated]) simp
  note b = int_bits_bounds [OF this]
  have "(2 :: int) ^ j < 2 ^ int_bits n" "(2 :: int) ^ (int_bits n - 1) < 2 ^ Suc j"
    using b assms by (meson le_less_trans)+
  then have "j < int_bits n" "int_bits n - 1 < Suc j"
    by (simp_all only: power_strict_increasing_iff one_less_numeral_iff semiring_norm)
  then show ?thesis by simp
qed

lemma f32_pack_read:
  assumes "0 \<le> mag" and "mag < 0x80000000"
  shows "f32_mag (f32_pack s mag) = mag" and "f32_sign (f32_pack s mag) = s"
proof -
  define v where "v = (if s then 0x80000000 else 0) + mag"
  have v: "0 \<le> v" "v < 2 ^ 32" using assms by (auto simp: v_def)
  have u: "uint (f32_pack s mag) = v"
    unfolding f32_pack_def v_def [symmetric] using v by (intro uint_word_of_int_id) simp_all
  have "take_bit 31 v = mag"
    using assms by (auto simp: v_def take_bit_int_def)
  then show "f32_mag (f32_pack s mag) = mag"
    unfolding f32_mag_def unsigned_take_bit_eq u .
  have "bit v 31 \<longleftrightarrow> odd (v div 2 ^ 31)" by (rule bit_int_def)
  also have "v div 2 ^ 31 = (if s then 1 else 0)"
    using assms by (intro int_div_unique) (auto simp: v_def)
  finally have "bit (uint (f32_pack s mag)) 31 = s" unfolding u by simp
  then show "f32_sign (f32_pack s mag) = s" by (simp add: f32_sign_def bit_uint_iff)
qed

text \<open>A value with 24 significant bits is represented exactly.\<close>

lemma f32_round_exact:
  assumes m: "2 ^ 23 \<le> m" "m < 2 ^ 24" and k: "k \<le> 253"
  shows "f32_abs_units (f32_round s (m * 2 ^ k) 1) = m * 2 ^ k"
    and "f32_sign (f32_round s (m * 2 ^ k) 1) = s"
    and "f32_mag (f32_round s (m * 2 ^ k) 1) < 0x7F800000"
proof -
  have "(2 :: int) ^ 23 * 2 ^ k \<le> m * 2 ^ k" "m * 2 ^ k < 2 ^ 24 * 2 ^ k"
    using m by (simp_all add: mult_right_mono mult_strict_right_mono del: power_numeral)
  then have "int_bits (m * 2 ^ k) = Suc (23 + k)"
    by (intro int_bits_unique) (simp_all add: power_add [symmetric] del: power_numeral)
  moreover define mag where "mag = int k * 0x800000 + m"
  moreover have "div_half_even (m * 2 ^ k) (2 ^ k) = m" by (simp add: div_half_even_def)
  moreover have mag: "0 \<le> mag" "mag < 0x7F800000" using m k by (simp_all add: mag_def)
  ultimately have r: "f32_round s (m * 2 ^ k) 1 = f32_pack s mag"
    by (simp add: f32_round_def Let_def)
  note p = f32_pack_read [of mag s]
  show "f32_sign (f32_round s (m * 2 ^ k) 1) = s" "f32_mag (f32_round s (m * 2 ^ k) 1) < 0x7F800000"
    unfolding r using p mag by simp_all
  have d: "mag div 0x800000 = int k + 1" using m by (intro int_div_unique) (simp_all add: mag_def)
  then have "mag mod 0x800000 = m - 0x800000"
    using div_mult_mod_eq [of mag "0x800000 :: int"] by (simp add: mag_def)
  with d show "f32_abs_units (f32_round s (m * 2 ^ k) 1) = m * 2 ^ k"
    unfolding r f32_abs_units_def using p mag by simp
qed

text \<open>An integer of at most 24 bits converts to a float and back unchanged.\<close>

lemma f32_int_roundtrip:
  assumes "\<bar>i\<bar> < 2 ^ 24" and "lo \<le> i" and "i \<le> hi"
  shows "f32_to_int lo hi (f32_of_int i) = i"
proof (cases "i = 0")
  case True
  then have "f32_of_int i = 0" by (simp add: f32_of_int_def f32_round_def int_bits.simps
      div_half_even_def f32_pack_def Let_def)
  then show ?thesis using assms True
    by (simp add: f32_to_int_def f32_is_nan_def f32_is_inf_def f32_mag_def f32_trunc_int_def
        f32_abs_units_def f32_sign_def)
next
  case False
  define b where "b = int_bits \<bar>i\<bar>"
  have b: "2 ^ (b - 1) \<le> \<bar>i\<bar>" "\<bar>i\<bar> < 2 ^ b" "0 < b"
    unfolding b_def using False by (simp_all add: int_bits_bounds [simplified])
  have "(2 :: int) ^ (b - 1) < 2 ^ 24" using b(1) assms(1) by (rule le_less_trans)
  then have b24: "b \<le> 24" by (simp only: power_strict_increasing_iff one_less_numeral_iff semiring_norm)
  define m where "m = \<bar>i\<bar> * 2 ^ (24 - b)"
  have "(2 :: int) ^ (b - 1) * 2 ^ (24 - b) \<le> m" "m < 2 ^ b * 2 ^ (24 - b)"
    using b by (simp_all add: m_def)
  then have m: "2 ^ 23 \<le> m" "m < 2 ^ 24"
    using b(3) b24 by (simp_all add: power_add [symmetric] del: power_numeral)
  have k: "125 + b \<le> 253" using b24 by simp
  have eq: "\<bar>i\<bar> * 2 ^ 149 = m * 2 ^ (125 + b)"
    unfolding m_def mult.assoc power_add [symmetric] using b24 by simp
  note ex = f32_round_exact [OF m k, of "i < 0", folded eq]
  then show ?thesis
    using assms False unfolding f32_of_int_def f32_to_int_def f32_is_nan_def f32_is_inf_def
      f32_trunc_int_def Let_def by auto
qed

end
