(* ===== verification/Le_Bytes.thy ===== *)
theory Le_Bytes
  imports Prelude
begin

unbundle bit_operations_syntax

text \<open>
  Little-endian bytes of machine words, as \<^verbatim>\<open>to_le_bytes\<close> and \<^verbatim>\<open>from_le_bytes\<close> of the standard library: shared by the
  frames of the link and the memory of the emulator.
\<close>

section \<open>Definitions\<close>

definition u32_to_le_bytes :: "u32 \<Rightarrow> u8 list" where
  "u32_to_le_bytes w = [ucast w, ucast (drop_bit 8 w), ucast (drop_bit 16 w), ucast (drop_bit 24 w)]"

definition u16_to_le_bytes :: "u16 \<Rightarrow> u8 list" where
  "u16_to_le_bytes w = [ucast w, ucast (drop_bit 8 w)]"

fun le_word :: "u8 list \<Rightarrow> 'a::len word" where
  "le_word [] = 0"
| "le_word (b # bs) = ucast b OR push_bit 8 (le_word bs)"

section \<open>Reading back\<close>

lemma le_word_bound: "length bs \<le> n \<Longrightarrow> 8 * n \<le> i \<Longrightarrow> \<not> bit (le_word bs :: u32) i"
proof (induction bs arbitrary: n i)
  case (Cons b bs)
  then obtain m where m: "n = Suc m" by (cases n) auto
  have "\<not> bit b i" using Cons.prems m by (auto dest: bit_imp_le_length)
  moreover have "\<not> bit (le_word bs :: u32) (i - 8)" using Cons m by auto
  ultimately show ?case by (simp add: bit_or_iff bit_ucast_iff bit_push_bit_iff)
qed simp

lemma le_word_inj: "length bs = length cs \<Longrightarrow> length bs \<le> 4 \<Longrightarrow> le_word bs = (le_word cs :: u32) \<Longrightarrow> bs = cs"
proof (induction bs cs rule: list_induct2)
  case (Cons b bs c cs)
  have eq: "bit (ucast b OR push_bit 8 (le_word bs) :: u32) i = bit (ucast c OR push_bit 8 (le_word cs) :: u32) i" for i
    using Cons.prems by simp
  have "b = c"
  proof (rule bit_eqI)
    fix i assume "possible_bit TYPE(8 word) i"
    then show "bit b i = bit c i"
      using eq [of i] by (simp add: bit_or_iff bit_ucast_iff bit_push_bit_iff)
  qed
  moreover have "le_word bs = (le_word cs :: u32)"
  proof (rule bit_eqI)
    fix i
    show "bit (le_word bs :: u32) i = bit (le_word cs :: u32) i"
    proof (cases "i < 24")
      case True
      have "\<not> bit b (i + 8)" "\<not> bit c (i + 8)" by (auto dest: bit_imp_le_length)
      with True show ?thesis using eq [of "i + 8"] by (simp add: bit_or_iff bit_ucast_iff bit_push_bit_iff)
    next
      case False
      then show ?thesis using le_word_bound [of bs 3 i] le_word_bound [of cs 3 i] Cons by simp
    qed
  qed
  ultimately show ?case using Cons by simp
qed simp

lemma le_word_u32 [simp]: "le_word (u32_to_le_bytes w) = w"
proof (rule bit_eqI)
  fix n assume "possible_bit TYPE(32 word) n"
  then consider "n < 8" | "8 \<le> n" "n < 16" | "16 \<le> n" "n < 24" | "24 \<le> n" "n < 32" by simp linarith
  then show "bit (le_word (u32_to_le_bytes w) :: u32) n = bit w n"
    by cases (simp_all add: u32_to_le_bytes_def bit_or_iff bit_push_bit_iff bit_ucast_iff bit_drop_bit_eq, linarith+)
qed

lemma le_word_u16 [simp]: "le_word (u16_to_le_bytes w) = w"
  by (rule bit_eqI)
     (auto simp: u16_to_le_bytes_def bit_or_iff bit_push_bit_iff bit_ucast_iff bit_drop_bit_eq)

lemma length_le_bytes [simp]: "length (u32_to_le_bytes w) = 4" "length (u16_to_le_bytes v) = 2"
  by (simp_all add: u32_to_le_bytes_def u16_to_le_bytes_def)

end
