(* ===== verification/Lpir_Interp.thy ===== *)
theory Lpir_Interp
  imports Lpir F32 Le_Bytes
begin

text \<open>
  The interpreter of the intermediate representation, \<^verbatim>\<open>lp-shader/lpir/src/interp.rs\<close>. One shared
  byte stack carries the slots of all frames. A Rust \<^verbatim>\<open>Result\<close> is a sum with the error on the left;
  an index out of range is the error \<open>Panic\<close>. \<^verbatim>\<open>usize\<close> is 64 bits wide and its arithmetic wraps.
  The loop of \<^verbatim>\<open>exec_func\<close> runs under a clock that the source does not have: \<open>None\<close> is a run that
  has not returned when the clock reaches zero. The five \<^verbatim>\<open>libm\<close> functions and the import handler
  are the fields of \<open>Host\<close>, a parameter.
\<close>

section \<open>Values, errors, limits\<close>

datatype Value = VF32 f32 | VI32 i32

definition as_f32 :: "Value \<Rightarrow> f32 option" where
  "as_f32 v = (case v of VF32 x \<Rightarrow> Some x | VI32 _ \<Rightarrow> None)"

definition val_as_i32 :: "Value \<Rightarrow> i32 option" where
  "val_as_i32 v = (case v of VI32 x \<Rightarrow> Some x | VF32 _ \<Rightarrow> None)"

datatype InterpError =
    FunctionNotFound string
  | Import string
  | StackOverflow
  | FuelExhausted u64
  | Internal string
  | Panic

type_synonym 'a result = "InterpError + 'a"

definition and_then :: "'e + 'a \<Rightarrow> ('a \<Rightarrow> 'e + 'b) \<Rightarrow> 'e + 'b" where
  "and_then r f = (case r of Inl e \<Rightarrow> Inl e | Inr x \<Rightarrow> f x)"

definition DEFAULT_MAX_DEPTH :: nat where
  "DEFAULT_MAX_DEPTH = 256"

record InterpLimits =
  max_depth :: nat
  fuel :: "u64 option"

definition unlimited :: InterpLimits where
  "unlimited = \<lparr>max_depth = DEFAULT_MAX_DEPTH, fuel = None\<rparr>"

definition with_fuel :: "u64 \<Rightarrow> InterpLimits" where
  "with_fuel n = \<lparr>max_depth = DEFAULT_MAX_DEPTH, fuel = Some n\<rparr>"

record 's Host =
  libm_sqrtf :: "f32 \<Rightarrow> f32"
  libm_floorf :: "f32 \<Rightarrow> f32"
  libm_ceilf :: "f32 \<Rightarrow> f32"
  libm_truncf :: "f32 \<Rightarrow> f32"
  libm_roundf :: "f32 \<Rightarrow> f32"
  import_call :: "'s \<Rightarrow> string \<Rightarrow> string \<Rightarrow> Value list \<Rightarrow> Value list result \<times> 's"

text \<open>Decimal digits, for the formatted messages.\<close>

fun show_nat :: "nat \<Rightarrow> string" where
  "show_nat n =
     (if n < 10 then [char_of (48 + n)] else show_nat (n div 10) @ [char_of (48 + n mod 10)])"

declare show_nat.simps [simp del]

section \<open>Registers and memory\<close>

type_synonym Regs = "Value option list"

definition get_reg :: "Regs \<Rightarrow> VReg \<Rightarrow> Value result" where
  "get_reg regs v =
     (if unat v < length regs
      then case regs ! unat v of
             None \<Rightarrow> Inl (Internal (''undefined v'' @ show_nat (unat v)))
           | Some x \<Rightarrow> Inr x
      else Inl Panic)"

definition set_at :: "Regs \<Rightarrow> nat \<Rightarrow> Value \<Rightarrow> Regs result" where
  "set_at regs i x = (if i < length regs then Inr (regs[i := Some x]) else Inl Panic)"

definition set_reg :: "Regs \<Rightarrow> VReg \<Rightarrow> Value \<Rightarrow> Regs result" where
  "set_reg regs v x = set_at regs (unat v) x"

fun get_regs :: "Regs \<Rightarrow> VReg list \<Rightarrow> Value list result" where
  "get_regs regs [] = Inr []"
| "get_regs regs (v # vs) =
     and_then (get_reg regs v) (\<lambda>x. and_then (get_regs regs vs) (\<lambda>xs. Inr (x # xs)))"

fun set_regs :: "Regs \<Rightarrow> (VReg \<times> Value) list \<Rightarrow> Regs result" where
  "set_regs regs [] = Inr regs"
| "set_regs regs ((v, x) # rest) = and_then (set_reg regs v x) (\<lambda>regs. set_regs regs rest)"

definition val_f32 :: "Value \<Rightarrow> f32 result" where
  "val_f32 v =
     (case as_f32 v of Some x \<Rightarrow> Inr x | None \<Rightarrow> Inl (Internal ''expected f32 value in vreg''))"

definition val_i32 :: "Value \<Rightarrow> i32 result" where
  "val_i32 v =
     (case val_as_i32 v of Some x \<Rightarrow> Inr x | None \<Rightarrow> Inl (Internal ''expected i32 value in vreg''))"

definition cond_truthy :: "Value \<Rightarrow> bool result" where
  "cond_truthy v = and_then (val_i32 v) (\<lambda>c. Inr (c \<noteq> 0))"

abbreviation get_f32 :: "Regs \<Rightarrow> VReg \<Rightarrow> f32 result" where
  "get_f32 regs v \<equiv> and_then (get_reg regs v) val_f32"

abbreviation get_i32 :: "Regs \<Rightarrow> VReg \<Rightarrow> i32 result" where
  "get_i32 regs v \<equiv> and_then (get_reg regs v) val_i32"

definition as_usize :: "i32 \<Rightarrow> u64" where
  "as_usize i = scast i"

definition mem_index :: "u8 list \<Rightarrow> u64 \<Rightarrow> u8 result" where
  "mem_index mem addr = (if unat addr < length mem then Inr (mem ! unat addr) else Inl Panic)"

text \<open>\<^verbatim>\<open>mem[lo..hi].copy_from_slice(bytes)\<close> with as many bytes as the range has.\<close>

definition mem_copy :: "u8 list \<Rightarrow> u64 \<Rightarrow> u64 \<Rightarrow> u8 list \<Rightarrow> u8 list result" where
  "mem_copy mem lo hi bytes =
     (if unat lo \<le> unat hi \<and> unat hi \<le> length mem
      then Inr (take (unat lo) mem @ bytes @ drop (unat hi) mem)
      else Inl Panic)"

definition u32_from_le_bytes :: "u8 \<Rightarrow> u8 \<Rightarrow> u8 \<Rightarrow> u8 \<Rightarrow> u32" where
  "u32_from_le_bytes b0 b1 b2 b3 =
     ucast b0 OR push_bit 8 (ucast b1) OR push_bit 16 (ucast b2) OR push_bit 24 (ucast b3)"

definition u16_from_le_bytes :: "u8 \<Rightarrow> u8 \<Rightarrow> u16" where
  "u16_from_le_bytes b0 b1 = ucast b0 OR push_bit 8 (ucast b1)"

definition read_u32 :: "u8 list \<Rightarrow> u64 \<Rightarrow> u32 result" where
  "read_u32 mem addr =
     (if unat (addr + 4) > length mem then Inl (Internal ''load oob'')
      else and_then (mem_index mem addr) (\<lambda>b0.
           and_then (mem_index mem (addr + 1)) (\<lambda>b1.
           and_then (mem_index mem (addr + 2)) (\<lambda>b2.
           and_then (mem_index mem (addr + 3)) (\<lambda>b3.
             Inr (u32_from_le_bytes b0 b1 b2 b3))))))"

definition read_u8 :: "u8 list \<Rightarrow> u64 \<Rightarrow> u8 result" where
  "read_u8 mem addr =
     (if unat (addr + 1) > length mem then Inl (Internal ''load oob'') else mem_index mem addr)"

definition read_u16 :: "u8 list \<Rightarrow> u64 \<Rightarrow> u16 result" where
  "read_u16 mem addr =
     (if unat (addr + 2) > length mem then Inl (Internal ''load oob'')
      else and_then (mem_index mem addr) (\<lambda>b0.
           and_then (mem_index mem (addr + 1)) (\<lambda>b1. Inr (u16_from_le_bytes b0 b1))))"

definition write_u32 :: "u8 list \<Rightarrow> u64 \<Rightarrow> u32 \<Rightarrow> u8 list result" where
  "write_u32 mem addr v =
     (if unat (addr + 4) > length mem then Inl (Internal ''store oob'')
      else mem_copy mem addr (addr + 4) (u32_to_le_bytes v))"

definition write_u8 :: "u8 list \<Rightarrow> u64 \<Rightarrow> u8 \<Rightarrow> u8 list result" where
  "write_u8 mem addr v =
     (if unat (addr + 1) > length mem then Inl (Internal ''store oob'')
      else if unat addr < length mem then Inr (mem[unat addr := v]) else Inl Panic)"

definition write_u16 :: "u8 list \<Rightarrow> u64 \<Rightarrow> u16 \<Rightarrow> u8 list result" where
  "write_u16 mem addr v =
     (if unat (addr + 2) > length mem then Inl (Internal ''store oob'')
      else mem_copy mem addr (addr + 2) (u16_to_le_bytes v))"

text \<open>\<^verbatim>\<open>copy_within(s..s + n, d)\<close>, after the guard of the \<^verbatim>\<open>Memcpy\<close> operation.\<close>

definition mem_copy_within :: "u8 list \<Rightarrow> u64 \<Rightarrow> u64 \<Rightarrow> u64 \<Rightarrow> u8 list result" where
  "mem_copy_within mem s n d =
     (if unat (d + n) > length mem \<or> unat (s + n) > length mem then Inl (Internal ''memcpy oob'')
      else let lo = unat s; hi = unat (s + n); dest = unat d; count = hi - lo
           in if lo \<le> hi \<and> dest \<le> length mem - count
              then Inr (take dest mem @ take count (drop lo mem) @ drop (dest + count) mem)
              else Inl Panic)"

section \<open>Scalar operations\<close>

definition bool_i32 :: "bool \<Rightarrow> i32" where
  "bool_i32 b = (if b then 1 else 0)"

definition wrapping_shl :: "i32 \<Rightarrow> u32 \<Rightarrow> i32" where
  "wrapping_shl a n = push_bit (unat (n AND 31)) a"

definition wrapping_shr_s :: "i32 \<Rightarrow> u32 \<Rightarrow> i32" where
  "wrapping_shr_s a n = signed_drop_bit (unat (n AND 31)) a"

definition wrapping_shr_u :: "u32 \<Rightarrow> u32 \<Rightarrow> u32" where
  "wrapping_shr_u a n = drop_bit (unat (n AND 31)) a"

fun eval_fbin :: "FBin \<Rightarrow> f32 \<Rightarrow> f32 \<Rightarrow> f32" where
  "eval_fbin Fadd a b = f32_add a b"
| "eval_fbin Fsub a b = f32_sub a b"
| "eval_fbin Fmul a b = f32_mul a b"
| "eval_fbin Fdiv a b = f32_div a b"
| "eval_fbin Fmin a b = f32_min a b"
| "eval_fbin Fmax a b = f32_max a b"

definition round_even :: "'s Host \<Rightarrow> f32 \<Rightarrow> f32" where
  "round_even h v =
     (let r = libm_roundf h v
      in if f32_eq (f32_abs (f32_sub v r)) 0x3F000000
         then let f = f32_to_int (- (2 ^ 63)) (2 ^ 63 - 1) r
              in if f smod 2 \<noteq> 0 then f32_sub r (f32_signum v) else r
         else r)"

fun eval_fun :: "'s Host \<Rightarrow> FUn \<Rightarrow> f32 \<Rightarrow> f32" where
  "eval_fun h Fneg a = f32_neg a"
| "eval_fun h Fabs a = f32_abs a"
| "eval_fun h Fsqrt a = libm_sqrtf h a"
| "eval_fun h Ffloor a = libm_floorf h a"
| "eval_fun h Fceil a = libm_ceilf h a"
| "eval_fun h Ftrunc a = libm_truncf h a"
| "eval_fun h Fnearest a = round_even h a"

fun eval_fcmp :: "FCmp \<Rightarrow> f32 \<Rightarrow> f32 \<Rightarrow> bool" where
  "eval_fcmp Feq a b = (if f32_is_nan a \<or> f32_is_nan b then False else f32_eq a b)"
| "eval_fcmp Fne a b = (\<not> f32_eq a b \<or> f32_is_nan a \<or> f32_is_nan b)"
| "eval_fcmp Flt a b = (\<not> f32_is_nan a \<and> \<not> f32_is_nan b \<and> f32_lt a b)"
| "eval_fcmp Fle a b = (\<not> f32_is_nan a \<and> \<not> f32_is_nan b \<and> f32_le a b)"
| "eval_fcmp Fgt a b = (\<not> f32_is_nan a \<and> \<not> f32_is_nan b \<and> f32_lt b a)"
| "eval_fcmp Fge a b = (\<not> f32_is_nan a \<and> \<not> f32_is_nan b \<and> f32_le b a)"

text \<open>Division follows RV32: by zero it gives all ones and the remainder is the dividend.\<close>

fun eval_iarith :: "IArith \<Rightarrow> i32 \<Rightarrow> i32 \<Rightarrow> i32" where
  "eval_iarith Iadd a b = a + b"
| "eval_iarith Isub a b = a - b"
| "eval_iarith Imul a b = a * b"
| "eval_iarith IdivS a b = (if b = 0 then - 1 else word_sdiv a b)"
| "eval_iarith IdivU a b = (if b = 0 then 0xFFFFFFFF else a div b)"
| "eval_iarith IremS a b = (if b = 0 then a else word_srem a b)"
| "eval_iarith IremU a b = (if b = 0 then a else a mod b)"

fun eval_iun :: "IUn \<Rightarrow> i32 \<Rightarrow> i32" where
  "eval_iun Ineg a = - a"
| "eval_iun Ibnot a = NOT a"

fun eval_icmp :: "ICmp \<Rightarrow> i32 \<Rightarrow> i32 \<Rightarrow> bool" where
  "eval_icmp Ieq a b \<longleftrightarrow> a = b"
| "eval_icmp Ine a b \<longleftrightarrow> a \<noteq> b"
| "eval_icmp IltS a b \<longleftrightarrow> sint a < sint b"
| "eval_icmp IleS a b \<longleftrightarrow> sint a \<le> sint b"
| "eval_icmp IgtS a b \<longleftrightarrow> sint a > sint b"
| "eval_icmp IgeS a b \<longleftrightarrow> sint a \<ge> sint b"
| "eval_icmp IltU a b \<longleftrightarrow> a < b"
| "eval_icmp IleU a b \<longleftrightarrow> a \<le> b"
| "eval_icmp IgtU a b \<longleftrightarrow> a > b"
| "eval_icmp IgeU a b \<longleftrightarrow> a \<ge> b"

fun eval_ibit :: "IBit \<Rightarrow> i32 \<Rightarrow> i32 \<Rightarrow> i32" where
  "eval_ibit Iand a b = a AND b"
| "eval_ibit Ior a b = a OR b"
| "eval_ibit Ixor a b = a XOR b"
| "eval_ibit Ishl a b = wrapping_shl a (b AND 31)"
| "eval_ibit IshrS a b = wrapping_shr_s a (b AND 31)"
| "eval_ibit IshrU a b = drop_bit (unat (b AND 31)) a"

fun eval_iimm :: "IImm \<Rightarrow> i32 \<Rightarrow> i32 \<Rightarrow> i32" where
  "eval_iimm IaddImm a imm = a + imm"
| "eval_iimm IsubImm a imm = a - imm"
| "eval_iimm ImulImm a imm = a * imm"
| "eval_iimm IshlImm a imm = wrapping_shl a (imm AND 31)"
| "eval_iimm IshrSImm a imm = wrapping_shr_s a (imm AND 31)"
| "eval_iimm IshrUImm a imm = drop_bit (unat (imm AND 31)) a"
| "eval_iimm IeqImm a imm = bool_i32 (a = imm)"

definition ftoi_sat_s :: "f32 \<Rightarrow> i32" where
  "ftoi_sat_s f =
     (if f32_is_nan f then 0
      else if f32_lt f (f32_of_int i32_min_int) then i32_MIN
      else if f32_lt (f32_of_int i32_max_int) f then i32_MAX
      else word_of_int (f32_to_int i32_min_int i32_max_int f))"

definition ftoi_sat_u :: "f32 \<Rightarrow> i32" where
  "ftoi_sat_u f =
     (if f32_is_nan f \<or> f32_le f 0 then 0
      else if f32_le (f32_of_int 0xFFFFFFFF) f then - 1
      else word_of_int (f32_to_int 0 0xFFFFFFFF f))"

fun eval_ftoi :: "FtoI \<Rightarrow> f32 \<Rightarrow> i32" where
  "eval_ftoi FtoiSatS f = ftoi_sat_s f"
| "eval_ftoi FtoiSatU f = ftoi_sat_u f"
| "eval_ftoi FtoUnorm16 f = smin (smax f 0) 65535"
| "eval_ftoi FtoUnorm8 f = smin (smax (signed_drop_bit 8 f) 0) 255"

fun eval_itof :: "ItoF \<Rightarrow> i32 \<Rightarrow> f32" where
  "eval_itof ItofS i = f32_of_int (sint i)"
| "eval_itof ItofU i = f32_of_int (uint i)"
| "eval_itof FfromI32Bits i = i"
| "eval_itof Unorm16toF i = i AND 0xFFFF"
| "eval_itof Unorm8toF i = push_bit 8 (i AND 0xFF)"

section \<open>One operation\<close>

text \<open>The address of a memory operation: the base register sign-extended, plus the offset.\<close>

definition eval_addr :: "Regs \<Rightarrow> VReg \<Rightarrow> u32 \<Rightarrow> u64 result" where
  "eval_addr regs base offset = and_then (get_i32 regs base) (\<lambda>a. Inr (as_usize a + ucast offset))"

definition eval_load :: "IrFunction \<Rightarrow> Regs \<Rightarrow> u8 list \<Rightarrow> VReg \<Rightarrow> VReg \<Rightarrow> u32 \<Rightarrow> Regs result" where
  "eval_load f regs mem dst base offset =
     and_then (eval_addr regs base offset) (\<lambda>addr.
       if unat dst < length (vreg_types f)
       then case vreg_types f ! unat dst of
              F32 \<Rightarrow> and_then (read_u32 mem addr) (\<lambda>b. set_reg regs dst (VF32 b))
            | _ \<Rightarrow> and_then (read_u32 mem addr) (\<lambda>b. set_reg regs dst (VI32 b))
       else Inl Panic)"

fun eval_narrow_load :: "NarrowLoad \<Rightarrow> u8 list \<Rightarrow> u64 \<Rightarrow> i32 result" where
  "eval_narrow_load Load8U mem addr = and_then (read_u8 mem addr) (\<lambda>b. Inr (ucast b))"
| "eval_narrow_load Load8S mem addr = and_then (read_u8 mem addr) (\<lambda>b. Inr (scast b))"
| "eval_narrow_load Load16U mem addr = and_then (read_u16 mem addr) (\<lambda>w. Inr (ucast w))"
| "eval_narrow_load Load16S mem addr = and_then (read_u16 mem addr) (\<lambda>w. Inr (scast w))"

definition eval_store :: "Regs \<Rightarrow> u8 list \<Rightarrow> VReg \<Rightarrow> u32 \<Rightarrow> VReg \<Rightarrow> u8 list result" where
  "eval_store regs mem base offset value =
     and_then (eval_addr regs base offset) (\<lambda>addr.
     and_then (get_reg regs value) (\<lambda>v.
       case v of VF32 b \<Rightarrow> write_u32 mem addr b | VI32 i \<Rightarrow> write_u32 mem addr i))"

fun eval_narrow_store :: "NarrowStore \<Rightarrow> u8 list \<Rightarrow> u64 \<Rightarrow> i32 \<Rightarrow> u8 list result" where
  "eval_narrow_store Store8 mem addr i = write_u8 mem addr (ucast i)"
| "eval_narrow_store Store16 mem addr i = write_u16 mem addr (ucast i)"

text \<open>The operations that only compute a register from registers.\<close>

fun eval_pure :: "'s Host \<Rightarrow> u32 list \<Rightarrow> LpirOp \<Rightarrow> Regs \<Rightarrow> Regs result" where
  "eval_pure h slot_off (OpFBin op dst lhs rhs) regs =
     and_then (get_f32 regs lhs) (\<lambda>a. and_then (get_f32 regs rhs) (\<lambda>b.
       set_reg regs dst (VF32 (eval_fbin op a b))))"
| "eval_pure h slot_off (FdivConstF32 dst lhs rhs) regs =
     and_then (get_f32 regs lhs) (\<lambda>a. set_reg regs dst (VF32 (f32_div a rhs)))"
| "eval_pure h slot_off (OpFUn op dst src) regs =
     and_then (get_f32 regs src) (\<lambda>a. set_reg regs dst (VF32 (eval_fun h op a)))"
| "eval_pure h slot_off (OpIArith op dst lhs rhs) regs =
     and_then (get_i32 regs lhs) (\<lambda>a. and_then (get_i32 regs rhs) (\<lambda>b.
       set_reg regs dst (VI32 (eval_iarith op a b))))"
| "eval_pure h slot_off (OpIUn op dst src) regs =
     and_then (get_i32 regs src) (\<lambda>a. set_reg regs dst (VI32 (eval_iun op a)))"
| "eval_pure h slot_off (OpFCmp op dst lhs rhs) regs =
     and_then (get_f32 regs lhs) (\<lambda>a. and_then (get_f32 regs rhs) (\<lambda>b.
       set_reg regs dst (VI32 (bool_i32 (eval_fcmp op a b)))))"
| "eval_pure h slot_off (OpICmp op dst lhs rhs) regs =
     and_then (get_i32 regs lhs) (\<lambda>a. and_then (get_i32 regs rhs) (\<lambda>b.
       set_reg regs dst (VI32 (bool_i32 (eval_icmp op a b)))))"
| "eval_pure h slot_off (OpIBit op dst lhs rhs) regs =
     and_then (get_i32 regs lhs) (\<lambda>a. and_then (get_i32 regs rhs) (\<lambda>b.
       set_reg regs dst (VI32 (eval_ibit op a b))))"
| "eval_pure h slot_off (FconstF32 dst value) regs = set_reg regs dst (VF32 value)"
| "eval_pure h slot_off (IconstI32 dst value) regs = set_reg regs dst (VI32 value)"
| "eval_pure h slot_off (OpIImm op dst src imm) regs =
     and_then (get_i32 regs src) (\<lambda>a. set_reg regs dst (VI32 (eval_iimm op a imm)))"
| "eval_pure h slot_off (OpFtoI op dst src) regs =
     and_then (get_f32 regs src) (\<lambda>a. set_reg regs dst (VI32 (eval_ftoi op a)))"
| "eval_pure h slot_off (OpItoF op dst src) regs =
     and_then (get_i32 regs src) (\<lambda>a. set_reg regs dst (VF32 (eval_itof op a)))"
| "eval_pure h slot_off (Select dst cond if_true if_false) regs =
     and_then (and_then (get_reg regs cond) cond_truthy) (\<lambda>c.
     and_then (if c then get_reg regs if_true else get_reg regs if_false) (\<lambda>v.
       set_reg regs dst v))"
| "eval_pure h slot_off (Copy dst src) regs = and_then (get_reg regs src) (\<lambda>v. set_reg regs dst v)"
| "eval_pure h slot_off (SlotAddr dst slot) regs =
     (if unat slot < length slot_off then set_reg regs dst (VI32 (slot_off ! unat slot))
      else Inl (Internal ''slot''))"
| "eval_pure h slot_off _ regs = Inl (Internal ''unsupported op'')"

fun eval_op ::
    "'s Host \<Rightarrow> IrFunction \<Rightarrow> u32 list \<Rightarrow> LpirOp \<Rightarrow> Regs \<Rightarrow> u8 list \<Rightarrow> (Regs \<times> u8 list) result" where
  "eval_op h f slot_off (Load dst base offset) regs mem =
     and_then (eval_load f regs mem dst base offset) (\<lambda>regs. Inr (regs, mem))"
| "eval_op h f slot_off (Store base offset value) regs mem =
     and_then (eval_store regs mem base offset value) (\<lambda>mem. Inr (regs, mem))"
| "eval_op h f slot_off (OpNarrowStore op base offset value) regs mem =
     and_then (eval_addr regs base offset) (\<lambda>addr.
     and_then (get_i32 regs value) (\<lambda>i.
     and_then (eval_narrow_store op mem addr i) (\<lambda>mem. Inr (regs, mem))))"
| "eval_op h f slot_off (OpNarrowLoad op dst base offset) regs mem =
     and_then (eval_addr regs base offset) (\<lambda>addr.
     and_then (eval_narrow_load op mem addr) (\<lambda>i.
     and_then (set_reg regs dst (VI32 i)) (\<lambda>regs. Inr (regs, mem))))"
| "eval_op h f slot_off (Memcpy dst_addr src_addr sz) regs mem =
     and_then (get_i32 regs dst_addr) (\<lambda>d.
     and_then (get_i32 regs src_addr) (\<lambda>s.
     and_then (mem_copy_within mem (as_usize s) (ucast sz) (as_usize d)) (\<lambda>mem. Inr (regs, mem))))"
| "eval_op h f slot_off op regs mem =
     and_then (eval_pure h slot_off op regs) (\<lambda>regs. Inr (regs, mem))"

section \<open>Control flow\<close>

datatype Ctrl =
    CtrlIf nat
  | CtrlLoop nat nat nat
  | CtrlBlock nat
  | CtrlSwitchArm nat nat

text \<open>The stack of control entries has its top at the head of the list. The three searches pop
  until they find their target; \<open>pop_continue\<close> leaves the loop entry in place.\<close>

fun pop_block :: "Ctrl list \<Rightarrow> (nat \<times> Ctrl list) option" where
  "pop_block [] = None"
| "pop_block (CtrlBlock exit # cs) = Some (exit, cs)"
| "pop_block (_ # cs) = pop_block cs"

fun pop_loop :: "Ctrl list \<Rightarrow> (nat \<times> Ctrl list) option" where
  "pop_loop [] = None"
| "pop_loop (CtrlLoop head continuing exit # cs) = Some (exit, cs)"
| "pop_loop (_ # cs) = pop_loop cs"

fun pop_continue :: "Ctrl list \<Rightarrow> (nat \<times> Ctrl list) option" where
  "pop_continue [] = None"
| "pop_continue (CtrlLoop head continuing exit # cs) =
     Some (continuing, CtrlLoop head continuing exit # cs)"
| "pop_continue (_ # cs) = pop_continue cs"

text \<open>One iteration of the search for the arm of a switch: a result, or the default arm seen so far
  and the next position. The search follows \<^verbatim>\<open>end_offset\<close>s wherever they point: the outer option of
  \<open>switch_pick_arm\<close> is \<open>None\<close> when it never returns.\<close>

definition switch_arm_step ::
    "LpirOp list \<Rightarrow> i32 \<Rightarrow> nat \<Rightarrow> (nat \<times> u32) option \<Rightarrow> nat \<Rightarrow>
       (nat \<times> nat option) + ((nat \<times> u32) option \<times> nat)" where
  "switch_arm_step ops sel merge default_arm pc =
     (case ops ! pc of
        CaseStart value end_offset \<Rightarrow>
          if value = sel then Inl (pc + 1, Some (unat end_offset))
          else Inr (default_arm, unat end_offset)
      | DefaultStart end_offset \<Rightarrow> Inr (Some (pc + 1, end_offset), unat end_offset)
      | End \<Rightarrow>
          (case default_arm of
             Some (start, end) \<Rightarrow> Inl (start, Some (unat end))
           | None \<Rightarrow> Inl (merge, None))
      | _ \<Rightarrow> Inr (default_arm, pc + 1))"

partial_function (option) switch_pick_arm ::
    "LpirOp list \<Rightarrow> i32 \<Rightarrow> nat \<Rightarrow> (nat \<times> u32) option \<Rightarrow> nat \<Rightarrow> (nat \<times> nat option) option option" where
  "switch_pick_arm ops sel merge default_arm pc =
     (if pc < length ops
      then case switch_arm_step ops sel merge default_arm pc of
             Inl arm \<Rightarrow> Some (Some arm)
           | Inr (default_arm, pc) \<Rightarrow> switch_pick_arm ops sel merge default_arm pc
      else Some None)"

text \<open>The local state of one \<^verbatim>\<open>exec_func\<close> activation.\<close>

record Frame =
  fr_func :: IrFunction
  fr_regs :: Regs
  fr_pc :: nat
  fr_ctrl :: "Ctrl list"
  fr_base :: nat
  fr_slot_off :: "u32 list"

text \<open>What one iteration of the loop leads to. A call is left to the loop, which recurses.\<close>

datatype Step =
    Goto Frame "u8 list"
  | Finish "Value list"
  | Fail InterpError
  | Invoke CalleeRef VRegRange VRegRange

definition fail_or :: "'a result \<Rightarrow> ('a \<Rightarrow> Step) \<Rightarrow> Step" where
  "fail_or r f = (case r of Inl e \<Rightarrow> Fail e | Inr x \<Rightarrow> f x)"

definition jump :: "Frame \<Rightarrow> nat \<Rightarrow> Ctrl list \<Rightarrow> u8 list \<Rightarrow> Step" where
  "jump fr pc ctrl mem = Goto (fr\<lparr>fr_pc := pc, fr_ctrl := ctrl\<rparr>) mem"

definition jump_or :: "Frame \<Rightarrow> (nat \<times> Ctrl list) option \<Rightarrow> string \<Rightarrow> u8 list \<Rightarrow> Step" where
  "jump_or fr target msg mem =
     (case target of Some (pc, ctrl) \<Rightarrow> jump fr pc ctrl mem | None \<Rightarrow> Fail (Internal msg))"

definition step_if :: "Frame \<Rightarrow> u8 list \<Rightarrow> VReg \<Rightarrow> u32 \<Rightarrow> u32 \<Rightarrow> Step" where
  "step_if fr mem cond else_offset end_offset =
     (let ops = body (fr_func fr); e = unat else_offset; merge = unat end_offset
      in fail_or (and_then (get_reg (fr_regs fr) cond) cond_truthy) (\<lambda>c.
           if c then jump fr (fr_pc fr + 1) (CtrlIf merge # fr_ctrl fr) mem
           else if e < length ops \<and> ops ! e = Else
                then jump fr (e + 1) (CtrlIf merge # fr_ctrl fr) mem
                else jump fr merge (fr_ctrl fr) mem))"

definition step_end :: "Frame \<Rightarrow> u8 list \<Rightarrow> Step" where
  "step_end fr mem =
     (case fr_ctrl fr of
        CtrlLoop head continuing exit # cs \<Rightarrow>
          if exit = fr_pc fr + 1 then jump fr (head + 1) (fr_ctrl fr) mem
          else jump fr (fr_pc fr + 1) (fr_ctrl fr) mem
      | CtrlIf merge # cs \<Rightarrow> jump fr (fr_pc fr + 1) cs mem
      | CtrlBlock exit # cs \<Rightarrow> jump fr (fr_pc fr + 1) cs mem
      | _ \<Rightarrow> jump fr (fr_pc fr + 1) (fr_ctrl fr) mem)"

definition step_switch :: "Frame \<Rightarrow> u8 list \<Rightarrow> VReg \<Rightarrow> u32 \<Rightarrow> Step option" where
  "step_switch fr mem selector end_offset =
     (let merge = unat end_offset
      in case get_i32 (fr_regs fr) selector of
           Inl e \<Rightarrow> Some (Fail e)
         | Inr sel \<Rightarrow>
             (case switch_pick_arm (body (fr_func fr)) sel merge None (fr_pc fr + 1) of
                None \<Rightarrow> None
              | Some None \<Rightarrow> Some (Fail (Internal ''switch dispatch''))
              | Some (Some (arm_pc, Some end)) \<Rightarrow>
                  Some (jump fr arm_pc (CtrlSwitchArm end merge # fr_ctrl fr) mem)
              | Some (Some (arm_pc, None)) \<Rightarrow> Some (jump fr arm_pc (fr_ctrl fr) mem)))"

fun step_op :: "'s Host \<Rightarrow> Frame \<Rightarrow> u8 list \<Rightarrow> LpirOp \<Rightarrow> Step option" where
  "step_op h fr mem (IfStart cond else_offset end_offset) =
     Some (step_if fr mem cond else_offset end_offset)"
| "step_op h fr mem Else =
     Some (case fr_ctrl fr of
             CtrlIf merge # cs \<Rightarrow> jump fr merge cs mem
           | _ \<Rightarrow> Fail (Internal ''else without if''))"
| "step_op h fr mem (LoopStart continuing_offset end_offset) =
     Some (jump fr (fr_pc fr + 1)
       (CtrlLoop (fr_pc fr) (unat continuing_offset) (unat end_offset) # fr_ctrl fr) mem)"
| "step_op h fr mem (Block end_offset) =
     Some (jump fr (fr_pc fr + 1) (CtrlBlock (unat end_offset) # fr_ctrl fr) mem)"
| "step_op h fr mem ExitBlock =
     Some (jump_or fr (pop_block (fr_ctrl fr)) ''exit_block outside block'' mem)"
| "step_op h fr mem End = Some (step_end fr mem)"
| "step_op h fr mem Break = Some (jump_or fr (pop_loop (fr_ctrl fr)) ''break outside loop'' mem)"
| "step_op h fr mem Continue = Some (jump_or fr (pop_continue (fr_ctrl fr)) ''continue'' mem)"
| "step_op h fr mem (BrIfNot cond) =
     Some (fail_or (and_then (get_reg (fr_regs fr) cond) cond_truthy) (\<lambda>c.
       if \<not> c then jump_or fr (pop_loop (fr_ctrl fr)) ''br_if_not'' mem
       else jump fr (fr_pc fr + 1) (fr_ctrl fr) mem))"
| "step_op h fr mem (SwitchStart selector end_offset) = step_switch fr mem selector end_offset"
| "step_op h fr mem (CaseStart _ _) = Some (jump fr (fr_pc fr + 1) (fr_ctrl fr) mem)"
| "step_op h fr mem (DefaultStart _) = Some (jump fr (fr_pc fr + 1) (fr_ctrl fr) mem)"
| "step_op h fr mem (Return values) =
     Some (fail_or (get_regs (fr_regs fr) (pool_slice (fr_func fr) values)) Finish)"
| "step_op h fr mem (Call callee args results) = Some (Invoke callee args results)"
| "step_op h fr mem op =
     Some (fail_or (eval_op h (fr_func fr) (fr_slot_off fr) op (fr_regs fr) mem)
       (\<lambda>(regs, mem). Goto (fr\<lparr>fr_regs := regs, fr_pc := fr_pc fr + 1\<rparr>) mem))"

definition exec_step :: "'s Host \<Rightarrow> Frame \<Rightarrow> u8 list \<Rightarrow> Step option" where
  "exec_step h fr mem =
     (case fr_ctrl fr of
        CtrlSwitchArm end merge # cs \<Rightarrow>
          if fr_pc fr = end then Some (jump fr merge cs mem)
          else step_op h fr mem (body (fr_func fr) ! fr_pc fr)
      | _ \<Rightarrow> step_op h fr mem (body (fr_func fr) ! fr_pc fr))"

section \<open>Functions\<close>

definition zero_value :: "IrType \<Rightarrow> Value" where
  "zero_value ty = (case ty of F32 \<Rightarrow> VF32 0 | I32 \<Rightarrow> VI32 0 | Pointer \<Rightarrow> VI32 0)"

fun slot_offsets :: "SlotDecl list \<Rightarrow> u32 \<Rightarrow> u32 list" where
  "slot_offsets [] cur = []"
| "slot_offsets (s # ss) cur = cur # slot_offsets ss (cur + slot_size s)"

text \<open>The writes \<^verbatim>\<open>regs[vm + i] = Some(args[i])\<close> for the given indices, in order.\<close>

fun init_params :: "nat \<Rightarrow> Value list \<Rightarrow> nat list \<Rightarrow> Regs \<Rightarrow> Regs result" where
  "init_params vm args [] regs = Inr regs"
| "init_params vm args (i # is) regs =
     and_then (set_at regs (vm + i) (args ! i)) (init_params vm args is)"

text \<open>\<^verbatim>\<open>exec_func\<close> up to its loop: the checks, the registers, the slots on the stack.\<close>

definition enter_func ::
    "IrFunction \<Rightarrow> Value list \<Rightarrow> nat \<Rightarrow> nat \<Rightarrow> u8 list \<Rightarrow> (Frame \<times> u8 list) result" where
  "enter_func f args depth max_d stack =
     (if depth > max_d then Inl StackOverflow
      else let h = unat (hidden_param_slots f); expected = h + unat (param_count f)
           in if length args \<noteq> expected
              then Inl (Internal (''expected '' @ show_nat expected @ '' args (vmctx + ''
                     @ show_nat h @ '' hidden incl. sret + '' @ show_nat (unat (param_count f))
                     @ '' user), got '' @ show_nat (length args)))
              else and_then
                (init_params (unat (vmctx_vreg f)) args
                   ([0] @ [1..<h] @ map (\<lambda>i. h + i) [0..<unat (param_count f)])
                   (map (\<lambda>ty. Some (zero_value ty)) (vreg_types f)))
                (\<lambda>regs.
                  let frame_base = length stack;
                      slot_total = sum_list (map (\<lambda>s. unat (slot_size s)) (slots f))
                  in Inr (\<lparr>fr_func = f, fr_regs = regs, fr_pc = 0, fr_ctrl = [],
                           fr_base = frame_base,
                           fr_slot_off = slot_offsets (slots f) (of_nat frame_base)\<rparr>,
                          stack @ replicate slot_total 0)))"

text \<open>The state all frames of a run share: the remaining fuel, the stack, the import handler.\<close>

record 's Run =
  run_fuel :: u64
  run_stack :: "u8 list"
  run_imports :: 's

definition take_fuel :: "InterpLimits \<Rightarrow> u64 \<Rightarrow> u64 result" where
  "take_fuel limits remaining =
     (case fuel limits of
        None \<Rightarrow> Inr remaining
      | Some limit \<Rightarrow> if remaining = 0 then Inl (FuelExhausted limit) else Inr (remaining - 1))"

definition leave :: "Frame \<Rightarrow> 's Run \<Rightarrow> 's Run" where
  "leave fr run = run\<lparr>run_stack := take (fr_base fr) (run_stack run)\<rparr>"

text \<open>The caller's registers and position after a call that returned \<open>res\<close>.\<close>

definition call_return :: "Frame \<Rightarrow> VRegRange \<Rightarrow> Value list \<Rightarrow> Frame result" where
  "call_return fr results res =
     (let res_vs = pool_slice (fr_func fr) results
      in if length res \<noteq> length res_vs then Inl (Internal ''call result arity'')
         else and_then (set_regs (fr_regs fr) (zip res_vs res)) (\<lambda>regs.
                Inr (fr\<lparr>fr_regs := regs, fr_pc := fr_pc fr + 1\<rparr>)))"

definition local_call_enter ::
    "InterpLimits \<Rightarrow> nat \<Rightarrow> IrFunction \<Rightarrow> Value list \<Rightarrow> u8 list \<Rightarrow> (Frame \<times> u8 list) result" where
  "local_call_enter limits depth callee_fn call_args stack =
     (let want = unat (hidden_param_slots callee_fn) + unat (param_count callee_fn)
      in if length call_args \<noteq> want
         then Inl (Internal (''local call arg count '' @ show_nat (length call_args)
                @ '' != callee total param slots '' @ show_nat want))
         else enter_func callee_fn call_args (depth + 1) (max_depth limits) stack)"

text \<open>What a call leads to: an import and an error have their outcome at once, a local callee has a
  frame to run.\<close>

datatype 's Callee = Done "Value list result" "'s Run" | Enter Frame "u8 list"

definition resolve_call ::
    "'s Host \<Rightarrow> LpirModule \<Rightarrow> InterpLimits \<Rightarrow> nat \<Rightarrow> CalleeRef \<Rightarrow> Value list \<Rightarrow> 's Run \<Rightarrow> 's Callee" where
  "resolve_call h md limits depth callee call_args run =
     (case callee_as_import md callee of
        Some ii \<Rightarrow>
          (let imp = mod_imports md ! ii;
               (res, st) = import_call h (run_imports run)
                 (imp_module_name imp) (imp_func_name imp) call_args
           in Done res (run\<lparr>run_imports := st\<rparr>))
      | None \<Rightarrow>
          (case callee_as_function md callee of
             None \<Rightarrow> Done (Inl (Internal ''bad callee'')) run
           | Some callee_fn \<Rightarrow>
               (case local_call_enter limits depth callee_fn call_args (run_stack run) of
                  Inl e \<Rightarrow> Done (Inl e) run
                | Inr (fr', mem) \<Rightarrow> Enter fr' mem)))"

text \<open>The loop of \<^verbatim>\<open>exec_func\<close>. The recursive call for a local callee shares the clock.\<close>

primrec exec_loop ::
    "nat \<Rightarrow> 's Host \<Rightarrow> LpirModule \<Rightarrow> InterpLimits \<Rightarrow> nat \<Rightarrow> Frame \<Rightarrow> 's Run \<Rightarrow>
       (Value list result \<times> 's Run) option" where
  "exec_loop 0 h md limits depth fr run = None"
| "exec_loop (Suc clock) h md limits depth fr run =
     (if fr_pc fr < length (body (fr_func fr))
      then case take_fuel limits (run_fuel run) of
        Inl e \<Rightarrow> Some (Inl e, run)
      | Inr fuel' \<Rightarrow>
          (let run = run\<lparr>run_fuel := fuel'\<rparr>
           in case exec_step h fr (run_stack run) of
             None \<Rightarrow> None
           | Some (Goto fr' mem) \<Rightarrow>
               exec_loop clock h md limits depth fr' (run\<lparr>run_stack := mem\<rparr>)
           | Some (Finish vs) \<Rightarrow> Some (Inr vs, leave fr run)
           | Some (Fail e) \<Rightarrow> Some (Inl e, run)
           | Some (Invoke callee args results) \<Rightarrow>
               (case get_regs (fr_regs fr) (pool_slice (fr_func fr) args) of
                  Inl e \<Rightarrow> Some (Inl e, run)
                | Inr call_args \<Rightarrow>
                    (case (case resolve_call h md limits depth callee call_args run of
                             Done res run \<Rightarrow> Some (res, run)
                           | Enter fr' mem \<Rightarrow>
                               exec_loop clock h md limits (depth + 1) fr'
                                 (run\<lparr>run_stack := mem\<rparr>)) of
                       None \<Rightarrow> None
                     | Some (Inl e, run) \<Rightarrow> Some (Inl e, run)
                     | Some (Inr res, run) \<Rightarrow>
                         (case call_return fr results res of
                            Inl e \<Rightarrow> Some (Inl e, run)
                          | Inr fr' \<Rightarrow> exec_loop clock h md limits depth fr' run))))
      else Some (Inr [], leave fr run))"

definition exec_func ::
    "nat \<Rightarrow> 's Host \<Rightarrow> LpirModule \<Rightarrow> InterpLimits \<Rightarrow> IrFunction \<Rightarrow> Value list \<Rightarrow> 's Run \<Rightarrow>
       (Value list result \<times> 's Run) option" where
  "exec_func clock h md limits f args run =
     (case enter_func f args 0 (max_depth limits) (run_stack run) of
        Inl e \<Rightarrow> Some (Inl e, run)
      | Inr (fr, mem) \<Rightarrow> exec_loop clock h md limits 0 fr (run\<lparr>run_stack := mem\<rparr>))"

section \<open>Entry points\<close>

definition initial_fuel :: "InterpLimits \<Rightarrow> u64" where
  "initial_fuel limits = (case fuel limits of None \<Rightarrow> 0 | Some n \<Rightarrow> n)"

definition find_function :: "LpirModule \<Rightarrow> string \<Rightarrow> IrFunction option" where
  "find_function md name = find (\<lambda>f. fn_name f = name) (vm_values (mod_functions md))"

definition interpret_with_limits ::
    "nat \<Rightarrow> 's Host \<Rightarrow> LpirModule \<Rightarrow> string \<Rightarrow> Value list \<Rightarrow> 's \<Rightarrow> InterpLimits \<Rightarrow>
       (Value list result \<times> 's) option" where
  "interpret_with_limits clock h md func_name args st limits =
     (case find_function md func_name of
        None \<Rightarrow> Some (Inl (FunctionNotFound func_name), st)
      | Some f \<Rightarrow>
          (let full = [VI32 0] @ (if sret_arg f \<noteq> None then [VI32 0] else []) @ args
           in map_option (\<lambda>(res, run). (res, run_imports run))
                (exec_func clock h md limits f full
                   \<lparr>run_fuel = initial_fuel limits, run_stack = [], run_imports = st\<rparr>)))"

definition interpret_with_depth ::
    "nat \<Rightarrow> 's Host \<Rightarrow> LpirModule \<Rightarrow> string \<Rightarrow> Value list \<Rightarrow> 's \<Rightarrow> nat \<Rightarrow>
       (Value list result \<times> 's) option" where
  "interpret_with_depth clock h md func_name args st max_d =
     interpret_with_limits clock h md func_name args st \<lparr>max_depth = max_d, fuel = None\<rparr>"

definition interpret_unlimited ::
    "nat \<Rightarrow> 's Host \<Rightarrow> LpirModule \<Rightarrow> string \<Rightarrow> Value list \<Rightarrow> 's \<Rightarrow> (Value list result \<times> 's) option" where
  "interpret_unlimited clock h md func_name args st =
     interpret_with_limits clock h md func_name args st unlimited"

record EntryOutput =
  out_values :: "Value list"
  sret_bytes :: "u8 list"
  vmctx_bytes :: "u8 list"

text \<open>Slicing \<^verbatim>\<open>stack[lo..hi]\<close> panics when the range is not within the stack.\<close>

definition byte_slice :: "u8 list \<Rightarrow> nat \<Rightarrow> nat \<Rightarrow> u8 list result" where
  "byte_slice xs lo hi = (if lo \<le> hi \<and> hi \<le> length xs then Inr (drop lo (take hi xs)) else Inl Panic)"

definition interpret_entry ::
    "nat \<Rightarrow> 's Host \<Rightarrow> LpirModule \<Rightarrow> string \<Rightarrow> Value list \<Rightarrow> 's \<Rightarrow> u8 list \<Rightarrow> nat \<Rightarrow> InterpLimits \<Rightarrow>
       EntryOutput result option" where
  "interpret_entry clock h md func_name args st vmctx_image sret_size limits =
     (case find_function md func_name of
        None \<Rightarrow> Some (Inl (FunctionNotFound func_name))
      | Some f \<Rightarrow>
          if (sret_arg f \<noteq> None) \<noteq> (sret_size > 0)
          then Some (Inl (Internal (''sret mismatch for @'' @ func_name @ '': function ''
                 @ (if sret_arg f \<noteq> None then ''uses'' else ''does not use'')
                 @ '' sret but sret_size is '' @ show_nat sret_size)))
          else
            (let sret_base = length vmctx_image;
                 full = [VI32 0] @ (if sret_arg f \<noteq> None then [VI32 (of_nat sret_base)] else []) @ args
             in case exec_func clock h md limits f full
                       \<lparr>run_fuel = initial_fuel limits,
                        run_stack = vmctx_image @ replicate sret_size 0, run_imports = st\<rparr> of
                  None \<Rightarrow> None
                | Some (Inl e, _) \<Rightarrow> Some (Inl e)
                | Some (Inr values, run) \<Rightarrow>
                    Some (and_then (byte_slice (run_stack run) sret_base (sret_base + sret_size))
                      (\<lambda>sb. and_then (byte_slice (run_stack run) 0 sret_base) (\<lambda>vb.
                        Inr \<lparr>out_values = values, sret_bytes = sb, vmctx_bytes = vb\<rparr>)))))"

end
