(* ===== verification/Lpir_Exec.thy ===== *)
theory Lpir_Exec
  imports Lpir_Interp
begin

text \<open>
  Facts about every run of the interpreter: memory accesses invert each other, each step keeps the
  frame, a returning call leaves the shared stack as long as it found it, more clock never changes
  a result, and a run with a fuel limit returns.
\<close>

section \<open>Results\<close>

named_theorems result_simps \<open>unfolding the chains of fallible operations\<close>

lemma and_then_Inr_iff [result_simps]: "and_then r f = Inr y \<longleftrightarrow> (\<exists>x. r = Inr x \<and> f x = Inr y)"
  by (cases r) (simp_all add: and_then_def)

lemma and_then_Inr [simp]: "and_then (Inr x) f = f x"
  by (simp add: and_then_def)

lemma and_then_Inl [simp]: "and_then (Inl e) f = Inl e"
  by (simp add: and_then_def)

lemma set_reg_Inr_iff [result_simps]:
  "set_reg regs v x = Inr regs' \<longleftrightarrow> unat v < length regs \<and> regs' = regs[unat v := Some x]"
  by (auto simp: set_reg_def set_at_def)

lemma set_regs_length: "set_regs regs vxs = Inr regs' \<Longrightarrow> length regs' = length regs"
  by (induction regs vxs rule: set_regs.induct) (auto simp: result_simps)

section \<open>Memory keeps its length\<close>

lemma mem_copy_within_length:
  "mem_copy_within mem s n d = Inr mem' \<Longrightarrow> length mem' = length mem"
  by (auto simp: mem_copy_within_def Let_def split: if_splits)

lemma unat_add_no_wrap:
  fixes addr n :: u64
  assumes "unat addr \<le> unat (addr + n)"
  shows "unat (addr + n) = unat addr + unat n"
proof -
  have "unat (addr + n) = (unat addr + unat n) mod 2 ^ 64"
    by (simp add: unat_word_ariths)
  moreover have "unat n < 2 ^ 64" "unat addr < 2 ^ 64" using unsigned_less [of n] unsigned_less [of addr] by simp_all
  ultimately show ?thesis
    using assms by (cases "unat addr + unat n < 2 ^ 64") (auto simp: le_mod_geq)
qed

lemma write_u32_length: "write_u32 mem addr v = Inr mem' \<Longrightarrow> length mem' = length mem"
  unfolding write_u32_def
  by (auto split: if_splits simp: u32_to_le_bytes_def mem_copy_def dest!: unat_add_no_wrap)

lemma write_u16_length: "write_u16 mem addr v = Inr mem' \<Longrightarrow> length mem' = length mem"
  unfolding write_u16_def
  by (auto split: if_splits simp: u16_to_le_bytes_def mem_copy_def dest!: unat_add_no_wrap)

lemma write_u8_length: "write_u8 mem addr v = Inr mem' \<Longrightarrow> length mem' = length mem"
  by (auto simp: write_u8_def split: if_splits)

lemma eval_narrow_store_length:
  "eval_narrow_store op mem addr i = Inr mem' \<Longrightarrow> length mem' = length mem"
  by (cases op) (auto dest: write_u8_length write_u16_length)

lemma eval_store_length: "eval_store regs mem base offset value = Inr mem' \<Longrightarrow> length mem' = length mem"
  by (auto simp: eval_store_def result_simps) (metis Value.exhaust Value.simps(5,6) write_u32_length)

lemma eval_load_length: "eval_load f regs mem dst base offset = Inr regs' \<Longrightarrow> length regs' = length regs"
  by (auto simp: eval_load_def result_simps split: if_splits IrType.splits)

lemma eval_pure_length: "eval_pure h slot_off op regs = Inr regs' \<Longrightarrow> length regs' = length regs"
  by (cases op) (auto simp: result_simps split: if_splits)

lemma eval_op_length:
  "eval_op h f slot_off op regs mem = Inr (regs', mem') \<Longrightarrow>
     length regs' = length regs \<and> length mem' = length mem"
  by (cases op)
    (auto simp: result_simps dest: eval_pure_length eval_load_length eval_store_length
      eval_narrow_store_length mem_copy_within_length simp del: eval_pure.simps)

section \<open>Memory cells\<close>

text \<open>The contract of a cell of \<open>width\<close> bytes in the stack: access succeeds exactly within bounds, a
  read decodes the bytes and a write replaces them.\<close>

locale memory_cell =
  fixes rd :: "u8 list \<Rightarrow> u64 \<Rightarrow> 'w result"
    and wr :: "u8 list \<Rightarrow> u64 \<Rightarrow> 'w \<Rightarrow> u8 list result"
    and width :: nat
    and enc :: "'w \<Rightarrow> u8 list"
    and dec :: "u8 list \<Rightarrow> 'w"
  assumes rd_in: "length mem < 2 ^ 63 \<Longrightarrow> unat a + width \<le> length mem \<Longrightarrow>
      rd mem a = Inr (dec (take width (drop (unat a) mem)))"
    and wr_in: "length mem < 2 ^ 63 \<Longrightarrow> unat a + width \<le> length mem \<Longrightarrow>
      wr mem a v = Inr (take (unat a) mem @ enc v @ drop (unat a + width) mem)"
    and rd_out: "length mem < 2 ^ 63 \<Longrightarrow> \<not> unat a + width \<le> length mem \<Longrightarrow> \<exists>e. rd mem a = Inl e"
    and wr_out: "length mem < 2 ^ 63 \<Longrightarrow> \<not> unat a + width \<le> length mem \<Longrightarrow> \<exists>e. wr mem a v = Inl e"
    and enc_length: "length (enc v) = width"
    and dec_enc: "dec (enc v) = v"
    and enc_dec: "length bs = width \<Longrightarrow> enc (dec bs) = bs"
begin

lemma wr_bounds:
  assumes "length mem < 2 ^ 63" and "wr mem a v = Inr mem'"
  shows "unat a + width \<le> length mem" and "mem' = take (unat a) mem @ enc v @ drop (unat a + width) mem"
    and "length mem' = length mem"
proof -
  show in_b: "unat a + width \<le> length mem" using wr_out [OF assms(1), of a v] assms(2) by auto
  then show "mem' = take (unat a) mem @ enc v @ drop (unat a + width) mem"
    using wr_in [OF assms(1) in_b] assms(2) by simp
  then show "length mem' = length mem" using in_b by (simp add: enc_length)
qed

lemma read_after_write:
  assumes "length mem < 2 ^ 63" and "wr mem a v = Inr mem'"
  shows "rd mem' a = Inr v"
  using wr_bounds [OF assms] rd_in [of mem' a] assms(1) by (simp add: enc_length dec_enc)

lemma write_read_back:
  assumes "length mem < 2 ^ 63" and "rd mem a = Inr v"
  shows "wr mem a v = Inr mem"
proof -
  have in_b: "unat a + width \<le> length mem" using rd_out [OF assms(1), of a] assms(2) by auto
  have "enc v = take width (drop (unat a) mem)"
    using rd_in [OF assms(1) in_b] assms(2) in_b by (simp add: enc_dec)
  then show ?thesis
    using wr_in [OF assms(1) in_b, of v] by (metis append_take_drop_id drop_drop add.commute)
qed

lemma read_other:
  assumes "length mem < 2 ^ 63" and "wr mem a v = Inr mem'"
    and "unat b + width \<le> unat a \<or> unat a + width \<le> unat b"
  shows "rd mem' b = rd mem b \<or> (\<exists>e e'. rd mem' b = Inl e \<and> rd mem b = Inl e')"
proof (cases "unat b + width \<le> length mem")
  case True
  note w = wr_bounds [OF assms(1,2)]
  have "take width (drop (unat b) mem') = take width (drop (unat b) mem)"
    using assms(3) w(1) True unfolding w(2)
    by (intro nth_equalityI) (auto simp: nth_append enc_length)
  then show ?thesis using rd_in [of mem' b] rd_in [of mem b] w(3) assms(1) True by simp
next
  case False
  then show ?thesis using rd_out [of mem b] rd_out [of mem' b] wr_bounds(3) [OF assms(1,2)] assms(1) by auto
qed

end

definition u32_of_bytes :: "u8 list \<Rightarrow> u32" where
  "u32_of_bytes bs = u32_from_le_bytes (bs ! 0) (bs ! 1) (bs ! 2) (bs ! 3)"

definition u16_of_bytes :: "u8 list \<Rightarrow> u16" where
  "u16_of_bytes bs = u16_from_le_bytes (bs ! 0) (bs ! 1)"

lemma bounds_guard:
  fixes a w :: u64
  assumes "length (mem :: u8 list) < 2 ^ 63" and "unat w < 2 ^ 63"
  shows "unat a + unat w \<le> length mem \<Longrightarrow> unat (a + w) = unat a + unat w"
    and "\<not> unat a + unat w \<le> length mem \<Longrightarrow> unat (a + w) \<le> length mem \<Longrightarrow> length mem < unat a"
proof -
  have eq: "unat (a + w) = (unat a + unat w) mod 2 ^ 64" by (simp add: unat_word_ariths)
  have a: "unat a < 2 ^ 64" using unsigned_less [of a] by simp
  show "unat (a + w) = unat a + unat w" if "unat a + unat w \<le> length mem"
    unfolding eq using that assms by simp
  show "length mem < unat a" if "\<not> unat a + unat w \<le> length mem" "unat (a + w) \<le> length mem"
  proof (rule ccontr)
    assume "\<not> length mem < unat a"
    then have "unat a + unat w < 2 ^ 64" using assms by simp
    then show False using that unfolding eq by simp
  qed
qed

lemma take_drop_nth4:
  "a + 4 \<le> length xs \<Longrightarrow> take 4 (drop a xs) = [xs ! a, xs ! (a + 1), xs ! (a + 2), xs ! (a + 3)]"
  by (rule nth_equalityI) (auto simp: less_Suc_eq numeral_eq_Suc)

lemma take_drop_nth2: "a + 2 \<le> length xs \<Longrightarrow> take 2 (drop a xs) = [xs ! a, xs ! (a + 1)]"
  by (rule nth_equalityI) (auto simp: less_Suc_eq numeral_eq_Suc)

lemma bytes_u32: "u32_of_bytes (u32_to_le_bytes v) = v"
  unfolding u32_of_bytes_def u32_from_le_bytes_def u32_to_le_bytes_def
  apply (rule bit_word_eqI)
  apply (auto simp: bit_simps)
  subgoal for n by (cases "24 \<le> n") auto
  done

lemma bytes_u16: "u16_of_bytes (u16_to_le_bytes v) = v"
  unfolding u16_of_bytes_def u16_from_le_bytes_def u16_to_le_bytes_def
  apply (rule bit_word_eqI)
  apply (auto simp: bit_simps)
  done

lemma u16_bytes:
  assumes "length bs = 2"
  shows "u16_to_le_bytes (u16_of_bytes bs) = bs"
proof -
  obtain a b where bs: "bs = [a, b]"
    using assms by (auto simp: length_Suc_conv numeral_eq_Suc)
  have bit8: "\<not> bit (w :: u8) n" if "8 \<le> n" for w n using that bit_imp_le_length [of w n] by auto
  show ?thesis
    unfolding bs u16_of_bytes_def u16_from_le_bytes_def u16_to_le_bytes_def
    by (auto intro!: bit_word_eqI simp: bit_simps bit8)
qed

lemma u32_bytes:
  assumes "length bs = 4"
  shows "u32_to_le_bytes (u32_of_bytes bs) = bs"
proof -
  obtain a b c d where bs: "bs = [a, b, c, d]"
    using assms by (auto simp: length_Suc_conv numeral_eq_Suc)
  have bit8: "\<not> bit (w :: u8) n" if "8 \<le> n" for w n using that bit_imp_le_length [of w n] by auto
  show ?thesis
    unfolding bs u32_of_bytes_def u32_from_le_bytes_def u32_to_le_bytes_def
    by (auto intro!: bit_word_eqI simp: bit_simps bit8)
qed

lemma mem_index_in:
  assumes "length mem < 2 ^ 63" and "unat a + n < length mem" and "unat w = n"
  shows "mem_index mem (a + w) = Inr (mem ! (unat a + n))"
  using bounds_guard(1) [of mem w a] assms by (simp add: mem_index_def)

lemma read_u32_in:
  assumes "length mem < 2 ^ 63" and "unat a + 4 \<le> length mem"
  shows "read_u32 mem a = Inr (u32_of_bytes (take 4 (drop (unat a) mem)))"
proof -
  have "unat (a + 4) = unat a + 4" using bounds_guard(1) [of mem 4 a] assms by simp
  moreover have "mem_index mem (a + 1) = Inr (mem ! (unat a + 1))"
    "mem_index mem (a + 2) = Inr (mem ! (unat a + 2))" "mem_index mem (a + 3) = Inr (mem ! (unat a + 3))"
    by (rule mem_index_in; use assms in simp)+
  moreover have "mem_index mem a = Inr (mem ! unat a)" using assms by (simp add: mem_index_def)
  ultimately show ?thesis
    using assms by (simp add: read_u32_def u32_of_bytes_def take_drop_nth4)
qed

lemma read_u16_in:
  assumes "length mem < 2 ^ 63" and "unat a + 2 \<le> length mem"
  shows "read_u16 mem a = Inr (u16_of_bytes (take 2 (drop (unat a) mem)))"
proof -
  have "unat (a + 2) = unat a + 2" using bounds_guard(1) [of mem 2 a] assms by simp
  moreover have "mem_index mem (a + 1) = Inr (mem ! (unat a + 1))"
    by (rule mem_index_in; use assms in simp)
  moreover have "mem_index mem a = Inr (mem ! unat a)" using assms by (simp add: mem_index_def)
  ultimately show ?thesis
    using assms by (simp add: read_u16_def u16_of_bytes_def take_drop_nth2)
qed

lemma guard_out:
  fixes a w :: u64 and mem :: "u8 list"
  assumes "length mem < 2 ^ 63" and "unat w < 2 ^ 63" and "\<not> unat a + unat w \<le> length mem"
  shows "length mem < unat (a + w) \<or> length mem < unat a"
  using bounds_guard(2) [of mem w a] assms by (cases "unat (a + w) \<le> length mem") auto

lemma mem_index_out: "length mem < unat a \<Longrightarrow> mem_index mem a = Inl Panic"
  by (simp add: mem_index_def)

interpretation word_cell: memory_cell read_u32 write_u32 4 u32_to_le_bytes u32_of_bytes
proof unfold_locales
  fix mem :: "u8 list" and a :: u64 and v :: u32
  assume len: "length mem < 2 ^ 63"
  show "read_u32 mem a = Inr (u32_of_bytes (take 4 (drop (unat a) mem)))" if "unat a + 4 \<le> length mem"
    using len that by (rule read_u32_in)
  show "write_u32 mem a v = Inr (take (unat a) mem @ u32_to_le_bytes v @ drop (unat a + 4) mem)"
    if "unat a + 4 \<le> length mem"
    using len that bounds_guard(1) [of mem 4 a] by (simp add: write_u32_def mem_copy_def)
  show "\<exists>e. read_u32 mem a = Inl e" "\<exists>e. write_u32 mem a v = Inl e" if "\<not> unat a + 4 \<le> length mem"
    using len that guard_out [of mem 4 a]
    by (auto simp: read_u32_def write_u32_def mem_copy_def mem_index_out)
qed (simp_all add: bytes_u32 u32_bytes)

interpretation half_cell: memory_cell read_u16 write_u16 2 u16_to_le_bytes u16_of_bytes
proof unfold_locales
  fix mem :: "u8 list" and a :: u64 and v :: u16
  assume len: "length mem < 2 ^ 63"
  show "read_u16 mem a = Inr (u16_of_bytes (take 2 (drop (unat a) mem)))" if "unat a + 2 \<le> length mem"
    using len that by (rule read_u16_in)
  show "write_u16 mem a v = Inr (take (unat a) mem @ u16_to_le_bytes v @ drop (unat a + 2) mem)"
    if "unat a + 2 \<le> length mem"
    using len that bounds_guard(1) [of mem 2 a] by (simp add: write_u16_def mem_copy_def)
  show "\<exists>e. read_u16 mem a = Inl e" "\<exists>e. write_u16 mem a v = Inl e" if "\<not> unat a + 2 \<le> length mem"
    using len that guard_out [of mem 2 a]
    by (auto simp: read_u16_def write_u16_def mem_copy_def mem_index_out)
qed (simp_all add: bytes_u16 u16_bytes)

interpretation byte_cell: memory_cell read_u8 write_u8 1 "\<lambda>b. [b]" hd
proof unfold_locales
  fix mem :: "u8 list" and a :: u64 and v :: u8
  assume len: "length mem < 2 ^ 63"
  show "read_u8 mem a = Inr (hd (take 1 (drop (unat a) mem)))" if "unat a + 1 \<le> length mem"
    using len that bounds_guard(1) [of mem 1 a]
    by (simp add: read_u8_def mem_index_def hd_drop_conv_nth hd_take)
  show "write_u8 mem a v = Inr (take (unat a) mem @ [v] @ drop (unat a + 1) mem)"
    if "unat a + 1 \<le> length mem"
    using len that bounds_guard(1) [of mem 1 a] by (simp add: write_u8_def upd_conv_take_nth_drop)
  show "\<exists>e. read_u8 mem a = Inl e" "\<exists>e. write_u8 mem a v = Inl e" if "\<not> unat a + 1 \<le> length mem"
    using len that guard_out [of mem 1 a] by (auto simp: read_u8_def write_u8_def mem_index_out)
next
  show "[hd bs] = bs" if "length bs = 1" for bs :: "u8 list"
    using that by (cases bs) auto
qed simp_all

section \<open>A step keeps the frame\<close>

definition same_frame :: "Frame \<Rightarrow> Frame \<Rightarrow> bool" where
  "same_frame fr fr' \<longleftrightarrow> fr_func fr' = fr_func fr \<and> fr_base fr' = fr_base fr \<and>
     fr_slot_off fr' = fr_slot_off fr \<and> length (fr_regs fr') = length (fr_regs fr)"

lemma jump_Goto: "jump fr pc ctrl mem = Goto fr' mem' \<Longrightarrow> same_frame fr fr' \<and> mem' = mem"
  by (auto simp: jump_def same_frame_def)

lemma jump_or_Goto: "jump_or fr t msg mem = Goto fr' mem' \<Longrightarrow> same_frame fr fr' \<and> mem' = mem"
  by (auto simp: jump_or_def dest: jump_Goto split: option.splits)

lemma fail_or_Goto: "fail_or r f = Goto fr' mem' \<Longrightarrow> \<exists>x. r = Inr x \<and> f x = Goto fr' mem'"
  by (auto simp: fail_or_def split: sum.splits)

lemma step_switch_Goto:
  "step_switch fr mem selector off = Some (Goto fr' mem') \<Longrightarrow> same_frame fr fr' \<and> mem' = mem"
  by (auto simp: step_switch_def Let_def dest: jump_Goto split: sum.splits option.splits)

lemma step_if_Goto: "step_if fr mem c e m = Goto fr' mem' \<Longrightarrow> same_frame fr fr' \<and> mem' = mem"
  by (auto simp: step_if_def Let_def dest!: fail_or_Goto dest: jump_Goto split: if_splits)

lemma step_end_Goto: "step_end fr mem = Goto fr' mem' \<Longrightarrow> same_frame fr fr' \<and> mem' = mem"
  by (auto simp: step_end_def dest: jump_Goto split: list.splits Ctrl.splits if_splits)

lemma step_op_Goto:
  assumes "step_op h fr mem op = Some (Goto fr' mem')"
  shows "same_frame fr fr' \<and> length mem' = length mem"
proof -
  note dests = jump_Goto jump_or_Goto step_switch_Goto step_if_Goto step_end_Goto
  have data: "same_frame fr fr' \<and> length mem' = length mem"
    if "fail_or (eval_op h (fr_func fr) (fr_slot_off fr) op (fr_regs fr) mem)
       (\<lambda>(regs, mem). Goto (fr\<lparr>fr_regs := regs, fr_pc := fr_pc fr + 1\<rparr>) mem) = Goto fr' mem'"
    using fail_or_Goto [OF that] by (auto simp: same_frame_def dest: eval_op_length)
  show ?thesis
    using assms data
    by (cases op) (auto dest!: fail_or_Goto dest: dests split: list.splits Ctrl.splits if_splits
        simp del: eval_op.simps)
qed

lemma exec_step_Goto:
  "exec_step h fr mem = Some (Goto fr' mem') \<Longrightarrow> same_frame fr fr' \<and> length mem' = length mem"
  by (auto simp: exec_step_def dest: step_op_Goto jump_Goto split: list.splits Ctrl.splits if_splits)

lemma step_op_Invoke: "step_op h fr mem op = Some (Invoke callee args results) \<Longrightarrow> op = Call callee args results"
  by (cases op) (auto simp: fail_or_def jump_def jump_or_def step_if_def step_end_def step_switch_def Let_def
      split: sum.splits if_splits option.splits list.splits Ctrl.splits simp del: eval_op.simps)

lemma exec_step_Invoke:
  "exec_step h fr mem = Some (Invoke callee args results) \<Longrightarrow> body (fr_func fr) ! fr_pc fr = Call callee args results"
  by (auto simp: exec_step_def jump_def split: list.splits Ctrl.splits if_splits dest: step_op_Invoke)

section \<open>One round of the loop\<close>

abbreviation callee_outcome ::
    "nat \<Rightarrow> 's Host \<Rightarrow> LpirModule \<Rightarrow> InterpLimits \<Rightarrow> nat \<Rightarrow> CalleeRef \<Rightarrow> Value list \<Rightarrow> 's Run \<Rightarrow>
       (Value list result \<times> 's Run) option" where
  "callee_outcome clock h md limits depth callee call_args run \<equiv>
     (case resolve_call h md limits depth callee call_args run of
        Done res run \<Rightarrow> Some (res, run)
      | Enter fr mem \<Rightarrow> exec_loop clock h md limits (depth + 1) fr (run\<lparr>run_stack := mem\<rparr>))"

text \<open>The ways a round that returns can go on.\<close>

lemma exec_loop_cases:
  assumes "exec_loop (Suc clock) h md limits depth fr run = Some out"
  obtains (error) e run' where "out = (Inl e, run')"
  | (exit) "\<not> fr_pc fr < length (body (fr_func fr))" "out = (Inr [], leave fr run)"
  | (goto) fuel' fr' mem where "fr_pc fr < length (body (fr_func fr))"
      "take_fuel limits (run_fuel run) = Inr fuel'"
      "exec_step h fr (run_stack run) = Some (Goto fr' mem)"
      "exec_loop clock h md limits depth fr' (run\<lparr>run_fuel := fuel', run_stack := mem\<rparr>) = Some out"
  | (finish) fuel' vs where "fr_pc fr < length (body (fr_func fr))"
      "take_fuel limits (run_fuel run) = Inr fuel'"
      "exec_step h fr (run_stack run) = Some (Finish vs)"
      "out = (Inr vs, leave fr (run\<lparr>run_fuel := fuel'\<rparr>))"
  | (call) fuel' callee args results call_args res run' fr' where
      "fr_pc fr < length (body (fr_func fr))"
      "take_fuel limits (run_fuel run) = Inr fuel'"
      "exec_step h fr (run_stack run) = Some (Invoke callee args results)"
      "get_regs (fr_regs fr) (pool_slice (fr_func fr) args) = Inr call_args"
      "callee_outcome clock h md limits depth callee call_args (run\<lparr>run_fuel := fuel'\<rparr>)
         = Some (Inr res, run')"
      "call_return fr results res = Inr fr'"
      "exec_loop clock h md limits depth fr' run' = Some out"
proof (cases "fr_pc fr < length (body (fr_func fr))")
  case False
  then show ?thesis using assms exit by simp
next
  case pc: True
  show ?thesis
  proof (cases "take_fuel limits (run_fuel run)")
    case (Inl e)
    then show ?thesis using assms pc error by auto
  next
    case fuel: (Inr fuel')
    from assms pc fuel obtain st where st: "exec_step h fr (run_stack run) = Some st"
      by (auto simp: Let_def split: option.splits)
    show ?thesis
    proof (cases st)
      case (Invoke callee args results)
      with assms pc fuel st error call show ?thesis
        by (auto simp: Let_def split: sum.splits option.splits)
    qed (use assms pc fuel st error goto finish in \<open>auto simp: Let_def\<close>)
  qed
qed

section \<open>More clock never changes a result\<close>

lemma exec_loop_mono:
  "exec_loop clock h md limits depth fr run = Some out \<Longrightarrow> clock \<le> clock' \<Longrightarrow>
     exec_loop clock' h md limits depth fr run = Some out"
proof (induction clock arbitrary: clock' depth fr run out)
  case (Suc clock)
  then obtain k where k: "clock' = Suc k" "clock \<le> k" by (cases clock') auto
  note IH = Suc.IH [OF _ k(2)]
  show ?case
  proof (cases "fr_pc fr < length (body (fr_func fr))")
    case pc: True
    show ?thesis
    proof (cases "take_fuel limits (run_fuel run)")
      case fuel: (Inr fuel')
      with Suc.prems(1) pc obtain st where st: "exec_step h fr (run_stack run) = Some st"
        by (auto simp: Let_def split: option.splits)
      show ?thesis
      proof (cases st)
        case inv: (Invoke callee args results)
        show ?thesis
        proof (cases "get_regs (fr_regs fr) (pool_slice (fr_func fr) args)")
          case args: (Inr call_args)
          with Suc.prems(1) pc fuel st inv obtain co where
            co: "callee_outcome clock h md limits depth callee call_args (run\<lparr>run_fuel := fuel'\<rparr>) = Some co"
            by (auto simp: Let_def split: option.splits)
          have "callee_outcome k h md limits depth callee call_args (run\<lparr>run_fuel := fuel'\<rparr>) = Some co"
            using co IH by (auto split: Callee.splits)
          with co args Suc.prems(1) pc fuel st inv k(1) IH show ?thesis
            by (cases out) (auto simp: Let_def split: prod.splits sum.splits)
        qed (use Suc.prems(1) pc fuel st inv k(1) in simp)
      qed (use Suc.prems(1) pc fuel st k(1) IH in \<open>auto simp: Let_def\<close>)
    qed (use Suc.prems(1) pc k(1) in simp)
  qed (use Suc.prems(1) k(1) in simp)
qed simp

section \<open>The stack is restored\<close>

lemma enter_func_frame:
  assumes "enter_func f args depth max_d stack = Inr (fr, mem)"
  shows "fr_base fr = length stack" and "length stack \<le> length mem" and "fr_func fr = f"
    and "take (length stack) mem = stack"
  using assms by (auto simp: enter_func_def Let_def result_simps split: if_splits)

lemma local_call_enter_frame:
  assumes "local_call_enter limits depth f args stack = Inr (fr, mem)"
  shows "fr_base fr = length stack" and "length stack \<le> length mem" and "fr_func fr = f"
  using assms by (auto simp: local_call_enter_def Let_def dest: enter_func_frame split: if_splits)

lemma resolve_call_Enter:
  assumes "resolve_call h md limits depth callee call_args run = Enter fr mem"
  obtains f where "callee_as_function md callee = Some f"
    "local_call_enter limits depth f call_args (run_stack run) = Inr (fr, mem)"
  using assms by (auto simp: resolve_call_def Let_def split: option.splits sum.splits prod.splits)

lemma resolve_call_Done:
  "resolve_call h md limits depth callee call_args run = Done res run' \<Longrightarrow>
     run_stack run' = run_stack run \<and> run_fuel run' = run_fuel run"
  by (auto simp: resolve_call_def Let_def split: option.splits sum.splits prod.splits)

lemma call_return_frame: "call_return fr results res = Inr fr' \<Longrightarrow> same_frame fr fr'"
  by (auto simp: call_return_def Let_def result_simps same_frame_def dest: set_regs_length split: if_splits)

lemma exec_loop_stack:
  assumes "exec_loop clock h md limits depth fr run = Some (Inr vs, run')"
    and "fr_base fr \<le> length (run_stack run)"
  shows "length (run_stack run') = fr_base fr"
  using assms
proof (induction clock arbitrary: depth fr run vs run')
  case (Suc clock)
  from Suc.prems(1) show ?case
  proof (cases rule: exec_loop_cases)
    case (goto fuel' fr' mem)
    then show ?thesis
      using Suc.IH [of depth fr' "run\<lparr>run_fuel := fuel', run_stack := mem\<rparr>"] Suc.prems(2) exec_step_Goto [OF goto(3)]
      by (simp add: same_frame_def)
  next
    case (call fuel' callee args results call_args res run'' fr')
    have "length (run_stack run'') = length (run_stack run)"
    proof (cases "resolve_call h md limits depth callee call_args (run\<lparr>run_fuel := fuel'\<rparr>)")
      case (Done r rn)
      with call(5) show ?thesis by (auto dest: resolve_call_Done)
    next
      case (Enter fr2 mem)
      then obtain f where "local_call_enter limits depth f call_args (run_stack run) = Inr (fr2, mem)"
        by (auto elim: resolve_call_Enter)
      from local_call_enter_frame [OF this] Enter show ?thesis
        using call(5) Suc.IH [of "depth + 1" fr2 "run\<lparr>run_fuel := fuel', run_stack := mem\<rparr>"]
        by simp
    qed
    then show ?thesis
      using Suc.IH [OF call(7)] call_return_frame [OF call(6)] Suc.prems(2) by (simp add: same_frame_def)
  qed (use Suc.prems(2) in \<open>auto simp: leave_def\<close>)
qed simp

lemma exec_func_stack:
  assumes "exec_func clock h md limits f args run = Some (Inr vs, run')"
  shows "length (run_stack run') = length (run_stack run)"
proof -
  obtain fr mem where e: "enter_func f args 0 (max_depth limits) (run_stack run) = Inr (fr, mem)"
    and x: "exec_loop clock h md limits 0 fr (run\<lparr>run_stack := mem\<rparr>) = Some (Inr vs, run')"
    using assms by (auto simp: exec_func_def split: sum.splits)
  show ?thesis using exec_loop_stack [OF x] enter_func_frame [OF e] by simp
qed

section \<open>A fuel limit makes every run return\<close>

text \<open>The kind of value a register of a declared type holds: the two integer types share one.\<close>

definition value_has_type :: "Value \<Rightarrow> IrType \<Rightarrow> bool" where
  "value_has_type v ty = (case v of VF32 _ \<Rightarrow> ty = F32 | VI32 _ \<Rightarrow> ty = I32 \<or> ty = Pointer)"

text \<open>The condition on the offsets of switch arms: they point forward.\<close>

fun forward_arm :: "nat \<Rightarrow> LpirOp \<Rightarrow> bool" where
  "forward_arm i (CaseStart _ end_offset) \<longleftrightarrow> i < unat end_offset"
| "forward_arm i (DefaultStart end_offset) \<longleftrightarrow> i < unat end_offset"
| "forward_arm i _ \<longleftrightarrow> True"

definition forward_arms :: "LpirOp list \<Rightarrow> bool" where
  "forward_arms ops \<longleftrightarrow> (\<forall>i < length ops. forward_arm i (ops ! i))"

lemma switch_pick_arm_returns:
  assumes "forward_arms ops"
  shows "switch_pick_arm ops sel merge default_arm pc \<noteq> None"
proof (induction "length ops - pc" arbitrary: pc default_arm rule: less_induct)
  case less
  show ?case
  proof (cases "pc < length ops")
    case True
    show ?thesis
    proof (cases "switch_arm_step ops sel merge default_arm pc")
      case (Inr nx)
      obtain d p where nx: "nx = (d, p)" by force
      have "pc < p"
        using Inr nx assms True
        by (cases "ops ! pc")
          (auto simp: switch_arm_step_def forward_arms_def split: if_splits option.splits)
      then have "switch_pick_arm ops sel merge d p \<noteq> None" using less True by simp
      then show ?thesis using True Inr nx by (subst switch_pick_arm.simps) simp
    qed (use True in \<open>subst switch_pick_arm.simps, simp\<close>)
  qed (subst switch_pick_arm.simps, simp)
qed

lemma exec_step_returns:
  assumes "forward_arms (body (fr_func fr))"
  shows "exec_step h fr mem \<noteq> None"
proof -
  have "step_switch fr mem selector off \<noteq> None" for selector off
    using switch_pick_arm_returns [OF assms]
    by (auto simp: step_switch_def Let_def split: sum.splits option.splits) (metis option.distinct(1))
  then have "step_op h fr mem op \<noteq> None" for op
    by (cases op) (auto simp del: eval_op.simps)
  then show ?thesis by (auto simp: exec_step_def split: list.splits Ctrl.splits)
qed

definition module_forward :: "LpirModule \<Rightarrow> bool" where
  "module_forward md \<longleftrightarrow> list_all (\<lambda>f. forward_arms (body f)) (vm_values (mod_functions md))"

lemma bs_loop_bound: "0 < sz \<Longrightarrow> base + sz \<le> length xs \<Longrightarrow> bs_loop f xs base sz < length xs"
proof (induction f xs base sz rule: bs_loop.induct)
  case (1 f xs base sz)
  show ?case
  proof (cases "1 < sz")
    case True
    have "bs_loop f xs base sz = bs_loop f xs (if f (xs ! (base + sz div 2)) = Greater then base
        else base + sz div 2) (sz - sz div 2)"
      using True by (subst bs_loop.simps) (simp add: Let_def)
    also have "\<dots> < length xs" using True 1(2,3) by (intro 1(1)) auto
    finally show ?thesis .
  qed (use 1 in \<open>subst bs_loop.simps, simp\<close>)
qed

lemma vm_get_in_values: "vm_get m k = Some v \<Longrightarrow> v \<in> set (vm_values m)"
  using bs_loop_bound [of "length (entries m)" 0 "entries m" "\<lambda>(x, _). cmp x k"]
  by (auto simp: vm_get_def vm_search_def binary_search_by_def vm_values_def Let_def
      split: sum.splits Ordering.splits if_splits)

lemma take_fuel_Inr:
  "fuel limits = Some n \<Longrightarrow> take_fuel limits f = Inr f' \<Longrightarrow> unat f = Suc (unat f')"
  by (auto simp: take_fuel_def unat_minus_one split: if_splits)
    (metis Suc_pred unat_gt_0)

lemma exec_loop_returns:
  assumes "fuel limits = Some n" and "module_forward md" and "forward_arms (body (fr_func fr))"
    and "unat (run_fuel run) < clock"
  shows "\<exists>res run'. exec_loop clock h md limits depth fr run = Some (res, run') \<and>
    unat (run_fuel run') \<le> unat (run_fuel run)"
  using assms(3,4)
proof (induction clock arbitrary: depth fr run)
  case (Suc clock)
  show ?case
  proof (cases "fr_pc fr < length (body (fr_func fr))")
    case pc: True
    show ?thesis
    proof (cases "take_fuel limits (run_fuel run)")
      case fuel: (Inr fuel')
      from take_fuel_Inr [OF assms(1) fuel] Suc.prems(2)
      have f: "unat fuel' < clock" "unat fuel' \<le> unat (run_fuel run)" by simp_all
      from exec_step_returns [OF Suc.prems(1)] obtain st where
        st: "exec_step h fr (run_stack run) = Some st" by blast
      show ?thesis
      proof (cases st)
        case (Goto fr' mem)
        have "fr_func fr' = fr_func fr" using exec_step_Goto [of h fr "run_stack run" fr' mem] st Goto
          by (simp add: same_frame_def)
        with Suc.IH [of fr' "run\<lparr>run_fuel := fuel', run_stack := mem\<rparr>" depth] Suc.prems(1) f
        show ?thesis using pc fuel st Goto by (fastforce simp: Let_def)
      next
        case inv: (Invoke callee args results)
        show ?thesis
        proof (cases "get_regs (fr_regs fr) (pool_slice (fr_func fr) args)")
          case args: (Inr call_args)
          have "\<exists>res run'. callee_outcome clock h md limits depth callee call_args (run\<lparr>run_fuel := fuel'\<rparr>)
              = Some (res, run') \<and> unat (run_fuel run') \<le> unat fuel'"
          proof (cases "resolve_call h md limits depth callee call_args (run\<lparr>run_fuel := fuel'\<rparr>)")
            case (Done r rn)
            then show ?thesis by (auto dest: resolve_call_Done)
          next
            case (Enter fr2 mem)
            then obtain g where g: "callee_as_function md callee = Some g" "fr_func fr2 = g"
              by (auto elim!: resolve_call_Enter dest: local_call_enter_frame)
            then have "forward_arms (body (fr_func fr2))"
              using assms(2) by (auto simp: callee_as_function_def module_forward_def list_all_iff
                  split: CalleeRef.splits dest: vm_get_in_values)
            then show ?thesis
              using Suc.IH [of fr2 "run\<lparr>run_fuel := fuel', run_stack := mem\<rparr>" "depth + 1"] Enter f by simp
          qed
          then obtain res run' where
            co: "callee_outcome clock h md limits depth callee call_args (run\<lparr>run_fuel := fuel'\<rparr>) = Some (res, run')"
            and fl: "unat (run_fuel run') \<le> unat fuel'" by blast
          show ?thesis
          proof (cases res)
            case (Inl e)
            then show ?thesis using pc fuel st inv args co fl f by (simp add: Let_def)
          next
            case res: (Inr vs)
            show ?thesis
            proof (cases "call_return fr results vs")
              case (Inl e)
              then show ?thesis using pc fuel st inv args co fl f res by (simp add: Let_def)
            next
              case (Inr fr')
              have "fr_func fr' = fr_func fr" using call_return_frame [OF Inr] by (simp add: same_frame_def)
              with Suc.IH [of fr' run' depth] Suc.prems(1) f fl
              obtain r2 run2 where "exec_loop clock h md limits depth fr' run' = Some (r2, run2)"
                "unat (run_fuel run2) \<le> unat (run_fuel run')" by auto
              then show ?thesis using pc fuel st inv args co fl f res Inr by (simp add: Let_def)
            qed
          qed
        qed (use pc fuel st inv f in \<open>simp add: Let_def\<close>)
      qed (use pc fuel st f in \<open>simp_all add: Let_def leave_def\<close>)
    qed (use pc in simp)
  qed (simp add: leave_def)
qed simp

lemma fuel_limit_returns:
  assumes "fuel limits = Some n" and "module_forward md"
  shows "\<exists>r. \<forall>clock > unat n. interpret_with_limits clock h md func_name args st limits = Some r"
proof (cases "find_function md func_name")
  case None
  then show ?thesis by (simp add: interpret_with_limits_def)
next
  case (Some f)
  then have "f \<in> set (vm_values (mod_functions md))"
    by (auto simp: find_function_def find_Some_iff)
  then have fwd: "forward_arms (body f)"
    using assms(2) by (simp add: module_forward_def list_all_iff)
  define full where "full = [VI32 0] @ (if sret_arg f \<noteq> None then [VI32 0] else []) @ args"
  define run where "run = \<lparr>run_fuel = initial_fuel limits, run_stack = [] :: u8 list, run_imports = st\<rparr>"
  have "\<exists>r. \<forall>clock > unat n. exec_func clock h md limits f full run = Some r"
  proof (cases "enter_func f full 0 (max_depth limits) (run_stack run)")
    case (Inr e)
    obtain fr mem where e: "e = (fr, mem)" by force
    have "unat (run_fuel (run\<lparr>run_stack := mem\<rparr>)) < unat n + 1"
      using assms(1) by (simp add: run_def initial_fuel_def)
    moreover have "forward_arms (body (fr_func fr))" using enter_func_frame [of f] Inr e fwd by auto
    ultimately obtain res run' where
      "exec_loop (unat n + 1) h md limits 0 fr (run\<lparr>run_stack := mem\<rparr>) = Some (res, run')"
      using exec_loop_returns [OF assms] by blast
    from exec_loop_mono [OF this] show ?thesis using Inr e by (auto simp: exec_func_def Suc_le_eq)
  qed (simp add: exec_func_def)
  then show ?thesis
    using Some by (auto simp: interpret_with_limits_def Let_def full_def run_def)
qed

section \<open>Properties\<close>

text \<open>C16. With an op budget of \<open>n\<close> every run returns, whatever the code does: the clock \<open>n + 1\<close> is
  enough, and a larger clock gives the same outcome. The only condition is that switch arms point
  forward, since dispatch does not consume fuel.\<close>

theorem fuel_limit_terminates:
  assumes "fuel limits = Some n" and "module_forward md"
  shows "\<exists>r. \<forall>clock > unat n. interpret_with_limits clock h md func_name args st limits = Some r"
  using assms by (rule fuel_limit_returns)

text \<open>C18. When the entry function returns, so does the host entry point, with the same values and
  with buffers of exactly the sizes passed in: calls leave the shared stack as long as it was.\<close>

theorem entry_buffers:
  assumes "find_function md func_name = Some f" and "(sret_arg f \<noteq> None) = (sret_size > 0)"
    and "exec_func clock h md limits f
       ([VI32 0] @ (if sret_arg f \<noteq> None then [VI32 (of_nat (length vmctx_image))] else []) @ args)
       \<lparr>run_fuel = initial_fuel limits, run_stack = vmctx_image @ replicate sret_size 0, run_imports = st\<rparr>
       = Some (Inr values, run)"
  shows "\<exists>out. interpret_entry clock h md func_name args st vmctx_image sret_size limits = Some (Inr out) \<and>
    out_values out = values \<and> length (sret_bytes out) = sret_size \<and>
    vmctx_bytes out @ sret_bytes out = run_stack run"
proof -
  have "length (run_stack run) = length vmctx_image + sret_size"
    using exec_func_stack [OF assms(3)] by simp
  moreover have "(sret_arg f \<noteq> None) \<noteq> (sret_size > 0) \<longleftrightarrow> False" using assms(2) by blast
  ultimately show ?thesis
    using assms(1,3) unfolding interpret_entry_def Let_def
    by (simp del: append_Cons add: byte_slice_def)
qed

text \<open>A word stored through a base register and offset is read back by a load from the same
  address into a register of the matching type, and the load changes nothing else.\<close>

theorem store_then_load:
  assumes "length mem < 2 ^ 63" and "get_reg regs value = Inr v"
    and "eval_op h f slot_off (Store base offset value) regs mem = Inr (regs1, mem1)"
    and "unat dst < length (vreg_types f)" and "value_has_type v (vreg_types f ! unat dst)"
    and "unat dst < length regs"
  shows "eval_op h f slot_off (Load dst base offset) regs1 mem1 = Inr (regs[unat dst := Some v], mem1)"
proof -
  define b where "b = (case v of VF32 x \<Rightarrow> x | VI32 x \<Rightarrow> x)"
  have st: "eval_store regs mem base offset value = Inr mem1" and regs: "regs1 = regs"
    using assms(3) by (auto simp: and_then_Inr_iff)
  obtain addr where addr: "eval_addr regs base offset = Inr addr"
    using st by (cases "eval_addr regs base offset") (simp_all add: eval_store_def)
  have wr: "write_u32 mem addr b = Inr mem1"
    using st addr assms(2) by (cases v) (simp_all add: eval_store_def b_def)
  have "read_u32 mem1 addr = Inr b" by (rule word_cell.read_after_write [OF assms(1) wr])
  moreover have "set_reg regs dst v = Inr (regs[unat dst := Some v])"
    using assms(6) by (simp add: set_reg_def set_at_def)
  ultimately show ?thesis
    using addr assms(4,5)
    by (cases v; cases "vreg_types f ! unat dst")
      (simp_all add: eval_load_def regs value_has_type_def b_def)
qed

section \<open>Concrete runs\<close>

text \<open>A host without imports, and a module with one function that loops for ever.\<close>

definition bare_host :: "unit Host" where
  "bare_host = \<lparr>libm_sqrtf = id, libm_floorf = id, libm_ceilf = id, libm_truncf = id, libm_roundf = id,
     import_call = (\<lambda>st m f args. (Inl (Import ''no imports''), st))\<rparr>"

definition bare_function :: "string \<Rightarrow> IrType list \<Rightarrow> IrType list \<Rightarrow> LpirOp list \<Rightarrow> VReg list \<Rightarrow> IrFunction" where
  "bare_function name tys rets ops pool =
     \<lparr>fn_name = name, is_entry = False, vmctx_vreg = 0, param_count = 0, return_types = rets,
      sret_arg = None, vreg_types = Pointer # tys, slots = [], body = ops, vreg_pool = pool\<rparr>"

definition one_function_module :: "IrFunction \<Rightarrow> LpirModule" where
  "one_function_module f = \<lparr>mod_imports = [], mod_functions = VecMap [(0, f)]\<rparr>"

lemmas bare_defs = bare_host_def bare_function_def one_function_module_def vm_values_def

lemma fuel_limit_terminates_witness:
  "\<exists>r. \<forall>clock > 1000. interpret_with_limits clock bare_host
     (one_function_module (bare_function ''f'' [] [] [LoopStart 1 2, End] [])) ''f'' [] () (with_fuel 1000)
     = Some r"
  using fuel_limit_terminates [of "with_fuel 1000" 1000
      "one_function_module (bare_function ''f'' [] [] [LoopStart 1 2, End] [])" bare_host "''f''" "[]" "()"]
  by (simp add: with_fuel_def module_forward_def forward_arms_def bare_defs less_Suc_eq)

lemma store_then_load_witness:
  "eval_op bare_host (bare_function ''f'' [I32, I32] [] [] []) [] (Load 2 0 0)
     [Some (VI32 0), Some (VI32 42), Some (VI32 7)] [42, 0, 0, 0]
   = Inr ([Some (VI32 0), Some (VI32 42), Some (VI32 42)], [42, 0, 0, 0])"
  using store_then_load [of "[1, 2, 3, 4]" "[Some (VI32 0), Some (VI32 42), Some (VI32 7)]" 1 "VI32 42"
      bare_host "bare_function ''f'' [I32, I32] [] [] []" "[]" 0 0
      "[Some (VI32 0), Some (VI32 42), Some (VI32 7)]" "[42, 0, 0, 0]" 2]
  by (simp add: get_reg_def eval_store_def eval_addr_def val_i32_def val_as_i32_def as_usize_def
      write_u32_def mem_copy_def u32_to_le_bytes_def bare_function_def value_has_type_def)

lemma entry_buffers_witness:
  "\<exists>out. interpret_entry (Suc (Suc (Suc 0))) bare_host
     (one_function_module (bare_function ''f'' [I32] [] [IconstI32 1 0x12345678, Store 0 0 1] []))
     ''f'' [] () [0, 0, 0, 0, 9] 0 unlimited = Some (Inr out) \<and>
     vmctx_bytes out @ sret_bytes out = [0x78, 0x56, 0x34, 0x12, 9]"
proof -
  let ?f = "bare_function ''f'' [I32] [] [IconstI32 1 0x12345678, Store 0 0 1] []"
  have "exec_func (Suc (Suc (Suc 0))) bare_host (one_function_module ?f) unlimited ?f [VI32 0]
      \<lparr>run_fuel = 0, run_stack = [0, 0, 0, 0, 9], run_imports = ()\<rparr>
      = Some (Inr [], \<lparr>run_fuel = 0, run_stack = [0x78, 0x56, 0x34, 0x12, 9], run_imports = ()\<rparr>)"
    by code_simp
  then show ?thesis
    using entry_buffers [of "one_function_module ?f" "''f''" ?f 0 "Suc (Suc (Suc 0))" bare_host unlimited
        "[0, 0, 0, 0, 9]" "[]" "()" "[]"]
    by (auto simp: find_function_def bare_defs initial_fuel_def unlimited_def)
qed

end
