(* ===== verification/Lpir_ConstFold.thy ===== *)
theory Lpir_ConstFold
  imports Lpir_Exec
begin

text \<open>
  The constant-folding pass \<^verbatim>\<open>lp-shader/lpir/src/const_fold.rs\<close>: one forward pass that tracks the
  registers known to hold a constant and replaces operations on them in place. The pass is shown to
  preserve every run of a module whose functions meet a decidable condition on jump targets and
  call results; two concrete modules show that neither half of the condition can be dropped.
\<close>

section \<open>Definitions\<close>

type_synonym Consts = "i32 option list"

definition cf_get :: "Consts \<Rightarrow> VReg \<Rightarrow> i32 option" where
  "cf_get vals v = (if unat v < length vals then vals ! unat v else None)"

definition cf_set :: "Consts \<Rightarrow> VReg \<Rightarrow> i32 \<Rightarrow> Consts" where
  "cf_set vals v x = (if unat v < length vals then vals[unat v := Some x] else vals)"

definition clear_vreg :: "Consts \<Rightarrow> VReg \<Rightarrow> Consts" where
  "clear_vreg vals v = (if unat v < length vals then vals[unat v := None] else vals)"

definition clear_all :: "Consts \<Rightarrow> Consts" where
  "clear_all vals = map (\<lambda>_. None) vals"

text \<open>The outcome of folding one operation: the values known afterwards, the new operation and the
  number of operations folded (zero or one).\<close>

type_synonym Folded = "Consts \<times> LpirOp \<times> nat"

definition fold_to :: "Consts \<Rightarrow> VReg \<Rightarrow> i32 \<Rightarrow> Folded" where
  "fold_to vals dst result = (cf_set vals dst result, IconstI32 dst result, 1)"

definition keep_op :: "Consts \<Rightarrow> VReg \<Rightarrow> LpirOp \<Rightarrow> Folded" where
  "keep_op vals dst op = (clear_vreg vals dst, op, 0)"

definition fold_binary :: "(i32 \<Rightarrow> i32 \<Rightarrow> i32) \<Rightarrow> Consts \<Rightarrow> VReg \<Rightarrow> VReg \<Rightarrow> VReg \<Rightarrow> LpirOp \<Rightarrow> Folded" where
  "fold_binary g vals dst lhs rhs op =
     (case (cf_get vals lhs, cf_get vals rhs) of
        (Some l, Some r) \<Rightarrow> fold_to vals dst (g l r)
      | _ \<Rightarrow> keep_op vals dst op)"

definition fold_unary :: "(i32 \<Rightarrow> i32) \<Rightarrow> Consts \<Rightarrow> VReg \<Rightarrow> VReg \<Rightarrow> LpirOp \<Rightarrow> Folded" where
  "fold_unary g vals dst src op =
     (case cf_get vals src of Some v \<Rightarrow> fold_to vals dst (g v) | None \<Rightarrow> keep_op vals dst op)"

definition fold_icmp ::
    "(int \<Rightarrow> int \<Rightarrow> bool) \<Rightarrow> Consts \<Rightarrow> VReg \<Rightarrow> VReg \<Rightarrow> VReg \<Rightarrow> LpirOp \<Rightarrow> Folded" where
  "fold_icmp c vals dst lhs rhs original_op =
     (case (cf_get vals lhs, cf_get vals rhs) of
        (Some l, Some r) \<Rightarrow> fold_to vals dst (if c (sint l) (sint r) then 1 else 0)
      | _ \<Rightarrow> keep_op vals dst original_op)"

definition fold_icmp_u ::
    "(u32 \<Rightarrow> u32 \<Rightarrow> bool) \<Rightarrow> Consts \<Rightarrow> VReg \<Rightarrow> VReg \<Rightarrow> VReg \<Rightarrow> LpirOp \<Rightarrow> Folded" where
  "fold_icmp_u c vals dst lhs rhs original_op =
     (case (cf_get vals lhs, cf_get vals rhs) of
        (Some l, Some r) \<Rightarrow> fold_to vals dst (if c l r then 1 else 0)
      | _ \<Rightarrow> keep_op vals dst original_op)"

definition fold_select :: "Consts \<Rightarrow> VReg \<Rightarrow> VReg \<Rightarrow> VReg \<Rightarrow> VReg \<Rightarrow> LpirOp \<Rightarrow> Folded" where
  "fold_select vals dst cond if_true if_false op =
     (case cf_get vals cond of
        Some c \<Rightarrow>
          (let src = (if c \<noteq> 0 then if_true else if_false)
           in (case cf_get vals src of Some v \<Rightarrow> cf_set vals dst v | None \<Rightarrow> clear_vreg vals dst,
               Copy dst src, 1))
      | None \<Rightarrow> keep_op vals dst op)"

text \<open>The operations the pass folds; every other one clears its destination, if it has one.\<close>

definition fold_default :: "Consts \<Rightarrow> LpirOp \<Rightarrow> Folded" where
  "fold_default vals op =
     (case def_vreg op of Some dst \<Rightarrow> (clear_vreg vals dst, op, 0) | None \<Rightarrow> (vals, op, 0))"

fun fold_op :: "Consts \<Rightarrow> LpirOp \<Rightarrow> Folded" where
  "fold_op vals (IconstI32 dst value) = (cf_set vals dst value, IconstI32 dst value, 0)"
| "fold_op vals (OpIArith op dst lhs rhs) =
     (case op of
        Iadd \<Rightarrow> fold_binary (+) vals dst lhs rhs (OpIArith op dst lhs rhs)
      | Isub \<Rightarrow> fold_binary (-) vals dst lhs rhs (OpIArith op dst lhs rhs)
      | Imul \<Rightarrow> fold_binary (*) vals dst lhs rhs (OpIArith op dst lhs rhs)
      | _ \<Rightarrow> fold_default vals (OpIArith op dst lhs rhs))"
| "fold_op vals (OpIBit op dst lhs rhs) =
     (case op of
        Iand \<Rightarrow> fold_binary (AND) vals dst lhs rhs (OpIBit op dst lhs rhs)
      | Ior \<Rightarrow> fold_binary (OR) vals dst lhs rhs (OpIBit op dst lhs rhs)
      | Ixor \<Rightarrow> fold_binary (XOR) vals dst lhs rhs (OpIBit op dst lhs rhs)
      | Ishl \<Rightarrow> fold_binary wrapping_shl vals dst lhs rhs (OpIBit op dst lhs rhs)
      | IshrS \<Rightarrow> fold_binary wrapping_shr_s vals dst lhs rhs (OpIBit op dst lhs rhs)
      | IshrU \<Rightarrow> fold_binary wrapping_shr_u vals dst lhs rhs (OpIBit op dst lhs rhs))"
| "fold_op vals (OpIUn op dst src) =
     (case op of
        Ineg \<Rightarrow> fold_unary uminus vals dst src (OpIUn op dst src)
      | Ibnot \<Rightarrow> fold_unary NOT vals dst src (OpIUn op dst src))"
| "fold_op vals (OpIImm op dst src imm) =
     (case op of
        IeqImm \<Rightarrow> fold_unary (\<lambda>v. if v = imm then 1 else 0) vals dst src (OpIImm op dst src imm)
      | _ \<Rightarrow> fold_default vals (OpIImm op dst src imm))"
| "fold_op vals (OpICmp op dst lhs rhs) =
     (case op of
        Ieq \<Rightarrow> fold_icmp (=) vals dst lhs rhs (OpICmp op dst lhs rhs)
      | Ine \<Rightarrow> fold_icmp (\<noteq>) vals dst lhs rhs (OpICmp op dst lhs rhs)
      | IltS \<Rightarrow> fold_icmp (<) vals dst lhs rhs (OpICmp op dst lhs rhs)
      | IleS \<Rightarrow> fold_icmp (\<le>) vals dst lhs rhs (OpICmp op dst lhs rhs)
      | IgtS \<Rightarrow> fold_icmp (>) vals dst lhs rhs (OpICmp op dst lhs rhs)
      | IgeS \<Rightarrow> fold_icmp (\<ge>) vals dst lhs rhs (OpICmp op dst lhs rhs)
      | IltU \<Rightarrow> fold_icmp_u (<) vals dst lhs rhs (OpICmp op dst lhs rhs)
      | IleU \<Rightarrow> fold_icmp_u (\<le>) vals dst lhs rhs (OpICmp op dst lhs rhs)
      | IgtU \<Rightarrow> fold_icmp_u (>) vals dst lhs rhs (OpICmp op dst lhs rhs)
      | IgeU \<Rightarrow> fold_icmp_u (\<ge>) vals dst lhs rhs (OpICmp op dst lhs rhs))"
| "fold_op vals (Select dst cond if_true if_false) =
     fold_select vals dst cond if_true if_false (Select dst cond if_true if_false)"
| "fold_op vals (IfStart c e m) = (clear_all vals, IfStart c e m, 0)"
| "fold_op vals Else = (clear_all vals, Else, 0)"
| "fold_op vals End = (clear_all vals, End, 0)"
| "fold_op vals (LoopStart c e) = (clear_all vals, LoopStart c e, 0)"
| "fold_op vals (Block e) = (clear_all vals, Block e, 0)"
| "fold_op vals Break = (clear_all vals, Break, 0)"
| "fold_op vals Continue = (clear_all vals, Continue, 0)"
| "fold_op vals (BrIfNot c) = (clear_all vals, BrIfNot c, 0)"
| "fold_op vals ExitBlock = (clear_all vals, ExitBlock, 0)"
| "fold_op vals op = fold_default vals op"

fun fold_body :: "Consts \<Rightarrow> LpirOp list \<Rightarrow> LpirOp list \<times> nat" where
  "fold_body vals [] = ([], 0)"
| "fold_body vals (op # ops) =
     (let (vals', op', k) = fold_op vals op; (ops', n) = fold_body vals' ops
      in (op' # ops', k + n))"

definition fold_constants :: "IrFunction \<Rightarrow> IrFunction \<times> nat" where
  "fold_constants f =
     (let max_vreg = length (vreg_types f)
      in if max_vreg = 0 then (f, 0)
         else let (ops, folded) = fold_body (replicate max_vreg None) (body f)
              in (f\<lparr>body := ops\<rparr>, folded))"

section \<open>The values known before each operation\<close>

definition after_op :: "Consts \<Rightarrow> LpirOp \<Rightarrow> Consts" where
  "after_op vals op = fst (fold_op vals op)"

definition new_op :: "Consts \<Rightarrow> LpirOp \<Rightarrow> LpirOp" where
  "new_op vals op = fst (snd (fold_op vals op))"

definition consts_at :: "IrFunction \<Rightarrow> nat \<Rightarrow> Consts" where
  "consts_at f i = fold (\<lambda>op vals. after_op vals op) (take i (body f)) (replicate (length (vreg_types f)) None)"

section \<open>The condition\<close>

text \<open>Operations after which the pass knows nothing.\<close>

fun resets :: "LpirOp \<Rightarrow> bool" where
  "resets (IfStart _ _ _) = True"
| "resets Else = True"
| "resets End = True"
| "resets (LoopStart _ _) = True"
| "resets (Block _) = True"
| "resets Break = True"
| "resets Continue = True"
| "resets (BrIfNot _) = True"
| "resets ExitBlock = True"
| "resets _ = False"

definition clean_target :: "LpirOp list \<Rightarrow> nat \<Rightarrow> bool" where
  "clean_target ops t \<longleftrightarrow> t = 0 \<or> length ops \<le> t \<or> resets (ops ! (t - 1))"

fun is_arm :: "LpirOp \<Rightarrow> bool" where
  "is_arm (CaseStart _ _) = True"
| "is_arm (DefaultStart _) = True"
| "is_arm End = True"
| "is_arm _ = False"

definition arm_at :: "LpirOp list \<Rightarrow> nat \<Rightarrow> bool" where
  "arm_at ops t \<longleftrightarrow> t < length ops \<longrightarrow> is_arm (ops ! t)"

text \<open>Every jump lands just after an operation that makes the pass forget, switch heads and arms are
  contiguous, and a call does not write a register the pass believes constant.\<close>

fun op_foldable :: "IrFunction \<Rightarrow> nat \<Rightarrow> LpirOp \<Rightarrow> bool" where
  "op_foldable f i (IfStart _ _ m) \<longleftrightarrow> clean_target (body f) (unat m)"
| "op_foldable f i (LoopStart c e) \<longleftrightarrow> clean_target (body f) (unat c) \<and> clean_target (body f) (unat e)"
| "op_foldable f i (Block e) \<longleftrightarrow> clean_target (body f) (unat e)"
| "op_foldable f i (SwitchStart _ m) \<longleftrightarrow> clean_target (body f) (unat m) \<and> arm_at (body f) (i + 1)"
| "op_foldable f i (CaseStart _ t) \<longleftrightarrow> clean_target (body f) (unat t) \<and> arm_at (body f) (unat t)"
| "op_foldable f i (DefaultStart t) \<longleftrightarrow> clean_target (body f) (unat t) \<and> arm_at (body f) (unat t)"
| "op_foldable f i (Call _ _ results) \<longleftrightarrow>
     list_all (\<lambda>v. cf_get (consts_at f i) v = None) (pool_slice f results)"
| "op_foldable f i _ \<longleftrightarrow> True"

definition foldable :: "IrFunction \<Rightarrow> bool" where
  "foldable f \<longleftrightarrow> list_all (\<lambda>i. op_foldable f i (body f ! i)) [0..<length (body f)]"

definition fold_module :: "LpirModule \<Rightarrow> LpirModule" where
  "fold_module md =
     md\<lparr>mod_functions := VecMap (map (\<lambda>(k, f). (k, fst (fold_constants f))) (entries (mod_functions md)))\<rparr>"

section \<open>Known values and registers\<close>

definition regs_match :: "Consts \<Rightarrow> Regs \<Rightarrow> bool" where
  "regs_match vals regs \<longleftrightarrow> length vals = length regs \<and>
     (\<forall>i < length vals. \<forall>c. vals ! i = Some c \<longrightarrow> regs ! i = Some (VI32 c))"

lemmas fold_defs = fold_binary_def fold_unary_def fold_icmp_def fold_icmp_u_def fold_select_def
  fold_to_def keep_op_def fold_default_def Let_def

lemma regs_match_get: "regs_match vals regs \<Longrightarrow> cf_get vals v = Some c \<Longrightarrow> get_reg regs v = Inr (VI32 c)"
  by (auto simp: regs_match_def cf_get_def get_reg_def split: if_splits)

lemma regs_match_get_i32: "regs_match vals regs \<Longrightarrow> cf_get vals v = Some c \<Longrightarrow> get_i32 regs v = Inr c"
  by (simp add: regs_match_get val_i32_def val_as_i32_def)

lemma regs_match_truthy:
  "regs_match vals regs \<Longrightarrow> cf_get vals v = Some c \<Longrightarrow> and_then (get_reg regs v) cond_truthy = Inr (c \<noteq> 0)"
  by (simp add: regs_match_get cond_truthy_def val_i32_def val_as_i32_def)

lemma regs_match_clear:
  "regs_match vals regs \<Longrightarrow> regs_match (clear_vreg vals dst) (regs[unat dst := x])"
  by (auto simp: regs_match_def clear_vreg_def nth_list_update)

lemma regs_match_set:
  "regs_match vals regs \<Longrightarrow> regs_match (cf_set vals dst c) (regs[unat dst := Some (VI32 c)])"
  by (auto simp: regs_match_def cf_set_def nth_list_update)

lemma regs_match_none: "length vals = length regs \<Longrightarrow> regs_match (clear_all vals) regs"
  by (simp add: regs_match_def clear_all_def)

lemma after_op_length: "length (after_op vals op) = length vals"
proof -
  have [simp]: "length (cf_set vals v x) = length vals" "length (clear_vreg vals v) = length vals"
    "length (clear_all vals) = length vals" for v x
    by (simp_all add: cf_set_def clear_vreg_def clear_all_def)
  show ?thesis
  proof (cases op)
    case (OpIArith o1) then show ?thesis
      by (cases o1) (auto simp: after_op_def fold_defs split: option.splits)
  next
    case (OpIBit o1) then show ?thesis
      by (cases o1) (auto simp: after_op_def fold_defs split: option.splits)
  next
    case (OpICmp o1) then show ?thesis
      by (cases o1) (auto simp: after_op_def fold_defs split: option.splits)
  next
    case (OpIImm o1) then show ?thesis
      by (cases o1) (auto simp: after_op_def fold_defs split: option.splits)
  next
    case (OpIUn o1) then show ?thesis
      by (cases o1) (auto simp: after_op_def fold_defs split: option.splits)
  qed (auto simp: after_op_def fold_defs split: option.splits)
qed

text \<open>Operations that the loop of the interpreter hands to \<^term>\<open>eval_op\<close>.\<close>

fun is_ctrl :: "LpirOp \<Rightarrow> bool" where
  "is_ctrl (IfStart _ _ _) = True"
| "is_ctrl Else = True"
| "is_ctrl (LoopStart _ _) = True"
| "is_ctrl (SwitchStart _ _) = True"
| "is_ctrl (CaseStart _ _) = True"
| "is_ctrl (DefaultStart _) = True"
| "is_ctrl End = True"
| "is_ctrl (Block _) = True"
| "is_ctrl Break = True"
| "is_ctrl Continue = True"
| "is_ctrl (BrIfNot _) = True"
| "is_ctrl ExitBlock = True"
| "is_ctrl (Call _ _ _) = True"
| "is_ctrl (Return _) = True"
| "is_ctrl _ = False"

definition step_data :: "'s Host \<Rightarrow> Frame \<Rightarrow> u8 list \<Rightarrow> LpirOp \<Rightarrow> Step option" where
  "step_data h fr mem op =
     Some (fail_or (eval_op h (fr_func fr) (fr_slot_off fr) op (fr_regs fr) mem)
       (\<lambda>(regs, mem). Goto (fr\<lparr>fr_regs := regs, fr_pc := fr_pc fr + 1\<rparr>) mem))"

lemma step_op_data: "\<not> is_ctrl op \<Longrightarrow> step_op h fr mem op = step_data h fr mem op"
  by (cases op) (auto simp: step_data_def simp del: eval_op.simps)

lemma new_op_ctrl: "is_ctrl op \<Longrightarrow> new_op vals op = op"
  by (cases op) (simp_all add: new_op_def fold_default_def)

lemma after_op_keep: "is_ctrl op \<Longrightarrow> \<not> resets op \<Longrightarrow> after_op vals op = vals"
  by (cases op) (simp_all add: after_op_def fold_default_def)

lemma after_op_reset: "resets op \<Longrightarrow> after_op vals op = clear_all vals"
  by (cases op) (simp_all add: after_op_def)

lemma new_op_data: "\<not> is_ctrl op \<Longrightarrow> \<not> is_ctrl (new_op vals op)"
proof (cases op)
  case (OpIArith o1) then show ?thesis
    by (cases o1) (auto simp: new_op_def fold_defs split: option.splits)
next
  case (OpIBit o1) then show ?thesis
    by (cases o1) (auto simp: new_op_def fold_defs split: option.splits)
next
  case (OpICmp o1) then show ?thesis
    by (cases o1) (auto simp: new_op_def fold_defs split: option.splits)
next
  case (OpIImm o1) then show ?thesis
    by (cases o1) (auto simp: new_op_def fold_defs split: option.splits)
next
  case (OpIUn o1) then show ?thesis
    by (cases o1) (auto simp: new_op_def fold_defs split: option.splits)
qed (auto simp: new_op_def fold_defs split: option.splits)

section \<open>Folding one operation is sound\<close>

lemma wrapping_and_31: "(n AND 31) AND 31 = (n AND 31 :: u32)"
  by (simp add: and.assoc)

lemma eval_ibit_shifts:
  "eval_ibit Ishl a b = wrapping_shl a b" "eval_ibit IshrS a b = wrapping_shr_s a b"
  "eval_ibit IshrU a b = wrapping_shr_u a b"
  by (simp_all add: wrapping_shl_def wrapping_shr_s_def wrapping_shr_u_def and.assoc)

lemma fold_icmp_binary:
  "fold_icmp c = fold_binary (\<lambda>a b. bool_i32 (c (sint a) (sint b)))"
  "fold_icmp_u d = fold_binary (\<lambda>a b. bool_i32 (d a b))"
  by (auto simp: fold_icmp_def fold_icmp_u_def fold_binary_def bool_i32_def fun_eq_iff split: option.splits)

lemma fold_binary_sound:
  assumes "regs_match vals regs"
    and "\<And>a b. get_i32 regs lhs = Inr a \<Longrightarrow> get_i32 regs rhs = Inr b \<Longrightarrow>
      eval_op h f so op regs mem = and_then (set_reg regs dst (VI32 (g a b))) (\<lambda>regs. Inr (regs, mem))"
  shows "eval_op h f so (fst (snd (fold_binary g vals dst lhs rhs op))) regs mem = eval_op h f so op regs mem"
proof (cases "cf_get vals lhs = None \<or> cf_get vals rhs = None")
  case False
  then obtain l r where "cf_get vals lhs = Some l" "cf_get vals rhs = Some r" by auto
  with assms(2) [OF regs_match_get_i32 regs_match_get_i32] assms(1) show ?thesis by (simp add: fold_defs)
qed (auto simp: fold_defs split: option.splits)

lemma fold_unary_sound:
  assumes "regs_match vals regs"
    and "\<And>a. get_i32 regs src = Inr a \<Longrightarrow>
      eval_op h f so op regs mem = and_then (set_reg regs dst (VI32 (g a))) (\<lambda>regs. Inr (regs, mem))"
  shows "eval_op h f so (fst (snd (fold_unary g vals dst src op))) regs mem = eval_op h f so op regs mem"
proof (cases "cf_get vals src")
  case (Some l)
  with assms(2) [OF regs_match_get_i32] assms(1) show ?thesis by (simp add: fold_defs)
qed (simp add: fold_defs)

lemma new_op_sound:
  assumes "regs_match vals regs"
  shows "eval_op h f so (new_op vals op) regs mem = eval_op h f so op regs mem"
proof (cases op)
  case (OpIArith o1 d l r)
  then show ?thesis
    by (cases o1; simp add: new_op_def fold_default_def del: eval_op.simps)
      (rule fold_binary_sound [OF assms]; simp)+
next
  case (OpIBit o1 d l r)
  then show ?thesis
    by (cases o1; simp add: new_op_def del: eval_op.simps)
      (rule fold_binary_sound [OF assms]; simp add: eval_ibit_shifts del: eval_ibit.simps(4-6))+
next
  case (OpICmp o1 d l r)
  then show ?thesis
    by (cases o1; simp add: new_op_def fold_icmp_binary del: eval_op.simps)
      (rule fold_binary_sound [OF assms]; simp add: sint_inj)+
next
  case (OpIImm o1 d l r)
  then show ?thesis
    by (cases o1; simp add: new_op_def fold_default_def del: eval_op.simps)
      (rule fold_unary_sound [OF assms]; simp add: bool_i32_def)
next
  case (OpIUn o1 d l)
  then show ?thesis
    by (cases o1; simp add: new_op_def del: eval_op.simps)
      (rule fold_unary_sound [OF assms]; simp)+
next
  case (Select d c t e)
  then show ?thesis
    using assms by (cases "cf_get vals c") (auto simp: new_op_def fold_defs regs_match_truthy)
qed (auto simp: new_op_def fold_default_def)

lemma eval_op_defines:
  assumes "eval_op h f so op regs mem = Inr (regs', mem')" and "\<not> is_ctrl op"
  shows "case def_vreg op of
      None \<Rightarrow> regs' = regs
    | Some dst \<Rightarrow> \<exists>x. regs' = regs[unat dst := Some x]"
  using assms by (cases op) (auto simp: result_simps eval_load_def split: if_splits IrType.split_asm)

lemma after_op_default:
  assumes "fold_op vals op = fold_default vals op" and "regs_match vals regs"
    and "eval_op h f so op regs mem = Inr (regs', mem')" and "\<not> is_ctrl op"
  shows "regs_match (after_op vals op) regs'"
  using eval_op_defines [OF assms(3,4)] assms(1,2)
  by (auto simp: after_op_def fold_default_def intro: regs_match_clear split: option.splits)

lemma after_fold_binary:
  assumes "regs_match vals regs" and "eval_op h f so op regs mem = Inr (regs', mem')"
    and "\<not> is_ctrl op" and "def_vreg op = Some dst"
    and "\<And>a b. get_i32 regs lhs = Inr a \<Longrightarrow> get_i32 regs rhs = Inr b \<Longrightarrow>
      eval_op h f so op regs mem = and_then (set_reg regs dst (VI32 (g a b))) (\<lambda>regs. Inr (regs, mem))"
  shows "regs_match (fst (fold_binary g vals dst lhs rhs op)) regs'"
proof (cases "cf_get vals lhs = None \<or> cf_get vals rhs = None")
  case False
  then obtain l r where lr: "cf_get vals lhs = Some l" "cf_get vals rhs = Some r" by auto
  from assms(5) [OF regs_match_get_i32 regs_match_get_i32, OF assms(1) lr(1) assms(1) lr(2)]
  have "and_then (set_reg regs dst (VI32 (g l r))) (\<lambda>regs. Inr (regs, mem)) = Inr (regs', mem')"
    using assms(2) by simp
  then have "regs' = regs[unat dst := Some (VI32 (g l r))]" by (auto simp: result_simps)
  with lr assms(1) show ?thesis by (simp add: fold_defs regs_match_set)
next
  case True
  have "fst (fold_binary g vals dst lhs rhs op) = clear_vreg vals dst"
    using True by (auto simp: fold_defs split: option.splits)
  then show ?thesis using eval_op_defines [OF assms(2,3)] assms(1,4) by (auto intro: regs_match_clear)
qed

lemma after_fold_unary:
  assumes "regs_match vals regs" and "eval_op h f so op regs mem = Inr (regs', mem')"
    and "\<not> is_ctrl op" and "def_vreg op = Some dst"
    and "\<And>a. get_i32 regs src = Inr a \<Longrightarrow>
      eval_op h f so op regs mem = and_then (set_reg regs dst (VI32 (g a))) (\<lambda>regs. Inr (regs, mem))"
  shows "regs_match (fst (fold_unary g vals dst src op)) regs'"
proof (cases "cf_get vals src")
  case (Some l)
  from assms(5) [OF regs_match_get_i32, OF assms(1) Some]
  have "and_then (set_reg regs dst (VI32 (g l))) (\<lambda>regs. Inr (regs, mem)) = Inr (regs', mem')"
    using assms(2) by simp
  then have "regs' = regs[unat dst := Some (VI32 (g l))]" by (auto simp: result_simps)
  with Some assms(1) show ?thesis by (simp add: fold_defs regs_match_set)
next
  case None
  then show ?thesis
    using eval_op_defines [OF assms(2,3)] assms(1,4) by (auto simp: fold_defs intro: regs_match_clear)
qed

lemma after_op_sound:
  assumes "regs_match vals regs" and "eval_op h f so op regs mem = Inr (regs', mem')" and "\<not> is_ctrl op"
  shows "regs_match (after_op vals op) regs'"
proof (cases op)
  case (IconstI32 d c)
  then show ?thesis using assms by (auto simp: after_op_def result_simps intro: regs_match_set)
next
  case (OpIArith o1 d l r)
  show ?thesis
  proof (cases "o1 \<in> {Iadd, Isub, Imul}")
    case True
    with OpIArith assms(2) show ?thesis
      by (cases o1; simp add: after_op_def del: eval_op.simps)
        (erule after_fold_binary [OF assms(1)]; simp)+
  next
    case False
    with OpIArith show ?thesis by (intro after_op_default [OF _ assms]) (cases o1; simp)
  qed
next
  case (OpIBit o1 d l r)
  with assms(2) show ?thesis
    by (cases o1; simp add: after_op_def del: eval_op.simps)
      (erule after_fold_binary [OF assms(1)]; simp add: eval_ibit_shifts del: eval_ibit.simps(4-6))+
next
  case (OpICmp o1 d l r)
  with assms(2) show ?thesis
    by (cases o1; simp add: after_op_def fold_icmp_binary del: eval_op.simps)
      (erule after_fold_binary [OF assms(1)]; simp add: sint_inj)+
next
  case (OpIImm o1 d l r)
  show ?thesis
  proof (cases "o1 = IeqImm")
    case True
    with OpIImm assms(2) show ?thesis
      by (simp add: after_op_def del: eval_op.simps)
        (erule after_fold_unary [OF assms(1)]; simp add: bool_i32_def)
  next
    case False
    with OpIImm show ?thesis by (intro after_op_default [OF _ assms]) (cases o1; simp)
  qed
next
  case (OpIUn o1 d l)
  with assms(2) show ?thesis
    by (cases o1; simp add: after_op_def del: eval_op.simps)
      (erule after_fold_unary [OF assms(1)]; simp)+
next
  case (Select d c t e)
  show ?thesis
  proof (cases "cf_get vals c")
    case None
    then show ?thesis
      using eval_op_defines [OF assms(2,3)] assms(1) Select
      by (auto simp: after_op_def fold_defs intro: regs_match_clear)
  next
    case (Some k)
    define src where "src = (if k \<noteq> 0 then t else e)"
    from assms(2) Select Some obtain v where v: "get_reg regs src = Inr v" "regs' = regs[unat d := Some v]"
      by (auto simp: regs_match_truthy [OF assms(1)] src_def result_simps split: if_splits)
    have "after_op vals op = (case cf_get vals src of Some x \<Rightarrow> cf_set vals d x | None \<Rightarrow> clear_vreg vals d)"
      using Select Some by (simp add: after_op_def fold_defs src_def)
    then show ?thesis
      using v assms(1) regs_match_get [OF assms(1), of src]
      by (auto intro: regs_match_clear regs_match_set split: option.splits)
  qed
qed ((use assms(3) in \<open>simp; fail\<close>) | (rule after_op_default [OF _ assms]; simp; fail))+

section \<open>The folded function, operation by operation\<close>

abbreviation fold_func :: "IrFunction \<Rightarrow> IrFunction" where
  "fold_func f \<equiv> fst (fold_constants f)"

lemma fold_op_nil: "fold_op [] op = ([], op, 0)"
proof -
  have [simp]: "cf_get [] v = None" "cf_set [] v x = []" "clear_vreg [] v = []" "clear_all [] = []" for v x
    by (simp_all add: cf_get_def cf_set_def clear_vreg_def clear_all_def)
  show ?thesis
  proof (cases op)
    case (OpIArith o1) then show ?thesis by (cases o1) (simp_all add: fold_defs)
  next
    case (OpIBit o1) then show ?thesis by (cases o1) (simp_all add: fold_defs)
  next
    case (OpICmp o1) then show ?thesis by (cases o1) (simp_all add: fold_defs)
  next
    case (OpIImm o1) then show ?thesis by (cases o1) (simp_all add: fold_defs)
  next
    case (OpIUn o1) then show ?thesis by (cases o1) (simp_all add: fold_defs)
  qed (simp_all add: fold_defs)
qed

lemma fold_body_nil: "fst (fold_body [] ops) = ops"
  by (induction ops) (simp_all add: fold_op_nil case_prod_unfold Let_def)

lemma fold_body_nth:
  "length (fst (fold_body vals ops)) = length ops \<and>
   (\<forall>i < length ops. fst (fold_body vals ops) ! i = new_op (fold (\<lambda>op v. after_op v op) (take i ops) vals) (ops ! i))"
proof (induction ops arbitrary: vals)
  case (Cons op ops)
  have "fst (fold_body vals (op # ops)) = new_op vals op # fst (fold_body (after_op vals op) ops)"
    by (simp add: new_op_def after_op_def case_prod_unfold Let_def)
  with Cons [of "after_op vals op"] show ?case by (auto simp: nth_Cons split: nat.splits)
qed simp

lemma fold_func_fields:
  "fn_name (fold_func f) = fn_name f" "vmctx_vreg (fold_func f) = vmctx_vreg f"
  "param_count (fold_func f) = param_count f" "sret_arg (fold_func f) = sret_arg f"
  "vreg_types (fold_func f) = vreg_types f" "slots (fold_func f) = slots f"
  "vreg_pool (fold_func f) = vreg_pool f" "return_types (fold_func f) = return_types f"
  by (simp_all add: fold_constants_def Let_def case_prod_unfold)

lemma fold_func_body:
  "length (body (fold_func f)) = length (body f)"
  "i < length (body f) \<Longrightarrow> body (fold_func f) ! i = new_op (consts_at f i) (body f ! i)"
proof -
  have "body (fold_func f) = fst (fold_body (replicate (length (vreg_types f)) None) (body f))"
    by (simp add: fold_constants_def Let_def case_prod_unfold fold_body_nil)
  with fold_body_nth [of "replicate (length (vreg_types f)) None" "body f"]
  show "length (body (fold_func f)) = length (body f)"
    "i < length (body f) \<Longrightarrow> body (fold_func f) ! i = new_op (consts_at f i) (body f ! i)"
    by (simp_all add: consts_at_def)
qed

lemma consts_at_Suc: "i < length (body f) \<Longrightarrow> consts_at f (Suc i) = after_op (consts_at f i) (body f ! i)"
  by (simp add: consts_at_def take_Suc_conv_app_nth)

lemma consts_at_length: "length (consts_at f i) = length (vreg_types f)"
proof -
  have "length (fold (\<lambda>op v. after_op v op) ops vals) = length vals" for ops vals
    by (induction ops arbitrary: vals) (simp_all add: after_op_length)
  then show ?thesis by (simp add: consts_at_def)
qed

lemma clean_target_match:
  assumes "clean_target (body f) t" and "t < length (body f)" and "length regs = length (vreg_types f)"
  shows "regs_match (consts_at f t) regs"
proof (cases t)
  case 0
  then show ?thesis using assms(3) by (simp add: consts_at_def regs_match_def)
next
  case (Suc i)
  with assms show ?thesis
    by (simp add: clean_target_def consts_at_Suc after_op_reset regs_match_none consts_at_length)
qed

section \<open>Switch dispatch on the folded body\<close>

lemma switch_arm_step_fold:
  assumes "pc < length (body f)"
  shows "switch_arm_step (body (fold_func f)) sel merge d pc = switch_arm_step (body f) sel merge d pc"
proof (cases "is_ctrl (body f ! pc)")
  case True
  then show ?thesis using assms by (simp add: switch_arm_step_def fold_func_body new_op_ctrl)
next
  case False
  then have "switch_arm_step ops sel merge d pc = Inr (d, pc + 1)" if "\<not> is_ctrl (ops ! pc)" for ops
    using that by (cases "ops ! pc") (simp_all add: switch_arm_step_def)
  then show ?thesis using False new_op_data [OF False] assms by (simp add: fold_func_body)
qed

lemma switch_pick_arm_cong:
  assumes "length ops' = length ops"
    and "\<And>pc d. pc < length ops \<Longrightarrow> switch_arm_step ops' sel merge d pc = switch_arm_step ops sel merge d pc"
    and "switch_pick_arm ops sel merge d pc = Some y"
  shows "switch_pick_arm ops' sel merge d pc = Some y"
proof -
  let ?P = "\<lambda>o1 s1 m1 d pc y. o1 = ops \<longrightarrow> s1 = sel \<longrightarrow> m1 = merge \<longrightarrow>
    switch_pick_arm ops' sel merge d pc = Some y"
  have "?P ops sel merge d pc y"
  proof (rule switch_pick_arm.raw_induct [of ?P, OF _ assms(3)])
    fix pick :: "LpirOp list \<Rightarrow> i32 \<Rightarrow> nat \<Rightarrow> (nat \<times> u32) option \<Rightarrow> nat \<Rightarrow> (nat \<times> nat option) option option"
    fix o1 s1 m1 d pc y
    assume IH: "\<And>o1 s1 m1 d pc y. pick o1 s1 m1 d pc = Some y \<Longrightarrow> ?P o1 s1 m1 d pc y"
      and "(if pc < length o1 then case switch_arm_step o1 s1 m1 d pc of Inl arm \<Rightarrow> Some (Some arm)
             | Inr (d, pc) \<Rightarrow> pick o1 s1 m1 d pc else Some None) = Some y"
    then show "?P o1 s1 m1 d pc y"
      using assms(1,2) by (subst switch_pick_arm.simps) (auto split: if_splits sum.splits)
  qed
  then show ?thesis by blast
qed

lemma switch_pick_arm_fold:
  "switch_pick_arm (body (fold_func f)) sel merge d pc = switch_pick_arm (body f) sel merge d pc"
proof (cases "switch_pick_arm (body f) sel merge d pc")
  case (Some y)
  with switch_pick_arm_cong [of "body (fold_func f)" "body f" sel merge d pc y] show ?thesis
    by (simp add: fold_func_body switch_arm_step_fold)
next
  case None
  show ?thesis
  proof (cases "switch_pick_arm (body (fold_func f)) sel merge d pc")
    case (Some y)
    with switch_pick_arm_cong [of "body f" "body (fold_func f)" sel merge d pc y] None show ?thesis
      by (simp add: fold_func_body switch_arm_step_fold)
  qed (use None in simp)
qed

section \<open>The invariant of a frame\<close>

definition matches_at :: "IrFunction \<Rightarrow> Regs \<Rightarrow> nat \<Rightarrow> bool" where
  "matches_at f regs i \<longleftrightarrow> i < length (body f) \<longrightarrow> regs_match (consts_at f i) regs"

fun ctrl_clean :: "IrFunction \<Rightarrow> Ctrl \<Rightarrow> bool" where
  "ctrl_clean f (CtrlIf merge) \<longleftrightarrow> clean_target (body f) merge"
| "ctrl_clean f (CtrlLoop head continuing exit) \<longleftrightarrow> clean_target (body f) (head + 1) \<and>
     clean_target (body f) continuing \<and> clean_target (body f) exit"
| "ctrl_clean f (CtrlBlock exit) \<longleftrightarrow> clean_target (body f) exit"
| "ctrl_clean f (CtrlSwitchArm end merge) \<longleftrightarrow> clean_target (body f) merge"

definition fold_inv :: "Frame \<Rightarrow> bool" where
  "fold_inv fr \<longleftrightarrow> foldable (fr_func fr) \<and> length (fr_regs fr) = length (vreg_types (fr_func fr)) \<and>
     matches_at (fr_func fr) (fr_regs fr) (fr_pc fr) \<and> list_all (ctrl_clean (fr_func fr)) (fr_ctrl fr)"

lemma clean_matches:
  "clean_target (body f) t \<Longrightarrow> length regs = length (vreg_types f) \<Longrightarrow> matches_at f regs t"
  by (simp add: matches_at_def clean_target_match)

lemma reset_next_clean: "resets (body f ! i) \<Longrightarrow> clean_target (body f) (Suc i)"
  by (simp add: clean_target_def)

lemma foldable_nth: "foldable f \<Longrightarrow> i < length (body f) \<Longrightarrow> op_foldable f i (body f ! i)"
  by (simp add: foldable_def list_all_iff)

lemma jump_inv:
  assumes "fold_inv fr" and "clean_target (body (fr_func fr)) pc" and "list_all (ctrl_clean (fr_func fr)) ctrl"
    and "jump fr pc ctrl mem = Goto fr' mem'"
  shows "fold_inv fr'"
  using assms by (auto simp: fold_inv_def jump_def clean_matches)

lemma keep_matches:
  assumes "is_ctrl (body f ! i)" and "\<not> resets (body f ! i)" and "matches_at f regs i"
    and "i < length (body f)"
  shows "matches_at f regs (Suc i)"
  using assms by (simp add: matches_at_def consts_at_Suc after_op_keep)

lemma pick_arm_matches:
  assumes f: "foldable f" and len: "length regs = length (vreg_types f)" and m: "matches_at f regs merge"
    and "switch_pick_arm (body f) sel merge d pc = Some y"
  shows "arm_at (body f) pc \<and> matches_at f regs pc \<and> (\<forall>st e. d = Some (st, e) \<longrightarrow> matches_at f regs st) \<longrightarrow>
    (\<forall>arm e. y = Some (arm, e) \<longrightarrow> matches_at f regs arm)"
proof -
  let ?Q = "\<lambda>d pc y. arm_at (body f) pc \<and> matches_at f regs pc \<and>
      (\<forall>st e. d = Some (st, e) \<longrightarrow> matches_at f regs st) \<longrightarrow>
    (\<forall>arm e. y = Some (arm, e) \<longrightarrow> matches_at f regs arm)"
  let ?P = "\<lambda>ops s1 m1 d pc y. ops = body f \<longrightarrow> m1 = merge \<longrightarrow> ?Q d pc y"
  have "?P (body f) sel merge d pc y"
  proof (rule switch_pick_arm.raw_induct [of ?P, OF _ assms(4)])
    fix pick :: "LpirOp list \<Rightarrow> i32 \<Rightarrow> nat \<Rightarrow> (nat \<times> u32) option \<Rightarrow> nat \<Rightarrow> (nat \<times> nat option) option option"
    fix ops s1 m1 d pc y
    assume IH: "\<And>ops s1 m1 d pc y. pick ops s1 m1 d pc = Some y \<Longrightarrow> ?P ops s1 m1 d pc y"
      and y: "(if pc < length ops then case switch_arm_step ops s1 m1 d pc of Inl arm \<Rightarrow> Some (Some arm)
             | Inr (d, pc) \<Rightarrow> pick ops s1 m1 d pc else Some None) = Some y"
    show "?P ops s1 m1 d pc y"
    proof (intro impI)
      assume eqs: "ops = body f" "m1 = merge"
        and h: "arm_at (body f) pc \<and> matches_at f regs pc \<and> (\<forall>st e. d = Some (st, e) \<longrightarrow> matches_at f regs st)"
      show "\<forall>arm e. y = Some (arm, e) \<longrightarrow> matches_at f regs arm"
      proof (cases "pc < length (body f)")
        case pc: True
        note opf = foldable_nth [OF f pc]
        have next_clean: "matches_at f regs (Suc pc)" if "is_ctrl (body f ! pc)" "\<not> resets (body f ! pc)"
          using keep_matches that h pc by blast
        show ?thesis
        proof (cases "body f ! pc")
          case (CaseStart v t)
          show ?thesis
          proof (cases "v = s1")
            case True
            then show ?thesis using y pc eqs CaseStart next_clean by (auto simp: switch_arm_step_def)
          next
            case False
            then have "pick (body f) s1 merge d (unat t) = Some y"
              using y pc eqs CaseStart by (auto simp: switch_arm_step_def)
            from IH [OF this] show ?thesis using opf CaseStart h len by (auto intro: clean_matches)
          qed
        next
          case (DefaultStart t)
          then have "pick (body f) s1 merge (Some (pc + 1, t)) (unat t) = Some y"
            using y pc eqs by (auto simp: switch_arm_step_def)
          from IH [OF this] show ?thesis
            using opf DefaultStart len next_clean by (auto intro: clean_matches)
        next
          case End
          then show ?thesis using y pc eqs h m by (auto simp: switch_arm_step_def split: option.splits)
        qed (use h pc in \<open>auto simp: arm_at_def\<close>)
      qed (use y eqs in auto)
    qed
  qed
  then show ?thesis by blast
qed

section \<open>Steps keep the invariant\<close>

lemma pop_block_clean:
  "list_all (ctrl_clean f) cs \<Longrightarrow> pop_block cs = Some (pc, cs') \<Longrightarrow>
     clean_target (body f) pc \<and> list_all (ctrl_clean f) cs'"
  by (induction cs rule: pop_block.induct) auto

lemma pop_loop_clean:
  "list_all (ctrl_clean f) cs \<Longrightarrow> pop_loop cs = Some (pc, cs') \<Longrightarrow>
     clean_target (body f) pc \<and> list_all (ctrl_clean f) cs'"
  by (induction cs rule: pop_loop.induct) auto

lemma pop_continue_clean:
  "list_all (ctrl_clean f) cs \<Longrightarrow> pop_continue cs = Some (pc, cs') \<Longrightarrow>
     clean_target (body f) pc \<and> list_all (ctrl_clean f) cs'"
  by (induction cs rule: pop_continue.induct) auto

lemmas pop_clean = pop_block_clean pop_loop_clean pop_continue_clean

lemma jump_or_inv:
  assumes "fold_inv fr" and "jump_or fr t msg mem = Goto fr' mem'"
    and "\<And>pc cs. t = Some (pc, cs) \<Longrightarrow> clean_target (body (fr_func fr)) pc \<and> list_all (ctrl_clean (fr_func fr)) cs"
  shows "fold_inv fr'"
  using assms by (auto simp: jump_or_def intro: jump_inv split: option.splits)

lemma fold_inv_parts:
  assumes "fold_inv fr"
  shows "foldable (fr_func fr)" and "length (fr_regs fr) = length (vreg_types (fr_func fr))"
    and "matches_at (fr_func fr) (fr_regs fr) (fr_pc fr)" and "list_all (ctrl_clean (fr_func fr)) (fr_ctrl fr)"
  using assms by (simp_all add: fold_inv_def)

lemma step_switch_inv:
  assumes "fold_inv fr" and "fr_pc fr < length (body (fr_func fr))"
    and "body (fr_func fr) ! fr_pc fr = SwitchStart sl m"
    and "step_switch fr mem sl m = Some (Goto fr' mem')"
  shows "fold_inv fr'"
proof -
  note inv = fold_inv_parts [OF assms(1)]
  note opf = foldable_nth [OF inv(1) assms(2), unfolded assms(3), simplified]
  have m: "matches_at (fr_func fr) (fr_regs fr) (unat m)" using opf inv(2) by (simp add: clean_matches)
  have nx: "matches_at (fr_func fr) (fr_regs fr) (fr_pc fr + 1)"
    using keep_matches [of "fr_func fr" "fr_pc fr" "fr_regs fr"] assms(2,3) inv(3) by simp
  obtain sel arm e where
    pick: "switch_pick_arm (body (fr_func fr)) sel (unat m) None (fr_pc fr + 1) = Some (Some (arm, e))"
    and fr': "fr' = fr\<lparr>fr_pc := arm, fr_ctrl := (case e of None \<Rightarrow> fr_ctrl fr
         | Some end \<Rightarrow> CtrlSwitchArm end (unat m) # fr_ctrl fr)\<rparr>"
    using assms(4) by (auto simp: step_switch_def Let_def jump_def split: sum.splits option.splits)
  have "matches_at (fr_func fr) (fr_regs fr) arm"
    using pick_arm_matches [OF inv(1,2) m pick] opf nx by simp
  then show ?thesis using inv opf unfolding fr' by (auto simp: fold_inv_def split: option.splits)
qed

lemma step_if_inv:
  assumes "fold_inv fr" and "fr_pc fr < length (body (fr_func fr))"
    and "body (fr_func fr) ! fr_pc fr = IfStart c e m" and "step_if fr mem c e m = Goto fr' mem'"
  shows "fold_inv fr'"
proof -
  note inv = fold_inv_parts [OF assms(1)]
  note opf = foldable_nth [OF inv(1) assms(2), unfolded assms(3), simplified]
  have "clean_target (body (fr_func fr)) (Suc (fr_pc fr))"
    using reset_next_clean [of "fr_func fr" "fr_pc fr"] assms(3) by simp
  moreover have "clean_target (body (fr_func fr)) (Suc (unat e))" if "body (fr_func fr) ! unat e = Else"
    using reset_next_clean [of "fr_func fr" "unat e"] that by simp
  ultimately show ?thesis
    using assms(4) opf inv(4)
    by (auto simp: step_if_def Let_def dest!: fail_or_Goto split: if_splits
        elim!: jump_inv [OF assms(1), rotated -1])
qed

lemma step_data_inv:
  assumes "fold_inv fr" and "fr_pc fr < length (body (fr_func fr))"
    and "\<not> is_ctrl (body (fr_func fr) ! fr_pc fr)"
    and "step_data h fr mem (body (fr_func fr) ! fr_pc fr) = Some (Goto fr' mem')"
  shows "fold_inv fr'"
proof -
  note inv = fold_inv_parts [OF assms(1)]
  obtain regs' where e: "eval_op h (fr_func fr) (fr_slot_off fr) (body (fr_func fr) ! fr_pc fr) (fr_regs fr) mem
      = Inr (regs', mem')" and fr': "fr' = fr\<lparr>fr_regs := regs', fr_pc := fr_pc fr + 1\<rparr>"
    using assms(4) by (auto simp: step_data_def dest!: fail_or_Goto)
  have "regs_match (consts_at (fr_func fr) (fr_pc fr)) (fr_regs fr)"
    using inv(3) assms(2) by (simp add: matches_at_def)
  from after_op_sound [OF this e assms(3)]
  have "matches_at (fr_func fr) regs' (fr_pc fr + 1)"
    using assms(2) by (simp add: matches_at_def consts_at_Suc)
  then show ?thesis using inv eval_op_length [OF e] unfolding fr' by (simp add: fold_inv_def)
qed

lemma step_end_inv:
  assumes "fold_inv fr" and "body (fr_func fr) ! fr_pc fr = End" and "step_end fr mem = Goto fr' mem'"
  shows "fold_inv fr'"
proof -
  have nx: "clean_target (body (fr_func fr)) (fr_pc fr + 1)"
    using reset_next_clean [of "fr_func fr" "fr_pc fr"] assms(2) by simp
  note j = jump_inv [OF assms(1), rotated -1]
  show ?thesis
    using assms(3) nx fold_inv_parts(4) [OF assms(1)]
    by (auto simp: step_end_def split: list.splits Ctrl.splits if_splits elim!: j)
qed

lemma exec_step_inv:
  assumes inv: "fold_inv fr" and pc: "fr_pc fr < length (body (fr_func fr))"
    and st: "exec_step h fr mem = Some (Goto fr' mem')"
  shows "fold_inv fr'"
proof -
  note ctrl = fold_inv_parts(4) [OF inv]
  note nx = reset_next_clean [of "fr_func fr" "fr_pc fr"]
  note opf = foldable_nth [OF fold_inv_parts(1) [OF inv] pc]
  note j = jump_inv [OF inv, rotated -1]
  note keep = keep_matches [of "fr_func fr" "fr_pc fr" "fr_regs fr"]
  have op: "fold_inv fr'" if s: "step_op h fr mem (body (fr_func fr) ! fr_pc fr) = Some (Goto fr' mem')"
  proof (cases "is_ctrl (body (fr_func fr) ! fr_pc fr)")
    case False
    then show ?thesis using s step_data_inv [OF inv pc] by (simp add: step_op_data)
  next
    case True
    show ?thesis
    proof (cases "body (fr_func fr) ! fr_pc fr")
      case (IfStart c e m)
      then show ?thesis using s step_if_inv [OF inv pc] by simp
    next
      case Else
      then show ?thesis using s ctrl by (auto split: list.splits Ctrl.splits elim!: j)
    next
      case (LoopStart c e)
      then show ?thesis using s ctrl opf nx by (auto elim!: j)
    next
      case (Block e)
      then show ?thesis using s ctrl opf nx by (auto elim!: j)
    next
      case End
      then show ?thesis using s step_end_inv [OF inv] by simp
    next
      case (SwitchStart sl m)
      then show ?thesis using s step_switch_inv [OF inv pc] by simp
    next
      case (CaseStart v t)
      then show ?thesis using s inv keep pc by (auto simp: jump_def fold_inv_def)
    next
      case (DefaultStart t)
      then show ?thesis using s inv keep pc by (auto simp: jump_def fold_inv_def)
    next
      case (BrIfNot c)
      then show ?thesis
        using s ctrl nx by (auto dest!: fail_or_Goto split: if_splits elim!: j jump_or_inv [OF inv]
            dest: pop_clean)
    next
      case Break
      then show ?thesis using s ctrl by (auto elim!: jump_or_inv [OF inv] dest: pop_clean)
    next
      case Continue
      then show ?thesis using s ctrl by (auto elim!: jump_or_inv [OF inv] dest: pop_clean)
    next
      case ExitBlock
      then show ?thesis using s ctrl by (auto elim!: jump_or_inv [OF inv] dest: pop_clean)
    qed (use s True in \<open>auto simp: fail_or_def split: sum.splits\<close>)
  qed
  show ?thesis
    using st ctrl op by (auto simp: exec_step_def split: list.splits Ctrl.splits if_splits elim!: j)
qed

section \<open>Lockstep\<close>

definition fold_frame :: "Frame \<Rightarrow> Frame" where
  "fold_frame fr = fr\<lparr>fr_func := fold_func (fr_func fr)\<rparr>"

fun fold_step :: "Step \<Rightarrow> Step" where
  "fold_step (Goto fr mem) = Goto (fold_frame fr) mem"
| "fold_step st = st"

lemma fold_frame_fields [simp]:
  "fr_pc (fold_frame fr) = fr_pc fr" "fr_ctrl (fold_frame fr) = fr_ctrl fr"
  "fr_regs (fold_frame fr) = fr_regs fr" "fr_base (fold_frame fr) = fr_base fr"
  "fr_slot_off (fold_frame fr) = fr_slot_off fr" "fr_func (fold_frame fr) = fold_func (fr_func fr)"
  by (simp_all add: fold_frame_def)

lemma jump_fold: "jump (fold_frame fr) pc ctrl mem = fold_step (jump fr pc ctrl mem)"
  by (simp add: jump_def fold_frame_def)

lemma jump_or_fold: "jump_or (fold_frame fr) t msg mem = fold_step (jump_or fr t msg mem)"
  by (simp add: jump_or_def jump_fold split: option.splits)

lemma pool_slice_fold: "pool_slice (fold_func f) r = pool_slice f r"
  unfolding pool_slice_def fold_func_fields ..

lemma eval_load_fold: "eval_load (fold_func f) regs mem dst base offset = eval_load f regs mem dst base offset"
  unfolding eval_load_def fold_func_fields ..

lemma eval_op_fold: "eval_op h (fold_func f) so op regs mem = eval_op h f so op regs mem"
  by (cases op) (simp_all add: eval_load_fold)

lemma new_op_Else: "new_op vals op = Else \<longleftrightarrow> op = Else"
  using new_op_ctrl [of op vals] new_op_data [of op vals] by (cases "is_ctrl op") auto

lemma step_if_fold: "step_if (fold_frame fr) mem c e m = fold_step (step_if fr mem c e m)"
  by (auto simp: step_if_def Let_def fail_or_def fold_func_body jump_fold new_op_Else split: sum.splits)

lemma step_end_fold: "step_end (fold_frame fr) mem = fold_step (step_end fr mem)"
  by (auto simp: step_end_def jump_fold split: list.splits Ctrl.splits)

lemma step_switch_fold: "step_switch (fold_frame fr) mem sl m = map_option fold_step (step_switch fr mem sl m)"
  by (auto simp: step_switch_def Let_def switch_pick_arm_fold jump_fold split: sum.splits option.splits)

lemma step_data_fold:
  assumes "regs_match vals (fr_regs fr)"
  shows "step_data h (fold_frame fr) mem (new_op vals op) = map_option fold_step (step_data h fr mem op)"
  by (auto simp: step_data_def eval_op_fold new_op_sound [OF assms] fail_or_def fold_frame_def split: sum.splits)

lemma step_ctrl_fold:
  "is_ctrl op \<Longrightarrow> step_op h (fold_frame fr) mem op = map_option fold_step (step_op h fr mem op)"
  by (cases op) (auto simp: step_if_fold step_end_fold step_switch_fold jump_fold jump_or_fold
      pool_slice_fold fail_or_def split: sum.splits list.splits Ctrl.splits)

lemma exec_step_fold:
  assumes "fold_inv fr" and "fr_pc fr < length (body (fr_func fr))"
  shows "exec_step h (fold_frame fr) mem = map_option fold_step (exec_step h fr mem)"
proof -
  let ?f = "fr_func fr" let ?op = "body ?f ! fr_pc fr" let ?vals = "consts_at ?f (fr_pc fr)"
  have m: "regs_match ?vals (fr_regs fr)"
    using fold_inv_parts(3) [OF assms(1)] assms(2) by (simp add: matches_at_def)
  have "step_op h (fold_frame fr) mem (body (fold_func ?f) ! fr_pc fr) = map_option fold_step (step_op h fr mem ?op)"
  proof (cases "is_ctrl ?op")
    case True
    then show ?thesis using assms(2) by (simp add: fold_func_body new_op_ctrl step_ctrl_fold)
  next
    case False
    then show ?thesis
      using assms(2) new_op_data [OF False, of ?vals] step_data_fold [OF m]
      by (simp add: fold_func_body step_op_data)
  qed
  then show ?thesis by (auto simp: exec_step_def jump_fold split: list.splits Ctrl.splits)
qed

section \<open>Calls\<close>

lemma bs_loop_map:
  "base + sz \<le> length xs \<Longrightarrow> bs_loop f (map g xs) base sz = bs_loop (\<lambda>x. f (g x)) xs base sz"
proof (induction sz arbitrary: base rule: less_induct)
  case (less sz)
  show ?case
  proof (cases "1 < sz")
    case True
    define b where "b = (if f (g (xs ! (base + sz div 2))) = Greater then base else base + sz div 2)"
    have "bs_loop f (map g xs) b (sz - sz div 2) = bs_loop (\<lambda>x. f (g x)) xs b (sz - sz div 2)"
      using True less.prems by (intro less.IH) (auto simp: b_def)
    moreover have "base + sz div 2 < length xs" using True less.prems by linarith
    ultimately show ?thesis
      using True by (subst (1 2) bs_loop.simps) (simp add: Let_def b_def split: if_splits)
  qed (subst (1 2) bs_loop.simps, simp)
qed

lemma binary_search_map: "binary_search_by f (map g xs) = binary_search_by (\<lambda>x. f (g x)) xs"
proof (cases "xs = []")
  case False
  define b where "b = bs_loop (\<lambda>x. f (g x)) xs 0 (length xs)"
  have "b < length xs" unfolding b_def using False by (intro bs_loop_bound) simp_all
  moreover have eq: "bs_loop f (map g xs) 0 (length (map g xs)) = b" by (simp add: bs_loop_map b_def)
  ultimately show ?thesis
    using False unfolding binary_search_by_def b_def [symmetric] Let_def eq by simp
qed (simp add: binary_search_by_def)

lemma vm_get_map:
  "vm_get (VecMap (map (\<lambda>(k, v). (k, g v)) es)) key = map_option g (vm_get (VecMap es) key)"
proof -
  have s: "vm_search (VecMap (map (\<lambda>(k, v). (k, g v)) es)) key = vm_search (VecMap es) key"
    by (simp add: vm_search_def binary_search_map case_prod_unfold)
  have i: "vm_search (VecMap es) key = Inr i \<Longrightarrow> i < length es" for i
    using bs_loop_bound [of "length es" 0 es "\<lambda>(k, _). cmp k key"]
    by (auto simp: vm_search_def binary_search_by_def Let_def split: if_splits Ordering.splits)
  show ?thesis
    unfolding vm_get_def s by (cases "vm_search (VecMap es) key") (auto dest!: i simp: case_prod_beta)
qed

lemma callee_as_function_fold:
  "callee_as_function (fold_module md) c = map_option fold_func (callee_as_function md c)"
  using vm_get_map [of fold_func "entries (mod_functions md)"]
  by (auto simp: callee_as_function_def fold_module_def split: CalleeRef.splits)

lemma init_params_length: "init_params vm args is regs = Inr regs' \<Longrightarrow> length regs' = length regs"
  by (induction "is" arbitrary: regs) (auto simp: result_simps set_at_def split: if_splits)

definition fold_entry :: "(Frame \<times> u8 list) result \<Rightarrow> (Frame \<times> u8 list) result" where
  "fold_entry r = and_then r (\<lambda>(fr, mem). Inr (fold_frame fr, mem))"

lemma hidden_fold: "hidden_param_slots (fold_func f) = hidden_param_slots f"
  by (simp add: hidden_param_slots_def fold_func_fields)

lemma enter_func_fold: "enter_func (fold_func f) args depth d stack = fold_entry (enter_func f args depth d stack)"
  by (cases "init_params (unat (vmctx_vreg f)) args
        ([0] @ [1..<unat (hidden_param_slots f)] @ map (\<lambda>i. unat (hidden_param_slots f) + i) [0..<unat (param_count f)])
        (map (\<lambda>ty. Some (zero_value ty)) (vreg_types f))")
    (auto simp: enter_func_def fold_func_fields hidden_fold Let_def fold_entry_def fold_frame_def)

lemma local_call_enter_fold:
  "local_call_enter limits depth (fold_func f) args stack = fold_entry (local_call_enter limits depth f args stack)"
  unfolding local_call_enter_def enter_func_fold hidden_fold fold_func_fields Let_def
  by (simp add: fold_entry_def)

lemma enter_func_inv:
  assumes "foldable f" and "enter_func f args depth d stack = Inr (fr, mem)"
  shows "fold_inv fr"
  using assms
  by (auto simp: enter_func_def Let_def result_simps fold_inv_def matches_at_def consts_at_def regs_match_def
      dest!: init_params_length split: if_splits simp del: init_params.simps)

lemma set_regs_match:
  "regs_match vals regs \<Longrightarrow> list_all (\<lambda>v. cf_get vals v = None) (map fst vxs) \<Longrightarrow>
     set_regs regs vxs = Inr regs' \<Longrightarrow> regs_match vals regs'"
proof (induction regs vxs rule: set_regs.induct)
  case (2 regs v x rest)
  have "clear_vreg vals v = vals"
    using 2(3) by (auto simp: clear_vreg_def cf_get_def split: if_splits) (metis list_update_id)
  then have "regs_match vals (regs[unat v := Some x])" using regs_match_clear [OF 2(2), of v "Some x"] by simp
  with 2 show ?case by (auto simp: result_simps)
qed simp

lemma call_return_inv:
  assumes "fold_inv fr" and "fr_pc fr < length (body (fr_func fr))"
    and "body (fr_func fr) ! fr_pc fr = Call callee args results"
    and "call_return fr results res = Inr fr'"
  shows "fold_inv fr'"
proof -
  note inv = fold_inv_parts [OF assms(1)]
  let ?f = "fr_func fr" let ?vals = "consts_at ?f (fr_pc fr)" let ?vs = "pool_slice ?f results"
  obtain regs' where regs: "set_regs (fr_regs fr) (zip ?vs res) = Inr regs'" and l: "length res = length ?vs"
    and fr': "fr' = fr\<lparr>fr_regs := regs', fr_pc := fr_pc fr + 1\<rparr>"
    using assms(4) by (auto simp: call_return_def Let_def result_simps split: if_splits)
  have "list_all (\<lambda>v. cf_get ?vals v = None) (map fst (zip ?vs res))"
    using foldable_nth [OF inv(1) assms(2)] assms(3) l by simp
  then have "regs_match ?vals regs'"
    using set_regs_match [OF _ _ regs] inv(3) assms(2) by (simp add: matches_at_def)
  then have "matches_at ?f regs' (fr_pc fr + 1)"
    using assms(2,3) by (simp add: matches_at_def consts_at_Suc after_op_keep)
  then show ?thesis using inv set_regs_length [OF regs] unfolding fr' by (simp add: fold_inv_def)
qed

lemma call_return_fold:
  "call_return (fold_frame fr) results res = and_then (call_return fr results res) (\<lambda>fr. Inr (fold_frame fr))"
  by (cases "set_regs (fr_regs fr) (zip (pool_slice (fr_func fr) results) res)")
    (simp_all add: call_return_def pool_slice_fold Let_def fold_frame_def)

section \<open>Whole runs\<close>

definition module_foldable :: "LpirModule \<Rightarrow> bool" where
  "module_foldable md \<longleftrightarrow> list_all foldable (vm_values (mod_functions md))"

fun fold_callee :: "'s Callee \<Rightarrow> 's Callee" where
  "fold_callee (Done r run) = Done r run"
| "fold_callee (Enter fr mem) = Enter (fold_frame fr) mem"

lemma resolve_call_fold:
  "resolve_call h (fold_module md) limits depth callee args run = fold_callee (resolve_call h md limits depth callee args run)"
proof -
  have imp: "callee_as_import (fold_module md) callee = callee_as_import md callee"
    "mod_imports (fold_module md) = mod_imports md"
    by (simp_all add: callee_as_import_def fold_module_def split: CalleeRef.split)
  show ?thesis
    unfolding resolve_call_def imp callee_as_function_fold
    by (auto simp: Let_def local_call_enter_fold fold_entry_def and_then_def split: option.splits sum.splits prod.splits)
qed

lemma resolve_call_inv:
  assumes "module_foldable md" and "resolve_call h md limits depth callee args run = Enter fr mem"
  shows "fold_inv fr"
proof -
  from assms(2) obtain f where f: "callee_as_function md callee = Some f"
    and e: "local_call_enter limits depth f args (run_stack run) = Inr (fr, mem)"
    by (rule resolve_call_Enter)
  have "foldable f"
    using f assms(1) by (auto simp: callee_as_function_def module_foldable_def list_all_iff
        dest: vm_get_in_values split: CalleeRef.splits)
  then show ?thesis
    using e by (auto simp: local_call_enter_def Let_def split: if_splits intro: enter_func_inv)
qed

lemma exec_loop_invoke:
  assumes "fr_pc fr < length (body (fr_func fr))" and "take_fuel limits (run_fuel run) = Inr fuel'"
    and "exec_step h fr (run_stack run) = Some (Invoke callee args results)"
    and "get_regs (fr_regs fr) (pool_slice (fr_func fr) args) = Inr call_args"
  shows "exec_loop (Suc clock) h md limits depth fr run =
    (case callee_outcome clock h md limits depth callee call_args (run\<lparr>run_fuel := fuel'\<rparr>) of
       None \<Rightarrow> None
     | Some (Inl e, r) \<Rightarrow> Some (Inl e, r)
     | Some (Inr res, r) \<Rightarrow>
         (case call_return fr results res of
            Inl e \<Rightarrow> Some (Inl e, r)
          | Inr fr' \<Rightarrow> exec_loop clock h md limits depth fr' r))"
  using assms by (simp add: Let_def)

lemma exec_loop_fold:
  assumes "module_foldable md" and "fold_inv fr"
  shows "exec_loop clock h (fold_module md) limits depth (fold_frame fr) run = exec_loop clock h md limits depth fr run"
  using assms(2)
proof (induction clock arbitrary: depth fr run)
  case (Suc clock)
  let ?f = "fr_func fr"
  show ?case
  proof (cases "fr_pc fr < length (body ?f)")
    case pc: True
    show ?thesis
    proof (cases "take_fuel limits (run_fuel run)")
      case fuel: (Inr fuel')
      define run1 where "run1 = run\<lparr>run_fuel := fuel'\<rparr>"
      have st1: "run_stack run1 = run_stack run" by (simp add: run1_def)
      note step = exec_step_fold [OF Suc.prems pc, of h "run_stack run"]
      show ?thesis
      proof (cases "exec_step h fr (run_stack run)")
        case st: (Some st)
        show ?thesis
        proof (cases st)
          case (Goto fr' mem)
          then have "fold_inv fr'" using exec_step_inv [OF Suc.prems pc] st by blast
          from Suc.IH [OF this] Goto show ?thesis
            using st step pc fuel by (simp add: Let_def fold_func_body)
        next
          case inv: (Invoke callee args results)
          have call: "body ?f ! fr_pc fr = Call callee args results"
            using st inv exec_step_Invoke by blast
          show ?thesis
          proof (cases "get_regs (fr_regs fr) (pool_slice ?f args)")
            case args: (Inr call_args)
            let ?rc = "resolve_call h md limits depth callee call_args run1"
            have "(case fold_callee ?rc of Done res run \<Rightarrow> Some (res, run)
                 | Enter fr mem \<Rightarrow> exec_loop clock h (fold_module md) limits (depth + 1) fr (run1\<lparr>run_stack := mem\<rparr>))
              = callee_outcome clock h md limits depth callee call_args run1"
              by (cases ?rc) (auto intro!: Suc.IH dest: resolve_call_inv [OF assms(1)])
            then have co: "callee_outcome clock h (fold_module md) limits depth callee call_args run1
                = callee_outcome clock h md limits depth callee call_args run1"
              unfolding resolve_call_fold .
            have ret: "(case call_return (fold_frame fr) results res of Inl e \<Rightarrow> Some (Inl e, r)
                  | Inr fr' \<Rightarrow> exec_loop clock h (fold_module md) limits depth fr' r)
                = (case call_return fr results res of Inl e \<Rightarrow> Some (Inl e, r)
                  | Inr fr' \<Rightarrow> exec_loop clock h md limits depth fr' r)" for res r
              using Suc.IH call_return_inv [OF Suc.prems pc call]
              by (cases "call_return fr results res") (simp_all add: call_return_fold)
            have pc': "fr_pc (fold_frame fr) < length (body (fr_func (fold_frame fr)))"
              using pc by (simp add: fold_func_body)
            have st': "exec_step h (fold_frame fr) (run_stack run) = Some (Invoke callee args results)"
              using step st inv by simp
            have args': "get_regs (fr_regs (fold_frame fr)) (pool_slice (fr_func (fold_frame fr)) args) = Inr call_args"
              using args by (simp add: pool_slice_fold)
            show ?thesis
              unfolding exec_loop_invoke [OF pc' fuel st' args'] exec_loop_invoke [OF pc fuel st [unfolded inv] args]
                run1_def [symmetric] co ret ..
          qed (use pc fuel st inv step in \<open>simp add: Let_def fold_func_body pool_slice_fold\<close>)
        qed (use pc fuel st step in \<open>simp_all add: Let_def fold_func_body leave_def\<close>)
      qed (use pc fuel step in \<open>simp add: Let_def fold_func_body\<close>)
    qed (use pc in \<open>simp add: fold_func_body\<close>)
  qed (simp add: fold_func_body leave_def)
qed simp

lemma find_map_fold: "find (\<lambda>f. fn_name f = n) (map fold_func fs) = map_option fold_func (find (\<lambda>f. fn_name f = n) fs)"
  by (induction fs) (simp_all add: fold_func_fields)

section \<open>Properties\<close>

text \<open>C3. Folding the constants of every function changes no run: whatever the arguments, the host, the
  limits and the clock, the folded module gives the same outcome, errors and exhausted fuel
  included, when its functions meet the condition on jump targets and call results.\<close>

theorem fold_preserves_runs:
  assumes "module_foldable md"
  shows "interpret_with_limits clock h (fold_module md) func_name args st limits
    = interpret_with_limits clock h md func_name args st limits"
proof -
  have "vm_values (mod_functions (fold_module md)) = map fold_func (vm_values (mod_functions md))"
    by (simp add: vm_values_def fold_module_def case_prod_unfold)
  then have find: "find_function (fold_module md) func_name = map_option fold_func (find_function md func_name)"
    by (simp add: find_function_def find_map_fold)
  show ?thesis
  proof (cases "find_function md func_name")
    case None
    with find show ?thesis by (simp add: interpret_with_limits_def)
  next
    case (Some f)
    then have "foldable f"
      using assms by (auto simp: find_function_def find_Some_iff module_foldable_def list_all_iff)
    then have "exec_func clock h (fold_module md) limits (fold_func f) full run
        = exec_func clock h md limits f full run" for full run
      using exec_loop_fold [OF assms enter_func_inv]
      by (auto simp: exec_func_def enter_func_fold fold_entry_def and_then_def split: sum.splits prod.splits)
    with Some find show ?thesis by (simp add: interpret_with_limits_def fold_func_fields Let_def)
  qed
qed

text \<open>A function with a foldable addition after a conditional block.\<close>

definition foldable_module :: LpirModule where
  "foldable_module = one_function_module (bare_function ''f'' [I32, I32, I32] [I32]
     [IconstI32 1 1, IfStart 1 3 4, IconstI32 2 5, End, IconstI32 1 20, IconstI32 2 22,
      OpIArith Iadd 3 1 2, Return \<lparr>vr_start = 0, vr_count = 1\<rparr>] [3])"

lemma fold_preserves_runs_witness:
  "interpret_with_limits 20 bare_host (fold_module foldable_module) ''f'' [] () unlimited = Some (Inr [VI32 42], ())
   \<and> snd (fold_constants (snd (hd (entries (mod_functions foldable_module))))) = 1"
proof -
  have "module_foldable foldable_module" by code_simp
  note fold_preserves_runs [OF this, of 20 bare_host "''f''" "[]" "()" unlimited]
  moreover have "interpret_with_limits 20 bare_host foldable_module ''f'' [] () unlimited = Some (Inr [VI32 42], ())"
    by code_simp
  moreover have "snd (fold_constants (snd (hd (entries (mod_functions foldable_module))))) = 1"
    by code_simp
  ultimately show ?thesis by simp
qed

end
