(* ===== verification/Lpir_Validate.thy ===== *)
theory Lpir_Validate
  imports Lpir_Exec "HOL-Library.Char_ord" "HOL-Library.List_Lexorder" "HOL-Library.Product_Lexorder"
begin

text \<open>
  The well-formedness checks of \<^verbatim>\<open>lp-shader/lpir/src/validate.rs\<close>. The source pushes errors onto a
  vector passed by reference; here every check returns the errors it pushes, in order, and the
  callers concatenate. The stack of open control structures has its top at the head of the list.

  The theorems show what an accepted module promises to the interpreter: registers keep their
  declared types and functions return values of their declared types.
\<close>

section \<open>Errors\<close>

record ValidationError =
  ve_message :: string
  ve_op_index :: "nat option"
  ve_func_name :: "string option"

definition err_in_func :: "string \<Rightarrow> nat option \<Rightarrow> string \<Rightarrow> ValidationError" where
  "err_in_func func_name op_index msg =
     \<lparr>ve_message = msg, ve_op_index = op_index, ve_func_name = Some func_name\<rparr>"

definition err_module :: "string \<Rightarrow> ValidationError" where
  "err_module msg = \<lparr>ve_message = msg, ve_op_index = None, ve_func_name = None\<rparr>"

text \<open>The formats \<^verbatim>\<open>{:?}\<close> of types and \<^verbatim>\<open>{}\<close> of numbers and registers.\<close>

fun debug_ty :: "IrType \<Rightarrow> string" where
  "debug_ty F32 = ''F32''"
| "debug_ty I32 = ''I32''"
| "debug_ty Pointer = ''Pointer''"

definition show_u32 :: "u32 \<Rightarrow> string" where
  "show_u32 w = show_nat (unat w)"

definition show_i32 :: "i32 \<Rightarrow> string" where
  "show_i32 w =
     (if sint w < 0 then ''-'' @ show_nat (nat (- sint w)) else show_nat (nat (sint w)))"

definition show_vreg :: "VReg \<Rightarrow> string" where
  "show_vreg v = ''v'' @ show_u32 v"

section \<open>Imports\<close>

definition validate_import_sret :: "ImportDecl \<Rightarrow> ValidationError list" where
  "validate_import_sret imp =
     (if \<not> imp_sret imp then []
      else (if imp_return_types imp \<noteq> []
            then [err_module ''import with sret must have empty return_types''] else []) @
           (if imp_param_types imp = [] \<or> hd (imp_param_types imp) \<noteq> Pointer
            then [err_module ''import with sret must have ptr as first param_types entry''] else []))"

fun validate_import_list ::
    "ImportDecl list \<Rightarrow> (string \<times> string) VecSet \<Rightarrow> ValidationError list" where
  "validate_import_list [] seen = []"
| "validate_import_list (imp # imps) seen =
     (let (fresh, seen) = vs_insert seen (imp_module_name imp, imp_func_name imp)
      in (if \<not> fresh
          then [err_module (''duplicate import @'' @ imp_module_name imp @ ''::'' @ imp_func_name imp)]
          else []) @
         validate_import_sret imp @ validate_import_list imps seen)"

definition validate_imports :: "LpirModule \<Rightarrow> ValidationError list" where
  "validate_imports md = validate_import_list (mod_imports md) vs_new"

section \<open>Functions\<close>

text \<open>The case values of an open switch are kept as the numbers they denote, in their order.\<close>

datatype StackEntry =
    SeIf
  | SeElse
  | SeLoop nat u32
  | SeBlock
  | SeSwitch "int VecSet" bool
  | SeArm

fun is_se_block :: "StackEntry \<Rightarrow> bool" where
  "is_se_block SeBlock = True"
| "is_se_block _ = False"

definition has_enclosing_block :: "StackEntry list \<Rightarrow> bool" where
  "has_enclosing_block stack = list_ex is_se_block stack"

fun innermost_loop :: "StackEntry list \<Rightarrow> (nat \<times> u32) option" where
  "innermost_loop [] = None"
| "innermost_loop (SeLoop loop_start continuing_offset # stack) = Some (loop_start, continuing_offset)"
| "innermost_loop (_ # stack) = innermost_loop stack"

definition return_in_sret :: "string \<Rightarrow> nat \<Rightarrow> LpirOp \<Rightarrow> ValidationError list" where
  "return_in_sret fname oi op =
     (case op of
        Return values \<Rightarrow>
          if vr_count values \<noteq> 0
          then [err_in_func fname (Some oi) ''sret function must not return values (use empty return)'']
          else []
      | _ \<Rightarrow> [])"

definition validate_sret_function_invariants :: "IrFunction \<Rightarrow> string \<Rightarrow> ValidationError list" where
  "validate_sret_function_invariants f fname =
     (case sret_arg f of
        None \<Rightarrow> []
      | Some sv \<Rightarrow>
          (if return_types f \<noteq> []
           then [err_in_func fname None ''function with sret_arg must have empty return_types''] else []) @
          (if sv \<noteq> vmctx_vreg f + 1
           then [err_in_func fname None (''sret vreg must be v'' @ show_u32 (vmctx_vreg f + 1)
                   @ '' (vmctx+1), got v'' @ show_u32 sv)] else []) @
          (if unat sv < length (vreg_types f) \<and> vreg_types f ! unat sv \<noteq> Pointer
           then [err_in_func fname None (''sret vreg must have type ptr, got ''
                   @ debug_ty (vreg_types f ! unat sv))] else []) @
          concat (map (\<lambda>(oi, op). return_in_sret fname oi op) (enumerate 0 (body f))))"

text \<open>\<^verbatim>\<open>pool_bounds\<close> at one operation.\<close>

definition pool_bounds_op :: "IrFunction \<Rightarrow> string \<Rightarrow> nat \<Rightarrow> LpirOp \<Rightarrow> ValidationError list" where
  "pool_bounds_op f fname i op =
     (let n = length (vreg_pool f);
          past = (\<lambda>r. unat (vr_start r) + unat (vr_count r) > n)
      in case op of
           Call callee args results \<Rightarrow>
             (if past args
              then [err_in_func fname (Some i)
                      (''call args VRegRange out of pool (len '' @ show_nat n @ '')'')] else []) @
             (if past results
              then [err_in_func fname (Some i)
                      (''call results VRegRange out of pool (len '' @ show_nat n @ '')'')] else [])
         | Return values \<Rightarrow>
             (if past values
              then [err_in_func fname (Some i)
                      (''return VRegRange out of pool (len '' @ show_nat n @ '')'')] else []) @
             (if unat (vr_count values) \<noteq> length (return_types f)
              then [err_in_func fname (Some i)
                      (''return value count '' @ show_nat (unat (vr_count values))
                       @ '' != function return arity '' @ show_nat (length (return_types f)))] else [])
         | _ \<Rightarrow> [])"

definition pool_bounds :: "IrFunction \<Rightarrow> string \<Rightarrow> ValidationError list" where
  "pool_bounds f fname = concat (map (\<lambda>(i, op). pool_bounds_op f fname i op) (enumerate 0 (body f)))"

definition check_return_value_types ::
    "IrFunction \<Rightarrow> string \<Rightarrow> nat option \<Rightarrow> VRegRange \<Rightarrow> ValidationError list" where
  "check_return_value_types f fname op_i r =
     (let vregs = pool_slice f r
      in if length vregs \<noteq> unat (vr_count r) then []
         else concat (map (\<lambda>(k, v).
           let j = unat v
           in if j < length (vreg_types f) \<and> k < length (return_types f) \<and>
                 vreg_types f ! j \<noteq> return_types f ! k
              then [err_in_func fname op_i (''return value '' @ show_nat k @ '' type ''
                      @ debug_ty (vreg_types f ! j) @ '' != declared '' @ debug_ty (return_types f ! k))]
              else []) (enumerate 0 vregs)))"

text \<open>The types a callee declares, or the error of a callee that is not there.\<close>

definition callee_types ::
    "LpirModule \<Rightarrow> string \<Rightarrow> nat option \<Rightarrow> CalleeRef \<Rightarrow> ValidationError + IrType list \<times> IrType list" where
  "callee_types md fname op_i callee =
     (case callee of
        CalleeImport i \<Rightarrow>
          if unat i \<ge> length (mod_imports md)
          then Inl (err_in_func fname op_i (''callee import index '' @ show_nat (unat i) @ '' out of range''))
          else (let imp = mod_imports md ! unat i
                in Inr ((if imp_needs_vmctx imp then [Pointer] else []) @ imp_param_types imp,
                        imp_return_types imp))
      | CalleeLocal fid \<Rightarrow>
          (case vm_get (mod_functions md) fid of
             None \<Rightarrow> Inl (err_in_func fname op_i (''callee unknown local func '' @ show_nat (unat fid)))
           | Some fdef \<Rightarrow>
               (let end = unat (vmctx_vreg fdef) + unat (hidden_param_slots fdef) + unat (param_count fdef)
                in if end > length (vreg_types fdef)
                   then Inl (err_in_func fname op_i ''internal: callee signature missing'')
                   else Inr (take end (vreg_types fdef), return_types fdef))))"

definition type_mismatches ::
    "IrFunction \<Rightarrow> string \<Rightarrow> nat option \<Rightarrow> string \<Rightarrow> string \<Rightarrow> IrType list \<Rightarrow> VReg list \<Rightarrow> ValidationError list" where
  "type_mismatches f fname op_i what declared tys vregs =
     concat (map (\<lambda>(k, v).
       let j = unat v
       in if k < length tys \<and> j < length (vreg_types f) \<and> vreg_types f ! j \<noteq> tys ! k
          then [err_in_func fname op_i (''call '' @ what @ '' '' @ show_nat k @ '' type ''
                  @ debug_ty (vreg_types f ! j) @ '' != '' @ declared @ '' '' @ debug_ty (tys ! k))]
          else []) (enumerate 0 vregs))"

definition validate_call ::
    "IrFunction \<Rightarrow> LpirModule \<Rightarrow> string \<Rightarrow> nat option \<Rightarrow> CalleeRef \<Rightarrow> VRegRange \<Rightarrow> VRegRange \<Rightarrow>
       ValidationError list" where
  "validate_call f md fname op_i callee args results =
     (let arg_slice = pool_slice f args; res_slice = pool_slice f results
      in if length arg_slice \<noteq> unat (vr_count args) \<or> length res_slice \<noteq> unat (vr_count results) then []
         else case callee_types md fname op_i callee of
           Inl e \<Rightarrow> [e]
         | Inr (param_tys, ret_tys) \<Rightarrow>
             (if length param_tys \<noteq> length arg_slice
              then [err_in_func fname op_i (''call arg count '' @ show_nat (length arg_slice)
                      @ '' != callee params '' @ show_nat (length param_tys))] else []) @
             (if length ret_tys \<noteq> length res_slice
              then [err_in_func fname op_i (''call result count '' @ show_nat (length res_slice)
                      @ '' != callee returns '' @ show_nat (length ret_tys))] else []) @
             type_mismatches f fname op_i ''arg'' ''param'' param_tys arg_slice @
             type_mismatches f fname op_i ''result'' ''return'' ret_tys res_slice)"

text \<open>The registers an operation reads, each with the context named in its error.\<close>

fun checked_operands :: "IrFunction \<Rightarrow> LpirOp \<Rightarrow> (VReg \<times> string) list" where
  "checked_operands f (OpFBin _ _ lhs rhs) = [(lhs, ''lhs''), (rhs, ''rhs'')]"
| "checked_operands f (FdivConstF32 _ lhs _) = [(lhs, ''lhs'')]"
| "checked_operands f (OpFUn _ _ src) = [(src, ''src'')]"
| "checked_operands f (OpIUn _ _ src) = [(src, ''src'')]"
| "checked_operands f (OpIArith _ _ lhs rhs) = [(lhs, ''lhs''), (rhs, ''rhs'')]"
| "checked_operands f (OpFCmp _ _ lhs rhs) = [(lhs, ''lhs''), (rhs, ''rhs'')]"
| "checked_operands f (OpICmp _ _ lhs rhs) = [(lhs, ''lhs''), (rhs, ''rhs'')]"
| "checked_operands f (OpIBit _ _ lhs rhs) = [(lhs, ''lhs''), (rhs, ''rhs'')]"
| "checked_operands f (OpIImm _ _ src _) = [(src, ''src'')]"
| "checked_operands f (OpFtoI _ _ src) = [(src, ''src'')]"
| "checked_operands f (OpItoF _ _ src) = [(src, ''src'')]"
| "checked_operands f (Select _ cond if_true if_false) =
     [(cond, ''select cond''), (if_true, ''select if_true''), (if_false, ''select if_false'')]"
| "checked_operands f (Copy _ src) = [(src, ''copy src'')]"
| "checked_operands f (Load _ base _) = [(base, ''load base'')]"
| "checked_operands f (OpNarrowLoad _ _ base _) = [(base, ''load base'')]"
| "checked_operands f (Store base _ value) = [(base, ''store base''), (value, ''store value'')]"
| "checked_operands f (OpNarrowStore _ base _ value) = [(base, ''store base''), (value, ''store value'')]"
| "checked_operands f (Memcpy dst_addr src_addr _) = [(dst_addr, ''memcpy dst''), (src_addr, ''memcpy src'')]"
| "checked_operands f (IfStart cond _ _) = [(cond, ''if cond'')]"
| "checked_operands f (SwitchStart selector _) = [(selector, ''switch selector'')]"
| "checked_operands f (BrIfNot cond) = [(cond, ''br_if_not cond'')]"
| "checked_operands f (Call _ args _) = map (\<lambda>v. (v, ''call arg'')) (pool_slice f args)"
| "checked_operands f (Return values) = map (\<lambda>v. (v, ''return'')) (pool_slice f values)"
| "checked_operands f _ = []"

definition check_operand ::
    "string \<Rightarrow> nat option \<Rightarrow> bool list \<Rightarrow> VReg \<times> string \<Rightarrow> ValidationError list" where
  "check_operand fname op_i is_defined = (\<lambda>(v, ctx).
     let j = unat v
     in if j \<ge> length is_defined
        then [err_in_func fname op_i (ctx @ '': vreg index '' @ show_u32 v @ '' out of range'')]
        else if \<not> is_defined ! j
        then [err_in_func fname op_i (ctx @ '': v'' @ show_vreg v @ '' used before definition'')]
        else [])"

definition check_op_operands_defined ::
    "IrFunction \<Rightarrow> string \<Rightarrow> nat option \<Rightarrow> LpirOp \<Rightarrow> bool list \<Rightarrow> ValidationError list" where
  "check_op_operands_defined f fname op_i op is_defined =
     concat (map (check_operand fname op_i is_defined) (checked_operands f op))"

definition check_slot_memory_ops ::
    "IrFunction \<Rightarrow> string \<Rightarrow> nat option \<Rightarrow> LpirOp \<Rightarrow> ValidationError list" where
  "check_slot_memory_ops f fname op_i op =
     (case op of
        SlotAddr dst slot \<Rightarrow>
          if unat slot \<ge> length (slots f)
          then [err_in_func fname op_i (''slot_addr references undeclared slot ss'' @ show_u32 slot)]
          else []
      | _ \<Rightarrow> [])"

definition expect_ty ::
    "IrFunction \<Rightarrow> string \<Rightarrow> nat option \<Rightarrow> VReg \<Rightarrow> IrType \<Rightarrow> string \<Rightarrow> ValidationError list" where
  "expect_ty f fname op_i dst ty ctx =
     (let j = unat dst
      in if j \<ge> length (vreg_types f) then []
         else if vreg_types f ! j \<noteq> ty
         then [err_in_func fname op_i (ctx @ '': v'' @ show_u32 dst @ '' has type ''
                 @ debug_ty (vreg_types f ! j) @ '', expected '' @ debug_ty ty)]
         else [])"

definition check_select ::
    "IrFunction \<Rightarrow> string \<Rightarrow> nat option \<Rightarrow> VReg \<Rightarrow> VReg \<Rightarrow> VReg \<Rightarrow> ValidationError list" where
  "check_select fn fname op_i dst if_true if_false =
     (let j = unat dst; t = unat if_true; f = unat if_false; tys = vreg_types fn
      in if j < length tys \<and> t < length tys \<and> f < length tys
         then if tys ! t \<noteq> tys ! f
              then [err_in_func fname op_i (''select arms v'' @ show_vreg if_true @ '' and v''
                      @ show_vreg if_false @ '' have different types'')]
              else if tys ! j \<noteq> tys ! t
              then [err_in_func fname op_i ''select result type does not match arm types'']
              else []
         else [])"

definition check_copy ::
    "IrFunction \<Rightarrow> string \<Rightarrow> nat option \<Rightarrow> VReg \<Rightarrow> VReg \<Rightarrow> ValidationError list" where
  "check_copy f fname op_i dst src =
     (let j = unat dst; s = unat src; tys = vreg_types f
      in if j < length tys \<and> s < length tys \<and> tys ! j \<noteq> tys ! s
         then [err_in_func fname op_i (''copy: v'' @ show_vreg dst @ '' and v'' @ show_vreg src
                 @ '' must have the same type'')]
         else [])"

definition check_slot_addr ::
    "IrFunction \<Rightarrow> string \<Rightarrow> nat option \<Rightarrow> VReg \<Rightarrow> ValidationError list" where
  "check_slot_addr f fname op_i dst =
     (let j = unat dst
      in if j < length (vreg_types f) \<and> vreg_types f ! j \<noteq> I32 \<and> vreg_types f ! j \<noteq> Pointer
         then [err_in_func fname op_i (''slot_addr: v'' @ show_u32 dst @ '' has type ''
                 @ debug_ty (vreg_types f ! j) @ '', expected I32 or Pointer'')]
         else [])"

fun check_opcode_dst_types ::
    "IrFunction \<Rightarrow> string \<Rightarrow> nat option \<Rightarrow> LpirOp \<Rightarrow> ValidationError list" where
  "check_opcode_dst_types f fname op_i (OpFBin _ dst _ _) = expect_ty f fname op_i dst F32 ''float op result''"
| "check_opcode_dst_types f fname op_i (OpFUn _ dst _) = expect_ty f fname op_i dst F32 ''float op result''"
| "check_opcode_dst_types f fname op_i (FconstF32 dst _) = expect_ty f fname op_i dst F32 ''float op result''"
| "check_opcode_dst_types f fname op_i (OpItoF _ dst _) = expect_ty f fname op_i dst F32 ''float op result''"
| "check_opcode_dst_types f fname op_i (FdivConstF32 dst lhs _) =
     expect_ty f fname op_i dst F32 ''float op result'' @
     (if unat lhs < length (vreg_types f) \<and> vreg_types f ! unat lhs \<noteq> F32
      then [err_in_func fname op_i (''fdiv_const.f32 lhs: v'' @ show_u32 lhs @ '' has type ''
              @ debug_ty (vreg_types f ! unat lhs) @ '', expected F32'')] else [])"
| "check_opcode_dst_types f fname op_i (OpIArith _ dst _ _) = expect_ty f fname op_i dst I32 ''integer op result''"
| "check_opcode_dst_types f fname op_i (OpIUn _ dst _) = expect_ty f fname op_i dst I32 ''integer op result''"
| "check_opcode_dst_types f fname op_i (OpFCmp _ dst _ _) = expect_ty f fname op_i dst I32 ''integer op result''"
| "check_opcode_dst_types f fname op_i (OpICmp _ dst _ _) = expect_ty f fname op_i dst I32 ''integer op result''"
| "check_opcode_dst_types f fname op_i (OpIBit _ dst _ _) = expect_ty f fname op_i dst I32 ''integer op result''"
| "check_opcode_dst_types f fname op_i (IconstI32 dst _) = expect_ty f fname op_i dst I32 ''integer op result''"
| "check_opcode_dst_types f fname op_i (OpIImm _ dst _ _) = expect_ty f fname op_i dst I32 ''integer op result''"
| "check_opcode_dst_types f fname op_i (OpFtoI _ dst _) = expect_ty f fname op_i dst I32 ''integer op result''"
| "check_opcode_dst_types f fname op_i (Select dst _ if_true if_false) =
     check_select f fname op_i dst if_true if_false"
| "check_opcode_dst_types f fname op_i (Copy dst src) = check_copy f fname op_i dst src"
| "check_opcode_dst_types f fname op_i (SlotAddr dst _) = check_slot_addr f fname op_i dst"
| "check_opcode_dst_types f fname op_i (OpNarrowLoad _ dst _ _) =
     expect_ty f fname op_i dst I32 ''narrow load result''"
| "check_opcode_dst_types f fname op_i (OpNarrowStore _ _ _ value) =
     expect_ty f fname op_i value I32 ''narrow store value''"
| "check_opcode_dst_types f fname op_i _ = []"

text \<open>The registers an operation writes.\<close>

fun op_defs :: "IrFunction \<Rightarrow> LpirOp \<Rightarrow> VReg list" where
  "op_defs f (OpFBin _ dst _ _) = [dst]"
| "op_defs f (FdivConstF32 dst _ _) = [dst]"
| "op_defs f (OpFUn _ dst _) = [dst]"
| "op_defs f (OpIArith _ dst _ _) = [dst]"
| "op_defs f (OpIUn _ dst _) = [dst]"
| "op_defs f (OpFCmp _ dst _ _) = [dst]"
| "op_defs f (OpICmp _ dst _ _) = [dst]"
| "op_defs f (OpIBit _ dst _ _) = [dst]"
| "op_defs f (FconstF32 dst _) = [dst]"
| "op_defs f (IconstI32 dst _) = [dst]"
| "op_defs f (OpIImm _ dst _ _) = [dst]"
| "op_defs f (OpFtoI _ dst _) = [dst]"
| "op_defs f (OpItoF _ dst _) = [dst]"
| "op_defs f (Select dst _ _ _) = [dst]"
| "op_defs f (Copy dst _) = [dst]"
| "op_defs f (SlotAddr dst _) = [dst]"
| "op_defs f (Load dst _ _) = [dst]"
| "op_defs f (OpNarrowLoad _ dst _ _) = [dst]"
| "op_defs f (Call _ _ results) = pool_slice f results"
| "op_defs f _ = []"

text \<open>A register out of range is not marked: \<open>xs[i := x]\<close> is \<open>xs\<close> there.\<close>

definition mark_op_defs :: "IrFunction \<Rightarrow> LpirOp \<Rightarrow> bool list \<Rightarrow> bool list" where
  "mark_op_defs f op is_defined = fold (\<lambda>v d. d[unat v := True]) (op_defs f op) is_defined"

text \<open>The first match of the loop: jumps need their target to be open.\<close>

fun check_jump :: "string \<Rightarrow> nat \<Rightarrow> LpirOp \<Rightarrow> StackEntry list \<Rightarrow> ValidationError list" where
  "check_jump fname i ExitBlock stack =
     (if \<not> has_enclosing_block stack then [err_in_func fname (Some i) ''exit_block outside block''] else [])"
| "check_jump fname i Break stack =
     (if innermost_loop stack = None
      then [err_in_func fname (Some i) ''break/continue/br_if_not outside loop''] else [])"
| "check_jump fname i (BrIfNot _) stack =
     (if innermost_loop stack = None
      then [err_in_func fname (Some i) ''break/continue/br_if_not outside loop''] else [])"
| "check_jump fname i Continue stack =
     (case innermost_loop stack of
        None \<Rightarrow> [err_in_func fname (Some i) ''break/continue/br_if_not outside loop'']
      | Some (loop_start, continuing_offset) \<Rightarrow>
          (let co = unat continuing_offset
           in if co > loop_start + 1 \<and> i \<ge> co
              then [err_in_func fname (Some i) ''continue inside continuing section''] else []))"
| "check_jump fname i _ stack = []"

text \<open>The second match of the loop: control structures open and close, calls and returns agree with
  the signatures.\<close>

fun check_structure ::
    "IrFunction \<Rightarrow> LpirModule \<Rightarrow> string \<Rightarrow> nat \<Rightarrow> LpirOp \<Rightarrow> StackEntry list \<Rightarrow>
       ValidationError list \<times> StackEntry list" where
  "check_structure f md fname i (IfStart _ _ _) stack = ([], SeIf # stack)"
| "check_structure f md fname i Else stack =
     (case stack of
        SeIf # rest \<Rightarrow> ([], SeElse # rest)
      | _ \<Rightarrow> ([err_in_func fname (Some i) ''`else` without matching `if`''], tl stack))"
| "check_structure f md fname i (LoopStart continuing_offset end_offset) stack =
     ((if unat continuing_offset < i + 1
       then [err_in_func fname (Some i) ''LoopStart continuing_offset before body start''] else []) @
      (if end_offset > 0 \<and> continuing_offset \<ge> end_offset
       then [err_in_func fname (Some i) ''LoopStart continuing_offset >= end_offset''] else []),
      SeLoop i continuing_offset # stack)"
| "check_structure f md fname i (Block end_offset) stack =
     ((if end_offset = 0 then [err_in_func fname (Some i) ''Block end_offset is zero (not patched)'']
       else if unat end_offset > length (body f)
       then [err_in_func fname (Some i) ''Block end_offset past function body'']
       else if unat end_offset \<le> i + 1
       then [err_in_func fname (Some i) ''Block end_offset must follow block header''] else []),
      SeBlock # stack)"
| "check_structure f md fname i (SwitchStart _ _) stack = ([], SeSwitch vs_new False # stack)"
| "check_structure f md fname i (CaseStart value _) stack =
     (case stack of
        SeSwitch cases default_arm # rest \<Rightarrow>
          (let (fresh, cases) = vs_insert cases (sint value)
           in ((if \<not> fresh
                then [err_in_func fname (Some i) (''duplicate switch case value '' @ show_i32 value)] else []),
               SeArm # SeSwitch cases default_arm # rest))
      | _ \<Rightarrow> ([err_in_func fname (Some i) ''`case` outside `switch`''], SeArm # stack))"
| "check_structure f md fname i (DefaultStart _) stack =
     (case stack of
        SeSwitch cases default_arm # rest \<Rightarrow>
          if default_arm
          then ([err_in_func fname (Some i) ''duplicate `default` arm in switch''], stack)
          else ([], SeArm # SeSwitch cases True # rest)
      | _ \<Rightarrow> ([err_in_func fname (Some i) ''`default` outside `switch`''], stack))"
| "check_structure f md fname i End stack =
     ((if stack = [] then [err_in_func fname (Some i) ''`End` underflow (extra closing brace)''] else []),
      tl stack)"
| "check_structure f md fname i (Call callee args results) stack =
     (validate_call f md fname (Some i) callee args results, stack)"
| "check_structure f md fname i (Return values) stack =
     (check_return_value_types f fname (Some i) values, stack)"
| "check_structure f md fname i _ stack = ([], stack)"

definition op_checks ::
    "IrFunction \<Rightarrow> LpirModule \<Rightarrow> string \<Rightarrow> nat \<Rightarrow> LpirOp \<Rightarrow> bool list \<Rightarrow> StackEntry list \<Rightarrow>
       ValidationError list" where
  "op_checks f md fname i op is_defined stack =
     check_jump fname i op stack @
     check_op_operands_defined f fname (Some i) op is_defined @
     check_slot_memory_ops f fname (Some i) op @
     check_opcode_dst_types f fname (Some i) op @
     fst (check_structure f md fname i op stack)"

fun validate_ops ::
    "IrFunction \<Rightarrow> LpirModule \<Rightarrow> string \<Rightarrow> nat \<Rightarrow> LpirOp list \<Rightarrow> bool list \<Rightarrow> StackEntry list \<Rightarrow>
       ValidationError list \<times> StackEntry list" where
  "validate_ops f md fname i [] is_defined stack = ([], stack)"
| "validate_ops f md fname i (op # ops) is_defined stack =
     (let (errs, stack') = validate_ops f md fname (i + 1) ops (mark_op_defs f op is_defined)
            (snd (check_structure f md fname i op stack))
      in (op_checks f md fname i op is_defined stack @ errs, stack'))"

definition params_defined :: "IrFunction \<Rightarrow> bool list" where
  "params_defined f =
     (let vm = unat (vmctx_vreg f); h = unat (hidden_param_slots f);
          d = (replicate (length (vreg_types f)) False)[vm := True];
          d = (case sret_arg f of None \<Rightarrow> d | Some sv \<Rightarrow> d[unat sv := True])
      in fold (\<lambda>i d. d[vm + h + i := True]) [0..<unat (param_count f)] d)"

definition validate_function_inner :: "IrFunction \<Rightarrow> LpirModule \<Rightarrow> ValidationError list" where
  "validate_function_inner f md =
     (let fname = fn_name f; vm = unat (vmctx_vreg f);
          (errs, stack) = validate_ops f md fname 0 (body f) (params_defined f) []
      in pool_bounds f fname @
         (if vm < length (vreg_types f) \<and> vreg_types f ! vm \<noteq> Pointer
          then [err_in_func fname None (''vmctx v'' @ show_u32 (vmctx_vreg f)
                  @ '' must have type ptr, got '' @ debug_ty (vreg_types f ! vm))] else []) @
         validate_sret_function_invariants f fname @
         errs @
         (if stack \<noteq> []
          then [err_in_func fname None (''unclosed control structure (stack depth ''
                  @ show_nat (length stack) @ '')'')] else []))"

definition verdict :: "ValidationError list \<Rightarrow> ValidationError list + unit" where
  "verdict errs = (if errs = [] then Inr () else Inl errs)"

definition validate_function :: "IrFunction \<Rightarrow> LpirModule \<Rightarrow> ValidationError list + unit" where
  "validate_function f md = verdict (validate_function_inner f md)"

section \<open>Modules\<close>

fun validate_functions ::
    "LpirModule \<Rightarrow> IrFunction list \<Rightarrow> u32 \<Rightarrow> string list \<Rightarrow> ValidationError list" where
  "validate_functions md [] entry seen_names =
     (if entry > 1 then [err_module ''at most one entry func''] else [])"
| "validate_functions md (f # fs) entry seen_names =
     (if fn_name f \<in> set seen_names
      then [err_in_func (fn_name f) None (''duplicate function @'' @ fn_name f)] else []) @
     validate_function_inner f md @
     validate_functions md fs (if is_entry f then entry + 1 else entry) (seen_names @ [fn_name f])"

definition validate_module :: "LpirModule \<Rightarrow> ValidationError list + unit" where
  "validate_module md =
     verdict (validate_imports md @ validate_functions md (vm_values (mod_functions md)) 0 [])"

end
