(* ===== verification/Lpir_Typing.thy ===== *)
theory Lpir_Typing
  imports Lpir_Validate
begin

text \<open>
  What an accepted module promises to the interpreter. The validator does not check the types of
  operands, so a run may still fail on a value of the wrong kind; but no run ever puts a value of the
  wrong kind into a register or returns one.
\<close>

section \<open>Typed registers\<close>

definition has_ty :: "Value option \<Rightarrow> IrType \<Rightarrow> bool" where
  "has_ty r ty = (case r of None \<Rightarrow> False | Some v \<Rightarrow> value_has_type v ty)"

definition regs_typed :: "IrFunction \<Rightarrow> Regs \<Rightarrow> bool" where
  "regs_typed f regs = list_all2 has_ty regs (vreg_types f)"

text \<open>What the checks at one operation amount to.\<close>

definition op_valid :: "IrFunction \<Rightarrow> LpirModule \<Rightarrow> LpirOp \<Rightarrow> bool" where
  "op_valid f md op \<longleftrightarrow> (\<exists>fname i d stack. length d = length (vreg_types f) \<and>
     op_checks f md fname i op d stack = [] \<and> pool_bounds_op f fname i op = [])"

definition function_valid :: "IrFunction \<Rightarrow> LpirModule \<Rightarrow> bool" where
  "function_valid f md \<longleftrightarrow> (\<forall>op \<in> set (body f). op_valid f md op)"

text \<open>Import handlers return values of the declared types.\<close>

definition imports_typed :: "'s Host \<Rightarrow> LpirModule \<Rightarrow> bool" where
  "imports_typed h md \<longleftrightarrow> (\<forall>imp \<in> set (mod_imports md). \<forall>st args vs st'.
     import_call h st (imp_module_name imp) (imp_func_name imp) args = (Inr vs, st') \<longrightarrow>
       list_all2 value_has_type vs (imp_return_types imp))"

section \<open>Registers\<close>

lemma value_has_type_simps [simp]:
  "value_has_type (VF32 x) ty \<longleftrightarrow> ty = F32"
  "value_has_type (VI32 i) ty \<longleftrightarrow> ty = I32 \<or> ty = Pointer"
  by (simp_all add: value_has_type_def)

lemma has_ty_Some [simp]: "has_ty (Some v) ty = value_has_type v ty"
  by (simp add: has_ty_def)

lemma set_at_typed:
  assumes "regs_typed f regs" and "set_at regs i v = Inr regs'"
    and "i < length (vreg_types f) \<Longrightarrow> value_has_type v (vreg_types f ! i)"
  shows "regs_typed f regs'"
  using assms by (auto simp: regs_typed_def set_at_def list_all2_conv_all_nth nth_list_update split: if_splits)

lemma set_reg_typed:
  assumes "regs_typed f regs" and "set_reg regs d v = Inr regs'"
    and "unat d < length (vreg_types f) \<Longrightarrow> value_has_type v (vreg_types f ! unat d)"
  shows "regs_typed f regs'"
  using assms by (auto simp: set_reg_def intro: set_at_typed)

lemma get_reg_typed:
  assumes "regs_typed f regs" and "get_reg regs v = Inr x"
  shows "unat v < length (vreg_types f) \<and> value_has_type x (vreg_types f ! unat v)"
  using assms
  by (auto simp: regs_typed_def get_reg_def list_all2_conv_all_nth has_ty_def split: if_splits option.splits)

lemma get_regs_typed:
  assumes "regs_typed f regs" and "get_regs regs vregs = Inr xs"
  shows "list_all2 (\<lambda>v x. unat v < length (vreg_types f) \<and> value_has_type x (vreg_types f ! unat v)) vregs xs"
  using assms(2)
proof (induction vregs arbitrary: xs)
  case (Cons v vregs)
  then show ?case using get_reg_typed [OF assms(1)] by (auto simp: result_simps)
qed simp

lemma set_regs_typed:
  assumes "regs_typed f regs" and "set_regs regs (zip vregs xs) = Inr regs'" and "length vregs = length xs"
    and "\<And>k. k < length xs \<Longrightarrow> unat (vregs ! k) < length (vreg_types f) \<Longrightarrow>
      value_has_type (xs ! k) (vreg_types f ! unat (vregs ! k))"
  shows "regs_typed f regs'"
  using assms(3,1,2,4)
proof (induction vregs xs arbitrary: regs rule: list_induct2)
  case (Cons v vregs x xs)
  obtain r where r: "set_reg regs v x = Inr r" "set_regs r (zip vregs xs) = Inr regs'"
    using Cons.prems(2) by (auto simp: result_simps)
  have "regs_typed f r"
    using Cons.prems(1) r(1) Cons.prems(3) [of 0] by (auto intro: set_reg_typed)
  then show ?case
    using r(2) Cons.prems(3) [of "Suc _"] by (intro Cons.IH) auto
qed simp

section \<open>What the checks say\<close>

lemma no_error_iff [simp]: "(if P then [e] else []) = [] \<longleftrightarrow> \<not> P"
  by simp

lemma concat_map_Nil: "concat (map g xs) = [] \<longleftrightarrow> (\<forall>x \<in> set xs. g x = [])"
  by (induction xs) auto

lemma enumerate_all: "(\<forall>x \<in> set (enumerate 0 xs). P x) \<longleftrightarrow> (\<forall>k < length xs. P (k, xs ! k))"
  by (auto simp: in_set_enumerate_eq)

lemma expect_ty_Nil:
  "expect_ty f fname op_i d ty ctx = [] \<longleftrightarrow> (unat d < length (vreg_types f) \<longrightarrow> vreg_types f ! unat d = ty)"
  by (auto simp: expect_ty_def Let_def)

lemma type_mismatches_Nil:
  "type_mismatches f fname op_i what decl tys vregs = [] \<longleftrightarrow>
     (\<forall>k < length vregs. k < length tys \<longrightarrow> unat (vregs ! k) < length (vreg_types f) \<longrightarrow>
        vreg_types f ! unat (vregs ! k) = tys ! k)"
  by (auto simp: type_mismatches_def concat_map_Nil enumerate_all Let_def)

lemma check_return_value_types_Nil:
  assumes "check_return_value_types f fname op_i r = []" and "length (pool_slice f r) = unat (vr_count r)"
    and "k < length (pool_slice f r)" and "k < length (return_types f)"
    and "unat (pool_slice f r ! k) < length (vreg_types f)"
  shows "vreg_types f ! unat (pool_slice f r ! k) = return_types f ! k"
  using assms by (auto simp: check_return_value_types_def concat_map_Nil enumerate_all Let_def)

lemma check_operands_Nil:
  "check_op_operands_defined f fname op_i op d = [] \<Longrightarrow>
     \<forall>(v, c) \<in> set (checked_operands f op). unat v < length d"
  by (auto simp: check_op_operands_defined_def check_operand_def concat_map_Nil Let_def split: if_splits)

lemma op_valid_parts:
  assumes "op_valid f md op"
  obtains fname i stack where "check_opcode_dst_types f fname (Some i) op = []"
    "\<forall>(v, c) \<in> set (checked_operands f op). unat v < length (vreg_types f)"
    "fst (check_structure f md fname i op stack) = []" "pool_bounds_op f fname i op = []"
  using assms check_operands_Nil by (auto simp: op_valid_def op_checks_def) metis

section \<open>Operations keep the types\<close>

lemma eval_pure_typed:
  assumes "regs_typed f regs" and "eval_pure h slot_off op regs = Inr regs'"
    and "check_opcode_dst_types f fname op_i op = []"
    and "\<forall>(v, c) \<in> set (checked_operands f op). unat v < length (vreg_types f)"
  shows "regs_typed f regs'"
proof (cases op)
  case (Select dst cond if_true if_false)
  with assms(2) obtain c v where v: "(if c then get_reg regs if_true else get_reg regs if_false) = Inr v"
    "set_reg regs dst v = Inr regs'" by (auto simp: result_simps)
  have "value_has_type v (vreg_types f ! unat dst)" if "unat dst < length (vreg_types f)"
    using assms(3,4) Select that v(1) get_reg_typed [OF assms(1), of _ v]
    by (auto simp: check_select_def Let_def split: if_splits) metis
  with assms(1) v(2) show ?thesis by (rule set_reg_typed)
next
  case (Copy dst src)
  then show ?thesis
    using assms get_reg_typed [OF assms(1)]
    by (auto simp: result_simps check_copy_def Let_def split: if_splits intro: set_reg_typed)
next
  case (SlotAddr dst slot)
  then show ?thesis
    using assms by (auto simp: check_slot_addr_def Let_def split: if_splits intro: set_reg_typed)
qed (use assms in \<open>auto simp: result_simps expect_ty_Nil intro: set_reg_typed\<close>)

lemma eval_load_typed:
  assumes "regs_typed f regs" and "eval_load f regs mem dst base offset = Inr regs'"
  shows "regs_typed f regs'"
  using assms
  by (auto simp: eval_load_def result_simps split: if_splits IrType.splits intro: set_reg_typed)

lemma eval_op_typed:
  assumes "regs_typed f regs" and "eval_op h f slot_off op regs mem = Inr (regs', mem')"
    and "op_valid f md op"
  shows "regs_typed f regs'"
proof -
  obtain fname i where c: "check_opcode_dst_types f fname (Some i) op = []"
    "\<forall>(v, c) \<in> set (checked_operands f op). unat v < length (vreg_types f)"
    using op_valid_parts [OF assms(3)] .
  note pure = eval_pure_typed [OF assms(1) _ c]
  show ?thesis
  proof (cases op)
    case (Load dst base offset)
    then show ?thesis using assms(1,2) by (auto simp: result_simps intro: eval_load_typed)
  next
    case (OpNarrowLoad w dst base offset)
    then show ?thesis
      using assms(1,2) c(1) by (auto simp: result_simps expect_ty_Nil intro: set_reg_typed)
  qed (use assms(1,2) pure in \<open>auto simp: result_simps simp del: eval_pure.simps\<close>)
qed


lemma step_op_typed:
  assumes "step_op h fr mem op = Some (Goto fr' mem')" and "regs_typed (fr_func fr) (fr_regs fr)"
    and "op_valid (fr_func fr) md op"
  shows "regs_typed (fr_func fr) (fr_regs fr')"
proof -
  have jump: "fr_regs fr' = fr_regs fr" if "jump fr pc ctrl mem = Goto fr' mem'" for pc ctrl
    using that by (auto simp: jump_def)
  have jump_or: "fr_regs fr' = fr_regs fr" if "jump_or fr t msg mem = Goto fr' mem'" for t msg
    using that by (auto simp: jump_or_def dest: jump split: option.splits)
  have data: "regs_typed (fr_func fr) (fr_regs fr')"
    if "fail_or (eval_op h (fr_func fr) (fr_slot_off fr) op (fr_regs fr) mem)
       (\<lambda>(regs, mem). Goto (fr\<lparr>fr_regs := regs, fr_pc := fr_pc fr + 1\<rparr>) mem) = Goto fr' mem'"
    using fail_or_Goto [OF that] eval_op_typed [OF assms(2) _ assms(3)] by auto
  have sw: "fr_regs fr' = fr_regs fr" if "step_switch fr mem selector off = Some (Goto fr' mem')" for selector off
    using that by (auto simp: step_switch_def Let_def dest: jump split: sum.splits option.splits)
  have si: "fr_regs fr' = fr_regs fr" if "step_if fr mem c e m = Goto fr' mem'" for c e m
    using that by (auto simp: step_if_def Let_def dest!: fail_or_Goto dest: jump split: if_splits)
  have se: "fr_regs fr' = fr_regs fr" if "step_end fr mem = Goto fr' mem'"
    using that by (auto simp: step_end_def dest: jump split: list.splits Ctrl.splits if_splits)
  note regs = jump jump_or sw si se
  show ?thesis
    using assms(1,2) data
    by (cases op) (auto simp del: eval_op.simps dest!: fail_or_Goto regs split: list.splits Ctrl.splits if_splits)
qed

lemma exec_step_typed:
  assumes "exec_step h fr mem = Some (Goto fr' mem')" and "regs_typed (fr_func fr) (fr_regs fr)"
    and "function_valid (fr_func fr) md" and "fr_pc fr < length (body (fr_func fr))"
  shows "regs_typed (fr_func fr) (fr_regs fr')"
proof -
  have "op_valid (fr_func fr) md (body (fr_func fr) ! fr_pc fr)"
    using assms(3,4) by (auto simp: function_valid_def)
  from step_op_typed [OF _ assms(2) this] assms(1,2) show ?thesis
    by (auto simp: exec_step_def jump_def split: list.splits Ctrl.splits if_splits)
qed


section \<open>Calls and returns keep the types\<close>

lemma exec_step_Finish:
  assumes "exec_step h fr mem = Some (Finish vs)"
  obtains vals where "body (fr_func fr) ! fr_pc fr = Return vals"
    "get_regs (fr_regs fr) (pool_slice (fr_func fr) vals) = Inr vs"
proof -
  have "step_op h fr mem (body (fr_func fr) ! fr_pc fr) = Some (Finish vs)"
    using assms by (auto simp: exec_step_def jump_def split: list.splits Ctrl.splits if_splits)
  then show ?thesis
    using that
    by (cases "body (fr_func fr) ! fr_pc fr")
      (auto simp: step_if_def step_end_def step_switch_def jump_def jump_or_def fail_or_def Let_def
        simp del: eval_op.simps split: sum.splits option.splits list.splits Ctrl.splits if_splits)
qed

lemma return_typed:
  assumes "op_valid f md (Return values)" and "regs_typed f regs"
    and "get_regs regs (pool_slice f values) = Inr vs"
  shows "list_all2 value_has_type vs (return_types f)"
proof -
  obtain fname i where "check_return_value_types f fname (Some i) values = []"
    and p: "pool_bounds_op f fname i (Return values) = []"
    by (rule op_valid_parts [OF assms(1)]) auto
  note types = check_return_value_types_Nil [OF this(1)]
  from p have n: "length (return_types f) = unat (vr_count values)"
    and "unat (vr_start values) + unat (vr_count values) \<le> length (vreg_pool f)"
    by (auto simp: pool_bounds_op_def Let_def split: if_splits)
  then have len: "length (pool_slice f values) = unat (vr_count values)" by (simp add: length_pool_slice)
  show ?thesis
    using get_regs_typed [OF assms(2,3)] types [OF len] len n
    by (auto simp: list_all2_conv_all_nth)
qed

lemma call_checked:
  assumes "op_valid f md (Call callee args results)"
  obtains fname i param_tys ret_tys where "callee_types md fname (Some i) callee = Inr (param_tys, ret_tys)"
    "length param_tys = length (pool_slice f args)" "length ret_tys = length (pool_slice f results)"
    "type_mismatches f fname (Some i) ''arg'' ''param'' param_tys (pool_slice f args) = []"
    "type_mismatches f fname (Some i) ''result'' ''return'' ret_tys (pool_slice f results) = []"
proof -
  obtain fname i where c: "validate_call f md fname (Some i) callee args results = []"
    and p: "pool_bounds_op f fname i (Call callee args results) = []"
    by (rule op_valid_parts [OF assms]) auto
  from p have "length (pool_slice f args) = unat (vr_count args)"
    "length (pool_slice f results) = unat (vr_count results)"
    by (auto simp: pool_bounds_op_def Let_def length_pool_slice split: if_splits)
  with c that show ?thesis
    by (auto simp: validate_call_def Let_def split: sum.splits)
qed

lemma init_params_typed:
  assumes "init_params vm args is regs = Inr regs'" and "regs_typed f regs"
    and "\<forall>i \<in> set is. vm + i < length (vreg_types f) \<longrightarrow> value_has_type (args ! i) (vreg_types f ! (vm + i))"
  shows "regs_typed f regs'"
  using assms
proof (induction "is" arbitrary: regs)
  case (Cons i "is")
  then obtain r where r: "set_at regs (vm + i) (args ! i) = Inr r" "init_params vm args is r = Inr regs'"
    by (auto simp: result_simps)
  then have "regs_typed f r"
    using Cons.prems(2,3) by (auto intro: set_at_typed)
  then show ?case using Cons r by auto
qed simp

lemma zero_regs_typed: "regs_typed f (map (\<lambda>ty. Some (zero_value ty)) (vreg_types f))"
  by (auto simp: regs_typed_def list_all2_conv_all_nth zero_value_def split: IrType.splits)

lemma enter_func_typed:
  assumes "enter_func f args depth max_d stack = Inr (fr, mem)"
    and "\<And>i. i < length args \<Longrightarrow> unat (vmctx_vreg f) + i < length (vreg_types f) \<Longrightarrow>
      value_has_type (args ! i) (vreg_types f ! (unat (vmctx_vreg f) + i))"
  shows "regs_typed f (fr_regs fr)"
proof -
  define h where "h = unat (hidden_param_slots f)"
  have "1 \<le> h" by (simp add: h_def hidden_param_slots_unat)
  moreover have "length args = h + unat (param_count f)"
    and init: "init_params (unat (vmctx_vreg f)) args
      ([0] @ [1..<h] @ map (\<lambda>i. h + i) [0..<unat (param_count f)])
      (map (\<lambda>ty. Some (zero_value ty)) (vreg_types f)) = Inr (fr_regs fr)"
    using assms(1) by (auto simp: enter_func_def Let_def result_simps h_def split: if_splits)
  ultimately show ?thesis
    using assms(2) assms(2) [of 0] by (intro init_params_typed [OF init zero_regs_typed]) auto
qed

lemma local_call_typed:
  assumes "op_valid f md (Call callee args results)" and "regs_typed f regs"
    and "get_regs regs (pool_slice f args) = Inr call_args" and "callee_as_function md callee = Some g"
    and "local_call_enter limits depth g call_args stack = Inr (fr, mem)"
  shows "regs_typed g (fr_regs fr)"
proof -
  define vm where "vm = unat (vmctx_vreg g)"
  define n where "n = unat (hidden_param_slots g) + unat (param_count g)"
  obtain fid where fid: "callee = CalleeLocal fid" "vm_get (mod_functions md) fid = Some g"
    using assms(4) by (auto simp: callee_as_function_def split: CalleeRef.splits)
  obtain fname i param_tys ret_tys where "callee_types md fname (Some i) callee = Inr (param_tys, ret_tys)"
    and len: "length param_tys = length (pool_slice f args)"
    and types: "type_mismatches f fname (Some i) ''arg'' ''param'' param_tys (pool_slice f args) = []"
    by (rule call_checked [OF assms(1)])
  then have p: "param_tys = take (vm + n) (vreg_types g)" "vm + n \<le> length (vreg_types g)"
    using fid by (auto simp: callee_types_def Let_def vm_def n_def add.assoc split: if_splits)
  have args: "length call_args = n" and enter: "enter_func g call_args (depth + 1) (max_depth limits) stack = Inr (fr, mem)"
    using assms(5) by (auto simp: local_call_enter_def Let_def n_def split: if_splits)
  note typed = get_regs_typed [OF assms(2,3)]
  then have "length (pool_slice f args) = n" using args by (simp add: list_all2_lengthD)
  with len p have "vm = 0" by simp
  have "value_has_type (call_args ! k) (vreg_types g ! k)" if "k < n" for k
    using types typed that len p args \<open>vm = 0\<close>
    by (auto simp: type_mismatches_Nil list_all2_conv_all_nth)
  with enter_func_typed [OF enter] args \<open>vm = 0\<close> show ?thesis by (simp add: vm_def)
qed

lemma call_return_typed:
  assumes "op_valid (fr_func fr) md (Call callee args results)"
    and "regs_typed (fr_func fr) (fr_regs fr)" and "call_return fr results res = Inr fr'"
    and "\<And>fname op_i param_tys ret_tys. callee_types md fname op_i callee = Inr (param_tys, ret_tys) \<Longrightarrow>
      res = [] \<or> list_all2 value_has_type res ret_tys"
  shows "regs_typed (fr_func fr) (fr_regs fr')"
proof -
  obtain fname i param_tys ret_tys where c: "callee_types md fname (Some i) callee = Inr (param_tys, ret_tys)"
    and len: "length ret_tys = length (pool_slice (fr_func fr) results)"
    and types: "type_mismatches (fr_func fr) fname (Some i) ''result'' ''return'' ret_tys
      (pool_slice (fr_func fr) results) = []"
    by (rule call_checked [OF assms(1)])
  have "length res = length (pool_slice (fr_func fr) results)"
    and "set_regs (fr_regs fr) (zip (pool_slice (fr_func fr) results) res) = Inr (fr_regs fr')"
    using assms(3) by (auto simp: call_return_def Let_def result_simps split: if_splits)
  with assms(2) show ?thesis
    using types len assms(4) [OF c]
    by (elim set_regs_typed) (auto simp: type_mismatches_Nil list_all2_conv_all_nth)
qed

section \<open>Runs keep the types\<close>

lemma exec_loop_typed:
  assumes "\<forall>f \<in> set (vm_values (mod_functions md)). function_valid f md" and "imports_typed h md"
  shows "exec_loop clock h md limits depth fr run = Some (Inr vs, run') \<Longrightarrow>
    function_valid (fr_func fr) md \<Longrightarrow> regs_typed (fr_func fr) (fr_regs fr) \<Longrightarrow>
    vs = [] \<or> list_all2 value_has_type vs (return_types (fr_func fr))"
proof (induction clock arbitrary: depth fr run vs run')
  case (Suc clock)
  from Suc.prems(1) show ?case
  proof (cases rule: exec_loop_cases)
    case (goto fuel' fr' mem)
    have "fr_func fr' = fr_func fr" using exec_step_Goto [OF goto(3)] by (simp add: same_frame_def)
    moreover have "regs_typed (fr_func fr) (fr_regs fr')"
      using exec_step_typed [OF goto(3) Suc.prems(3,2) goto(1)] .
    ultimately show ?thesis using Suc.IH [OF goto(4)] Suc.prems(2) by simp
  next
    case (finish fuel' vs')
    obtain vals where v: "body (fr_func fr) ! fr_pc fr = Return vals"
      "get_regs (fr_regs fr) (pool_slice (fr_func fr) vals) = Inr vs'"
      by (rule exec_step_Finish [OF finish(3)])
    then have "op_valid (fr_func fr) md (Return vals)"
      using Suc.prems(2) finish(1) by (metis function_valid_def nth_mem)
    from return_typed [OF this Suc.prems(3) v(2)] finish(4) show ?thesis by simp
  next
    case (call fuel' callee args results call_args res run'' fr')
    have op: "op_valid (fr_func fr) md (Call callee args results)"
      using exec_step_Invoke [OF call(3)] Suc.prems(2) call(1) by (metis function_valid_def nth_mem)
    have "res = [] \<or> list_all2 value_has_type res ret_tys"
      if c: "callee_types md fname op_i callee = Inr (param_tys, ret_tys)" for fname op_i param_tys ret_tys
    proof (cases "resolve_call h md limits depth callee call_args (run\<lparr>run_fuel := fuel'\<rparr>)")
      case (Done r rn)
      then have d: "resolve_call h md limits depth callee call_args (run\<lparr>run_fuel := fuel'\<rparr>) = Done (Inr res) run''"
        using call(5) by simp
      show ?thesis
      proof (cases callee)
        case (CalleeImport i)
        define imp where "imp = mod_imports md ! unat i"
        from CalleeImport c have i: "unat i < length (mod_imports md)" and r: "ret_tys = imp_return_types imp"
          by (auto simp: callee_types_def Let_def imp_def split: if_splits)
        then have "imp \<in> set (mod_imports md)" by (simp add: imp_def)
        moreover have "\<exists>st. import_call h (run_imports run) (imp_module_name imp) (imp_func_name imp) call_args = (Inr res, st)"
          using d CalleeImport i
          by (auto simp: resolve_call_def callee_as_import_def Let_def imp_def split: prod.splits)
        ultimately show ?thesis using assms(2) unfolding imports_typed_def r by blast
      next
        case (CalleeLocal fid)
        with d show ?thesis
          by (auto simp: resolve_call_def callee_as_import_def Let_def split: option.splits sum.splits)
      qed
    next
      case (Enter fr2 mem)
      then obtain g where g: "callee_as_function md callee = Some g"
        "local_call_enter limits depth g call_args (run_stack run) = Inr (fr2, mem)"
        by (auto elim: resolve_call_Enter)
      then have mem: "g \<in> set (vm_values (mod_functions md))"
        by (auto simp: callee_as_function_def split: CalleeRef.splits dest: vm_get_in_values)
      have fr2: "fr_func fr2 = g" by (rule local_call_enter_frame(3) [OF g(2)])
      have "exec_loop clock h md limits (depth + 1) fr2 (run\<lparr>run_fuel := fuel', run_stack := mem\<rparr>) = Some (Inr res, run'')"
        using call(5) Enter by simp
      from Suc.IH [OF this] have "res = [] \<or> list_all2 value_has_type res (return_types g)"
        using local_call_typed [OF op Suc.prems(3) call(4) g] assms(1) mem by (auto simp: fr2)
      moreover have "ret_tys = return_types g"
        using c g(1) by (auto simp: callee_types_def callee_as_function_def Let_def split: CalleeRef.splits if_splits)
      ultimately show ?thesis by simp
    qed
    then have "regs_typed (fr_func fr) (fr_regs fr')"
      by (intro call_return_typed [OF op Suc.prems(3) call(6)])
    moreover have "fr_func fr' = fr_func fr" using call_return_frame [OF call(6)] by (simp add: same_frame_def)
    ultimately show ?thesis using Suc.IH [OF call(7)] Suc.prems(2) by simp
  qed (use Suc.prems in auto)
qed simp


section \<open>Acceptance\<close>

lemma length_mark_op_defs: "length (mark_op_defs f op d) = length d"
proof -
  have "length (fold (\<lambda>v d. d[unat v := True]) vs d) = length d" for vs
    by (induction vs arbitrary: d) simp_all
  then show ?thesis by (simp add: mark_op_defs_def)
qed

lemma length_params_defined: "length (params_defined f) = length (vreg_types f)"
proof -
  have "length (fold (\<lambda>i d. d[k + i := True]) ks d) = length d" for k ks and d :: "bool list"
    by (induction ks arbitrary: d) simp_all
  then show ?thesis by (simp add: params_defined_def Let_def split: option.split)
qed

lemma validate_ops_nth:
  assumes "fst (validate_ops f md fname i ops d stack) = []" and "k < length ops"
  shows "\<exists>d' stack'. length d' = length d \<and> op_checks f md fname (i + k) (ops ! k) d' stack' = []"
  using assms
proof (induction ops arbitrary: i d stack k)
  case (Cons op ops)
  show ?case
  proof (cases k)
    case 0
    then show ?thesis using Cons.prems by (auto simp: case_prod_unfold Let_def)
  next
    case (Suc m)
    with Cons.IH [of "i + 1" "mark_op_defs f op d" "snd (check_structure f md fname i op stack)" m] Cons.prems
    show ?thesis by (auto simp: case_prod_unfold Let_def length_mark_op_defs)
  qed
qed simp

lemma validate_function_valid:
  assumes "validate_function_inner f md = []"
  shows "function_valid f md"
proof -
  have "op_valid f md (body f ! k)" if k: "k < length (body f)" for k
  proof -
    have "fst (validate_ops f md (fn_name f) 0 (body f) (params_defined f) []) = []"
      and "pool_bounds f (fn_name f) = []"
      using assms by (simp_all add: validate_function_inner_def Let_def case_prod_unfold)
    with validate_ops_nth [OF this(1) k] k show ?thesis
      unfolding op_valid_def pool_bounds_def concat_map_Nil enumerate_all
      by (auto simp: length_params_defined)
  qed
  then show ?thesis by (auto simp: function_valid_def in_set_conv_nth)
qed

lemma validate_functions_accept:
  assumes "validate_functions md fs entry seen = []"
  shows "(\<forall>f \<in> set fs. validate_function_inner f md = []) \<and> distinct (map fn_name fs) \<and>
    (\<forall>f \<in> set fs. fn_name f \<notin> set seen) \<and> entry + of_nat (length (filter is_entry fs)) \<le> 1"
  using assms
proof (induction fs arbitrary: entry seen)
  case (Cons f fs)
  then have "validate_functions md fs (if is_entry f then entry + 1 else entry) (seen @ [fn_name f]) = []"
    by simp
  from Cons.IH [OF this] Cons.prems show ?case by (auto simp: add.assoc [symmetric] split: if_splits)
qed (simp add: not_less split: if_splits)

lemma validate_imports_accept:
  assumes "vs_inv seen"
  shows "validate_import_list imps seen = [] \<longleftrightarrow>
    distinct (map (\<lambda>imp. (imp_module_name imp, imp_func_name imp)) imps) \<and>
    (\<forall>imp \<in> set imps. \<not> vs_contains seen (imp_module_name imp, imp_func_name imp) \<and>
       validate_import_sret imp = [])"
  using assms
proof (induction imps arbitrary: seen)
  case (Cons imp imps)
  then show ?case
    by (auto simp: case_prod_unfold Let_def vs.inv_ins vs.mem_ins vs.fresh_ins image_iff)
qed simp

lemma module_accept:
  assumes "validate_module md = Inr ()"
  shows "validate_imports md = []" and "validate_functions md (vm_values (mod_functions md)) 0 [] = []"
  using assms by (auto simp: validate_module_def verdict_def split: if_splits)

lemma module_function_accept:
  assumes "validate_module md = Inr ()" and "f \<in> set (vm_values (mod_functions md))"
  shows "validate_function_inner f md = []"
  using validate_functions_accept [OF module_accept(2) [OF assms(1)]] assms(2) by blast

text \<open>The hidden parameters of an accepted function are pointers.\<close>

lemma hidden_params_typed:
  assumes "validate_function_inner f md = []" and "length (vreg_types f) < 2 ^ 32"
    and "i < unat (hidden_param_slots f)" and "unat (vmctx_vreg f) + i < length (vreg_types f)"
  shows "vreg_types f ! (unat (vmctx_vreg f) + i) = Pointer"
proof (cases i)
  case 0
  then show ?thesis
    using assms by (simp add: validate_function_inner_def Let_def case_prod_unfold split: if_splits)
next
  case (Suc j)
  with assms(3) obtain sv where sv: "sret_arg f = Some sv" and i: "i = 1"
    by (auto simp: hidden_param_slots_unat split: if_splits)
  have "validate_sret_function_invariants f (fn_name f) = []"
    using assms(1) by (simp add: validate_function_inner_def Let_def case_prod_unfold)
  then have *: "sv = vmctx_vreg f + 1"
    "unat sv < length (vreg_types f) \<Longrightarrow> vreg_types f ! unat sv = Pointer"
    by (auto simp: validate_sret_function_invariants_def sv)
  have "unat sv = unat (vmctx_vreg f) + 1"
    using assms(2,4) i by (simp add: *(1) unat_word_ariths(1))
  then show ?thesis using * assms(4) i by simp
qed

section \<open>Properties\<close>




section \<open>Concrete modules\<close>

text \<open>A function that adds one to its argument and calls itself never.\<close>

definition increment_module :: LpirModule where
  "increment_module = one_function_module
     \<lparr>fn_name = ''inc'', is_entry = True, vmctx_vreg = 0, param_count = 1, return_types = [I32],
      sret_arg = None, vreg_types = [Pointer, I32, I32], slots = [],
      body = [OpIImm IaddImm 2 1 1, Return \<lparr>vr_start = 0, vr_count = 1\<rparr>], vreg_pool = [2]\<rparr>"

lemma increment_module_run:
  "validate_module increment_module = Inr () \<and> vm_inv (mod_functions increment_module) \<and>
   interpret_with_limits 5 bare_host increment_module ''inc'' [VI32 41] () unlimited
     = Some (Inr [VI32 42], ())"
  by (intro conjI; code_simp)



text \<open>The validator does not look at the offsets of switch arms: this arm ends where it starts.\<close>

definition stuck_body :: "LpirOp list" where
  "stuck_body = [IconstI32 1 0, SwitchStart 1 5, CaseStart 7 2, End, End]"

definition stuck_module :: LpirModule where
  "stuck_module = one_function_module (bare_function ''f'' [I32] [] stuck_body [])"

lemma stuck_dispatch: "switch_pick_arm stuck_body 0 merge None 2 = None"
proof -
  let ?P = "\<lambda>ops (sel :: i32) merge d (pc :: nat) y. ops = stuck_body \<and> sel = 0 \<and> pc = 2 \<longrightarrow> False"
  have "?P stuck_body 0 merge None 2 y" if "switch_pick_arm stuck_body 0 merge None 2 = Some y" for y
  proof (rule switch_pick_arm.raw_induct [where P = ?P, OF _ that])
    fix pick ops sel merge d pc r
    assume IH: "\<And>ops sel merge d pc r. pick ops sel merge d pc = Some r \<Longrightarrow> ?P ops sel merge d pc r"
      and step: "(if pc < length ops
        then case switch_arm_step ops sel merge d pc of
               Inl arm \<Rightarrow> Some (Some arm)
             | Inr (d, pc) \<Rightarrow> pick ops sel merge d pc
        else Some None) = Some r"
    show "?P ops sel merge d pc r"
    proof
      assume a: "ops = stuck_body \<and> sel = 0 \<and> pc = 2"
      then have "pick ops sel merge d pc = Some r"
        using step by (simp add: stuck_body_def switch_arm_step_def)
      from IH [OF this] a show False by blast
    qed
  qed
  then show ?thesis by (cases "switch_pick_arm stuck_body 0 merge None 2") auto
qed

text \<open>C27. The validator accepts a module whose switch never finishes its dispatch, and a fuel limit does
  not stop it: the run never returns, however large the clock.\<close>

theorem valid_module_diverges:
  "validate_module stuck_module = Inr () \<and>
   interpret_with_limits clock bare_host stuck_module ''f'' [] () (with_fuel 1000) = None"
proof
  show "validate_module stuck_module = Inr ()" by code_simp
  define f where "f = bare_function ''f'' [I32] [] stuck_body []"
  define fr where "fr pc = \<lparr>fr_func = f, fr_regs = [Some (VI32 0), Some (VI32 0)], fr_pc = pc, fr_ctrl = [],
    fr_base = 0, fr_slot_off = []\<rparr>" for pc
  note defs = fr_def f_def bare_function_def stuck_body_def
  have enter: "enter_func f [VI32 0] 0 (max_depth (with_fuel 1000)) [] = Inr (fr 0, [])"
    unfolding defs by code_simp
  have frame: "fr_pc (fr k) = k" "length (body (fr_func (fr k))) = 5" for k by (simp_all add: defs)
  have s0: "exec_step bare_host (fr 0) mem = Some (Goto (fr (Suc 0)) mem)" for mem
    by (simp add: exec_step_def defs fail_or_def set_reg_def set_at_def)
  have s1: "exec_step bare_host (fr (Suc 0)) mem = None" for mem
    using stuck_dispatch [unfolded stuck_body_def numeral_2_eq_2]
    by (simp add: exec_step_def step_switch_def get_reg_def val_i32_def val_as_i32_def defs)
  have "exec_loop clock bare_host stuck_module (with_fuel 1000) 0 (fr (Suc 0))
      \<lparr>run_fuel = 999, run_stack = [], run_imports = ()\<rparr> = None" for clock
    by (cases clock) (simp_all add: take_fuel_def with_fuel_def s1 frame)
  then have "exec_loop clock bare_host stuck_module (with_fuel 1000) 0 (fr 0)
      \<lparr>run_fuel = 1000, run_stack = [], run_imports = ()\<rparr> = None"
    by (cases clock) (simp_all add: take_fuel_def with_fuel_def s0 Let_def frame)
  moreover have "find_function stuck_module ''f'' = Some f" "sret_arg f = None"
    by (simp_all add: find_function_def stuck_module_def one_function_module_def vm_values_def f_def bare_function_def)
  ultimately show "interpret_with_limits clock bare_host stuck_module ''f'' [] () (with_fuel 1000) = None"
    using enter by (simp add: interpret_with_limits_def exec_func_def initial_fuel_def with_fuel_def)
qed

end
