(* ===== verification/Lpir_Builder.thy ===== *)
theory Lpir_Builder
  imports Lpir_Typing
begin

text \<open>
  The stack-based builders of \<^verbatim>\<open>lp-shader/lpir/src/builder.rs\<close>. Methods that take \<^verbatim>\<open>&mut self\<close> return
  the new builder; \<open>None\<close> is a panic (a failed \<^verbatim>\<open>expect\<close>, \<^verbatim>\<open>assert!\<close> or index). The stack of open
  blocks has its top at the head of the list. \<^verbatim>\<open>debug_assert\<close>s are not executed, as in a release
  build, and arithmetic on counters wraps.

  The relation \<open>built\<close> collects the states a client reaches by calling the methods; the theorems are
  invariants of it: every offset that the builder leaves in a finished body points forward to the
  operation it should, and the operands of calls and returns are found again in the pool.
\<close>

section \<open>The function builder\<close>

datatype BlockEntry =
    BeIf nat
  | BeElse nat
  | BeLoop nat bool
  | BeBlock nat
  | BeSwitch nat "nat option"

record FunctionBuilder =
  fb_name :: string
  fb_is_entry :: bool
  fb_return_types :: "IrType list"
  fb_sret_arg :: "VReg option"
  fb_param_count :: u16
  fb_vreg_types :: "IrType list"
  fb_slots :: "SlotDecl list"
  fb_body :: "LpirOp list"
  fb_vreg_pool :: "VReg list"
  fb_next_vreg :: u32
  fb_next_slot :: u32
  fb_block_stack :: "BlockEntry list"

definition fb_new :: "string \<Rightarrow> IrType list \<Rightarrow> FunctionBuilder" where
  "fb_new name rets =
     \<lparr>fb_name = name, fb_is_entry = False, fb_return_types = rets, fb_sret_arg = None,
      fb_param_count = 0, fb_vreg_types = [Pointer], fb_slots = [], fb_body = [], fb_vreg_pool = [],
      fb_next_vreg = 1, fb_next_slot = 0, fb_block_stack = []\<rparr>"

definition set_entry :: "FunctionBuilder \<Rightarrow> FunctionBuilder" where
  "set_entry b = b\<lparr>fb_is_entry := True\<rparr>"

definition alloc_vreg :: "IrType \<Rightarrow> FunctionBuilder \<Rightarrow> VReg \<times> FunctionBuilder" where
  "alloc_vreg ty b =
     (fb_next_vreg b,
      b\<lparr>fb_next_vreg := fb_next_vreg b + 1, fb_vreg_types := fb_vreg_types b @ [ty]\<rparr>)"

definition add_sret_param :: "FunctionBuilder \<Rightarrow> (VReg \<times> FunctionBuilder) option" where
  "add_sret_param b =
     (if fb_sret_arg b \<noteq> None \<or> fb_param_count b \<noteq> 0 then None
      else let v = fb_next_vreg b
           in Some (v, b\<lparr>fb_next_vreg := fb_next_vreg b + 1,
                         fb_vreg_types := fb_vreg_types b @ [Pointer], fb_sret_arg := Some v\<rparr>))"

definition add_param :: "IrType \<Rightarrow> FunctionBuilder \<Rightarrow> VReg \<times> FunctionBuilder" where
  "add_param ty b =
     (fb_next_vreg b,
      b\<lparr>fb_next_vreg := fb_next_vreg b + 1, fb_param_count := fb_param_count b + 1,
        fb_vreg_types := fb_vreg_types b @ [ty]\<rparr>)"

definition alloc_slot :: "u32 \<Rightarrow> FunctionBuilder \<Rightarrow> SlotId \<times> FunctionBuilder" where
  "alloc_slot sz b =
     (fb_next_slot b,
      b\<lparr>fb_next_slot := fb_next_slot b + 1, fb_slots := fb_slots b @ [\<lparr>slot_size = sz\<rparr>]\<rparr>)"

definition push_op :: "LpirOp \<Rightarrow> FunctionBuilder \<Rightarrow> FunctionBuilder" where
  "push_op op b = b\<lparr>fb_body := fb_body b @ [op]\<rparr>"

text \<open>\<^verbatim>\<open>&mut self.body[i]\<close>, rewritten in place.\<close>

definition patch :: "nat \<Rightarrow> (LpirOp \<Rightarrow> LpirOp) \<Rightarrow> FunctionBuilder \<Rightarrow> FunctionBuilder option" where
  "patch i g b =
     (if i < length (fb_body b)
      then Some (b\<lparr>fb_body := (fb_body b)[i := g (fb_body b ! i)]\<rparr>) else None)"

definition push_entry :: "BlockEntry \<Rightarrow> FunctionBuilder \<Rightarrow> FunctionBuilder" where
  "push_entry e b = b\<lparr>fb_block_stack := e # fb_block_stack b\<rparr>"

definition push_if :: "VReg \<Rightarrow> FunctionBuilder \<Rightarrow> FunctionBuilder" where
  "push_if cond b = push_entry (BeIf (length (fb_body b))) (push_op (IfStart cond 0 0) b)"

definition set_else_offset :: "u32 \<Rightarrow> LpirOp \<Rightarrow> LpirOp" where
  "set_else_offset off op = (case op of IfStart cond _ m \<Rightarrow> IfStart cond off m | _ \<Rightarrow> op)"

definition set_end_offset :: "u32 \<Rightarrow> LpirOp \<Rightarrow> LpirOp" where
  "set_end_offset off op = (case op of IfStart cond e _ \<Rightarrow> IfStart cond e off | _ \<Rightarrow> op)"

definition push_else :: "FunctionBuilder \<Rightarrow> FunctionBuilder option" where
  "push_else b =
     (case fb_block_stack b of
        BeIf start # rest \<Rightarrow>
          map_option (\<lambda>b'. push_entry (BeElse start) (push_op Else b'))
            (patch start (set_else_offset (of_nat (length (fb_body b)))) (b\<lparr>fb_block_stack := rest\<rparr>))
      | _ \<Rightarrow> None)"

definition end_if :: "FunctionBuilder \<Rightarrow> FunctionBuilder option" where
  "end_if b =
     (let end_idx = length (fb_body b); after = of_nat (end_idx + 1)
      in case fb_block_stack b of
           BeIf start # rest \<Rightarrow>
             patch start (set_end_offset after \<circ> set_else_offset (of_nat end_idx))
               ((push_op End b)\<lparr>fb_block_stack := rest\<rparr>)
         | BeElse start # rest \<Rightarrow>
             patch start (set_end_offset after) ((push_op End b)\<lparr>fb_block_stack := rest\<rparr>)
         | _ \<Rightarrow> None)"

definition push_loop :: "FunctionBuilder \<Rightarrow> FunctionBuilder" where
  "push_loop b = push_entry (BeLoop (length (fb_body b)) False) (push_op (LoopStart 0 0) b)"

definition push_continuing :: "FunctionBuilder \<Rightarrow> FunctionBuilder option" where
  "push_continuing b =
     (case fb_block_stack b of
        BeLoop start continuing_set # rest \<Rightarrow>
          if continuing_set then None
          else patch start
                 (\<lambda>op. case op of LoopStart _ e \<Rightarrow> LoopStart (of_nat (length (fb_body b))) e | _ \<Rightarrow> op)
                 (b\<lparr>fb_block_stack := BeLoop start True # rest\<rparr>)
      | _ \<Rightarrow> None)"

definition end_loop :: "FunctionBuilder \<Rightarrow> FunctionBuilder option" where
  "end_loop b =
     (let after = of_nat (length (fb_body b) + 1)
      in case fb_block_stack b of
           BeLoop start continuing_set # rest \<Rightarrow>
             patch start
               (\<lambda>op. case op of
                  LoopStart c _ \<Rightarrow> LoopStart (if c = 0 then of_nat (start + 1) else c) after
                | _ \<Rightarrow> op)
               ((push_op End b)\<lparr>fb_block_stack := rest\<rparr>)
         | _ \<Rightarrow> None)"

definition push_block :: "FunctionBuilder \<Rightarrow> FunctionBuilder" where
  "push_block b = push_entry (BeBlock (length (fb_body b))) (push_op (Block 0) b)"

text \<open>\<^verbatim>\<open>end_block\<close> panics when the opener is not a \<^verbatim>\<open>Block\<close>.\<close>

definition end_block :: "FunctionBuilder \<Rightarrow> FunctionBuilder option" where
  "end_block b =
     (let after = of_nat (length (fb_body b) + 1)
      in case fb_block_stack b of
           BeBlock start # rest \<Rightarrow>
             (let b' = (push_op End b)\<lparr>fb_block_stack := rest\<rparr>
              in if start < length (fb_body b')
                 then case fb_body b' ! start of
                        Block _ \<Rightarrow> patch start (\<lambda>_. Block after) b'
                      | _ \<Rightarrow> None
                 else None)
         | _ \<Rightarrow> None)"

definition push_exit_block :: "FunctionBuilder \<Rightarrow> FunctionBuilder" where
  "push_exit_block b = push_op ExitBlock b"

definition push_switch :: "VReg \<Rightarrow> FunctionBuilder \<Rightarrow> FunctionBuilder" where
  "push_switch selector b =
     push_entry (BeSwitch (length (fb_body b)) None) (push_op (SwitchStart selector 0) b)"

definition set_arm_end :: "u32 \<Rightarrow> LpirOp \<Rightarrow> LpirOp" where
  "set_arm_end off op =
     (case op of CaseStart value _ \<Rightarrow> CaseStart value off | DefaultStart _ \<Rightarrow> DefaultStart off | _ \<Rightarrow> op)"

definition patch_switch_pending_to_here :: "FunctionBuilder \<Rightarrow> FunctionBuilder option" where
  "patch_switch_pending_to_here b =
     (case fb_block_stack b of
        BeSwitch start pending # rest \<Rightarrow>
          (case pending of
             None \<Rightarrow> Some b
           | Some pc \<Rightarrow>
               patch pc (set_arm_end (of_nat (length (fb_body b))))
                 (b\<lparr>fb_block_stack := BeSwitch start None # rest\<rparr>))
      | _ \<Rightarrow> None)"

text \<open>\<^verbatim>\<open>push_case\<close> and \<^verbatim>\<open>push_default\<close> after the pending arm is patched.\<close>

definition push_arm :: "LpirOp \<Rightarrow> FunctionBuilder \<Rightarrow> FunctionBuilder option" where
  "push_arm op b =
     (case patch_switch_pending_to_here b of
        None \<Rightarrow> None
      | Some b \<Rightarrow>
          (case fb_block_stack b of
             BeSwitch start pending # rest \<Rightarrow>
               Some ((push_op op b)\<lparr>fb_block_stack := BeSwitch start (Some (length (fb_body b))) # rest\<rparr>)
           | _ \<Rightarrow> None))"

definition push_case :: "i32 \<Rightarrow> FunctionBuilder \<Rightarrow> FunctionBuilder option" where
  "push_case value = push_arm (CaseStart value 0)"

definition push_default :: "FunctionBuilder \<Rightarrow> FunctionBuilder option" where
  "push_default = push_arm (DefaultStart 0)"

definition end_switch_arm :: "FunctionBuilder \<Rightarrow> FunctionBuilder" where
  "end_switch_arm b = push_op End b"

definition end_switch :: "FunctionBuilder \<Rightarrow> FunctionBuilder option" where
  "end_switch b =
     (let after = of_nat (length (fb_body b) + 1)
      in case patch_switch_pending_to_here b of
           None \<Rightarrow> None
         | Some b \<Rightarrow>
             (case fb_block_stack b of
                BeSwitch start pending # rest \<Rightarrow>
                  patch start
                    (\<lambda>op. case op of SwitchStart selector _ \<Rightarrow> SwitchStart selector after | _ \<Rightarrow> op)
                    ((push_op End b)\<lparr>fb_block_stack := rest\<rparr>)
              | _ \<Rightarrow> None))"

definition starts_with :: "string \<Rightarrow> string \<Rightarrow> bool" where
  "starts_with s p \<longleftrightarrow> take (length p) s = p"

definition close_brace_for_text :: "string option \<Rightarrow> FunctionBuilder \<Rightarrow> (string + FunctionBuilder) option" where
  "close_brace_for_text peek_next b =
     (case fb_block_stack b of
        [] \<Rightarrow> Some (Inl ''unexpected `}`'')
      | BeIf _ # _ \<Rightarrow> map_option Inr (end_if b)
      | BeElse _ # _ \<Rightarrow> map_option Inr (end_if b)
      | BeBlock _ # _ \<Rightarrow> map_option Inr (end_block b)
      | BeLoop _ _ # _ \<Rightarrow> map_option Inr (end_loop b)
      | BeSwitch _ _ # _ \<Rightarrow>
          (let arm_only = (case peek_next of
                 None \<Rightarrow> False
               | Some s \<Rightarrow> s = ''}'' \<or> starts_with s ''case '' \<or> starts_with s ''default'')
           in if arm_only then Some (Inr (end_switch_arm b)) else map_option Inr (end_switch b)))"

definition record_vreg_def :: "VReg \<Rightarrow> IrType option \<Rightarrow> FunctionBuilder \<Rightarrow> string + FunctionBuilder" where
  "record_vreg_def v explicit_ty b =
     (let i = unat v; n = length (fb_vreg_types b)
      in case explicit_ty of
           Some t \<Rightarrow>
             if i > n then Inl ''sparse vreg index (missing lower vregs)''
             else if i = n
             then Inr (b\<lparr>fb_vreg_types := fb_vreg_types b @ [t],
                         fb_next_vreg := max (fb_next_vreg b) (if v = - 1 then v else v + 1)\<rparr>)
             else if fb_vreg_types b ! i \<noteq> t then Inl ''vreg type mismatch on redefinition''
             else Inr b
         | None \<Rightarrow> if i \<ge> n then Inl ''first use of vreg requires :type'' else Inr b)"

definition push_call :: "CalleeRef \<Rightarrow> VReg list \<Rightarrow> VReg list \<Rightarrow> FunctionBuilder \<Rightarrow> FunctionBuilder" where
  "push_call callee args results b =
     (let args_start = of_nat (length (fb_vreg_pool b));
          pool = fb_vreg_pool b @ args;
          results_start = of_nat (length pool)
      in push_op (Call callee \<lparr>vr_start = args_start, vr_count = of_nat (length args)\<rparr>
                    \<lparr>vr_start = results_start, vr_count = of_nat (length results)\<rparr>)
           (b\<lparr>fb_vreg_pool := pool @ results\<rparr>))"

definition push_return :: "VReg list \<Rightarrow> FunctionBuilder \<Rightarrow> FunctionBuilder" where
  "push_return vals b =
     push_op (Return \<lparr>vr_start = of_nat (length (fb_vreg_pool b)), vr_count = of_nat (length vals)\<rparr>)
       (b\<lparr>fb_vreg_pool := fb_vreg_pool b @ vals\<rparr>)"

definition fb_finish :: "FunctionBuilder \<Rightarrow> IrFunction option" where
  "fb_finish b =
     (if fb_block_stack b \<noteq> [] then None
      else if fb_sret_arg b \<noteq> None \<and> fb_return_types b \<noteq> [] then None
      else Some \<lparr>fn_name = fb_name b, is_entry = fb_is_entry b, vmctx_vreg = VMCTX_VREG,
                 param_count = fb_param_count b, return_types = fb_return_types b,
                 sret_arg = fb_sret_arg b, vreg_types = fb_vreg_types b, slots = fb_slots b,
                 body = fb_body b, vreg_pool = fb_vreg_pool b\<rparr>)"

section \<open>The module builder\<close>

record ModuleBuilder =
  mb_imports :: "ImportDecl list"
  mb_functions :: "(FuncId, IrFunction) VecMap"
  mb_next_func_id :: u16

definition mb_new :: ModuleBuilder where
  "mb_new = \<lparr>mb_imports = [], mb_functions = vm_new, mb_next_func_id = 0\<rparr>"

definition add_import :: "ImportDecl \<Rightarrow> ModuleBuilder \<Rightarrow> CalleeRef \<times> ModuleBuilder" where
  "add_import decl m =
     (let imports = mb_imports m @ [decl]
      in (CalleeImport (of_nat (length imports - 1)), m\<lparr>mb_imports := imports\<rparr>))"

definition add_function :: "IrFunction \<Rightarrow> ModuleBuilder \<Rightarrow> CalleeRef \<times> ModuleBuilder" where
  "add_function f m =
     (let fid = mb_next_func_id m
      in (CalleeLocal fid,
          m\<lparr>mb_next_func_id := (if fid = 65535 then fid else fid + 1),
            mb_functions := snd (vm_insert (mb_functions m) fid f)\<rparr>))"

definition mb_finish :: "ModuleBuilder \<Rightarrow> LpirModule" where
  "mb_finish m = \<lparr>mod_imports = mb_imports m, mod_functions = mb_functions m\<rparr>"


section \<open>States a client reaches\<close>

text \<open>Operations that a client pushes as they are; the others have methods of their own.\<close>

fun plain_op :: "LpirOp \<Rightarrow> bool" where
  "plain_op (IfStart _ _ _) = False"
| "plain_op Else = False"
| "plain_op (LoopStart _ _) = False"
| "plain_op (SwitchStart _ _) = False"
| "plain_op (CaseStart _ _) = False"
| "plain_op (DefaultStart _) = False"
| "plain_op End = False"
| "plain_op (Block _) = False"
| "plain_op (Call _ _ _) = False"
| "plain_op (Return _) = False"
| "plain_op _ = True"

inductive built :: "FunctionBuilder \<Rightarrow> bool" where
  built_new: "built (fb_new name rets)"
| built_entry: "built b \<Longrightarrow> built (set_entry b)"
| built_sret: "built b \<Longrightarrow> add_sret_param b = Some (v, b') \<Longrightarrow> built b'"
| built_param: "built b \<Longrightarrow> built (snd (add_param ty b))"
| built_vreg: "built b \<Longrightarrow> built (snd (alloc_vreg ty b))"
| built_slot: "built b \<Longrightarrow> built (snd (alloc_slot sz b))"
| built_record: "built b \<Longrightarrow> record_vreg_def v ty b = Inr b' \<Longrightarrow> built b'"
| built_push: "built b \<Longrightarrow> plain_op op \<Longrightarrow> built (push_op op b)"
| built_if: "built b \<Longrightarrow> built (push_if cond b)"
| built_else: "built b \<Longrightarrow> push_else b = Some b' \<Longrightarrow> built b'"
| built_end_if: "built b \<Longrightarrow> end_if b = Some b' \<Longrightarrow> built b'"
| built_loop: "built b \<Longrightarrow> built (push_loop b)"
| built_continuing: "built b \<Longrightarrow> push_continuing b = Some b' \<Longrightarrow> built b'"
| built_end_loop: "built b \<Longrightarrow> end_loop b = Some b' \<Longrightarrow> built b'"
| built_block: "built b \<Longrightarrow> built (push_block b)"
| built_end_block: "built b \<Longrightarrow> end_block b = Some b' \<Longrightarrow> built b'"
| built_exit: "built b \<Longrightarrow> built (push_exit_block b)"
| built_switch: "built b \<Longrightarrow> built (push_switch selector b)"
| built_case: "built b \<Longrightarrow> push_case value b = Some b' \<Longrightarrow> built b'"
| built_default: "built b \<Longrightarrow> push_default b = Some b' \<Longrightarrow> built b'"
| built_end_arm: "built b \<Longrightarrow> built (end_switch_arm b)"
| built_end_switch: "built b \<Longrightarrow> end_switch b = Some b' \<Longrightarrow> built b'"
| built_close: "built b \<Longrightarrow> close_brace_for_text peek b = Some (Inr b') \<Longrightarrow> built b'"
| built_call: "built b \<Longrightarrow> length args < 2 ^ 16 \<Longrightarrow> length results < 2 ^ 16 \<Longrightarrow>
    built (push_call callee args results b)"
| built_return: "built b \<Longrightarrow> length vals < 2 ^ 16 \<Longrightarrow> built (push_return vals b)"

section \<open>The shape of a body\<close>

text \<open>What an offset that the builder has patched must point at.\<close>

fun offsets_wf :: "LpirOp list \<Rightarrow> nat \<Rightarrow> LpirOp \<Rightarrow> bool" where
  "offsets_wf ops i (IfStart _ e m) \<longleftrightarrow> i < unat e \<and> unat e < unat m \<and> unat m \<le> length ops \<and>
     ops ! (unat m - 1) = End \<and> (ops ! unat e = Else \<or> unat e = unat m - 1)"
| "offsets_wf ops i (LoopStart c e) \<longleftrightarrow> i < unat c \<and> unat c < unat e \<and> unat e \<le> length ops \<and>
     ops ! (unat e - 1) = End"
| "offsets_wf ops i (Block e) \<longleftrightarrow> i + 1 < unat e \<and> unat e \<le> length ops \<and> ops ! (unat e - 1) = End"
| "offsets_wf ops i (SwitchStart _ e) \<longleftrightarrow> i + 1 < unat e \<and> unat e \<le> length ops \<and> ops ! (unat e - 1) = End"
| "offsets_wf ops i (CaseStart _ e) \<longleftrightarrow> i < unat e \<and> unat e < length ops \<and>
     (case ops ! unat e of CaseStart _ _ \<Rightarrow> True | DefaultStart _ \<Rightarrow> True | End \<Rightarrow> True | _ \<Rightarrow> False)"
| "offsets_wf ops i (DefaultStart e) \<longleftrightarrow> i < unat e \<and> unat e < length ops \<and>
     (case ops ! unat e of CaseStart _ _ \<Rightarrow> True | DefaultStart _ \<Rightarrow> True | End \<Rightarrow> True | _ \<Rightarrow> False)"
| "offsets_wf ops i _ \<longleftrightarrow> True"

text \<open>What an open block promises about its opener.\<close>

fun is_arm_op :: "LpirOp \<Rightarrow> bool" where
  "is_arm_op (CaseStart _ _) = True"
| "is_arm_op (DefaultStart _) = True"
| "is_arm_op _ = False"

fun entry_ok :: "LpirOp list \<Rightarrow> BlockEntry \<Rightarrow> bool" where
  "entry_ok ops (BeIf s) \<longleftrightarrow> (\<exists>c. ops ! s = IfStart c 0 0)"
| "entry_ok ops (BeElse s) \<longleftrightarrow>
     (\<exists>c e. ops ! s = IfStart c e 0 \<and> s < unat e \<and> unat e < length ops \<and> ops ! unat e = Else)"
| "entry_ok ops (BeLoop s continuing_set) \<longleftrightarrow>
     (\<exists>c. ops ! s = LoopStart c 0 \<and> (if continuing_set then s < unat c \<and> unat c \<le> length ops else c = 0))"
| "entry_ok ops (BeBlock s) \<longleftrightarrow> ops ! s = Block 0"
| "entry_ok ops (BeSwitch s pending) \<longleftrightarrow>
     (\<exists>sel. ops ! s = SwitchStart sel 0) \<and>
     (case pending of None \<Rightarrow> True | Some p \<Rightarrow> is_arm_op (ops ! p))"

fun positions :: "BlockEntry \<Rightarrow> nat list" where
  "positions (BeIf s) = [s]"
| "positions (BeElse s) = [s]"
| "positions (BeLoop s _) = [s]"
| "positions (BeBlock s) = [s]"
| "positions (BeSwitch s None) = [s]"
| "positions (BeSwitch s (Some p)) = [p, s]"

definition open_positions :: "BlockEntry list \<Rightarrow> nat list" where
  "open_positions st = concat (map positions st)"

definition shape_inv :: "LpirOp list \<Rightarrow> BlockEntry list \<Rightarrow> bool" where
  "shape_inv ops st \<longleftrightarrow>
     list_all (entry_ok ops) st \<and> sorted_wrt (>) (open_positions st) \<and>
     (\<forall>p \<in> set (open_positions st). p < length ops) \<and>
     (\<forall>i < length ops. i \<notin> set (open_positions st) \<longrightarrow> offsets_wf ops i (ops ! i))"

lemma open_positions_simps [simp]:
  "open_positions [] = []" "open_positions (e # st) = positions e @ open_positions st"
  "open_positions (es @ st) = open_positions es @ open_positions st"
  by (simp_all add: open_positions_def)

text \<open>Operations that others may refer to keep their kind.\<close>

definition same_kind :: "LpirOp \<Rightarrow> LpirOp \<Rightarrow> bool" where
  "same_kind a b \<longleftrightarrow> (a = End \<longleftrightarrow> b = End) \<and> (a = Else \<longleftrightarrow> b = Else) \<and> (is_arm_op a \<longleftrightarrow> is_arm_op b)"

definition grows :: "LpirOp list \<Rightarrow> LpirOp list \<Rightarrow> bool" where
  "grows ops ops' \<longleftrightarrow> length ops \<le> length ops' \<and> (\<forall>k < length ops. same_kind (ops ! k) (ops' ! k))"

lemma arm_target:
  "(case op of CaseStart _ _ \<Rightarrow> True | DefaultStart _ \<Rightarrow> True | End \<Rightarrow> True | _ \<Rightarrow> False)
     \<longleftrightarrow> is_arm_op op \<or> op = End"
  by (cases op) simp_all

lemma offsets_wf_grows:
  assumes "grows ops ops'" and "offsets_wf ops i op"
  shows "offsets_wf ops' i op"
proof -
  have k: "same_kind (ops ! k) (ops' ! k)" if "k < length ops" for k
    using assms(1) that by (simp add: grows_def)
  have len: "length ops \<le> length ops'" using assms(1) by (simp add: grows_def)
  have last: "ops' ! (n - 1) = End" if "ops ! (n - 1) = End" "m < n" "n \<le> length ops" for n m
    using k [of "n - 1"] that by (simp add: same_kind_def)
  have tgt: "is_arm_op (ops' ! n) \<or> ops' ! n = End" if "is_arm_op (ops ! n) \<or> ops ! n = End" "n < length ops" for n
    using k [of n] that by (auto simp: same_kind_def)
  show ?thesis
  proof (cases op)
    case (IfStart c e m)
    have "ops' ! unat e = Else \<or> unat e = unat m - 1"
      using assms(2) IfStart k [of "unat e"] by (auto simp: same_kind_def)
    with assms(2) IfStart len last [of "unat m" "unat e"] show ?thesis by simp
  next
    case (LoopStart c e)
    with assms(2) len last [of "unat e" "unat c"] show ?thesis by simp
  next
    case (Block e)
    with assms(2) len last [of "unat e" i] show ?thesis by simp
  next
    case (SwitchStart sel e)
    with assms(2) len last [of "unat e" i] show ?thesis by simp
  next
    case (CaseStart v e)
    with assms(2) len tgt [of "unat e"] show ?thesis by (simp add: arm_target)
  next
    case (DefaultStart e)
    with assms(2) len tgt [of "unat e"] show ?thesis by (simp add: arm_target)
  qed simp_all
qed

lemma entry_ok_grows:
  assumes "grows ops ops'" and "entry_ok ops e" and "\<forall>p \<in> set (positions e). p < length ops \<and> ops' ! p = ops ! p"
  shows "entry_ok ops' e"
proof -
  have k: "same_kind (ops ! k) (ops' ! k)" if "k < length ops" for k
    using assms(1) that by (simp add: grows_def)
  have len: "length ops \<le> length ops'" using assms(1) by (simp add: grows_def)
  show ?thesis
  proof (cases e)
    case (BeElse s)
    then obtain c off where "ops ! s = IfStart c off 0" "s < unat off" "unat off < length ops" "ops ! unat off = Else"
      using assms(2) by auto
    then show ?thesis using assms(3) BeElse k [of "unat off"] len by (simp add: same_kind_def)
  next
    case (BeLoop s continuing_set)
    then show ?thesis using assms(2,3) len by (auto split: if_splits)
  next
    case (BeSwitch s pending)
    then show ?thesis using assms(2,3) by (cases pending) auto
  qed (use assms(2,3) in auto)
qed

text \<open>One step: the entries \<open>es\<close> on top of the stack become \<open>es'\<close>, only their positions are patched,
  and whatever is no longer open, or new, is well formed.\<close>

lemma shape_step:
  assumes "shape_inv ops (es @ st)" and "grows ops ops'"
    and "\<And>k. k < length ops \<Longrightarrow> k \<notin> set (open_positions es) \<Longrightarrow> ops' ! k = ops ! k"
    and "list_all (entry_ok ops') es'" and "sorted_wrt (>) (open_positions es')"
    and "\<And>p. p \<in> set (open_positions es') \<Longrightarrow>
      p < length ops' \<and> (p \<in> set (open_positions es) \<or> length ops \<le> p)"
    and "\<And>i. i < length ops' \<Longrightarrow> i \<notin> set (open_positions es') \<Longrightarrow>
      i \<in> set (open_positions es) \<or> length ops \<le> i \<Longrightarrow> offsets_wf ops' i (ops' ! i)"
  shows "shape_inv ops' (es' @ st)"
proof -
  have inv: "list_all (entry_ok ops) st" "sorted_wrt (>) (open_positions es @ open_positions st)"
    "\<forall>p \<in> set (open_positions es @ open_positions st). p < length ops"
    "\<forall>i < length ops. i \<notin> set (open_positions es @ open_positions st) \<longrightarrow> offsets_wf ops i (ops ! i)"
    using assms(1) by (simp_all add: shape_inv_def)
  have sep: "q < p" if "p \<in> set (open_positions es)" "q \<in> set (open_positions st)" for p q
    using inv(2) that by (auto simp: sorted_wrt_append)
  have len: "length ops \<le> length ops'" using assms(2) by (simp add: grows_def)
  have keep: "ops' ! q = ops ! q" if "q \<in> set (open_positions st)" for q
    using assms(3) [of q] inv(3) sep [of q q] that by auto
  have "list_all (entry_ok ops') st"
    unfolding list_all_iff
  proof
    fix e assume e: "e \<in> set st"
    then have "set (positions e) \<subseteq> set (open_positions st)" by (auto simp: open_positions_def)
    with e inv(1,3) keep show "entry_ok ops' e"
      by (intro entry_ok_grows [OF assms(2)]) (auto simp: list_all_iff)
  qed
  moreover have "sorted_wrt (>) (open_positions es' @ open_positions st)"
  proof -
    have "q < p" if "p \<in> set (open_positions es')" "q \<in> set (open_positions st)" for p q
      using assms(6) [OF that(1)] sep [OF _ that(2)] inv(3) that(2) by (auto intro: less_le_trans)
    with inv(2) assms(5) show ?thesis by (simp add: sorted_wrt_append)
  qed
  moreover have "\<forall>p \<in> set (open_positions es' @ open_positions st). p < length ops'"
    using inv(3) len by (auto dest: assms(6) intro: less_le_trans)
  moreover have "offsets_wf ops' i (ops' ! i)"
    if "i < length ops'" "i \<notin> set (open_positions es' @ open_positions st)" for i
  proof (cases "i \<in> set (open_positions es) \<or> length ops \<le> i")
    case True
    then show ?thesis using assms(7) [of i] that by simp
  next
    case False
    then have "offsets_wf ops i (ops ! i)" "ops' ! i = ops ! i"
      using inv(4) that assms(3) [of i] by auto
    then show ?thesis using offsets_wf_grows [OF assms(2)] by simp
  qed
  ultimately show ?thesis using assms(4) by (simp add: shape_inv_def)
qed


section \<open>The methods keep the shape\<close>

lemma unat_of_nat_u32: "n < 2 ^ 32 \<Longrightarrow> unat (of_nat n :: u32) = n"
  by (simp add: unat_of_nat)

lemma grows_append: "grows ops (ops @ ops')"
  by (simp add: grows_def nth_append same_kind_def)

lemma grows_patch:
  assumes "i < length ops" and "same_kind (ops ! i) op"
  shows "grows ops (ops[i := op] @ ops')"
  using assms by (auto simp: grows_def nth_append nth_list_update same_kind_def)

lemma shape_plain:
  assumes "shape_inv ops st" and "offsets_wf (ops @ [op]) (length ops) op"
  shows "shape_inv (ops @ [op]) st"
  using shape_step [of ops "[]" st "ops @ [op]" "[]"] assms grows_append
  by (auto simp: nth_append less_Suc_eq)

lemma shape_open:
  assumes "shape_inv ops st" and "entry_ok (ops @ [op]) e" and "positions e = [length ops]"
  shows "shape_inv (ops @ [op]) (e # st)"
  using shape_step [of ops "[]" st "ops @ [op]" "[e]"] assms grows_append
  by (auto simp: nth_append less_Suc_eq)

lemma shape_top: "shape_inv ops (e # st) \<Longrightarrow> entry_ok ops e \<and> (\<forall>p \<in> set (positions e). p < length ops)"
  by (auto simp: shape_inv_def)

lemma shape_close:
  assumes "shape_inv ops (e # st)" and "positions e = [s]" and "same_kind (ops ! s) op"
    and "offsets_wf (ops[s := op] @ [End]) s op"
  shows "shape_inv (ops[s := op] @ [End]) st"
proof -
  have s: "s < length ops" using shape_top [OF assms(1)] assms(2) by simp
  have "shape_inv (ops[s := op] @ [End]) ([] @ st)"
  proof (rule shape_step [where es = "[e]" and ops = ops])
    fix i
    assume "i < length (ops[s := op] @ [End])" "i \<in> set (open_positions [e]) \<or> length ops \<le> i"
    then have "i = s \<or> i = length ops" using assms(2) by auto
    then show "offsets_wf (ops[s := op] @ [End]) i ((ops[s := op] @ [End]) ! i)"
      using assms(4) s by (auto simp: nth_append)
  qed (use assms s in \<open>auto simp: nth_append intro: grows_patch\<close>)
  then show ?thesis by simp
qed

text \<open>Replacing the top entry by another one of the same position.\<close>

lemma shape_patch:
  assumes "shape_inv ops (e # st)" and "positions e = [s]" and "positions e' = [s]"
    and "same_kind (ops ! s) op" and "entry_ok (ops[s := op] @ ops') e'"
    and "\<And>i. i < length ops' \<Longrightarrow> offsets_wf (ops[s := op] @ ops') (length ops + i) (ops' ! i)"
  shows "shape_inv (ops[s := op] @ ops') (e' # st)"
proof -
  have s: "s < length ops" using shape_top [OF assms(1)] assms(2) by simp
  have "shape_inv (ops[s := op] @ ops') ([e'] @ st)"
  proof (rule shape_step [where es = "[e]" and ops = ops])
    fix i
    assume "i < length (ops[s := op] @ ops')" "i \<notin> set (open_positions [e'])"
      "i \<in> set (open_positions [e]) \<or> length ops \<le> i"
    then show "offsets_wf (ops[s := op] @ ops') i ((ops[s := op] @ ops') ! i)"
      using assms(2,3) assms(6) [of "i - length ops"] by (auto simp: nth_append)
  qed (use assms s in \<open>auto simp: nth_append intro: grows_patch\<close>)
  then show ?thesis by simp
qed


lemma shape_push_else:
  assumes "shape_inv ops (BeIf s # st)" and "length ops < 2 ^ 32"
  shows "shape_inv (ops[s := set_else_offset (of_nat (length ops)) (ops ! s)] @ [Else]) (BeElse s # st)"
proof -
  obtain c where c: "ops ! s = IfStart c 0 0" and s: "s < length ops" using shape_top [OF assms(1)] by auto
  show ?thesis
    by (rule shape_patch [OF assms(1)])
      (use c s assms(2) in \<open>auto simp: set_else_offset_def same_kind_def nth_append unat_of_nat_u32 less_Suc_eq\<close>)
qed

lemma shape_end_if:
  assumes "shape_inv ops (BeIf s # st)" and "length ops + 1 < 2 ^ 32"
  shows "shape_inv (ops[s := set_end_offset (of_nat (length ops + 1))
    (set_else_offset (of_nat (length ops)) (ops ! s))] @ [End]) st"
proof -
  obtain c where c: "ops ! s = IfStart c 0 0" and s: "s < length ops" using shape_top [OF assms(1)] by auto
  have u: "unat (of_nat (length ops) :: u32) = length ops" "unat (of_nat (length ops + 1) :: u32) = length ops + 1"
    using assms(2) by (intro unat_of_nat_u32; simp)+
  show ?thesis
    by (rule shape_close [OF assms(1)])
      (use c s u in \<open>auto simp: set_else_offset_def set_end_offset_def same_kind_def nth_append simp del: of_nat_Suc of_nat_add\<close>)
qed

lemma shape_end_else:
  assumes "shape_inv ops (BeElse s # st)" and "length ops + 1 < 2 ^ 32"
  shows "shape_inv (ops[s := set_end_offset (of_nat (length ops + 1)) (ops ! s)] @ [End]) st"
proof -
  obtain c e where c: "ops ! s = IfStart c e 0" "s < unat e" "unat e < length ops" "ops ! unat e = Else"
    and s: "s < length ops" using shape_top [OF assms(1)] by auto
  have u: "unat (of_nat (length ops + 1) :: u32) = length ops + 1"
    using assms(2) by (intro unat_of_nat_u32) simp
  show ?thesis
    by (rule shape_close [OF assms(1)])
      (use c s u in \<open>auto simp: set_end_offset_def same_kind_def nth_append simp del: of_nat_Suc of_nat_add\<close>)
qed

lemma shape_continuing:
  assumes "shape_inv ops (BeLoop s False # st)" and "length ops < 2 ^ 32"
  shows "shape_inv (ops[s := (case ops ! s of LoopStart _ e \<Rightarrow> LoopStart (of_nat (length ops)) e | _ \<Rightarrow> ops ! s)])
    (BeLoop s True # st)"
proof -
  obtain c where c: "ops ! s = LoopStart c 0" and s: "s < length ops" using shape_top [OF assms(1)] by auto
  show ?thesis
    using shape_patch [OF assms(1), where ops' = "[]" and e' = "BeLoop s True"] c s assms(2)
    by (simp add: same_kind_def unat_of_nat_u32)
qed

lemma shape_end_loop:
  assumes "shape_inv ops (BeLoop s cs # st)" and "length ops + 1 < 2 ^ 32"
  shows "shape_inv (ops[s := (case ops ! s of
      LoopStart c _ \<Rightarrow> LoopStart (if c = 0 then of_nat (s + 1) else c) (of_nat (length ops + 1)) | _ \<Rightarrow> ops ! s)] @ [End]) st"
proof -
  obtain c where c: "ops ! s = LoopStart c 0" "if cs then s < unat c \<and> unat c \<le> length ops else c = 0"
    and s: "s < length ops" using shape_top [OF assms(1)] by auto
  have u: "unat (of_nat (s + 1) :: u32) = s + 1" "unat (of_nat (length ops + 1) :: u32) = length ops + 1"
    using assms(2) s by (intro unat_of_nat_u32; simp)+
  show ?thesis
    by (rule shape_close [OF assms(1)])
      (use c s u in \<open>auto simp: same_kind_def nth_append simp del: of_nat_Suc of_nat_add split: if_splits\<close>)
qed

lemma shape_end_block:
  assumes "shape_inv ops (BeBlock s # st)" and "length ops + 1 < 2 ^ 32"
  shows "shape_inv (ops[s := Block (of_nat (length ops + 1))] @ [End]) st"
proof -
  have c: "ops ! s = Block 0" and s: "s < length ops" using shape_top [OF assms(1)] by auto
  have u: "unat (of_nat (length ops + 1) :: u32) = length ops + 1"
    using assms(2) by (intro unat_of_nat_u32) simp
  show ?thesis
    by (rule shape_close [OF assms(1)])
      (use c s u in \<open>auto simp: same_kind_def nth_append simp del: of_nat_Suc of_nat_add\<close>)
qed


text \<open>The body once the pending arm of a switch is patched to end here.\<close>

definition arm_patched :: "LpirOp list \<Rightarrow> nat option \<Rightarrow> LpirOp list" where
  "arm_patched ops pending =
     (case pending of None \<Rightarrow> ops | Some p \<Rightarrow> ops[p := set_arm_end (of_nat (length ops)) (ops ! p)])"

lemma length_arm_patched [simp]: "length (arm_patched ops pending) = length ops"
  by (simp add: arm_patched_def split: option.split)

lemma set_arm_end_kind: "same_kind op (set_arm_end off op)"
  by (cases op) (simp_all add: same_kind_def set_arm_end_def)

lemma grows_arm_patched: "grows ops (arm_patched ops pending @ ops')"
proof (cases pending)
  case (Some p)
  then show ?thesis
    using set_arm_end_kind [of "ops ! p"]
    by (cases "p < length ops") (auto simp: arm_patched_def grows_append list_update_beyond intro: grows_patch)
qed (simp add: arm_patched_def grows_append)

lemma positions_head: "s \<in> set (positions (BeSwitch s pending))"
  by (cases pending) simp_all

lemma arm_patched_nth: "k \<notin> set (positions (BeSwitch s pending)) \<Longrightarrow> arm_patched ops pending ! k = ops ! k"
  by (cases pending) (auto simp: arm_patched_def)

lemma arm_patched_head: "shape_inv ops (BeSwitch s pending # st) \<Longrightarrow> arm_patched ops pending ! s = ops ! s"
  by (cases pending) (auto simp: arm_patched_def shape_inv_def)

lemma shape_push_arm:
  assumes "shape_inv ops (BeSwitch s pending # st)" and "length ops < 2 ^ 32"
    and "op = CaseStart v 0 \<or> op = DefaultStart 0"
  shows "shape_inv (arm_patched ops pending @ [op]) (BeSwitch s (Some (length ops)) # st)"
proof -
  obtain sel where sel: "ops ! s = SwitchStart sel 0" and s: "s < length ops"
    using shape_top [OF assms(1)] by (cases pending) auto
  have "shape_inv (arm_patched ops pending @ [op]) ([BeSwitch s (Some (length ops))] @ st)"
  proof (rule shape_step [where es = "[BeSwitch s pending]" and ops = ops])
    fix i
    assume i: "i < length (arm_patched ops pending @ [op])"
      "i \<notin> set (open_positions [BeSwitch s (Some (length ops))])"
      "i \<in> set (open_positions [BeSwitch s pending]) \<or> length ops \<le> i"
    then have p: "pending = Some i" and "i < length ops" by (cases pending; auto)+
    then have "is_arm_op (ops ! i)" using shape_top [OF assms(1)] by auto
    then show "offsets_wf (arm_patched ops pending @ [op]) i ((arm_patched ops pending @ [op]) ! i)"
      using assms(2,3) p \<open>i < length ops\<close>
      by (cases "ops ! i") (auto simp: nth_append arm_patched_def set_arm_end_def unat_of_nat_u32)
  qed (use assms(1,3) s sel in \<open>auto simp: nth_append arm_patched_nth arm_patched_head grows_arm_patched positions_head\<close>)
  then show ?thesis by simp
qed

lemma shape_end_switch:
  assumes "shape_inv ops (BeSwitch s pending # st)" and "length ops + 1 < 2 ^ 32"
  shows "shape_inv ((arm_patched ops pending)[s := (case ops ! s of
      SwitchStart selector _ \<Rightarrow> SwitchStart selector (of_nat (length ops + 1)) | _ \<Rightarrow> ops ! s)] @ [End]) st"
    (is "shape_inv ?ops _")
proof -
  obtain sel where sel: "ops ! s = SwitchStart sel 0" and s: "s < length ops"
    using shape_top [OF assms(1)] by (cases pending) auto
  have u: "unat (of_nat (length ops) :: u32) = length ops" "unat (of_nat (length ops + 1) :: u32) = length ops + 1"
    using assms(2) by (intro unat_of_nat_u32; simp)+
  have "shape_inv ?ops ([] @ st)"
  proof (rule shape_step [where es = "[BeSwitch s pending]" and ops = ops])
    show "grows ops ?ops"
      using grows_arm_patched [of ops pending "[]"] sel s arm_patched_head [OF assms(1)]
      by (auto simp: grows_def nth_append nth_list_update same_kind_def)
    fix i
    assume i: "i < length ?ops" "i \<in> set (open_positions [BeSwitch s pending]) \<or> length ops \<le> i"
    then consider "i = length ops" | "i = s" | "pending = Some i" "i < length ops" "i \<noteq> s" by (cases pending) (auto simp: less_Suc_eq)
    then show "offsets_wf ?ops i (?ops ! i)"
    proof cases
      case 3
      then have "is_arm_op (ops ! i)" using shape_top [OF assms(1)] by auto
      then show ?thesis
        using 3 u s by (cases "ops ! i") (auto simp: nth_append arm_patched_def set_arm_end_def)
    qed (use s sel u in \<open>auto simp: nth_append simp del: of_nat_Suc of_nat_add\<close>)
  qed (use assms(1) s positions_head [of s pending] in \<open>auto simp: nth_append nth_list_update arm_patched_nth\<close>)
  then show ?thesis by simp
qed


section \<open>The shape is an invariant\<close>

lemma patch_after_push:
  assumes "s < length (fb_body b)"
  shows "patch s g ((push_op op b)\<lparr>fb_block_stack := st\<rparr>)
    = Some (b\<lparr>fb_body := (fb_body b)[s := g (fb_body b ! s)] @ [op], fb_block_stack := st\<rparr>)"
  using assms by (simp add: patch_def push_op_def nth_append list_update_append)

definition fb_shape :: "FunctionBuilder \<Rightarrow> bool" where
  "fb_shape b \<longleftrightarrow> (length (fb_body b) < 2 ^ 32 \<longrightarrow> shape_inv (fb_body b) (fb_block_stack b))"

lemma fb_shape_push_else:
  assumes "fb_shape b" and "push_else b = Some b'"
  shows "fb_shape b'"
proof -
  obtain s st where st: "fb_block_stack b = BeIf s # st" and s: "s < length (fb_body b)"
    and b': "fb_body b' = (fb_body b)[s := set_else_offset (of_nat (length (fb_body b))) (fb_body b ! s)] @ [Else]"
      "fb_block_stack b' = BeElse s # st"
    using assms(2) by (auto simp: push_else_def patch_def push_entry_def push_op_def
        split: list.splits BlockEntry.splits if_splits)
  show ?thesis
    using assms(1) shape_push_else [of "fb_body b" s st] by (simp add: fb_shape_def st b')
qed

lemma fb_shape_end_if:
  assumes "fb_shape b" and "end_if b = Some b'"
  shows "fb_shape b'"
proof (cases "length (fb_body b) + 1 < 2 ^ 32")
  case True
  then have inv: "shape_inv (fb_body b) (fb_block_stack b)" using assms(1) by (simp add: fb_shape_def)
  consider s st where "fb_block_stack b = BeIf s # st" | s st where "fb_block_stack b = BeElse s # st"
    using assms(2) by (auto simp: end_if_def Let_def split: list.splits BlockEntry.splits)
  then show ?thesis
  proof cases
    case (1 s st)
    then have "s < length (fb_body b)" using inv shape_top by fastforce
    with 1 assms(2) shape_end_if [of "fb_body b" s st] inv True show ?thesis
      by (auto simp: end_if_def Let_def patch_after_push fb_shape_def simp del: of_nat_Suc of_nat_add)
  next
    case (2 s st)
    then have "s < length (fb_body b)" using inv shape_top by fastforce
    with 2 assms(2) shape_end_else [of "fb_body b" s st] inv True show ?thesis
      by (auto simp: end_if_def Let_def patch_after_push fb_shape_def simp del: of_nat_Suc of_nat_add)
  qed
next
  case False
  moreover have "length (fb_body b') = length (fb_body b) + 1"
    using assms(2) by (auto simp: end_if_def Let_def patch_def push_op_def split: list.splits BlockEntry.splits if_splits)
  ultimately show ?thesis by (simp add: fb_shape_def)
qed


lemma fb_shape_continuing:
  assumes "fb_shape b" and "push_continuing b = Some b'"
  shows "fb_shape b'"
proof -
  obtain s st where st: "fb_block_stack b = BeLoop s False # st"
    using assms(2) by (auto simp: push_continuing_def split: list.splits BlockEntry.splits if_splits)
  have len: "length (fb_body b') = length (fb_body b)"
    using assms(2) by (auto simp: push_continuing_def patch_def split: list.splits BlockEntry.splits if_splits)
  have "shape_inv (fb_body b') (fb_block_stack b')" if "length (fb_body b) < 2 ^ 32"
  proof -
    have inv: "shape_inv (fb_body b) (BeLoop s False # st)" using assms(1) that by (simp add: fb_shape_def st)
    then obtain c where "s < length (fb_body b)" "fb_body b ! s = LoopStart c 0" using shape_top by fastforce
    with assms(2) shape_continuing [OF inv that] show ?thesis
      by (auto simp: push_continuing_def patch_def st)
  qed
  then show ?thesis by (simp add: fb_shape_def len)
qed

lemma fb_shape_end_loop:
  assumes "fb_shape b" and "end_loop b = Some b'"
  shows "fb_shape b'"
proof -
  obtain s cs st where st: "fb_block_stack b = BeLoop s cs # st"
    using assms(2) by (auto simp: end_loop_def Let_def split: list.splits BlockEntry.splits)
  have len: "length (fb_body b') = length (fb_body b) + 1"
    using assms(2) by (auto simp: end_loop_def Let_def patch_def push_op_def split: list.splits BlockEntry.splits if_splits)
  have "shape_inv (fb_body b') (fb_block_stack b')" if "length (fb_body b) + 1 < 2 ^ 32"
  proof -
    have inv: "shape_inv (fb_body b) (BeLoop s cs # st)" using assms(1) that by (simp add: fb_shape_def st)
    then obtain c where "s < length (fb_body b)" "fb_body b ! s = LoopStart c 0" using shape_top by fastforce
    with assms(2) shape_end_loop [OF inv that] show ?thesis
      by (auto simp: end_loop_def Let_def patch_after_push st)
  qed
  then show ?thesis by (simp add: fb_shape_def len)
qed

lemma fb_shape_end_block:
  assumes "fb_shape b" and "end_block b = Some b'"
  shows "fb_shape b'"
proof -
  obtain s st where st: "fb_block_stack b = BeBlock s # st"
    using assms(2) by (auto simp: end_block_def Let_def split: list.splits BlockEntry.splits)
  have len: "length (fb_body b') = length (fb_body b) + 1"
    using assms(2) by (auto simp: end_block_def Let_def patch_def push_op_def
        split: list.splits BlockEntry.splits if_splits LpirOp.splits)
  have "shape_inv (fb_body b') (fb_block_stack b')" if "length (fb_body b) + 1 < 2 ^ 32"
  proof -
    have inv: "shape_inv (fb_body b) (BeBlock s # st)" using assms(1) that by (simp add: fb_shape_def st)
    then have "s < length (fb_body b)" using shape_top by fastforce
    moreover have "fb_body b ! s = Block 0" using shape_top [OF inv] by simp
    ultimately show ?thesis
      using assms(2) shape_end_block [OF inv that]
      by (auto simp: end_block_def Let_def patch_after_push st push_op_def patch_def nth_append list_update_append
          simp del: of_nat_Suc of_nat_add)
  qed
  then show ?thesis by (simp add: fb_shape_def len)
qed

lemma patch_switch_pending:
  assumes "patch_switch_pending_to_here b = Some b'"
  obtains s pending st where "fb_block_stack b = BeSwitch s pending # st"
    "b' = b\<lparr>fb_body := arm_patched (fb_body b) pending, fb_block_stack := BeSwitch s None # st\<rparr>"
  using assms
  by (auto simp: patch_switch_pending_to_here_def arm_patched_def patch_def
      split: list.splits BlockEntry.splits option.splits if_splits)

lemma fb_shape_push_arm:
  assumes "fb_shape b" and "push_arm op b = Some b'" and "op = CaseStart v 0 \<or> op = DefaultStart 0"
  shows "fb_shape b'"
proof -
  obtain b1 where b1: "patch_switch_pending_to_here b = Some b1"
    using assms(2) by (auto simp: push_arm_def split: option.splits)
  then obtain s pending st where st: "fb_block_stack b = BeSwitch s pending # st"
    "b1 = b\<lparr>fb_body := arm_patched (fb_body b) pending, fb_block_stack := BeSwitch s None # st\<rparr>"
    by (rule patch_switch_pending)
  then have "fb_body b' = arm_patched (fb_body b) pending @ [op]"
    "fb_block_stack b' = BeSwitch s (Some (length (fb_body b))) # st"
    using assms(2) b1 by (auto simp: push_arm_def push_op_def)
  with assms(1,3) st(1) shape_push_arm [of "fb_body b" s pending st op] show ?thesis
    by (simp add: fb_shape_def)
qed

lemma fb_shape_end_switch:
  assumes "fb_shape b" and "end_switch b = Some b'"
  shows "fb_shape b'"
proof -
  obtain b1 where b1: "patch_switch_pending_to_here b = Some b1"
    using assms(2) by (auto simp: end_switch_def Let_def split: option.splits)
  then obtain s pending st where st: "fb_block_stack b = BeSwitch s pending # st"
    "b1 = b\<lparr>fb_body := arm_patched (fb_body b) pending, fb_block_stack := BeSwitch s None # st\<rparr>"
    by (rule patch_switch_pending)
  have len: "length (fb_body b') = length (fb_body b) + 1"
    using assms(2) b1 st(2) by (auto simp: end_switch_def Let_def patch_def push_op_def split: if_splits)
  have "shape_inv (fb_body b') (fb_block_stack b')" if "length (fb_body b) + 1 < 2 ^ 32"
  proof -
    have inv: "shape_inv (fb_body b) (BeSwitch s pending # st)" using assms(1) that by (simp add: fb_shape_def st)
    then obtain sel where "s < length (fb_body b1)" "fb_body b ! s = SwitchStart sel 0"
      using shape_top [OF inv] positions_head [of s pending] st(2) by auto
    with assms(2) b1 shape_end_switch [OF inv that] arm_patched_head [OF inv] show ?thesis
      by (auto simp: end_switch_def Let_def patch_after_push st(2))
  qed
  then show ?thesis by (simp add: fb_shape_def len)
qed

lemmas fb_shape_methods = fb_shape_push_else fb_shape_end_if fb_shape_continuing fb_shape_end_loop
  fb_shape_end_block fb_shape_end_switch

lemma fb_shape_plain:
  assumes "fb_shape b" and "\<And>ops. offsets_wf ops (length (fb_body b)) op"
  shows "fb_shape (push_op op b)"
  using assms shape_plain [of "fb_body b" "fb_block_stack b" op] by (simp add: fb_shape_def push_op_def)

lemma fb_shape_open:
  assumes "fb_shape b" and "entry_ok (fb_body b @ [op]) e" and "positions e = [length (fb_body b)]"
  shows "fb_shape (push_entry e (push_op op b))"
  using assms shape_open [of "fb_body b" "fb_block_stack b" op e]
  by (simp add: fb_shape_def push_op_def push_entry_def)

lemma fb_shape_same:
  "fb_shape b \<Longrightarrow> fb_body b' = fb_body b \<Longrightarrow> fb_block_stack b' = fb_block_stack b \<Longrightarrow> fb_shape b'"
  by (simp add: fb_shape_def)

lemma record_vreg_def_body:
  "record_vreg_def v ty b = Inr b' \<Longrightarrow> fb_body b' = fb_body b \<and> fb_block_stack b' = fb_block_stack b"
  by (auto simp: record_vreg_def_def Let_def split: option.splits if_splits)

lemma built_shape: "built b \<Longrightarrow> fb_shape b"
proof (induction rule: built.induct)
  case (built_new name rets)
  then show ?case by (simp add: fb_shape_def fb_new_def shape_inv_def)
next
  case (built_sret b v b')
  then show ?case
    by (auto simp: add_sret_param_def Let_def split: if_splits elim!: fb_shape_same)
next
  case (built_record b v ty b')
  then show ?case using record_vreg_def_body fb_shape_same by metis
next
  case (built_push b op)
  then show ?case by (intro fb_shape_plain) (cases op; simp)+
next
  case (built_close b peek b')
  then have "b' = end_switch_arm b \<or> end_if b = Some b' \<or> end_block b = Some b' \<or> end_loop b = Some b' \<or> end_switch b = Some b'"
    by (auto simp: close_brace_for_text_def Let_def split: list.splits BlockEntry.splits if_splits)
  with built_close show ?case
    by (auto simp: end_switch_arm_def intro: fb_shape_methods fb_shape_plain)
next
  case (built_case b v b')
  then show ?case unfolding push_case_def by (blast intro: fb_shape_push_arm)
next
  case (built_default b b')
  then show ?case unfolding push_default_def by (blast intro: fb_shape_push_arm)
next
  case (built_call b args results callee)
  then show ?case
    unfolding push_call_def Let_def by (intro fb_shape_plain) (auto elim!: fb_shape_same)
next
  case (built_return b vals)
  then show ?case
    unfolding push_return_def by (intro fb_shape_plain) (auto elim!: fb_shape_same)
qed (auto simp: set_entry_def add_param_def alloc_vreg_def alloc_slot_def push_if_def push_loop_def
    push_block_def push_switch_def push_exit_block_def end_switch_arm_def nth_append
    elim: fb_shape_same intro: fb_shape_methods fb_shape_plain fb_shape_open)


section \<open>Registers, slots and the pool\<close>

definition counters_inv :: "FunctionBuilder \<Rightarrow> bool" where
  "counters_inv b \<longleftrightarrow>
     (length (fb_vreg_types b) < 2 ^ 32 \<longrightarrow> unat (fb_next_vreg b) = length (fb_vreg_types b)) \<and>
     (length (fb_slots b) < 2 ^ 32 \<longrightarrow> unat (fb_next_slot b) = length (fb_slots b))"

definition range_in_pool :: "FunctionBuilder \<Rightarrow> VRegRange \<Rightarrow> bool" where
  "range_in_pool b r \<longleftrightarrow> unat (vr_start r) + unat (vr_count r) \<le> length (fb_vreg_pool b)"

fun ranges_ok :: "FunctionBuilder \<Rightarrow> LpirOp \<Rightarrow> bool" where
  "ranges_ok b (Call _ args results) \<longleftrightarrow> range_in_pool b args \<and> range_in_pool b results"
| "ranges_ok b (Return vals) \<longleftrightarrow> range_in_pool b vals"
| "ranges_ok b _ \<longleftrightarrow> True"

definition pool_inv :: "FunctionBuilder \<Rightarrow> bool" where
  "pool_inv b \<longleftrightarrow> (length (fb_vreg_pool b) < 2 ^ 32 \<longrightarrow> list_all (ranges_ok b) (fb_body b))"

lemma unat_succ_u32: "unat (w :: u32) = n \<Longrightarrow> n + 1 < 2 ^ 32 \<Longrightarrow> unat (w + 1) = n + 1"
  by (simp add: unat_word_ariths(1))

text \<open>What the methods for control flow have in common: they change the body and the block stack only,
  and the operations they add or rewrite have no operand ranges.\<close>

fun no_ranges :: "LpirOp \<Rightarrow> bool" where
  "no_ranges (Call _ _ _) = False"
| "no_ranges (Return _) = False"
| "no_ranges _ = True"

definition adds_markers :: "FunctionBuilder \<Rightarrow> FunctionBuilder \<Rightarrow> bool" where
  "adds_markers b b' \<longleftrightarrow>
     fb_vreg_pool b' = fb_vreg_pool b \<and> fb_vreg_types b' = fb_vreg_types b \<and>
     fb_next_vreg b' = fb_next_vreg b \<and> fb_slots b' = fb_slots b \<and> fb_next_slot b' = fb_next_slot b \<and>
     (\<forall>op \<in> set (fb_body b'). op \<in> set (fb_body b) \<or> no_ranges op)"

lemma adds_markers_refl: "adds_markers b b"
  by (simp add: adds_markers_def)

lemma adds_markers_trans: "adds_markers b b' \<Longrightarrow> adds_markers b' b'' \<Longrightarrow> adds_markers b b''"
  unfolding adds_markers_def by metis

lemma adds_markers_push: "adds_markers b0 b \<Longrightarrow> no_ranges op \<Longrightarrow> adds_markers b0 (push_op op b)"
  by (auto simp: adds_markers_def push_op_def)

lemma adds_markers_stack: "adds_markers b0 b \<Longrightarrow> adds_markers b0 (b\<lparr>fb_block_stack := st\<rparr>)"
  by (simp add: adds_markers_def)

lemma adds_markers_entry: "adds_markers b0 b \<Longrightarrow> adds_markers b0 (push_entry e b)"
  by (simp add: push_entry_def adds_markers_stack)

lemma adds_markers_patch:
  assumes "patch i g b = Some b'" and "adds_markers b0 b" and "\<And>op. g op = op \<or> no_ranges (g op)"
  shows "adds_markers b0 b'"
proof -
  have i: "i < length (fb_body b)" and b': "b' = b\<lparr>fb_body := (fb_body b)[i := g (fb_body b ! i)]\<rparr>"
    using assms(1) by (auto simp: patch_def split: if_splits)
  have "op \<in> set (fb_body b) \<or> no_ranges op" if "op \<in> set (fb_body b')" for op
    using that set_update_subset_insert [of "fb_body b" i "g (fb_body b ! i)"] assms(3) [of "fb_body b ! i"] i
    unfolding b' by (metis FunctionBuilder.select_convs(8) FunctionBuilder.surjective
        FunctionBuilder.update_convs(8) insert_iff nth_mem subset_iff)
  then have "adds_markers b b'" by (simp add: adds_markers_def b')
  with assms(2) show ?thesis by (rule adds_markers_trans)
qed

lemma set_offsets_no_ranges:
  "set_else_offset off op = op \<or> no_ranges (set_else_offset off op)"
  "set_end_offset off op = op \<or> no_ranges (set_end_offset off op)"
  "set_end_offset off' (set_else_offset off op) = op \<or> no_ranges (set_end_offset off' (set_else_offset off op))"
  "set_arm_end off op = op \<or> no_ranges (set_arm_end off op)"
  by (cases op; simp add: set_else_offset_def set_end_offset_def set_arm_end_def)+

lemmas markers = adds_markers_refl adds_markers_push adds_markers_stack adds_markers_entry

lemma push_else_markers: "push_else b = Some b' \<Longrightarrow> adds_markers b b'"
  by (auto simp: push_else_def split: list.splits BlockEntry.splits
      intro!: markers intro: adds_markers_patch [OF _ _ set_offsets_no_ranges(1)])

lemma end_if_markers: "end_if b = Some b' \<Longrightarrow> adds_markers b b'"
  by (auto simp: end_if_def Let_def split: list.splits BlockEntry.splits
      intro!: markers elim!: adds_markers_patch) (metis set_offsets_no_ranges(2,3))+

lemma push_continuing_markers: "push_continuing b = Some b' \<Longrightarrow> adds_markers b b'"
  by (auto simp: push_continuing_def split: list.splits BlockEntry.splits if_splits LpirOp.splits
      intro!: markers elim!: adds_markers_patch)

lemma end_loop_markers: "end_loop b = Some b' \<Longrightarrow> adds_markers b b'"
  by (auto simp: end_loop_def Let_def split: list.splits BlockEntry.splits if_splits LpirOp.splits
      intro!: markers elim!: adds_markers_patch)

lemma end_block_markers: "end_block b = Some b' \<Longrightarrow> adds_markers b b'"
  by (auto simp: end_block_def Let_def split: list.splits BlockEntry.splits if_splits LpirOp.splits
      intro!: markers elim!: adds_markers_patch)

lemma patch_switch_markers: "patch_switch_pending_to_here b = Some b' \<Longrightarrow> adds_markers b b'"
  by (auto simp: patch_switch_pending_to_here_def split: list.splits BlockEntry.splits option.splits
      intro!: markers elim!: adds_markers_patch) (metis set_offsets_no_ranges(4))

lemma push_arm_markers: "push_arm op b = Some b' \<Longrightarrow> no_ranges op \<Longrightarrow> adds_markers b b'"
  by (auto simp: push_arm_def split: option.splits list.splits BlockEntry.splits
      intro!: markers dest: patch_switch_markers)

lemma end_switch_markers: "end_switch b = Some b' \<Longrightarrow> adds_markers b b'"
  by (auto simp: end_switch_def Let_def split: option.splits list.splits BlockEntry.splits LpirOp.splits
      intro!: markers elim!: adds_markers_patch dest: patch_switch_markers)

lemma close_brace_markers:
  assumes "close_brace_for_text peek b = Some (Inr b')"
  shows "adds_markers b b'"
proof -
  have "b' = end_switch_arm b \<or> end_if b = Some b' \<or> end_block b = Some b' \<or> end_loop b = Some b' \<or> end_switch b = Some b'"
    using assms by (auto simp: close_brace_for_text_def Let_def split: list.splits BlockEntry.splits if_splits)
  then show ?thesis
    by (auto simp: end_switch_arm_def intro!: markers
        dest: end_if_markers end_block_markers end_loop_markers end_switch_markers)
qed

lemmas method_markers = push_else_markers end_if_markers push_continuing_markers end_loop_markers
  end_block_markers end_switch_markers close_brace_markers

definition fb_inv :: "FunctionBuilder \<Rightarrow> bool" where
  "fb_inv b \<longleftrightarrow> counters_inv b \<and> pool_inv b"

lemma ranges_ok_pool: "ranges_ok b op \<Longrightarrow> length (fb_vreg_pool b) \<le> length (fb_vreg_pool b') \<Longrightarrow> ranges_ok b' op"
  by (cases op) (auto simp: range_in_pool_def)

lemma no_ranges_ok: "no_ranges op \<Longrightarrow> ranges_ok b op"
  by (cases op) auto

lemma fb_inv_markers:
  assumes "fb_inv b" and "adds_markers b b'"
  shows "fb_inv b'"
proof -
  have "ranges_ok b' op" if "ranges_ok b op" for op
    using ranges_ok_pool [OF that, of b'] assms(2) by (simp add: adds_markers_def)
  with assms show ?thesis
    by (auto simp: fb_inv_def counters_inv_def pool_inv_def adds_markers_def list_all_iff no_ranges_ok)
qed


lemma counters_vreg:
  assumes "counters_inv b" and "fb_vreg_types b' = fb_vreg_types b @ [ty]" and "fb_next_vreg b' = fb_next_vreg b + 1"
    and "fb_slots b' = fb_slots b" and "fb_next_slot b' = fb_next_slot b"
  shows "counters_inv b'"
  using assms unat_succ_u32 [of "fb_next_vreg b" "length (fb_vreg_types b)"] by (simp add: counters_inv_def)

lemma pool_same:
  assumes "pool_inv b" and "fb_body b' = fb_body b" and "fb_vreg_pool b' = fb_vreg_pool b"
  shows "pool_inv b'"
  using assms ranges_ok_pool [of b _ b'] by (auto simp: pool_inv_def list_all_iff)

lemma fb_inv_record:
  assumes "fb_inv b" and "record_vreg_def v ty b = Inr b'"
  shows "fb_inv b'"
proof -
  consider "b' = b" | t where "unat v = length (fb_vreg_types b)"
    "b' = b\<lparr>fb_vreg_types := fb_vreg_types b @ [t], fb_next_vreg := max (fb_next_vreg b) (if v = - 1 then v else v + 1)\<rparr>"
    using assms(2) by (auto simp: record_vreg_def_def Let_def split: option.splits if_splits)
  then show ?thesis
  proof cases
    case (2 t)
    have "unat (fb_next_vreg b') = length (fb_vreg_types b')" if "length (fb_vreg_types b) + 1 < 2 ^ 32"
    proof -
      have n: "unat (fb_next_vreg b) = unat v" using assms(1) that 2 by (simp add: fb_inv_def counters_inv_def)
      have "unat (v + 1) = unat v + 1" using that 2 by (intro unat_succ_u32) simp_all
      moreover from this have "v \<noteq> - 1" by auto
      ultimately show ?thesis using n 2 by (simp add: max_def word_le_nat_alt)
    qed
    then have "counters_inv b'" using assms(1) 2 by (simp add: fb_inv_def counters_inv_def)
    moreover have "pool_inv b'" using assms(1) 2 by (auto simp: fb_inv_def intro: pool_same)
    ultimately show ?thesis by (simp add: fb_inv_def)
  qed (use assms(1) in simp)
qed

lemma range_of_append:
  assumes "length pool < 2 ^ 32" and "length xs < 2 ^ 16"
  shows "unat (of_nat (length pool) :: u32) + unat (of_nat (length xs) :: u16) = length pool + length xs"
  using assms by (simp add: unat_of_nat)

lemma fb_inv_push_call:
  assumes "fb_inv b" and "length args < 2 ^ 16" and "length results < 2 ^ 16"
  shows "fb_inv (push_call callee args results b)" (is "fb_inv ?b")
proof -
  have "list_all (ranges_ok ?b) (fb_body ?b)" if len: "length (fb_vreg_pool ?b) < 2 ^ 32"
  proof -
    have "length (fb_vreg_pool b @ args) < 2 ^ 32" "length (fb_vreg_pool b) < 2 ^ 32"
      using len by (simp_all add: push_call_def push_op_def Let_def)
    note r = range_of_append [OF this(1) assms(3)] range_of_append [OF this(2) assms(2)]
    have "list_all (ranges_ok b) (fb_body b)"
      using assms(1) \<open>length (fb_vreg_pool b) < 2 ^ 32\<close> by (simp add: fb_inv_def pool_inv_def)
    then have "list_all (ranges_ok ?b) (fb_body b)"
      by (elim list.pred_mono_strong) (auto elim!: ranges_ok_pool simp: push_call_def push_op_def Let_def)
    then show ?thesis
      using r by (simp add: push_call_def push_op_def Let_def range_in_pool_def)
  qed
  moreover have "counters_inv ?b"
    using assms(1) by (simp add: fb_inv_def counters_inv_def push_call_def push_op_def Let_def)
  ultimately show ?thesis by (simp add: fb_inv_def pool_inv_def)
qed

lemma fb_inv_push_return:
  assumes "fb_inv b" and "length vals < 2 ^ 16"
  shows "fb_inv (push_return vals b)" (is "fb_inv ?b")
proof -
  have "list_all (ranges_ok ?b) (fb_body ?b)" if len: "length (fb_vreg_pool ?b) < 2 ^ 32"
  proof -
    have n: "length (fb_vreg_pool b) < 2 ^ 32" using len by (simp add: push_return_def push_op_def)
    then have "list_all (ranges_ok b) (fb_body b)" using assms(1) by (simp add: fb_inv_def pool_inv_def)
    then have "list_all (ranges_ok ?b) (fb_body b)"
      by (elim list.pred_mono_strong) (auto elim!: ranges_ok_pool simp: push_return_def push_op_def)
    then show ?thesis
      using range_of_append [OF n assms(2)] by (simp add: push_return_def push_op_def range_in_pool_def)
  qed
  moreover have "counters_inv ?b"
    using assms(1) by (simp add: fb_inv_def counters_inv_def push_return_def push_op_def)
  ultimately show ?thesis by (simp add: fb_inv_def pool_inv_def)
qed

lemma plain_no_ranges: "plain_op op \<Longrightarrow> no_ranges op"
  by (cases op) simp_all

lemma built_inv: "built b \<Longrightarrow> fb_inv b"
proof (induction rule: built.induct)
  case (built_new name rets)
  then show ?case by (simp add: fb_inv_def counters_inv_def pool_inv_def fb_new_def)
next
  case (built_entry b)
  then show ?case by (auto simp: fb_inv_def counters_inv_def set_entry_def intro: pool_same)
next
  case (built_sret b v b')
  then show ?case
    by (auto simp: fb_inv_def add_sret_param_def Let_def split: if_splits intro: counters_vreg pool_same)
next
  case (built_param b ty)
  then show ?case by (auto simp: fb_inv_def add_param_def intro: counters_vreg pool_same)
next
  case (built_vreg b ty)
  then show ?case by (auto simp: fb_inv_def alloc_vreg_def intro: counters_vreg pool_same)
next
  case (built_slot b sz)
  then show ?case
    using unat_succ_u32 [of "fb_next_slot b" "length (fb_slots b)"]
    by (auto simp: fb_inv_def alloc_slot_def counters_inv_def intro: pool_same)
next
  case (built_record b v ty b')
  then show ?case by (auto intro: fb_inv_record)
next
  case (built_push b op)
  then show ?case using fb_inv_markers adds_markers_push adds_markers_refl plain_no_ranges by blast
next
  case (built_case b v b')
  then show ?case using fb_inv_markers push_arm_markers unfolding push_case_def by fastforce
next
  case (built_default b b')
  then show ?case using fb_inv_markers push_arm_markers unfolding push_default_def by fastforce
qed (auto simp: push_if_def push_loop_def push_block_def push_switch_def push_exit_block_def end_switch_arm_def
    intro: fb_inv_push_call fb_inv_push_return intro!: markers elim: fb_inv_markers dest: method_markers)


section \<open>The module builder keeps what is added\<close>

definition add_functions :: "IrFunction list \<Rightarrow> ModuleBuilder \<Rightarrow> ModuleBuilder" where
  "add_functions fs m = fold (\<lambda>f m. snd (add_function f m)) fs m"

lemma of_nat_u16_inj: "i < 65536 \<Longrightarrow> j < 65536 \<Longrightarrow> (of_nat i :: u16) = of_nat j \<longleftrightarrow> i = j"
  by (simp add: word_of_nat_eq_iff take_bit_nat_eq_self)

lemma add_functions_inv:
  "length fs \<le> 65536 \<Longrightarrow>
     vm_inv (mb_functions (add_functions fs mb_new)) \<and>
     (\<forall>i < length fs. vm_get (mb_functions (add_functions fs mb_new)) (of_nat i) = Some (fs ! i)) \<and>
     (length fs < 65536 \<longrightarrow> mb_next_func_id (add_functions fs mb_new) = of_nat (length fs))"
proof (induction fs rule: rev_induct)
  case Nil
  then show ?case by (simp add: add_functions_def mb_new_def vm.inv_new)
next
  case (snoc f fs)
  define m where "m = add_functions fs mb_new"
  from snoc have IH: "vm_inv (mb_functions m)" "\<forall>i < length fs. vm_get (mb_functions m) (of_nat i) = Some (fs ! i)"
    "mb_next_func_id m = of_nat (length fs)" by (simp_all add: m_def)
  have step: "add_functions (fs @ [f]) mb_new = snd (add_function f m)" by (simp add: add_functions_def m_def)
  have "vm_get (snd (vm_insert (mb_functions m) (of_nat (length fs)) f)) (of_nat i) = Some ((fs @ [f]) ! i)"
    if "i < length fs + 1" for i
    using that IH snoc.prems vm.get_ins [OF IH(1), of "of_nat (length fs)" f] of_nat_u16_inj [of i "length fs"]
    by (auto simp: nth_append less_Suc_eq)
  moreover have "(of_nat (length fs) :: u16) \<noteq> 65535" if "length fs + 1 < 65536"
    using of_nat_u16_inj [of "length fs" 65535] that by simp
  ultimately show ?case
    unfolding step using IH by (auto simp: add_function_def Let_def vm.inv_ins)
qed

section \<open>Properties\<close>


text \<open>C20. A register or slot that the builder hands out is new and has the type or size asked for, and
  every operand range in the body lies within the pool.\<close>

theorem builder_allocates_fresh:
  assumes "built b" and "length (fb_vreg_types b) < 2 ^ 32" and "length (fb_slots b) < 2 ^ 32"
    and "length (fb_vreg_pool b) < 2 ^ 32"
  shows "unat (fst (alloc_vreg ty b)) = length (fb_vreg_types b) \<and>
    fb_vreg_types (snd (alloc_vreg ty b)) ! unat (fst (alloc_vreg ty b)) = ty \<and>
    unat (fst (alloc_slot sz b)) = length (fb_slots b) \<and>
    slot_size (fb_slots (snd (alloc_slot sz b)) ! unat (fst (alloc_slot sz b))) = sz \<and>
    list_all (ranges_ok b) (fb_body b)"
proof -
  have "unat (fb_next_vreg b) = length (fb_vreg_types b)" "unat (fb_next_slot b) = length (fb_slots b)"
    "list_all (ranges_ok b) (fb_body b)"
    using built_inv [OF assms(1)] assms(2-4) by (simp_all add: fb_inv_def counters_inv_def pool_inv_def)
  then show ?thesis by (simp add: alloc_vreg_def alloc_slot_def)
qed

text \<open>The operands of a call are found again: in any function whose pool extends the builder's, the
  ranges stored in the call name exactly the arguments and results it was given.\<close>

theorem push_call_operands:
  assumes "length args < 2 ^ 16" and "length results < 2 ^ 16"
    and "length (fb_vreg_pool b) + length args + length results < 2 ^ 32"
    and "vreg_pool f = fb_vreg_pool (push_call callee args results b) @ later"
  shows "\<exists>ra rr. fb_body (push_call callee args results b) = fb_body b @ [Call callee ra rr] \<and>
    pool_slice f ra = args \<and> pool_slice f rr = results"
proof -
  have "length (fb_vreg_pool b) < 2 ^ 32" "length (fb_vreg_pool b @ args) < 2 ^ 32" using assms(3) by simp_all
  note r = range_of_append [OF this(1) assms(1)] range_of_append [OF this(2) assms(2)]
    unat_of_nat_u32 [OF this(1)] unat_of_nat_u32 [OF this(2)]
  show ?thesis
    using assms(4) r by (simp add: push_call_def push_op_def Let_def pool_slice_def)
qed

text \<open>The module builder keeps what it is given: after adding any functions (up to the 65536 that the
  identifiers can name), the identifier handed out for each one still finds it.\<close>

theorem module_builder_keeps:
  assumes "length fs \<le> 65536" and "i < length fs"
  shows "callee_as_function (mb_finish (add_functions fs mb_new)) (CalleeLocal (of_nat i)) = Some (fs ! i) \<and>
    fst (add_function (fs ! i) (add_functions (take i fs) mb_new)) = CalleeLocal (of_nat i)"
  using add_functions_inv [OF assms(1)] add_functions_inv [of "take i fs"] assms
  by (simp add: callee_as_function_def mb_finish_def add_function_def Let_def)

text \<open>C26. Once the identifiers are used up the next function silently replaces the last one: both are
  handed the same identifier.\<close>

theorem module_builder_overwrites:
  assumes "mb_next_func_id m = 65535" and "vm_inv (mb_functions m)"
  shows "let (c1, m1) = add_function f m; (c2, m2) = add_function g m1
    in c1 = c2 \<and> callee_as_function (mb_finish m2) c1 = Some g"
  using assms vm.get_ins [OF vm.inv_ins [OF assms(2)]]
  by (simp add: add_function_def Let_def callee_as_function_def mb_finish_def)

text \<open>C17. Builder and interpreter together: a module whose functions all come from the builder always
  returns under a fuel limit, whatever the arguments and the host.\<close>

theorem built_module_terminates:
  assumes "\<forall>f \<in> set (vm_values (mod_functions md)). \<exists>b. built b \<and> fb_finish b = Some f \<and> length (body f) < 2 ^ 32"
    and "fuel limits = Some n"
  shows "\<exists>r. \<forall>clock > unat n. interpret_with_limits clock h md func_name args st limits = Some r"
proof -
  have "forward_arms (body f)" if f: "f \<in> set (vm_values (mod_functions md))" for f
  proof -
    obtain b where b: "built b" "fb_finish b = Some f" "length (body f) < 2 ^ 32" using assms(1) f by blast
    have "fb_block_stack b = []" "body f = fb_body b"
      using b(2) by (auto simp: fb_finish_def split: if_splits)
    then have "\<forall>i < length (body f). offsets_wf (body f) i (body f ! i)"
      using built_shape [OF b(1)] b(3) by (simp add: fb_shape_def shape_inv_def)
    then have "forward_arm i (body f ! i)" if "i < length (body f)" for i
      using that by (cases "body f ! i") auto
    then show ?thesis by (simp add: forward_arms_def)
  qed
  then have "module_forward md" by (simp add: module_forward_def list_all_iff)
  with assms(2) show ?thesis by (rule fuel_limit_returns)
qed


section \<open>A concrete build\<close>

text \<open>A switch inside a loop, built call by call.\<close>

definition sample_build :: "FunctionBuilder option" where
  "sample_build =
     (let b = push_loop (push_op (IconstI32 1 3) (snd (alloc_vreg I32 (fb_new ''f'' [I32]))))
      in Option.bind (push_case 3 (push_switch 1 b)) (\<lambda>b.
         Option.bind (push_default (end_switch_arm (push_op Break b))) (\<lambda>b.
         Option.bind (end_switch (end_switch_arm b)) (\<lambda>b.
         Option.bind (push_continuing b) (\<lambda>b.
         Option.bind (end_loop b) (\<lambda>b. Some (push_return [1] b)))))))"

definition sample_body :: "LpirOp list" where
  "sample_body = [IconstI32 1 3, LoopStart 9 10, SwitchStart 1 9, CaseStart 3 6, Break, End,
     DefaultStart 8, End, End, End, Return \<lparr>vr_start = 0, vr_count = 1\<rparr>]"

definition sample_function :: IrFunction where
  "sample_function = bare_function ''f'' [I32] [I32] sample_body [1]"

lemma sample_build_run: "Option.bind sample_build fb_finish = Some sample_function"
  by code_simp

lemma sample_built: "\<exists>b. built b \<and> fb_finish b = Some sample_function"
proof -
  define b0 where "b0 = push_loop (push_op (IconstI32 1 3) (snd (alloc_vreg I32 (fb_new ''f'' [I32]))))"
  obtain b where "sample_build = Some b" and fin: "fb_finish b = Some sample_function"
    using sample_build_run by (auto simp: bind_eq_Some_conv)
  then obtain b1 b2 b3 b4 b5 where steps: "push_case 3 (push_switch 1 b0) = Some b1"
    "push_default (end_switch_arm (push_op Break b1)) = Some b2" "end_switch (end_switch_arm b2) = Some b3"
    "push_continuing b3 = Some b4" "end_loop b4 = Some b5" "b = push_return [1] b5"
    by (auto simp: sample_build_def Let_def bind_eq_Some_conv b0_def)
  have "built b0" by (simp add: b0_def built_loop built_push built_vreg built_new)
  then have "built b1" using steps(1) by (blast intro: built_case built_switch)
  then have "built (push_op Break b1)" by (simp add: built_push)
  then have "built b2" using steps(2) by (blast intro: built_default built_end_arm)
  then have "built b3" using steps(3) by (blast intro: built_end_switch built_end_arm)
  then have "built b4" using steps(4) by (rule built_continuing)
  then have "built b5" using steps(5) by (rule built_end_loop)
  then have "built b" using steps(6) by (simp add: built_return)
  with fin show ?thesis by blast
qed


lemma builder_allocates_fresh_witness:
  "unat (fst (alloc_vreg F32 (fb_new ''f'' []))) = 1 \<and> unat (fst (alloc_slot 16 (fb_new ''f'' []))) = 0"
  using builder_allocates_fresh [OF built_new, of "''f''" "[]" F32 16] by (simp add: fb_new_def)

lemma push_call_operands_witness:
  "\<exists>ra rr. fb_body (push_call (CalleeLocal 0) [0, 5] [7] (fb_new ''f'' [])) = [Call (CalleeLocal 0) ra rr] \<and>
    pool_slice (bare_function ''f'' [] [] [] [0, 5, 7, 9]) ra = [0, 5] \<and>
    pool_slice (bare_function ''f'' [] [] [] [0, 5, 7, 9]) rr = [7]"
  using push_call_operands [of "[0, 5]" "[7]" "fb_new ''f'' []" "bare_function ''f'' [] [] [] [0, 5, 7, 9]"
      "CalleeLocal 0" "[9]"]
  by (simp add: fb_new_def push_call_def push_op_def Let_def bare_function_def)

lemma module_builder_keeps_witness:
  "callee_as_function (mb_finish (add_functions [sample_function, sample_function] mb_new)) (CalleeLocal 1)
     = Some sample_function"
  using module_builder_keeps [of "[sample_function, sample_function]" 1] by simp

lemma module_builder_overwrites_witness:
  "let m = mb_new\<lparr>mb_next_func_id := 65535\<rparr>; (c1, m1) = add_function sample_function m;
       (c2, m2) = add_function sample_function m1
   in c1 = c2 \<and> callee_as_function (mb_finish m2) c1 = Some sample_function"
  using module_builder_overwrites [of "mb_new\<lparr>mb_next_func_id := 65535\<rparr>" sample_function sample_function]
  by (simp add: mb_new_def vm.inv_new Let_def)

lemma built_module_terminates_witness:
  "\<exists>r. \<forall>clock > 50. interpret_with_limits clock bare_host (one_function_module sample_function) ''f'' [] ()
     (with_fuel 50) = Some r"
proof -
  have "\<exists>b. built b \<and> fb_finish b = Some sample_function \<and> length (body sample_function) < 2 ^ 32"
    using sample_built by (auto simp: sample_function_def bare_function_def sample_body_def)
  then show ?thesis
    using built_module_terminates [of "one_function_module sample_function" "with_fuel 50" 50 bare_host "''f''" "[]" "()"]
    by (simp add: one_function_module_def vm_values_def with_fuel_def)
qed

end
