(* ===== verification/Link_Cobs.thy ===== *)
theory Link_Cobs
  imports Prelude
begin

text \<open>
  Byte stuffing of the device link, \<^verbatim>\<open>lp-base/lp-link/src/cobs.rs\<close>: plain COBS, and the COBS-FF variant that
  keeps both \<open>0x00\<close> and \<open>0xFF\<close> off the wire. An output vector passed by reference is an argument and the
  result; a decoder that fails returns \<open>Inl\<close>. Loops over an index \<open>i\<close> run on the suffix from \<open>i\<close>.
\<close>

lemma drop_eq_Cons_length: "drop n xs = y # ys \<Longrightarrow> length xs = n + length ys + 1"
  by (drule arg_cong [where f = length]) simp

section \<open>Plain COBS\<close>

datatype CobsError = CobsError

text \<open>The state of the encoding loop: the output, the position of the current block's code byte, and the
  code so far.\<close>

definition cobs_put :: "u8 \<Rightarrow> u8 list \<times> nat \<times> u8 \<Rightarrow> u8 list \<times> nat \<times> u8" where
  "cobs_put b = (\<lambda>(out, code_at, code).
     if b = 0 then (out[code_at := code] @ [0], length out, 1)
     else let out = out @ [b]; code = code + 1
          in if code = 0xFF then (out[code_at := code] @ [0], length out, 1) else (out, code_at, code))"

definition encode_into :: "u8 list \<Rightarrow> u8 list \<Rightarrow> u8 list" where
  "encode_into src out =
     (let (out, code_at, code) = fold cobs_put src (out @ [0], length out, 1) in out[code_at := code])"

function decode_into :: "u8 list \<Rightarrow> u8 list \<Rightarrow> CobsError + u8 list" where
  "decode_into [] out = Inr out"
| "decode_into (code # src) out =
     (if code = 0 then Inl CobsError
      else let n = unat code - 1
           in if n > length src then Inl CobsError
              else let out = out @ take n src; src = drop n src
                   in decode_into src (if code \<noteq> 0xFF \<and> src \<noteq> [] then out @ [0] else out))"
  by pat_completeness auto
termination
  by (relation "measure (length \<circ> fst)") auto

definition max_encoded_len :: "nat \<Rightarrow> nat" where
  "max_encoded_len n = n + n div 254 + 1"

section \<open>COBS-FF\<close>

definition FF_FULL :: u8 where "FF_FULL = 0xFE"

definition ESC :: u8 where "ESC = 0xFE"

definition ESC_FF :: u8 where "ESC_FF = 0x00"

definition ESC_FE :: u8 where "ESC_FE = 0x01"

definition FF_BLOCK :: nat where "FF_BLOCK = unat FF_FULL - 1"

definition max_encoded_no_ff_len :: "nat \<Rightarrow> nat" where
  "max_encoded_no_ff_len n = (let m = 2 * n in m + m div 253 + 1)"

record FfBlock =
  code_at :: nat
  ff_len :: nat

definition ff_open :: "u8 list \<Rightarrow> FfBlock \<times> u8 list" where
  "ff_open out = (\<lparr>code_at = length out, ff_len = 0\<rparr>, out @ [0])"

definition ff_finish :: "FfBlock \<Rightarrow> u8 list \<Rightarrow> u8 list" where
  "ff_finish block out = out[code_at block := of_nat (ff_len block) + 1]"

definition ff_close :: "FfBlock \<Rightarrow> u8 list \<Rightarrow> FfBlock \<times> u8 list" where
  "ff_close block out = ff_open (ff_finish block out)"

definition ff_put :: "u8 \<Rightarrow> FfBlock \<Rightarrow> u8 list \<Rightarrow> FfBlock \<times> u8 list" where
  "ff_put b block out =
     (let out = out @ [b]; block = block\<lparr>ff_len := ff_len block + 1\<rparr>
      in if ff_len block = FF_BLOCK then ff_close block out else (block, out))"

text \<open>The bytes that stop a run.\<close>

definition ff_special :: "u8 \<Rightarrow> bool" where
  "ff_special b \<longleftrightarrow> b = 0 \<or> b \<ge> ESC"

text \<open>What the encoder does with the byte that stopped a run.\<close>

definition ff_escape :: "u8 \<Rightarrow> FfBlock \<Rightarrow> u8 list \<Rightarrow> FfBlock \<times> u8 list" where
  "ff_escape b block out =
     (if b = 0 then ff_close block out
      else if b = 0xFF then (case ff_put ESC block out of (block, out) \<Rightarrow> ff_close block out)
      else (case ff_put ESC block out of (block, out) \<Rightarrow> ff_put ESC_FE block out))"

text \<open>The run the encoder copies: up to the end, the room in the block or the first special byte.\<close>

definition ff_run :: "FfBlock \<Rightarrow> u8 list \<Rightarrow> nat" where
  "ff_run block rest =
     length (takeWhile (\<lambda>b. \<not> ff_special b) (take (min (length rest) (FF_BLOCK - ff_len block)) rest))"

text \<open>The loop of the encoder. A block never holds more than \<^const>\<open>FF_BLOCK\<close> bytes; the recursion stops
  there, which makes it total.\<close>

function ff_loop :: "FfBlock \<Rightarrow> u8 list \<Rightarrow> u8 list \<Rightarrow> FfBlock \<times> u8 list" where
  "ff_loop block rest out =
     (if rest = [] \<or> ff_len block \<ge> FF_BLOCK then (block, out)
      else let lim = min (length rest) (FF_BLOCK - ff_len block);
               run = ff_run block rest;
               out = out @ take run rest;
               block = block\<lparr>ff_len := ff_len block + run\<rparr>;
               (block, out) = (if ff_len block = FF_BLOCK then ff_close block out else (block, out))
           in case drop run rest of
                [] \<Rightarrow> (block, out)
              | b # tail \<Rightarrow>
                  if run < lim then (case ff_escape b block out of (block, out) \<Rightarrow> ff_loop block tail out)
                  else ff_loop block (b # tail) out)"
  by pat_completeness auto
termination
  by (relation "measure (\<lambda>(block, rest, out). length rest)") (auto dest: drop_eq_Cons_length)

definition encode_no_ff_into :: "u8 list \<Rightarrow> u8 list \<Rightarrow> u8 list" where
  "encode_no_ff_into src out =
     (case ff_open out of (block, out) \<Rightarrow>
        (case ff_loop block src out of (block, out) \<Rightarrow> ff_finish block out))"

text \<open>Decoding: first the blocks, then the escapes.\<close>

function ff_blocks :: "u8 list \<Rightarrow> u8 list \<Rightarrow> CobsError + u8 list" where
  "ff_blocks [] out = Inr out"
| "ff_blocks (code # src) out =
     (if code = 0 \<or> code = 0xFF then Inl CobsError
      else let n = unat code - 1
           in if n > length src then Inl CobsError
              else let block = take n src; src = drop n src
                   in if 0xFF \<in> set block then Inl CobsError
                      else ff_blocks src (if code \<noteq> FF_FULL \<and> src \<noteq> [] then out @ block @ [0] else out @ block))"
  by pat_completeness auto
termination
  by (relation "measure (length \<circ> fst)") auto

definition copy_within :: "u8 list \<Rightarrow> nat \<Rightarrow> nat \<Rightarrow> nat \<Rightarrow> u8 list" where
  "copy_within out from n to = take to out @ take n (drop from out) @ drop (to + n) out"

function unescape :: "nat \<Rightarrow> u8 list \<Rightarrow> nat \<Rightarrow> nat \<Rightarrow> CobsError + u8 list" where
  "unescape end out r w =
     (if r < end then
        let run = length (takeWhile (\<lambda>b. b \<noteq> ESC) (drop r out));
            out = (if w \<noteq> r then copy_within out r run w else out);
            r = r + run; w = w + run
        in if r = end then Inr (take w out)
           else if r + 1 < length out \<and> out ! (r + 1) = ESC_FF then unescape end (out[w := 0xFF]) (r + 2) (w + 1)
           else if r + 1 < length out \<and> out ! (r + 1) = ESC_FE then unescape end (out[w := 0xFE]) (r + 2) (w + 1)
           else Inl CobsError
      else Inr (take w out))"
  by pat_completeness auto
termination
  by (relation "measure (\<lambda>(end, out, r, w). end - r)") auto

declare ff_loop.simps [simp del] unescape.simps [simp del]

definition decode_no_ff_into :: "u8 list \<Rightarrow> u8 list \<Rightarrow> CobsError + u8 list" where
  "decode_no_ff_into src out =
     (case ff_blocks src out of
        Inl e \<Rightarrow> Inl e
      | Inr out' \<Rightarrow> unescape (length out') out' (length out) (length out))"

section \<open>Blocks\<close>

text \<open>What the two decoders promise about a block, and what the encoders rely on: \<open>full\<close> is the number of data
  bytes of a full block, \<open>ok\<close> the bytes allowed on the wire.\<close>

locale stuffing =
  fixes dec :: "u8 list \<Rightarrow> u8 list \<Rightarrow> CobsError + u8 list"
    and full :: nat
    and ok :: "u8 \<Rightarrow> bool"
  assumes full_pos: "0 < full"
    and code_ok: "n \<le> full \<Longrightarrow> ok (of_nat n + 1)"
    and dec_full: "length cur = full \<Longrightarrow> list_all ok cur \<Longrightarrow>
      dec ((of_nat full + 1) # cur @ rest) out = dec rest (out @ cur)"
    and dec_zero: "length cur < full \<Longrightarrow> list_all ok cur \<Longrightarrow> rest \<noteq> [] \<Longrightarrow>
      dec ((of_nat (length cur) + 1) # cur @ rest) out = dec rest (out @ cur @ [0])"
    and dec_last: "length cur < full \<Longrightarrow> list_all ok cur \<Longrightarrow>
      dec ((of_nat (length cur) + 1) # cur) out = Inr (out @ cur)"
begin

text \<open>Finished blocks \<open>w\<close> that stand for \<open>d\<close>.\<close>

definition closed :: "u8 list \<Rightarrow> u8 list \<Rightarrow> bool" where
  "closed w d \<longleftrightarrow> list_all ok w \<and> length w \<le> length d + length d div full \<and>
     (\<forall>rest out. rest \<noteq> [] \<longrightarrow> dec (w @ rest) out = dec rest (out @ d))"

text \<open>An encoder in mid-block: behind \<open>o0\<close> it has written blocks and an open block of \<open>len\<close> bytes whose code goes
  to position \<open>at\<close>; together they stand for \<open>p\<close>.\<close>

definition stuffed :: "u8 list \<Rightarrow> u8 list \<Rightarrow> nat \<Rightarrow> nat \<Rightarrow> u8 list \<Rightarrow> bool" where
  "stuffed o0 out at len p \<longleftrightarrow> (\<exists>w d cur. out = o0 @ w @ 0 # cur \<and> at = length o0 + length w \<and> len = length cur \<and>
     p = d @ cur \<and> closed w d \<and> list_all ok cur \<and> length cur < full)"

lemma closed_Nil: "closed [] []"
  by (simp add: closed_def)

lemma closed_zero:
  assumes "closed w d" and "list_all ok cur" and "length cur < full"
  shows "closed (w @ (of_nat (length cur) + 1) # cur) (d @ cur @ [0])"
proof -
  have "length d div full \<le> (length d + length cur + 1) div full"
    by (rule div_le_mono) simp
  then show ?thesis
    using assms code_ok [of "length cur"] dec_zero [OF assms(3,2)] by (simp add: closed_def)
qed

lemma closed_full:
  assumes "closed w d" and "list_all ok cur" and "length cur = full"
  shows "closed (w @ (of_nat full + 1) # cur) (d @ cur)"
proof -
  have "(length d + full) div full = length d div full + 1"
    using full_pos div_add_self2 [of full "length d"] by simp
  then show ?thesis
    using assms code_ok [of full] dec_full [OF assms(3,2)] by (simp add: closed_def)
qed

lemma stuffed_open: "stuffed o0 (o0 @ [0]) (length o0) 0 []"
  unfolding stuffed_def using closed_Nil full_pos by force

lemma stuffed_len: "stuffed o0 out at len p \<Longrightarrow> len < full \<and> at < length out"
  by (auto simp: stuffed_def)

lemma stuffed_run:
  assumes "stuffed o0 out at len p" and "list_all ok xs" and "len + length xs < full"
  shows "stuffed o0 (out @ xs) at (len + length xs) (p @ xs)"
proof -
  from assms(1) obtain w d cur where c: "out = o0 @ w @ 0 # cur" "at = length o0 + length w" "len = length cur"
    "p = d @ cur" "closed w d" "list_all ok cur" unfolding stuffed_def by blast
  then show ?thesis
    unfolding stuffed_def using assms by (intro exI [of _ w] exI [of _ d] exI [of _ "cur @ xs"]) simp
qed

lemma stuffed_full:
  assumes "stuffed o0 out at len p" and "list_all ok xs" and "len + length xs = full"
  shows "stuffed o0 ((out @ xs)[at := of_nat full + 1] @ [0]) (length (out @ xs)) 0 (p @ xs)"
proof -
  from assms(1) obtain w d cur where c: "out = o0 @ w @ 0 # cur" "at = length o0 + length w" "len = length cur"
    "p = d @ cur" "closed w d" "list_all ok cur" unfolding stuffed_def by blast
  then have "closed (w @ (of_nat full + 1) # cur @ xs) (d @ cur @ xs)"
    using assms closed_full [of w d "cur @ xs"] by simp
  then show ?thesis
    unfolding stuffed_def using c full_pos
    by (intro exI [of _ "w @ (of_nat full + 1) # cur @ xs"] exI [of _ "d @ cur @ xs"] exI [of _ "[]"])
       (simp add: list_update_append)
qed

lemma stuffed_zero:
  assumes "stuffed o0 out at len p"
  shows "stuffed o0 (out[at := of_nat len + 1] @ [0]) (length out) 0 (p @ [0])"
proof -
  from assms obtain w d cur where c: "out = o0 @ w @ 0 # cur" "at = length o0 + length w" "len = length cur"
    "p = d @ cur" "closed w d" "list_all ok cur" "length cur < full" unfolding stuffed_def by blast
  then show ?thesis
    unfolding stuffed_def using closed_zero [OF c(5-7)] full_pos
    by (intro exI [of _ "w @ (of_nat len + 1) # cur"] exI [of _ "d @ cur @ [0]"] exI [of _ "[]"])
       (simp add: list_update_append)
qed

text \<open>The finished encoding decodes to what it stands for, holds only allowed bytes and is short.\<close>

definition encodes :: "u8 list \<Rightarrow> u8 list \<Rightarrow> bool" where
  "encodes e p \<longleftrightarrow> (\<forall>out. dec e out = Inr (out @ p)) \<and> list_all ok e \<and> e \<noteq> [] \<and>
     length e \<le> length p + length p div full + 1"

lemma stuffed_finish:
  assumes "stuffed o0 out at len p"
  obtains e where "out[at := of_nat len + 1] = o0 @ e" "encodes e p"
proof -
  from assms obtain w d cur where c: "out = o0 @ w @ 0 # cur" "at = length o0 + length w" "len = length cur"
    "p = d @ cur" "closed w d" "list_all ok cur" "length cur < full" unfolding stuffed_def by blast
  have "length d div full \<le> (length d + length cur) div full"
    by (rule div_le_mono) simp
  then have "encodes (w @ (of_nat len + 1) # cur) p"
    using c dec_last [OF c(7,6)] code_ok [of len] by (simp add: closed_def encodes_def)
  then show thesis using that c by (simp add: list_update_append)
qed

end

lemma u8_code: "n \<le> 254 \<Longrightarrow> unat (of_nat n + 1 :: u8) = n + 1"
proof -
  assume "n \<le> 254"
  then have "unat (of_nat (n + 1) :: u8) = n + 1" by (simp add: unat_of_nat take_bit_nat_eq_self del: of_nat_add of_nat_Suc)
  then show ?thesis by (simp add: add.commute)
qed

lemma u8_code_neq: "n \<le> 254 \<Longrightarrow> (of_nat n + 1 :: u8) \<noteq> 0"
  using u8_code [of n] by force

lemma u8_code_eq_iff: "n \<le> 254 \<Longrightarrow> 0 < unat c \<Longrightarrow> (of_nat n + 1 :: u8) = c \<longleftrightarrow> n = unat c - 1"
  using u8_code [of n] by (auto simp: word_unat_eq_iff)

interpretation cobs: stuffing decode_into 254 "\<lambda>b. b \<noteq> 0"
proof (unfold_locales, goal_cases)
  case (2 n)
  then show ?case by (rule u8_code_neq)
next
  case (3 cur rest out)
  then show ?case using u8_code [of 254] by simp
next
  case (4 cur rest out)
  then show ?case using u8_code [of "length cur"] u8_code_neq [of "length cur"] u8_code_eq_iff [of "length cur" 255] by simp
next
  case (5 cur out)
  then show ?case using u8_code [of "length cur"] u8_code_neq [of "length cur"] by simp
qed simp

interpretation cobs_ff: stuffing ff_blocks 253 "\<lambda>b. b \<noteq> 0 \<and> b \<noteq> 0xFF"
proof (unfold_locales, goal_cases)
  case (2 n)
  then show ?case using u8_code_neq [of n] u8_code_eq_iff [of n 255] by simp
next
  case (3 cur rest out)
  then show ?case using u8_code [of 253] by (auto simp: list_all_iff FF_FULL_def)
next
  case (4 cur rest out)
  then show ?case
    using u8_code [of "length cur"] u8_code_neq [of "length cur"] u8_code_eq_iff [of "length cur" 255]
      u8_code_eq_iff [of "length cur" 254]
    by (auto simp: list_all_iff FF_FULL_def)
next
  case (5 cur out)
  then show ?case
    using u8_code [of "length cur"] u8_code_neq [of "length cur"] u8_code_eq_iff [of "length cur" 255]
    by (auto simp: list_all_iff FF_FULL_def)
qed simp

section \<open>Plain COBS is inverted by its decoder\<close>

lemma cobs_put_stuffed:
  assumes "cobs.stuffed o0 out at len p"
  shows "\<exists>out' at' len'. cobs_put b (out, at, of_nat len + 1) = (out', at', of_nat len' + 1) \<and>
    cobs.stuffed o0 out' at' len' (p @ [b])"
proof -
  have len: "len < 254" using cobs.stuffed_len [OF assms] by simp
  consider "b = 0" | "b \<noteq> 0" "len + 1 < 254" | "b \<noteq> 0" "len + 1 = 254"
    using len by linarith
  then show ?thesis
  proof cases
    case 1
    then show ?thesis
      using cobs.stuffed_zero [OF assms] by (force simp: cobs_put_def)
  next
    case 2
    then have "of_nat (len + 1) + 1 \<noteq> (0xFF :: u8)"
      using u8_code_eq_iff [of "len + 1" "0xFF"] by simp
    then show ?thesis
      using 2 cobs.stuffed_run [OF assms, of "[b]"]
      by (intro exI [of _ "out @ [b]"] exI [of _ at] exI [of _ "len + 1"]) (simp add: cobs_put_def Let_def algebra_simps)
  next
    case 3
    then have "of_nat (len + 1) + 1 = (0xFF :: u8)" by simp
    then have "cobs_put b (out, at, of_nat len + 1) = ((out @ [b])[at := 0xFF] @ [0], length (out @ [b]), 1)"
      using 3 by (simp add: cobs_put_def Let_def algebra_simps)
    moreover have "(of_nat 254 + 1 :: u8) = 0xFF" by simp
    ultimately show ?thesis
      using 3 cobs.stuffed_full [OF assms, of "[b]"]
      by (intro exI [of _ "(out @ [b])[at := 0xFF] @ [0]"] exI [of _ "length (out @ [b])"] exI [of _ 0]) simp
  qed
qed

lemma cobs_fold_stuffed:
  "cobs.stuffed o0 out at len p \<Longrightarrow>
   \<exists>out' at' len'. fold cobs_put src (out, at, of_nat len + 1) = (out', at', of_nat len' + 1) \<and>
     cobs.stuffed o0 out' at' len' (p @ src)"
proof (induction src arbitrary: out at len p)
  case (Cons b src)
  from cobs_put_stuffed [OF Cons.prems, of b] obtain out' at' len' where
    "cobs_put b (out, at, of_nat len + 1) = (out', at', of_nat len' + 1)" "cobs.stuffed o0 out' at' len' (p @ [b])"
    by blast
  with Cons.IH [of out' at' len' "p @ [b]"] show ?case by simp
qed force

lemma encode_into_encodes: "\<exists>e. encode_into src out = out @ e \<and> cobs.encodes e src"
proof -
  from cobs_fold_stuffed [OF cobs.stuffed_open [of out], of src] obtain out' at' len' where
    f: "fold cobs_put src (out @ [0], length out, 1) = (out', at', of_nat len' + 1)"
    and s: "cobs.stuffed out out' at' len' src" by auto
  from s obtain e where "out'[at' := of_nat len' + 1] = out @ e" "cobs.encodes e src"
    by (rule cobs.stuffed_finish)
  then show ?thesis by (auto simp: encode_into_def f)
qed

section \<open>COBS-FF is inverted by its decoder\<close>

text \<open>The escape step as a function on bytes.\<close>

definition esc :: "u8 \<Rightarrow> u8 list" where
  "esc b = (if b = 0xFF then [ESC, ESC_FF] else if b = 0xFE then [ESC, ESC_FE] else [b])"

abbreviation escs :: "u8 list \<Rightarrow> u8 list" where
  "escs xs \<equiv> concat (map esc xs)"

abbreviation ff_stuffed :: "u8 list \<Rightarrow> FfBlock \<times> u8 list \<Rightarrow> u8 list \<Rightarrow> bool" where
  "ff_stuffed o0 s p \<equiv> cobs_ff.stuffed o0 (snd s) (code_at (fst s)) (ff_len (fst s)) p"

lemma FF_BLOCK_eq [simp]: "FF_BLOCK = 253"
  by (simp add: FF_BLOCK_def FF_FULL_def)

lemma ff_special_iff: "ff_special b \<longleftrightarrow> b = 0 \<or> b = 0xFE \<or> b = 0xFF"
proof -
  have "b \<ge> 0xFE \<longleftrightarrow> b = 0xFE \<or> b = 0xFF"
    using unsigned_less [of b, where ?'a = nat] by (auto simp: word_le_nat_alt word_unat_eq_iff)
  then show ?thesis by (simp add: ff_special_def ESC_def)
qed

lemma escs_plain: "list_all (\<lambda>b. \<not> ff_special b) xs \<Longrightarrow> escs xs = xs"
  by (induction xs) (auto simp: esc_def ff_special_iff)

lemma ff_close_zero: "ff_stuffed o0 (block, out) p \<Longrightarrow> ff_stuffed o0 (ff_close block out) (p @ [0])"
  using cobs_ff.stuffed_zero [of o0 out "code_at block" "ff_len block" p]
  by (simp add: ff_close_def ff_open_def ff_finish_def)

text \<open>A run of bytes, closing the block when it becomes full.\<close>

lemma ff_run_stuffed:
  assumes "ff_stuffed o0 (block, out) p" and "list_all (\<lambda>b. b \<noteq> 0 \<and> b \<noteq> 0xFF) xs" and "ff_len block + length xs \<le> 253"
  shows "ff_stuffed o0 (if ff_len block + length xs = 253
      then ff_close (block\<lparr>ff_len := ff_len block + length xs\<rparr>) (out @ xs)
      else (block\<lparr>ff_len := ff_len block + length xs\<rparr>, out @ xs)) (p @ xs)"
proof (cases "ff_len block + length xs = 253")
  case True
  then show ?thesis
    using cobs_ff.stuffed_full [of o0 out "code_at block" "ff_len block" p xs] assms
    by (simp add: ff_close_def ff_open_def ff_finish_def)
next
  case False
  then show ?thesis
    using cobs_ff.stuffed_run [of o0 out "code_at block" "ff_len block" p xs] assms by simp
qed

lemma ff_put_stuffed:
  assumes "ff_stuffed o0 (block, out) p" and "b \<noteq> 0" and "b \<noteq> 0xFF"
  shows "ff_stuffed o0 (ff_put b block out) (p @ [b])"
  using ff_run_stuffed [OF assms(1), of "[b]"] cobs_ff.stuffed_len [OF assms(1)] assms(2,3)
  by (simp add: ff_put_def Let_def split: if_splits)

lemma ff_escape_stuffed:
  assumes "ff_stuffed o0 (block, out) p" and "ff_special b"
  shows "ff_stuffed o0 (ff_escape b block out) (p @ esc b)"
proof -
  obtain block' out' where put: "ff_put ESC block out = (block', out')" by fastforce
  have s: "ff_stuffed o0 (block', out') (p @ [ESC])"
    using ff_put_stuffed [OF assms(1), of ESC] unfolding put by (simp add: ESC_def)
  from assms(2) consider "b = 0" | "b = 0xFE" | "b = 0xFF" by (auto simp: ff_special_iff)
  then show ?thesis
  proof cases
    case 1
    then show ?thesis using ff_close_zero [OF assms(1)] by (simp add: ff_escape_def esc_def)
  next
    case 2
    then show ?thesis
      using ff_put_stuffed [OF s, of ESC_FE] put by (simp add: ff_escape_def esc_def ESC_FE_def)
  next
    case 3
    then show ?thesis
      using ff_close_zero [OF s] put by (simp add: ff_escape_def esc_def ESC_FF_def)
  qed
qed

text \<open>The bytes of a run and the byte after it.\<close>

lemma ff_run_split:
  fixes block rest
  defines "run \<equiv> ff_run block rest" and "lim \<equiv> min (length rest) (FF_BLOCK - ff_len block)"
  shows "list_all (\<lambda>b. \<not> ff_special b) (take run rest)" and "run \<le> lim"
    and "run < lim \<Longrightarrow> drop run rest = b # tail \<Longrightarrow> ff_special b"
proof -
  define xs where "xs = take lim rest"
  have r: "run = length (takeWhile (\<lambda>b. \<not> ff_special b) xs)"
    by (simp add: run_def ff_run_def xs_def lim_def)
  show le: "run \<le> lim"
    using length_takeWhile_le [of "\<lambda>b. \<not> ff_special b" xs] by (simp add: r xs_def lim_def)
  have "take run rest = take run xs" using le by (simp add: xs_def)
  also have "\<dots> = takeWhile (\<lambda>b. \<not> ff_special b) xs" unfolding r by (metis takeWhile_eq_take)
  finally show "list_all (\<lambda>b. \<not> ff_special b) (take run rest)"
    by (metis (mono_tags, lifting) list_all_iff set_takeWhileD)
  assume lt: "run < lim" and d: "drop run rest = b # tail"
  then have "b = rest ! run" by (metis nth_via_drop)
  also have "rest ! run = xs ! run" using lt by (simp add: xs_def)
  also have "ff_special \<dots>"
    using nth_length_takeWhile [of "\<lambda>b. \<not> ff_special b" xs] lt by (simp add: r xs_def lim_def)
  finally show "ff_special b" .
qed

lemma ff_loop_stuffed: "ff_stuffed o0 (block, out) p \<Longrightarrow> ff_stuffed o0 (ff_loop block rest out) (p @ escs rest)"
proof (induction block rest out arbitrary: p rule: ff_loop.induct)
  case (1 block rest out)
  have len: "ff_len block < 253" using cobs_ff.stuffed_len [OF "1.prems"] by simp
  show ?case
  proof (cases "rest = []")
    case True
    then show ?thesis using "1.prems" by (simp add: ff_loop.simps)
  next
    case False
    define lim where "lim = min (length rest) (FF_BLOCK - ff_len block)"
    define run where "run = ff_run block rest"
    note split = ff_run_split [where block = block and rest = rest, folded run_def lim_def]
    define xs where "xs = take run rest"
    have xs: "length xs = run" "list_all (\<lambda>b. \<not> ff_special b) xs" "ff_len block + length xs \<le> 253"
      using split(1,2) len by (auto simp: xs_def lim_def)
    obtain block' out' where st: "(if ff_len block + run = 253
      then ff_close (block\<lparr>ff_len := ff_len block + run\<rparr>) (out @ xs)
      else (block\<lparr>ff_len := ff_len block + run\<rparr>, out @ xs)) = (block', out')" by fastforce
    have "list_all (\<lambda>b. b \<noteq> 0 \<and> b \<noteq> 0xFF) xs"
      using xs(2) by (auto simp: list_all_iff ff_special_iff)
    from ff_run_stuffed [OF "1.prems" this xs(3)] have s: "ff_stuffed o0 (block', out') (p @ xs)"
      unfolding xs(1) st .
    have e: "escs rest = xs @ escs (drop run rest)"
      using escs_plain [OF xs(2)] append_take_drop_id [of run rest] unfolding xs_def
      by (metis concat_append map_append)
    have unf: "ff_loop block rest out = (case drop run rest of [] \<Rightarrow> (block', out')
        | b # tail \<Rightarrow> if run < lim then (case ff_escape b block' out' of (block, out) \<Rightarrow> ff_loop block tail out)
            else ff_loop block' (b # tail) out')"
      using False len st
      by (subst ff_loop.simps) (cases "ff_len block + run = 253"; simp add: Let_def run_def [symmetric] lim_def xs_def split: list.split)
    show ?thesis
    proof (cases "drop run rest")
      case Nil
      then show ?thesis using s e unf by simp
    next
      case (Cons b tail)
      obtain block'' out'' where es: "ff_escape b block' out' = (block'', out'')" by fastforce
      have st': "(block', out') = (if ff_len (block\<lparr>ff_len := ff_len block + run\<rparr>) = FF_BLOCK
          then ff_close (block\<lparr>ff_len := ff_len block + run\<rparr>) (out @ take run rest)
          else (block\<lparr>ff_len := ff_len block + run\<rparr>, out @ take run rest))"
        using st by (auto simp: xs_def split: if_splits)
      have cond: "\<not> (rest = [] \<or> FF_BLOCK \<le> ff_len block)" using False len by simp
      show ?thesis
      proof (cases "run < lim")
        case True
        have "ff_stuffed o0 (block'', out'') (p @ xs @ esc b)"
          using ff_escape_stuffed [OF s split(3) [OF True Cons]] unfolding es by simp
        from "1.IH"(1) [OF cond lim_def run_def refl refl refl st' Cons True es [symmetric] this]
        show ?thesis using st True Cons e unf es by (simp add: xs_def)
      next
        case False
        from "1.IH"(2) [OF cond lim_def run_def refl refl refl st' Cons False s]
        show ?thesis using st False Cons e unf by (simp add: xs_def)
      qed
    qed
  qed
qed

lemma encode_no_ff_into_encodes: "\<exists>e. encode_no_ff_into src out = out @ e \<and> cobs_ff.encodes e (escs src)"
proof -
  obtain block out' where l: "ff_loop \<lparr>code_at = length out, ff_len = 0\<rparr> src (out @ [0]) = (block, out')" by fastforce
  have "ff_stuffed out (\<lparr>code_at = length out, ff_len = 0\<rparr>, out @ [0]) []"
    using cobs_ff.stuffed_open by simp
  from ff_loop_stuffed [OF this, of src] have "ff_stuffed out (block, out') (escs src)"
    unfolding l by simp
  then obtain e where "out'[code_at block := of_nat (ff_len block) + 1] = out @ e" "cobs_ff.encodes e (escs src)"
    unfolding fst_conv snd_conv by (rule cobs_ff.stuffed_finish)
  then show ?thesis
    by (auto simp: encode_no_ff_into_def ff_open_def l ff_finish_def)
qed

lemma takeWhile_escs:
  "takeWhile (\<lambda>b. b \<noteq> ESC) (escs xs) = takeWhile (\<lambda>b. b \<noteq> 0xFE \<and> b \<noteq> 0xFF) xs"
  by (induction xs) (auto simp: esc_def ESC_def)

lemma drop_escs:
  "drop (length (takeWhile (\<lambda>b. b \<noteq> 0xFE \<and> b \<noteq> 0xFF) xs)) (escs xs) = escs (dropWhile (\<lambda>b. b \<noteq> 0xFE \<and> b \<noteq> 0xFF) xs)"
  by (induction xs) (auto simp: esc_def)

lemma copy_within_run:
  assumes "w \<le> r" and "r \<le> length out" and "drop r out = ys @ zs"
  shows "(if w \<noteq> r then copy_within out r (length ys) w else out) = take w out @ ys @ drop (w + length ys) out"
proof (cases "w = r")
  case True
  have "drop (w + length ys) out = zs"
    using assms(3) True by (metis add.commute append_eq_conv_conj drop_drop)
  then show ?thesis using assms(3) True append_take_drop_id [of r out] by simp
qed (simp add: copy_within_def assms(3))

lemma unescape_escs:
  "w \<le> r \<Longrightarrow> r \<le> length out \<Longrightarrow> drop r out = escs xs \<Longrightarrow> unescape (length out) out r w = Inr (take w out @ xs)"
proof (induction "length xs" arbitrary: xs out r w rule: less_induct)
  case less
  define ys where "ys = takeWhile (\<lambda>b. b \<noteq> 0xFE \<and> b \<noteq> 0xFF) xs"
  define zs where "zs = dropWhile (\<lambda>b. b \<noteq> 0xFE \<and> b \<noteq> 0xFF) xs"
  define out' where "out' = take w out @ ys @ drop (w + length ys) out"
  have xs: "xs = ys @ zs" by (simp add: ys_def zs_def)
  have split: "drop r out = ys @ escs zs"
    using drop_escs [of xs] takeWhile_escs [of xs] takeWhile_dropWhile_id [of "\<lambda>b. b \<noteq> ESC" "escs xs"] less.prems(3)
    by (metis dropWhile_eq_drop ys_def zs_def)
  have run: "length (takeWhile (\<lambda>b. b \<noteq> ESC) (drop r out)) = length ys"
    using less.prems(3) by (simp add: takeWhile_escs ys_def)
  have len: "length out = r + length ys + length (escs zs)"
    using arg_cong [OF split, of length] less.prems(2) by simp
  have len': "length out' = length out"
    using less.prems(1,2) len by (simp add: out'_def)
  have tail: "drop (r + length ys) out' = escs zs"
  proof -
    have "drop (r + length ys) out' = drop (r + length ys) out"
      using less.prems(1) len by (simp add: out'_def)
    then show ?thesis using split by (metis add.commute append_eq_conv_conj drop_drop)
  qed
  have front: "take (w + length ys) out' = take w out @ ys"
    using less.prems(1,2) by (simp add: out'_def)
  have unf: "unescape (length out) out r w =
    (if r < length out then
       if r + length ys = length out then Inr (take (w + length ys) out')
       else if r + length ys + 1 < length out' \<and> out' ! (r + length ys + 1) = ESC_FF
         then unescape (length out) (out'[w + length ys := 0xFF]) (r + length ys + 2) (w + length ys + 1)
       else if r + length ys + 1 < length out' \<and> out' ! (r + length ys + 1) = ESC_FE
         then unescape (length out) (out'[w + length ys := 0xFE]) (r + length ys + 2) (w + length ys + 1)
       else Inl CobsError
     else Inr (take w out))"
    by (subst unescape.simps)
       (simp only: Let_def run copy_within_run [OF less.prems(1,2) split] out'_def)
  show ?case
  proof (cases zs)
    case Nil
    then show ?thesis using unf len xs front by auto
  next
    case (Cons z zs')
    have z: "z = 0xFE \<or> z = 0xFF"
      using Cons unfolding zs_def by (metis (mono_tags, lifting) dropWhile_eq_Cons_conv)
    define esc2 where "esc2 = (if z = 0xFF then ESC_FF else ESC_FE)"
    have escz: "escs zs = ESC # esc2 # escs zs'"
      using z by (auto simp: Cons esc_def esc2_def)
    have l2: "r + length ys + 2 \<le> length out'"
      using len len' escz by simp
    have "out' ! (r + length ys + 1) = drop (r + length ys) out' ! 1"
      using l2 by simp
    then have nth: "out' ! (r + length ys + 1) = esc2" unfolding tail escz by simp
    have step: "unescape (length out) out r w =
        unescape (length out) (out'[w + length ys := z]) (r + length ys + 2) (w + length ys + 1)"
      using unf nth l2 len' z by (auto simp: esc2_def ESC_FF_def ESC_FE_def)
    have d2: "drop (r + length ys + 2) (out'[w + length ys := z]) = escs zs'"
    proof -
      have "drop (r + length ys + 2) (out'[w + length ys := z]) = drop 2 (drop (r + length ys) out')"
        using less.prems(1) by (simp add: add.commute)
      then show ?thesis unfolding tail escz by simp
    qed
    have "unescape (length (out'[w + length ys := z])) (out'[w + length ys := z]) (r + length ys + 2) (w + length ys + 1)
        = Inr (take (w + length ys + 1) (out'[w + length ys := z]) @ zs')"
      using less.prems(1) l2 xs Cons by (intro less.hyps d2) simp_all
    also have "take (w + length ys + 1) (out'[w + length ys := z]) = take w out @ ys @ [z]"
    proof -
      have "w + length ys < length out'" using l2 less.prems(1) by simp
      then have "take (w + length ys + 1) (out'[w + length ys := z]) = take (w + length ys) out' @ [z]"
        by (simp add: take_Suc_conv_app_nth)
      then show ?thesis using front by simp
    qed
    finally show ?thesis using step len' xs Cons by simp
  qed
qed

lemma length_escs: "length (escs xs) \<le> 2 * length xs"
  by (induction xs) (auto simp: esc_def)

lemma cobs_ff_encodes:
  "\<exists>e. encode_no_ff_into src out = out @ e \<and> decode_no_ff_into e out' = Inr (out' @ src) \<and>
     0x00 \<notin> set e \<and> 0xFF \<notin> set e \<and> length e \<le> max_encoded_no_ff_len (length src) \<and> e \<noteq> []"
proof -
  from encode_no_ff_into_encodes [of src out] obtain e where
    e: "encode_no_ff_into src out = out @ e" "cobs_ff.encodes e (escs src)" by blast
  have "ff_blocks e out' = Inr (out' @ escs src)"
    using e(2) by (simp add: cobs_ff.encodes_def)
  then have "decode_no_ff_into e out' = Inr (out' @ src)"
    using unescape_escs [of "length out'" "length out'" "out' @ escs src" src] by (simp add: decode_no_ff_into_def)
  moreover have "length (escs src) div 253 \<le> 2 * length src div 253"
    using length_escs by (rule div_le_mono)
  then have "length e \<le> max_encoded_no_ff_len (length src)"
    using e(2) length_escs [of src] by (simp add: cobs_ff.encodes_def max_encoded_no_ff_len_def Let_def)
  ultimately show ?thesis
    using e by (intro exI [of _ e]) (auto simp: cobs_ff.encodes_def list_all_iff)
qed

section \<open>Properties\<close>

text \<open>C30. Byte stuffing round trip: whatever the bytes and whatever the output already holds, plain COBS and the
  run-by-run COBS-FF encoder are inverted by their decoders; plain COBS puts no \<open>0x00\<close> on the wire, COBS-FF
  neither \<open>0x00\<close> nor \<open>0xFF\<close>, and both keep to the lengths buffers are sized by.\<close>

theorem cobs_roundtrip:
  "(\<exists>e. encode_into src out = out @ e \<and> decode_into e out' = Inr (out' @ src) \<and>
      0x00 \<notin> set e \<and> length e \<le> max_encoded_len (length src)) \<and>
   (\<exists>e. encode_no_ff_into src out = out @ e \<and> decode_no_ff_into e out' = Inr (out' @ src) \<and>
      0x00 \<notin> set e \<and> 0xFF \<notin> set e \<and> length e \<le> max_encoded_no_ff_len (length src))"
proof (rule conjI)
  from encode_into_encodes [of src out] obtain e where "encode_into src out = out @ e" "cobs.encodes e src" by blast
  then show "\<exists>e. encode_into src out = out @ e \<and> decode_into e out' = Inr (out' @ src) \<and>
      0x00 \<notin> set e \<and> length e \<le> max_encoded_len (length src)"
    by (intro exI [of _ e]) (auto simp: cobs.encodes_def max_encoded_len_def list_all_iff)
  show "\<exists>e. encode_no_ff_into src out = out @ e \<and> decode_no_ff_into e out' = Inr (out' @ src) \<and>
      0x00 \<notin> set e \<and> 0xFF \<notin> set e \<and> length e \<le> max_encoded_no_ff_len (length src)"
    using cobs_ff_encodes [of src out out'] by blast
qed

end
