(* ===== verification/Link_Frame.thy ===== *)
theory Link_Frame
  imports Link_Cobs Le_Bytes
begin

text \<open>
  Checksums and frames of the device link, \<^verbatim>\<open>lp-base/lp-link/src/crc.rs\<close> and \<^verbatim>\<open>frame.rs\<close>. The CRC tables are
  computed as in the source; they are shown to agree with the shift registers they tabulate, from which
  follow the two promises the link rests on: a frame keyed for another session never verifies, and
  damage within four consecutive bytes is always detected.
\<close>

section \<open>Checksums\<close>

datatype CrcKind = Crc16 | Crc32c

fun crc_len :: "CrcKind \<Rightarrow> nat" where
  "crc_len Crc16 = 2"
| "crc_len Crc32c = 4"

definition CRC32C_POLY :: u32 where "CRC32C_POLY = 0x82F63B78"

text \<open>One round of each table's inner loop.\<close>

definition crc32c_round :: "u32 \<Rightarrow> u32" where
  "crc32c_round c = (if c AND 1 \<noteq> 0 then drop_bit 1 c XOR CRC32C_POLY else drop_bit 1 c)"

definition crc16_round :: "u16 \<Rightarrow> u16" where
  "crc16_round c = (if c AND 0x8000 \<noteq> 0 then push_bit 1 c XOR 0x1021 else push_bit 1 c)"

definition CRC32C_TABLE :: "u32 list" where
  "CRC32C_TABLE = map (\<lambda>i. (crc32c_round ^^ 8) (of_nat i)) [0..<256]"

definition CRC16_NIBBLES :: "u16 list" where
  "CRC16_NIBBLES = map (\<lambda>i. (crc16_round ^^ 4) (push_bit 12 (of_nat i))) [0..<16]"

definition crc32c_step :: "u8 \<Rightarrow> u32 \<Rightarrow> u32" where
  "crc32c_step b crc = drop_bit 8 crc XOR CRC32C_TABLE ! unat ((crc XOR ucast b) AND 0xFF)"

definition crc32c :: "u32 \<Rightarrow> u8 list \<Rightarrow> u32" where
  "crc32c key data = NOT (fold crc32c_step data (NOT key))"

definition crc16_step :: "u8 \<Rightarrow> u16 \<Rightarrow> u16" where
  "crc16_step b crc =
     (let crc = push_bit 4 crc XOR CRC16_NIBBLES ! unat ((ucast (drop_bit 12 crc) XOR drop_bit 4 b) AND (0xF :: u8))
      in push_bit 4 crc XOR CRC16_NIBBLES ! unat ((ucast (drop_bit 12 crc) XOR b) AND (0xF :: u8)))"

definition crc16_ccitt :: "u16 \<Rightarrow> u8 list \<Rightarrow> u16" where
  "crc16_ccitt init data = fold crc16_step data init"

fun crc_compute :: "CrcKind \<Rightarrow> u32 \<Rightarrow> u8 list \<Rightarrow> u32" where
  "crc_compute Crc16 key data =
     (let key_fold = ucast key XOR ucast (drop_bit 16 key) in ucast (crc16_ccitt (0xFFFF XOR key_fold) data))"
| "crc_compute Crc32c key data = crc32c key data"

section \<open>Frames\<close>

definition HEADER_LEN :: nat where "HEADER_LEN = 4"

definition SYN_LEN :: nat where "SYN_LEN = 12"

definition SACK_LEN :: nat where "SACK_LEN = 4"

definition SYN_ESTABLISHED :: u8 where "SYN_ESTABLISHED = 0x01"

datatype FrameKind = Data | Datagram | Ack | Syn

fun kind_u8 :: "FrameKind \<Rightarrow> u8" where
  "kind_u8 Data = 0"
| "kind_u8 Datagram = 1"
| "kind_u8 Ack = 2"
| "kind_u8 Syn = 3"

record Header =
  h_kind :: FrameKind
  h_fin :: bool
  h_first :: bool
  h_chan :: u8
  h_seq :: u8
  h_ack :: u8
  h_win :: u8

definition header_to_bytes :: "Header \<Rightarrow> u8 list" where
  "header_to_bytes h =
     [kind_u8 (h_kind h) OR push_bit 3 (of_bool (h_fin h)) OR push_bit 4 (of_bool (h_first h)) OR
        push_bit 5 (h_chan h AND 7),
      h_seq h, h_ack h, h_win h]"

definition kind_of :: "u8 \<Rightarrow> FrameKind option" where
  "kind_of b = (let k = b AND 7 in
     if k = 0 then Some Data else if k = 1 then Some Datagram else if k = 2 then Some Ack
     else if k = 3 then Some Syn else None)"

definition header_parse :: "u8 list \<Rightarrow> Header option" where
  "header_parse raw =
     (if length raw < HEADER_LEN then None
      else case kind_of (raw ! 0) of
        None \<Rightarrow> None
      | Some k \<Rightarrow> Some \<lparr>h_kind = k, h_fin = (raw ! 0 AND 0x08 \<noteq> 0), h_first = (raw ! 0 AND 0x10 \<noteq> 0),
          h_chan = drop_bit 5 (raw ! 0), h_seq = raw ! 1, h_ack = raw ! 2, h_win = raw ! 3\<rparr>)"

record SynBody =
  s_nonce :: u32
  s_your :: u32
  s_established :: bool
  s_max_payload :: u16
  s_rx_window :: u8

definition syn_to_bytes :: "SynBody \<Rightarrow> u8 list" where
  "syn_to_bytes s =
     u32_to_le_bytes (s_nonce s) @ u32_to_le_bytes (s_your s) @ [of_bool (s_established s)] @
     u16_to_le_bytes (s_max_payload s) @ [s_rx_window s]"

definition syn_parse :: "u8 list \<Rightarrow> SynBody option" where
  "syn_parse body =
     (if length body < SYN_LEN then None
      else Some \<lparr>s_nonce = le_word (take 4 body), s_your = le_word (take 4 (drop 4 body)),
        s_established = (body ! 8 AND SYN_ESTABLISHED \<noteq> 0), s_max_payload = le_word (take 2 (drop 9 body)),
        s_rx_window = body ! 11\<rparr>)"

definition encode_raw :: "CrcKind \<Rightarrow> u32 \<Rightarrow> Header \<Rightarrow> u8 list \<Rightarrow> u8 list" where
  "encode_raw crc key header body =
     (let raw = header_to_bytes header @ body
      in raw @ take (crc_len crc) (u32_to_le_bytes (crc_compute crc key raw)))"

definition wrap_stream :: "u8 list \<Rightarrow> u8 list" where
  "wrap_stream raw = encode_no_ff_into raw [0] @ [0]"

definition unwrap_stream :: "u8 list \<Rightarrow> u8 list \<Rightarrow> CobsError + u8 list" where
  "unwrap_stream body raw = decode_no_ff_into body raw"

definition wrap_stream_plain :: "u8 list \<Rightarrow> u8 list" where
  "wrap_stream_plain raw = encode_into raw [0] @ [0]"

definition unwrap_stream_plain :: "u8 list \<Rightarrow> u8 list \<Rightarrow> CobsError + u8 list" where
  "unwrap_stream_plain body raw = decode_into body raw"

definition verify :: "CrcKind \<Rightarrow> u32 \<Rightarrow> u8 list \<Rightarrow> u8 list option" where
  "verify crc key raw =
     (let n = crc_len crc
      in if length raw < HEADER_LEN + n then None
         else let data = take (length raw - n) raw; tail = drop (length raw - n) raw
              in if take n (u32_to_le_bytes (crc_compute crc key data)) \<noteq> tail then None
                 else Some (drop HEADER_LEN data))"

definition frame_max_encoded_len :: "nat \<Rightarrow> CrcKind \<Rightarrow> nat" where
  "frame_max_encoded_len body crc = 2 + max_encoded_no_ff_len (HEADER_LEN + body + crc_len crc)"

section \<open>The shift registers behind the tables\<close>

lemma and_1_bit: "(a :: 'a::len word) AND 1 \<noteq> 0 \<longleftrightarrow> bit a 0"
  using and_exp_eq_0_iff_not_bit [of a 0] by simp

lemma and_0x8000_bit: "(a :: u16) AND 0x8000 \<noteq> 0 \<longleftrightarrow> bit a 15"
  using and_exp_eq_0_iff_not_bit [of a 15] by simp

lemma crc32c_round_bit: "crc32c_round c = drop_bit 1 c XOR (if bit c 0 then CRC32C_POLY else 0)"
  by (simp add: crc32c_round_def and_1_bit)

lemma crc16_round_bit: "crc16_round c = push_bit 1 c XOR (if bit c 15 then 0x1021 else 0)"
  by (simp add: crc16_round_def and_0x8000_bit)

text \<open>A register round is linear over exclusive or; so are iterated rounds.\<close>

locale shift_register =
  fixes round :: "'a::len word \<Rightarrow> 'a word"
  assumes round_xor: "round (a XOR b) = round a XOR round b"
begin

lemma rounds_xor: "(round ^^ n) (a XOR b) = (round ^^ n) a XOR (round ^^ n) b"
  by (induction n) (simp_all add: round_xor)

lemma round_zero: "round 0 = 0"
  using round_xor [of 0 0] by simp

lemma rounds_zero: "(round ^^ n) 0 = 0"
  by (induction n) (simp_all add: round_zero)

end

interpretation reg32: shift_register crc32c_round
  by unfold_locales (auto simp: crc32c_round_bit drop_bit_xor bit_xor_iff ac_simps)

interpretation reg16: shift_register crc16_round
  by unfold_locales (auto simp: crc16_round_bit push_bit_xor bit_xor_iff ac_simps)

text \<open>A register that only shifts out zeros is a shift.\<close>

lemma crc32c_rounds_shift: "take_bit n c = 0 \<Longrightarrow> (crc32c_round ^^ n) c = drop_bit n c"
proof (induction n arbitrary: c)
  case (Suc n)
  have b0: "\<not> bit c 0"
    using Suc.prems by (metis bit_0_eq bit_take_bit_iff zero_less_Suc bot_apply bot_bool_def)
  have "take_bit n (drop_bit 1 c) = 0"
    using arg_cong [OF Suc.prems, of "drop_bit 1"] by (simp add: drop_bit_take_bit)
  moreover have "crc32c_round c = drop_bit 1 c" using b0 by (simp add: crc32c_round_bit)
  ultimately show ?case
    using Suc.IH [of "drop_bit 1 c"] by (simp add: funpow_Suc_right drop_bit_drop_bit del: funpow.simps)
qed simp

lemma crc16_rounds_shift:
  "n \<le> 16 \<Longrightarrow> drop_bit (16 - n) c = 0 \<Longrightarrow> (crc16_round ^^ n) c = push_bit n c"
proof (induction n arbitrary: c)
  case (Suc n)
  have b: "\<not> bit c i" if "16 - Suc n \<le> i" for i
    using arg_cong [OF Suc.prems(2), of "\<lambda>w. bit w (i - (16 - Suc n))"] that by (simp add: bit_drop_bit_eq)
  define d where "d = push_bit 1 c"
  have d: "bit d i \<longleftrightarrow> 1 \<le> i \<and> i < 16 \<and> bit c (i - 1)" for i
    unfolding d_def bit_push_bit_iff by auto
  have "drop_bit (16 - n) d = 0"
    using Suc.prems(1) b d by (intro bit_eqI) (auto simp: bit_drop_bit_eq)
  moreover have "crc16_round c = d" using b [of 15] by (simp add: crc16_round_bit d_def)
  moreover have "push_bit n d = push_bit (Suc n) c" by (simp only: d_def push_bit_push_bit) simp
  ultimately show ?case
    using Suc.IH [of d] Suc.prems(1) by (simp add: funpow_Suc_right del: funpow.simps)
qed simp

lemma word_split_low: "(w :: 'a::len word) = push_bit n (drop_bit n w) XOR take_bit n w"
  by (rule bit_eqI) (auto simp: bit_xor_iff bit_push_bit_iff bit_drop_bit_eq bit_take_bit_iff)

lemma CRC32C_TABLE_nth: "CRC32C_TABLE ! unat (w AND 0xFF) = (crc32c_round ^^ 8) (take_bit 8 w)"
proof -
  have "w AND 0xFF = take_bit 8 w" using take_bit_eq_mask [of 8 w] by (simp add: mask_eq_exp_minus_1)
  moreover have "unat (take_bit 8 w) < 256"
    using take_bit_nat_less_exp [of 8 "unat w"] by (simp add: unsigned_take_bit_eq)
  ultimately show ?thesis by (simp add: CRC32C_TABLE_def)
qed

lemma crc32c_step_rounds: "crc32c_step b crc = (crc32c_round ^^ 8) (crc XOR ucast b)"
proof -
  define w where "w = crc XOR ucast b"
  have "\<not> bit b (8 + n)" for n by (auto dest: bit_imp_le_length)
  then have hi: "drop_bit 8 w = drop_bit 8 crc"
    by (intro bit_eqI) (simp add: w_def bit_drop_bit_eq bit_xor_iff bit_ucast_iff)
  have "take_bit 8 (push_bit 8 (drop_bit 8 w)) = 0"
    by (rule bit_eqI) (simp add: bit_take_bit_iff bit_push_bit_iff)
  then have "(crc32c_round ^^ 8) (push_bit 8 (drop_bit 8 w)) = drop_bit 8 (push_bit 8 (drop_bit 8 w))"
    by (rule crc32c_rounds_shift)
  also have "\<dots> = drop_bit 8 w"
    by (rule bit_eqI) (auto simp: bit_drop_bit_eq bit_push_bit_iff dest: bit_imp_le_length)
  finally have "(crc32c_round ^^ 8) w = drop_bit 8 crc XOR (crc32c_round ^^ 8) (take_bit 8 w)"
    using reg32.rounds_xor [of 8 "push_bit 8 (drop_bit 8 w)" "take_bit 8 w"] word_split_low [of w 8] hi by metis
  then show ?thesis
    unfolding crc32c_step_def CRC32C_TABLE_nth by (simp add: w_def)
qed

lemma CRC16_NIBBLES_nth: "CRC16_NIBBLES ! unat (x AND (0xF :: u8)) = (crc16_round ^^ 4) (push_bit 12 (ucast (take_bit 4 x)))"
proof -
  have "x AND 0xF = take_bit 4 x" using take_bit_eq_mask [of 4 x] by (simp add: mask_eq_exp_minus_1)
  moreover have "unat (take_bit 4 x) < 16"
    using take_bit_nat_less_exp [of 4 "unat x"] by (simp add: unsigned_take_bit_eq)
  ultimately show ?thesis by (simp add: CRC16_NIBBLES_def)
qed

text \<open>Four rounds of the 16-bit register take in one nibble.\<close>

lemma crc16_nibble:
  "push_bit 4 crc XOR (crc16_round ^^ 4) (push_bit 12 (ucast (take_bit 4 ((ucast (drop_bit 12 crc) :: u8) XOR x))))
     = (crc16_round ^^ 4) (crc XOR push_bit 12 (ucast x))"
proof -
  define w :: u16 where "w = crc XOR push_bit 12 (ucast x)"
  define lo where "lo = take_bit 12 w"
  define hi :: u16 where "hi = push_bit 12 (ucast (take_bit 4 ((ucast (drop_bit 12 crc) :: u8) XOR x)))"
  have "hi = push_bit 12 (drop_bit 12 w)"
    unfolding hi_def w_def
    by (rule bit_eqI) (auto simp: bit_push_bit_iff bit_ucast_iff bit_take_bit_iff bit_xor_iff bit_drop_bit_eq)
  then have w: "w = hi XOR lo" using word_split_low [of w 12] by (simp add: lo_def)
  have "drop_bit (16 - 4) lo = 0"
    by (rule bit_eqI) (simp add: lo_def bit_drop_bit_eq bit_take_bit_iff)
  then have "(crc16_round ^^ 4) lo = push_bit 4 lo" by (intro crc16_rounds_shift) simp_all
  also have "push_bit 4 lo = push_bit 4 crc"
    by (rule bit_eqI) (auto simp: lo_def w_def bit_push_bit_iff bit_take_bit_iff bit_xor_iff)
  finally show ?thesis
    unfolding w_def [symmetric] hi_def [symmetric] w reg16.rounds_xor by (simp add: xor.commute)
qed

lemma crc16_step_rounds: "crc16_step b crc = (crc16_round ^^ 8) (crc XOR push_bit 8 (ucast b))"
proof -
  define c1 where "c1 = (crc16_round ^^ 4) (crc XOR push_bit 12 (ucast (drop_bit 4 b)))"
  have "crc16_step b crc = (crc16_round ^^ 4) (c1 XOR push_bit 12 (ucast b))"
    unfolding crc16_step_def Let_def CRC16_NIBBLES_nth crc16_nibble c1_def ..
  also have "c1 XOR push_bit 12 (ucast b) = (crc16_round ^^ 4) (crc XOR push_bit 8 (ucast b))"
  proof -
    define lo :: u16 where "lo = push_bit 8 (ucast (take_bit 4 b))"
    have b: "push_bit 8 (ucast b) = push_bit 12 (ucast (drop_bit 4 b)) XOR lo"
      unfolding lo_def
      by (rule bit_eqI) (auto simp: bit_push_bit_iff bit_ucast_iff bit_take_bit_iff bit_xor_iff bit_drop_bit_eq
          dest: bit_imp_le_length)
    have "drop_bit (16 - 4) lo = 0"
      by (rule bit_eqI) (auto simp: lo_def bit_drop_bit_eq bit_take_bit_iff bit_push_bit_iff bit_ucast_iff)
    then have "(crc16_round ^^ 4) lo = push_bit 4 lo" by (intro crc16_rounds_shift) simp_all
    also have "\<dots> = push_bit 12 (ucast b)"
      by (rule bit_eqI) (auto simp: lo_def bit_push_bit_iff bit_take_bit_iff bit_ucast_iff)
    finally show ?thesis
      unfolding b c1_def by (simp only: xor.assoc [symmetric] reg16.rounds_xor)
  qed
  finally show ?thesis by (simp flip: funpow_add [THEN fun_cong, unfolded o_apply])
qed

section \<open>What the checksum detects\<close>

lemma word_xor_cancel: "(a :: 'a::len word) XOR b = a XOR c \<longleftrightarrow> b = c"
  by (auto simp: bit_eq_iff bit_xor_iff)

lemma word_xor_cancel_right: "(b :: 'a::len word) XOR a = c XOR a \<longleftrightarrow> b = c"
  by (auto simp: bit_eq_iff bit_xor_iff)

lemma word_xor_eq_0: "(a :: 'a::len word) XOR b = 0 \<longleftrightarrow> a = b"
  using word_xor_cancel [of a b a] by auto

lemma crc32c_round_eq_0: "crc32c_round c = 0 \<longleftrightarrow> c = 0"
proof
  assume r: "crc32c_round c = 0"
  have "\<not> bit c 32" by (auto dest: bit_imp_le_length)
  then have "bit (crc32c_round c) 31 \<longleftrightarrow> bit c 0"
    by (simp add: crc32c_round_bit bit_xor_iff bit_drop_bit_eq CRC32C_POLY_def)
  with r have b0: "\<not> bit c 0" by simp
  then have "drop_bit 1 c = 0" using r by (simp add: crc32c_round_bit)
  have "\<not> bit c n" for n
  proof (cases n)
    case (Suc m)
    then show ?thesis
      using arg_cong [OF \<open>drop_bit 1 c = 0\<close>, of "\<lambda>w. bit w m"] by (simp add: bit_drop_bit_eq)
  qed (simp add: b0)
  then show "c = 0" by (simp add: bit_eq_iff)
qed (simp add: reg32.round_zero)

lemma crc32c_rounds_inj: "(crc32c_round ^^ n) a = (crc32c_round ^^ n) b \<longleftrightarrow> a = b"
proof (induction n)
  case (Suc n)
  have "(crc32c_round ^^ Suc n) a = (crc32c_round ^^ Suc n) b \<longleftrightarrow>
      crc32c_round ((crc32c_round ^^ n) a XOR (crc32c_round ^^ n) b) = 0"
    by (simp add: reg32.round_xor word_xor_eq_0)
  then show ?case using Suc by (simp add: crc32c_round_eq_0 word_xor_eq_0)
qed simp

text \<open>Up to four bytes are taken in at once, as one little-endian word.\<close>

lemma crc32c_fold_word:
  "length bs \<le> 4 \<Longrightarrow> fold crc32c_step bs crc = (crc32c_round ^^ (8 * length bs)) (crc XOR le_word bs)"
proof (induction bs arbitrary: crc)
  case (Cons b bs)
  define t :: u32 where "t = push_bit 8 (le_word bs)"
  have "take_bit 8 t = 0" by (rule bit_eqI) (simp add: t_def bit_take_bit_iff bit_push_bit_iff)
  then have "(crc32c_round ^^ 8) t = drop_bit 8 t" by (rule crc32c_rounds_shift)
  also have "\<dots> = le_word bs"
  proof (rule bit_eqI)
    fix i
    have "\<not> bit (le_word bs :: u32) i" if "\<not> i < 24"
      using le_word_bound [of bs 3 i] Cons.prems that by simp
    then show "bit (drop_bit 8 t) i = bit (le_word bs :: u32) i"
      by (auto simp: t_def bit_drop_bit_eq bit_push_bit_iff)
  qed
  finally have t: "(crc32c_round ^^ 8) t = le_word bs" .
  have or: "le_word (b # bs) = (ucast b XOR t :: u32)"
    by (rule bit_eqI) (auto simp: t_def bit_or_iff bit_xor_iff bit_push_bit_iff bit_ucast_iff dest: bit_imp_le_length)
  have "fold crc32c_step (b # bs) crc = (crc32c_round ^^ (8 * length bs)) ((crc32c_round ^^ 8) (crc XOR ucast b) XOR le_word bs)"
    using Cons.IH [of "crc32c_step b crc"] Cons.prems by (simp add: crc32c_step_rounds [of b crc])
  also have "(crc32c_round ^^ 8) (crc XOR ucast b) XOR le_word bs = (crc32c_round ^^ 8) (crc XOR le_word (b # bs))"
    unfolding or by (simp only: t [symmetric] reg32.rounds_xor xor.assoc)
  finally show ?case by (simp flip: funpow_add [THEN fun_cong, unfolded o_apply] add: add.commute)
qed simp

lemma crc32c_fold_inj: "fold crc32c_step bs a = fold crc32c_step bs b \<longleftrightarrow> a = b"
proof (induction bs arbitrary: a b)
  case (Cons x bs)
  then show ?case
    using crc32c_rounds_inj [of 8 "a XOR ucast x" "b XOR ucast x"] by (simp add: crc32c_step_rounds word_xor_cancel_right)
qed simp

lemma crc32c_burst:
  "length x = length y \<Longrightarrow> length x \<le> 4 \<Longrightarrow> x \<noteq> y \<Longrightarrow>
   fold crc32c_step (p @ x @ s) a \<noteq> fold crc32c_step (p @ y @ s) a"
  using le_word_inj [of x y] by (auto simp: crc32c_fold_inj crc32c_fold_word crc32c_rounds_inj word_xor_cancel)

text \<open>A frame verifies exactly when the register, run over the whole frame, ends in one fixed state.\<close>

lemma verify_crc32c:
  assumes "8 \<le> length raw"
  shows "verify Crc32c key raw \<noteq> None \<longleftrightarrow> fold crc32c_step raw (NOT key) = (crc32c_round ^^ 32) (NOT 0)"
proof -
  define data where "data = take (length raw - 4) raw"
  define tail where "tail = drop (length raw - 4) raw"
  define s where "s = fold crc32c_step data (NOT key)"
  have raw: "raw = data @ tail" "length tail = 4" using assms by (simp_all add: data_def tail_def)
  have "verify Crc32c key raw \<noteq> None \<longleftrightarrow> u32_to_le_bytes (NOT s) = tail"
    using assms by (simp add: verify_def Let_def HEADER_LEN_def crc32c_def data_def tail_def s_def)
  also have "\<dots> \<longleftrightarrow> NOT s = le_word tail"
    using le_word_inj [of "u32_to_le_bytes (NOT s)" tail] raw(2) by auto
  also have "\<dots> \<longleftrightarrow> s XOR le_word tail = NOT 0"
    by (auto simp: bit_eq_iff bit_xor_iff bit_not_iff)
  also have "\<dots> \<longleftrightarrow> fold crc32c_step raw (NOT key) = (crc32c_round ^^ 32) (NOT 0)"
    using raw(2) by (simp add: raw(1) s_def [symmetric] crc32c_fold_word crc32c_rounds_inj)
  finally show ?thesis .
qed

section \<open>Round trips\<close>

lemma crc_len_le: "crc_len crc \<le> 4"
  by (cases crc) simp_all

lemma length_header [simp]: "length (header_to_bytes h) = 4"
  by (simp add: header_to_bytes_def)

lemma verify_encode_raw: "verify crc key (encode_raw crc key h body) = Some body"
  using crc_len_le [of crc] by (simp add: verify_def encode_raw_def Let_def HEADER_LEN_def)

lemma header_byte0:
  "\<forall>k \<in> {Data, Datagram, Ack, Syn}. \<forall>fin first. \<forall>n \<in> set [0..<8].
     (let b = kind_u8 k OR push_bit 3 (of_bool fin) OR push_bit 4 (of_bool first) OR push_bit 5 (of_nat n AND 7)
      in kind_of b = Some k \<and> (b AND 0x08 \<noteq> 0) = fin \<and> (b AND 0x10 \<noteq> 0) = first \<and> drop_bit 5 b = of_nat n)"
  by code_simp

lemma header_parse_to_bytes:
  assumes "h_chan h < 8"
  shows "header_parse (header_to_bytes h @ rest) = Some h"
proof -
  have "unat (h_chan h) < 8" using assms by (simp add: word_less_nat_alt)
  moreover have "h_chan h = of_nat (unat (h_chan h))" by simp
  moreover have "h_kind h \<in> {Data, Datagram, Ack, Syn}" by (cases "h_kind h") simp_all
  ultimately show ?thesis
    using header_byte0 [rule_format, of "h_kind h" "unat (h_chan h)" "h_fin h" "h_first h"]
    by (simp add: header_parse_def header_to_bytes_def HEADER_LEN_def Let_def)
qed

lemma syn_parse_to_bytes: "syn_parse (syn_to_bytes s @ ext) = Some s"
proof -
  have "le_word (take 4 (syn_to_bytes s @ ext)) = s_nonce s"
    "le_word (take 4 (drop 4 (syn_to_bytes s @ ext))) = s_your s"
    "le_word (take 2 (drop 9 (syn_to_bytes s @ ext))) = s_max_payload s"
    by (simp_all add: syn_to_bytes_def)
  moreover have "(syn_to_bytes s @ ext) ! 8 = of_bool (s_established s)" "(syn_to_bytes s @ ext) ! 11 = s_rx_window s"
    by (simp_all add: syn_to_bytes_def nth_append)
  moreover have "SYN_LEN \<le> length (syn_to_bytes s)" by (simp add: syn_to_bytes_def SYN_LEN_def)
  ultimately show ?thesis
    by (simp add: syn_parse_def SYN_ESTABLISHED_def)
qed

lemma length_encode_raw: "length (encode_raw crc key h body) = HEADER_LEN + length body + crc_len crc"
  using crc_len_le [of crc] by (simp add: encode_raw_def Let_def HEADER_LEN_def)

lemma wrap_stream_body:
  obtains w where "wrap_stream raw = 0 # w @ [0]" "0 \<notin> set w" "0xFF \<notin> set w" "unwrap_stream w [] = Inr raw"
    "length w \<le> max_encoded_no_ff_len (length raw)" "w \<noteq> []"
proof -
  from cobs_ff_encodes [of raw "[0]" "[]"] obtain e where
    e: "encode_no_ff_into raw [0] = [0] @ e" "decode_no_ff_into e [] = Inr raw" "0 \<notin> set e" "0xFF \<notin> set e"
    "length e \<le> max_encoded_no_ff_len (length raw)" "e \<noteq> []" by auto
  then show thesis using that [of e] by (simp add: wrap_stream_def unwrap_stream_def)
qed

section \<open>Properties\<close>

text \<open>C33. The table-driven checksums are the bit-serial registers they tabulate: CRC-32C shifts right by the
  reflected Castagnoli polynomial, CRC-16 shifts left by 0x1021.\<close>

theorem crc_tables_are_registers:
  "crc32c key data = NOT (fold (\<lambda>b crc. (crc32c_round ^^ 8) (crc XOR ucast b)) data (NOT key)) \<and>
   crc16_ccitt init data = fold (\<lambda>b crc. (crc16_round ^^ 8) (crc XOR push_bit 8 (ucast b))) data init"
proof -
  have "crc32c_step = (\<lambda>b crc. (crc32c_round ^^ 8) (crc XOR ucast b))"
    by (intro ext) (rule crc32c_step_rounds)
  moreover have "crc16_step = (\<lambda>b crc. (crc16_round ^^ 8) (crc XOR push_bit 8 (ucast b)))"
    by (intro ext) (rule crc16_step_rounds)
  ultimately show ?thesis by (simp add: crc32c_def crc16_ccitt_def)
qed

text \<open>C32. A frame that verifies under CRC-32C verifies under no other session key, and no longer verifies once up
  to four consecutive bytes of it, checksum included, are changed.\<close>

theorem crc32c_rejects:
  assumes "verify Crc32c key (p @ x @ s) = Some body" and "length y = length x" and "length x \<le> 4"
  shows "(key' \<noteq> key \<longrightarrow> verify Crc32c key' (p @ x @ s) = None) \<and> (y \<noteq> x \<longrightarrow> verify Crc32c key (p @ y @ s) = None)"
proof -
  have len: "8 \<le> length (p @ x @ s)" "8 \<le> length (p @ y @ s)"
    using assms(1,2) by (auto simp: verify_def Let_def HEADER_LEN_def split: if_splits)
  have ok: "fold crc32c_step (p @ x @ s) (NOT key) = (crc32c_round ^^ 32) (NOT 0)"
    using assms(1) verify_crc32c [OF len(1), of key] by blast
  have "fold crc32c_step (p @ x @ s) (NOT key') \<noteq> (crc32c_round ^^ 32) (NOT 0)" if "key' \<noteq> key"
    using that crc32c_fold_inj [of "p @ x @ s" "NOT key'" "NOT key"] unfolding ok by simp
  moreover have "fold crc32c_step (p @ y @ s) (NOT key) \<noteq> (crc32c_round ^^ 32) (NOT 0)" if "y \<noteq> x"
    using that crc32c_burst [of y x p s "NOT key"] assms(2,3) unfolding ok by simp
  ultimately show ?thesis
    using verify_crc32c [OF len(1), of key'] verify_crc32c [OF len(2), of key] by blast
qed

text \<open>C31. Frame round trip: for a channel below 8, the header and body of an encoded frame are read back, also
  after byte stuffing; the stuffed frame has its two delimiters as its only zeros, holds no \<open>0xFF\<close>, and
  fits the largest encoded length. A SYN body is read back whatever extension follows it.\<close>

theorem frame_roundtrip:
  fixes h crc key body
  defines "raw \<equiv> encode_raw crc key h body"
  assumes "h_chan h < 8"
  shows "header_parse raw = Some h \<and> verify crc key raw = Some body \<and>
    (\<exists>w. wrap_stream raw = 0 # w @ [0] \<and> 0x00 \<notin> set w \<and> 0xFF \<notin> set w \<and> unwrap_stream w [] = Inr raw \<and>
       length (wrap_stream raw) \<le> frame_max_encoded_len (length body) crc) \<and>
    syn_parse (syn_to_bytes syn @ ext) = Some syn"
proof (intro conjI)
  show "header_parse raw = Some h"
    using header_parse_to_bytes [OF assms(2)] by (simp add: raw_def encode_raw_def Let_def)
  show "verify crc key raw = Some body" unfolding raw_def by (rule verify_encode_raw)
  from wrap_stream_body [of raw] obtain w where
    w: "wrap_stream raw = 0 # w @ [0]" "0 \<notin> set w" "0xFF \<notin> set w" "unwrap_stream w [] = Inr raw"
    "length w \<le> max_encoded_no_ff_len (length raw)" by metis
  then show "\<exists>w. wrap_stream raw = 0 # w @ [0] \<and> 0x00 \<notin> set w \<and> 0xFF \<notin> set w \<and> unwrap_stream w [] = Inr raw \<and>
       length (wrap_stream raw) \<le> frame_max_encoded_len (length body) crc"
    using length_encode_raw [of crc key h body]
    by (intro exI [of _ w]) (simp add: frame_max_encoded_len_def raw_def)
  show "syn_parse (syn_to_bytes syn @ ext) = Some syn" by (rule syn_parse_to_bytes)
qed

definition sample_header :: Header where
  "sample_header = \<lparr>h_kind = Data, h_fin = True, h_first = True, h_chan = 1, h_seq = 7, h_ack = 3, h_win = 8\<rparr>"

lemma crc32c_rejects_witness:
  "verify Crc32c 6 (encode_raw Crc32c 5 sample_header [1, 2]) = None \<and>
   verify Crc32c 5 ([0x38, 7, 3, 9] @ drop 4 (encode_raw Crc32c 5 sample_header [1, 2])) = None"
proof -
  have e: "encode_raw Crc32c 5 sample_header [1, 2] =
      [] @ [0x38, 7, 3, 8] @ drop 4 (encode_raw Crc32c 5 sample_header [1, 2])"
    by (simp add: encode_raw_def Let_def header_to_bytes_def sample_header_def)
  from verify_encode_raw [of Crc32c 5 sample_header "[1, 2]"]
  have "verify Crc32c 5 ([] @ [0x38, 7, 3, 8] @ drop 4 (encode_raw Crc32c 5 sample_header [1, 2])) = Some [1, 2]"
    unfolding e [symmetric] .
  from crc32c_rejects [OF this, of "[0x38, 7, 3, 9]" 6] e show ?thesis by simp
qed

lemma frame_roundtrip_witness:
  "header_parse (encode_raw Crc16 9 sample_header [0, 0xFF, 0xFE]) = Some sample_header"
  using frame_roundtrip [of sample_header Crc16 9 "[0, 0xFF, 0xFE]"] by (simp add: sample_header_def)

end
