(* ===== verification/Link_Deframe.thy ===== *)
theory Link_Deframe
  imports Link_Frame
begin

text \<open>
  The splitter of the incoming byte stream, \<^verbatim>\<open>lp-base/lp-link/src/deframer.rs\<close>: bytes between zeros are frames,
  everything else is console text. A method with \<^verbatim>\<open>&mut self\<close> returns the new state. Times are microseconds
  as natural numbers: a 64-bit count of them does not wrap in the life of a device.
\<close>

section \<open>Definitions\<close>

type_synonym Micros = nat

definition TEXT_CHUNK :: nat where "TEXT_CHUNK = 256"

definition TEXT_MARK :: u8 where "TEXT_MARK = 0xFF"

datatype Deframed = DNothing | DFrame | DText | DOverflow | DAbandoned

datatype IdleFlush = FlushNothing | FlushText | FlushGarbage

definition is_printable :: "u8 list \<Rightarrow> bool" where
  "is_printable bytes \<longleftrightarrow> list_all (\<lambda>b. (0x20 \<le> b \<and> b \<le> 0x7E) \<or> b = 0x09 \<or> b = 0x0D \<or> b = 0x0A) bytes"

record Deframer =
  d_buf :: "u8 list"
  d_text :: "u8 list"
  d_in_frame :: bool
  d_discarding :: bool
  d_max_frame :: nat
  d_last_byte_at :: Micros
  d_text_mark :: bool

definition deframer_new :: "nat \<Rightarrow> Deframer" where
  "deframer_new max_frame = \<lparr>d_buf = [], d_text = [], d_in_frame = False, d_discarding = False,
     d_max_frame = max_frame, d_last_byte_at = 0, d_text_mark = False\<rparr>"

definition with_text_mark :: "bool \<Rightarrow> Deframer \<Rightarrow> Deframer" where
  "with_text_mark on d = d\<lparr>d_text_mark := on\<rparr>"

text \<open>A byte inside a frame, and a byte of text.\<close>

definition deframer_push_in_frame :: "u8 \<Rightarrow> Deframer \<Rightarrow> Deframed \<times> Deframer" where
  "deframer_push_in_frame b d =
     (if d_discarding d then (DNothing, d)
      else if length (d_buf d) = d_max_frame d then
        if is_printable (d_buf d) then (DText, d\<lparr>d_text := d_text d @ d_buf d, d_buf := [b]\<rparr>)
        else (DOverflow, d\<lparr>d_discarding := True, d_buf := []\<rparr>)
      else (DNothing, d\<lparr>d_buf := d_buf d @ [b]\<rparr>))"

definition deframer_push_text :: "u8 \<Rightarrow> Deframer \<Rightarrow> Deframed \<times> Deframer" where
  "deframer_push_text b d =
     (let d = d\<lparr>d_text := d_text d @ [b]\<rparr>
      in if b = 0x0A \<or> length (d_text d) \<ge> TEXT_CHUNK then (DText, d) else (DNothing, d))"

definition deframer_push :: "Micros \<Rightarrow> u8 \<Rightarrow> Deframer \<Rightarrow> Deframed \<times> Deframer" where
  "deframer_push now b d =
     (let d = d\<lparr>d_last_byte_at := now\<rparr>
      in if d_text_mark d \<and> b = TEXT_MARK then
           (if d_in_frame d \<and> (d_buf d \<noteq> [] \<or> d_discarding d) then DAbandoned else DNothing,
            d\<lparr>d_in_frame := False, d_discarding := False, d_buf := []\<rparr>)
         else if b = 0 then
           if \<not> d_in_frame d then
             (if d_text d = [] then DNothing else DText, d\<lparr>d_in_frame := True, d_buf := []\<rparr>)
           else if d_discarding d then (DOverflow, d\<lparr>d_discarding := False, d_buf := []\<rparr>)
           else (if d_buf d = [] then DNothing else DFrame, d)
         else if d_in_frame d then deframer_push_in_frame b d
         else deframer_push_text b d)"

definition frame_done :: "bool \<Rightarrow> Deframer \<Rightarrow> Deframer" where
  "frame_done ok d = d\<lparr>d_buf := [], d_in_frame := \<not> ok\<rparr>"

definition clear_text :: "Deframer \<Rightarrow> Deframer" where
  "clear_text d = d\<lparr>d_text := []\<rparr>"

definition idle_deadline :: "Micros \<Rightarrow> Micros \<Rightarrow> Deframer \<Rightarrow> Micros option" where
  "idle_deadline text_idle frame_idle d =
     (if d_text d \<noteq> [] then Some (d_last_byte_at d + text_idle)
      else if d_in_frame d \<and> (d_buf d \<noteq> [] \<or> d_discarding d) then Some (d_last_byte_at d + frame_idle)
      else None)"

definition flush_idle :: "Deframer \<Rightarrow> IdleFlush \<times> Deframer" where
  "flush_idle d =
     (if d_text d \<noteq> [] then (FlushText, d)
      else if \<not> d_in_frame d \<or> (d_buf d = [] \<and> \<not> d_discarding d) then (FlushNothing, d)
      else let d = d\<lparr>d_in_frame := False, d_discarding := False\<rparr>
           in if is_printable (d_buf d) then (FlushText, d\<lparr>d_text := d_text d @ d_buf d, d_buf := []\<rparr>)
              else (FlushGarbage, d\<lparr>d_buf := []\<rparr>))"

definition deframer_ram_bound :: "nat \<Rightarrow> nat" where
  "deframer_ram_bound max_frame = max_frame + (if max_frame > TEXT_CHUNK then max_frame else TEXT_CHUNK)"

section \<open>Frames come through\<close>

text \<open>The bytes a frame can hold between its delimiters.\<close>

definition frame_bytes :: "Deframer \<Rightarrow> u8 list \<Rightarrow> bool" where
  "frame_bytes d w \<longleftrightarrow> 0 \<notin> set w \<and> (d_text_mark d \<longrightarrow> TEXT_MARK \<notin> set w)"

definition pushes :: "Micros \<Rightarrow> u8 list \<Rightarrow> Deframer \<Rightarrow> Deframer" where
  "pushes now bs d = fold (\<lambda>b d. snd (deframer_push now b d)) bs d"

lemma push_body_byte:
  assumes "d_in_frame d" and "\<not> d_discarding d" and "length (d_buf d) < d_max_frame d" and "frame_bytes d [b]"
  shows "deframer_push now b d = (DNothing, d\<lparr>d_last_byte_at := now, d_buf := d_buf d @ [b]\<rparr>)"
  using assms by (auto simp: deframer_push_def deframer_push_in_frame_def frame_bytes_def Let_def)

lemma push_body:
  "d_in_frame d \<Longrightarrow> \<not> d_discarding d \<Longrightarrow> length (d_buf d) + length w \<le> d_max_frame d \<Longrightarrow> frame_bytes d w \<Longrightarrow>
   w \<noteq> [] \<Longrightarrow> pushes now w d = d\<lparr>d_last_byte_at := now, d_buf := d_buf d @ w\<rparr>"
proof (induction w arbitrary: d)
  case (Cons b w)
  have push: "deframer_push now b d = (DNothing, d\<lparr>d_last_byte_at := now, d_buf := d_buf d @ [b]\<rparr>)"
    using Cons.prems by (intro push_body_byte) (auto simp: frame_bytes_def)
  show ?case
  proof (cases "w = []")
    case True
    then show ?thesis by (simp add: pushes_def push)
  next
    case False
    then show ?thesis
      using Cons.IH [of "d\<lparr>d_last_byte_at := now, d_buf := d_buf d @ [b]\<rparr>"] Cons.prems
      by (simp add: pushes_def push frame_bytes_def)
  qed
qed simp

lemma push_close:
  "d_in_frame d \<Longrightarrow> \<not> d_discarding d \<Longrightarrow> d_buf d \<noteq> [] \<Longrightarrow>
   deframer_push now 0 d = (DFrame, d\<lparr>d_last_byte_at := now\<rparr>)"
  by (simp add: deframer_push_def Let_def TEXT_MARK_def)

section \<open>Memory stays bounded\<close>

text \<open>Between two bytes, with text handed up as soon as it is reported: a frame fits the frame buffer, text is
  shorter than a chunk, and there is no text while a frame is open.\<close>

definition deframer_inv :: "Deframer \<Rightarrow> bool" where
  "deframer_inv d \<longleftrightarrow> length (d_buf d) \<le> d_max_frame d \<and> length (d_text d) < TEXT_CHUNK \<and>
     (d_in_frame d \<longrightarrow> d_text d = []) \<and> (\<not> d_in_frame d \<longrightarrow> d_buf d = []) \<and> (d_discarding d \<longrightarrow> d_in_frame d \<and> d_buf d = [])"

lemma deframer_new_inv: "deframer_inv (deframer_new n)"
  by (simp add: deframer_inv_def deframer_new_def TEXT_CHUNK_def)

lemma deframer_push_cases:
  assumes "deframer_inv d" and "0 < d_max_frame d" and "deframer_push now b d = (r, d')"
  shows "deframer_inv (if r = DText then clear_text d' else d')"
    and "length (d_buf d') + length (d_text d') \<le> deframer_ram_bound (d_max_frame d)" and "d_max_frame d' = d_max_frame d"
  using assms
  by (auto simp: deframer_push_def deframer_push_in_frame_def deframer_push_text_def deframer_inv_def clear_text_def
      deframer_ram_bound_def TEXT_CHUNK_def Let_def split: if_splits)

text \<open>C34. The deframer's memory is bounded: as long as text is handed up when it is reported, every byte and
  every idle flush keeps the buffers within the bound the link reserves, and a frame in progress within the
  largest frame.\<close>

theorem deframer_bounded:
  assumes "deframer_inv d" and "0 < d_max_frame d"
  shows "(\<forall>r d'. deframer_push now b d = (r, d') \<longrightarrow>
      length (d_buf d') \<le> d_max_frame d \<and> length (d_buf d') + length (d_text d') \<le> deframer_ram_bound (d_max_frame d) \<and>
      deframer_inv (if r = DText then clear_text d' else d')) \<and>
    (\<forall>f d'. flush_idle d = (f, d') \<longrightarrow>
      length (d_buf d') + length (d_text d') \<le> deframer_ram_bound (d_max_frame d) \<and>
      deframer_inv (if f = FlushText then clear_text d' else d'))"
proof (intro conjI allI impI)
  fix r d'
  assume "deframer_push now b d = (r, d')"
  note push = deframer_push_cases [OF assms this]
  from push(1,3) show "length (d_buf d') \<le> d_max_frame d" by (auto simp: deframer_inv_def clear_text_def split: if_splits)
  from push show "length (d_buf d') + length (d_text d') \<le> deframer_ram_bound (d_max_frame d)"
    and "deframer_inv (if r = DText then clear_text d' else d')" by simp_all
next
  fix f d'
  assume "flush_idle d = (f, d')"
  then show "length (d_buf d') + length (d_text d') \<le> deframer_ram_bound (d_max_frame d)"
    and "deframer_inv (if f = FlushText then clear_text d' else d')"
    using assms
    by (auto simp: flush_idle_def deframer_inv_def clear_text_def deframer_ram_bound_def TEXT_CHUNK_def Let_def
        split: if_splits)
qed

lemma deframer_bounded_witness:
  "deframer_push 5 0x41 (deframer_new 4) = (DNothing, (deframer_new 4)\<lparr>d_text := [0x41], d_last_byte_at := 5\<rparr>) \<and>
   deframer_inv ((deframer_new 4)\<lparr>d_text := [0x41], d_last_byte_at := 5\<rparr>)"
proof -
  have "deframer_push 5 0x41 (deframer_new 4) = (DNothing, (deframer_new 4)\<lparr>d_text := [0x41], d_last_byte_at := 5\<rparr>)"
    by (simp add: deframer_push_def deframer_push_text_def deframer_new_def Let_def TEXT_CHUNK_def)
  then show ?thesis
    using deframer_bounded [OF deframer_new_inv [of 4], of 5 "0x41"] by (simp add: deframer_new_def)
qed

end
