(* ===== verification/Link_Slots.thy ===== *)
theory Link_Slots
  imports Link_Deframe
begin

text \<open>
  Shared by the queues of the device link: 8-bit sequence numbers (\<^verbatim>\<open>lp-base/lp-link/src/seq_num.rs\<close>), and slabs
  of equal slots, the fixed buffers that the transmit window, the reorder buffer and the datagram queue
  keep payloads in.
\<close>

section \<open>Sequence numbers\<close>

definition seq_dist :: "u8 \<Rightarrow> u8 \<Rightarrow> u8" where
  "seq_dist from to = to - from"

definition seq_is_behind :: "u8 \<Rightarrow> u8 \<Rightarrow> bool" where
  "seq_is_behind expected seq \<longleftrightarrow> seq_dist expected seq \<ge> 128"

text \<open>Sequence numbers stand for absolute frame numbers modulo 256.\<close>

lemma unat_u8_of_nat: "unat (of_nat n :: u8) = n mod 256"
  by (simp add: unat_of_nat take_bit_eq_mod)

lemma seq_dist_ahead:
  assumes "a \<le> b" and "b < a + 256"
  shows "unat (seq_dist (of_nat a) (of_nat b)) = b - a"
proof -
  have "seq_dist (of_nat a) (of_nat b) = of_nat (b - a)" using assms by (simp add: seq_dist_def of_nat_diff)
  then show ?thesis using assms by (simp only: unat_u8_of_nat) simp
qed

lemma seq_dist_behind:
  assumes "b < a" and "a \<le> b + 255"
  shows "unat (seq_dist (of_nat a) (of_nat b)) = 256 - (a - b)"
proof -
  have "(of_nat (256 - (a - b)) :: u8) = of_nat 256 - of_nat (a - b)" using assms by (intro of_nat_diff) simp
  also have "\<dots> = seq_dist (of_nat a) (of_nat b)" using assms by (simp add: seq_dist_def of_nat_diff)
  finally show ?thesis using unat_u8_of_nat [of "256 - (a - b)"] assms by simp
qed

lemma seq_is_behind_ahead: "a \<le> b \<Longrightarrow> b < a + 128 \<Longrightarrow> \<not> seq_is_behind (of_nat a) (of_nat b)"
  using seq_dist_ahead [of a b] by (simp add: seq_is_behind_def word_le_nat_alt)

lemma seq_is_behind_behind: "b < a \<Longrightarrow> a \<le> b + 128 \<Longrightarrow> seq_is_behind (of_nat a) (of_nat b)"
  using seq_dist_behind [of b a] by (simp add: seq_is_behind_def word_le_nat_alt)

section \<open>Slabs\<close>

text \<open>The first \<open>n\<close> bytes of slot \<open>p\<close>, and overwriting them: \<^verbatim>\<open>slab[at..at + n]\<close> with \<^verbatim>\<open>at = p * slot_len\<close>.\<close>

definition slot_get :: "nat \<Rightarrow> u8 list \<Rightarrow> nat \<Rightarrow> nat \<Rightarrow> u8 list" where
  "slot_get slot_len slab p n = take n (drop (p * slot_len) slab)"

definition slot_put :: "nat \<Rightarrow> nat \<Rightarrow> u8 list \<Rightarrow> u8 list \<Rightarrow> u8 list" where
  "slot_put slot_len p data slab = take (p * slot_len) slab @ data @ drop (p * slot_len + length data) slab"

lemma slot_fits: "p < k \<Longrightarrow> n \<le> slot_len \<Longrightarrow> p * slot_len + n \<le> k * slot_len" for p k n slot_len :: nat
  using mult_le_mono1 [of "Suc p" k slot_len] by simp

lemma length_slot_put:
  "length slab = k * slot_len \<Longrightarrow> p < k \<Longrightarrow> length data \<le> slot_len \<Longrightarrow> length (slot_put slot_len p data slab) = length slab"
  using slot_fits [of p k "length data" slot_len] by (simp add: slot_put_def)

lemma slot_get_put_same:
  "length slab = k * slot_len \<Longrightarrow> p < k \<Longrightarrow> length data \<le> slot_len \<Longrightarrow> n \<le> length data \<Longrightarrow>
   slot_get slot_len (slot_put slot_len p data slab) p n = take n data"
  using slot_fits [of p k "length data" slot_len] by (simp add: slot_get_def slot_put_def min_def)

lemma slot_get_put_other:
  assumes "length slab = k * slot_len" and "p < k" and "q < k" and "p \<noteq> q" and "length data \<le> slot_len" and "n \<le> slot_len"
  shows "slot_get slot_len (slot_put slot_len p data slab) q n = slot_get slot_len slab q n"
proof (cases "q < p")
  case True
  then have "q * slot_len + n \<le> p * slot_len" using assms by (intro slot_fits)
  moreover have "p * slot_len \<le> length slab" using slot_fits [of p k 0 slot_len] assms by simp
  ultimately show ?thesis
    by (simp add: slot_get_def slot_put_def drop_take min_def take_drop flip: drop_take)
next
  case False
  then have le: "p * slot_len + length data \<le> q * slot_len" using assms by (intro slot_fits) auto
  moreover have "p * slot_len \<le> length slab" using slot_fits [of p k 0 slot_len] assms by simp
  moreover have "drop (q * slot_len) (take (p * slot_len) slab) = []" using le by simp
  ultimately show ?thesis by (simp add: slot_get_def slot_put_def)
qed

lemma slot_get_length: "length slab = k * slot_len \<Longrightarrow> p < k \<Longrightarrow> n \<le> slot_len \<Longrightarrow> length (slot_get slot_len slab p n) = n"
  using slot_fits [of p k n slot_len] by (simp add: slot_get_def)

text \<open>Positions \<open>(head + i) mod k\<close> of a ring of \<open>k\<close> slots.\<close>

lemma ring_inj_le: "(head + i) mod k = (head + j) mod k \<Longrightarrow> i \<le> j \<Longrightarrow> j < k \<Longrightarrow> i = j" for i j k head :: nat
  using mod_eq_dvd_iff_nat [of "head + i" "head + j" k] by (auto dest: dvd_imp_le)

lemma ring_inj: "i < k \<Longrightarrow> j < k \<Longrightarrow> (head + i) mod k = (head + j) mod k \<longleftrightarrow> i = j" for i j k head :: nat
  using ring_inj_le [of head i k j] ring_inj_le [of head j k i] by (cases "i \<le> j") auto

lemma ring_shift: "((head + 1) mod k + i) mod k = (head + Suc i) mod k" for head k i :: nat
  by (simp add: mod_add_left_eq)

text \<open>The \<open>n\<close> elements of a ring from position \<open>pos\<close> on.\<close>

definition ring_list :: "'a list \<Rightarrow> nat \<Rightarrow> nat \<Rightarrow> 'a list" where
  "ring_list xs pos n = map (\<lambda>i. xs ! ((pos + i) mod length xs)) [0..<n]"

lemma length_ring_list [simp]: "length (ring_list xs pos n) = n"
  by (simp add: ring_list_def)

lemma nth_ring_list [simp]: "i < n \<Longrightarrow> ring_list xs pos n ! i = xs ! ((pos + i) mod length xs)"
  by (simp add: ring_list_def)

lemma ring_list_mod [simp]: "ring_list xs (pos mod length xs) n = ring_list xs pos n"
  by (simp add: ring_list_def mod_add_left_eq)

lemma ring_list_0 [simp]: "ring_list xs pos 0 = []"
  by (simp add: ring_list_def)

lemma ring_list_add: "ring_list xs pos (m + n) = ring_list xs pos m @ ring_list xs (pos + m) n"
  by (rule nth_equalityI) (auto simp: nth_append ac_simps)

lemma ring_list_take: "m \<le> n \<Longrightarrow> take m (ring_list xs pos n) = ring_list xs pos m"
  using ring_list_add [of xs pos m "n - m"] by simp

lemma ring_list_drop: "m \<le> n \<Longrightarrow> drop m (ring_list xs pos n) = ring_list xs (pos + m) (n - m)"
  using ring_list_add [of xs pos m "n - m"] by simp

lemma ring_list_update:
  assumes "i < n" and "n \<le> length xs"
  shows "ring_list (xs[(pos + i) mod length xs := v]) pos n = (ring_list xs pos n)[i := v]"
proof (rule nth_equalityI)
  fix j assume "j < length (ring_list (xs[(pos + i) mod length xs := v]) pos n)"
  then have j: "j < n" by simp
  have "(pos + i) mod length xs = (pos + j) mod length xs \<longleftrightarrow> i = j"
    using assms j by (intro ring_inj) simp_all
  moreover have "(pos + i) mod length xs < length xs" using assms by (intro mod_less_divisor) linarith
  ultimately show "ring_list (xs[(pos + i) mod length xs := v]) pos n ! j = (ring_list xs pos n)[i := v] ! j"
    using j assms by (simp add: nth_list_update)
qed simp

lemma ring_list_snoc:
  assumes "n < length xs"
  shows "ring_list (xs[(pos + n) mod length xs := v]) pos (Suc n) = ring_list xs pos n @ [v]"
proof -
  have "ring_list (xs[(pos + n) mod length xs := v]) pos (Suc n) = (ring_list xs pos (Suc n))[n := v]"
    using assms by (intro ring_list_update) simp_all
  also have "ring_list xs pos (Suc n) = ring_list xs pos n @ [xs ! ((pos + n) mod length xs)]"
    using ring_list_add [of xs pos n 1] by (simp add: ring_list_def)
  finally show ?thesis by (simp add: list_update_append)
qed

lemma ring_list_Suc: "ring_list xs pos (Suc n) = xs ! (pos mod length xs) # ring_list xs (Suc pos) n"
  using ring_list_add [of xs pos 1 n] by (simp add: ring_list_def)

text \<open>A run that may wrap, read and written as the sources do it, in two pieces.\<close>

lemma ring_list_pieces:
  assumes "at < length xs" and "n \<le> length xs"
  shows "take (min n (length xs - at)) (drop at xs) @ take (n - min n (length xs - at)) xs = ring_list xs at n"
proof (rule nth_equalityI)
  show len: "length (take (min n (length xs - at)) (drop at xs) @ take (n - min n (length xs - at)) xs) = length (ring_list xs at n)"
    using assms by simp
  fix i assume "i < length (take (min n (length xs - at)) (drop at xs) @ take (n - min n (length xs - at)) xs)"
  then have i: "i < n" using len by simp
  show "(take (min n (length xs - at)) (drop at xs) @ take (n - min n (length xs - at)) xs) ! i = ring_list xs at n ! i"
  proof (cases "at + i < length xs")
    case True
    then show ?thesis using i by (auto simp: nth_append)
  next
    case False
    then have "(at + i) mod length xs = at + i - length xs"
      using assms i by (simp add: mod_if)
    then show ?thesis using i False assms by (auto simp: nth_append algebra_simps)
  qed
qed

definition ring_write :: "'a list \<Rightarrow> nat \<Rightarrow> 'a list \<Rightarrow> 'a list" where
  "ring_write xs start data =
     (let first = min (length data) (length xs - start);
          xs = take start xs @ take first data @ drop (start + first) xs
      in drop first data @ drop (length data - first) xs)"

lemma length_ring_write [simp]: "start < length xs \<Longrightarrow> length data \<le> length xs \<Longrightarrow> length (ring_write xs start data) = length xs"
  by (auto simp: ring_write_def Let_def)

lemma nth_ring_write:
  assumes "start < length xs" and "length data \<le> length xs" and "k < length xs"
  shows "ring_write xs start data ! ((start + k) mod length xs) =
    (if k < length data then data ! k else xs ! ((start + k) mod length xs))"
proof (cases "start + k < length xs")
  case True
  then show ?thesis
    using assms by (auto simp: ring_write_def Let_def nth_append min_def)
next
  case False
  then have "(start + k) mod length xs = start + k - length xs" using assms by (simp add: mod_if)
  then show ?thesis
    using False assms by (auto simp: ring_write_def Let_def nth_append min_def algebra_simps)
qed

lemma ring_write_same:
  assumes "start < length xs" and "length data \<le> length xs"
  shows "ring_list (ring_write xs start data) start (length data) = data"
  by (rule nth_equalityI) (use assms in \<open>simp_all add: nth_ring_write\<close>)

lemma ring_write_other:
  assumes "start < length xs" and "length data \<le> length xs" and "k + n \<le> length xs" and "length data \<le> k"
  shows "ring_list (ring_write xs start data) (start + k) n = ring_list xs (start + k) n"
proof (rule nth_equalityI)
  fix i assume "i < length (ring_list (ring_write xs start data) (start + k) n)"
  then show "ring_list (ring_write xs start data) (start + k) n ! i = ring_list xs (start + k) n ! i"
    using assms nth_ring_write [of start xs data "k + i"] by (simp add: add.assoc)
qed simp

end
