(* ===== verification/Link_TxQueue.thy ===== *)
theory Link_TxQueue
  imports Link_Slots
begin

text \<open>
  The sender's window, \<^verbatim>\<open>lp-base/lp-link/src/tx_queue.rs\<close>: the reliable frames that are sent and not yet
  acknowledged, their payloads in a slab of slots used as a ring; the round-trip estimator
  (\<^verbatim>\<open>rtt_estimator.rs\<close>); and the queue of best-effort messages (\<^verbatim>\<open>datagram_queue.rs\<close>). A closure that fills
  a slot is a function from the slot's bytes to the bytes it leaves there, its result, and the state it
  changed. The window is shown to be a list of frames with their payloads.
\<close>

section \<open>The transmit window\<close>

record TxEntry =
  te_chan :: u8
  te_first :: bool
  te_fin :: bool
  te_len :: u16
  te_sent_at :: "Micros option"
  te_sent_order :: u32
  te_sends :: u8
  te_sacked :: bool

record Acked =
  acked_frames :: nat
  rtt_sample :: "Micros option"

record TxQueue =
  tx_entries :: "TxEntry list"
  tx_slab :: "u8 list"
  tx_slot_len :: nat
  tx_window :: nat
  tx_head :: nat
  tx_base :: u8
  tx_bytes :: nat

definition tx_new :: "nat \<Rightarrow> nat \<Rightarrow> TxQueue" where
  "tx_new window slot_len =
     (let window = max window 1
      in \<lparr>tx_entries = [], tx_slab = replicate (window * slot_len) 0, tx_slot_len = slot_len, tx_window = window,
          tx_head = 0, tx_base = 0, tx_bytes = 0\<rparr>)"

definition tx_clear :: "TxQueue \<Rightarrow> TxQueue" where
  "tx_clear q = q\<lparr>tx_entries := [], tx_head := 0, tx_base := 0, tx_bytes := 0\<rparr>"

definition tx_next_seq :: "TxQueue \<Rightarrow> u8" where
  "tx_next_seq q = tx_base q + of_nat (length (tx_entries q))"

definition tx_is_empty :: "TxQueue \<Rightarrow> bool" where
  "tx_is_empty q \<longleftrightarrow> tx_entries q = []"

definition tx_is_full :: "TxQueue \<Rightarrow> bool" where
  "tx_is_full q \<longleftrightarrow> length (tx_entries q) = tx_window q"

text \<open>\<open>fill\<close> returns the channel, the fragment flags and the length, the new bytes of the slot, and the state
  that the closure changes.\<close>

type_synonym 's slot_fill = "u8 list \<Rightarrow> ((u8 \<times> bool \<times> bool \<times> nat) \<times> u8 list \<times> 's) option"

definition tx_push_with :: "'s slot_fill \<Rightarrow> TxQueue \<Rightarrow> (u8 \<times> TxQueue \<times> 's) option" where
  "tx_push_with fill q =
     (if tx_is_full q then None
      else let slot = (tx_head q + length (tx_entries q)) mod tx_window q
           in case fill (slot_get (tx_slot_len q) (tx_slab q) slot (tx_slot_len q)) of
                None \<Rightarrow> None
              | Some ((chan, first, fin, len), bytes, s) \<Rightarrow>
                  Some (tx_next_seq q,
                    q\<lparr>tx_bytes := tx_bytes q + len,
                      tx_slab := slot_put (tx_slot_len q) slot bytes (tx_slab q),
                      tx_entries := tx_entries q @
                        [\<lparr>te_chan = chan, te_first = first, te_fin = fin, te_len = of_nat len, te_sent_at = None,
                          te_sent_order = 0, te_sends = 0, te_sacked = False\<rparr>]\<rparr>, s))"

definition tx_pop_front :: "TxQueue \<Rightarrow> TxQueue" where
  "tx_pop_front q =
     (case tx_entries q of
        [] \<Rightarrow> q
      | e # es \<Rightarrow> q\<lparr>tx_entries := es, tx_bytes := tx_bytes q - unat (te_len e), tx_base := tx_base q + 1,
          tx_head := (tx_head q + 1) mod tx_window q\<rparr>)"

fun tx_ack_pop :: "nat \<Rightarrow> Micros \<Rightarrow> Micros option \<Rightarrow> TxQueue \<Rightarrow> (Micros option \<times> TxQueue) option" where
  "tx_ack_pop 0 now sample q = Some (sample, q)"
| "tx_ack_pop (Suc n) now sample q =
     (case tx_entries q of
        [] \<Rightarrow> None
      | e # es \<Rightarrow>
          tx_ack_pop n now
            (case te_sent_at e of Some t \<Rightarrow> if te_sends e = 1 then Some (now - t) else sample | None \<Rightarrow> sample)
            (q\<lparr>tx_entries := es, tx_bytes := tx_bytes q - unat (te_len e), tx_head := (tx_head q + 1) mod tx_window q\<rparr>))"

definition tx_ack_to :: "u8 \<Rightarrow> Micros \<Rightarrow> TxQueue \<Rightarrow> (Acked \<times> TxQueue) option" where
  "tx_ack_to ack now q =
     (let n = unat (seq_dist (tx_base q) ack)
      in if n > length (tx_entries q) then None
         else case tx_ack_pop n now None q of
                None \<Rightarrow> None
              | Some (sample, q) \<Rightarrow> Some (\<lparr>acked_frames = n, rtt_sample = sample\<rparr>, q\<lparr>tx_base := ack\<rparr>))"

definition tx_get :: "u8 \<Rightarrow> TxQueue \<Rightarrow> TxEntry option" where
  "tx_get seq q =
     (let i = unat (seq_dist (tx_base q) seq)
      in if i < length (tx_entries q) then Some (tx_entries q ! i) else None)"

text \<open>\<^verbatim>\<open>get_mut\<close> followed by a change of the entry.\<close>

definition tx_update :: "u8 \<Rightarrow> (TxEntry \<Rightarrow> TxEntry) \<Rightarrow> TxQueue \<Rightarrow> TxQueue" where
  "tx_update seq f q =
     (let i = unat (seq_dist (tx_base q) seq)
      in if i < length (tx_entries q) then q\<lparr>tx_entries := (tx_entries q)[i := f (tx_entries q ! i)]\<rparr> else q)"

definition tx_frame_mut :: "u8 \<Rightarrow> TxQueue \<Rightarrow> (TxEntry \<times> u8 list) option" where
  "tx_frame_mut seq q =
     (let i = unat (seq_dist (tx_base q) seq)
      in if i < length (tx_entries q)
         then let e = tx_entries q ! i
              in Some (e, slot_get (tx_slot_len q) (tx_slab q) ((tx_head q + i) mod tx_window q) (unat (te_len e)))
         else None)"

definition tx_front :: "TxQueue \<Rightarrow> TxEntry option" where
  "tx_front q = (case tx_entries q of [] \<Rightarrow> None | e # _ \<Rightarrow> Some e)"

definition tx_map :: "(TxEntry \<Rightarrow> TxEntry) \<Rightarrow> TxQueue \<Rightarrow> TxQueue" where
  "tx_map f q = q\<lparr>tx_entries := map f (tx_entries q)\<rparr>"

definition tx_first_unsent :: "TxQueue \<Rightarrow> u8 option" where
  "tx_first_unsent q =
     (let i = length (takeWhile (\<lambda>e. \<not> (te_sent_at e = None \<and> \<not> te_sacked e)) (tx_entries q))
      in if i < length (tx_entries q) then Some (tx_base q + of_nat i) else None)"

definition tx_next_timer :: "Micros \<Rightarrow> TxQueue \<Rightarrow> Micros option" where
  "tx_next_timer rto q =
     (case List.map_filter te_sent_at (filter (\<lambda>e. \<not> te_sacked e) (tx_entries q)) of
        [] \<Rightarrow> None
      | t # ts \<Rightarrow> Some (fold min ts t + rto))"

section \<open>The round-trip estimator\<close>

record RttEstimator =
  rtt_srtt :: "Micros option"
  rtt_var :: Micros
  rtt_rto :: Micros
  rtt_min :: Micros
  rtt_max :: Micros
  rtt_last :: Micros
  rtt_samples :: u32

definition rtt_new :: "Micros \<Rightarrow> Micros \<Rightarrow> Micros \<Rightarrow> RttEstimator" where
  "rtt_new initial mn mx = \<lparr>rtt_srtt = None, rtt_var = 0, rtt_rto = initial, rtt_min = mn, rtt_max = mx,
     rtt_last = 0, rtt_samples = 0\<rparr>"

definition abs_diff :: "nat \<Rightarrow> nat \<Rightarrow> nat" where
  "abs_diff a b = (if a < b then b - a else a - b)"

definition clamp_nat :: "nat \<Rightarrow> nat \<Rightarrow> nat \<Rightarrow> nat" where
  "clamp_nat lo hi x = (if x < lo then lo else if x > hi then hi else x)"

definition rtt_add :: "Micros \<Rightarrow> RttEstimator \<Rightarrow> RttEstimator" where
  "rtt_add r e =
     (let e = e\<lparr>rtt_last := r, rtt_samples := rtt_samples e + 1\<rparr>;
          e = (case rtt_srtt e of
                 None \<Rightarrow> e\<lparr>rtt_srtt := Some r, rtt_var := r div 2\<rparr>
               | Some s \<Rightarrow> e\<lparr>rtt_var := (3 * rtt_var e + abs_diff s r) div 4, rtt_srtt := Some ((7 * s + r) div 8)\<rparr>);
          s = (case rtt_srtt e of Some s \<Rightarrow> s | None \<Rightarrow> r)
      in e\<lparr>rtt_rto := clamp_nat (rtt_min e) (rtt_max e) (s + max (4 * rtt_var e) 1000)\<rparr>)"

definition rtt_smoothed :: "RttEstimator \<Rightarrow> Micros" where
  "rtt_smoothed e = (case rtt_srtt e of Some s \<Rightarrow> s | None \<Rightarrow> rtt_rto e)"

section \<open>The queue of best-effort messages\<close>

record DatagramQueue =
  dq_meta :: "(u8 \<times> u16) list"
  dq_slab :: "u8 list"
  dq_slot_len :: nat
  dq_slots :: nat
  dq_head :: nat
  dq_count :: nat
  dq_bytes :: nat

definition dq_new :: "nat \<Rightarrow> nat \<Rightarrow> DatagramQueue" where
  "dq_new slots slot_len = \<lparr>dq_meta = replicate slots (0, 0), dq_slab = replicate (slots * slot_len) 0,
     dq_slot_len = slot_len, dq_slots = slots, dq_head = 0, dq_count = 0, dq_bytes = 0\<rparr>"

definition dq_is_empty :: "DatagramQueue \<Rightarrow> bool" where
  "dq_is_empty q \<longleftrightarrow> dq_count q = 0"

definition dq_is_full :: "DatagramQueue \<Rightarrow> bool" where
  "dq_is_full q \<longleftrightarrow> dq_count q \<ge> dq_slots q"

definition dq_free_slots :: "DatagramQueue \<Rightarrow> nat" where
  "dq_free_slots q = dq_slots q - dq_count q"

definition dq_clear :: "DatagramQueue \<Rightarrow> DatagramQueue" where
  "dq_clear q = q\<lparr>dq_count := 0, dq_head := 0, dq_bytes := 0\<rparr>"

definition dq_push_with :: "u8 \<Rightarrow> (u8 list \<Rightarrow> (nat \<times> u8 list \<times> 's) option) \<Rightarrow> DatagramQueue \<Rightarrow> (DatagramQueue \<times> 's) option" where
  "dq_push_with chan fill q =
     (if dq_is_full q then None
      else let slot = (dq_head q + dq_count q) mod dq_slots q
           in case fill (slot_get (dq_slot_len q) (dq_slab q) slot (dq_slot_len q)) of
                None \<Rightarrow> None
              | Some (n, bytes, s) \<Rightarrow>
                  Some (q\<lparr>dq_slab := slot_put (dq_slot_len q) slot bytes (dq_slab q), dq_bytes := dq_bytes q + n,
                    dq_meta := (dq_meta q)[slot := (chan, of_nat n)], dq_count := dq_count q + 1\<rparr>, s))"

definition dq_front :: "DatagramQueue \<Rightarrow> (u8 \<times> u8 list) option" where
  "dq_front q =
     (if dq_count q = 0 then None
      else let (chan, len) = dq_meta q ! dq_head q
           in Some (chan, slot_get (dq_slot_len q) (dq_slab q) (dq_head q) (unat len)))"

definition dq_pop_front :: "DatagramQueue \<Rightarrow> DatagramQueue" where
  "dq_pop_front q =
     (if dq_count q > 0
      then q\<lparr>dq_bytes := dq_bytes q - unat (snd (dq_meta q ! dq_head q)), dq_head := (dq_head q + 1) mod dq_slots q,
             dq_count := dq_count q - 1\<rparr>
      else q)"

section \<open>The window as a list of frames\<close>

definition tx_frames :: "TxQueue \<Rightarrow> (TxEntry \<times> u8 list) list" where
  "tx_frames q = map (\<lambda>(i, e). (e, slot_get (tx_slot_len q) (tx_slab q) ((tx_head q + i) mod tx_window q) (unat (te_len e))))
     (enumerate 0 (tx_entries q))"

definition tx_inv :: "TxQueue \<Rightarrow> bool" where
  "tx_inv q \<longleftrightarrow> 0 < tx_window q \<and> tx_head q < tx_window q \<and> length (tx_slab q) = tx_window q * tx_slot_len q \<and>
     length (tx_entries q) \<le> tx_window q \<and> tx_slot_len q < 65536 \<and>
     list_all (\<lambda>e. unat (te_len e) \<le> tx_slot_len q) (tx_entries q) \<and>
     tx_bytes q = sum_list (map (unat \<circ> te_len) (tx_entries q))"

lemma length_tx_frames [simp]: "length (tx_frames q) = length (tx_entries q)"
  by (simp add: tx_frames_def)

lemma nth_tx_frames:
  "i < length (tx_entries q) \<Longrightarrow> tx_frames q ! i = (tx_entries q ! i,
     slot_get (tx_slot_len q) (tx_slab q) ((tx_head q + i) mod tx_window q) (unat (te_len (tx_entries q ! i))))"
  by (simp add: tx_frames_def nth_enumerate_eq)

lemma fst_tx_frames [simp]: "map fst (tx_frames q) = tx_entries q"
  by (rule nth_equalityI) (simp_all add: nth_tx_frames)

lemma tx_new_inv: "slot_len < 65536 \<Longrightarrow> tx_inv (tx_new window slot_len) \<and> tx_frames (tx_new window slot_len) = []"
  by (simp add: tx_inv_def tx_new_def tx_frames_def Let_def)

lemma tx_clear_inv: "tx_inv q \<Longrightarrow> tx_inv (tx_clear q) \<and> tx_frames (tx_clear q) = []"
  by (simp add: tx_inv_def tx_clear_def tx_frames_def)

definition tx_new_entry :: "u8 \<Rightarrow> bool \<Rightarrow> bool \<Rightarrow> nat \<Rightarrow> TxEntry" where
  "tx_new_entry chan first fin len = \<lparr>te_chan = chan, te_first = first, te_fin = fin, te_len = of_nat len,
     te_sent_at = None, te_sent_order = 0, te_sends = 0, te_sacked = False\<rparr>"

lemma unat_u16_of_nat: "n < 65536 \<Longrightarrow> unat (of_nat n :: u16) = n"
  by (simp add: unat_of_nat take_bit_nat_eq_self)

lemma tx_push_with_frames:
  assumes inv: "tx_inv q" and full: "\<not> tx_is_full q"
    and fill: "fill (slot_get (tx_slot_len q) (tx_slab q) ((tx_head q + length (tx_entries q)) mod tx_window q) (tx_slot_len q))
      = Some ((chan, first, fin, len), bytes, s)"
    and len: "len \<le> tx_slot_len q" "length bytes = tx_slot_len q"
  obtains q' where "tx_push_with fill q = Some (tx_next_seq q, q', s)" "tx_inv q'" "tx_base q' = tx_base q"
    "tx_frames q' = tx_frames q @ [(tx_new_entry chan first fin len, take len bytes)]"
    "tx_window q' = tx_window q" "tx_slot_len q' = tx_slot_len q"
proof -
  define n where "n = length (tx_entries q)"
  define slot where "slot = (tx_head q + n) mod tx_window q"
  define q' where "q' = q\<lparr>tx_bytes := tx_bytes q + len, tx_slab := slot_put (tx_slot_len q) slot bytes (tx_slab q),
    tx_entries := tx_entries q @ [tx_new_entry chan first fin len]\<rparr>"
  have w: "0 < tx_window q" "length (tx_slab q) = tx_window q * tx_slot_len q" "n < tx_window q" "slot < tx_window q"
    using inv full by (auto simp: tx_inv_def tx_is_full_def n_def slot_def)
  have len16: "unat (te_len (tx_new_entry chan first fin len)) = len"
    using inv len by (simp add: tx_new_entry_def unat_u16_of_nat tx_inv_def)
  have other: "(tx_head q + i) mod tx_window q \<noteq> slot" if "i < n" for i
    using ring_inj [of i "tx_window q" n "tx_head q"] that w by (simp add: slot_def)
  have "tx_push_with fill q = Some (tx_next_seq q, q', s)"
    using full fill by (simp add: tx_push_with_def Let_def n_def slot_def q'_def tx_new_entry_def)
  moreover have "tx_inv q'"
    using inv len len16 w(3) length_slot_put [OF w(2) w(4), of bytes] by (simp add: q'_def tx_inv_def n_def)
  moreover have "tx_frames q' = tx_frames q @ [(tx_new_entry chan first fin len, take len bytes)]"
  proof (rule nth_equalityI)
    fix i assume "i < length (tx_frames q')"
    then have i: "i < Suc n" by (simp add: q'_def n_def)
    have dom: "(tx_head q + i) mod tx_window q < tx_window q" using w by simp
    show "tx_frames q' ! i = (tx_frames q @ [(tx_new_entry chan first fin len, take len bytes)]) ! i"
    proof (cases "i < n")
      case True
      have le: "unat (te_len (tx_entries q ! i)) \<le> tx_slot_len q"
        using inv True by (simp add: tx_inv_def list_all_length n_def)
      show ?thesis
        using True slot_get_put_other [OF w(2) w(4) dom _ _ le, of bytes] other [OF True] len
        by (simp add: nth_tx_frames nth_append q'_def n_def [symmetric])
    next
      case False
      then have "i = n" using i by simp
      then show ?thesis
        using slot_get_put_same [OF w(2) w(4), of bytes len] len len16
        by (simp add: nth_tx_frames nth_append q'_def n_def [symmetric] slot_def [symmetric])
    qed
  qed (simp add: q'_def)
  ultimately show thesis using that by (simp add: q'_def)
qed

lemma tx_pop_frames:
  assumes "tx_inv q" and "tx_entries q = e # es"
  defines "q' \<equiv> q\<lparr>tx_entries := es, tx_bytes := tx_bytes q - unat (te_len e), tx_head := (tx_head q + 1) mod tx_window q\<rparr>"
  shows "tx_inv q'" and "tx_frames q' = tl (tx_frames q)"
proof -
  show "tx_inv q'" using assms by (simp add: tx_inv_def)
  show "tx_frames q' = tl (tx_frames q)"
  proof (rule nth_equalityI)
    fix i assume "i < length (tx_frames q')"
    then show "tx_frames q' ! i = tl (tx_frames q) ! i"
      using assms(2) ring_shift [of "tx_head q" "tx_window q" i] by (simp add: nth_tx_frames nth_tl q'_def)
  qed (simp add: q'_def assms(2))
qed

lemma tx_ack_pop_frames:
  "tx_inv q \<Longrightarrow> n \<le> length (tx_entries q) \<Longrightarrow> \<exists>sample' q'. tx_ack_pop n now sample q = Some (sample', q') \<and>
     tx_inv q' \<and> tx_frames q' = drop n (tx_frames q) \<and> tx_base q' = tx_base q \<and> tx_window q' = tx_window q \<and>
     tx_slot_len q' = tx_slot_len q"
proof (induction n arbitrary: sample q)
  case (Suc n)
  then obtain e es where e: "tx_entries q = e # es" by (cases "tx_entries q") auto
  note pop = tx_pop_frames [OF Suc.prems(1) e]
  from Suc.IH [OF pop(1)] Suc.prems(2) e pop(2) show ?case by (simp add: drop_Suc)
qed simp

lemma tx_ack_to_frames:
  assumes "tx_inv q" and "unat (seq_dist (tx_base q) ack) \<le> length (tx_entries q)"
  obtains a q' where "tx_ack_to ack now q = Some (a, q')" "acked_frames a = unat (seq_dist (tx_base q) ack)" "tx_inv q'"
    "tx_frames q' = drop (unat (seq_dist (tx_base q) ack)) (tx_frames q)" "tx_base q' = ack"
    "tx_window q' = tx_window q" "tx_slot_len q' = tx_slot_len q"
proof -
  from tx_ack_pop_frames [OF assms, of now None] obtain sample q' where
    q': "tx_ack_pop (unat (seq_dist (tx_base q) ack)) now None q = Some (sample, q')" "tx_inv q'"
    "tx_frames q' = drop (unat (seq_dist (tx_base q) ack)) (tx_frames q)" "tx_window q' = tx_window q"
    "tx_slot_len q' = tx_slot_len q" by blast
  have "tx_inv (q'\<lparr>tx_base := ack\<rparr>)" "tx_frames (q'\<lparr>tx_base := ack\<rparr>) = tx_frames q'"
    using q'(2) by (simp_all add: tx_inv_def tx_frames_def)
  then show thesis
    using that q' assms(2) by (simp add: tx_ack_to_def Let_def)
qed

text \<open>What the window keeps of an entry when its send history changes.\<close>

definition same_frame :: "TxEntry \<Rightarrow> TxEntry \<Rightarrow> bool" where
  "same_frame e e' \<longleftrightarrow> te_chan e' = te_chan e \<and> te_first e' = te_first e \<and> te_fin e' = te_fin e \<and> te_len e' = te_len e"

lemma tx_set_entries:
  assumes "tx_inv q" and "list_all2 same_frame (tx_entries q) es"
  shows "tx_inv (q\<lparr>tx_entries := es\<rparr>)" and "map snd (tx_frames (q\<lparr>tx_entries := es\<rparr>)) = map snd (tx_frames q)"
proof -
  have len: "length es = length (tx_entries q)" using assms(2) by (simp add: list_all2_lengthD)
  have nth: "te_len (es ! i) = te_len (tx_entries q ! i)" if "i < length es" for i
    using assms(2) that by (auto simp: list_all2_conv_all_nth same_frame_def)
  have "map (unat \<circ> te_len) es = map (unat \<circ> te_len) (tx_entries q)"
    by (rule nth_equalityI) (simp_all add: len nth)
  then show "tx_inv (q\<lparr>tx_entries := es\<rparr>)"
    using assms(1) len nth by (simp add: tx_inv_def list_all_length)
  show "map snd (tx_frames (q\<lparr>tx_entries := es\<rparr>)) = map snd (tx_frames q)"
    by (rule nth_equalityI) (simp_all add: nth_tx_frames len nth)
qed

lemma tx_frame_mut_nth:
  assumes "i < length (tx_entries q)" and "length (tx_entries q) \<le> 256"
  shows "tx_frame_mut (tx_base q + of_nat i) q = Some (tx_frames q ! i)"
proof -
  have "unat (seq_dist (tx_base q) (tx_base q + of_nat i)) = i"
    using assms unat_u8_of_nat [of i] by (simp add: seq_dist_def)
  then show ?thesis using assms by (simp add: tx_frame_mut_def nth_tx_frames Let_def)
qed

section \<open>Timeouts stay in range\<close>

text \<open>The timeout is always within the configured bounds once one sample was taken.\<close>

lemma rtt_add_bounds:
  assumes "rtt_min e \<le> rtt_max e"
  shows "rtt_min e \<le> rtt_rto (rtt_add r e) \<and> rtt_rto (rtt_add r e) \<le> rtt_max e \<and>
    rtt_min (rtt_add r e) = rtt_min e \<and> rtt_max (rtt_add r e) = rtt_max e"
  using assms by (auto simp: rtt_add_def Let_def clamp_nat_def split: option.splits)

end
