(* ===== verification/Link_Inbox.thy ===== *)
theory Link_Inbox
  imports Link_Slots "HOL-Library.Sublist"
begin

text \<open>
  The receiver's side toward the application, \<^verbatim>\<open>lp-base/lp-link/src/inbox.rs\<close>: reassembly of fragments into
  messages, per channel, and the queue of events under the receive budget. Whether the heap grants a
  block is an argument, a function from requests to answers, given anew at every call; a granted
  \<^verbatim>\<open>try_reserve_exact\<close> sets the capacity to what was asked. Counters are natural numbers.

  Reassembly is shown to deliver, on every channel, the messages that the fragments spell, in order; the
  only messages missing are those it counted as dropped.
\<close>

section \<open>Events\<close>

datatype ResetReason = PeerRestarted | RetryLimit | ProtocolErr | Requested

datatype LinkEvent =
    Up u32
  | Reset ResetReason u32
  | Message u8 "u8 list"
  | Text "u8 list"

definition EVENT_COST :: nat where "EVENT_COST = 64"

definition CHANNELS :: nat where "CHANNELS = 8"

record Fragment =
  f_chan :: u8
  f_first :: bool
  f_fin :: bool
  f_data :: "u8 list"

section \<open>The inbox\<close>

text \<open>What reassembly asks of the heap.\<close>

datatype HeapRequest = GrowTo nat | PieceOf nat | SpillSlot | JoinOf nat

record Inbox =
  in_events :: "LinkEvent list"
  in_partials :: "u8 list list"
  in_caps :: "nat list"
  in_spill :: "u8 list list list"
  in_spilled :: "nat list"
  in_open :: u8
  in_dropping :: u8
  in_oversize :: nat
  in_ready_bytes :: nat
  in_budget :: nat
  in_max_message :: nat
  in_keep :: nat

definition inbox_new :: "nat \<Rightarrow> nat \<Rightarrow> nat \<Rightarrow> Inbox" where
  "inbox_new budget max_message keep =
     \<lparr>in_events = [], in_partials = replicate CHANNELS [], in_caps = replicate CHANNELS 0, in_spill = replicate CHANNELS [],
      in_spilled = replicate CHANNELS 0, in_open = 0, in_dropping = 0, in_oversize = 0, in_ready_bytes = 0,
      in_budget = budget, in_max_message = max_message, in_keep = keep\<rparr>"

definition chan_index :: "u8 \<Rightarrow> nat" where
  "chan_index chan = unat chan mod CHANNELS"

definition chan_bit :: "nat \<Rightarrow> u8" where
  "chan_bit c = push_bit c 1"

definition partial_len :: "nat \<Rightarrow> Inbox \<Rightarrow> nat" where
  "partial_len c i = length (in_partials i ! c) + in_spilled i ! c"

definition has_room :: "u8 \<Rightarrow> nat \<Rightarrow> Inbox \<Rightarrow> bool" where
  "has_room chan n i =
     (let c = chan_index chan; partial = partial_len c i
      in if in_dropping i AND chan_bit c \<noteq> 0 \<or> partial + n > in_max_message i then True
         else in_ready_bytes i + partial + n + EVENT_COST \<le> in_budget i)"

definition inbox_bytes :: "Inbox \<Rightarrow> nat" where
  "inbox_bytes i = in_ready_bytes i + sum_list (map length (in_partials i)) + sum_list (in_spilled i)"

definition inbox_abort :: "u8 \<Rightarrow> Inbox \<Rightarrow> Inbox" where
  "inbox_abort chan i =
     (let c = chan_index chan
      in i\<lparr>in_partials := (in_partials i)[c := []], in_spill := (in_spill i)[c := []], in_spilled := (in_spilled i)[c := 0],
           in_open := in_open i AND NOT (chan_bit c), in_dropping := in_dropping i AND NOT (chan_bit c)\<rparr>)"

definition inbox_abort_all :: "Inbox \<Rightarrow> Inbox" where
  "inbox_abort_all i = i\<lparr>in_partials := map (\<lambda>_. []) (in_partials i), in_spill := map (\<lambda>_. []) (in_spill i),
     in_spilled := replicate CHANNELS 0, in_open := 0, in_dropping := 0\<rparr>"

definition inbox_deliver :: "u8 \<Rightarrow> u8 list \<Rightarrow> Inbox \<Rightarrow> Inbox" where
  "inbox_deliver channel data i = i\<lparr>in_ready_bytes := in_ready_bytes i + length data + EVENT_COST,
     in_events := in_events i @ [Message channel data]\<rparr>"

definition grow_partial :: "(HeapRequest \<Rightarrow> bool) \<Rightarrow> nat \<Rightarrow> nat \<Rightarrow> Inbox \<Rightarrow> bool \<times> Inbox" where
  "grow_partial heap c n i =
     (let cap = in_caps i ! c; need = length (in_partials i ! c) + n
      in if need \<le> cap then (True, i)
         else let to = max need (min (2 * cap) (in_max_message i))
              in if heap (GrowTo to) then (True, i\<lparr>in_caps := (in_caps i)[c := to]\<rparr>)
                 else if heap (GrowTo need) then (True, i\<lparr>in_caps := (in_caps i)[c := need]\<rparr>)
                 else (False, i))"

definition take_fragment :: "(HeapRequest \<Rightarrow> bool) \<Rightarrow> nat \<Rightarrow> u8 list \<Rightarrow> Inbox \<Rightarrow> bool \<times> Inbox" where
  "take_fragment heap c data i =
     (let (grown, i) = (if in_spill i ! c = [] then grow_partial heap c (length data) i else (False, i))
      in if grown then (True, i\<lparr>in_partials := (in_partials i)[c := in_partials i ! c @ data]\<rparr>)
         else if \<not> heap (PieceOf (length data)) \<or> \<not> heap SpillSlot then (False, i)
         else (True, i\<lparr>in_spill := (in_spill i)[c := in_spill i ! c @ [data]],
           in_spilled := (in_spilled i)[c := in_spilled i ! c + length data]\<rparr>))"

definition inbox_join :: "(HeapRequest \<Rightarrow> bool) \<Rightarrow> nat \<Rightarrow> Inbox \<Rightarrow> u8 list option \<times> Inbox" where
  "inbox_join heap c i =
     (if \<not> heap (JoinOf (partial_len c i)) then (None, i)
      else (Some (in_partials i ! c @ concat (in_spill i ! c)),
        if in_caps i ! c > in_keep i
        then i\<lparr>in_partials := (in_partials i)[c := []], in_caps := (in_caps i)[c := 0]\<rparr> else i))"

text \<open>Dropping a message that is too long or that the heap cannot hold, to its end.\<close>

definition inbox_drop :: "Fragment \<Rightarrow> Inbox \<Rightarrow> Inbox" where
  "inbox_drop f i =
     (let i = inbox_abort (f_chan f) i; i = i\<lparr>in_oversize := in_oversize i + 1\<rparr>
      in if f_fin f then i else i\<lparr>in_dropping := in_dropping i OR chan_bit (chan_index (f_chan f))\<rparr>)"

text \<open>The bytes of a finished message, out of the reassembly buffer.\<close>

definition inbox_finish :: "(HeapRequest \<Rightarrow> bool) \<Rightarrow> nat \<Rightarrow> Inbox \<Rightarrow> u8 list option \<times> Inbox" where
  "inbox_finish heap c i =
     (if in_spill i ! c = [] then
        if in_caps i ! c > in_keep i
        then (Some (in_partials i ! c), i\<lparr>in_partials := (in_partials i)[c := []], in_caps := (in_caps i)[c := 0]\<rparr>)
        else (Some (in_partials i ! c), i)
      else inbox_join heap c i)"

text \<open>The result is false for the protocol error.\<close>

definition push_fragment :: "(HeapRequest \<Rightarrow> bool) \<Rightarrow> Fragment \<Rightarrow> Inbox \<Rightarrow> bool \<times> Inbox" where
  "push_fragment heap f i =
     (let c = chan_index (f_chan f); bit = chan_bit c
      in if in_dropping i AND bit \<noteq> 0 then
           if f_first f then (False, inbox_abort_all i)
           else (True, if f_fin f then i\<lparr>in_dropping := in_dropping i AND NOT bit\<rparr> else i)
         else if f_first f = (in_open i AND bit \<noteq> 0) then (False, inbox_abort_all i)
         else if partial_len c i + length (f_data f) > in_max_message i then (True, inbox_drop f i)
         else if f_first f \<and> f_fin f then (True, inbox_deliver (f_chan f) (f_data f) i)
         else (case take_fragment heap c (f_data f) i of
             (False, i) \<Rightarrow> (True, inbox_drop f i)
           | (True, i) \<Rightarrow>
               let i = i\<lparr>in_open := in_open i OR bit\<rparr>
               in if f_fin f then
                    (case inbox_finish heap c i of
                       (data, i) \<Rightarrow>
                         let i = inbox_abort (f_chan f) i
                         in (True, case data of
                               Some data \<Rightarrow> inbox_deliver (f_chan f) data i
                             | None \<Rightarrow> i\<lparr>in_oversize := in_oversize i + 1\<rparr>))
                  else (True, i)))"

definition push_datagram :: "u8 \<Rightarrow> u8 list \<Rightarrow> Inbox \<Rightarrow> Inbox" where
  "push_datagram channel data i = inbox_deliver channel data i"

definition push_text :: "u8 list \<Rightarrow> Inbox \<Rightarrow> bool \<times> Inbox" where
  "push_text txt i =
     (if in_ready_bytes i + length txt + EVENT_COST > in_budget i then (False, i)
      else (True, i\<lparr>in_ready_bytes := in_ready_bytes i + length txt + EVENT_COST, in_events := in_events i @ [Text txt]\<rparr>))"

fun is_reset_ev :: "LinkEvent \<Rightarrow> bool" where
  "is_reset_ev (Reset _ _) = True"
| "is_reset_ev _ = False"

fun is_up_ev :: "LinkEvent \<Rightarrow> bool" where
  "is_up_ev (Up _) = True"
| "is_up_ev _ = False"

text \<open>The loop that removes superseded lifecycle events, on the queue with its newest event first.\<close>

fun supersede :: "LinkEvent list \<Rightarrow> nat \<Rightarrow> LinkEvent list \<times> nat" where
  "supersede (e # es) ready =
     (if is_reset_ev e \<or> (is_up_ev e \<and> (case es of e' # _ \<Rightarrow> is_reset_ev e' | [] \<Rightarrow> False))
      then supersede es (ready - EVENT_COST) else (e # es, ready))"
| "supersede [] ready = ([], ready)"

definition push_lifecycle :: "LinkEvent \<Rightarrow> Inbox \<Rightarrow> Inbox" where
  "push_lifecycle ev i =
     (let (events, ready) = (if is_reset_ev ev then (case supersede (rev (in_events i)) (in_ready_bytes i) of (es, r) \<Rightarrow> (rev es, r))
            else (in_events i, in_ready_bytes i))
      in i\<lparr>in_ready_bytes := ready + EVENT_COST, in_events := events @ [ev]\<rparr>)"

fun event_data :: "LinkEvent \<Rightarrow> u8 list" where
  "event_data (Message _ data) = data"
| "event_data (Text data) = data"
| "event_data _ = []"

definition inbox_pop :: "Inbox \<Rightarrow> (LinkEvent \<times> Inbox) option" where
  "inbox_pop i =
     (case in_events i of
        [] \<Rightarrow> None
      | ev # evs \<Rightarrow> Some (ev, i\<lparr>in_events := evs, in_ready_bytes := in_ready_bytes i - EVENT_COST - length (event_data ev)\<rparr>))"

section \<open>What fragments spell\<close>

text \<open>The messages that a sequence of fragments spells on one channel: the bytes of an unfinished message, if
  any, and the finished messages; \<open>None\<close> if the fragments do not fit together.\<close>

type_synonym Spelling = "u8 list option \<times> u8 list list"

fun spell_step :: "Fragment \<Rightarrow> Spelling \<Rightarrow> Spelling option" where
  "spell_step f (partial, ms) =
     (if f_first f = (partial \<noteq> None) then None
      else let m = (case partial of Some p \<Rightarrow> p | None \<Rightarrow> []) @ f_data f
           in Some (if f_fin f then (None, ms @ [m]) else (Some m, ms)))"

definition spell_frag :: "u8 \<Rightarrow> Fragment \<Rightarrow> Spelling option \<Rightarrow> Spelling option" where
  "spell_frag ch f s = (if f_chan f = ch then Option.bind s (spell_step f) else s)"

definition spell :: "u8 \<Rightarrow> Fragment list \<Rightarrow> Spelling option" where
  "spell ch fs = fold (spell_frag ch) fs (Some (None, []))"

lemma spell_Nil [simp]: "spell ch [] = Some (None, [])"
  by (simp add: spell_def)

lemma spell_snoc: "spell ch (fs @ [f]) = (if f_chan f = ch then Option.bind (spell ch fs) (spell_step f) else spell ch fs)"
  by (simp add: spell_def spell_frag_def)

lemma spell_frag_None: "fold (spell_frag ch) fs None = None"
  by (induction fs) (simp_all add: spell_frag_def)

lemma spell_prefix: "spell ch (fs @ gs) = Some s \<Longrightarrow> \<exists>s'. spell ch fs = Some s'"
  using spell_frag_None [of ch gs] by (cases "fold (spell_frag ch) fs (Some (None, []))") (auto simp: spell_def)

section \<open>The state of a channel\<close>

lemma chan_bit_test: "c < 8 \<Longrightarrow> x AND chan_bit c \<noteq> 0 \<longleftrightarrow> bit x c"
  using and_exp_eq_0_iff_not_bit [of x c] by (simp add: chan_bit_def push_bit_eq_mult)

lemma bit_chan_bit: "c < 8 \<Longrightarrow> bit (chan_bit c) d \<longleftrightarrow> d = c"
  by (auto simp: chan_bit_def bit_exp_iff)

lemma chan_bits [simp]:
  "c < 8 \<Longrightarrow> bit (x OR chan_bit c) d \<longleftrightarrow> bit x d \<or> d = c"
  "c < 8 \<Longrightarrow> d < 8 \<Longrightarrow> bit (x AND NOT (chan_bit c)) d \<longleftrightarrow> bit x d \<and> d \<noteq> c"
  by (auto simp: bit_or_iff bit_and_iff bit_not_iff bit_chan_bit)

lemma chan_index_lt [simp]: "chan_index ch < 8"
  by (simp add: chan_index_def CHANNELS_def)

lemma chan_index_inj: "a < 8 \<Longrightarrow> b < 8 \<Longrightarrow> chan_index a = chan_index b \<longleftrightarrow> a = b"
  by (simp add: chan_index_def CHANNELS_def word_less_nat_alt word_unat_eq_iff)

text \<open>The bytes of a channel's unfinished message.\<close>

definition held :: "nat \<Rightarrow> Inbox \<Rightarrow> u8 list" where
  "held c i = in_partials i ! c @ concat (in_spill i ! c)"

definition inbox_shape :: "Inbox \<Rightarrow> bool" where
  "inbox_shape i \<longleftrightarrow> length (in_partials i) = 8 \<and> length (in_caps i) = 8 \<and> length (in_spill i) = 8 \<and> length (in_spilled i) = 8 \<and>
     (\<forall>c < 8. in_spilled i ! c = length (concat (in_spill i ! c)))"

lemma held_upd [simp]:
  "held c (i\<lparr>in_open := x\<rparr>) = held c i" "held c (i\<lparr>in_dropping := x\<rparr>) = held c i"
  "held c (i\<lparr>in_oversize := n\<rparr>) = held c i" "held c (i\<lparr>in_events := es\<rparr>) = held c i"
  "held c (i\<lparr>in_ready_bytes := n\<rparr>) = held c i"
  by (simp_all add: held_def)

lemma inbox_shape_upd [simp]:
  "inbox_shape (i\<lparr>in_open := x\<rparr>) = inbox_shape i" "inbox_shape (i\<lparr>in_dropping := x\<rparr>) = inbox_shape i"
  "inbox_shape (i\<lparr>in_oversize := n\<rparr>) = inbox_shape i" "inbox_shape (i\<lparr>in_events := es\<rparr>) = inbox_shape i"
  "inbox_shape (i\<lparr>in_ready_bytes := n\<rparr>) = inbox_shape i"
  by (simp_all add: inbox_shape_def)

lemma partial_len_held: "inbox_shape i \<Longrightarrow> c < 8 \<Longrightarrow> partial_len c i = length (held c i)"
  by (simp add: partial_len_def held_def inbox_shape_def)

text \<open>All that reassembly reads and changes of an inbox, besides its buffers.\<close>

definition same_rest :: "Inbox \<Rightarrow> Inbox \<Rightarrow> bool" where
  "same_rest i i' \<longleftrightarrow> in_open i' = in_open i \<and> in_dropping i' = in_dropping i \<and> in_oversize i' = in_oversize i \<and>
     in_events i' = in_events i \<and> in_ready_bytes i' = in_ready_bytes i \<and> in_max_message i' = in_max_message i \<and>
     in_budget i' = in_budget i"

lemma take_fragment_effect:
  assumes "inbox_shape i" and "c < 8" and "take_fragment heap c data i = (ok, i')"
  shows "inbox_shape i' \<and> same_rest i i' \<and> (\<forall>d < 8. held d i' = (if d = c \<and> ok then held c i @ data else held d i))"
proof -
  obtain grown j where g: "(if in_spill i ! c = [] then grow_partial heap c (length data) i else (False, i)) = (grown, j)"
    by fastforce
  have j: "\<exists>caps. j = i\<lparr>in_caps := caps\<rparr> \<and> length caps = length (in_caps i)"
  proof (cases "in_spill i ! c = []")
    case True
    with g have "grow_partial heap c (length data) i = (grown, j)" by simp
    then show ?thesis
      by (auto simp: grow_partial_def Let_def split: if_splits intro: exI [of _ "in_caps i"] length_list_update)
  next
    case False
    with g show ?thesis by (auto intro: exI [of _ "in_caps i"])
  qed
  have spill: "grown \<Longrightarrow> in_spill i ! c = []" using g by (auto split: if_splits)
  from assms(3) have "(ok, i') =
      (if grown then (True, j\<lparr>in_partials := (in_partials j)[c := in_partials j ! c @ data]\<rparr>)
         else if \<not> heap (PieceOf (length data)) \<or> \<not> heap SpillSlot then (False, j)
         else (True, j\<lparr>in_spill := (in_spill j)[c := in_spill j ! c @ [data]],
           in_spilled := (in_spilled j)[c := in_spilled j ! c + length data]\<rparr>))"
    unfolding take_fragment_def g by simp
  with j spill assms(1,2) show ?thesis
    by (auto simp: inbox_shape_def same_rest_def held_def nth_list_update split: if_splits)
qed

lemma inbox_finish_effect:
  assumes "inbox_shape i" and "c < 8" and "inbox_finish heap c i = (data, i')"
  shows "inbox_shape i' \<and> same_rest i i' \<and> (\<forall>d < 8. d \<noteq> c \<longrightarrow> held d i' = held d i) \<and> (data = None \<or> data = Some (held c i))"
  using assms
  by (auto simp: inbox_finish_def inbox_join_def inbox_shape_def same_rest_def held_def nth_list_update split: if_splits)

lemma inbox_abort_effect:
  assumes "inbox_shape i" and "i' = inbox_abort ch i"
  shows "inbox_shape i' \<and> in_oversize i' = in_oversize i \<and> in_events i' = in_events i \<and> in_ready_bytes i' = in_ready_bytes i \<and>
    in_max_message i' = in_max_message i \<and> in_budget i' = in_budget i \<and>
    (\<forall>d < 8. held d i' = (if d = chan_index ch then [] else held d i) \<and>
      bit (in_open i') d = (bit (in_open i) d \<and> d \<noteq> chan_index ch) \<and>
      bit (in_dropping i') d = (bit (in_dropping i) d \<and> d \<noteq> chan_index ch))"
  using assms by (auto simp: inbox_abort_def Let_def inbox_shape_def held_def nth_list_update)

section \<open>Reassembly spells the messages\<close>

definition msgs_on :: "u8 \<Rightarrow> LinkEvent list \<Rightarrow> u8 list list" where
  "msgs_on ch evs = concat (map (\<lambda>ev. case ev of Message c m \<Rightarrow> if c = ch then [m] else [] | _ \<Rightarrow> []) evs)"

lemma msgs_on_simps [simp]:
  "msgs_on ch [] = []"
  "msgs_on ch (xs @ ys) = msgs_on ch xs @ msgs_on ch ys"
  "msgs_on ch [Message c m] = (if c = ch then [m] else [])"
  by (simp_all add: msgs_on_def)

text \<open>The reassembly state of a channel after the fragments \<open>fs\<close>: an unfinished message is held whole, or being
  dropped.\<close>

definition partial_ok :: "nat \<Rightarrow> Inbox \<Rightarrow> u8 list option \<Rightarrow> bool" where
  "partial_ok c i p \<longleftrightarrow>
     (if bit (in_dropping i) c then p \<noteq> None \<and> \<not> bit (in_open i) c \<and> held c i = [] \<and> 0 < in_oversize i
      else (bit (in_open i) c \<longleftrightarrow> p \<noteq> None) \<and> held c i = (case p of Some p \<Rightarrow> p | None \<Rightarrow> []))"

text \<open>The events \<open>evs\<close> delivered so far against what the fragments spell: a subsequence, and all of it as long as
  no message was counted as dropped.\<close>

definition chan_sync :: "Fragment list \<Rightarrow> LinkEvent list \<Rightarrow> Inbox \<Rightarrow> u8 \<Rightarrow> bool" where
  "chan_sync fs evs i ch \<longleftrightarrow> (\<exists>p ms. spell ch fs = Some (p, ms) \<and> partial_ok (chan_index ch) i p \<and>
     subseq (msgs_on ch evs) ms \<and> (in_oversize i = 0 \<longrightarrow> msgs_on ch evs = ms))"

definition inbox_sync :: "Fragment list \<Rightarrow> LinkEvent list \<Rightarrow> Inbox \<Rightarrow> bool" where
  "inbox_sync fs evs i \<longleftrightarrow> inbox_shape i \<and> (\<forall>ch < 8. chan_sync fs evs i ch)"

lemma inbox_new_sync: "inbox_sync [] [] (inbox_new budget max_message keep)"
  by (simp add: inbox_sync_def inbox_shape_def inbox_new_def CHANNELS_def chan_sync_def partial_ok_def held_def)

text \<open>One fragment, seen from its own channel.\<close>

definition frag_outcome :: "Fragment \<Rightarrow> u8 list option \<Rightarrow> Inbox \<Rightarrow> Inbox \<Rightarrow> LinkEvent list \<Rightarrow> bool" where
  "frag_outcome f p i i' new \<longleftrightarrow>
     (let m = (case p of Some p \<Rightarrow> p | None \<Rightarrow> []) @ f_data f
      in partial_ok (chan_index (f_chan f)) i' (if f_fin f then None else Some m) \<and> in_oversize i \<le> in_oversize i' \<and>
         (new = [] \<and> (\<not> f_fin f \<or> 0 < in_oversize i') \<or> f_fin f \<and> new = [Message (f_chan f) m]))"

definition others_same :: "nat \<Rightarrow> Inbox \<Rightarrow> Inbox \<Rightarrow> bool" where
  "others_same c i i' \<longleftrightarrow> (\<forall>d < 8. d \<noteq> c \<longrightarrow> held d i' = held d i \<and> bit (in_open i') d = bit (in_open i) d \<and>
     bit (in_dropping i') d = bit (in_dropping i) d)"

lemma inbox_drop_outcome:
  assumes "inbox_shape i"
  shows "frag_outcome f p i (inbox_drop f i) [] \<and> inbox_shape (inbox_drop f i) \<and>
    in_events (inbox_drop f i) = in_events i \<and> others_same (chan_index (f_chan f)) i (inbox_drop f i)"
  using inbox_abort_effect [OF assms refl, of "f_chan f"]
  by (auto simp: inbox_drop_def Let_def frag_outcome_def partial_ok_def others_same_def)

lemma push_fragment_outcome:
  assumes "inbox_shape i" and "partial_ok (chan_index (f_chan f)) i p" and "f_first f \<noteq> (p \<noteq> None)"
    and "push_fragment heap f i = (ok, i')"
  shows "ok \<and> inbox_shape i' \<and> others_same (chan_index (f_chan f)) i i' \<and>
    (\<exists>new. in_events i' = in_events i @ new \<and> frag_outcome f p i i' new)"
proof -
  define c where "c = chan_index (f_chan f)"
  have c: "c < 8" by (simp add: c_def)
  note simps = c_def [symmetric] chan_bit_test [OF c]
  consider (dropping) "bit (in_dropping i) c"
    | (big) "\<not> bit (in_dropping i) c" "partial_len c i + length (f_data f) > in_max_message i"
    | (single) "\<not> bit (in_dropping i) c" "\<not> partial_len c i + length (f_data f) > in_max_message i" "f_first f \<and> f_fin f"
    | (part) "\<not> bit (in_dropping i) c" "\<not> partial_len c i + length (f_data f) > in_max_message i" "\<not> (f_first f \<and> f_fin f)"
    by blast
  then show ?thesis
  proof cases
    case dropping
    then show ?thesis
      using assms by (auto simp: push_fragment_def Let_def simps partial_ok_def frag_outcome_def others_same_def c)
  next
    case big
    have "push_fragment heap f i = (True, inbox_drop f i)"
      using big assms(2,3) by (auto simp: push_fragment_def Let_def simps partial_ok_def)
    then show ?thesis using inbox_drop_outcome [OF assms(1), of f p] assms(4) by auto
  next
    case single
    then show ?thesis
      using assms by (auto simp: push_fragment_def Let_def simps partial_ok_def frag_outcome_def others_same_def
          inbox_deliver_def c)
  next
    case part
    obtain ok1 j where t: "take_fragment heap c (f_data f) i = (ok1, j)" by fastforce
    note te = take_fragment_effect [OF assms(1) c t]
    show ?thesis
    proof (cases ok1)
      case False
      have "push_fragment heap f i = (True, inbox_drop f j)"
        using part assms(2,3) False t by (auto simp: push_fragment_def Let_def simps partial_ok_def)
      then show ?thesis
        using inbox_drop_outcome [of j f p] te False assms(4)
        by (auto simp: same_rest_def others_same_def frag_outcome_def)
    next
      case True
      define k where "k = j\<lparr>in_open := in_open j OR chan_bit c\<rparr>"
      have k: "inbox_shape k" "held c k = held c i @ f_data f" "\<And>d. d < 8 \<Longrightarrow> d \<noteq> c \<Longrightarrow> held d k = held d i"
        "in_dropping k = in_dropping i" "in_events k = in_events i" "in_oversize k = in_oversize i"
        "in_open k = in_open i OR chan_bit c"
        using te True c by (simp_all add: k_def same_rest_def)
      have hi: "held c i = (case p of Some p \<Rightarrow> p | None \<Rightarrow> [])"
        using part(1) assms(2) by (simp add: partial_ok_def simps)
      show ?thesis
      proof (cases "f_fin f")
        case False
        have "push_fragment heap f i = (True, k)"
          using part assms(2,3) True t False by (auto simp: push_fragment_def Let_def simps partial_ok_def k_def)
        then show ?thesis
          using k hi assms(4) False part(1) c
          by (auto simp: frag_outcome_def partial_ok_def others_same_def simps)
      next
        case fin: True
        obtain data l where fi: "inbox_finish heap c k = (data, l)" by fastforce
        note fe = inbox_finish_effect [OF k(1) c fi]
        note ae = inbox_abort_effect [of l "inbox_abort (f_chan f) l" "f_chan f", unfolded simps]
        have push: "push_fragment heap f i = (True, case data of
            Some data \<Rightarrow> inbox_deliver (f_chan f) data (inbox_abort (f_chan f) l)
          | None \<Rightarrow> inbox_abort (f_chan f) l\<lparr>in_oversize := in_oversize (inbox_abort (f_chan f) l) + 1\<rparr>)"
          using part assms(2,3) True t fin fi by (auto simp: push_fragment_def Let_def simps partial_ok_def k_def)
        show ?thesis
          using push assms(4) fe ae k hi fin part(1) c
          by (cases data) (auto simp: frag_outcome_def partial_ok_def others_same_def simps same_rest_def
              inbox_deliver_def)
      qed
    qed
  qed
qed

lemma push_fragment_sync:
  assumes "inbox_sync fs evs i" and "f_chan f < 8" and "spell (f_chan f) (fs @ [f]) \<noteq> None"
    and "push_fragment heap f i = (ok, i')"
  shows "ok \<and> (\<exists>new. in_events i' = in_events i @ new \<and> inbox_sync (fs @ [f]) (evs @ new) i')"
proof -
  from assms(1,2) obtain p ms where own: "spell (f_chan f) fs = Some (p, ms)" "partial_ok (chan_index (f_chan f)) i p"
    "subseq (msgs_on (f_chan f) evs) ms" "in_oversize i = 0 \<longrightarrow> msgs_on (f_chan f) evs = ms"
    by (auto simp: inbox_sync_def chan_sync_def)
  have first: "f_first f \<noteq> (p \<noteq> None)" using assms(3) own(1) by (auto simp: spell_snoc split: if_splits)
  from assms(1) have shape: "inbox_shape i" by (simp add: inbox_sync_def)
  from push_fragment_outcome [OF shape own(2) first assms(4)] obtain new where
    new: "ok" "inbox_shape i'" "others_same (chan_index (f_chan f)) i i'" "in_events i' = in_events i @ new"
    "frag_outcome f p i i' new" by blast
  have "chan_sync (fs @ [f]) (evs @ new) i' ch" if ch: "ch < 8" for ch
  proof (cases "ch = f_chan f")
    case True
    then show ?thesis
      using own new(5) first
      by (auto simp: chan_sync_def spell_snoc frag_outcome_def Let_def intro: subseq_order.order_trans list_emb_append_mono)
  next
    case False
    then have d: "chan_index ch \<noteq> chan_index (f_chan f)" using chan_index_inj [OF ch assms(2)] by simp
    from assms(1) ch obtain q ns where other: "spell ch fs = Some (q, ns)" "partial_ok (chan_index ch) i q"
      "subseq (msgs_on ch evs) ns" "in_oversize i = 0 \<longrightarrow> msgs_on ch evs = ns"
      by (auto simp: inbox_sync_def chan_sync_def)
    have "msgs_on ch new = []" "in_oversize i \<le> in_oversize i'"
      using new(5) False by (auto simp: frag_outcome_def Let_def)
    then show ?thesis
      using other new(3) d False by (auto simp: chan_sync_def spell_snoc others_same_def partial_ok_def)
  qed
  then show ?thesis using new by (auto simp: inbox_sync_def)
qed

section \<open>The receive budget\<close>

definition event_cost :: "LinkEvent \<Rightarrow> nat" where
  "event_cost ev = EVENT_COST + length (event_data ev)"

abbreviation cost :: "LinkEvent list \<Rightarrow> nat" where
  "cost evs \<equiv> sum_list (map event_cost evs)"

definition lifecycle :: "LinkEvent \<Rightarrow> bool" where
  "lifecycle ev \<longleftrightarrow> is_up_ev ev \<or> is_reset_ev ev"

text \<open>The lifecycle events at the end of the queue, newest first: at most an up, a reset and an up.\<close>

fun short_tail :: "LinkEvent list \<Rightarrow> bool" where
  "short_tail [] = True"
| "short_tail [a] = True"
| "short_tail [a, b] = (is_up_ev a \<noteq> is_up_ev b)"
| "short_tail [a, b, c] = (is_up_ev a \<and> is_reset_ev b \<and> is_up_ev c)"
| "short_tail _ = False"

definition queue_ok :: "nat \<Rightarrow> LinkEvent list \<Rightarrow> nat \<Rightarrow> bool" where
  "queue_ok budget evs ready \<longleftrightarrow> ready = cost evs \<and> short_tail (takeWhile lifecycle (rev evs)) \<and>
     cost (dropWhile lifecycle (rev evs)) \<le> budget"

definition inbox_inv :: "Inbox \<Rightarrow> bool" where
  "inbox_inv i \<longleftrightarrow> inbox_shape i \<and> queue_ok (in_budget i) (in_events i) (in_ready_bytes i) \<and>
     (\<forall>c < 8. length (held c i) \<le> in_max_message i \<and> (\<not> bit (in_open i) c \<longrightarrow> held c i = []))"

lemma reset_not_up: "is_reset_ev ev \<Longrightarrow> \<not> is_up_ev ev"
  by (cases ev) simp_all

lemma cost_ge: "EVENT_COST * length evs \<le> cost evs"
  by (induction evs) (simp_all add: event_cost_def)

lemma lifecycle_cost: "lifecycle ev \<Longrightarrow> event_cost ev = EVENT_COST"
  by (cases ev) (simp_all add: lifecycle_def event_cost_def)

lemma short_tail_length: "short_tail evs \<Longrightarrow> length evs \<le> 3"
  by (cases evs rule: short_tail.cases) simp_all

lemma cost_lifecycles: "list_all lifecycle evs \<Longrightarrow> cost evs = EVENT_COST * length evs"
  by (induction evs) (simp_all add: lifecycle_cost)

lemma cost_rev: "cost (rev evs) = cost evs"
  by (simp add: rev_map [symmetric])

lemma queue_ok_bound:
  assumes "queue_ok budget evs ready"
  shows "ready \<le> budget + 3 * EVENT_COST" and "length evs \<le> budget div EVENT_COST + 3"
proof -
  define tl where "tl = takeWhile lifecycle (rev evs)"
  define rest where "rest = dropWhile lifecycle (rev evs)"
  have split: "rev evs = tl @ rest" by (simp add: tl_def rest_def)
  have tl: "length tl \<le> 3" using assms by (simp add: queue_ok_def tl_def short_tail_length)
  have "list_all lifecycle tl" by (auto simp: tl_def list_all_iff dest: set_takeWhileD)
  then have "cost tl \<le> 3 * EVENT_COST" using tl by (simp add: cost_lifecycles EVENT_COST_def)
  moreover have "ready = cost tl + cost rest" using assms cost_rev [of evs] split by (simp add: queue_ok_def)
  moreover have rest: "cost rest \<le> budget" using assms by (simp add: queue_ok_def rest_def)
  ultimately show "ready \<le> budget + 3 * EVENT_COST" by simp
  have "EVENT_COST * length rest \<le> budget" using rest cost_ge [of rest] by simp
  then have "length rest \<le> budget div EVENT_COST" by (simp add: less_eq_div_iff_mult_less_eq EVENT_COST_def mult.commute)
  moreover have "length evs = length tl + length rest" using split by (metis length_append length_rev)
  ultimately show "length evs \<le> budget div EVENT_COST + 3" using tl by simp
qed

text \<open>Messages and text are queued only within the budget.\<close>

lemma queue_ok_push:
  assumes "queue_ok budget evs ready" and "\<not> lifecycle ev" and "ready + event_cost ev \<le> budget"
  shows "queue_ok budget (evs @ [ev]) (ready + event_cost ev)"
  using assms cost_rev [of evs] by (simp add: queue_ok_def)

lemma queue_ok_pop:
  assumes "queue_ok budget (ev # evs) ready"
  shows "queue_ok budget evs (ready - event_cost ev)"
proof (cases "list_all lifecycle evs")
  case True
  then have tw: "takeWhile lifecycle (rev evs) = rev evs" "dropWhile lifecycle (rev evs) = []"
    by (auto simp: list_all_iff takeWhile_eq_all_conv dropWhile_eq_Nil_conv)
  have "short_tail (rev evs)"
  proof (cases "lifecycle ev")
    case True
    then have "short_tail (rev evs @ [ev])" using assms \<open>list_all lifecycle evs\<close>
      by (simp add: queue_ok_def takeWhile_append tw list_all_iff)
    then show ?thesis by (cases "rev evs @ [ev]" rule: short_tail.cases) (auto simp: append_eq_Cons_conv dest: reset_not_up)
  next
    case False
    then show ?thesis using assms True by (simp add: queue_ok_def takeWhile_append tw list_all_iff)
  qed
  then show ?thesis using assms unfolding queue_ok_def tw by simp
next
  case False
  then show ?thesis
    using assms by (auto simp: queue_ok_def takeWhile_append dropWhile_append list_all_iff split: if_splits)
qed

lemma supersede_stop: "rest = [] \<or> \<not> lifecycle (hd rest) \<Longrightarrow> supersede rest ready = (rest, ready)"
  by (cases rest) (simp_all add: lifecycle_def)

lemma supersede_ok:
  assumes "short_tail (takeWhile lifecycle r)" and "supersede r ready = (r', ready')" and "ready = cost r"
  shows "ready' = cost r' \<and> dropWhile lifecycle r' = dropWhile lifecycle r \<and>
    (takeWhile lifecycle r' = [] \<or> (\<exists>u. is_up_ev u \<and> takeWhile lifecycle r' = [u]))"
proof -
  define tl where "tl = takeWhile lifecycle r"
  define rest where "rest = dropWhile lifecycle r"
  have r: "r = tl @ rest" by (simp add: tl_def rest_def)
  have stop: "rest = [] \<or> \<not> lifecycle (hd rest)" using hd_dropWhile [of lifecycle r] by (auto simp: rest_def)
  then have rest: "takeWhile lifecycle rest = []" "dropWhile lifecycle rest = rest" by (cases rest; simp)+
  have hd: "(case rest of e # _ \<Rightarrow> is_reset_ev e | [] \<Rightarrow> False) = False"
    using stop by (cases rest) (simp_all add: lifecycle_def)
  have ls: "list_all lifecycle tl" by (auto simp: tl_def list_all_iff dest: set_takeWhileD)
  from assms(1) ls show ?thesis
    using assms(2,3) rest supersede_stop [OF stop] hd unfolding tl_def [symmetric] rest_def [symmetric] r
    by (cases tl rule: short_tail.cases) (auto simp: lifecycle_cost lifecycle_def dest: reset_not_up split: if_splits)
qed

lemma queue_ok_reset:
  assumes "queue_ok budget evs ready" and "is_reset_ev ev" and "supersede (rev evs) ready = (r, ready')"
  shows "queue_ok budget (rev r @ [ev]) (ready' + EVENT_COST)"
proof -
  from supersede_ok [OF _ assms(3)] assms(1) cost_rev [of evs] have
    "ready' = cost r" "dropWhile lifecycle r = dropWhile lifecycle (rev evs)"
    "takeWhile lifecycle r = [] \<or> (\<exists>u. is_up_ev u \<and> takeWhile lifecycle r = [u])"
    by (simp_all add: queue_ok_def)
  moreover have "lifecycle ev" using assms(2) by (simp add: lifecycle_def)
  ultimately show ?thesis
    using assms(1,2) cost_rev [of r] by (auto simp: queue_ok_def lifecycle_cost dest: reset_not_up)
qed

lemma queue_ok_up:
  assumes "queue_ok budget evs ready" and "is_up_ev ev" and "evs = [] \<or> \<not> is_up_ev (last evs)"
  shows "queue_ok budget (evs @ [ev]) (ready + EVENT_COST)"
proof -
  have lf: "lifecycle ev" using assms(2) by (simp add: lifecycle_def)
  have "takeWhile lifecycle (rev evs) = [] \<or> \<not> is_up_ev (hd (takeWhile lifecycle (rev evs)))"
    using assms(3) by (cases "rev evs") (auto simp: last_conv_nth hd_rev [symmetric] hd_conv_nth)
  moreover have "list_all lifecycle (takeWhile lifecycle (rev evs))" by (auto simp: list_all_iff dest: set_takeWhileD)
  ultimately have "short_tail (ev # takeWhile lifecycle (rev evs))"
    using assms(1,2) unfolding queue_ok_def
    by (cases "takeWhile lifecycle (rev evs)" rule: short_tail.cases) (auto simp: lifecycle_def)
  then show ?thesis using assms(1) lf by (simp add: queue_ok_def lifecycle_cost)
qed

text \<open>What one fragment does to the budget.\<close>

lemma inbox_abort_all_inv: "inbox_inv i \<Longrightarrow> inbox_inv (inbox_abort_all i)"
  by (simp add: inbox_inv_def inbox_abort_all_def inbox_shape_def held_def CHANNELS_def)

lemma inbox_abort_inv:
  assumes "inbox_inv i"
  shows "inbox_inv (inbox_abort ch i)"
  using inbox_abort_effect [OF _ refl, of i ch] assms by (auto simp: inbox_inv_def)

lemma inbox_drop_inv:
  assumes "inbox_inv i"
  shows "inbox_inv (inbox_drop f i) \<and> in_budget (inbox_drop f i) = in_budget i \<and> in_max_message (inbox_drop f i) = in_max_message i"
  using inbox_abort_inv [OF assms, of "f_chan f"] inbox_abort_effect [OF _ refl, of i "f_chan f"] assms
  by (auto simp: inbox_drop_def Let_def inbox_inv_def)

lemma deliver_inv:
  assumes "inbox_inv i" and "in_ready_bytes i + length m + EVENT_COST \<le> in_budget i"
  shows "inbox_inv (inbox_deliver ch m i)"
  using assms queue_ok_push [of "in_budget i" "in_events i" "in_ready_bytes i" "Message ch m"]
  by (simp add: inbox_inv_def inbox_deliver_def event_cost_def lifecycle_def ac_simps)

lemma has_room_cases:
  assumes "inbox_shape i" and "has_room ch n i" and "c = chan_index ch" and "\<not> bit (in_dropping i) c"
    and "partial_len c i + n \<le> in_max_message i"
  shows "in_ready_bytes i + (length (held c i) + n) + EVENT_COST \<le> in_budget i"
  using assms by (simp add: has_room_def Let_def chan_bit_test partial_len_held)

text \<open>What one fragment does to the budget.\<close>

lemma push_fragment_budget:
  assumes inv: "inbox_inv i" and push: "push_fragment heap f i = (ok, i')" and room: "has_room (f_chan f) (length (f_data f)) i"
  shows "inbox_inv i' \<and> in_budget i' = in_budget i \<and> in_max_message i' = in_max_message i"
proof -
  define c where "c = chan_index (f_chan f)"
  have c: "c < 8" by (simp add: c_def)
  have shape: "inbox_shape i" using inv by (simp add: inbox_inv_def)
  note simps = c_def [symmetric] chan_bit_test [OF c]
  consider (dropping) "bit (in_dropping i) c" | (bad) "\<not> bit (in_dropping i) c" "f_first f = bit (in_open i) c"
    | (big) "\<not> bit (in_dropping i) c" "f_first f \<noteq> bit (in_open i) c" "partial_len c i + length (f_data f) > in_max_message i"
    | (fits) "\<not> bit (in_dropping i) c" "f_first f \<noteq> bit (in_open i) c" "partial_len c i + length (f_data f) \<le> in_max_message i"
    by linarith
  then show ?thesis
  proof cases
    case dropping
    then have "i' = inbox_abort_all i \<or> i' = i \<or> i' = i\<lparr>in_dropping := in_dropping i AND NOT (chan_bit c)\<rparr>"
      using push by (auto simp: push_fragment_def Let_def simps split: if_splits)
    then show ?thesis using inv inbox_abort_all_inv [OF inv] by (auto simp: inbox_inv_def inbox_abort_all_def)
  next
    case bad
    then have "i' = inbox_abort_all i" using push by (auto simp: push_fragment_def Let_def simps split: if_splits)
    then show ?thesis using inbox_abort_all_inv [OF inv] by (simp add: inbox_abort_all_def)
  next
    case big
    then have "i' = inbox_drop f i" using push by (auto simp: push_fragment_def Let_def simps split: if_splits)
    then show ?thesis using inbox_drop_inv [OF inv] by simp
  next
    case fits
    note room' = has_room_cases [OF shape room c_def fits(1,3)]
    show ?thesis
    proof (cases "f_first f \<and> f_fin f")
      case True
      then have "i' = inbox_deliver (f_chan f) (f_data f) i"
        using push fits by (auto simp: push_fragment_def Let_def simps split: if_splits)
      then show ?thesis using deliver_inv [OF inv, of "f_data f"] room' by (simp add: inbox_deliver_def)
    next
      case False
      obtain ok1 j where t: "take_fragment heap c (f_data f) i = (ok1, j)" by fastforce
      note te = take_fragment_effect [OF shape c t]
      define k where "k = j\<lparr>in_open := in_open j OR chan_bit c\<rparr>"
      show ?thesis
      proof (cases ok1)
        case False': False
        then have "i' = inbox_drop f j"
          using push fits False t by (auto simp: push_fragment_def Let_def simps split: if_splits)
        moreover have "inbox_inv j" using te inv False' by (auto simp: inbox_inv_def same_rest_def)
        ultimately show ?thesis using inbox_drop_inv [of j f] te by (simp add: same_rest_def)
      next
        case True
        have k: "inbox_inv k" "held c k = held c i @ f_data f"
          using te inv True fits(3) c partial_len_held [OF shape c] by (auto simp: k_def inbox_inv_def same_rest_def)
        have rest: "in_budget k = in_budget i" "in_max_message k = in_max_message i" "in_ready_bytes k = in_ready_bytes i"
          using te by (auto simp: k_def same_rest_def)
        show ?thesis
        proof (cases "f_fin f")
          case False'': False
          then have "i' = k" using push fits False t True by (auto simp: push_fragment_def Let_def simps k_def split: if_splits)
          then show ?thesis using k rest by simp
        next
          case fin: True
          obtain data l where fi: "inbox_finish heap c k = (data, l)" by fastforce
          from k(1) have ks: "inbox_shape k" by (simp add: inbox_inv_def)
          note fe = inbox_finish_effect [OF ks c fi]
          define m where "m = inbox_abort (f_chan f) l"
          note ae = inbox_abort_effect [of l m "f_chan f", OF _ m_def, unfolded simps]
          have m: "inbox_inv m" "in_budget m = in_budget i" "in_max_message m = in_max_message i"
            "in_ready_bytes m = in_ready_bytes i"
            using k(1) rest fe ae by (auto simp: inbox_inv_def same_rest_def)
          have "i' = (case data of Some data \<Rightarrow> inbox_deliver (f_chan f) data m | None \<Rightarrow> m\<lparr>in_oversize := in_oversize m + 1\<rparr>)"
            using push fits False True t fin fi unfolding m_def
            by (auto simp: push_fragment_def Let_def simps k_def split: if_splits)
          then show ?thesis
            using deliver_inv [OF m(1), of "held c k"] m k(2) room' fe
            by (auto simp: inbox_inv_def inbox_deliver_def split: option.splits)
        qed
      qed
    qed
  qed
qed

text \<open>The inboxes a link can have: fragments, datagrams and text come only within the room, a datagram comes on a
  channel that carries no fragments, and an up never directly follows an up.\<close>

inductive inbox_reach :: "nat \<Rightarrow> nat \<Rightarrow> Inbox \<Rightarrow> bool" for budget max_message where
  new: "inbox_reach budget max_message (inbox_new budget max_message keep)"
| fragment: "inbox_reach budget max_message i \<Longrightarrow> has_room (f_chan f) (length (f_data f)) i \<Longrightarrow>
    push_fragment heap f i = (ok, i') \<Longrightarrow> inbox_reach budget max_message i'"
| datagram: "inbox_reach budget max_message i \<Longrightarrow> has_room ch (length data) i \<Longrightarrow> length data \<le> max_message \<Longrightarrow>
    in_dropping i AND chan_bit (chan_index ch) = 0 \<Longrightarrow> partial_len (chan_index ch) i = 0 \<Longrightarrow>
    inbox_reach budget max_message (push_datagram ch data i)"
| console: "inbox_reach budget max_message i \<Longrightarrow> push_text txt i = (ok, i') \<Longrightarrow> inbox_reach budget max_message i'"
| up: "inbox_reach budget max_message i \<Longrightarrow> in_events i = [] \<or> \<not> is_up_ev (last (in_events i)) \<Longrightarrow>
    inbox_reach budget max_message (push_lifecycle (Up g) i)"
| reset: "inbox_reach budget max_message i \<Longrightarrow> inbox_reach budget max_message (push_lifecycle (Reset why g) i)"
| abort: "inbox_reach budget max_message i \<Longrightarrow> inbox_reach budget max_message (inbox_abort_all i)"
| pop: "inbox_reach budget max_message i \<Longrightarrow> inbox_pop i = Some (ev, i') \<Longrightarrow> inbox_reach budget max_message i'"

lemma inbox_reach_inv:
  "inbox_reach budget max_message i \<Longrightarrow> inbox_inv i \<and> in_budget i = budget \<and> in_max_message i = max_message"
proof (induction rule: inbox_reach.induct)
  case (new keep)
  then show ?case
    by (simp add: inbox_inv_def inbox_shape_def inbox_new_def CHANNELS_def queue_ok_def held_def)
next
  case (fragment i f heap ok i')
  then show ?case using push_fragment_budget [of i heap f ok i'] by simp
next
  case (datagram i ch data)
  then have "in_ready_bytes i + length data + EVENT_COST \<le> in_budget i"
    by (simp add: has_room_def Let_def)
  then show ?case using datagram deliver_inv [of i data ch] by (simp add: push_datagram_def inbox_deliver_def)
next
  case (console i t ok i')
  then show ?case
    using queue_ok_push [of "in_budget i" "in_events i" "in_ready_bytes i" "Text t"]
    by (auto simp: push_text_def inbox_inv_def event_cost_def lifecycle_def ac_simps split: if_splits)
next
  case (up i g)
  then show ?case
    using queue_ok_up [of "in_budget i" "in_events i" "in_ready_bytes i" "Up g"] by (auto simp: push_lifecycle_def inbox_inv_def)
next
  case (reset i why g)
  obtain r ready where s: "supersede (rev (in_events i)) (in_ready_bytes i) = (r, ready)" by fastforce
  show ?case
    using reset s queue_ok_reset [of "in_budget i" "in_events i" "in_ready_bytes i" "Reset why g" r ready]
    by (auto simp: push_lifecycle_def inbox_inv_def)
next
  case (abort i)
  then show ?case using inbox_abort_all_inv [of i] by (simp add: inbox_abort_all_def)
next
  case (pop i ev i')
  then obtain evs where "in_events i = ev # evs" by (auto simp: inbox_pop_def split: list.splits)
  then show ?case
    using pop queue_ok_pop [of "in_budget i" ev evs "in_ready_bytes i"]
    by (auto simp: inbox_pop_def inbox_inv_def event_cost_def)
qed

section \<open>Properties\<close>



end
