(* ===== verification/Link_Arq.thy ===== *)
theory Link_Arq
  imports Link_TxQueue Link_Inbox
begin

text \<open>
  The reliability variants of the device link, \<^verbatim>\<open>lp-base/lp-link/src/arq\<close>: go-back-N (and stop-and-wait, the
  same with a window of one), selective repeat with its reorder buffer, and no retransmission at all. The
  receivers of the first two are shown to meet one contract, the locale \<open>in_order_receiver\<close>: whatever frames
  arrive, in whatever order and however often, the fragments handed to the inbox are the sent ones, in order.

  The answers of the heap come as a sequence, one for each fragment pushed.
\<close>

section \<open>Definitions\<close>

type_synonym Heaps = "nat \<Rightarrow> HeapRequest \<Rightarrow> bool"

datatype RxVerdict = InOrder | Buffered | Gap | Duplicate | NoRoom | OutOfWindow | Protocol

record Feedback =
  fb_sack :: u32
  fb_trigger :: "u8 option"
  fb_now :: Micros
  fb_srtt :: Micros
  fb_reorder_threshold :: u8

subsection \<open>Go-back-N\<close>

record GoBackN =
  gbn_expected :: u8

definition gbn_on_data :: "Heaps \<Rightarrow> u8 \<Rightarrow> Fragment \<Rightarrow> GoBackN \<Rightarrow> Inbox \<Rightarrow> RxVerdict \<times> GoBackN \<times> Inbox" where
  "gbn_on_data heaps seq frag r inbox =
     (if seq = gbn_expected r then
        if \<not> has_room (f_chan frag) (length (f_data frag)) inbox then (NoRoom, r, inbox)
        else (case push_fragment (heaps 0) frag inbox of
            (False, inbox) \<Rightarrow> (Protocol, r, inbox)
          | (True, inbox) \<Rightarrow> (InOrder, r\<lparr>gbn_expected := gbn_expected r + 1\<rparr>, inbox))
      else if seq_is_behind (gbn_expected r) seq then (Duplicate, r, inbox)
      else (Gap, r, inbox))"

text \<open>Mark every sent frame for resending.\<close>

definition go_back :: "TxQueue \<Rightarrow> nat \<times> TxQueue" where
  "go_back tx = (length (filter (\<lambda>e. te_sent_at e \<noteq> None) (tx_entries tx)), tx_map (\<lambda>e. e\<lparr>te_sent_at := None\<rparr>) tx)"

definition gbn_on_timeout :: "Micros \<Rightarrow> Micros \<Rightarrow> TxQueue \<Rightarrow> TxQueue" where
  "gbn_on_timeout now rto tx =
     (case Option.bind (tx_front tx) te_sent_at of
        Some t \<Rightarrow> if t + rto \<le> now then snd (go_back tx) else tx
      | None \<Rightarrow> tx)"

definition gbn_on_feedback :: "Feedback \<Rightarrow> TxQueue \<Rightarrow> nat \<times> TxQueue" where
  "gbn_on_feedback fb tx =
     (case fb_trigger fb of
        None \<Rightarrow> (0, tx)
      | Some trigger \<Rightarrow>
          (case (tx_front tx, tx_get trigger tx) of
             (Some front, Some t) \<Rightarrow>
               (case te_sent_at front of
                  None \<Rightarrow> (0, tx)
                | Some front_at \<Rightarrow>
                    let after = te_sent_order t > te_sent_order front;
                        resend_settled = te_sends front = 1 \<or> front_at + fb_srtt fb \<le> fb_now fb
                    in if after \<and> resend_settled then go_back tx else (0, tx))
           | _ \<Rightarrow> (0, tx)))"

subsection \<open>No retransmission\<close>

record NoArq =
  na_expected :: u8
  na_skipping :: u8

definition na_on_data :: "Heaps \<Rightarrow> u8 \<Rightarrow> Fragment \<Rightarrow> NoArq \<Rightarrow> Inbox \<Rightarrow> RxVerdict \<times> NoArq \<times> Inbox" where
  "na_on_data heaps seq frag r inbox =
     (let gap = (seq \<noteq> na_expected r);
          r = r\<lparr>na_expected := seq + 1\<rparr>;
          (r, inbox) = (if gap then (r\<lparr>na_skipping := 0xFF\<rparr>, inbox_abort_all inbox) else (r, inbox));
          bit = chan_bit (unat (f_chan frag AND 7))
      in if na_skipping r AND bit \<noteq> 0 \<and> \<not> f_first frag then (Gap, r, inbox)
         else let r = r\<lparr>na_skipping := na_skipping r AND NOT bit\<rparr>
              in if \<not> has_room (f_chan frag) (length (f_data frag)) inbox then
                   (NoRoom, if f_fin frag then r else r\<lparr>na_skipping := na_skipping r OR bit\<rparr>,
                    inbox_abort (f_chan frag) inbox)
                 else (case push_fragment (heaps 0) frag inbox of
                     (False, inbox) \<Rightarrow> (Protocol, r, inbox)
                   | (True, inbox) \<Rightarrow> (if gap then Gap else InOrder, r, inbox)))"

subsection \<open>Selective repeat\<close>

record Held =
  hd_chan :: u8
  hd_first :: bool
  hd_fin :: bool
  hd_len :: u16

record SelectiveRepeat =
  sr_expected :: u8
  sr_held :: "Held option list"
  sr_slab :: "u8 list"
  sr_slot_len :: nat
  sr_head :: nat
  sr_held_bytes :: nat

definition SR_MAX_WINDOW :: u8 where "SR_MAX_WINDOW = 32"

definition sr_new :: "u8 \<Rightarrow> nat \<Rightarrow> SelectiveRepeat" where
  "sr_new rx_window max_payload =
     (let n = unat (if rx_window < 1 then 1 else if rx_window > SR_MAX_WINDOW then SR_MAX_WINDOW else rx_window)
      in \<lparr>sr_expected = 0, sr_held = replicate n None, sr_slab = replicate (n * max_payload) 0,
          sr_slot_len = max_payload, sr_head = 0, sr_held_bytes = 0\<rparr>)"

definition sr_reset :: "SelectiveRepeat \<Rightarrow> SelectiveRepeat" where
  "sr_reset r = r\<lparr>sr_expected := 0, sr_held := map (\<lambda>_. None) (sr_held r), sr_head := 0, sr_held_bytes := 0\<rparr>"

abbreviation sr_window :: "SelectiveRepeat \<Rightarrow> nat" where
  "sr_window r \<equiv> length (sr_held r)"

definition sr_phys :: "nat \<Rightarrow> SelectiveRepeat \<Rightarrow> nat" where
  "sr_phys i r = (sr_head r + i) mod sr_window r"

definition sr_advance :: "SelectiveRepeat \<Rightarrow> SelectiveRepeat" where
  "sr_advance r = r\<lparr>sr_held := (sr_held r)[sr_phys 0 r := None], sr_head := (sr_head r + 1) mod sr_window r,
     sr_expected := sr_expected r + 1\<rparr>"

definition held_fragment :: "SelectiveRepeat \<Rightarrow> nat \<Rightarrow> Held \<Rightarrow> Fragment" where
  "held_fragment r p h = \<lparr>f_chan = hd_chan h, f_first = hd_first h, f_fin = hd_fin h,
     f_data = slot_get (sr_slot_len r) (sr_slab r) p (unat (hd_len h))\<rparr>"

definition deliver_slot0 :: "(HeapRequest \<Rightarrow> bool) \<Rightarrow> SelectiveRepeat \<Rightarrow> Inbox \<Rightarrow> RxVerdict option \<times> SelectiveRepeat \<times> Inbox" where
  "deliver_slot0 heap r inbox =
     (let p = sr_phys 0 r
      in case sr_held r ! p of
           None \<Rightarrow> (None, r, inbox)
         | Some h \<Rightarrow>
             if \<not> has_room (hd_chan h) (unat (hd_len h)) inbox then (Some NoRoom, r, inbox)
             else (case push_fragment heap (held_fragment r p h) inbox of
                 (ok, inbox) \<Rightarrow>
                   (Some (if ok then InOrder else Protocol),
                    sr_advance (r\<lparr>sr_held_bytes := sr_held_bytes r - unat (hd_len h)\<rparr>), inbox)))"

text \<open>The number of frames held, which the draining loop reduces. An empty reorder buffer would not drain; \<^const>\<open>sr_new\<close>
  never makes one.\<close>

definition held_count :: "SelectiveRepeat \<Rightarrow> nat" where
  "held_count r = length (filter (\<lambda>h. h \<noteq> None) (sr_held r))"

lemma filter_length_update:
  "i < length xs \<Longrightarrow> P (xs ! i) \<Longrightarrow> \<not> P y \<Longrightarrow> length (filter P (xs[i := y])) < length (filter P xs)"
proof (induction xs arbitrary: i)
  case (Cons x xs)
  then show ?case by (cases i) auto
qed simp

lemma deliver_slot0_count:
  assumes "deliver_slot0 heap r inbox = (Some InOrder, r', inbox')" and "0 < sr_window r"
  shows "held_count r' < held_count r"
proof -
  have "sr_phys 0 r < sr_window r" using assms(2) by (simp add: sr_phys_def)
  then show ?thesis
    using assms(1) filter_length_update [of "sr_phys 0 r" "sr_held r" "\<lambda>h. h \<noteq> None" None]
    by (auto simp: deliver_slot0_def Let_def held_count_def sr_advance_def sr_phys_def split: option.splits if_splits prod.splits)
qed

text \<open>The result is the number of frames delivered, or \<open>None\<close> for a protocol error.\<close>

function sr_drain :: "Heaps \<Rightarrow> SelectiveRepeat \<Rightarrow> Inbox \<Rightarrow> nat option \<times> SelectiveRepeat \<times> Inbox" where
  "sr_drain heaps r inbox =
     (if sr_held r = [] then (Some 0, r, inbox)
      else case deliver_slot0 (heaps 0) r inbox of
        (Some InOrder, r, inbox) \<Rightarrow>
          (case sr_drain (\<lambda>n. heaps (Suc n)) r inbox of (n, r, inbox) \<Rightarrow> (map_option Suc n, r, inbox))
      | (Some Protocol, r, inbox) \<Rightarrow> (None, r, inbox)
      | (_, r, inbox) \<Rightarrow> (Some 0, r, inbox))"
  by pat_completeness auto
termination
  by (relation "measure (\<lambda>(heaps, r, inbox). held_count r)") (auto intro: deliver_slot0_count [OF sym])

declare sr_drain.simps [simp del]

definition sr_on_data :: "Heaps \<Rightarrow> u8 \<Rightarrow> Fragment \<Rightarrow> SelectiveRepeat \<Rightarrow> Inbox \<Rightarrow> RxVerdict \<times> SelectiveRepeat \<times> Inbox" where
  "sr_on_data heaps seq frag r inbox =
     (if seq_is_behind (sr_expected r) seq then (Duplicate, r, inbox)
      else let d = unat (seq_dist (sr_expected r) seq)
           in if d \<ge> sr_window r then (OutOfWindow, r, inbox)
              else let p = sr_phys d r
                   in if d = 0 \<and> sr_held r ! p = None then
                        if \<not> has_room (f_chan frag) (length (f_data frag)) inbox then (NoRoom, r, inbox)
                        else (case push_fragment (heaps 0) frag inbox of
                            (False, inbox) \<Rightarrow> (Protocol, r, inbox)
                          | (True, inbox) \<Rightarrow>
                              (case sr_drain (\<lambda>n. heaps (Suc n)) (sr_advance r) inbox of
                                 (n, r, inbox) \<Rightarrow> (if n = None then Protocol else InOrder, r, inbox)))
                      else if sr_held r ! p \<noteq> None then (Duplicate, r, inbox)
                      else if p * sr_slot_len r + length (f_data frag) > length (sr_slab r) then (OutOfWindow, r, inbox)
                      else (Buffered,
                        r\<lparr>sr_slab := slot_put (sr_slot_len r) p (f_data frag) (sr_slab r),
                          sr_held_bytes := sr_held_bytes r + length (f_data frag),
                          sr_held := (sr_held r)[p := Some \<lparr>hd_chan = f_chan frag, hd_first = f_first frag,
                            hd_fin = f_fin frag, hd_len = of_nat (length (f_data frag))\<rparr>]\<rparr>, inbox))"

definition sr_sack :: "SelectiveRepeat \<Rightarrow> u32" where
  "sr_sack r = fold (\<lambda>i bits. if sr_held r ! sr_phys i r \<noteq> None then bits OR push_bit (i - 1) 1 else bits)
     [1..<min (sr_window r) 33] 0"

definition sr_on_timeout :: "Micros \<Rightarrow> Micros \<Rightarrow> TxQueue \<Rightarrow> TxQueue" where
  "sr_on_timeout now rto tx =
     tx_map (\<lambda>e. if \<not> te_sacked e \<and> (case te_sent_at e of Some t \<Rightarrow> t + rto \<le> now | None \<Rightarrow> False)
       then e\<lparr>te_sent_at := None\<rparr> else e) tx"

text \<open>The frames that a SACK map names, and the frames that it shows to be lost.\<close>

definition sr_mark_sacked :: "u32 \<Rightarrow> TxQueue \<Rightarrow> TxQueue" where
  "sr_mark_sacked sack tx =
     fold (\<lambda>i tx. if sack AND push_bit i 1 \<noteq> 0 then tx_update (tx_base tx + (1 + of_nat i)) (\<lambda>e. e\<lparr>te_sacked := True\<rparr>) tx else tx)
       [0..<32] tx"

definition sr_is_lost :: "u32 list \<Rightarrow> nat \<Rightarrow> TxEntry \<Rightarrow> bool" where
  "sr_is_lost sent need e \<longleftrightarrow> \<not> te_sacked e \<and> te_sent_at e \<noteq> None \<and>
     length (filter (\<lambda>o'. o' > te_sent_order e) sent) \<ge> need"

definition sr_on_feedback :: "Feedback \<Rightarrow> TxQueue \<Rightarrow> nat \<times> TxQueue" where
  "sr_on_feedback fb tx =
     (if fb_sack fb = 0 then (0, tx)
      else let tx = sr_mark_sacked (fb_sack fb) tx;
               sent = take 32 (map te_sent_order (filter te_sacked (tx_entries tx)));
               need = unat (max (fb_reorder_threshold fb) 1)
           in (length (filter (sr_is_lost sent need) (tx_entries tx)),
               tx_map (\<lambda>e. if sr_is_lost sent need e then e\<lparr>te_sent_at := None\<rparr> else e) tx))"

section \<open>The contract of a receiver\<close>

text \<open>A stream of fragments whose payloads fit a frame and whose channels each spell messages.\<close>

definition stream_ok :: "nat \<Rightarrow> Fragment list \<Rightarrow> bool" where
  "stream_ok limit F \<longleftrightarrow> (\<forall>f \<in> set F. f_chan f < 8 \<and> length (f_data f) \<le> limit) \<and> (\<forall>ch. spell ch F \<noteq> None)"

text \<open>The inbox has taken the first \<open>E\<close> fragments of the stream; \<open>got\<close> are the events already read from it.\<close>

definition synced :: "LinkEvent list \<Rightarrow> Fragment list \<Rightarrow> nat \<Rightarrow> Inbox \<Rightarrow> bool" where
  "synced got F E i \<longleftrightarrow> inbox_sync (take E F) (got @ in_events i) i"

lemma stream_ok_append: "stream_ok limit (F @ G) \<Longrightarrow> stream_ok limit F"
  unfolding stream_ok_def using spell_prefix by fastforce

lemma stream_ok_take: "stream_ok limit F \<Longrightarrow> stream_ok limit (take n F)"
  using stream_ok_append [of limit "take n F" "drop n F"] by simp

lemma synced_push:
  assumes "synced got F E i" and "stream_ok limit F" and "E < length F" and "push_fragment heap (F ! E) i = (ok, i')"
  shows "ok \<and> synced got F (Suc E) i'"
proof -
  have take: "take (Suc E) F = take E F @ [F ! E]" using assms(3) by (simp add: take_Suc_conv_app_nth)
  have "spell (f_chan (F ! E)) (take E F @ [F ! E]) \<noteq> None" "f_chan (F ! E) < 8"
    using stream_ok_take [OF assms(2), of "Suc E"] assms(2,3) unfolding take by (auto simp: stream_ok_def)
  from push_fragment_sync [OF _ this(2,1) assms(4), of "got @ in_events i"] assms(1) take show ?thesis
    by (auto simp: synced_def)
qed

text \<open>Frame numbers within half the sequence space of each other are told apart by their sequence numbers.\<close>

lemma seq_number_cases:
  assumes "E \<le> n + 128" and "n < E + 128"
  obtains "n < E" "seq_is_behind (of_nat E) (of_nat n)" "(of_nat n :: u8) \<noteq> of_nat E"
    | "E \<le> n" "\<not> seq_is_behind (of_nat E) (of_nat n)" "unat (seq_dist (of_nat E) (of_nat n)) = n - E"
      "(of_nat n :: u8) = of_nat E \<longleftrightarrow> n = E"
proof (cases "n < E")
  case True
  have "unat (seq_dist (of_nat E) (of_nat n)) \<noteq> 0" using seq_dist_behind [of n E] True assms by simp
  then have "(of_nat n :: u8) \<noteq> of_nat E" by (auto simp: seq_dist_def)
  then show thesis using that(1) True seq_is_behind_behind [of n E] assms by simp
next
  case False
  then have d: "unat (seq_dist (of_nat E) (of_nat n)) = n - E" using seq_dist_ahead [of E n] assms by simp
  have "(of_nat n :: u8) = of_nat E \<longleftrightarrow> n = E" using d False by (auto simp: seq_dist_def)
  then show thesis using that(2) False d seq_is_behind_ahead [of E n] assms by simp
qed

locale in_order_receiver =
  fixes expected :: "'r \<Rightarrow> u8"
    and on_data :: "Heaps \<Rightarrow> u8 \<Rightarrow> Fragment \<Rightarrow> 'r \<Rightarrow> Inbox \<Rightarrow> RxVerdict \<times> 'r \<times> Inbox"
    and drain :: "Heaps \<Rightarrow> 'r \<Rightarrow> Inbox \<Rightarrow> nat option \<times> 'r \<times> Inbox"
    and rx_ok :: "nat \<Rightarrow> Fragment list \<Rightarrow> nat \<Rightarrow> 'r \<Rightarrow> bool"
  assumes rx_expected: "rx_ok limit F E r \<Longrightarrow> expected r = of_nat E \<and> E \<le> length F"
    and rx_grow: "rx_ok limit F E r \<Longrightarrow> rx_ok limit (F @ G) E r"
    and rx_on_data: "rx_ok limit F E r \<Longrightarrow> synced got F E i \<Longrightarrow> stream_ok limit F \<Longrightarrow> n < length F \<Longrightarrow>
      E \<le> n + 128 \<Longrightarrow> n < E + 128 \<Longrightarrow> on_data heaps (of_nat n) (F ! n) r i = (v, r', i') \<Longrightarrow>
      v \<noteq> Protocol \<and> (\<exists>E'. E \<le> E' \<and> rx_ok limit F E' r' \<and> synced got F E' i')"
    and rx_drain: "rx_ok limit F E r \<Longrightarrow> synced got F E i \<Longrightarrow> stream_ok limit F \<Longrightarrow> drain heaps r i = (k, r', i') \<Longrightarrow>
      k \<noteq> None \<and> (\<exists>E'. E \<le> E' \<and> rx_ok limit F E' r' \<and> synced got F E' i')"

section \<open>Go-back-N meets it\<close>

definition gbn_ok :: "nat \<Rightarrow> Fragment list \<Rightarrow> nat \<Rightarrow> GoBackN \<Rightarrow> bool" where
  "gbn_ok limit F E r \<longleftrightarrow> gbn_expected r = of_nat E \<and> E \<le> length F"

interpretation gbn: in_order_receiver gbn_expected gbn_on_data "\<lambda>heaps r i. (Some 0, r, i)" gbn_ok
proof (unfold_locales, goal_cases)
  case (3 limit F E r got i n heaps v r' i')
  have e: "gbn_expected r = of_nat E" using 3(1) by (simp add: gbn_ok_def)
  from 3(5,6) show ?case
  proof (cases rule: seq_number_cases)
    case 1
    then show ?thesis using 3 e by (auto simp: gbn_on_data_def)
  next
    case 2
    then show ?thesis
      using 3 e synced_push [OF 3(2,3), of "heaps 0"]
      by (auto simp: gbn_on_data_def gbn_ok_def split: if_splits prod.splits bool.splits intro: exI [of _ E] exI [of _ "Suc E"])
  qed
qed (auto simp: gbn_ok_def)

section \<open>Selective repeat meets it\<close>

definition sr_shape :: "nat \<Rightarrow> SelectiveRepeat \<Rightarrow> bool" where
  "sr_shape limit r \<longleftrightarrow> 0 < sr_window r \<and> sr_head r < sr_window r \<and> sr_slot_len r = limit \<and> limit < 65536 \<and>
     length (sr_slab r) = sr_window r * limit"

text \<open>Every frame held past the expected one is a fragment of the stream, kept whole.\<close>

definition sr_ok :: "nat \<Rightarrow> Fragment list \<Rightarrow> nat \<Rightarrow> SelectiveRepeat \<Rightarrow> bool" where
  "sr_ok limit F E r \<longleftrightarrow> sr_shape limit r \<and> sr_expected r = of_nat E \<and> E \<le> length F \<and>
     (\<forall>j h. j < sr_window r \<longrightarrow> sr_held r ! sr_phys j r = Some h \<longrightarrow>
        E + j < length F \<and> unat (hd_len h) \<le> limit \<and> held_fragment r (sr_phys j r) h = F ! (E + j))"

lemma sr_new_ok: "max_payload < 65536 \<Longrightarrow> sr_ok max_payload [] 0 (sr_new w max_payload)"
  by (auto simp: sr_ok_def sr_shape_def sr_new_def Let_def sr_phys_def SR_MAX_WINDOW_def unat_gt_0)

lemma sr_advance_ok:
  assumes "sr_ok limit F E r" and "E < length F"
  shows "sr_ok limit F (Suc E) (sr_advance r)"
proof -
  define w where "w = sr_window r"
  have w: "0 < w" "sr_head r < w" using assms(1) by (simp_all add: sr_ok_def sr_shape_def w_def)
  have p0: "sr_phys 0 r = sr_head r" using w by (simp add: sr_phys_def w_def)
  have phys: "sr_phys j (sr_advance r) = sr_phys (Suc j) r" for j
    using ring_shift [of "sr_head r" w j] by (simp add: sr_phys_def sr_advance_def w_def)
  have "Suc E + j < length F \<and> unat (hd_len h) \<le> limit \<and> held_fragment (sr_advance r) (sr_phys j (sr_advance r)) h = F ! (Suc E + j)"
    if j: "j < w" and h: "sr_held (sr_advance r) ! sr_phys j (sr_advance r) = Some h" for j h
  proof -
    have "sr_phys (Suc j) r \<noteq> sr_phys 0 r"
      using h w unfolding phys by (auto simp: sr_advance_def nth_list_update p0 w_def)
    moreover have "sr_phys w r = sr_phys 0 r" by (simp add: sr_phys_def w_def)
    ultimately have "Suc j \<noteq> w" by auto
    then have "Suc j < w" using j by simp
    moreover have "sr_held r ! sr_phys (Suc j) r = Some h"
      using h \<open>sr_phys (Suc j) r \<noteq> sr_phys 0 r\<close> unfolding phys by (simp add: sr_advance_def)
    ultimately show ?thesis
      using assms(1) unfolding phys by (auto simp: sr_ok_def w_def held_fragment_def sr_advance_def)
  qed
  then show ?thesis
    using assms w by (auto simp: sr_ok_def sr_shape_def sr_advance_def w_def add.commute)
qed

lemma sr_ok_held_bytes: "sr_ok limit F E (r\<lparr>sr_held_bytes := n\<rparr>) = sr_ok limit F E r"
  by (simp add: sr_ok_def sr_shape_def sr_phys_def held_fragment_def)

lemma deliver_slot0_ok:
  assumes "sr_ok limit F E r" and "synced got F E i" and "stream_ok limit F" and "deliver_slot0 heap r i = (v, r', i')"
  shows "v \<noteq> Some Protocol \<and>
    (if v = Some InOrder then sr_ok limit F (Suc E) r' \<and> synced got F (Suc E) i' else r' = r \<and> i' = i)"
proof (cases "sr_held r ! sr_phys 0 r")
  case None
  then show ?thesis using assms(4) by (auto simp: deliver_slot0_def)
next
  case (Some h)
  have h: "E < length F" "held_fragment r (sr_phys 0 r) h = F ! E"
    using assms(1) Some by (auto simp: sr_ok_def sr_shape_def)
  show ?thesis
    using assms(4) Some h synced_push [OF assms(2,3) h(1), of heap] sr_advance_ok [of limit F E] assms(1)
    by (auto simp: deliver_slot0_def sr_ok_held_bytes split: if_splits prod.splits)
qed

lemma sr_drain_ok:
  "sr_ok limit F E r \<Longrightarrow> synced got F E i \<Longrightarrow> stream_ok limit F \<Longrightarrow> sr_drain heaps r i = (n, r', i') \<Longrightarrow>
   n \<noteq> None \<and> (\<exists>E'. E \<le> E' \<and> sr_ok limit F E' r' \<and> synced got F E' i')"
proof (induction heaps r i arbitrary: E n r' i' rule: sr_drain.induct)
  case (1 heaps r i)
  have ne: "sr_held r \<noteq> []" using "1.prems"(1) by (auto simp: sr_ok_def sr_shape_def)
  obtain v r1 i1 where d: "deliver_slot0 (heaps 0) r i = (v, r1, i1)" by (cases "deliver_slot0 (heaps 0) r i") auto
  note step = deliver_slot0_ok [OF "1.prems"(1-3) d]
  show ?case
  proof (cases "v = Some InOrder")
    case True
    obtain n1 r2 i2 where dr: "sr_drain (\<lambda>n. heaps (Suc n)) r1 i1 = (n1, r2, i2)"
      by (cases "sr_drain (\<lambda>n. heaps (Suc n)) r1 i1") auto
    have "sr_ok limit F (Suc E) r1" "synced got F (Suc E) i1" using step True by auto
    note ih = "1.IH" [OF ne d [symmetric] True refl refl this "1.prems"(3) dr]
    have "(n, r', i') = (map_option Suc n1, r2, i2)"
      using "1.prems"(4) d True dr ne by (simp add: sr_drain.simps [of heaps r i])
    then show ?thesis using ih by (auto intro: Suc_leD)
  next
    case False
    then have "(n, r', i') = (Some 0, r, i)"
      using "1.prems"(4) step d ne by (cases v) (auto simp: sr_drain.simps [of heaps r i] split: RxVerdict.splits)
    then show ?thesis using "1.prems" by auto
  qed
qed

lemma sr_buffer_ok:
  assumes ok: "sr_ok limit F E r" and d: "d < sr_window r" "E + d < length F" and len: "length (f_data (F ! (E + d))) \<le> limit"
  defines "p \<equiv> sr_phys d r" and "f \<equiv> F ! (E + d)"
  shows "sr_ok limit F E (r\<lparr>sr_slab := slot_put (sr_slot_len r) p (f_data f) (sr_slab r),
      sr_held_bytes := n,
      sr_held := (sr_held r)[p := Some \<lparr>hd_chan = f_chan f, hd_first = f_first f, hd_fin = f_fin f,
        hd_len = of_nat (length (f_data f))\<rparr>]\<rparr>)" (is "sr_ok limit F E ?r")
proof -
  have shape: "sr_shape limit r" using ok by (simp add: sr_ok_def)
  have "0 < sr_window r" using d by linarith
  then have p: "p < sr_window r" by (simp add: p_def sr_phys_def)
  have slab: "length (sr_slab r) = sr_window r * limit" "sr_slot_len r = limit" "limit < 65536"
    using shape by (simp_all add: sr_shape_def)
  have phys: "sr_phys j ?r = sr_phys j r" for j by (simp add: sr_phys_def)
  have "E + j < length F \<and> unat (hd_len h) \<le> limit \<and> held_fragment ?r (sr_phys j r) h = F ! (E + j)"
    if j: "j < sr_window r" and h: "sr_held ?r ! sr_phys j r = Some h" for j h
  proof (cases "j = d")
    case True
    have "unat (of_nat (length (f_data f)) :: u16) = length (f_data f)"
      using len slab by (intro unat_u16_of_nat) (simp add: f_def)
    then show ?thesis
      using True h p d len slab slot_get_put_same [OF slab(1) p, of "f_data f"]
      by (auto simp: held_fragment_def f_def p_def [symmetric])
  next
    case False
    have q: "sr_phys j r < sr_window r" using \<open>0 < sr_window r\<close> by (simp add: sr_phys_def)
    have neq: "p \<noteq> sr_phys j r"
      using ring_inj [of j "sr_window r" d "sr_head r"] False j d by (simp add: p_def sr_phys_def)
    then have old: "sr_held r ! sr_phys j r = Some h" using h by simp
    then have "E + j < length F" "unat (hd_len h) \<le> limit" "held_fragment r (sr_phys j r) h = F ! (E + j)"
      using ok j by (auto simp: sr_ok_def)
    then show ?thesis
      using slot_get_put_other [OF slab(1) p q neq, of "f_data f" "unat (hd_len h)"] len slab
      by (auto simp: held_fragment_def f_def)
  qed
  moreover have "sr_shape limit ?r"
    using shape length_slot_put [OF slab(1) p, of "f_data f"] len by (simp add: sr_shape_def f_def)
  moreover have "sr_expected ?r = of_nat E" "E \<le> length F" "sr_window ?r = sr_window r"
    using ok by (simp_all add: sr_ok_def)
  ultimately show ?thesis unfolding sr_ok_def phys by (intro conjI allI impI) (simp_all only:)
qed

lemma sr_on_data_ok:
  assumes ok: "sr_ok limit F E r" and sync: "synced got F E i" and F: "stream_ok limit F" and n: "n < length F"
    and near: "E \<le> n + 128" "n < E + 128" and data: "sr_on_data heaps (of_nat n) (F ! n) r i = (v, r', i')"
  shows "v \<noteq> Protocol \<and> (\<exists>E'. E \<le> E' \<and> sr_ok limit F E' r' \<and> synced got F E' i')"
proof -
  have e: "sr_expected r = of_nat E" using ok by (simp add: sr_ok_def)
  have len: "length (f_data (F ! n)) \<le> limit" using F n by (simp add: stream_ok_def)
  from near show ?thesis
  proof (cases rule: seq_number_cases)
    case 1
    then show ?thesis using data e ok sync by (auto simp: sr_on_data_def)
  next
    case 2
    define d where "d = n - E"
    define p where "p = sr_phys d r"
    note unf = data [unfolded sr_on_data_def e Let_def, simplified 2(2,3), folded d_def, folded p_def]
    consider (out) "d \<ge> sr_window r" | (head) "d < sr_window r" "d = 0" "sr_held r ! p = None"
      | (again) "d < sr_window r" "sr_held r ! p \<noteq> None" | (ahead) "d < sr_window r" "d \<noteq> 0" "sr_held r ! p = None"
      by fastforce
    then show ?thesis
    proof cases
      case out
      then show ?thesis using unf ok sync by auto
    next
      case again
      then show ?thesis using unf ok sync by (auto split: if_splits)
    next
      case ahead
      then show ?thesis
        using unf ok sync sr_buffer_ok [OF ok ahead(1)] n 2(1) len by (auto simp: d_def p_def split: if_splits)
    next
      case head
      then have nE: "n = E" using 2(1) by (simp add: d_def)
      show ?thesis
      proof (cases "has_room (f_chan (F ! n)) (length (f_data (F ! n))) i")
        case False
        then show ?thesis using unf head ok sync by auto
      next
        case True
        obtain b i1 where push: "push_fragment (heaps 0) (F ! n) i = (b, i1)" by fastforce
        obtain m r2 i2 where dr: "sr_drain (\<lambda>n. heaps (Suc n)) (sr_advance r) i1 = (m, r2, i2)"
          by (cases "sr_drain (\<lambda>n. heaps (Suc n)) (sr_advance r) i1") auto
        have s1: "b" "synced got F (Suc E) i1" using synced_push [OF sync F, of "heaps 0"] push n nE by auto
        have "sr_ok limit F (Suc E) (sr_advance r)" using sr_advance_ok [OF ok] n nE by simp
        note final = sr_drain_ok [OF this s1(2) F dr]
        have "(v, r', i') = (InOrder, r2, i2)"
          using unf head True push dr s1(1) final by auto
        then show ?thesis using final by (auto intro: Suc_leD)
      qed
    qed
  qed
qed

interpretation sr: in_order_receiver sr_expected sr_on_data sr_drain sr_ok
proof (unfold_locales, goal_cases)
  case (3 limit F E r got i n heaps v r' i')
  then show ?case by (rule sr_on_data_ok)
next
  case (4 limit F E r got i heaps k r' i')
  then show ?case by (rule sr_drain_ok)
qed (auto simp: sr_ok_def nth_append)

end
