(* ===== verification/Link_SendQueue.thy ===== *)
theory Link_SendQueue
  imports Link_Slots
begin

text \<open>
  Messages accepted and not yet cut into frames, \<^verbatim>\<open>lp-base/lp-link/src/send_queue.rs\<close>: the bytes in a ring, the
  messages in a ring of descriptors. A fragment is cut from the oldest unfinished message on the lowest
  channel. The queue is shown to be the list of its unfinished messages.
\<close>

section \<open>Definitions\<close>

record Pending =
  pd_chan :: u8
  pd_start :: nat
  pd_len :: nat
  pd_taken :: nat
  pd_released :: nat
  pd_started :: bool
  pd_external :: bool

definition pd_default :: Pending where
  "pd_default = \<lparr>pd_chan = 0, pd_start = 0, pd_len = 0, pd_taken = 0, pd_released = 0, pd_started = False, pd_external = False\<rparr>"

definition pd_done :: "Pending \<Rightarrow> bool" where
  "pd_done m \<longleftrightarrow> pd_started m \<and> pd_taken m = pd_len m"

record Taken =
  tk_chan :: u8
  tk_first :: bool
  tk_fin :: bool
  tk_len :: nat

record SendQueue =
  sq_ring :: "u8 list"
  sq_head :: nat
  sq_span :: nat
  sq_live :: nat
  sq_msgs :: "Pending list"
  sq_first :: nat
  sq_count :: nat

definition sq_new :: "nat \<Rightarrow> nat \<Rightarrow> SendQueue" where
  "sq_new bytes max_msgs = \<lparr>sq_ring = replicate bytes 0, sq_head = 0, sq_span = 0, sq_live = 0,
     sq_msgs = replicate max_msgs pd_default, sq_first = 0, sq_count = 0\<rparr>"

definition sq_slot :: "nat \<Rightarrow> SendQueue \<Rightarrow> nat" where
  "sq_slot i q = (sq_first q + i) mod max (length (sq_msgs q)) 1"

definition sq_is_empty :: "SendQueue \<Rightarrow> bool" where
  "sq_is_empty q \<longleftrightarrow> list_all (\<lambda>i. pd_done (sq_msgs q ! sq_slot i q)) [0..<sq_count q]"

definition sq_clear :: "SendQueue \<Rightarrow> SendQueue" where
  "sq_clear q = q\<lparr>sq_first := 0, sq_count := 0, sq_head := 0, sq_span := 0, sq_live := 0\<rparr>"

definition sq_push :: "u8 \<Rightarrow> u8 list \<Rightarrow> SendQueue \<Rightarrow> SendQueue option" where
  "sq_push chan data q =
     (let cap = length (sq_ring q)
      in if sq_count q \<ge> length (sq_msgs q) \<or> cap - sq_span q < length data then None
         else let start = (if cap = 0 then 0 else (sq_head q + sq_span q) mod cap)
              in Some (q\<lparr>sq_ring := ring_write (sq_ring q) start data, sq_span := sq_span q + length data,
                  sq_live := sq_live q + length data,
                  sq_msgs := (sq_msgs q)[sq_slot (sq_count q) q :=
                    \<lparr>pd_chan = chan, pd_start = start, pd_len = length data, pd_taken = 0, pd_released = 0,
                     pd_started = False, pd_external = False\<rparr>],
                  sq_count := sq_count q + 1\<rparr>))"

definition sq_external_untaken :: "SendQueue \<Rightarrow> bool" where
  "sq_external_untaken q \<longleftrightarrow>
     list_ex (\<lambda>i. let m = sq_msgs q ! sq_slot i q in pd_external m \<and> \<not> pd_done m) [0..<sq_count q]"

definition sq_push_external :: "u8 \<Rightarrow> nat \<Rightarrow> SendQueue \<Rightarrow> SendQueue option" where
  "sq_push_external chan len q =
     (if sq_count q \<ge> length (sq_msgs q) \<or> sq_external_untaken q then None
      else Some (q\<lparr>sq_msgs := (sq_msgs q)[sq_slot (sq_count q) q :=
               \<lparr>pd_chan = chan, pd_start = 0, pd_len = len, pd_taken = 0, pd_released = 0, pd_started = False,
                pd_external = True\<rparr>],
             sq_count := sq_count q + 1\<rparr>))"

text \<open>Give back the ring bytes no message needs: the taken bytes of the front message, and every finished message
  at the front.\<close>

function sq_release :: "SendQueue \<Rightarrow> SendQueue" where
  "sq_release q =
     (if sq_count q = 0 then q
      else let cap = length (sq_ring q);
               m = sq_msgs q ! sq_first q;
               r = (if pd_external m then 0 else pd_taken m - pd_released m);
               m = m\<lparr>pd_released := pd_taken m\<rparr>;
               q = q\<lparr>sq_msgs := (sq_msgs q)[sq_first q := m], sq_span := sq_span q - r,
                 sq_head := (if cap \<noteq> 0 then (sq_head q + r) mod cap else sq_head q)\<rparr>
           in if \<not> pd_done m then q
              else sq_release (q\<lparr>sq_first := (sq_first q + 1) mod length (sq_msgs q), sq_count := sq_count q - 1\<rparr>))"
  by pat_completeness auto
termination
  by (relation "measure sq_count") auto

declare sq_release.simps [simp del]

text \<open>The external message, if it has bytes left: its slot.\<close>

definition sq_external_slot :: "SendQueue \<Rightarrow> nat option" where
  "sq_external_slot q =
     List.find (\<lambda>s. pd_external (sq_msgs q ! s) \<and> \<not> pd_done (sq_msgs q ! s)) (map (\<lambda>i. sq_slot i q) [0..<sq_count q])"

text \<open>False when the first fragment already went out.\<close>

definition sq_cancel_external :: "SendQueue \<Rightarrow> bool \<times> SendQueue" where
  "sq_cancel_external q =
     (case sq_external_slot q of
        None \<Rightarrow> (True, q)
      | Some s \<Rightarrow>
          if pd_started (sq_msgs q ! s) then (False, q)
          else (True, sq_release (q\<lparr>sq_msgs := (sq_msgs q)[s := (sq_msgs q ! s)\<lparr>pd_len := 0, pd_started := True\<rparr>]\<rparr>)))"

text \<open>The slot of the oldest unfinished message on the lowest channel that has one.\<close>

definition sq_pick_step :: "SendQueue \<Rightarrow> nat \<Rightarrow> nat option \<Rightarrow> nat option" where
  "sq_pick_step q i pick =
     (let s = sq_slot i q; m = sq_msgs q ! s
      in if \<not> pd_done m \<and> (case pick of None \<Rightarrow> True | Some p \<Rightarrow> pd_chan m < pd_chan (sq_msgs q ! p)) then Some s else pick)"

definition sq_pick :: "SendQueue \<Rightarrow> nat option" where
  "sq_pick q = fold (sq_pick_step q) [0..<sq_count q] None"

text \<open>At most \<open>room\<close> bytes; the bytes of an external message come from \<open>source\<close>, a function of the offset and the
  number of bytes.\<close>

definition sq_take :: "nat \<Rightarrow> (nat \<Rightarrow> nat \<Rightarrow> u8 list) option \<Rightarrow> SendQueue \<Rightarrow> (Taken \<times> u8 list \<times> SendQueue) option" where
  "sq_take room source q =
     (case sq_pick q of
        None \<Rightarrow> None
      | Some s \<Rightarrow>
          let cap = length (sq_ring q); m = sq_msgs q ! s;
              n = min (pd_len m - pd_taken m) room;
              at = (if cap = 0 then 0 else (pd_start m + pd_taken m) mod cap);
              part = min n (cap - at)
          in case (if pd_external m then map_option (\<lambda>f. f (pd_taken m) n) source
                   else Some (take part (drop at (sq_ring q)) @ take (n - part) (sq_ring q))) of
               None \<Rightarrow> None
             | Some bytes \<Rightarrow>
                 Some (\<lparr>tk_chan = pd_chan m, tk_first = \<not> pd_started m, tk_fin = (pd_taken m + n = pd_len m), tk_len = n\<rparr>,
                   bytes,
                   sq_release (q\<lparr>sq_msgs := (sq_msgs q)[s := m\<lparr>pd_started := True, pd_taken := pd_taken m + n\<rparr>],
                     sq_live := (if pd_external m then sq_live q else sq_live q - n)\<rparr>)))"

section \<open>The queue as a list\<close>

definition sq_list :: "SendQueue \<Rightarrow> Pending list" where
  "sq_list q = ring_list (sq_msgs q) (sq_first q) (sq_count q)"

definition pd_size :: "Pending \<Rightarrow> nat" where
  "pd_size m = (if pd_external m then 0 else pd_len m - pd_released m)"

text \<open>The messages' bytes lie one after another in the ring, from \<open>pos\<close> on.\<close>

fun regions :: "nat \<Rightarrow> nat \<Rightarrow> Pending list \<Rightarrow> bool" where
  "regions cap pos [] = True"
| "regions cap pos (m # ms) \<longleftrightarrow>
     (pd_external m \<or> (pd_start m + pd_released m) mod cap = pos mod cap) \<and> regions cap (pos + pd_size m) ms"

definition pd_ok :: "Pending \<Rightarrow> bool" where
  "pd_ok m \<longleftrightarrow> pd_released m \<le> pd_taken m \<and> pd_taken m \<le> pd_len m \<and> (pd_taken m > 0 \<longrightarrow> pd_started m)"

definition sq_shape :: "SendQueue \<Rightarrow> bool" where
  "sq_shape q \<longleftrightarrow> 0 < length (sq_ring q) \<and> sq_head q < length (sq_ring q) \<and> 0 < length (sq_msgs q) \<and>
     sq_first q < length (sq_msgs q) \<and> sq_count q \<le> length (sq_msgs q)"

definition ms_ok :: "SendQueue \<Rightarrow> Pending list \<Rightarrow> bool" where
  "ms_ok q ms \<longleftrightarrow> list_all pd_ok ms \<and> regions (length (sq_ring q)) (sq_head q) ms \<and>
     sq_span q = sum_list (map pd_size ms) \<and> sq_span q \<le> length (sq_ring q) \<and>
     sq_live q = sum_list (map (\<lambda>m. if pd_external m then 0 else pd_len m - pd_taken m) ms) \<and>
     list_all (\<lambda>m. pd_released m = 0) (tl ms)"

definition sq_inv :: "SendQueue \<Rightarrow> bool" where
  "sq_inv q \<longleftrightarrow> sq_shape q \<and> ms_ok q (sq_list q)"

text \<open>A message that waits: its channel, whether a fragment of it went out, and the bytes left of it; an external
  message is known by its offset and the number of bytes left.\<close>

datatype Item = Own u8 bool "u8 list" | External u8 bool nat nat

definition item_of :: "u8 list \<Rightarrow> Pending \<Rightarrow> Item" where
  "item_of ring m =
     (if pd_external m then External (pd_chan m) (pd_started m) (pd_taken m) (pd_len m - pd_taken m)
      else Own (pd_chan m) (pd_started m) (ring_list ring (pd_start m + pd_taken m) (pd_len m - pd_taken m)))"

definition sq_items :: "SendQueue \<Rightarrow> Item list" where
  "sq_items q = map (item_of (sq_ring q)) (filter (\<lambda>m. \<not> pd_done m) (sq_list q))"

section \<open>The ring of descriptors\<close>

lemma sq_slot_eq: "sq_shape q \<Longrightarrow> sq_slot i q = (sq_first q + i) mod length (sq_msgs q)"
  by (cases "sq_msgs q") (simp_all add: sq_slot_def sq_shape_def)

lemma sq_list_length [simp]: "length (sq_list q) = sq_count q"
  by (simp add: sq_list_def)

lemma sq_list_nth: "sq_shape q \<Longrightarrow> i < sq_count q \<Longrightarrow> sq_msgs q ! sq_slot i q = sq_list q ! i"
  by (simp add: sq_list_def sq_slot_eq)

lemma sq_list_update:
  assumes "sq_shape q" and "i < sq_count q"
  shows "sq_list (q\<lparr>sq_msgs := (sq_msgs q)[sq_slot i q := m]\<rparr>) = (sq_list q)[i := m]"
  using assms ring_list_update [of i "sq_count q" "sq_msgs q" "sq_first q" m]
  by (simp add: sq_list_def sq_slot_eq sq_shape_def)

lemma sq_list_snoc:
  assumes "sq_shape q" and "sq_count q < length (sq_msgs q)"
  shows "ring_list ((sq_msgs q)[sq_slot (sq_count q) q := m]) (sq_first q) (Suc (sq_count q)) = sq_list q @ [m]"
  using assms ring_list_snoc [of "sq_count q" "sq_msgs q" "sq_first q" m] by (simp add: sq_list_def sq_slot_eq)

lemma sq_list_front:
  assumes "sq_shape q" and "0 < sq_count q"
  shows "sq_list q = sq_msgs q ! sq_first q # ring_list (sq_msgs q) (Suc (sq_first q)) (sq_count q - 1)"
  using assms ring_list_Suc [of "sq_msgs q" "sq_first q" "sq_count q - 1"] by (simp add: sq_list_def sq_shape_def)

section \<open>Regions of the ring\<close>

lemma regions_mod: "pos mod cap = pos' mod cap \<Longrightarrow> regions cap pos ms = regions cap pos' ms"
proof (induction ms arbitrary: pos pos')
  case (Cons m ms)
  then have "(pos + pd_size m) mod cap = (pos' + pd_size m) mod cap" by (metis mod_add_left_eq)
  with Cons show ?case by (metis regions.simps(2))
qed simp

lemma regions_snoc:
  "regions cap pos (ms @ [m]) \<longleftrightarrow> regions cap pos ms \<and>
     (pd_external m \<or> (pd_start m + pd_released m) mod cap = (pos + sum_list (map pd_size ms)) mod cap)"
  by (induction ms arbitrary: pos) (auto simp: add.assoc)

lemma regions_offset:
  "regions cap pos ms \<Longrightarrow> m \<in> set ms \<Longrightarrow> \<not> pd_external m \<Longrightarrow>
   \<exists>off. (pd_start m + pd_released m) mod cap = (pos + off) mod cap \<and> off + pd_size m \<le> sum_list (map pd_size ms)"
proof (induction ms arbitrary: pos)
  case (Cons m' ms)
  show ?case
  proof (cases "m = m'")
    case True
    then show ?thesis using Cons.prems by (intro exI [of _ 0]) simp
  next
    case False
    then obtain off where "(pd_start m + pd_released m) mod cap = (pos + pd_size m' + off) mod cap"
      "off + pd_size m \<le> sum_list (map pd_size ms)" using Cons by auto
    then show ?thesis by (intro exI [of _ "pd_size m' + off"]) (simp add: add.assoc)
  qed
qed simp

lemma regions_update:
  "regions cap pos (pre @ m # post) \<Longrightarrow> pd_external m' = pd_external m \<Longrightarrow> pd_start m' = pd_start m \<Longrightarrow>
   pd_released m' = pd_released m \<Longrightarrow> pd_size m' = pd_size m \<Longrightarrow> regions cap pos (pre @ m' # post)"
  by (induction pre arbitrary: pos) auto

section \<open>Operations on the list\<close>

lemma item_of_write:
  assumes "regions cap head ms" and "m \<in> set ms" and "pd_ok m" and "sum_list (map pd_size ms) = span" and "cap = length ring"
    and "head < cap" and "length data \<le> cap - span" and "span \<le> cap"
  shows "item_of (ring_write ring ((head + span) mod cap) data) m = item_of ring m"
proof (cases "pd_external m")
  case False
  from regions_offset [OF assms(1,2) False] obtain off where
    off: "(pd_start m + pd_released m) mod cap = (head + off) mod cap" "off + pd_size m \<le> span" using assms(4) by auto
  define start where "start = (head + span) mod cap"
  define n where "n = pd_len m - pd_taken m"
  define k where "k = cap - span + off + (pd_taken m - pd_released m)"
  have "0 < cap" using assms(6) by simp
  then have start: "start < length ring" using assms(5) by (simp add: start_def)
  have bounds: "length data \<le> k" "k + n \<le> cap" "length data \<le> length ring"
    using assms off False by (auto simp: k_def n_def pd_size_def pd_ok_def)
  have "(pd_start m + pd_taken m) mod cap = (pd_start m + pd_released m + (pd_taken m - pd_released m)) mod cap"
    using assms(3) by (simp add: pd_ok_def)
  also have "\<dots> = (head + off + (pd_taken m - pd_released m)) mod cap"
    using off(1) by (metis mod_add_left_eq)
  also have "\<dots> = (head + off + (pd_taken m - pd_released m) + cap) mod cap" by simp
  also have "head + off + (pd_taken m - pd_released m) + cap = head + span + k"
    using assms(8) by (simp add: k_def)
  also have "(head + span + k) mod cap = (start + k) mod cap" by (simp add: start_def mod_add_left_eq)
  finally have pos: "(pd_start m + pd_taken m) mod cap = (start + k) mod cap" .
  have "ring_list (ring_write ring start data) (pd_start m + pd_taken m) n = ring_list (ring_write ring start data) (start + k) n"
    using pos bounds start assms(5) by (metis length_ring_write ring_list_mod)
  also have "\<dots> = ring_list ring (start + k) n"
    using bounds start assms(5) by (intro ring_write_other) simp_all
  also have "\<dots> = ring_list ring (pd_start m + pd_taken m) n"
    using pos assms(5) by (metis ring_list_mod)
  finally show ?thesis using False by (simp add: item_of_def n_def start_def)
qed (simp add: item_of_def)

lemma sq_push_items:
  assumes "sq_inv q" and "sq_push chan data q = Some q'"
  shows "sq_inv q' \<and> sq_items q' = sq_items q @ [Own chan False data]"
proof -
  define cap where "cap = length (sq_ring q)"
  define start where "start = (sq_head q + sq_span q) mod cap"
  define m where "m = \<lparr>pd_chan = chan, pd_start = start, pd_len = length data, pd_taken = 0, pd_released = 0,
    pd_started = False, pd_external = False\<rparr>"
  have shape: "sq_shape q" and ok: "ms_ok q (sq_list q)" using assms(1) by (simp_all add: sq_inv_def)
  have cap: "0 < cap" "sq_head q < cap" "sq_span q \<le> cap" "start < cap"
    using shape ok by (auto simp: sq_shape_def ms_ok_def cap_def start_def)
  have room: "sq_count q < length (sq_msgs q)" "length data \<le> cap - sq_span q"
    and q': "q' = q\<lparr>sq_ring := ring_write (sq_ring q) start data, sq_span := sq_span q + length data,
      sq_live := sq_live q + length data, sq_msgs := (sq_msgs q)[sq_slot (sq_count q) q := m], sq_count := sq_count q + 1\<rparr>"
    using assms(2) cap by (auto simp: sq_push_def Let_def m_def start_def cap_def split: if_splits)
  have ring: "length (sq_ring q') = cap" using cap room by (simp add: q' cap_def)
  have list: "sq_list q' = sq_list q @ [m]"
    using sq_list_snoc [OF shape room(1), of m] by (simp add: sq_list_def q')
  have old: "item_of (sq_ring q') x = item_of (sq_ring q) x" if "x \<in> set (sq_list q)" for x
    using item_of_write [of cap "sq_head q" "sq_list q" x "sq_span q" "sq_ring q" data] ok that cap room
    by (auto simp: q' ms_ok_def cap_def start_def list_all_iff)
  have new: "item_of (sq_ring q') m = Own chan False data"
    using ring_write_same [of start "sq_ring q" data] cap room by (simp add: item_of_def m_def q' cap_def)
  have "regions cap (sq_head q) (sq_list q @ [m])"
    using ok by (simp add: regions_snoc ms_ok_def cap_def m_def start_def)
  moreover have "list_all (\<lambda>m. pd_released m = 0) (tl (sq_list q @ [m]))"
    using ok by (cases "sq_list q") (simp_all add: ms_ok_def m_def)
  moreover have "pd_size m = length data" "pd_ok m" "\<not> pd_external m" "pd_len m - pd_taken m = length data"
    by (simp_all add: m_def pd_size_def pd_ok_def)
  ultimately have "ms_ok q' (sq_list q @ [m])"
    using ok room cap ring by (auto simp: ms_ok_def q' cap_def)
  moreover have "sq_shape q'" using shape room ring by (simp add: sq_shape_def q' cap_def)
  moreover have "\<not> pd_done m" by (simp add: m_def pd_done_def)
  ultimately show ?thesis using list old new by (simp add: sq_inv_def sq_items_def)
qed

lemma sq_release_items: "sq_inv q \<Longrightarrow> sq_inv (sq_release q) \<and> sq_items (sq_release q) = sq_items q \<and>
    sq_ring (sq_release q) = sq_ring q \<and> length (sq_msgs (sq_release q)) = length (sq_msgs q)"
proof (induction q rule: sq_release.induct)
  case (1 q)
  show ?case
  proof (cases "sq_count q = 0")
    case True
    then show ?thesis using "1.prems" by (simp add: sq_release.simps)
  next
    case False
    define cap where "cap = length (sq_ring q)"
    define m where "m = sq_msgs q ! sq_first q"
    define r where "r = (if pd_external m then 0 else pd_taken m - pd_released m)"
    define m' where "m' = m\<lparr>pd_released := pd_taken m\<rparr>"
    define q1 where "q1 = q\<lparr>sq_msgs := (sq_msgs q)[sq_first q := m'], sq_span := sq_span q - r,
      sq_head := (if cap \<noteq> 0 then (sq_head q + r) mod cap else sq_head q)\<rparr>"
    have shape: "sq_shape q" and ok: "ms_ok q (sq_list q)" using "1.prems" by (simp_all add: sq_inv_def)
    have cap: "0 < cap" "sq_head q < cap" "sq_first q < length (sq_msgs q)" using shape by (simp_all add: sq_shape_def cap_def)
    define ms where "ms = ring_list (sq_msgs q) (Suc (sq_first q)) (sq_count q - 1)"
    have list: "sq_list q = m # ms" using sq_list_front [OF shape] False by (simp add: m_def ms_def)
    have slot: "sq_slot 0 q = sq_first q" using cap shape by (simp add: sq_slot_eq)
    have list1: "sq_list q1 = m' # ms"
      using sq_list_update [OF shape, of 0 m'] False list unfolding slot by (simp add: sq_list_def q1_def)
    have m: "pd_ok m" "pd_external m \<or> (pd_start m + pd_released m) mod cap = sq_head q mod cap"
      using ok by (simp_all add: list ms_ok_def cap_def)
    have size: "pd_size m = pd_size m' + r"
      using m(1) by (auto simp: pd_size_def m'_def r_def pd_ok_def)
    have head1: "sq_head q1 = (sq_head q + r) mod cap" "sq_head q1 < cap" using cap by (simp_all add: q1_def)
    have reg: "regions cap (sq_head q1) (m' # ms)"
    proof -
      have "(sq_head q + pd_size m) mod cap = (sq_head q1 + pd_size m') mod cap"
        unfolding head1(1) size by (simp add: mod_simps ac_simps)
      moreover have "regions cap (sq_head q + pd_size m) ms" using ok by (simp add: list ms_ok_def cap_def)
      ultimately have "regions cap (sq_head q1 + pd_size m') ms" using regions_mod by blast
      moreover have "pd_external m \<or> (pd_start m + pd_taken m) mod cap = (sq_head q + r) mod cap"
      proof (cases "pd_external m")
        case f: False
        then have "pd_start m + pd_taken m = pd_start m + pd_released m + r" using m(1) by (simp add: r_def pd_ok_def)
        then show ?thesis using m(2) f by (metis mod_add_left_eq)
      qed simp
      ultimately show ?thesis by (simp add: m'_def head1(1))
    qed
    have ok1: "ms_ok q1 (m' # ms)"
      using ok reg size m(1) by (auto simp: list ms_ok_def q1_def cap_def m'_def pd_ok_def)
    have shape1: "sq_shape q1" using shape cap by (simp add: sq_shape_def q1_def cap_def)
    have items1: "sq_items q1 = sq_items q"
      unfolding sq_items_def list1 list by (simp add: m'_def pd_done_def item_of_def) (simp add: q1_def)
    have unf: "sq_release q = (if \<not> pd_done m' then q1
        else sq_release (q1\<lparr>sq_first := (sq_first q1 + 1) mod length (sq_msgs q1), sq_count := sq_count q1 - 1\<rparr>))"
      using False by (subst sq_release.simps) (simp add: Let_def m_def m'_def q1_def r_def cap_def)
    show ?thesis
    proof (cases "pd_done m'")
      case nd: False
      then show ?thesis
        using unf ok1 shape1 list1 items1 by (simp add: sq_inv_def) (simp add: q1_def)
    next
      case True
      define q2 where "q2 = q1\<lparr>sq_first := (sq_first q1 + 1) mod length (sq_msgs q1), sq_count := sq_count q1 - 1\<rparr>"
      have list2: "sq_list q2 = ms"
      proof -
        have "sq_list q2 = ring_list (sq_msgs q1) (Suc (sq_first q1)) (sq_count q1 - 1)"
          by (simp add: sq_list_def q2_def)
        also have "\<dots> = tl (sq_list q1)" using sq_list_front [OF shape1] False by (simp add: q1_def)
        finally show ?thesis by (simp add: list1)
      qed
      have "pd_size m' = 0" using True by (simp add: pd_size_def m'_def pd_done_def)
      moreover have "regions cap (sq_head q1) ms" using reg \<open>pd_size m' = 0\<close> by simp
      moreover have "(if pd_external m' then 0 else pd_len m' - pd_taken m') = 0" using True by (simp add: pd_done_def)
      ultimately have ok2: "ms_ok q2 ms"
        using ok1 by (cases ms) (simp_all add: ms_ok_def q2_def q1_def cap_def)
      have shape2: "sq_shape q2" using shape1 False by (auto simp: sq_shape_def q2_def q1_def)
      have "sq_items q2 = sq_items q1" using True by (simp add: sq_items_def list2 list1) (simp add: q2_def)
      moreover have "sq_release q = sq_release q2" using unf True by (simp add: q2_def)
      moreover have "sq_inv q2" using ok2 shape2 list2 by (simp add: sq_inv_def)
      ultimately show ?thesis
        using "1.IH" [OF False cap_def m_def r_def m'_def, folded q1_def, OF refl] True items1
        by (simp add: q2_def [symmetric]) (simp add: q2_def q1_def)
    qed
  qed
qed

section \<open>Cutting fragments\<close>

fun item_chan :: "Item \<Rightarrow> u8" where
  "item_chan (Own c _ _) = c"
| "item_chan (External c _ _ _) = c"

text \<open>The next message: the oldest on the lowest channel.\<close>

definition next_item :: "Item list \<Rightarrow> Item \<Rightarrow> Item list \<Rightarrow> bool" where
  "next_item pre it post \<longleftrightarrow> (\<forall>x \<in> set pre. item_chan it < item_chan x) \<and> (\<forall>x \<in> set post. item_chan it \<le> item_chan x)"

lemma sq_pick_fold:
  assumes "sq_shape q"
  shows "k \<le> sq_count q \<Longrightarrow>
   (case fold (sq_pick_step q) [0..<k] None of
      None \<Rightarrow> \<forall>j < k. pd_done (sq_list q ! j)
    | Some s \<Rightarrow> \<exists>i < k. s = sq_slot i q \<and> \<not> pd_done (sq_list q ! i) \<and>
        (\<forall>j < k. \<not> pd_done (sq_list q ! j) \<longrightarrow> pd_chan (sq_list q ! i) \<le> pd_chan (sq_list q ! j) \<and>
           (j < i \<longrightarrow> pd_chan (sq_list q ! i) < pd_chan (sq_list q ! j))))"
proof (induction k)
  case (Suc k)
  then have k: "k < sq_count q" by simp
  define pick where "pick = fold (sq_pick_step q) [0..<k] None"
  note ih = Suc.IH [OF less_imp_le [OF k], folded pick_def]
  have step: "fold (sq_pick_step q) [0..<Suc k] None = sq_pick_step q k pick" by (simp add: pick_def)
  show ?case
  proof (cases pick)
    case None
    then show ?thesis
      unfolding step using ih sq_list_nth [OF assms k] by (auto simp: sq_pick_step_def Let_def less_Suc_eq intro: exI [of _ k])
  next
    case (Some s)
    then obtain i where i: "i < k" "s = sq_slot i q" "\<not> pd_done (sq_list q ! i)"
      "\<forall>j < k. \<not> pd_done (sq_list q ! j) \<longrightarrow> pd_chan (sq_list q ! i) \<le> pd_chan (sq_list q ! j) \<and>
         (j < i \<longrightarrow> pd_chan (sq_list q ! i) < pd_chan (sq_list q ! j))" using ih by auto
    have nth: "sq_msgs q ! s = sq_list q ! i" "sq_msgs q ! sq_slot k q = sq_list q ! k"
      using sq_list_nth [OF assms] i k by simp_all
    show ?thesis
    proof (cases "\<not> pd_done (sq_list q ! k) \<and> pd_chan (sq_list q ! k) < pd_chan (sq_list q ! i)")
      case True
      then have "\<forall>j < k. \<not> pd_done (sq_list q ! j) \<longrightarrow> pd_chan (sq_list q ! k) < pd_chan (sq_list q ! j)"
        using i(4) by (meson less_le_trans)
      then show ?thesis
        unfolding step using True Some nth by (auto simp: sq_pick_step_def Let_def less_Suc_eq intro!: exI [of _ k])
    next
      case False
      then show ?thesis
        unfolding step using Some nth i by (auto simp: sq_pick_step_def Let_def less_Suc_eq not_less intro!: exI [of _ i])
    qed
  qed
qed simp

lemma sq_pick_cases:
  assumes "sq_inv q"
  obtains "sq_pick q = None" "sq_items q = []"
  | i pre m post where "sq_pick q = Some (sq_slot i q)" "i < sq_count q" "sq_list q = pre @ m # post" "length pre = i" "\<not> pd_done m"
    "next_item (map (item_of (sq_ring q)) (filter (\<lambda>m. \<not> pd_done m) pre)) (item_of (sq_ring q) m)
       (map (item_of (sq_ring q)) (filter (\<lambda>m. \<not> pd_done m) post))"
proof -
  have shape: "sq_shape q" using assms by (simp add: sq_inv_def)
  note pick = sq_pick_fold [OF shape order_refl, folded sq_pick_def]
  show thesis
  proof (cases "sq_pick q")
    case None
    then have "sq_items q = []" using pick by (auto simp: sq_items_def filter_empty_conv in_set_conv_nth)
    then show thesis using that(1) None by blast
  next
    case (Some s)
    then obtain i where i: "i < sq_count q" "s = sq_slot i q" "\<not> pd_done (sq_list q ! i)"
      "\<forall>j < sq_count q. \<not> pd_done (sq_list q ! j) \<longrightarrow> pd_chan (sq_list q ! i) \<le> pd_chan (sq_list q ! j) \<and>
         (j < i \<longrightarrow> pd_chan (sq_list q ! i) < pd_chan (sq_list q ! j))" using pick by auto
    have split: "sq_list q = take i (sq_list q) @ sq_list q ! i # drop (Suc i) (sq_list q)"
      using i(1) by (simp add: id_take_nth_drop)
    have chan: "item_chan (item_of (sq_ring q) m) = pd_chan m" for m by (simp add: item_of_def)
    have "next_item (map (item_of (sq_ring q)) (filter (\<lambda>m. \<not> pd_done m) (take i (sq_list q)))) (item_of (sq_ring q) (sq_list q ! i))
       (map (item_of (sq_ring q)) (filter (\<lambda>m. \<not> pd_done m) (drop (Suc i) (sq_list q))))"
      using i by (auto simp: next_item_def chan in_set_conv_nth)
    then show thesis using that(2) [OF _ i(1) split _ i(3)] Some i by simp
  qed
qed

text \<open>What taking at most \<open>room\<close> bytes leaves of a message, and the fragment it gives.\<close>

fun cut_item :: "nat \<Rightarrow> Item \<Rightarrow> Item list" where
  "cut_item room (Own c started rest) = (if length rest \<le> room then [] else [Own c True (drop room rest)])"
| "cut_item room (External c started off left) =
     (if left \<le> room then [] else [External c True (off + room) (left - room)])"

fun item_left :: "Item \<Rightarrow> nat" where
  "item_left (Own _ _ rest) = length rest"
| "item_left (External _ _ _ left) = left"

fun item_started :: "Item \<Rightarrow> bool" where
  "item_started (Own _ s _) = s"
| "item_started (External _ s _ _) = s"

definition cut_taken :: "nat \<Rightarrow> Item \<Rightarrow> Taken" where
  "cut_taken room it = \<lparr>tk_chan = item_chan it, tk_first = \<not> item_started it, tk_fin = (item_left it \<le> room),
     tk_len = min (item_left it) room\<rparr>"

fun cut_bytes :: "nat \<Rightarrow> (nat \<Rightarrow> nat \<Rightarrow> u8 list) option \<Rightarrow> Item \<Rightarrow> u8 list option" where
  "cut_bytes room source (Own _ _ rest) = Some (take room rest)"
| "cut_bytes room source (External _ _ off left) = map_option (\<lambda>f. f off (min left room)) source"

lemma sq_take_items:
  assumes "sq_inv q"
  shows "(sq_items q = [] \<and> sq_take room source q = None) \<or>
    (\<exists>pre it post. sq_items q = pre @ it # post \<and> next_item pre it post \<and>
       (case cut_bytes room source it of
          None \<Rightarrow> sq_take room source q = None
        | Some bytes \<Rightarrow> \<exists>q'. sq_take room source q = Some (cut_taken room it, bytes, q') \<and> sq_inv q' \<and>
            sq_items q' = pre @ cut_item room it @ post \<and> sq_ring q' = sq_ring q))"
  using assms
proof (cases rule: sq_pick_cases)
  case 1
  then show ?thesis by (simp add: sq_take_def)
next
  case (2 i pre m post)
  define n where "n = min (pd_len m - pd_taken m) room"
  define m' where "m' = m\<lparr>pd_started := True, pd_taken := pd_taken m + n\<rparr>"
  define q1 where "q1 = q\<lparr>sq_msgs := (sq_msgs q)[sq_slot i q := m'],
    sq_live := (if pd_external m then sq_live q else sq_live q - n)\<rparr>"
  define items where "items = (\<lambda>ms. map (item_of (sq_ring q)) (filter (\<lambda>m. \<not> pd_done m) ms))"
  define it where "it = item_of (sq_ring q) m"
  have shape: "sq_shape q" and ok: "ms_ok q (pre @ m # post)" using assms 2(3) by (simp_all add: sq_inv_def)
  have m: "sq_msgs q ! sq_slot i q = m" using sq_list_nth [OF shape 2(2)] 2(3,4) by (auto simp: nth_append)
  have mok: "pd_ok m" using ok by (simp add: ms_ok_def)
  have cap: "0 < length (sq_ring q)" using shape by (simp add: sq_shape_def)
  have left: "item_left it = pd_len m - pd_taken m" "item_chan it = pd_chan m" "item_started it = pd_started m"
    by (simp_all add: it_def item_of_def)
  have "sq_list q1 = sq_list (q\<lparr>sq_msgs := (sq_msgs q)[sq_slot i q := m']\<rparr>)" by (simp add: q1_def sq_list_def)
  also have "\<dots> = (sq_list q)[i := m']" using sq_list_update [OF shape 2(2), of m'] .
  finally have list1: "sq_list q1 = pre @ m' # post" using 2(3,4) by (auto simp: list_update_append)
  have ok1: "ms_ok q1 (pre @ m' # post)"
  proof -
    have m': "pd_size m' = pd_size m" "pd_ok m'" "pd_released m' = pd_released m" "pd_external m' = pd_external m" "pd_start m' = pd_start m"
      "pd_len m' - pd_taken m' = pd_len m - pd_taken m - n"
      using mok by (auto simp: m'_def pd_size_def pd_ok_def n_def)
    have n: "n \<le> pd_len m - pd_taken m" by (simp add: n_def)
    have "regions (length (sq_ring q)) (sq_head q) (pre @ m # post)" using ok by (simp add: ms_ok_def)
    from regions_update [OF this m'(4,5,3,1)] have "regions (length (sq_ring q)) (sq_head q) (pre @ m' # post)" .
    moreover have "list_all (\<lambda>m. pd_released m = 0) (tl (pre @ m' # post))"
      using ok m'(3) by (cases pre) (auto simp: ms_ok_def)
    ultimately show ?thesis
      using ok m'(1,2,4,6) n by (auto simp: ms_ok_def q1_def)
  qed
  have inv1: "sq_inv q1" using ok1 list1 shape by (simp add: sq_inv_def sq_shape_def q1_def)
  have fin: "pd_taken m + n = pd_len m \<longleftrightarrow> pd_len m - pd_taken m \<le> room" using mok by (auto simp: n_def pd_ok_def)
  have cut: "(if pd_done m' then [] else [item_of (sq_ring q) m']) = cut_item room it"
  proof (cases "pd_external m")
    case True
    then show ?thesis using fin by (auto simp: it_def item_of_def m'_def pd_done_def n_def)
  next
    case False
    then show ?thesis using fin by (auto simp: it_def item_of_def m'_def pd_done_def n_def ring_list_drop add.assoc)
  qed
  have items1: "sq_items q1 = items pre @ cut_item room it @ items post"
    using cut by (simp add: sq_items_def list1 items_def) (auto simp: q1_def)
  have items0: "sq_items q = items pre @ it # items post" using 2(3,5) by (simp add: sq_items_def items_def it_def)
  have own: "take (min n (length (sq_ring q) - (pd_start m + pd_taken m) mod length (sq_ring q)))
        (drop ((pd_start m + pd_taken m) mod length (sq_ring q)) (sq_ring q)) @
      take (n - min n (length (sq_ring q) - (pd_start m + pd_taken m) mod length (sq_ring q))) (sq_ring q)
      = take room (ring_list (sq_ring q) (pd_start m + pd_taken m) (pd_len m - pd_taken m))" if "\<not> pd_external m"
  proof -
    have "pd_size m \<le> length (sq_ring q)" using ok by (simp add: ms_ok_def)
    moreover have "n \<le> pd_size m" using that mok by (auto simp: n_def pd_size_def pd_ok_def)
    ultimately have "n \<le> length (sq_ring q)" by linarith
    then have "ring_list (sq_ring q) (pd_start m + pd_taken m) n = take room (ring_list (sq_ring q) (pd_start m + pd_taken m) (pd_len m - pd_taken m))"
      by (auto simp: n_def min_def ring_list_take)
    then show ?thesis
      using ring_list_pieces [of "(pd_start m + pd_taken m) mod length (sq_ring q)" "sq_ring q" n] cap \<open>n \<le> length (sq_ring q)\<close> by simp
  qed
  have bytes: "(if pd_external m then map_option (\<lambda>f. f (pd_taken m) n) source
       else Some (take (min n (length (sq_ring q) - (pd_start m + pd_taken m) mod length (sq_ring q)))
        (drop ((pd_start m + pd_taken m) mod length (sq_ring q)) (sq_ring q)) @
      take (n - min n (length (sq_ring q) - (pd_start m + pd_taken m) mod length (sq_ring q))) (sq_ring q))) = cut_bytes room source it"
    using own by (simp add: it_def item_of_def n_def)
  have unf: "sq_take room source q = (case cut_bytes room source it of None \<Rightarrow> None
      | Some bytes \<Rightarrow> Some (cut_taken room it, bytes, sq_release q1))"
    unfolding sq_take_def 2(1) bytes [symmetric] using cap fin left
    by (auto simp: m Let_def n_def [symmetric] q1_def m'_def cut_taken_def split: option.split)
  show ?thesis
    using unf items0 2(6) sq_release_items [OF inv1] items1
    by (intro disjI2 exI [of _ "items pre"] exI [of _ it] exI [of _ "items post"])
       (auto simp: items_def it_def q1_def split: option.split)
qed

lemma sq_new_items: "0 < bytes \<Longrightarrow> 0 < max_msgs \<Longrightarrow> sq_inv (sq_new bytes max_msgs) \<and> sq_items (sq_new bytes max_msgs) = []"
  by (simp add: sq_new_def sq_inv_def sq_shape_def ms_ok_def sq_items_def sq_list_def ring_list_def)

lemma sq_clear_items: "sq_inv q \<Longrightarrow> sq_inv (sq_clear q) \<and> sq_items (sq_clear q) = []"
  by (auto simp: sq_clear_def sq_inv_def sq_shape_def ms_ok_def sq_items_def sq_list_def ring_list_def)

fun item_external :: "Item \<Rightarrow> bool" where
  "item_external (Own _ _ _) = False"
| "item_external (External _ _ _ _) = True"

lemma item_external_of [simp]: "item_external (item_of ring m) = pd_external m"
  by (simp add: item_of_def)

lemma sq_external_untaken_items:
  assumes "sq_shape q"
  shows "sq_external_untaken q \<longleftrightarrow> (\<exists>it \<in> set (sq_items q). item_external it)"
proof -
  have "sq_external_untaken q \<longleftrightarrow> (\<exists>i < sq_count q. pd_external (sq_list q ! i) \<and> \<not> pd_done (sq_list q ! i))"
    using sq_list_nth [OF assms] by (auto simp: sq_external_untaken_def list_ex_iff Let_def Bex_def)
  then show ?thesis by (auto simp: sq_items_def in_set_conv_nth)
qed

lemma sq_push_external_items:
  assumes "sq_inv q" and "sq_push_external chan len q = Some q'"
  shows "sq_inv q' \<and> sq_items q' = sq_items q @ [External chan False 0 len] \<and> (\<forall>it \<in> set (sq_items q). \<not> item_external it)"
proof -
  define m where "m = \<lparr>pd_chan = chan, pd_start = 0, pd_len = len, pd_taken = 0, pd_released = 0,
    pd_started = False, pd_external = True\<rparr>"
  have shape: "sq_shape q" and ok: "ms_ok q (sq_list q)" using assms(1) by (simp_all add: sq_inv_def)
  have room: "sq_count q < length (sq_msgs q)" "\<not> sq_external_untaken q"
    and q': "q' = q\<lparr>sq_msgs := (sq_msgs q)[sq_slot (sq_count q) q := m], sq_count := sq_count q + 1\<rparr>"
    using assms(2) by (auto simp: sq_push_external_def m_def split: if_splits)
  have list: "sq_list q' = sq_list q @ [m]" using sq_list_snoc [OF shape room(1), of m] by (simp add: sq_list_def q')
  have "ms_ok q' (sq_list q @ [m])"
    using ok by (cases "sq_list q") (auto simp: ms_ok_def q' m_def pd_ok_def pd_size_def regions_snoc)
  moreover have "sq_shape q'" using shape room(1) by (simp add: sq_shape_def q')
  moreover have "sq_items q' = sq_items q @ [External chan False 0 len]"
    unfolding sq_items_def list by (simp add: m_def pd_done_def item_of_def) (simp add: q')
  ultimately show ?thesis using room(2) sq_external_untaken_items [OF shape] by (simp add: sq_inv_def list)
qed

lemma sq_external_slot_cases:
  assumes "sq_inv q"
  obtains "sq_external_slot q = None" "\<forall>it \<in> set (sq_items q). \<not> item_external it"
  | i pre m post where "sq_external_slot q = Some (sq_slot i q)" "i < sq_count q" "sq_list q = pre @ m # post" "length pre = i"
    "pd_external m" "\<not> pd_done m"
proof -
  have shape: "sq_shape q" using assms by (simp add: sq_inv_def)
  show thesis
  proof (cases "sq_external_slot q")
    case None
    then have "\<not> sq_external_untaken q"
      by (auto simp: sq_external_slot_def sq_external_untaken_def find_None_iff list_ex_iff Let_def)
    then show thesis using that(1) [OF None] sq_external_untaken_items [OF shape] by blast
  next
    case (Some s)
    then obtain j where "j < sq_count q" "s = map (\<lambda>i. sq_slot i q) [0..<sq_count q] ! j" "pd_external (sq_msgs q ! s)" "\<not> pd_done (sq_msgs q ! s)"
      by (auto simp: sq_external_slot_def find_Some_iff)
    then have j: "j < sq_count q" "s = sq_slot j q" "pd_external (sq_list q ! j)" "\<not> pd_done (sq_list q ! j)"
      using sq_list_nth [OF shape] by auto
    have "sq_list q = take j (sq_list q) @ sq_list q ! j # drop (Suc j) (sq_list q)"
      using j(1) by (simp add: id_take_nth_drop)
    from that(2) [OF _ j(1) this _ j(3,4)] Some j show thesis by simp
  qed
qed

text \<open>Withdrawing: an external message none of which has gone out leaves the queue; a started one stays.\<close>

lemma sq_cancel_external_items:
  assumes "sq_inv q" and "sq_cancel_external q = (ok, q')"
  shows "sq_inv q' \<and>
    (ok \<and> sq_items q' = sq_items q \<and> (\<forall>it \<in> set (sq_items q). \<not> item_external it) \<or>
     ok \<and> (\<exists>pre chan off left post. sq_items q = pre @ External chan False off left # post \<and> sq_items q' = pre @ post) \<or>
     \<not> ok \<and> sq_items q' = sq_items q \<and> (\<exists>it \<in> set (sq_items q). item_external it \<and> item_started it))"
  using assms(1)
proof (cases rule: sq_external_slot_cases)
  case 1
  then show ?thesis using assms by (auto simp: sq_cancel_external_def)
next
  case (2 i pre m post)
  have shape: "sq_shape q" and ok: "ms_ok q (pre @ m # post)" using assms(1) 2(3) by (simp_all add: sq_inv_def)
  have m: "sq_msgs q ! sq_slot i q = m" using sq_list_nth [OF shape 2(2)] 2(3,4) by (auto simp: nth_append)
  define items where "items = (\<lambda>ms. map (item_of (sq_ring q)) (filter (\<lambda>m. \<not> pd_done m) ms))"
  have items0: "sq_items q = items pre @ item_of (sq_ring q) m # items post" using 2(3,6) by (simp add: sq_items_def items_def)
  show ?thesis
  proof (cases "pd_started m")
    case True
    then have "\<exists>it \<in> set (sq_items q). item_external it \<and> item_started it" using items0 2(5) by (auto simp: item_of_def)
    then show ?thesis using assms 2(1) m True by (auto simp: sq_cancel_external_def)
  next
    case False
    define m' where "m' = m\<lparr>pd_len := 0, pd_started := True\<rparr>"
    define q1 where "q1 = q\<lparr>sq_msgs := (sq_msgs q)[sq_slot i q := m']\<rparr>"
    have "pd_ok m" using ok by (simp add: ms_ok_def)
    then have zero: "pd_taken m = 0" "pd_released m = 0" using False by (auto simp: pd_ok_def)
    have list1: "sq_list q1 = pre @ m' # post"
      unfolding q1_def sq_list_update [OF shape 2(2)] using 2(3,4) by (auto simp: list_update_append)
    have m': "pd_external m'" "pd_start m' = pd_start m" "pd_released m' = pd_released m" "pd_size m' = pd_size m" "pd_ok m'" "pd_done m'"
      using 2(5) zero by (simp_all add: m'_def pd_size_def pd_ok_def pd_done_def)
    have "regions (length (sq_ring q)) (sq_head q) (pre @ m' # post)"
      using ok regions_update [of "length (sq_ring q)" "sq_head q" pre m post m'] m' 2(5) by (simp add: ms_ok_def)
    moreover have "list_all (\<lambda>m. pd_released m = 0) (tl (pre @ m' # post))" using ok m'(3) by (cases pre) (auto simp: ms_ok_def)
    ultimately have "ms_ok q1 (pre @ m' # post)" using ok m' 2(5) by (simp add: ms_ok_def q1_def)
    then have inv1: "sq_inv q1" using list1 shape by (simp add: sq_inv_def sq_shape_def q1_def)
    have "sq_items q1 = items pre @ items post"
      unfolding sq_items_def list1 using m'(6) by (simp add: items_def) (simp add: q1_def)
    moreover have "(ok, q') = (True, sq_release q1)"
      using assms(2) 2(1) m False by (simp add: sq_cancel_external_def q1_def m'_def)
    moreover have "sq_items q = items pre @ External (pd_chan m) False 0 (pd_len m) # items post"
      using items0 2(5) False zero by (simp add: item_of_def)
    ultimately show ?thesis using sq_release_items [OF inv1] by (metis Pair_inject)
  qed
qed

section \<open>The queue refines a list of messages\<close>

text \<open>What can be done to the queue, and what a list of messages promises of it.\<close>

datatype QueueOp =
    Push u8 "u8 list"
  | PushExternal u8 nat
  | Cut nat "(nat \<Rightarrow> nat \<Rightarrow> u8 list) option" Taken "u8 list"
  | Withdraw bool
  | Clear

inductive sq_step :: "SendQueue \<Rightarrow> QueueOp \<Rightarrow> SendQueue \<Rightarrow> bool" where
  "sq_push chan data q = Some q' \<Longrightarrow> sq_step q (Push chan data) q'"
| "sq_push_external chan len q = Some q' \<Longrightarrow> sq_step q (PushExternal chan len) q'"
| "sq_take room source q = Some (t, bytes, q') \<Longrightarrow> sq_step q (Cut room source t bytes) q'"
| "sq_cancel_external q = (ok, q') \<Longrightarrow> sq_step q (Withdraw ok) q'"
| "sq_step q Clear (sq_clear q)"

inductive sq_reach :: "nat \<Rightarrow> nat \<Rightarrow> SendQueue \<Rightarrow> bool" for bytes max_msgs where
  "sq_reach bytes max_msgs (sq_new bytes max_msgs)"
| "sq_reach bytes max_msgs q \<Longrightarrow> sq_step q op q' \<Longrightarrow> sq_reach bytes max_msgs q'"

inductive queue_spec :: "Item list \<Rightarrow> QueueOp \<Rightarrow> Item list \<Rightarrow> bool" where
  "queue_spec items (Push chan data) (items @ [Own chan False data])"
| "\<forall>it \<in> set items. \<not> item_external it \<Longrightarrow> queue_spec items (PushExternal chan len) (items @ [External chan False 0 len])"
| "next_item pre it post \<Longrightarrow> cut_bytes room source it = Some bytes \<Longrightarrow>
   queue_spec (pre @ it # post) (Cut room source (cut_taken room it) bytes) (pre @ cut_item room it @ post)"
| "\<forall>it \<in> set items. \<not> item_external it \<Longrightarrow> queue_spec items (Withdraw True) items"
| "queue_spec (pre @ External chan False off left # post) (Withdraw True) (pre @ post)"
| "it \<in> set items \<Longrightarrow> item_external it \<Longrightarrow> item_started it \<Longrightarrow> queue_spec items (Withdraw False) items"
| "queue_spec items Clear []"

lemma sq_step_spec:
  assumes "sq_inv q" and "sq_step q op q'"
  shows "sq_inv q' \<and> queue_spec (sq_items q) op (sq_items q')"
  using assms(2)
proof cases
  case (1 chan data)
  then show ?thesis using sq_push_items [OF assms(1)] by (auto intro: queue_spec.intros)
next
  case (2 chan len)
  then show ?thesis using sq_push_external_items [OF assms(1)] by (auto intro: queue_spec.intros)
next
  case (3 room source t bytes)
  then show ?thesis
    using sq_take_items [OF assms(1), of room source] by (auto split: option.splits intro: queue_spec.intros(3))
next
  case (4 ok)
  then show ?thesis
    using sq_cancel_external_items [OF assms(1)] by (auto intro: queue_spec.intros(4-6))
next
  case 5
  then show ?thesis using sq_clear_items [OF assms(1)] by (auto intro: queue_spec.intros)
qed

lemma sq_reach_inv: "sq_reach bytes max_msgs q \<Longrightarrow> 0 < bytes \<Longrightarrow> 0 < max_msgs \<Longrightarrow> sq_inv q"
  by (induction rule: sq_reach.induct) (auto simp: sq_new_items sq_step_spec)

lemma sq_is_empty_items: "sq_inv q \<Longrightarrow> sq_is_empty q \<longleftrightarrow> sq_items q = []"
  using sq_list_nth [of q]
  by (auto simp: sq_is_empty_def sq_inv_def list_all_iff sq_items_def filter_empty_conv in_set_conv_nth Ball_def)

lemma own_bytes: "list_all pd_ok ms \<Longrightarrow>
  sum_list (map (\<lambda>m. if pd_external m then 0 else pd_len m - pd_taken m) ms) =
  sum_list (map (\<lambda>it. if item_external it then 0 else item_left it) (map (item_of ring) (filter (\<lambda>m. \<not> pd_done m) ms)))"
  by (induction ms) (auto simp: item_of_def pd_done_def)

lemma sq_live_items: "sq_inv q \<Longrightarrow> sq_live q = sum_list (map (\<lambda>it. if item_external it then 0 else item_left it) (sq_items q))"
  using own_bytes [of "sq_list q" "sq_ring q"] by (simp add: sq_inv_def ms_ok_def sq_items_def)

text \<open>C36. The send queue is a list of messages. Whatever has been pushed, cut, withdrawn and cleared: each operation
  does to the list of unfinished messages what the specification \<^const>\<open>queue_spec\<close> says (a fragment is the next
  bytes of the oldest message on the lowest channel, a cut message stays in its place, a ring that wraps never
  mixes the bytes of two messages); the emptiness test and the byte count agree with the list; and while a
  message is left, and the caller's bytes are at hand, a fragment can be cut.\<close>

theorem send_queue_refines:
  assumes "sq_reach bytes max_msgs q" and "0 < bytes" and "0 < max_msgs"
  shows "(\<forall>op q'. sq_step q op q' \<longrightarrow> queue_spec (sq_items q) op (sq_items q')) \<and>
    (sq_is_empty q \<longleftrightarrow> sq_items q = []) \<and>
    sq_live q = sum_list (map (\<lambda>it. if item_external it then 0 else item_left it) (sq_items q)) \<and>
    (sq_items q \<noteq> [] \<longrightarrow> (\<forall>room f. sq_take room (Some f) q \<noteq> None))"
proof -
  have inv: "sq_inv q" using sq_reach_inv assms .
  have "sq_take room (Some f) q \<noteq> None" if "sq_items q \<noteq> []" for room f
  proof -
    have some: "\<exists>bytes. cut_bytes room (Some f) it = Some bytes" for it by (cases it) simp_all
    from sq_take_items [OF inv, of room "Some f"] that obtain pre it post where
      "case cut_bytes room (Some f) it of None \<Rightarrow> sq_take room (Some f) q = None
       | Some bytes \<Rightarrow> \<exists>q'. sq_take room (Some f) q = Some (cut_taken room it, bytes, q') \<and> sq_inv q' \<and>
           sq_items q' = pre @ cut_item room it @ post \<and> sq_ring q' = sq_ring q" by blast
    with some [of it] show ?thesis by auto
  qed
  then show ?thesis using sq_step_spec [OF inv] sq_is_empty_items [OF inv] sq_live_items [OF inv] by blast
qed

theorem send_queue_refines_witness:
  "\<exists>q q'. sq_push 1 [7, 8, 9] (sq_new 4 2) = Some q \<and>
     sq_take 2 None q = Some (\<lparr>tk_chan = 1, tk_first = True, tk_fin = False, tk_len = 2\<rparr>, [7, 8], q') \<and>
     queue_spec (sq_items q) (Cut 2 None \<lparr>tk_chan = 1, tk_first = True, tk_fin = False, tk_len = 2\<rparr> [7, 8]) (sq_items q')"
proof -
  define q where "q = the (sq_push 1 [7, 8, 9] (sq_new 4 2))"
  define q' where "q' = snd (snd (the (sq_take 2 None q)))"
  have push: "sq_push 1 [7, 8, 9] (sq_new 4 2) = Some q" unfolding q_def by code_simp
  have take: "sq_take 2 None q = Some (\<lparr>tk_chan = 1, tk_first = True, tk_fin = False, tk_len = 2\<rparr>, [7, 8], q')"
    unfolding q'_def q_def by code_simp
  have "sq_reach 4 2 q" using sq_reach.intros(2) [OF sq_reach.intros(1) sq_step.intros(1) [OF push]] .
  then show ?thesis using send_queue_refines [of 4 2 q] push take sq_step.intros(3) [OF take] by auto
qed

end
