(* ===== verification/Link_Config.thy ===== *)
theory Link_Config
  imports Link_Inbox
begin

text \<open>
  A link's tuning and its presets, \<^verbatim>\<open>lp-base/lp-link/src/link_config.rs\<close>, and the counters it keeps,
  \<^verbatim>\<open>link_counters.rs\<close> (those of a build without the feature \<^verbatim>\<open>secure\<close>).
\<close>

section \<open>Configuration\<close>

definition CH_CONTROL :: u8 where "CH_CONTROL = 0"

definition CH_PROTO :: u8 where "CH_PROTO = 1"

definition CH_LOG :: u8 where "CH_LOG = 2"

definition CH_UPDATE :: u8 where "CH_UPDATE = 3"

definition MAX_MESSAGE :: nat where "MAX_MESSAGE = 17 * 1024"

definition SEAL_OVERHEAD :: nat where "SEAL_OVERHEAD = 4 + 16"

datatype Framing = FramingStream | FramingDatagram

record LinkConfig =
  c_framing :: Framing
  c_crc :: CrcKind
  c_max_payload :: u16
  c_tx_window :: u8
  c_rx_window :: u8
  c_rx_budget :: nat
  c_send_budget :: nat
  c_send_queue :: nat
  c_max_message :: nat
  c_keep_reassembly :: nat
  c_datagram_queue :: nat
  c_datagram_every :: u8
  c_reliable_channels :: u8
  c_ack_delay :: Micros
  c_ack_every :: u8
  c_reorder_threshold :: u8
  c_initial_rto :: Micros
  c_min_rto :: Micros
  c_max_rto :: Micros
  c_max_retries :: u8
  c_syn_interval :: Micros
  c_syn_backoff :: u8
  c_keepalive :: Micros
  c_stall_after :: Micros
  c_idle_flush :: Micros
  c_frame_abandon :: Micros
  c_escape_ff :: bool

definition channel_mask :: "u8 list \<Rightarrow> u8" where
  "channel_mask chans = fold (\<lambda>c m. m OR push_bit (unat c) 1) chans 0"

definition cfg_usb :: LinkConfig where
  "cfg_usb = \<lparr>c_framing = FramingStream, c_crc = Crc32c, c_max_payload = 256, c_tx_window = 8, c_rx_window = 8,
     c_rx_budget = 24 * 1024, c_send_budget = 24 * 1024, c_send_queue = 64, c_max_message = MAX_MESSAGE,
     c_keep_reassembly = MAX_MESSAGE, c_datagram_queue = 32, c_datagram_every = 4,
     c_reliable_channels = channel_mask [CH_CONTROL, CH_PROTO, CH_UPDATE], c_ack_delay = 1000, c_ack_every = 2,
     c_reorder_threshold = 1, c_initial_rto = 50000, c_min_rto = 40000, c_max_rto = 1000000, c_max_retries = 20,
     c_syn_interval = 100000, c_syn_backoff = 0, c_keepalive = 250000, c_stall_after = 1000000, c_idle_flush = 50000,
     c_frame_abandon = 3000000, c_escape_ff = True\<rparr>"

definition cfg_ble :: LinkConfig where
  "cfg_ble = cfg_usb\<lparr>c_framing := FramingDatagram, c_max_payload := 180, c_tx_window := 8, c_rx_window := 8,
     c_rx_budget := MAX_MESSAGE + EVENT_COST, c_datagram_queue := 8, c_ack_delay := 15000, c_ack_every := 4,
     c_initial_rto := 500000, c_min_rto := 250000, c_max_rto := 3000000, c_syn_interval := 500000, c_keepalive := 1000000,
     c_stall_after := 3500000, c_idle_flush := 500000\<rparr>"

definition cfg_udp :: LinkConfig where
  "cfg_udp = cfg_usb\<lparr>c_framing := FramingDatagram, c_max_payload := 1024, c_tx_window := 16, c_rx_window := 16,
     c_rx_budget := 32 * 1024, c_reliable_channels := channel_mask [CH_CONTROL, CH_PROTO], c_ack_delay := 5000,
     c_ack_every := 4, c_reorder_threshold := 3, c_initial_rto := 300000, c_min_rto := 20000, c_max_rto := 3000000,
     c_syn_interval := 300000, c_keepalive := 1000000, c_stall_after := 3500000, c_idle_flush := 300000\<rparr>"

definition cfg_ws :: LinkConfig where
  "cfg_ws = cfg_udp\<lparr>c_max_payload := 1024, c_reorder_threshold := 1,
     c_reliable_channels := channel_mask [CH_CONTROL, CH_PROTO, CH_UPDATE], c_ack_every := 2, c_min_rto := 200000\<rparr>"

definition cfg_uart :: LinkConfig where
  "cfg_uart = cfg_usb\<lparr>c_tx_window := 4, c_rx_window := 4\<rparr>"

definition secured :: "LinkConfig \<Rightarrow> LinkConfig" where
  "secured c = c\<lparr>c_max_payload :=
     max (if c_max_payload c < of_nat SEAL_OVERHEAD then 0 else c_max_payload c - of_nat SEAL_OVERHEAD) 1\<rparr>"

definition is_reliable :: "LinkConfig \<Rightarrow> u8 \<Rightarrow> bool" where
  "is_reliable c channel \<longleftrightarrow> channel < 8 \<and> c_reliable_channels c AND push_bit (unat channel) 1 \<noteq> 0"

text \<open>The error is the message of the source.\<close>

definition cfg_validate :: "LinkConfig \<Rightarrow> string + unit" where
  "cfg_validate c =
     (if c_max_payload c = 0 then Inl ''max_payload is 0''
      else if c_max_message c + EVENT_COST > c_rx_budget c
      then Inl ''max_message (plus its queueing charge) does not fit rx_budget''
      else if c_send_queue c = 0 \<or> c_datagram_queue c = 0
      then Inl ''send_queue and datagram_queue need at least one slot''
      else Inr ())"

section \<open>Counters\<close>

record LinkCounters =
  ct_frames_tx :: u32
  ct_frames_rx :: u32
  ct_bytes_tx :: u64
  ct_bytes_rx :: u64
  ct_data_frames_tx :: u32
  ct_retransmits :: u32
  ct_timeouts :: u32
  ct_fast_retransmits :: u32
  ct_probes :: u32
  ct_bad_frames :: u32
  ct_stale_frames :: u32
  ct_oversize_frames :: u32
  ct_oversize_messages :: u32
  ct_dropped_unsynced :: u32
  ct_duplicates :: u32
  ct_out_of_order :: u32
  ct_rx_no_room :: u32
  ct_datagrams_dropped :: u32
  ct_datagrams_lost :: u32
  ct_stale_partials :: u32
  ct_text_bytes :: u32
  ct_text_dropped :: u32
  ct_ups :: u32
  ct_resets :: u32
  ct_stale_syns :: u32
  ct_protocol_errors :: u32

definition counters_default :: LinkCounters where
  "counters_default = \<lparr>ct_frames_tx = 0, ct_frames_rx = 0, ct_bytes_tx = 0, ct_bytes_rx = 0, ct_data_frames_tx = 0,
     ct_retransmits = 0, ct_timeouts = 0, ct_fast_retransmits = 0, ct_probes = 0, ct_bad_frames = 0, ct_stale_frames = 0,
     ct_oversize_frames = 0, ct_oversize_messages = 0, ct_dropped_unsynced = 0, ct_duplicates = 0, ct_out_of_order = 0,
     ct_rx_no_room = 0, ct_datagrams_dropped = 0, ct_datagrams_lost = 0, ct_stale_partials = 0, ct_text_bytes = 0,
     ct_text_dropped = 0, ct_ups = 0, ct_resets = 0, ct_stale_syns = 0, ct_protocol_errors = 0\<rparr>"

text \<open>\<^verbatim>\<open>each\<close> applies an operation on 64 bits to every field and saturates the result to the field's width.\<close>

definition each_u32 :: "(u64 \<Rightarrow> u64 \<Rightarrow> u64) \<Rightarrow> u32 \<Rightarrow> u32 \<Rightarrow> u32" where
  "each_u32 f a b = (let v = f (ucast a) (ucast b) in if v > ucast (-1 :: u32) then -1 else ucast v)"

definition counters_each :: "(u64 \<Rightarrow> u64 \<Rightarrow> u64) \<Rightarrow> LinkCounters \<Rightarrow> LinkCounters \<Rightarrow> LinkCounters" where
  "counters_each f a b =
     \<lparr>ct_frames_tx = each_u32 f (ct_frames_tx a) (ct_frames_tx b),
      ct_frames_rx = each_u32 f (ct_frames_rx a) (ct_frames_rx b),
      ct_bytes_tx = f (ct_bytes_tx a) (ct_bytes_tx b),
      ct_bytes_rx = f (ct_bytes_rx a) (ct_bytes_rx b),
      ct_data_frames_tx = each_u32 f (ct_data_frames_tx a) (ct_data_frames_tx b),
      ct_retransmits = each_u32 f (ct_retransmits a) (ct_retransmits b),
      ct_timeouts = each_u32 f (ct_timeouts a) (ct_timeouts b),
      ct_fast_retransmits = each_u32 f (ct_fast_retransmits a) (ct_fast_retransmits b),
      ct_probes = each_u32 f (ct_probes a) (ct_probes b),
      ct_bad_frames = each_u32 f (ct_bad_frames a) (ct_bad_frames b),
      ct_stale_frames = each_u32 f (ct_stale_frames a) (ct_stale_frames b),
      ct_oversize_frames = each_u32 f (ct_oversize_frames a) (ct_oversize_frames b),
      ct_oversize_messages = each_u32 f (ct_oversize_messages a) (ct_oversize_messages b),
      ct_dropped_unsynced = each_u32 f (ct_dropped_unsynced a) (ct_dropped_unsynced b),
      ct_duplicates = each_u32 f (ct_duplicates a) (ct_duplicates b),
      ct_out_of_order = each_u32 f (ct_out_of_order a) (ct_out_of_order b),
      ct_rx_no_room = each_u32 f (ct_rx_no_room a) (ct_rx_no_room b),
      ct_datagrams_dropped = each_u32 f (ct_datagrams_dropped a) (ct_datagrams_dropped b),
      ct_datagrams_lost = each_u32 f (ct_datagrams_lost a) (ct_datagrams_lost b),
      ct_stale_partials = each_u32 f (ct_stale_partials a) (ct_stale_partials b),
      ct_text_bytes = each_u32 f (ct_text_bytes a) (ct_text_bytes b),
      ct_text_dropped = each_u32 f (ct_text_dropped a) (ct_text_dropped b),
      ct_ups = each_u32 f (ct_ups a) (ct_ups b),
      ct_resets = each_u32 f (ct_resets a) (ct_resets b),
      ct_stale_syns = each_u32 f (ct_stale_syns a) (ct_stale_syns b),
      ct_protocol_errors = each_u32 f (ct_protocol_errors a) (ct_protocol_errors b)\<rparr>"

definition counters_since :: "LinkCounters \<Rightarrow> LinkCounters \<Rightarrow> LinkCounters" where
  "counters_since c base = counters_each (\<lambda>a b. if a < b then 0 else a - b) c base"

definition counters_plus :: "LinkCounters \<Rightarrow> LinkCounters \<Rightarrow> LinkCounters" where
  "counters_plus c other = counters_each (\<lambda>a b. if a + b < a then -1 else a + b) c other"

section \<open>The presets hold together\<close>

lemma validated:
  "cfg_validate c = Inr () \<longleftrightarrow>
   c_max_payload c \<noteq> 0 \<and> c_max_message c + EVENT_COST \<le> c_rx_budget c \<and> 0 < c_send_queue c \<and> 0 < c_datagram_queue c"
  by (auto simp: cfg_validate_def)

lemmas presets = cfg_usb_def cfg_ble_def cfg_udp_def cfg_ws_def cfg_uart_def

lemma presets_validate: "c \<in> {cfg_usb, cfg_ble, cfg_udp, cfg_ws, cfg_uart, secured cfg_ble} \<Longrightarrow> cfg_validate c = Inr ()"
  by (auto simp: validated presets secured_def MAX_MESSAGE_def EVENT_COST_def SEAL_OVERHEAD_def)

lemma is_reliable_mask:
  "channel < 8 \<Longrightarrow> is_reliable c channel \<longleftrightarrow> bit (c_reliable_channels c) (unat channel)"
  using chan_bit_test [of "unat channel" "c_reliable_channels c"] by (simp add: is_reliable_def chan_bit_def word_less_nat_alt)

text \<open>A secured frame is exactly as long as a plain one, when the payload leaves room for the seal.\<close>

lemma secured_same_wire:
  assumes "of_nat SEAL_OVERHEAD < c_max_payload c"
  shows "unat (c_max_payload (secured c)) + SEAL_OVERHEAD = unat (c_max_payload c)"
proof -
  have "20 < unat (c_max_payload c)" using assms by (simp add: SEAL_OVERHEAD_def word_less_nat_alt)
  then have le: "20 \<le> c_max_payload c" by (simp add: word_le_nat_alt)
  have "unat (c_max_payload c - 20) = unat (c_max_payload c) - 20" using unat_sub [OF le] by simp
  then show ?thesis
    using \<open>20 < unat (c_max_payload c)\<close> le
    by (auto simp: secured_def SEAL_OVERHEAD_def max_def word_le_nat_alt word_less_nat_alt)
qed

end
