(* ===== verification/Link_Session.thy ===== *)
theory Link_Session
  imports Link_Arq Link_SendQueue Link_Config
begin

text \<open>
  One end of a session, \<^verbatim>\<open>lp-base/lp-link/src/link.rs\<close>, in a build without the feature \<^verbatim>\<open>secure\<close>: the handshake,
  the receive and transmit paths, timers and resets, over the queues, the inbox and a reliability variant.
  The type parameter of \<^verbatim>\<open>Link\<close> is the constructor of its receiver. The scratch buffers are values passed
  along: an emitted frame is a result. Every call that may ask the heap for memory takes its answers.
\<close>

section \<open>The reliability variants behind one interface\<close>

datatype ArqKind = KGoBackN u8 | KSelectiveRepeat | KNoArq

datatype ArqState = AGoBackN u8 GoBackN | ASelectiveRepeat SelectiveRepeat | ANoArq NoArq

fun arq_reliable :: "ArqState \<Rightarrow> bool" where
  "arq_reliable (ANoArq _) = False"
| "arq_reliable _ = True"

fun kind_max_window :: "ArqKind \<Rightarrow> u8" where
  "kind_max_window (KGoBackN mx) = mx"
| "kind_max_window KSelectiveRepeat = SR_MAX_WINDOW"
| "kind_max_window KNoArq = 127"

fun arq_kind :: "ArqState \<Rightarrow> ArqKind" where
  "arq_kind (AGoBackN mx _) = KGoBackN mx"
| "arq_kind (ASelectiveRepeat _) = KSelectiveRepeat"
| "arq_kind (ANoArq _) = KNoArq"

abbreviation arq_max_window :: "ArqState \<Rightarrow> u8" where
  "arq_max_window a \<equiv> kind_max_window (arq_kind a)"

fun arq_new :: "ArqKind \<Rightarrow> u8 \<Rightarrow> nat \<Rightarrow> ArqState" where
  "arq_new (KGoBackN mx) rx_window max_payload = AGoBackN mx \<lparr>gbn_expected = 0\<rparr>"
| "arq_new KSelectiveRepeat rx_window max_payload = ASelectiveRepeat (sr_new rx_window max_payload)"
| "arq_new KNoArq rx_window max_payload = ANoArq \<lparr>na_expected = 0, na_skipping = 0\<rparr>"

fun arq_reset :: "ArqState \<Rightarrow> ArqState" where
  "arq_reset (AGoBackN mx r) = AGoBackN mx (r\<lparr>gbn_expected := 0\<rparr>)"
| "arq_reset (ASelectiveRepeat r) = ASelectiveRepeat (sr_reset r)"
| "arq_reset (ANoArq r) = ANoArq \<lparr>na_expected = 0, na_skipping = 0\<rparr>"

fun arq_expected :: "ArqState \<Rightarrow> u8" where
  "arq_expected (AGoBackN mx r) = gbn_expected r"
| "arq_expected (ASelectiveRepeat r) = sr_expected r"
| "arq_expected (ANoArq r) = na_expected r"

fun arq_on_data :: "Heaps \<Rightarrow> u8 \<Rightarrow> Fragment \<Rightarrow> ArqState \<Rightarrow> Inbox \<Rightarrow> RxVerdict \<times> ArqState \<times> Inbox" where
  "arq_on_data heaps seq frag (AGoBackN mx r) inbox =
     (case gbn_on_data heaps seq frag r inbox of (v, r, i) \<Rightarrow> (v, AGoBackN mx r, i))"
| "arq_on_data heaps seq frag (ASelectiveRepeat r) inbox =
     (case sr_on_data heaps seq frag r inbox of (v, r, i) \<Rightarrow> (v, ASelectiveRepeat r, i))"
| "arq_on_data heaps seq frag (ANoArq r) inbox =
     (case na_on_data heaps seq frag r inbox of (v, r, i) \<Rightarrow> (v, ANoArq r, i))"

fun arq_drain :: "Heaps \<Rightarrow> ArqState \<Rightarrow> Inbox \<Rightarrow> nat option \<times> ArqState \<times> Inbox" where
  "arq_drain heaps (ASelectiveRepeat r) inbox =
     (case sr_drain heaps r inbox of (n, r, i) \<Rightarrow> (n, ASelectiveRepeat r, i))"
| "arq_drain heaps a inbox = (Some 0, a, inbox)"

fun arq_sack :: "ArqState \<Rightarrow> u32" where
  "arq_sack (ASelectiveRepeat r) = sr_sack r"
| "arq_sack _ = 0"

fun arq_reorder_bytes :: "ArqState \<Rightarrow> nat" where
  "arq_reorder_bytes (ASelectiveRepeat r) = sr_held_bytes r"
| "arq_reorder_bytes _ = 0"

fun arq_on_timeout :: "ArqState \<Rightarrow> Micros \<Rightarrow> Micros \<Rightarrow> TxQueue \<Rightarrow> TxQueue" where
  "arq_on_timeout (AGoBackN _ _) now rto tx = gbn_on_timeout now rto tx"
| "arq_on_timeout (ASelectiveRepeat _) now rto tx = sr_on_timeout now rto tx"
| "arq_on_timeout (ANoArq _) now rto tx = tx"

fun arq_on_feedback :: "ArqState \<Rightarrow> Feedback \<Rightarrow> TxQueue \<Rightarrow> nat \<times> TxQueue" where
  "arq_on_feedback (AGoBackN _ _) fb tx = gbn_on_feedback fb tx"
| "arq_on_feedback (ASelectiveRepeat _) fb tx = sr_on_feedback fb tx"
| "arq_on_feedback (ANoArq _) fb tx = (0, tx)"

section \<open>The state of a link\<close>

datatype LinkState = Connecting | Established

datatype SendError = SendFull | TooBig | BadChannel

record Link =
  l_cfg :: LinkConfig
  l_state :: LinkState
  l_nonce :: u32
  l_peer_nonce :: "u32 option"
  l_prev_key :: "u32 option"
  l_peer_max_payload :: u16
  l_peer_rx_window :: u8
  l_generation :: u32
  l_arq :: ArqState
  l_tx :: TxQueue
  l_inbox :: Inbox
  l_rtt :: RttEstimator
  l_backoff :: u8
  l_send_order :: u32
  l_pending :: SendQueue
  l_datagrams :: DatagramQueue
  l_data_run :: u8
  l_dgram_tx_seq :: u8
  l_dgram_rx_next :: "u8 option"
  l_deframer :: Deframer
  l_tx_payload :: nat
  l_peer_win :: u8
  l_ack_due :: "Micros option"
  l_ack_explicit :: bool
  l_ack_trigger :: "u8 option"
  l_unacked_rx :: u8
  l_last_adv_win :: u8
  l_syn_due :: "Micros option"
  l_syn_doublings :: u8
  l_syn_owed :: bool
  l_probe_armed :: bool
  l_last_data_tx :: Micros
  l_last_tx :: Micros
  l_last_rx :: Micros
  l_counters :: LinkCounters

text \<open>The shape a configuration gives to the buffers of a link.\<close>

definition shape_tx_window :: "ArqKind \<Rightarrow> LinkConfig \<Rightarrow> nat" where
  "shape_tx_window k cfg = unat (max (min (c_tx_window cfg) (kind_max_window k)) 1)"

definition shape_max_raw :: "LinkConfig \<Rightarrow> nat" where
  "shape_max_raw cfg = HEADER_LEN + max (unat (c_max_payload cfg)) SYN_LEN + crc_len (c_crc cfg)"

definition shape_max_cobs :: "LinkConfig \<Rightarrow> nat" where
  "shape_max_cobs cfg = max_encoded_no_ff_len (shape_max_raw cfg)"

definition link_new :: "ArqKind \<Rightarrow> LinkConfig \<Rightarrow> u32 \<Rightarrow> Link" where
  "link_new k cfg nonce =
     (let rx_window = min (c_rx_window cfg) (kind_max_window k); max_payload = unat (c_max_payload cfg)
      in \<lparr>l_cfg = cfg, l_state = Connecting, l_nonce = max nonce 1, l_peer_nonce = None, l_prev_key = None,
          l_peer_max_payload = 0, l_peer_rx_window = 0, l_generation = 0, l_arq = arq_new k rx_window max_payload,
          l_tx = tx_new (shape_tx_window k cfg) max_payload,
          l_inbox = inbox_new (c_rx_budget cfg) (c_max_message cfg) (c_keep_reassembly cfg),
          l_rtt = rtt_new (c_initial_rto cfg) (c_min_rto cfg) (c_max_rto cfg), l_backoff = 0, l_send_order = 0,
          l_pending = sq_new (c_send_budget cfg) (c_send_queue cfg),
          l_datagrams = dq_new (c_datagram_queue cfg) max_payload, l_data_run = 0, l_dgram_tx_seq = 0,
          l_dgram_rx_next = None,
          l_deframer = with_text_mark (c_escape_ff cfg \<and> c_framing cfg = FramingStream) (deframer_new (shape_max_cobs cfg)),
          l_tx_payload = 0, l_peer_win = 0, l_ack_due = None, l_ack_explicit = False, l_ack_trigger = None,
          l_unacked_rx = 0, l_last_adv_win = 0, l_syn_due = Some 0, l_syn_doublings = 0, l_syn_owed = False,
          l_probe_armed = False, l_last_data_tx = 0, l_last_tx = 0, l_last_rx = 0, l_counters = counters_default\<rparr>)"

abbreviation count :: "(LinkCounters \<Rightarrow> LinkCounters) \<Rightarrow> Link \<Rightarrow> Link" where
  "count f l \<equiv> l\<lparr>l_counters := f (l_counters l)\<rparr>"

section \<open>Lifecycle\<close>

definition next_nonce :: "u32 \<Rightarrow> u32" where
  "next_nonce n =
     (let z = n + 0x9E3779B9;
          z = (z XOR drop_bit 16 z) * 0x85EBCA6B;
          z = (z XOR drop_bit 13 z) * 0xC2B2AE35
      in max (z XOR drop_bit 16 z) 1)"

definition link_key :: "Link \<Rightarrow> u32" where
  "link_key l = l_nonce l XOR (case l_peer_nonce l of Some p \<Rightarrow> p | None \<Rightarrow> 0)"

definition adv_window :: "Link \<Rightarrow> u8" where
  "adv_window l =
     (let used = in_ready_bytes (l_inbox l) + arq_reorder_bytes (l_arq l);
          per_frame = unat (c_max_payload (l_cfg l)) + EVENT_COST;
          free = (in_budget (l_inbox l) - used) div per_frame
      in of_nat (min free (unat (min (c_rx_window (l_cfg l)) (arq_max_window (l_arq l))))))"

definition heard_while_connecting :: "Micros \<Rightarrow> Link \<Rightarrow> Link" where
  "heard_while_connecting now l =
     (if l_state l \<noteq> Connecting \<or> l_syn_doublings l = 0 then l
      else let soon = now + c_syn_interval (l_cfg l); l = l\<lparr>l_syn_doublings := 0\<rparr>
           in if (case l_syn_due l of None \<Rightarrow> True | Some t \<Rightarrow> t > soon) then l\<lparr>l_syn_due := Some soon\<rparr> else l)"

definition establish :: "Micros \<Rightarrow> Link \<Rightarrow> Link" where
  "establish now l =
     l\<lparr>l_state := Established,
       l_tx_payload := unat (max (min (c_max_payload (l_cfg l)) (l_peer_max_payload l)) 1),
       l_peer_win := l_peer_rx_window l, l_last_rx := now, l_last_tx := now,
       l_counters := (l_counters l)\<lparr>ct_ups := ct_ups (l_counters l) + 1\<rparr>,
       l_inbox := push_lifecycle (Up (l_generation l)) (l_inbox l)\<rparr>"

definition link_reset :: "Micros \<Rightarrow> ResetReason \<Rightarrow> Link \<Rightarrow> Link" where
  "link_reset now reason l =
     (let l = (if l_state l = Established then l\<lparr>l_prev_key := Some (link_key l)\<rparr> else l);
          g = l_generation l + 1
      in l\<lparr>l_generation := g, l_nonce := next_nonce (l_nonce l), l_state := Connecting, l_arq := arq_reset (l_arq l),
           l_tx := tx_clear (l_tx l), l_pending := sq_clear (l_pending l), l_datagrams := dq_clear (l_datagrams l),
           l_data_run := 0, l_dgram_tx_seq := 0, l_dgram_rx_next := None, l_backoff := 0, l_peer_win := 0,
           l_ack_due := None, l_ack_explicit := False, l_ack_trigger := None, l_unacked_rx := 0, l_syn_owed := False,
           l_probe_armed := False, l_syn_due := Some now, l_syn_doublings := 0,
           l_counters := (l_counters l)\<lparr>ct_resets := ct_resets (l_counters l) + 1\<rparr>,
           l_inbox := push_lifecycle (Reset reason g) (inbox_abort_all (l_inbox l))\<rparr>)"

definition protocol_error :: "Link \<Rightarrow> Link" where
  "protocol_error l =
     (let l = count (\<lambda>c. c\<lparr>ct_protocol_errors := ct_protocol_errors c + 1\<rparr>) l
      in if arq_reliable (l_arq l) then link_reset (l_last_rx l) ProtocolErr l else l)"

section \<open>Receive path\<close>

definition on_syn :: "Micros \<Rightarrow> SynBody \<Rightarrow> Link \<Rightarrow> Link" where
  "on_syn now syn l =
     (let l = l\<lparr>l_peer_max_payload := s_max_payload syn, l_peer_rx_window := s_rx_window syn\<rparr>
      in case l_state l of
           Established \<Rightarrow>
             if Some (s_nonce syn) \<noteq> l_peer_nonce l then
               (link_reset now PeerRestarted l)\<lparr>l_peer_nonce := Some (s_nonce syn)\<rparr>
             else if s_your syn \<noteq> l_nonce l then
               (count (\<lambda>c. c\<lparr>ct_stale_syns := ct_stale_syns c + 1\<rparr>) l)\<lparr>l_syn_owed := True\<rparr>
             else if \<not> s_established syn then l\<lparr>l_syn_owed := True\<rparr>
             else l
         | Connecting \<Rightarrow>
             let l = l\<lparr>l_peer_nonce := Some (s_nonce syn)\<rparr>
             in if s_your syn = l_nonce l then
                  let l = establish now l in if \<not> s_established syn then l\<lparr>l_syn_owed := True\<rparr> else l
                else l\<lparr>l_syn_due := Some now\<rparr>)"

definition sat_inc :: "u8 \<Rightarrow> u8" where
  "sat_inc w = (if w = -1 then -1 else w + 1)"

definition on_data :: "Heaps \<Rightarrow> Micros \<Rightarrow> Header \<Rightarrow> u8 list \<Rightarrow> Link \<Rightarrow> Link" where
  "on_data heaps now hdr body l =
     (let frag = \<lparr>f_chan = h_chan hdr, f_first = h_first hdr, f_fin = h_fin hdr, f_data = body\<rparr>;
          (verdict, arq, inbox) = arq_on_data heaps (h_seq hdr) frag (l_arq l) (l_inbox l);
          l = l\<lparr>l_arq := arq, l_inbox := inbox\<rparr>;
          l = count (\<lambda>c. c\<lparr>ct_oversize_messages := of_nat (in_oversize inbox)\<rparr>) l;
          ooo = (\<lambda>c. c\<lparr>ct_out_of_order := ct_out_of_order c + 1\<rparr>);
          l = (case verdict of
                 InOrder \<Rightarrow>
                   let unacked = sat_inc (l_unacked_rx l);
                       due = (if unacked \<ge> c_ack_every (l_cfg l) then now else now + c_ack_delay (l_cfg l))
                   in l\<lparr>l_unacked_rx := unacked, l_ack_due := Some (case l_ack_due l of None \<Rightarrow> due | Some t \<Rightarrow> min t due)\<rparr>
               | Buffered \<Rightarrow> (count ooo l)\<lparr>l_ack_explicit := True, l_ack_trigger := Some (h_seq hdr), l_ack_due := Some now\<rparr>
               | Gap \<Rightarrow> (count ooo l)\<lparr>l_ack_explicit := True, l_ack_trigger := Some (h_seq hdr), l_ack_due := Some now\<rparr>
               | Duplicate \<Rightarrow> (count (\<lambda>c. c\<lparr>ct_duplicates := ct_duplicates c + 1\<rparr>) l)\<lparr>l_ack_due := Some now\<rparr>
               | NoRoom \<Rightarrow> (count (\<lambda>c. c\<lparr>ct_rx_no_room := ct_rx_no_room c + 1\<rparr>) l)\<lparr>l_ack_due := Some now\<rparr>
               | OutOfWindow \<Rightarrow> count ooo l
               | Protocol \<Rightarrow> protocol_error l)
      in if \<not> arq_reliable (l_arq l) then l\<lparr>l_ack_due := None, l_ack_explicit := False\<rparr> else l)"

text \<open>The result is false if the acknowledgement ended the session.\<close>

definition on_ack_fields :: "Micros \<Rightarrow> Header \<Rightarrow> u32 \<Rightarrow> u8 option \<Rightarrow> Link \<Rightarrow> bool \<times> Link" where
  "on_ack_fields now hdr sack trigger l =
     (if \<not> arq_reliable (l_arq l) then (True, l)
      else case tx_ack_to (h_ack hdr) now (l_tx l) of
             None \<Rightarrow>
               (let d = seq_dist (tx_next_seq (l_tx l)) (h_ack hdr)
                in if 1 \<le> d \<and> d \<le> arq_max_window (l_arq l) then (False, protocol_error l) else (True, l))
           | Some (acked, tx) \<Rightarrow>
               let l = l\<lparr>l_tx := tx\<rparr>;
                   l = (if acked_frames acked > 0 then l\<lparr>l_probe_armed := True\<rparr> else l);
                   l = (case rtt_sample acked of Some r \<Rightarrow> l\<lparr>l_backoff := 0, l_rtt := rtt_add r (l_rtt l)\<rparr> | None \<Rightarrow> l);
                   l = l\<lparr>l_peer_win := h_win hdr\<rparr>;
                   fb = \<lparr>fb_sack = sack, fb_trigger = trigger, fb_now = now, fb_srtt = rtt_smoothed (l_rtt l),
                     fb_reorder_threshold = c_reorder_threshold (l_cfg l)\<rparr>;
                   (n, tx) = arq_on_feedback (l_arq l) fb (l_tx l)
               in (True, count (\<lambda>c. c\<lparr>ct_fast_retransmits := ct_fast_retransmits c + of_nat n\<rparr>) (l\<lparr>l_tx := tx\<rparr>)))"

definition on_datagram_frame :: "Header \<Rightarrow> u8 list \<Rightarrow> Link \<Rightarrow> Link" where
  "on_datagram_frame hdr body l =
     (let next = (case l_dgram_rx_next l of Some n \<Rightarrow> n | None \<Rightarrow> h_seq hdr);
          ahead = seq_dist next (h_seq hdr)
      in if ahead \<ge> 224 then count (\<lambda>c. c\<lparr>ct_duplicates := ct_duplicates c + 1\<rparr>) l
         else let l = count (\<lambda>c. c\<lparr>ct_datagrams_lost := ct_datagrams_lost c + ucast ahead\<rparr>) l;
                  l = l\<lparr>l_dgram_rx_next := Some (h_seq hdr + 1)\<rparr>
              in if has_room (h_chan hdr) (length body) (l_inbox l)
                 then l\<lparr>l_inbox := push_datagram (h_chan hdr) body (l_inbox l)\<rparr>
                 else count (\<lambda>c. c\<lparr>ct_datagrams_dropped := ct_datagrams_dropped c + 1\<rparr>) l)"

definition on_verified :: "Heaps \<Rightarrow> Micros \<Rightarrow> Header \<Rightarrow> u8 list \<Rightarrow> Link \<Rightarrow> Link" where
  "on_verified heaps now hdr body l =
     (let l = (count (\<lambda>c. c\<lparr>ct_frames_rx := ct_frames_rx c + 1\<rparr>) l)\<lparr>l_last_rx := now\<rparr>;
          l = (if l_state l = Connecting then establish now l else l)
      in case h_kind hdr of
           Data \<Rightarrow> (case on_ack_fields now hdr 0 None l of (go, l) \<Rightarrow> if go then on_data heaps now hdr body l else l)
         | Datagram \<Rightarrow> (case on_ack_fields now hdr 0 None l of (go, l) \<Rightarrow> if go then on_datagram_frame hdr body l else l)
         | Ack \<Rightarrow>
             (let sack = (if length body = SACK_LEN then le_word body else 0)
              in snd (on_ack_fields now hdr sack (if h_fin hdr then Some (h_seq hdr) else None) l))
         | Syn \<Rightarrow> l)"

text \<open>Handle one decoded frame; the result is true if it verified under any key.\<close>

definition on_frame :: "Heaps \<Rightarrow> Micros \<Rightarrow> u8 list \<Rightarrow> Link \<Rightarrow> bool \<times> Link" where
  "on_frame heaps now raw l =
     (let crc = c_crc (l_cfg l); bad = count (\<lambda>c. c\<lparr>ct_bad_frames := ct_bad_frames c + 1\<rparr>) l
      in case header_parse raw of
           None \<Rightarrow> (False, bad)
         | Some hdr \<Rightarrow>
             if h_kind hdr = Syn then
               (case Option.bind (verify crc 0 raw) syn_parse of
                  None \<Rightarrow> (False, bad)
                | Some syn \<Rightarrow>
                    (True, on_syn now syn ((count (\<lambda>c. c\<lparr>ct_frames_rx := ct_frames_rx c + 1\<rparr>) l)\<lparr>l_last_rx := now\<rparr>)))
             else case l_peer_nonce l of
                    None \<Rightarrow> (False, count (\<lambda>c. c\<lparr>ct_dropped_unsynced := ct_dropped_unsynced c + 1\<rparr>) l)
                  | Some peer \<Rightarrow>
                      if length raw > HEADER_LEN + unat (c_max_payload (l_cfg l)) + crc_len crc
                      then (False, count (\<lambda>c. c\<lparr>ct_oversize_frames := ct_oversize_frames c + 1\<rparr>) l)
                      else case verify crc (l_nonce l XOR peer) raw of
                             None \<Rightarrow>
                               if (case l_prev_key l of Some k \<Rightarrow> verify crc k raw \<noteq> None | None \<Rightarrow> False)
                               then (True, count (\<lambda>c. c\<lparr>ct_stale_frames := ct_stale_frames c + 1\<rparr>) l)
                               else (False, bad)
                           | Some body \<Rightarrow> (True, on_verified heaps now hdr body l))"

definition flush_text :: "Link \<Rightarrow> Link" where
  "flush_text l =
     (let txt = d_text (l_deframer l); (ok, inbox) = push_text txt (l_inbox l); n = of_nat (length txt);
          l = l\<lparr>l_inbox := inbox\<rparr>;
          l = count (if ok then (\<lambda>c. c\<lparr>ct_text_bytes := ct_text_bytes c + n\<rparr>)
                     else (\<lambda>c. c\<lparr>ct_text_dropped := ct_text_dropped c + n\<rparr>)) l
      in l\<lparr>l_deframer := clear_text (l_deframer l)\<rparr>)"

definition unwrap_body :: "LinkConfig \<Rightarrow> u8 list \<Rightarrow> CobsError + u8 list" where
  "unwrap_body cfg body = (if c_escape_ff cfg then unwrap_stream body [] else unwrap_stream_plain body [])"

definition on_byte :: "Heaps \<Rightarrow> Micros \<Rightarrow> u8 \<Rightarrow> Link \<Rightarrow> Link" where
  "on_byte heaps now b l =
     (case deframer_push now b (l_deframer l) of
        (what, d) \<Rightarrow>
          let l = l\<lparr>l_deframer := d\<rparr>
          in case what of
               DNothing \<Rightarrow> l
             | DText \<Rightarrow> flush_text l
             | DOverflow \<Rightarrow> count (\<lambda>c. c\<lparr>ct_oversize_frames := ct_oversize_frames c + 1\<rparr>) l
             | DAbandoned \<Rightarrow> count (\<lambda>c. c\<lparr>ct_stale_partials := ct_stale_partials c + 1\<rparr>) l
             | DFrame \<Rightarrow>
                 (case (case unwrap_body (l_cfg l) (d_buf d) of
                          Inr raw \<Rightarrow> on_frame heaps now raw l
                        | Inl _ \<Rightarrow> (False, count (\<lambda>c. c\<lparr>ct_bad_frames := ct_bad_frames c + 1\<rparr>) l)) of
                    (ok, l) \<Rightarrow> l\<lparr>l_deframer := frame_done ok (l_deframer l)\<rparr>))"

text \<open>\<open>heaps\<close> gives the answers of the heap for each byte.\<close>

fun on_each_byte :: "(nat \<Rightarrow> Heaps) \<Rightarrow> Micros \<Rightarrow> u8 list \<Rightarrow> Link \<Rightarrow> Link" where
  "on_each_byte heaps now [] l = l"
| "on_each_byte heaps now (b # bs) l = on_each_byte (\<lambda>n. heaps (Suc n)) now bs (on_byte (heaps 0) now b l)"

definition on_bytes :: "(nat \<Rightarrow> Heaps) \<Rightarrow> Micros \<Rightarrow> u8 list \<Rightarrow> Link \<Rightarrow> Link" where
  "on_bytes heaps now bytes l =
     (let l = count (\<lambda>c. c\<lparr>ct_bytes_rx := ct_bytes_rx c + of_nat (length bytes)\<rparr>) l;
          l = (if bytes \<noteq> [] then heard_while_connecting now l else l)
      in on_each_byte heaps now bytes l)"

definition on_datagram :: "Heaps \<Rightarrow> Micros \<Rightarrow> u8 list \<Rightarrow> Link \<Rightarrow> Link" where
  "on_datagram heaps now frame l =
     (let l = count (\<lambda>c. c\<lparr>ct_bytes_rx := ct_bytes_rx c + of_nat (length frame)\<rparr>) l;
          l = heard_while_connecting now l
      in snd (on_frame heaps now frame l))"

section \<open>Application side\<close>

definition link_send :: "u8 \<Rightarrow> u8 list \<Rightarrow> Link \<Rightarrow> (SendError + unit) \<times> Link" where
  "link_send channel payload l =
     (let cfg = l_cfg l
      in if channel \<ge> 8 then (Inl BadChannel, l)
         else if is_reliable cfg channel then
           if length payload > c_max_message cfg \<or> length payload > c_send_budget cfg then (Inl TooBig, l)
           else if sq_live (l_pending l) + tx_bytes (l_tx l) + length payload > c_send_budget cfg then (Inl SendFull, l)
           else (case sq_push channel payload (l_pending l) of
               None \<Rightarrow> (Inl SendFull, l)
             | Some q \<Rightarrow> (Inr (), l\<lparr>l_pending := q\<rparr>))
         else if length payload > unat (c_max_payload cfg) then (Inl TooBig, l)
         else (case dq_push_with channel (\<lambda>slot. Some (length payload, payload @ drop (length payload) slot, ())) (l_datagrams l) of
             None \<Rightarrow> (Inl SendFull, count (\<lambda>c. c\<lparr>ct_datagrams_dropped := ct_datagrams_dropped c + 1\<rparr>) l)
           | Some (q, _) \<Rightarrow> (Inr (), l\<lparr>l_datagrams := q\<rparr>)))"

definition send_external :: "u8 \<Rightarrow> nat \<Rightarrow> Link \<Rightarrow> (SendError + unit) \<times> Link" where
  "send_external channel len l =
     (if channel \<ge> 8 \<or> \<not> is_reliable (l_cfg l) channel then (Inl BadChannel, l)
      else if len > c_max_message (l_cfg l) then (Inl TooBig, l)
      else case sq_push_external channel len (l_pending l) of
             None \<Rightarrow> (Inl SendFull, l)
           | Some q \<Rightarrow> (Inr (), l\<lparr>l_pending := q\<rparr>))"

definition external_in_flight :: "Link \<Rightarrow> bool" where
  "external_in_flight l = sq_external_untaken (l_pending l)"

definition cancel_external :: "Link \<Rightarrow> bool \<times> Link" where
  "cancel_external l = (case sq_cancel_external (l_pending l) of (ok, q) \<Rightarrow> (ok, l\<lparr>l_pending := q\<rparr>))"

definition link_recv :: "Heaps \<Rightarrow> Link \<Rightarrow> (LinkEvent \<times> Link) option" where
  "link_recv heaps l =
     (case inbox_pop (l_inbox l) of
        None \<Rightarrow> None
      | Some (ev, inbox) \<Rightarrow>
          (case arq_drain heaps (l_arq l) inbox of
             (drained, arq, inbox) \<Rightarrow>
               let l = l\<lparr>l_arq := arq, l_inbox := inbox\<rparr>;
                   l = count (\<lambda>c. c\<lparr>ct_oversize_messages := of_nat (in_oversize inbox)\<rparr>) l;
                   l = (case drained of
                          None \<Rightarrow> protocol_error l
                        | Some n \<Rightarrow> if n = 0 then l else l\<lparr>l_ack_due := Some 0\<rparr>);
                   l = (if l_state l = Established \<and> l_last_adv_win l = 0 \<and> adv_window l > 0
                        then l\<lparr>l_ack_due := Some 0\<rparr> else l)
               in Some (ev, l)))"

definition link_restart :: "Micros \<Rightarrow> Link \<Rightarrow> Link" where
  "link_restart now l = link_reset now Requested l"

section \<open>Transmit path\<close>

definition link_rto :: "Link \<Rightarrow> Micros" where
  "link_rto l = min (rtt_rto (l_rtt l) * 2 ^ unat (l_backoff l)) (c_max_rto (l_cfg l))"

definition peer_silent_for :: "Micros \<Rightarrow> Link \<Rightarrow> Micros" where
  "peer_silent_for now l = now - l_last_rx l"

definition is_stalled :: "Micros \<Rightarrow> Link \<Rightarrow> bool" where
  "is_stalled now l \<longleftrightarrow> l_state l = Established \<and> peer_silent_for now l \<ge> c_stall_after (l_cfg l)"

definition is_idle :: "Link \<Rightarrow> bool" where
  "is_idle l \<longleftrightarrow> sq_is_empty (l_pending l) \<and> tx_is_empty (l_tx l) \<and> dq_is_empty (l_datagrams l)"

definition buffered_bytes :: "Link \<Rightarrow> nat" where
  "buffered_bytes l = sq_live (l_pending l) + tx_bytes (l_tx l) + dq_bytes (l_datagrams l) +
     arq_reorder_bytes (l_arq l) + inbox_bytes (l_inbox l)"

text \<open>Waiting for its answer: sent, and not acknowledged selectively.\<close>

definition in_flight :: "TxEntry \<Rightarrow> bool" where
  "in_flight e \<longleftrightarrow> \<not> te_sacked e \<and> te_sent_at e \<noteq> None"

definition probe_deadline :: "Link \<Rightarrow> Micros option" where
  "probe_deadline l =
     (if \<not> l_probe_armed l \<or> tx_first_unsent (l_tx l) \<noteq> None then None
      else if List.find in_flight (rev (tx_entries (l_tx l))) = None then None
      else let pto = max (2 * rtt_smoothed (l_rtt l) + c_ack_delay (l_cfg l)) (c_min_rto (l_cfg l) div 2);
               t = l_last_data_tx l + pto
           in if (case tx_next_timer (link_rto l) (l_tx l) of None \<Rightarrow> True | Some rto_at \<Rightarrow> t < rto_at) then Some t else None)"

text \<open>The newest entry in flight is marked for resending.\<close>

fun unsend_first :: "TxEntry list \<Rightarrow> TxEntry list option" where
  "unsend_first [] = None"
| "unsend_first (e # es) =
     (if in_flight e then Some (e\<lparr>te_sent_at := None\<rparr> # es) else map_option (Cons e) (unsend_first es))"

definition fire_probe :: "Link \<Rightarrow> Link" where
  "fire_probe l =
     (let l = l\<lparr>l_probe_armed := False\<rparr>
      in case unsend_first (rev (tx_entries (l_tx l))) of
           None \<Rightarrow> l
         | Some es \<Rightarrow> count (\<lambda>c. c\<lparr>ct_probes := ct_probes c + 1\<rparr>) (l\<lparr>l_tx := (l_tx l)\<lparr>tx_entries := rev es\<rparr>\<rparr>))"

definition can_send_new :: "Link \<Rightarrow> bool" where
  "can_send_new l \<longleftrightarrow> \<not> arq_reliable (l_arq l) \<or>
     (\<not> tx_is_full (l_tx l) \<and> seq_dist (tx_base (l_tx l)) (tx_next_seq (l_tx l)) < l_peer_win l)"

type_synonym source = "(nat \<Rightarrow> nat \<Rightarrow> u8 list) option"

definition cut_into :: "nat \<Rightarrow> source \<Rightarrow> SendQueue \<Rightarrow> SendQueue slot_fill" where
  "cut_into n source pending slot =
     (case sq_take n source pending of
        None \<Rightarrow> None
      | Some (t, bytes, q) \<Rightarrow> Some ((tk_chan t, tk_first t, tk_fin t, tk_len t), bytes @ drop (length bytes) slot, q))"

definition next_fragment :: "source \<Rightarrow> Link \<Rightarrow> (u8 \<times> Link) option" where
  "next_fragment source l =
     (case tx_push_with (cut_into (l_tx_payload l) source (l_pending l)) (l_tx l) of
        None \<Rightarrow> None
      | Some (seq, tx, pending) \<Rightarrow> Some (seq, l\<lparr>l_tx := tx, l_pending := pending\<rparr>))"

text \<open>A header with the current acknowledgement and window.\<close>

definition link_header :: "FrameKind \<Rightarrow> u8 \<Rightarrow> Link \<Rightarrow> Header \<times> Link" where
  "link_header kind chan l =
     (let win = adv_window l; l = l\<lparr>l_last_adv_win := win\<rparr>;
          l = (if \<not> l_ack_explicit l \<or> kind = Ack then l\<lparr>l_ack_due := None, l_unacked_rx := 0\<rparr> else l)
      in (\<lparr>h_kind = kind, h_fin = False, h_first = False, h_chan = chan, h_seq = 0, h_ack = arq_expected (l_arq l), h_win = win\<rparr>, l))"

definition finish :: "LinkConfig \<Rightarrow> u8 list \<Rightarrow> u8 list" where
  "finish cfg raw =
     (case c_framing cfg of
        FramingStream \<Rightarrow> if c_escape_ff cfg then wrap_stream raw else wrap_stream_plain raw
      | FramingDatagram \<Rightarrow> raw)"

function emit_datagram :: "Link \<Rightarrow> u8 list option \<times> Link" where
  "emit_datagram l =
     (case dq_front (l_datagrams l) of
        None \<Rightarrow> (None, l)
      | Some (chan, data) \<Rightarrow>
          if length data > l_tx_payload l then
            emit_datagram (count (\<lambda>c. c\<lparr>ct_datagrams_dropped := ct_datagrams_dropped c + 1\<rparr>)
              (l\<lparr>l_datagrams := dq_pop_front (l_datagrams l)\<rparr>))
          else let (hdr, l) = link_header Datagram chan l;
                   hdr = hdr\<lparr>h_seq := l_dgram_tx_seq l\<rparr>;
                   l = l\<lparr>l_dgram_tx_seq := l_dgram_tx_seq l + 1\<rparr>;
                   raw = encode_raw (c_crc (l_cfg l)) (link_key l) hdr data
               in (Some (finish (l_cfg l) raw), l\<lparr>l_datagrams := dq_pop_front (l_datagrams l), l_data_run := 0\<rparr>))"
  by pat_completeness auto
termination
  by (relation "measure (\<lambda>l. dq_count (l_datagrams l))") (auto simp: dq_front_def dq_pop_front_def split: if_splits)

declare emit_datagram.simps [simp del]

definition mark_sent :: "Micros \<Rightarrow> u32 \<Rightarrow> TxEntry \<Rightarrow> TxEntry" where
  "mark_sent now order e = e\<lparr>te_sent_at := Some now, te_sent_order := order,
     te_sends := sat_inc (te_sends e)\<rparr>"

text \<open>There is no frame for a number outside the window; none is ever asked for.\<close>

definition emit_data :: "Micros \<Rightarrow> u8 \<Rightarrow> Link \<Rightarrow> u8 list option \<times> Link" where
  "emit_data now seq l =
     (let (hdr, l) = link_header Data 0 l; l = l\<lparr>l_send_order := l_send_order l + 1\<rparr>
      in case tx_frame_mut seq (l_tx l) of
           None \<Rightarrow> (None, l)
         | Some (e, payload) \<Rightarrow>
             let l = l\<lparr>l_tx := tx_update seq (mark_sent now (l_send_order l)) (l_tx l)\<rparr>;
                 l = (if te_sends (mark_sent now (l_send_order l) e) > 1
                      then count (\<lambda>c. c\<lparr>ct_retransmits := ct_retransmits c + 1\<rparr>) l else l\<lparr>l_probe_armed := True\<rparr>);
                 l = count (\<lambda>c. c\<lparr>ct_data_frames_tx := ct_data_frames_tx c + 1\<rparr>) l;
                 l = l\<lparr>l_last_data_tx := now, l_data_run := sat_inc (l_data_run l)\<rparr>;
                 hdr = hdr\<lparr>h_chan := te_chan e, h_first := te_first e, h_fin := te_fin e, h_seq := seq\<rparr>;
                 raw = encode_raw (c_crc (l_cfg l)) (link_key l) hdr payload;
                 l = (if \<not> arq_reliable (l_arq l) then l\<lparr>l_tx := tx_pop_front (l_tx l)\<rparr> else l)
             in (Some (finish (l_cfg l) raw), l))"

definition emit_ack :: "Link \<Rightarrow> u8 list \<times> Link" where
  "emit_ack l =
     (let (hdr, l) = link_header Ack 0 l;
          hdr = (case l_ack_trigger l of Some t \<Rightarrow> hdr\<lparr>h_fin := True, h_seq := t\<rparr> | None \<Rightarrow> hdr);
          l = l\<lparr>l_ack_trigger := None, l_ack_explicit := False\<rparr>;
          sack = arq_sack (l_arq l)
      in (finish (l_cfg l) (encode_raw (c_crc (l_cfg l)) (link_key l) hdr (if sack \<noteq> 0 then u32_to_le_bytes sack else [])), l))"

definition syn_of :: "Link \<Rightarrow> SynBody" where
  "syn_of l = \<lparr>s_nonce = l_nonce l, s_your = (case l_peer_nonce l of Some p \<Rightarrow> p | None \<Rightarrow> 0),
     s_established = (l_state l = Established), s_max_payload = c_max_payload (l_cfg l), s_rx_window = adv_window l\<rparr>"

definition SYN_HEADER :: Header where
  "SYN_HEADER = \<lparr>h_kind = Syn, h_fin = False, h_first = False, h_chan = 0, h_seq = 0, h_ack = 0, h_win = 0\<rparr>"

definition emit_syn :: "Link \<Rightarrow> u8 list" where
  "emit_syn l = finish (l_cfg l) (encode_raw (c_crc (l_cfg l)) 0 SYN_HEADER (syn_to_bytes (syn_of l)))"

definition service_timers :: "Micros \<Rightarrow> Link \<Rightarrow> Link" where
  "service_timers now l =
     (let due = (\<lambda>t. case t of Some t \<Rightarrow> t \<le> now | None \<Rightarrow> False);
          l = (if due (idle_deadline (c_idle_flush (l_cfg l)) (c_frame_abandon (l_cfg l)) (l_deframer l))
               then (case flush_idle (l_deframer l) of
                   (what, d) \<Rightarrow>
                     let l = l\<lparr>l_deframer := d\<rparr>
                     in case what of
                          FlushText \<Rightarrow> flush_text l
                        | FlushGarbage \<Rightarrow> count (\<lambda>c. c\<lparr>ct_stale_partials := ct_stale_partials c + 1\<rparr>) l
                        | FlushNothing \<Rightarrow> l)
               else l);
          l = (if l_state l = Established \<and> arq_reliable (l_arq l) \<and> due (probe_deadline l) then fire_probe l else l)
      in if l_state l = Established \<and> arq_reliable (l_arq l) \<and> due (tx_next_timer (link_rto l) (l_tx l))
         then (count (\<lambda>c. c\<lparr>ct_timeouts := ct_timeouts c + 1\<rparr>) l)\<lparr>
           l_tx := arq_on_timeout (l_arq l) now (link_rto l) (l_tx l), l_backoff := min (l_backoff l + 1) 8\<rparr>
         else l)"

definition connect_emit :: "Micros \<Rightarrow> Link \<Rightarrow> u8 list option \<times> Link" where
  "connect_emit now l =
     (if (case l_syn_due l of Some t \<Rightarrow> t \<le> now | None \<Rightarrow> False) then
        let l = l\<lparr>l_syn_due := Some (now + c_syn_interval (l_cfg l) * 2 ^ unat (l_syn_doublings l))\<rparr>;
            l = (if l_syn_doublings l < c_syn_backoff (l_cfg l) then l\<lparr>l_syn_doublings := l_syn_doublings l + 1\<rparr> else l)
        in (Some (emit_syn l), l)
      else (None, l))"

text \<open>The choice between data, datagrams and acknowledgements, once no SYN or explicit acknowledgement is owed.\<close>

definition pick_data :: "Micros \<Rightarrow> source \<Rightarrow> bool \<Rightarrow> Link \<Rightarrow> u8 list option \<times> Link" where
  "pick_data now source ack_ready l =
     (case tx_first_unsent (l_tx l) of
        Some seq \<Rightarrow>
          if (case tx_get seq (l_tx l) of Some e \<Rightarrow> te_sends e > c_max_retries (l_cfg l) | None \<Rightarrow> False)
          then (None, link_reset now RetryLimit l)
          else emit_data now seq l
      | None \<Rightarrow>
          (case (if can_send_new l then next_fragment source l else None) of
             Some (seq, l) \<Rightarrow> emit_data now seq l
           | None \<Rightarrow>
               (case emit_datagram l of
                  (Some out, l) \<Rightarrow> (Some out, l)
                | (None, l) \<Rightarrow>
                    if ack_ready \<or> now \<ge> l_last_tx l + c_keepalive (l_cfg l)
                    then (case emit_ack l of (out, l) \<Rightarrow> (Some out, l))
                    else (None, l))))"

definition pick_and_emit :: "Micros \<Rightarrow> source \<Rightarrow> Link \<Rightarrow> u8 list option \<times> Link" where
  "pick_and_emit now source l =
     (if l_state l = Connecting then connect_emit now l
      else if l_syn_owed l then (let l = l\<lparr>l_syn_owed := False\<rparr> in (Some (emit_syn l), l))
      else let ack_ready = (case l_ack_due l of Some t \<Rightarrow> t \<le> now | None \<Rightarrow> False)
           in if ack_ready \<and> l_ack_explicit l then (case emit_ack l of (out, l) \<Rightarrow> (Some out, l))
              else let every = c_datagram_every (l_cfg l)
                   in case (if every \<noteq> 0 \<and> l_data_run l \<ge> every then emit_datagram l else (None, l)) of
                        (Some out, l) \<Rightarrow> (Some out, l)
                      | (None, l) \<Rightarrow> pick_data now source ack_ready l)"

definition poll_transmit :: "Micros \<Rightarrow> source \<Rightarrow> Link \<Rightarrow> u8 list option \<times> Link" where
  "poll_transmit now source l =
     (let l = service_timers now l
      in case (case pick_and_emit now source l of
                 (None, l) \<Rightarrow> if l_state l = Connecting then pick_and_emit now source l else (None, l)
               | r \<Rightarrow> r) of
           (None, l) \<Rightarrow> (None, l)
         | (Some out, l) \<Rightarrow>
             (Some out, (count (\<lambda>c. c\<lparr>ct_frames_tx := ct_frames_tx c + 1, ct_bytes_tx := ct_bytes_tx c + of_nat (length out)\<rparr>) l)\<lparr>
               l_last_tx := now\<rparr>))"

definition min_due :: "Micros option \<Rightarrow> Micros option \<Rightarrow> Micros option" where
  "min_due x t = (case x of None \<Rightarrow> t | Some x \<Rightarrow> Some (case t of None \<Rightarrow> x | Some t \<Rightarrow> min t x))"

definition poll_timeout :: "Link \<Rightarrow> Micros option" where
  "poll_timeout l =
     (let t = idle_deadline (c_idle_flush (l_cfg l)) (c_frame_abandon (l_cfg l)) (l_deframer l)
      in case l_state l of
           Connecting \<Rightarrow> min_due (l_syn_due l) t
         | Established \<Rightarrow>
             let t = min_due (l_ack_due l) t;
                 t = (if arq_reliable (l_arq l)
                      then min_due (probe_deadline l) (min_due (tx_next_timer (link_rto l) (l_tx l)) t) else t)
             in min_due (Some (l_last_tx l + c_keepalive (l_cfg l))) t)"

end
