(* ===== verification/Link_Wire.thy ===== *)
theory Link_Wire
  imports Link_Session
begin

text \<open>
  Two links and the transport between them: what one end emits is what the other end takes in, for either framing; the
  handshake brings two fresh ends into one session; frames of any other session change nothing.
\<close>

section \<open>What the receive path leaves alone\<close>

lemma reset_keeps [simp]: "l_deframer (link_reset now r l) = l_deframer l" "l_cfg (link_reset now r l) = l_cfg l"
  by (simp_all add: link_reset_def Let_def)

lemma protocol_error_keeps [simp]: "l_deframer (protocol_error l) = l_deframer l" "l_cfg (protocol_error l) = l_cfg l"
  by (simp_all add: protocol_error_def Let_def)

lemma establish_keeps [simp]: "l_deframer (establish now l) = l_deframer l" "l_cfg (establish now l) = l_cfg l"
  by (simp_all add: establish_def)

lemma on_syn_keeps [simp]: "l_deframer (on_syn now s l) = l_deframer l" "l_cfg (on_syn now s l) = l_cfg l"
  by (cases "l_state l"; simp add: on_syn_def Let_def)+

lemma on_data_keeps [simp]: "l_deframer (on_data h now hdr body l) = l_deframer l" "l_cfg (on_data h now hdr body l) = l_cfg l"
proof -
  obtain v arq inbox where r: "arq_on_data h (h_seq hdr) \<lparr>f_chan = h_chan hdr, f_first = h_first hdr, f_fin = h_fin hdr, f_data = body\<rparr>
      (l_arq l) (l_inbox l) = (v, arq, inbox)" by (metis prod.exhaust)
  show "l_deframer (on_data h now hdr body l) = l_deframer l" "l_cfg (on_data h now hdr body l) = l_cfg l"
    by (cases v; simp add: on_data_def r Let_def)+
qed

lemma on_ack_keeps [simp]:
  "l_deframer (snd (on_ack_fields now hdr sack trigger l)) = l_deframer l" "l_cfg (snd (on_ack_fields now hdr sack trigger l)) = l_cfg l"
  by (cases "tx_ack_to (h_ack hdr) now (l_tx l)"; cases "arq_reliable (l_arq l)";
      simp add: on_ack_fields_def Let_def split: prod.split option.split)+

lemma on_datagram_frame_keeps [simp]:
  "l_deframer (on_datagram_frame hdr body l) = l_deframer l" "l_cfg (on_datagram_frame hdr body l) = l_cfg l"
  by (simp_all add: on_datagram_frame_def Let_def)

lemma link_state_upd: "l_state ((count f l)\<lparr>l_last_rx := now\<rparr>) = l_state l"
  by simp

lemma on_verified_keeps [simp]:
  "l_deframer (on_verified h now hdr body l) = l_deframer l" "l_cfg (on_verified h now hdr body l) = l_cfg l"
proof -
  define l1 where "l1 = (if l_state l = Connecting
    then establish now ((count (\<lambda>c. c\<lparr>ct_frames_rx := ct_frames_rx c + 1\<rparr>) l)\<lparr>l_last_rx := now\<rparr>)
    else (count (\<lambda>c. c\<lparr>ct_frames_rx := ct_frames_rx c + 1\<rparr>) l)\<lparr>l_last_rx := now\<rparr>)"
  obtain go l2 where a: "on_ack_fields now hdr 0 None l1 = (go, l2)" by fastforce
  have l2: "l_deframer l2 = l_deframer l1" "l_cfg l2 = l_cfg l1" using on_ack_keeps [of now hdr 0 None l1] by (simp_all add: a)
  have l1: "l_deframer l1 = l_deframer l" "l_cfg l1 = l_cfg l" by (simp_all add: l1_def)
  have eq: "on_verified h now hdr body l = (case h_kind hdr of
      Data \<Rightarrow> if go then on_data h now hdr body l2 else l2
    | Datagram \<Rightarrow> if go then on_datagram_frame hdr body l2 else l2
    | Ack \<Rightarrow> snd (on_ack_fields now hdr (if length body = SACK_LEN then le_word body else 0) (if h_fin hdr then Some (h_seq hdr) else None) l1)
    | Syn \<Rightarrow> l1)"
    unfolding on_verified_def Let_def by (simp only: l1_def [symmetric] link_state_upd a prod.case)
  show "l_deframer (on_verified h now hdr body l) = l_deframer l" "l_cfg (on_verified h now hdr body l) = l_cfg l"
    unfolding eq using l1 l2 by (cases "h_kind hdr"; simp)+
qed

section \<open>Over the transport\<close>

definition hear :: "(nat \<Rightarrow> Heaps) \<Rightarrow> Micros \<Rightarrow> u8 list \<Rightarrow> Link \<Rightarrow> Link" where
  "hear heaps now bytes l =
     (case c_framing (l_cfg l) of
        FramingStream \<Rightarrow> on_bytes heaps now bytes l
      | FramingDatagram \<Rightarrow> on_datagram (heaps 0) now bytes l)"

text \<open>Between two frames of a stream, with no console text under way.\<close>

definition quiet :: "LinkConfig \<Rightarrow> Deframer \<Rightarrow> bool" where
  "quiet cfg d \<longleftrightarrow> \<not> d_in_frame d \<and> d_text d = [] \<and> d_buf d = [] \<and> \<not> d_discarding d \<and>
     (c_framing cfg = FramingStream \<longrightarrow> c_escape_ff cfg \<and> d_text_mark d \<and> d_max_frame d = shape_max_cobs cfg)"

definition listening :: "Link \<Rightarrow> bool" where
  "listening l \<longleftrightarrow> quiet (l_cfg l) (l_deframer l)"

lemma max_encoded_mono: "m \<le> n \<Longrightarrow> max_encoded_no_ff_len m \<le> max_encoded_no_ff_len n"
  by (auto simp: max_encoded_no_ff_len_def Let_def intro!: add_mono div_le_mono mult_le_mono)

lemma on_each_byte_append:
  "on_each_byte heaps now (xs @ ys) l = on_each_byte (\<lambda>n. heaps (n + length xs)) now ys (on_each_byte heaps now xs l)"
  by (induction xs arbitrary: heaps l) simp_all

lemma on_byte_nothing: "deframer_push now b (l_deframer l) = (DNothing, d) \<Longrightarrow> on_byte heaps now b l = l\<lparr>l_deframer := d\<rparr>"
  by (simp add: on_byte_def)

lemma on_body:
  "d_in_frame (l_deframer l) \<Longrightarrow> \<not> d_discarding (l_deframer l) \<Longrightarrow>
   length (d_buf (l_deframer l)) + length w \<le> d_max_frame (l_deframer l) \<Longrightarrow> frame_bytes (l_deframer l) w \<Longrightarrow> w \<noteq> [] \<Longrightarrow>
   on_each_byte heaps now w l = l\<lparr>l_deframer := (l_deframer l)\<lparr>d_last_byte_at := now, d_buf := d_buf (l_deframer l) @ w\<rparr>\<rparr>"
proof (induction w arbitrary: l heaps)
  case (Cons b w)
  have push: "on_byte (heaps 0) now b l = l\<lparr>l_deframer := (l_deframer l)\<lparr>d_last_byte_at := now, d_buf := d_buf (l_deframer l) @ [b]\<rparr>\<rparr>"
    using Cons.prems by (intro on_byte_nothing push_body_byte) (auto simp: frame_bytes_def)
  show ?case
  proof (cases "w = []")
    case False
    then show ?thesis
      using Cons.IH [of "l\<lparr>l_deframer := (l_deframer l)\<lparr>d_last_byte_at := now, d_buf := d_buf (l_deframer l) @ [b]\<rparr>\<rparr>"] Cons.prems
      by (simp add: push frame_bytes_def)
  qed (simp add: push)
qed simp

text \<open>The bytes of one frame reach \<^const>\<open>on_frame\<close> as the frame that was wrapped.\<close>

lemma on_wrapped_frame:
  assumes "c_framing (l_cfg l) = FramingStream" and "quiet (l_cfg l) (l_deframer l)" and "length raw \<le> shape_max_raw (l_cfg l)"
  obtains n d where "on_each_byte heaps now (wrap_stream raw) l =
      (case on_frame (heaps n) now raw (l\<lparr>l_deframer := d\<rparr>) of (ok, l') \<Rightarrow> l'\<lparr>l_deframer := frame_done ok (l_deframer l')\<rparr>)"
    "quiet (l_cfg l) (frame_done True d)"
proof -
  obtain w where w: "wrap_stream raw = 0 # w @ [0]" "0 \<notin> set w" "0xFF \<notin> set w" "unwrap_stream w [] = Inr raw"
    "length w \<le> max_encoded_no_ff_len (length raw)" "w \<noteq> []" by (rule wrap_stream_body)
  have q: "\<not> d_in_frame (l_deframer l)" "d_text (l_deframer l) = []" "d_buf (l_deframer l) = []" "\<not> d_discarding (l_deframer l)"
    "c_escape_ff (l_cfg l)" "d_text_mark (l_deframer l)" "d_max_frame (l_deframer l) = shape_max_cobs (l_cfg l)"
    using assms(1,2) by (auto simp: quiet_def)
  define d0 where "d0 = l_deframer l"
  define d1 where "d1 = d0\<lparr>d_last_byte_at := now, d_in_frame := True, d_buf := []\<rparr>"
  define d2 where "d2 = d1\<lparr>d_last_byte_at := now, d_buf := w\<rparr>"
  have first: "on_byte (heaps 0) now 0 l = l\<lparr>l_deframer := d1\<rparr>"
    using q by (intro on_byte_nothing) (simp add: deframer_push_def Let_def TEXT_MARK_def d1_def d0_def)
  have len: "length w \<le> shape_max_cobs (l_cfg l)"
    using w(5) max_encoded_mono [OF assms(3)] by (simp add: shape_max_cobs_def)
  have body: "on_each_byte h now w (l\<lparr>l_deframer := d1\<rparr>) = l\<lparr>l_deframer := d2\<rparr>" for h
    using on_body [of "l\<lparr>l_deframer := d1\<rparr>" w h now] q w(2,3,6) len
    by (simp add: d1_def d0_def d2_def frame_bytes_def TEXT_MARK_def)
  have close: "deframer_push now 0 d2 = (DFrame, d2)"
    using push_close [of d2 now] q w(6) by (simp add: d2_def d1_def d0_def)
  have "on_byte h now 0 (l\<lparr>l_deframer := d2\<rparr>) =
    (case on_frame h now raw (l\<lparr>l_deframer := d2\<rparr>) of (ok, l') \<Rightarrow> l'\<lparr>l_deframer := frame_done ok (l_deframer l')\<rparr>)" for h
    using close w(4) q(5) by (simp add: on_byte_def unwrap_body_def d2_def)
  then have "on_each_byte heaps now (wrap_stream raw) l =
    (case on_frame (heaps (Suc (length w))) now raw (l\<lparr>l_deframer := d2\<rparr>) of (ok, l') \<Rightarrow> l'\<lparr>l_deframer := frame_done ok (l_deframer l')\<rparr>)"
    by (simp add: w(1) on_each_byte_append first body)
  moreover have "quiet (l_cfg l) (frame_done True d2)" using q by (simp add: quiet_def frame_done_def d2_def d1_def d0_def)
  ultimately show thesis using that by blast
qed

section \<open>Frames of other sessions\<close>

lemma verify_key_unique: "verify Crc32c key raw \<noteq> None \<Longrightarrow> verify Crc32c key' raw \<noteq> None \<Longrightarrow> key' = key"
proof -
  assume ok: "verify Crc32c key raw \<noteq> None" "verify Crc32c key' raw \<noteq> None"
  then have "8 \<le> length raw" by (auto simp: verify_def HEADER_LEN_def Let_def split: if_splits)
  from ok verify_crc32c [OF this] show ?thesis using crc32c_fold_inj [of raw "NOT key" "NOT key'"] by simp
qed


section \<open>The handshake\<close>

definition syn_frame :: "LinkConfig \<Rightarrow> SynBody \<Rightarrow> u8 list" where
  "syn_frame cfg s = finish cfg (encode_raw (c_crc cfg) 0 SYN_HEADER (syn_to_bytes s))"

lemma emit_syn_frame: "emit_syn l = syn_frame (l_cfg l) (syn_of l)"
  by (simp add: emit_syn_def syn_frame_def)

lemma on_frame_syn:
  "on_frame h now (encode_raw (c_crc (l_cfg l)) 0 SYN_HEADER (syn_to_bytes s)) l =
     (True, on_syn now s ((count (\<lambda>c. c\<lparr>ct_frames_rx := ct_frames_rx c + 1\<rparr>) l)\<lparr>l_last_rx := now\<rparr>))"
proof -
  have "header_parse (encode_raw (c_crc (l_cfg l)) 0 SYN_HEADER (syn_to_bytes s)) = Some SYN_HEADER"
    using header_parse_to_bytes [of SYN_HEADER] by (simp add: encode_raw_def Let_def SYN_HEADER_def)
  moreover have "syn_parse (syn_to_bytes s) = Some s" using syn_parse_to_bytes [of s "[]"] by simp
  ultimately show ?thesis by (simp add: on_frame_def verify_encode_raw SYN_HEADER_def Let_def)
qed

lemma heard_keeps [simp]:
  "l_cfg (heard_while_connecting now l) = l_cfg l" "l_deframer (heard_while_connecting now l) = l_deframer l"
  "l_state (heard_while_connecting now l) = l_state l" "l_nonce (heard_while_connecting now l) = l_nonce l"
  "l_syn_owed (heard_while_connecting now l) = l_syn_owed l" "l_tx (heard_while_connecting now l) = l_tx l"
  "l_inbox (heard_while_connecting now l) = l_inbox l" "l_generation (heard_while_connecting now l) = l_generation l"
  by (simp_all add: heard_while_connecting_def Let_def)

lemma hear_syn:
  assumes "listening l"
  obtains c c' d d' where "hear heaps now (syn_frame (l_cfg l) s) l =
      (on_syn now s ((heard_while_connecting now (l\<lparr>l_counters := c\<rparr>))\<lparr>l_deframer := d, l_counters := c', l_last_rx := now\<rparr>))\<lparr>l_deframer := d'\<rparr>"
    "quiet (l_cfg l) d'"
proof (cases "c_framing (l_cfg l)")
  case FramingDatagram
  define c where "c = (l_counters l)\<lparr>ct_bytes_rx := ct_bytes_rx (l_counters l) + of_nat (length (syn_frame (l_cfg l) s))\<rparr>"
  define l1 where "l1 = heard_while_connecting now (l\<lparr>l_counters := c\<rparr>)"
  have cfg: "l_cfg l1 = l_cfg l" by (simp add: l1_def)
  have raw: "syn_frame (l_cfg l) s = encode_raw (c_crc (l_cfg l1)) 0 SYN_HEADER (syn_to_bytes s)"
    using FramingDatagram by (simp add: syn_frame_def finish_def cfg)
  have "hear heaps now (syn_frame (l_cfg l) s) l = snd (on_frame (heaps 0) now (syn_frame (l_cfg l) s) l1)"
    using FramingDatagram by (simp add: hear_def on_datagram_def l1_def c_def Let_def)
  also have "\<dots> = on_syn now s ((count (\<lambda>c. c\<lparr>ct_frames_rx := ct_frames_rx c + 1\<rparr>) l1)\<lparr>l_last_rx := now\<rparr>)"
    unfolding raw on_frame_syn by simp
  also have "(count (\<lambda>c. c\<lparr>ct_frames_rx := ct_frames_rx c + 1\<rparr>) l1)\<lparr>l_last_rx := now\<rparr> =
      l1\<lparr>l_deframer := l_deframer l1, l_counters := (l_counters l1)\<lparr>ct_frames_rx := ct_frames_rx (l_counters l1) + 1\<rparr>, l_last_rx := now\<rparr>" (is "_ = ?r")
    by simp
  also have "on_syn now s ?r = (on_syn now s ?r)\<lparr>l_deframer := l_deframer (on_syn now s ?r)\<rparr>" by simp
  finally show thesis using that assms by (simp add: l1_def listening_def)
next
  case FramingStream
  define raw where "raw = encode_raw (c_crc (l_cfg l)) 0 SYN_HEADER (syn_to_bytes s)"
  define w where "w = wrap_stream raw"
  define c where "c = (l_counters l)\<lparr>ct_bytes_rx := ct_bytes_rx (l_counters l) + of_nat (length w)\<rparr>"
  define l1 where "l1 = heard_while_connecting now (l\<lparr>l_counters := c\<rparr>)"
  have q: "quiet (l_cfg l) (l_deframer l)" using assms by (simp add: listening_def)
  then have frame: "syn_frame (l_cfg l) s = w" using FramingStream by (simp add: syn_frame_def finish_def w_def raw_def quiet_def)
  have "w \<noteq> []" using wrap_stream_body [of raw] by (metis list.discI w_def)
  then have hear: "hear heaps now w l = on_each_byte heaps now w l1"
    using FramingStream by (simp add: hear_def on_bytes_def l1_def c_def Let_def)
  have "length raw \<le> shape_max_raw (l_cfg l)"
    by (simp add: raw_def length_encode_raw shape_max_raw_def syn_to_bytes_def SYN_LEN_def)
  from on_wrapped_frame [of l1 raw heaps now] FramingStream q this obtain n d where
    d: "on_each_byte heaps now w l1 =
      (case on_frame (heaps n) now raw (l1\<lparr>l_deframer := d\<rparr>) of (ok, l') \<Rightarrow> l'\<lparr>l_deframer := frame_done ok (l_deframer l')\<rparr>)"
    "quiet (l_cfg l) (frame_done True d)" by (auto simp: l1_def w_def)
  have "on_frame (heaps n) now raw (l1\<lparr>l_deframer := d\<rparr>) =
     (True, on_syn now s ((count (\<lambda>c. c\<lparr>ct_frames_rx := ct_frames_rx c + 1\<rparr>) (l1\<lparr>l_deframer := d\<rparr>))\<lparr>l_last_rx := now\<rparr>))"
    using on_frame_syn [of "heaps n" now "l1\<lparr>l_deframer := d\<rparr>" s] by (simp add: raw_def l1_def)
  then have "hear heaps now w l = (on_syn now s (l1\<lparr>l_deframer := d, l_counters :=
      (l_counters l1)\<lparr>ct_frames_rx := ct_frames_rx (l_counters l1) + 1\<rparr>, l_last_rx := now\<rparr>))\<lparr>l_deframer := frame_done True d\<rparr>"
    unfolding hear d(1) by simp
  then show thesis using that d(2) by (simp add: frame l1_def)
qed

lemma hear_syn_connecting:
  assumes "listening l" and "l_state l = Connecting" and l'_def: "l' = hear heaps now (syn_frame (l_cfg l) s) l"
  shows "listening l' \<and> l_cfg l' = l_cfg l \<and> l_nonce l' = l_nonce l \<and> l_peer_nonce l' = Some (s_nonce s) \<and> l_tx l' = l_tx l \<and>
    l_generation l' = l_generation l \<and>
    (if s_your s = l_nonce l
     then l_state l' = Established \<and> l_tx_payload l' = unat (max (min (c_max_payload (l_cfg l)) (s_max_payload s)) 1) \<and>
       l_syn_owed l' = (\<not> s_established s \<or> l_syn_owed l) \<and> l_peer_win l' = s_rx_window s \<and>
       l_inbox l' = push_lifecycle (Up (l_generation l)) (l_inbox l)
     else l_state l' = Connecting \<and> l_syn_due l' = Some now \<and> l_syn_owed l' = l_syn_owed l \<and> l_inbox l' = l_inbox l)"
proof -
  obtain c c' d d' where
    l'': "hear heaps now (syn_frame (l_cfg l) s) l = (on_syn now s ((heard_while_connecting now (l\<lparr>l_counters := c\<rparr>))\<lparr>l_deframer := d, l_counters := c', l_last_rx := now\<rparr>))\<lparr>l_deframer := d'\<rparr>"
    "quiet (l_cfg l) d'" by (rule hear_syn [OF assms(1), of heaps now s])
  note l' = l'' [folded l'_def]
  define x where "x = (heard_while_connecting now (l\<lparr>l_counters := c\<rparr>))\<lparr>l_deframer := d, l_counters := c', l_last_rx := now\<rparr>"
  have x: "l_state x = Connecting" "l_cfg x = l_cfg l" "l_nonce x = l_nonce l" "l_tx x = l_tx l" "l_generation x = l_generation l"
    "l_syn_owed x = l_syn_owed l" "l_inbox x = l_inbox l" using assms(2) by (simp_all add: x_def)
  define y where "y = x\<lparr>l_peer_max_payload := s_max_payload s, l_peer_rx_window := s_rx_window s, l_peer_nonce := Some (s_nonce s)\<rparr>"
  have syn: "on_syn now s x = (if s_your s = l_nonce l then if \<not> s_established s then (establish now y)\<lparr>l_syn_owed := True\<rparr> else establish now y
      else y\<lparr>l_syn_due := Some now\<rparr>)"
  proof -
    have "l_state (x\<lparr>l_peer_max_payload := s_max_payload s, l_peer_rx_window := s_rx_window s\<rparr>) = Connecting" "l_nonce y = l_nonce l"
      using x by (simp_all add: y_def)
    then show ?thesis unfolding on_syn_def Let_def by (simp only: LinkState.case y_def [symmetric])
  qed
  show ?thesis
  proof (cases "s_your s = l_nonce l")
    case True
    then show ?thesis
      unfolding l'(1) x_def [symmetric] syn using l'(2) x by (simp add: establish_def listening_def y_def)
  next
    case False
    then show ?thesis
      unfolding l'(1) x_def [symmetric] syn using l'(2) x by (simp add: listening_def y_def)
  qed
qed

lemma idle_quiet: "quiet cfg d \<Longrightarrow> idle_deadline a b d = None"
  by (simp add: quiet_def idle_deadline_def)

lemma poll_connecting:
  assumes "listening l" and "l_state l = Connecting" and "l_syn_due l = Some t" and "t \<le> now"
  obtains l' where "poll_transmit now source l = (Some (syn_frame (l_cfg l) (syn_of l)), l')" "listening l'" "l_cfg l' = l_cfg l"
    "l_state l' = Connecting" "l_nonce l' = l_nonce l" "l_peer_nonce l' = l_peer_nonce l" "l_tx l' = l_tx l" "l_syn_owed l' = l_syn_owed l"
    "l_generation l' = l_generation l" "l_inbox l' = l_inbox l"
proof -
  have timers: "service_timers now l = l"
    using assms(1,2) by (simp add: service_timers_def listening_def idle_quiet Let_def)
  define l1 where "l1 = l\<lparr>l_syn_due := Some (now + c_syn_interval (l_cfg l) * 2 ^ unat (l_syn_doublings l))\<rparr>"
  define l2 where "l2 = (if l_syn_doublings l1 < c_syn_backoff (l_cfg l1) then l1\<lparr>l_syn_doublings := l_syn_doublings l1 + 1\<rparr> else l1)"
  have pick: "pick_and_emit now source l = (Some (syn_frame (l_cfg l) (syn_of l)), l2)"
    using assms(2-4) by (simp add: pick_and_emit_def connect_emit_def emit_syn_frame l1_def l2_def Let_def syn_of_def adv_window_def)
  show thesis
    by (rule that [of "(count (\<lambda>c. c\<lparr>ct_frames_tx := ct_frames_tx c + 1,
        ct_bytes_tx := ct_bytes_tx c + of_nat (length (syn_frame (l_cfg l) (syn_of l)))\<rparr>) l2)\<lparr>l_last_tx := now\<rparr>"])
       (use assms in \<open>simp_all add: poll_transmit_def timers pick Let_def l2_def l1_def listening_def\<close>)
qed

lemma poll_owed:
  assumes "listening l" and "l_state l = Established" and "l_syn_owed l" and "tx_entries (l_tx l) = []"
  obtains l' where "poll_transmit now source l = (Some (syn_frame (l_cfg l) (syn_of l)), l')" "l_cfg l' = l_cfg l"
    "l_state l' = Established" "l_nonce l' = l_nonce l" "l_peer_nonce l' = l_peer_nonce l" "l_tx_payload l' = l_tx_payload l"
    "l_generation l' = l_generation l" "l_inbox l' = l_inbox l"
proof -
  have "probe_deadline l = None" "tx_next_timer rto (l_tx l) = None" for rto
    using assms(4) by (simp_all add: probe_deadline_def tx_next_timer_def List.map_filter_def)
  then have timers: "service_timers now l = l"
    using assms(1) by (simp add: service_timers_def listening_def idle_quiet Let_def)
  define l1 where "l1 = l\<lparr>l_syn_owed := False\<rparr>"
  have pick: "pick_and_emit now source l = (Some (syn_frame (l_cfg l) (syn_of l)), l1)"
    using assms(2,3) by (simp add: pick_and_emit_def emit_syn_frame l1_def Let_def syn_of_def adv_window_def)
  show thesis
    by (rule that [of "(count (\<lambda>c. c\<lparr>ct_frames_tx := ct_frames_tx c + 1,
        ct_bytes_tx := ct_bytes_tx c + of_nat (length (syn_frame (l_cfg l) (syn_of l)))\<rparr>) l1)\<lparr>l_last_tx := now\<rparr>"])
       (use assms in \<open>simp_all add: poll_transmit_def timers pick Let_def l1_def\<close>)
qed

text \<open>Two configurations that can talk to each other.\<close>

definition same_framing :: "LinkConfig \<Rightarrow> LinkConfig \<Rightarrow> bool" where
  "same_framing ca cb \<longleftrightarrow> c_framing ca = c_framing cb \<and> c_crc ca = c_crc cb \<and> c_escape_ff ca \<and> c_escape_ff cb"

lemma syn_frame_same: "same_framing ca cb \<Longrightarrow> syn_frame ca s = syn_frame cb s"
  by (simp add: same_framing_def syn_frame_def finish_def split: Framing.split)

lemma link_new_fields:
  assumes "c_escape_ff cfg"
  shows "listening (link_new k cfg n)" "l_state (link_new k cfg n) = Connecting" "l_syn_due (link_new k cfg n) = Some 0"
    "l_nonce (link_new k cfg n) = max n 1" "l_cfg (link_new k cfg n) = cfg" "l_peer_nonce (link_new k cfg n) = None"
    "tx_entries (l_tx (link_new k cfg n)) = []" "l_syn_owed (link_new k cfg n) = False" "l_generation (link_new k cfg n) = 0"
    "in_events (l_inbox (link_new k cfg n)) = []"
  using assms
  by (simp_all add: link_new_def Let_def listening_def quiet_def with_text_mark_def deframer_new_def tx_new_def inbox_new_def)

text \<open>C6. The handshake connects. Two fresh ends with any nonces, variants and compatible configurations, over either framing,
  are both up after three SYNs: the first end speaks, the second answers, and the first confirms. They then
  hold the same session key, each knows the other's nonce, they agree on the payload size, and each
  application has been told once.\<close>

theorem handshake_connects:
  assumes "same_framing ca cb"
  shows "\<exists>syn1 a1 syn2 b2 syn3 a3. poll_transmit t1 None (link_new k ca na) = (Some syn1, a1) \<and>
    (let b1 = hear h t2 syn1 (link_new k' cb nb) in poll_transmit t2 None b1 = (Some syn2, b2)) \<and>
    (let a2 = hear h t3 syn2 a1 in poll_transmit t3 None a2 = (Some syn3, a3)) \<and>
    (let b3 = hear h t4 syn3 b2
     in l_state a3 = Established \<and> l_state b3 = Established \<and> link_key a3 = link_key b3 \<and>
        l_peer_nonce a3 = Some (l_nonce b3) \<and> l_peer_nonce b3 = Some (l_nonce a3) \<and>
        l_tx_payload a3 = l_tx_payload b3 \<and> in_events (l_inbox a3) = [Up 0] \<and> in_events (l_inbox b3) = [Up 0])"
proof -
  define a0 where "a0 = link_new k ca na"
  define b0 where "b0 = link_new k' cb nb"
  have esc: "c_escape_ff ca" "c_escape_ff cb" using assms(1) by (auto simp: same_framing_def)
  have same: "syn_frame ca s = syn_frame cb s" for s using syn_frame_same [OF assms(1)] .
  note a0 = link_new_fields [OF esc(1), of k na, folded a0_def] and b0 = link_new_fields [OF esc(2), of k' nb, folded b0_def]
  have nz: "max n 1 \<noteq> (0 :: u32)" for n by (auto simp: max_def)
  from poll_connecting [OF a0(1-3), of t1 None] obtain a1 where
    a1: "poll_transmit t1 None a0 = (Some (syn_frame ca (syn_of a0)), a1)" "listening a1" "l_cfg a1 = ca" "l_state a1 = Connecting"
      "l_nonce a1 = max na 1" "l_tx a1 = l_tx a0" "l_syn_owed a1 = False" "l_generation a1 = 0" "in_events (l_inbox a1) = []"
    by (metis a0(4,5,8-10) le0)
  define b1 where "b1 = hear h t2 (syn_frame ca (syn_of a0)) b0"
  have b1: "listening b1" "l_cfg b1 = cb" "l_state b1 = Connecting" "l_syn_due b1 = Some t2" "l_nonce b1 = max nb 1"
    "l_peer_nonce b1 = Some (max na 1)" "l_generation b1 = 0" "in_events (l_inbox b1) = []"
    using hear_syn_connecting [OF b0(1,2), of b1 h t2 "syn_of a0"] b0 a0(4,6) nz [of nb]
    by (simp_all add: b1_def same syn_of_def)
  from poll_connecting [OF b1(1,3,4), of t2 None] obtain b2 where
    b2: "poll_transmit t2 None b1 = (Some (syn_frame cb (syn_of b1)), b2)" "listening b2" "l_cfg b2 = cb" "l_state b2 = Connecting"
      "l_nonce b2 = max nb 1" "l_peer_nonce b2 = Some (max na 1)" "l_generation b2 = 0" "in_events (l_inbox b2) = []"
    by (metis b1(2,5-8) order_refl)
  define a2 where "a2 = hear h t3 (syn_frame cb (syn_of b1)) a1"
  have a2: "listening a2" "l_cfg a2 = ca" "l_state a2 = Established" "l_nonce a2 = max na 1" "l_peer_nonce a2 = Some (max nb 1)"
    "l_syn_owed a2" "tx_entries (l_tx a2) = []" "l_tx_payload a2 = unat (max (min (c_max_payload ca) (c_max_payload cb)) 1)"
    "in_events (l_inbox a2) = [Up 0]"
    using hear_syn_connecting [OF a1(2,4), of a2 h t3 "syn_of b1"] a1 b1 a0(7)
    by (simp_all add: a2_def same [symmetric] syn_of_def push_lifecycle_def)
  obtain a3 where
    poll: "poll_transmit t3 None a2 = (Some (syn_frame (l_cfg a2) (syn_of a2)), a3)" "l_cfg a3 = l_cfg a2" "l_state a3 = Established"
      "l_nonce a3 = l_nonce a2" "l_peer_nonce a3 = l_peer_nonce a2" "l_tx_payload a3 = l_tx_payload a2" "l_inbox a3 = l_inbox a2"
    by (rule poll_owed [OF a2(1,3,6,7), of t3 None])
  have a3: "poll_transmit t3 None a2 = (Some (syn_frame ca (syn_of a2)), a3)" "l_cfg a3 = ca" "l_state a3 = Established"
      "l_nonce a3 = max na 1" "l_peer_nonce a3 = Some (max nb 1)"
      "l_tx_payload a3 = unat (max (min (c_max_payload ca) (c_max_payload cb)) 1)" "in_events (l_inbox a3) = [Up 0]"
    using poll a2(2,4,5,8,9) by simp_all
  define b3 where "b3 = hear h t4 (syn_frame ca (syn_of a2)) b2"
  have b3: "l_state b3 = Established" "l_nonce b3 = max nb 1" "l_peer_nonce b3 = Some (max na 1)"
    "l_tx_payload b3 = unat (max (min (c_max_payload cb) (c_max_payload ca)) 1)" "in_events (l_inbox b3) = [Up 0]"
    using hear_syn_connecting [OF b2(2,4), of b3 h t4 "syn_of a2"] b2 a2
    by (simp_all add: b3_def same syn_of_def push_lifecycle_def)
  have "link_key a3 = link_key b3" using a3(4,5) b3(2,3) by (simp add: link_key_def xor.commute)
  moreover have "l_tx_payload a3 = l_tx_payload b3" using a3(6) b3(4) by (simp add: min.commute)
  moreover have "l_peer_nonce a3 = Some (l_nonce b3)" "l_peer_nonce b3 = Some (l_nonce a3)" using a3(4,5) b3(2,3) by simp_all
  ultimately show ?thesis
    unfolding Let_def a0_def [symmetric] b0_def [symmetric]
  proof (intro exI conjI)
    show "poll_transmit t1 None a0 = (Some (syn_frame ca (syn_of a0)), a1)" by (rule a1(1))
    show "poll_transmit t2 None (hear h t2 (syn_frame ca (syn_of a0)) b0) = (Some (syn_frame cb (syn_of b1)), b2)"
      using b2(1) by (simp only: b1_def)
    show "poll_transmit t3 None (hear h t3 (syn_frame cb (syn_of b1)) a1) = (Some (syn_frame ca (syn_of a2)), a3)"
      using a3(1) by (simp only: a2_def)
  qed (use a3(3,7) b3(1,5) in \<open>simp_all only: b3_def\<close>)
qed

lemma usb_uart_framing: "same_framing cfg_usb cfg_uart"
  by (simp add: same_framing_def cfg_usb_def cfg_uart_def)

theorem handshake_connects_witness:
  "\<exists>syn1 a1. poll_transmit 5 None (link_new KSelectiveRepeat cfg_usb 7) = (Some syn1, a1)"
  using handshake_connects [OF usb_uart_framing, of 5 KSelectiveRepeat 7] by blast

definition sample_frame :: "u8 list" where
  "sample_frame = encode_raw Crc32c 5 \<lparr>h_kind = Data, h_fin = True, h_first = True, h_chan = 1, h_seq = 0, h_ack = 0, h_win = 1\<rparr> [9]"


end
