(* ===== verification/Link_Path.thy ===== *)
theory Link_Path
  imports Link_Session
begin

text \<open>
  One direction of an established session, as the link composes it: messages wait in the send queue, are cut into the
  transmit window, travel as numbered frames over a wire that may lose and repeat them, pass the receiver of
  the reliability variant into the inbox, and are acknowledged over a wire that may lose and repeat the
  acknowledgements. Every state of every such run is shown to deliver what was sent, in order.
\<close>

section \<open>Runs\<close>

definition frag_of :: "TxEntry \<Rightarrow> u8 list \<Rightarrow> Fragment" where
  "frag_of e data = \<lparr>f_chan = te_chan e, f_first = te_first e, f_fin = te_fin e, f_data = data\<rparr>"

record Path =
  pt_pending :: SendQueue
  pt_tx :: TxQueue
  pt_wire :: "(u8 \<times> Fragment) list"
  pt_arq :: ArqState
  pt_inbox :: Inbox
  pt_acks :: "u8 list"
  pt_sent :: "(u8 \<times> u8 list) list"
  pt_got :: "LinkEvent list"

definition path_start :: "ArqKind \<Rightarrow> LinkConfig \<Rightarrow> LinkConfig \<Rightarrow> Path" where
  "path_start k ca cb = \<lparr>pt_pending = l_pending (link_new k ca 1), pt_tx = l_tx (link_new k ca 1), pt_wire = [],
     pt_arq = l_arq (link_new k cb 1), pt_inbox = l_inbox (link_new k cb 1), pt_acks = [], pt_sent = [], pt_got = []\<rparr>"

text \<open>The payload both ends agree on.\<close>

definition path_room :: "LinkConfig \<Rightarrow> LinkConfig \<Rightarrow> nat" where
  "path_room ca cb = unat (max (min (c_max_payload ca) (c_max_payload cb)) 1)"

inductive path_step :: "nat \<Rightarrow> Path \<Rightarrow> Path \<Rightarrow> bool" for room where
  send: "ch < 8 \<Longrightarrow> sq_push ch data (pt_pending p) = Some q \<Longrightarrow>
    path_step room p (p\<lparr>pt_pending := q, pt_sent := pt_sent p @ [(ch, data)]\<rparr>)"
| cut: "tx_push_with (cut_into room None (pt_pending p)) (pt_tx p) = Some (seq, tx, q) \<Longrightarrow>
    path_step room p (p\<lparr>pt_pending := q, pt_tx := tx\<rparr>)"
| transmit: "tx_frame_mut seq (pt_tx p) = Some (e, data) \<Longrightarrow>
    path_step room p (p\<lparr>pt_wire := pt_wire p @ [(seq, frag_of e data)], pt_tx := tx_update seq (mark_sent now order) (pt_tx p)\<rparr>)"
| timeout: "path_step room p (p\<lparr>pt_tx := arq_on_timeout (pt_arq p) now rto (pt_tx p)\<rparr>)"
| probe: "unsend_first (rev (tx_entries (pt_tx p))) = Some es \<Longrightarrow>
    path_step room p (p\<lparr>pt_tx := (pt_tx p)\<lparr>tx_entries := rev es\<rparr>\<rparr>)"
| lose_frame: "pt_wire p = xs @ f # ys \<Longrightarrow> path_step room p (p\<lparr>pt_wire := xs @ ys\<rparr>)"
| repeat_frame: "pt_wire p = xs @ f # ys \<Longrightarrow> path_step room p (p\<lparr>pt_wire := xs @ f # f # ys\<rparr>)"
| receive: "pt_wire p = (seq, f) # ws \<Longrightarrow> arq_on_data heaps seq f (pt_arq p) (pt_inbox p) = (v, arq, inbox) \<Longrightarrow> v \<noteq> Protocol \<Longrightarrow>
    path_step room p (p\<lparr>pt_wire := ws, pt_arq := arq, pt_inbox := inbox\<rparr>)"
| ack: "path_step room p (p\<lparr>pt_acks := pt_acks p @ [arq_expected (pt_arq p)]\<rparr>)"
| lose_ack: "pt_acks p = xs @ a # ys \<Longrightarrow> path_step room p (p\<lparr>pt_acks := xs @ ys\<rparr>)"
| repeat_ack: "pt_acks p = xs @ a # ys \<Longrightarrow> path_step room p (p\<lparr>pt_acks := xs @ a # a # ys\<rparr>)"
| on_ack: "pt_acks p = a # as \<Longrightarrow> tx_ack_to a now (pt_tx p) = Some (acked, tx) \<Longrightarrow>
    arq_on_feedback (pt_arq p) fb tx = (n, tx') \<Longrightarrow> path_step room p (p\<lparr>pt_acks := as, pt_tx := tx'\<rparr>)"
| console: "push_text txt (pt_inbox p) = (ok, inbox) \<Longrightarrow> path_step room p (p\<lparr>pt_inbox := inbox\<rparr>)"
| recv: "inbox_pop (pt_inbox p) = Some (ev, inbox) \<Longrightarrow> arq_drain heaps (pt_arq p) inbox = (Some n, arq, inbox') \<Longrightarrow>
    path_step room p (p\<lparr>pt_got := pt_got p @ [ev], pt_arq := arq, pt_inbox := inbox'\<rparr>)"

inductive path_reach :: "ArqKind \<Rightarrow> LinkConfig \<Rightarrow> LinkConfig \<Rightarrow> Path \<Rightarrow> bool" for k ca cb where
  start: "path_reach k ca cb (path_start k ca cb)"
| step: "path_reach k ca cb p \<Longrightarrow> path_step (path_room ca cb) p p' \<Longrightarrow> path_reach k ca cb p'"

definition sent_on :: "u8 \<Rightarrow> (u8 \<times> u8 list) list \<Rightarrow> u8 list list" where
  "sent_on ch ms = map snd (filter (\<lambda>m. fst m = ch) ms)"

section \<open>The transmit window keeps its fragments\<close>

definition tx_frags :: "TxQueue \<Rightarrow> Fragment list" where
  "tx_frags q = map (\<lambda>(e, data). frag_of e data) (tx_frames q)"

definition touched :: "TxQueue \<Rightarrow> TxQueue \<Rightarrow> bool" where
  "touched q q' \<longleftrightarrow> (\<exists>es. q' = q\<lparr>tx_entries := es\<rparr> \<and> list_all2 same_frame (tx_entries q) es)"

lemma same_frame_refl [simp]: "same_frame e e"
  by (simp add: same_frame_def)

lemma touched_refl [simp]: "touched q q"
  unfolding touched_def by (rule exI [of _ "tx_entries q"]) (simp add: list.rel_refl)

lemma touched_trans: "touched a b \<Longrightarrow> touched b c \<Longrightarrow> touched a c"
proof -
  assume "touched a b" "touched b c"
  then obtain es fs where es: "b = a\<lparr>tx_entries := es\<rparr>" "list_all2 same_frame (tx_entries a) es"
    and fs: "c = b\<lparr>tx_entries := fs\<rparr>" "list_all2 same_frame es fs" by (auto simp: touched_def)
  have "list_all2 same_frame (tx_entries a) fs"
    using list_all2_trans [OF _ es(2) fs(2), of same_frame] by (auto simp: same_frame_def)
  then show "touched a c" using es(1) fs(1) by (auto simp: touched_def)
qed

lemma touched_frags:
  assumes "tx_inv q" and "touched q q'"
  shows "tx_inv q' \<and> tx_frags q' = tx_frags q \<and> tx_base q' = tx_base q \<and> tx_window q' = tx_window q \<and>
    tx_slot_len q' = tx_slot_len q \<and> length (tx_entries q') = length (tx_entries q)"
proof -
  obtain es where es: "q' = q\<lparr>tx_entries := es\<rparr>" "list_all2 same_frame (tx_entries q) es"
    using assms(2) by (auto simp: touched_def)
  have len: "length es = length (tx_entries q)" using es(2) by (simp add: list_all2_lengthD)
  have "tx_frags q' = tx_frags q"
  proof (rule nth_equalityI)
    fix i assume "i < length (tx_frags q')"
    then have i: "i < length es" by (simp add: tx_frags_def es(1))
    have "same_frame (tx_entries q ! i) (es ! i)" using es(2) i len by (auto simp: list_all2_conv_all_nth)
    then show "tx_frags q' ! i = tx_frags q ! i"
      using i len by (auto simp: tx_frags_def es(1) nth_tx_frames frag_of_def same_frame_def)
  qed (simp add: tx_frags_def es(1) len)
  then show ?thesis using tx_set_entries(1) [OF assms(1) es(2)] es(1) len by simp
qed

lemma touched_map: "(\<And>e. same_frame e (f e)) \<Longrightarrow> touched q (tx_map f q)"
  by (auto simp: touched_def tx_map_def list_all2_map2 list.rel_refl list_all2_conv_all_nth)

lemma touched_update: "(\<And>e. same_frame e (f e)) \<Longrightarrow> touched q (tx_update seq f q)"
  unfolding tx_update_def Let_def touched_def
  by (auto simp: list_all2_conv_all_nth nth_list_update intro: exI [of _ "tx_entries q"])

lemma touched_go_back: "touched q (snd (go_back q))"
  by (auto simp: go_back_def same_frame_def intro: touched_map)

lemma touched_timeout: "touched q (arq_on_timeout a now rto q)"
  by (cases a) (auto simp: gbn_on_timeout_def sr_on_timeout_def same_frame_def touched_go_back intro: touched_map split: option.split)

lemma touched_fold: "(\<And>i t. touched t (f i t)) \<Longrightarrow> touched q (fold f idx q)"
  by (induction idx arbitrary: q) (auto intro: touched_trans)

lemma touched_sacked: "touched q (sr_mark_sacked sack q)"
  unfolding sr_mark_sacked_def by (rule touched_fold) (simp add: touched_update same_frame_def)

lemma touched_feedback: "touched q (snd (arq_on_feedback a fb q))"
proof (cases a)
  case (AGoBackN mx r)
  then show ?thesis by (auto simp: gbn_on_feedback_def Let_def touched_go_back split: option.split)
next
  case (ASelectiveRepeat r)
  have "touched q (tx_map (\<lambda>e. if sr_is_lost sent need e then e\<lparr>te_sent_at := None\<rparr> else e) (sr_mark_sacked (fb_sack fb) q))" for sent need
    by (rule touched_trans [OF touched_sacked touched_map]) (simp add: same_frame_def)
  then show ?thesis using ASelectiveRepeat by (simp add: sr_on_feedback_def Let_def)
qed simp

lemma unsend_first_same: "unsend_first es = Some es' \<Longrightarrow> list_all2 same_frame es es'"
  by (induction es arbitrary: es') (auto simp: same_frame_def list.rel_refl split: if_splits)

lemma touched_probe: "unsend_first (rev (tx_entries q)) = Some es \<Longrightarrow> touched q (q\<lparr>tx_entries := rev es\<rparr>)"
  using unsend_first_same [of "rev (tx_entries q)" es] list_all2_rev1 [of same_frame "tx_entries q" es]
  by (auto simp: touched_def)

section \<open>The receivers, behind one interface\<close>

fun arq_ok :: "nat \<Rightarrow> Fragment list \<Rightarrow> nat \<Rightarrow> ArqState \<Rightarrow> bool" where
  "arq_ok limit F E (AGoBackN mx r) = gbn_ok limit F E r"
| "arq_ok limit F E (ASelectiveRepeat r) = sr_ok limit F E r"
| "arq_ok limit F E (ANoArq r) = False"

interpretation arq: in_order_receiver arq_expected arq_on_data arq_drain arq_ok
proof (unfold_locales, goal_cases)
  case (1 limit F E r)
  then show ?case using gbn.rx_expected sr.rx_expected by (cases r) auto
next
  case (2 limit F E r G)
  then show ?case using gbn.rx_grow sr.rx_grow by (cases r) auto
next
  case (3 limit F E r got i n heaps v r' i')
  show ?case
  proof (cases r)
    case (AGoBackN mx g)
    with 3(1,7) show ?thesis using gbn.rx_on_data [OF _ 3(2-6)] by (auto split: prod.splits)
  next
    case (ASelectiveRepeat s)
    with 3(1,7) show ?thesis using sr.rx_on_data [OF _ 3(2-6)] by (auto split: prod.splits)
  qed (use 3 in simp)
next
  case (4 limit F E r got i heaps k r' i')
  show ?case
  proof (cases r)
    case (AGoBackN mx g)
    with 4 show ?thesis by auto
  next
    case (ASelectiveRepeat s)
    with 4(1,4) show ?thesis using sr.rx_drain [OF _ 4(2,3)] by (auto split: prod.splits)
  qed (use 4 in simp)
qed

section \<open>What waits in the send queue\<close>

fun item_bytes :: "Item \<Rightarrow> u8 list" where
  "item_bytes (Own _ _ rest) = rest"
| "item_bytes (External _ _ _ _) = []"

definition chan_items :: "u8 \<Rightarrow> Item list \<Rightarrow> Item list" where
  "chan_items ch items = filter (\<lambda>it. item_chan it = ch) items"

text \<open>Only the oldest message of a channel may have been started, and it has been just when the fragments cut so far
  end within a message.\<close>

definition chan_waits :: "u8 list option \<Rightarrow> Item list \<Rightarrow> bool" where
  "chan_waits partial its \<longleftrightarrow>
     (case partial of
        None \<Rightarrow> list_all (\<lambda>it. \<not> item_started it) its
      | Some p \<Rightarrow> its \<noteq> [] \<and> item_started (hd its) \<and> list_all (\<lambda>it. \<not> item_started it) (tl its))"

definition chan_left :: "u8 list option \<Rightarrow> Item list \<Rightarrow> u8 list list" where
  "chan_left partial its =
     (case partial of None \<Rightarrow> map item_bytes its | Some p \<Rightarrow> (p @ item_bytes (hd its)) # map item_bytes (tl its))"

definition sender_sync :: "Fragment list \<Rightarrow> (u8 \<times> u8 list) list \<Rightarrow> Item list \<Rightarrow> u8 \<Rightarrow> bool" where
  "sender_sync F sent items ch \<longleftrightarrow>
     (\<exists>p ms. spell ch F = Some (p, ms) \<and> chan_waits p (chan_items ch items) \<and>
        sent_on ch sent = ms @ chan_left p (chan_items ch items))"

lemma sender_sync_push:
  assumes "sender_sync F sent items ch"
  shows "sender_sync F (sent @ [(c, data)]) (items @ [Own c False data]) ch"
proof -
  obtain p ms where s: "spell ch F = Some (p, ms)" "chan_waits p (chan_items ch items)"
    "sent_on ch sent = ms @ chan_left p (chan_items ch items)" using assms by (auto simp: sender_sync_def)
  have "chan_waits p (chan_items ch (items @ [Own c False data])) \<and>
    sent_on ch (sent @ [(c, data)]) = ms @ chan_left p (chan_items ch (items @ [Own c False data]))"
    using s(2,3) by (cases "chan_items ch items"; cases p)
      (auto simp: chan_waits_def chan_left_def chan_items_def sent_on_def)
  with s(1) show ?thesis by (auto simp: sender_sync_def)
qed

lemma sender_sync_cut:
  assumes "sender_sync F sent (pre @ Own c started rest # post) ch" and "next_item pre (Own c started rest) post"
  shows "sender_sync (F @ [\<lparr>f_chan = c, f_first = \<not> started, f_fin = (length rest \<le> room), f_data = take room rest\<rparr>])
    sent (pre @ cut_item room (Own c started rest) @ post) ch"
proof -
  obtain p ms where s: "spell ch F = Some (p, ms)" "chan_waits p (chan_items ch (pre @ Own c started rest # post))"
    "sent_on ch sent = ms @ chan_left p (chan_items ch (pre @ Own c started rest # post))" using assms(1) by (auto simp: sender_sync_def)
  show ?thesis
  proof (cases "ch = c")
    case False
    then have "chan_items ch (pre @ cut_item room (Own c started rest) @ post) = chan_items ch (pre @ Own c started rest # post)"
      by (auto simp: chan_items_def)
    with False s show ?thesis by (auto simp: sender_sync_def spell_snoc)
  next
    case True
    have pre: "chan_items ch pre = []" using assms(2) True by (auto simp: chan_items_def next_item_def filter_empty_conv)
    have old: "chan_items ch (pre @ Own c started rest # post) = Own c started rest # chan_items ch post"
      using pre True by (simp add: chan_items_def)
    have new: "chan_items ch (pre @ cut_item room (Own c started rest) @ post) =
      (if length rest \<le> room then chan_items ch post else Own c True (drop room rest) # chan_items ch post)"
      using pre True by (simp add: chan_items_def)
    have "started \<longleftrightarrow> p \<noteq> None" using s(2) unfolding old by (cases p) (auto simp: chan_waits_def)
    then show ?thesis
      unfolding sender_sync_def new spell_snoc using s(1) s(2,3) [unfolded old] True
      by (cases p) (auto simp: chan_waits_def chan_left_def)
  qed
qed

section \<open>The invariant of a run\<close>

definition sending_ok :: "nat \<Rightarrow> nat \<Rightarrow> Path \<Rightarrow> Fragment list \<Rightarrow> nat \<Rightarrow> bool" where
  "sending_ok limit room p F B \<longleftrightarrow>
     tx_inv (pt_tx p) \<and> tx_window (pt_tx p) \<le> 128 \<and> room \<le> tx_slot_len (pt_tx p) \<and> room \<le> limit \<and> sq_inv (pt_pending p) \<and>
     list_all (\<lambda>it. \<not> item_external it \<and> item_chan it < 8) (sq_items (pt_pending p)) \<and>
     tx_base (pt_tx p) = of_nat B \<and> B \<le> length F \<and> tx_frags (pt_tx p) = drop B F \<and> stream_ok limit F \<and>
     (\<forall>ch < 8. sender_sync F (pt_sent p) (sq_items (pt_pending p)) ch)"

definition receiving_ok :: "nat \<Rightarrow> Path \<Rightarrow> Fragment list \<Rightarrow> nat \<Rightarrow> nat \<Rightarrow> bool" where
  "receiving_ok limit p F R E \<longleftrightarrow> R \<le> length F \<and> arq_ok limit (take R F) E (pt_arq p) \<and> synced (pt_got p) (take R F) E (pt_inbox p)"

text \<open>The frames and acknowledgements under way, by number. A frame is never further behind a frame that was sent
  after it, or behind what has been received, than the window.\<close>

definition wires_ok :: "Path \<Rightarrow> Fragment list \<Rightarrow> nat \<Rightarrow> nat \<Rightarrow> nat \<Rightarrow> nat list \<Rightarrow> nat list \<Rightarrow> bool" where
  "wires_ok p F B R E ns as \<longleftrightarrow>
     pt_wire p = map (\<lambda>n. (of_nat n, F ! n)) ns \<and> (\<forall>n \<in> set ns. n < length F \<and> R \<le> n + tx_window (pt_tx p)) \<and>
     sorted_wrt (\<lambda>i j. i < j + tx_window (pt_tx p)) ns \<and>
     pt_acks p = map of_nat as \<and> sorted as \<and> (\<forall>a \<in> set as. B \<le> a \<and> a \<le> E) \<and> B \<le> E"

definition path_ok :: "nat \<Rightarrow> nat \<Rightarrow> Path \<Rightarrow> bool" where
  "path_ok limit room p \<longleftrightarrow> (\<exists>F B R E ns as. sending_ok limit room p F B \<and> receiving_ok limit p F R E \<and> wires_ok p F B R E ns as)"

lemma path_okI: "sending_ok limit room p F B \<Longrightarrow> receiving_ok limit p F R E \<Longrightarrow> wires_ok p F B R E ns as \<Longrightarrow> path_ok limit room p"
  unfolding path_ok_def by blast

lemma sent_span: "sending_ok limit room p F B \<Longrightarrow> length F \<le> B + tx_window (pt_tx p)"
proof -
  assume ok: "sending_ok limit room p F B"
  then have "length (tx_frags (pt_tx p)) = length F - B" by (simp add: sending_ok_def)
  moreover have "length (tx_frags (pt_tx p)) = length (tx_entries (pt_tx p))" by (simp add: tx_frags_def)
  moreover have "length (tx_entries (pt_tx p)) \<le> tx_window (pt_tx p)" using ok by (simp add: sending_ok_def tx_inv_def)
  ultimately show ?thesis by simp
qed

lemma expected_le: "receiving_ok limit p F R E \<Longrightarrow> E \<le> R \<and> arq_expected (pt_arq p) = of_nat E \<and> R \<le> length F"
  using arq.rx_expected [of limit "take R F" E "pt_arq p"] by (auto simp: receiving_ok_def)

lemma path_touched:
  assumes "path_ok limit room p" and "touched (pt_tx p) tx"
  shows "path_ok limit room (p\<lparr>pt_tx := tx\<rparr>)"
proof -
  obtain F B R E ns as where ok: "sending_ok limit room p F B" "receiving_ok limit p F R E" "wires_ok p F B R E ns as"
    using assms(1) by (auto simp: path_ok_def)
  have t: "tx_inv tx" "tx_frags tx = tx_frags (pt_tx p)" "tx_base tx = tx_base (pt_tx p)" "tx_window tx = tx_window (pt_tx p)"
    "tx_slot_len tx = tx_slot_len (pt_tx p)"
    using touched_frags [OF _ assms(2)] ok(1) by (auto simp: sending_ok_def)
  show ?thesis
    by (rule path_okI [of _ _ _ F B R E ns as]) (use ok t in \<open>simp_all add: sending_ok_def receiving_ok_def wires_ok_def\<close>)
qed

subsection \<open>Sending\<close>

lemma path_send:
  assumes "path_ok limit room p" and "ch < 8" and "sq_push ch data (pt_pending p) = Some q"
  shows "path_ok limit room (p\<lparr>pt_pending := q, pt_sent := pt_sent p @ [(ch, data)]\<rparr>)"
proof -
  obtain F B R E ns as where ok: "sending_ok limit room p F B" "receiving_ok limit p F R E" "wires_ok p F B R E ns as"
    using assms(1) by (auto simp: path_ok_def)
  have "sq_inv q" "sq_items q = sq_items (pt_pending p) @ [Own ch False data]"
    using sq_push_items [OF _ assms(3)] ok(1) by (auto simp: sending_ok_def)
  then show ?thesis
    by (intro path_okI [of _ _ _ F B R E ns as])
       (use ok assms(2) in \<open>auto simp: sending_ok_def receiving_ok_def wires_ok_def intro: sender_sync_push\<close>)
qed

lemma spell_other: "\<forall>f \<in> set F. f_chan f \<noteq> ch \<Longrightarrow> spell ch F = Some (None, [])"
  by (induction F rule: rev_induct) (simp_all add: spell_snoc)

lemma stream_ok_snoc:
  assumes "stream_ok limit F" and "f_chan f < 8" and "length (f_data f) \<le> limit" and "\<forall>ch < 8. spell ch (F @ [f]) \<noteq> None"
  shows "stream_ok limit (F @ [f])"
proof -
  have "spell ch (F @ [f]) \<noteq> None" for ch
  proof (cases "ch < 8")
    case False
    then have "\<forall>g \<in> set (F @ [f]). f_chan g \<noteq> ch" using assms(1,2) by (auto simp: stream_ok_def)
    then show ?thesis using spell_other by (metis option.distinct(1))
  qed (use assms(4) in blast)
  then show ?thesis using assms(1-3) by (auto simp: stream_ok_def)
qed

lemma cut_frags:
  assumes "tx_inv tx" and "sq_inv pending" and "room \<le> tx_slot_len tx"
    and "list_all (\<lambda>it. \<not> item_external it) (sq_items pending)" and "tx_push_with (cut_into room None pending) tx = Some (seq, tx', q)"
  obtains pre c started rest post f where "sq_items pending = pre @ Own c started rest # post" "next_item pre (Own c started rest) post"
    "f = \<lparr>f_chan = c, f_first = \<not> started, f_fin = (length rest \<le> room), f_data = take room rest\<rparr>"
    "sq_inv q" "sq_items q = pre @ cut_item room (Own c started rest) @ post" "tx_inv tx'" "tx_frags tx' = tx_frags tx @ [f]"
    "tx_base tx' = tx_base tx" "tx_window tx' = tx_window tx" "tx_slot_len tx' = tx_slot_len tx"
proof -
  define slot where "slot = slot_get (tx_slot_len tx) (tx_slab tx) ((tx_head tx + length (tx_entries tx)) mod tx_window tx) (tx_slot_len tx)"
  have full: "\<not> tx_is_full tx" using assms(5) by (auto simp: tx_push_with_def)
  have fill: "cut_into room None pending slot \<noteq> None"
    using assms(5) full by (auto simp: tx_push_with_def slot_def Let_def split: option.splits)
  then have "sq_take room None pending \<noteq> None" by (auto simp: cut_into_def split: option.splits)
  with sq_take_items [OF assms(2), of room None] obtain pre it post where it: "sq_items pending = pre @ it # post" "next_item pre it post"
    "case cut_bytes room None it of None \<Rightarrow> sq_take room None pending = None
     | Some bytes \<Rightarrow> \<exists>q'. sq_take room None pending = Some (cut_taken room it, bytes, q') \<and> sq_inv q' \<and>
         sq_items q' = pre @ cut_item room it @ post \<and> sq_ring q' = sq_ring pending"
    by (elim disjE conjE exE) simp_all
  obtain c started rest where own: "it = Own c started rest" using assms(4) it(1) by (cases it) auto
  obtain q' where q': "sq_take room None pending = Some (cut_taken room it, take room rest, q')" "sq_inv q'"
    "sq_items q' = pre @ cut_item room it @ post" using it(3) own by auto
  have slot: "length slot = tx_slot_len tx" 
    using assms(1) slot_get_length [of "tx_slab tx" "tx_window tx" "tx_slot_len tx"] by (simp add: slot_def tx_inv_def)
  have cut: "cut_into room None pending slot =
      Some ((c, \<not> started, length rest \<le> room, min (length rest) room), take room rest @ drop (length (take room rest)) slot, q')"
    by (simp add: cut_into_def q'(1) own cut_taken_def)
  have len: "min (length rest) room \<le> tx_slot_len tx" "length (take room rest @ drop (length (take room rest)) slot) = tx_slot_len tx"
    using assms(3) slot by auto
  obtain tx'' where tx'': "tx_push_with (cut_into room None pending) tx = Some (tx_next_seq tx, tx'', q')" "tx_inv tx''"
    "tx_base tx'' = tx_base tx"
    "tx_frames tx'' = tx_frames tx @ [(tx_new_entry c (\<not> started) (length rest \<le> room) (min (length rest) room),
       take (min (length rest) room) (take room rest @ drop (length (take room rest)) slot))]"
    "tx_window tx'' = tx_window tx" "tx_slot_len tx'' = tx_slot_len tx"
    using tx_push_with_frames [where fill = "cut_into room None pending", OF assms(1) full cut [unfolded slot_def] len [unfolded slot_def]]
    unfolding slot_def by blast
  have "take (min (length rest) room) (take room rest @ drop (length (take room rest)) slot) = take room rest" by (simp add: min_def)
  with tx''(4) have frags: "tx_frags tx'' = tx_frags tx @ [frag_of (tx_new_entry c (\<not> started) (length rest \<le> room) (min (length rest) room)) (take room rest)]"
    by (simp add: tx_frags_def)
  have eq: "tx' = tx''" "q = q'" using assms(5) tx''(1) by simp_all
  show thesis
    by (rule that [of pre c started rest post]) (use it(1,2) own q' tx''(2,3,5,6) frags eq in \<open>simp_all add: frag_of_def tx_new_entry_def\<close>)
qed

lemma path_cut:
  assumes "path_ok limit room p" and "tx_push_with (cut_into room None (pt_pending p)) (pt_tx p) = Some (seq, tx, q)"
  shows "path_ok limit room (p\<lparr>pt_pending := q, pt_tx := tx\<rparr>)"
proof -
  obtain F B R E ns as where ok: "sending_ok limit room p F B" "receiving_ok limit p F R E" "wires_ok p F B R E ns as"
    using assms(1) by (auto simp: path_ok_def)
  have s: "tx_inv (pt_tx p)" "sq_inv (pt_pending p)" "room \<le> tx_slot_len (pt_tx p)" "room \<le> limit"
    "list_all (\<lambda>it. \<not> item_external it) (sq_items (pt_pending p))"
    using ok(1) by (auto simp: sending_ok_def list_all_iff)
  from cut_frags [OF s(1-3,5) assms(2)] obtain pre c started rest post f where
    it: "sq_items (pt_pending p) = pre @ Own c started rest # post" "next_item pre (Own c started rest) post"
    and f: "f = \<lparr>f_chan = c, f_first = \<not> started, f_fin = (length rest \<le> room), f_data = take room rest\<rparr>"
    and q: "sq_inv q" "sq_items q = pre @ cut_item room (Own c started rest) @ post"
    and tx: "tx_inv tx" "tx_frags tx = tx_frags (pt_tx p) @ [f]" "tx_base tx = tx_base (pt_tx p)"
      "tx_window tx = tx_window (pt_tx p)" "tx_slot_len tx = tx_slot_len (pt_tx p)" .
  have c: "c < 8" using ok(1) it(1) by (simp add: sending_ok_def)
  have sync: "sender_sync (F @ [f]) (pt_sent p) (sq_items q) ch" if "ch < 8" for ch
    unfolding f q(2) using ok(1) it that by (intro sender_sync_cut) (simp_all add: sending_ok_def)
  have stream: "stream_ok limit (F @ [f])"
  proof (rule stream_ok_snoc)
    show "\<forall>ch < 8. spell ch (F @ [f]) \<noteq> None" using sync unfolding sender_sync_def by fastforce
  qed (use ok(1) c s(4) in \<open>simp_all add: sending_ok_def f\<close>)
  have "sending_ok limit room (p\<lparr>pt_pending := q, pt_tx := tx\<rparr>) (F @ [f]) B"
    using ok(1) q tx stream sync it(1) by (auto simp: sending_ok_def)
  moreover have "receiving_ok limit (p\<lparr>pt_pending := q, pt_tx := tx\<rparr>) (F @ [f]) R E" using ok(2) by (simp add: receiving_ok_def)
  moreover have "wires_ok (p\<lparr>pt_pending := q, pt_tx := tx\<rparr>) (F @ [f]) B R E ns as"
    using ok(3) tx(4) by (auto simp: wires_ok_def nth_append)
  ultimately show ?thesis by (rule path_okI)
qed

lemma path_transmit:
  assumes "path_ok limit room p" and "tx_frame_mut seq (pt_tx p) = Some (e, data)"
  shows "path_ok limit room (p\<lparr>pt_wire := pt_wire p @ [(seq, frag_of e data)], pt_tx := tx_update seq (mark_sent now order) (pt_tx p)\<rparr>)"
proof -
  obtain F B R E ns as where ok: "sending_ok limit room p F B" "receiving_ok limit p F R E" "wires_ok p F B R E ns as"
    using assms(1) by (auto simp: path_ok_def)
  define i where "i = unat (seq_dist (tx_base (pt_tx p)) seq)"
  have i: "i < length (tx_entries (pt_tx p))" "(e, data) = tx_frames (pt_tx p) ! i"
    using assms(2) by (auto simp: tx_frame_mut_def Let_def i_def nth_tx_frames split: if_splits)
  have B: "tx_base (pt_tx p) = of_nat B" "tx_frags (pt_tx p) = drop B F" "B \<le> length F" using ok(1) by (auto simp: sending_ok_def)
  have "seq = tx_base (pt_tx p) + of_nat i" by (simp add: i_def seq_dist_def)
  then have seq: "seq = of_nat (B + i)" using B(1) by simp
  have len: "length (drop B F) = length (tx_entries (pt_tx p))" by (simp add: B(2) [symmetric] tx_frags_def)
  have "frag_of e data = tx_frags (pt_tx p) ! i" using i by (metis case_prod_conv length_tx_frames nth_map tx_frags_def)
  then have f: "frag_of e data = F ! (B + i)" using B(2,3) i len by simp
  have n: "B + i < length F" using len i(1) by simp
  have "path_ok limit room (p\<lparr>pt_wire := pt_wire p @ [(seq, frag_of e data)]\<rparr>)"
  proof (rule path_okI [of _ _ _ F B R E "ns @ [B + i]" as])
    show "wires_ok (p\<lparr>pt_wire := pt_wire p @ [(seq, frag_of e data)]\<rparr>) F B R E (ns @ [B + i]) as"
      using ok(3) n sent_span [OF ok(1)] expected_le [OF ok(2)]
      by (auto simp: wires_ok_def sorted_wrt_append seq f)
  qed (use ok in \<open>simp_all add: sending_ok_def receiving_ok_def\<close>)
  from path_touched [OF this, of "tx_update seq (mark_sent now order) (pt_tx p)"] show ?thesis
    by (simp add: touched_update same_frame_def mark_sent_def)
qed

subsection \<open>The wires\<close>

lemma path_wire:
  assumes "path_ok limit room p" and "pt_wire p = xs @ f # ys"
  shows "path_ok limit room (p\<lparr>pt_wire := xs @ ys\<rparr>)" and "path_ok limit room (p\<lparr>pt_wire := xs @ f # f # ys\<rparr>)"
proof -
  obtain F B R E ns as where ok: "sending_ok limit room p F B" "receiving_ok limit p F R E" "wires_ok p F B R E ns as"
    using assms(1) by (auto simp: path_ok_def)
  then have W: "0 < tx_window (pt_tx p)" by (simp add: sending_ok_def tx_inv_def)
  from ok(3) assms(2) obtain hs n js where ns: "ns = hs @ n # js" "xs = map (\<lambda>n. (of_nat n, F ! n)) hs"
    "f = (of_nat n, F ! n)" "ys = map (\<lambda>n. (of_nat n, F ! n)) js"
    by (auto simp: wires_ok_def append_eq_map_conv Cons_eq_map_conv)
  show "path_ok limit room (p\<lparr>pt_wire := xs @ ys\<rparr>)"
    by (rule path_okI [of _ _ _ F B R E "hs @ js" as])
       (use ok ns in \<open>auto simp: sending_ok_def receiving_ok_def wires_ok_def sorted_wrt_append\<close>)
  show "path_ok limit room (p\<lparr>pt_wire := xs @ f # f # ys\<rparr>)"
    by (rule path_okI [of _ _ _ F B R E "hs @ n # n # js" as])
       (use ok ns W in \<open>auto simp: sending_ok_def receiving_ok_def wires_ok_def sorted_wrt_append\<close>)
qed

lemma path_acks:
  assumes "path_ok limit room p" and "pt_acks p = xs @ a # ys"
  shows "path_ok limit room (p\<lparr>pt_acks := xs @ ys\<rparr>)" and "path_ok limit room (p\<lparr>pt_acks := xs @ a # a # ys\<rparr>)"
proof -
  obtain F B R E ns as where ok: "sending_ok limit room p F B" "receiving_ok limit p F R E" "wires_ok p F B R E ns as"
    using assms(1) by (auto simp: path_ok_def)
  from ok(3) assms(2) obtain hs n js where ns: "as = hs @ n # js" "xs = map of_nat hs" "a = of_nat n" "ys = map of_nat js"
    by (auto simp: wires_ok_def append_eq_map_conv Cons_eq_map_conv)
  show "path_ok limit room (p\<lparr>pt_acks := xs @ ys\<rparr>)"
    by (rule path_okI [of _ _ _ F B R E ns "hs @ js"])
       (use ok ns in \<open>auto simp: sending_ok_def receiving_ok_def wires_ok_def sorted_wrt_append\<close>)
  show "path_ok limit room (p\<lparr>pt_acks := xs @ a # a # ys\<rparr>)"
    by (rule path_okI [of _ _ _ F B R E ns "hs @ n # n # js"])
       (use ok ns in \<open>auto simp: sending_ok_def receiving_ok_def wires_ok_def sorted_wrt_append\<close>)
qed

subsection \<open>Receiving\<close>

lemma synced_take: "E \<le> R \<Longrightarrow> R \<le> R' \<Longrightarrow> synced got (take R F) E i \<Longrightarrow> synced got (take R' F) E i"
  by (simp add: synced_def)

lemma path_receive:
  assumes "path_ok limit room p" and "pt_wire p = (seq, f) # ws" and "arq_on_data heaps seq f (pt_arq p) (pt_inbox p) = (v, arq, inbox)"
  shows "v \<noteq> Protocol \<and> path_ok limit room (p\<lparr>pt_wire := ws, pt_arq := arq, pt_inbox := inbox\<rparr>)"
proof -
  obtain F B R E ns as where ok: "sending_ok limit room p F B" "receiving_ok limit p F R E" "wires_ok p F B R E ns as"
    using assms(1) by (auto simp: path_ok_def)
  from ok(3) assms(2) obtain n ms where ns: "ns = n # ms" "seq = of_nat n" "f = F ! n" "ws = map (\<lambda>n. (of_nat n, F ! n)) ms"
    by (auto simp: wires_ok_def Cons_eq_map_conv)
  define W where "W = tx_window (pt_tx p)"
  have W: "W \<le> 128" using ok(1) by (simp add: sending_ok_def W_def)
  have n: "n < length F" "R \<le> n + W" "B \<le> E" using ok(3) ns(1) by (auto simp: wires_ok_def W_def)
  have E: "E \<le> R" "R \<le> length F" using expected_le [OF ok(2)] by simp_all
  define R' where "R' = max R (Suc n)"
  have R': "R \<le> R'" "n < R'" "R' \<le> length F" using n(1) E(2) by (auto simp: R'_def)
  have take: "take R' F = take R F @ take (R' - R) (drop R F)" using R'(1) by (metis le_add_diff_inverse take_add)
  have rx: "arq_ok limit (take R' F) E (pt_arq p)" using ok(2) arq.rx_grow unfolding take by (auto simp: receiving_ok_def)
  have sy: "synced (pt_got p) (take R' F) E (pt_inbox p)" using ok(2) synced_take [OF E(1) R'(1)] by (simp add: receiving_ok_def)
  have st: "stream_ok limit (take R' F)" using ok(1) stream_ok_take by (auto simp: sending_ok_def)
  have near: "E \<le> n + 128" "n < E + 128" using n E(1) W sent_span [OF ok(1)] by (auto simp: W_def)
  have len: "n < length (take R' F)" using R'(2) n(1) by simp
  have data: "arq_on_data heaps (of_nat n) (take R' F ! n) (pt_arq p) (pt_inbox p) = (v, arq, inbox)"
    using assms(3) ns R'(2) by simp
  from arq.rx_on_data [OF rx sy st len near data] obtain E' where
    E': "v \<noteq> Protocol" "E \<le> E'" "arq_ok limit (take R' F) E' arq" "synced (pt_got p) (take R' F) E' inbox" by blast
  have "path_ok limit room (p\<lparr>pt_wire := ws, pt_arq := arq, pt_inbox := inbox\<rparr>)"
  proof (rule path_okI [of _ _ _ F B R' E' ms as])
    show "wires_ok (p\<lparr>pt_wire := ws, pt_arq := arq, pt_inbox := inbox\<rparr>) F B R' E' ms as"
      using ok(3) ns E'(2) by (auto simp: wires_ok_def R'_def)
  qed (use ok E' R' in \<open>simp_all add: sending_ok_def receiving_ok_def\<close>)
  with E'(1) show ?thesis by blast
qed

lemma inbox_sync_events: "inbox_sync fs evs (i\<lparr>in_events := es, in_ready_bytes := n\<rparr>) = inbox_sync fs evs i"
  by (simp add: inbox_sync_def chan_sync_def partial_ok_def)

lemma inbox_sync_ready: "inbox_sync fs evs (i\<lparr>in_ready_bytes := n, in_events := es\<rparr>) = inbox_sync fs evs i"
  by (simp add: inbox_sync_def chan_sync_def partial_ok_def)

lemma synced_pop: "synced got F E i \<Longrightarrow> inbox_pop i = Some (ev, i') \<Longrightarrow> synced (got @ [ev]) F E i'"
  by (auto simp: synced_def inbox_pop_def inbox_sync_events split: list.splits)

lemma inbox_sync_text: "inbox_sync fs (evs @ [Text txt]) i = inbox_sync fs evs i"
proof -
  have "msgs_on ch [Text txt] = []" for ch by (simp add: msgs_on_def)
  then show ?thesis by (simp add: inbox_sync_def chan_sync_def)
qed

lemma synced_text: "synced got F E i \<Longrightarrow> push_text txt i = (ok, i') \<Longrightarrow> synced got F E i'"
  using inbox_sync_text [of "take E F" "got @ in_events i" "txt" i]
  by (auto simp: synced_def push_text_def inbox_sync_ready split: if_splits)

lemma path_inbox:
  assumes "path_ok limit room p" and "\<And>F E. synced (pt_got p) F E (pt_inbox p) \<Longrightarrow> synced got F E inbox"
  shows "path_ok limit room (p\<lparr>pt_inbox := inbox, pt_got := got\<rparr>)"
proof -
  obtain F B R E ns as where ok: "sending_ok limit room p F B" "receiving_ok limit p F R E" "wires_ok p F B R E ns as"
    using assms(1) by (auto simp: path_ok_def)
  show ?thesis
    by (rule path_okI [of _ _ _ F B R E ns as]) (use ok assms(2) in \<open>simp_all add: sending_ok_def receiving_ok_def wires_ok_def\<close>)
qed

lemma path_drain:
  assumes "path_ok limit room p" and "arq_drain heaps (pt_arq p) (pt_inbox p) = (n, arq, inbox)"
  shows "n \<noteq> None \<and> path_ok limit room (p\<lparr>pt_arq := arq, pt_inbox := inbox\<rparr>)"
proof -
  obtain F B R E ns as where ok: "sending_ok limit room p F B" "receiving_ok limit p F R E" "wires_ok p F B R E ns as"
    using assms(1) by (auto simp: path_ok_def)
  have st: "stream_ok limit (take R F)" using ok(1) stream_ok_take by (auto simp: sending_ok_def)
  have rx: "arq_ok limit (take R F) E (pt_arq p)" "synced (pt_got p) (take R F) E (pt_inbox p)"
    using ok(2) by (simp_all add: receiving_ok_def)
  from arq.rx_drain [OF rx st assms(2)] obtain E' where
    E': "n \<noteq> None" "E \<le> E'" "arq_ok limit (take R F) E' arq" "synced (pt_got p) (take R F) E' inbox" by blast
  have "path_ok limit room (p\<lparr>pt_arq := arq, pt_inbox := inbox\<rparr>)"
    by (rule path_okI [of _ _ _ F B R E' ns as])
       (use ok E' in \<open>auto simp: sending_ok_def receiving_ok_def wires_ok_def intro: order_trans\<close>)
  with E'(1) show ?thesis by blast
qed

subsection \<open>Acknowledging\<close>

lemma path_ack:
  assumes "path_ok limit room p"
  shows "path_ok limit room (p\<lparr>pt_acks := pt_acks p @ [arq_expected (pt_arq p)]\<rparr>)"
proof -
  obtain F B R E ns as where ok: "sending_ok limit room p F B" "receiving_ok limit p F R E" "wires_ok p F B R E ns as"
    using assms(1) by (auto simp: path_ok_def)
  show ?thesis
    by (rule path_okI [of _ _ _ F B R E ns "as @ [E]"])
       (use ok expected_le [OF ok(2)] in \<open>auto simp: sending_ok_def receiving_ok_def wires_ok_def sorted_wrt_append\<close>)
qed

lemma path_ack_to:
  assumes "path_ok limit room p" and "pt_acks p = a # as"
  obtains acked tx where "tx_ack_to a now (pt_tx p) = Some (acked, tx)" "path_ok limit room (p\<lparr>pt_acks := as, pt_tx := tx\<rparr>)"
proof -
  obtain F B R E ns ks where ok: "sending_ok limit room p F B" "receiving_ok limit p F R E" "wires_ok p F B R E ns ks"
    using assms(1) by (auto simp: path_ok_def)
  from ok(3) assms(2) obtain n ms where ks: "ks = n # ms" "a = of_nat n" "as = map of_nat ms"
    by (auto simp: wires_ok_def Cons_eq_map_conv)
  have n: "B \<le> n" "n \<le> E" using ok(3) ks(1) by (auto simp: wires_ok_def)
  have F: "n \<le> length F" "n < B + 256"
    using n expected_le [OF ok(2)] sent_span [OF ok(1)] ok(1) by (auto simp: sending_ok_def)
  have tx: "tx_inv (pt_tx p)" "tx_base (pt_tx p) = of_nat B" "tx_frags (pt_tx p) = drop B F" using ok(1) by (simp_all add: sending_ok_def)
  have d: "unat (seq_dist (tx_base (pt_tx p)) a) = n - B" using seq_dist_ahead [OF n(1) F(2)] tx(2) ks(2) by simp
  have "length (tx_entries (pt_tx p)) = length (drop B F)" by (simp add: tx(3) [symmetric] tx_frags_def)
  then have le: "unat (seq_dist (tx_base (pt_tx p)) a) \<le> length (tx_entries (pt_tx p))" using d F(1) by simp
  from tx_ack_to_frames [OF tx(1) le, of now] obtain acked tx' where
    tx': "tx_ack_to a now (pt_tx p) = Some (acked, tx')" "tx_inv tx'" "tx_frames tx' = drop (n - B) (tx_frames (pt_tx p))"
      "tx_base tx' = a" "tx_window tx' = tx_window (pt_tx p)" "tx_slot_len tx' = tx_slot_len (pt_tx p)"
    unfolding d by blast
  have "tx_frags tx' = drop (n - B) (tx_frags (pt_tx p))" by (simp add: tx_frags_def tx'(3) drop_map)
  then have frags: "tx_frags tx' = drop n F" using tx(3) n(1) by simp
  have "path_ok limit room (p\<lparr>pt_acks := as, pt_tx := tx'\<rparr>)"
    by (rule path_okI [of _ _ _ F n R E ns ms])
       (use ok ks n F tx' frags in \<open>auto simp: sending_ok_def receiving_ok_def wires_ok_def\<close>)
  with tx'(1) that show thesis by blast
qed

subsection \<open>Every run\<close>

definition path_cfg_ok :: "ArqKind \<Rightarrow> LinkConfig \<Rightarrow> LinkConfig \<Rightarrow> bool" where
  "path_cfg_ok k ca cb \<longleftrightarrow> k \<noteq> KNoArq \<and> kind_max_window k \<le> 128 \<and> cfg_validate ca = Inr () \<and> cfg_validate cb = Inr () \<and> 0 < c_send_budget ca"

lemma path_start_ok:
  assumes "path_cfg_ok k ca cb"
  shows "path_ok (unat (c_max_payload cb)) (path_room ca cb) (path_start k ca cb)"
proof -
  have payload: "c_max_payload ca \<noteq> 0" "c_max_payload cb \<noteq> 0" "0 < c_send_queue ca" "0 < c_send_budget ca"
    using assms by (auto simp: path_cfg_ok_def validated)
  have room: "path_room ca cb \<le> unat (c_max_payload ca)" "path_room ca cb \<le> unat (c_max_payload cb)"
    using payload unat_gt_0 [of "c_max_payload ca"] unat_gt_0 [of "c_max_payload cb"]
    by (auto simp: path_room_def max_def min_def word_le_nat_alt)
  have small: "unat (c_max_payload c) < 65536" for c using unsigned_less [of "c_max_payload c"] by simp
  have win: "max (shape_tx_window k ca) 1 \<le> 128"
    using assms by (auto simp: path_cfg_ok_def shape_tx_window_def max_def min_def word_le_nat_alt)
  note defs = path_start_def link_new_def Let_def
  have tx: "tx_inv (pt_tx (path_start k ca cb))" "tx_frags (pt_tx (path_start k ca cb)) = []"
    using tx_new_inv [OF small [of ca]] by (simp_all add: defs tx_frags_def)
  have sq: "sq_inv (pt_pending (path_start k ca cb))" "sq_items (pt_pending (path_start k ca cb)) = []"
    using sq_new_items payload by (simp_all add: defs)
  have "sending_ok (unat (c_max_payload cb)) (path_room ca cb) (path_start k ca cb) [] 0"
    using tx sq room win by (simp add: sending_ok_def defs tx_new_def stream_ok_def sender_sync_def chan_waits_def chan_left_def chan_items_def sent_on_def)
  moreover have "arq_ok (unat (c_max_payload cb)) [] 0 (pt_arq (path_start k ca cb))"
    using assms sr_new_ok [OF small [of cb]] by (cases k) (auto simp: defs gbn_ok_def path_cfg_ok_def)
  then have "receiving_ok (unat (c_max_payload cb)) (path_start k ca cb) [] 0 0"
    using inbox_new_sync by (simp add: receiving_ok_def defs synced_def inbox_new_def)
  moreover have "wires_ok (path_start k ca cb) [] 0 0 0 [] []" by (simp add: wires_ok_def defs)
  ultimately show ?thesis by (rule path_okI)
qed

lemma path_step_ok:
  assumes "path_step room p p'" and "path_ok limit room p"
  shows "path_ok limit room p'"
  using assms
proof (induction rule: path_step.induct)
  case (on_ack p a as now acked tx fb n tx')
  from path_ack_to [OF on_ack(4,1), of now] on_ack(2) have "path_ok limit room (p\<lparr>pt_acks := as, pt_tx := tx\<rparr>)" by auto
  from path_touched [OF this, of tx'] show ?case using touched_feedback [of tx "pt_arq p" fb] on_ack(3) by simp
next
  case (recv p ev inbox heaps n arq inbox')
  have "path_ok limit room (p\<lparr>pt_inbox := inbox, pt_got := pt_got p @ [ev]\<rparr>)"
    using path_inbox [OF recv(3), of "pt_got p @ [ev]" inbox] synced_pop recv(1) by blast
  from path_drain [OF this, of heaps] recv(2) show ?case by simp
next
  case (console "txt" p ok inbox)
  then show ?case using path_inbox [OF console(2), of "pt_got p" inbox] synced_text by simp
qed (auto intro: path_send path_cut path_transmit path_touched touched_timeout touched_probe path_wire path_ack path_acks dest: path_receive)

lemma path_reach_ok: "path_reach k ca cb p \<Longrightarrow> path_cfg_ok k ca cb \<Longrightarrow> path_ok (unat (c_max_payload cb)) (path_room ca cb) p"
  by (induction rule: path_reach.induct) (auto intro: path_start_ok path_step_ok)

lemma spell_grows: "spell ch (fs @ gs) = Some (p', ms') \<Longrightarrow> \<exists>p ms. spell ch fs = Some (p, ms) \<and> prefix ms ms'"
proof (induction gs arbitrary: p' ms' rule: rev_induct)
  case (snoc g gs)
  then obtain p1 ms1 where s: "spell ch (fs @ gs) = Some (p1, ms1)" and "prefix ms1 ms'"
    by (cases "spell ch (fs @ gs)")
       (auto simp: append_assoc [symmetric] spell_snoc Let_def simp del: append_assoc split: if_splits)
  from snoc.IH [OF s] \<open>prefix ms1 ms'\<close> show ?case by (blast intro: prefix_order.trans)
qed simp

lemma path_delivered:
  assumes "path_ok limit room p" and "ch < 8"
  obtains ms where "prefix ms (sent_on ch (pt_sent p))" "subseq (msgs_on ch (pt_got p @ in_events (pt_inbox p))) ms"
    "in_oversize (pt_inbox p) = 0 \<Longrightarrow> msgs_on ch (pt_got p @ in_events (pt_inbox p)) = ms"
    "sq_items (pt_pending p) = [] \<Longrightarrow> tx_is_empty (pt_tx p) \<Longrightarrow> ms = sent_on ch (pt_sent p)"
proof -
  obtain F B R E ns as where ok: "sending_ok limit room p F B" "receiving_ok limit p F R E" "wires_ok p F B R E ns as"
    using assms(1) by (auto simp: path_ok_def)
  have E: "min E R = E" using expected_le [OF ok(2)] by simp
  have "chan_sync (take E F) (pt_got p @ in_events (pt_inbox p)) (pt_inbox p) ch"
    using ok(2) assms(2) by (simp add: receiving_ok_def synced_def inbox_sync_def E)
  then obtain q ms where rx: "spell ch (take E F) = Some (q, ms)" "subseq (msgs_on ch (pt_got p @ in_events (pt_inbox p))) ms"
    "in_oversize (pt_inbox p) = 0 \<longrightarrow> msgs_on ch (pt_got p @ in_events (pt_inbox p)) = ms" by (auto simp: chan_sync_def)
  obtain q' ms' where tx: "spell ch F = Some (q', ms')" "chan_waits q' (chan_items ch (sq_items (pt_pending p)))"
    "sent_on ch (pt_sent p) = ms' @ chan_left q' (chan_items ch (sq_items (pt_pending p)))"
    using ok(1) assms(2) by (auto simp: sending_ok_def sender_sync_def)
  have "prefix ms ms'" using spell_grows [of ch "take E F" "drop E F"] rx(1) tx(1) by auto
  then have "prefix ms (sent_on ch (pt_sent p))" using tx(3) by (auto intro: prefix_order.trans)
  moreover have "ms = sent_on ch (pt_sent p)" if "sq_items (pt_pending p) = []" "tx_is_empty (pt_tx p)"
  proof -
    have "drop B F = []" using that(2) ok(1) by (auto simp: sending_ok_def tx_frags_def tx_is_empty_def tx_frames_def)
    then have "take E F = F" using ok(3) by (simp add: wires_ok_def)
    then have "ms' = ms" using rx(1) tx(1) by simp
    moreover have "q' = None" using tx(2) that(1) by (cases q') (auto simp: chan_waits_def chan_items_def)
    ultimately show ?thesis using tx(3) that(1) by (simp add: chan_left_def chan_items_def)
  qed
  ultimately show thesis using that [of ms] rx(2,3) by blast
qed

section \<open>Properties\<close>

text \<open>C2. Reliable delivery. Whatever the wires lose and repeat, whenever timers fire, frames are resent and the application
  reads: on every channel the messages handed to the application are messages that were sent, in the order
  they were sent, none twice and none altered; as long as no message was counted as dropped there is no gap
  either; and once the sender holds nothing any more, everything has arrived. No frame of a run is a
  protocol error and no acknowledgement is out of range, so no such run ends the session.\<close>

theorem reliable_in_order:
  assumes "path_reach k ca cb p" and "path_cfg_ok k ca cb" and "ch < 8"
  shows "subseq (msgs_on ch (pt_got p)) (sent_on ch (pt_sent p)) \<and>
    (in_oversize (pt_inbox p) = 0 \<longrightarrow> prefix (msgs_on ch (pt_got p)) (sent_on ch (pt_sent p)) \<and>
      (sq_is_empty (pt_pending p) \<and> tx_is_empty (pt_tx p) \<and> in_events (pt_inbox p) = [] \<longrightarrow>
        msgs_on ch (pt_got p) = sent_on ch (pt_sent p))) \<and>
    (\<forall>seq f ws heaps. pt_wire p = (seq, f) # ws \<longrightarrow> fst (arq_on_data heaps seq f (pt_arq p) (pt_inbox p)) \<noteq> Protocol) \<and>
    (\<forall>heaps. fst (arq_drain heaps (pt_arq p) (pt_inbox p)) \<noteq> None) \<and>
    (\<forall>a as now. pt_acks p = a # as \<longrightarrow> tx_ack_to a now (pt_tx p) \<noteq> None)"
proof (intro conjI impI allI)
  note ok = path_reach_ok [OF assms(1,2)]
  then have sq: "sq_inv (pt_pending p)" by (auto simp: path_ok_def sending_ok_def)
  from path_delivered [OF ok assms(3)] obtain ms where ms: "prefix ms (sent_on ch (pt_sent p))"
    "subseq (msgs_on ch (pt_got p @ in_events (pt_inbox p))) ms"
    "in_oversize (pt_inbox p) = 0 \<Longrightarrow> msgs_on ch (pt_got p @ in_events (pt_inbox p)) = ms"
    "sq_items (pt_pending p) = [] \<Longrightarrow> tx_is_empty (pt_tx p) \<Longrightarrow> ms = sent_on ch (pt_sent p)" by blast
  have "subseq (msgs_on ch (pt_got p)) ms" 
    using ms(2) prefix_imp_subseq [of "msgs_on ch (pt_got p)"] by (auto intro: subseq_order.order_trans)
  then show "subseq (msgs_on ch (pt_got p)) (sent_on ch (pt_sent p))"
    using ms(1) prefix_imp_subseq subseq_order.order_trans by blast
  show "prefix (msgs_on ch (pt_got p)) (sent_on ch (pt_sent p))" if "in_oversize (pt_inbox p) = 0"
    using ms(1) ms(3) [OF that] by (auto dest: append_prefixD)
  show "msgs_on ch (pt_got p) = sent_on ch (pt_sent p)"
    if "in_oversize (pt_inbox p) = 0" "sq_is_empty (pt_pending p) \<and> tx_is_empty (pt_tx p) \<and> in_events (pt_inbox p) = []"
    using ms(3,4) that sq_is_empty_items [OF sq] by simp
  show "fst (arq_on_data heaps seq f (pt_arq p) (pt_inbox p)) \<noteq> Protocol" if "pt_wire p = (seq, f) # ws" for seq f ws heaps
    using path_receive [OF ok that] by (metis prod.exhaust_sel)
  show "fst (arq_drain heaps (pt_arq p) (pt_inbox p)) \<noteq> None" for heaps
    using path_drain [OF ok] by (metis prod.exhaust_sel)
  show "tx_ack_to a now (pt_tx p) \<noteq> None" if "pt_acks p = a # as" for a as now
    using path_ack_to [OF ok that] by (metis option.distinct(1))
qed

definition sample_cfg :: LinkConfig where
  "sample_cfg = \<lparr>c_framing = FramingDatagram, c_crc = Crc32c, c_max_payload = 2, c_tx_window = 2, c_rx_window = 2,
     c_rx_budget = 72, c_send_budget = 4, c_send_queue = 2, c_max_message = 4, c_keep_reassembly = 4, c_datagram_queue = 1,
     c_datagram_every = 4, c_reliable_channels = 3, c_ack_delay = 1, c_ack_every = 2, c_reorder_threshold = 1, c_initial_rto = 5,
     c_min_rto = 4, c_max_rto = 9, c_max_retries = 3, c_syn_interval = 3, c_syn_backoff = 0, c_keepalive = 5, c_stall_after = 9,
     c_idle_flush = 5, c_frame_abandon = 9, c_escape_ff = True\<rparr>"

lemma sample_cfg_ok: "path_cfg_ok (KGoBackN 4) sample_cfg sample_cfg"
  by (simp add: path_cfg_ok_def validated sample_cfg_def EVENT_COST_def)

text \<open>Runs that can be evaluated: the heap grants everything, losses are at the head of the wire.\<close>

datatype PathOp = OpSend u8 "u8 list" | OpCut | OpTransmit u8 Micros | OpTimeout Micros | OpLose | OpReceive | OpAck | OpOnAck Micros | OpRecv

fun path_do :: "nat \<Rightarrow> PathOp \<Rightarrow> Path \<Rightarrow> Path option" where
  "path_do room (OpSend ch data) p =
     (if ch < 8 then map_option (\<lambda>q. p\<lparr>pt_pending := q, pt_sent := pt_sent p @ [(ch, data)]\<rparr>) (sq_push ch data (pt_pending p)) else None)"
| "path_do room OpCut p =
     map_option (\<lambda>(seq, tx, q). p\<lparr>pt_pending := q, pt_tx := tx\<rparr>) (tx_push_with (cut_into room None (pt_pending p)) (pt_tx p))"
| "path_do room (OpTransmit seq now) p =
     map_option (\<lambda>(e, data). p\<lparr>pt_wire := pt_wire p @ [(seq, frag_of e data)], pt_tx := tx_update seq (mark_sent now 1) (pt_tx p)\<rparr>)
       (tx_frame_mut seq (pt_tx p))"
| "path_do room (OpTimeout now) p = Some (p\<lparr>pt_tx := arq_on_timeout (pt_arq p) now 1 (pt_tx p)\<rparr>)"
| "path_do room OpLose p = (case pt_wire p of [] \<Rightarrow> None | f # ws \<Rightarrow> Some (p\<lparr>pt_wire := ws\<rparr>))"
| "path_do room OpReceive p =
     (case pt_wire p of
        [] \<Rightarrow> None
      | (seq, f) # ws \<Rightarrow>
          (case arq_on_data (\<lambda>_ _. True) seq f (pt_arq p) (pt_inbox p) of
             (v, arq, inbox) \<Rightarrow> if v = Protocol then None else Some (p\<lparr>pt_wire := ws, pt_arq := arq, pt_inbox := inbox\<rparr>)))"
| "path_do room OpAck p = Some (p\<lparr>pt_acks := pt_acks p @ [arq_expected (pt_arq p)]\<rparr>)"
| "path_do room (OpOnAck now) p =
     (case pt_acks p of
        [] \<Rightarrow> None
      | a # as \<Rightarrow>
          map_option (\<lambda>(acked, tx). p\<lparr>pt_acks := as, pt_tx := snd (arq_on_feedback (pt_arq p)
              \<lparr>fb_sack = 0, fb_trigger = None, fb_now = now, fb_srtt = 1, fb_reorder_threshold = 1\<rparr> tx)\<rparr>)
            (tx_ack_to a now (pt_tx p)))"
| "path_do room OpRecv p =
     Option.bind (inbox_pop (pt_inbox p)) (\<lambda>(ev, inbox).
       case arq_drain (\<lambda>_ _. True) (pt_arq p) inbox of
         (None, _) \<Rightarrow> None
       | (Some n, arq, inbox) \<Rightarrow> Some (p\<lparr>pt_got := pt_got p @ [ev], pt_arq := arq, pt_inbox := inbox\<rparr>))"

fun path_run :: "nat \<Rightarrow> PathOp list \<Rightarrow> Path \<Rightarrow> Path option" where
  "path_run room [] p = Some p"
| "path_run room (op # ops) p = Option.bind (path_do room op p) (path_run room ops)"

lemma path_do_step: "path_do room op p = Some p' \<Longrightarrow> path_step room p p'"
proof (cases op)
  case OpLose
  moreover assume "path_do room op p = Some p'"
  ultimately show ?thesis using path_step.lose_frame [of p "[]"] by (auto split: list.splits)
next
  case (OpOnAck now)
  moreover assume "path_do room op p = Some p'"
  ultimately show ?thesis
    by (auto split: list.splits prod.splits intro: path_step.on_ack [OF _ _ prod.collapse [symmetric]])
next
  case OpRecv
  moreover assume "path_do room op p = Some p'"
  ultimately obtain ev inbox where pop: "inbox_pop (pt_inbox p) = Some (ev, inbox)"
    and rest: "(case arq_drain (\<lambda>_ _. True) (pt_arq p) inbox of (None, _) \<Rightarrow> None
      | (Some n, arq, inbox) \<Rightarrow> Some (p\<lparr>pt_got := pt_got p @ [ev], pt_arq := arq, pt_inbox := inbox\<rparr>)) = Some p'"
    by (auto simp: bind_eq_Some_conv)
  obtain n arq inbox' where "arq_drain (\<lambda>_ _. True) (pt_arq p) inbox = (n, arq, inbox')" by (metis prod.exhaust)
  with rest pop show ?thesis by (cases n) (auto intro: path_step.recv)
qed (auto split: if_splits list.splits prod.splits option.splits simp: bind_eq_Some_conv intro: path_step.intros)

lemma path_run_reach:
  "path_run (path_room ca cb) ops p = Some p' \<Longrightarrow> path_reach k ca cb p \<Longrightarrow> path_reach k ca cb p'"
proof (induction ops arbitrary: p)
  case (Cons op ops)
  then obtain p1 where "path_do (path_room ca cb) op p = Some p1" "path_run (path_room ca cb) ops p1 = Some p'"
    by (auto simp: bind_eq_Some_conv)
  then show ?case using Cons.IH path_reach.step [OF Cons.prems(2) path_do_step] by blast
qed simp

text \<open>A frame is lost, resent, and acknowledged.\<close>

theorem reliable_in_order_witness:
  "\<exists>p. path_reach (KGoBackN 4) sample_cfg sample_cfg p \<and> pt_sent p = [(1, [7, 8, 9])] \<and> pt_got p = [Message 1 [7, 8, 9]] \<and>
     tx_is_empty (pt_tx p) \<and> subseq (msgs_on 1 (pt_got p)) (sent_on 1 (pt_sent p))"
proof -
  define ops where "ops = [OpSend 1 [7, 8, 9], OpCut, OpCut, OpTransmit 0 1, OpLose, OpTransmit 1 1, OpReceive, OpTimeout 3,
    OpTransmit 0 3, OpTransmit 1 3, OpReceive, OpReceive, OpAck, OpOnAck 4, OpRecv]"
  have run: "map_option (\<lambda>p. (pt_sent p, pt_got p, tx_is_empty (pt_tx p)))
      (path_run (path_room sample_cfg sample_cfg) ops (path_start (KGoBackN 4) sample_cfg sample_cfg)) =
    Some ([(1, [7, 8, 9])], [Message 1 [7, 8, 9]], True)" unfolding ops_def by code_simp
  then obtain p where p: "path_run (path_room sample_cfg sample_cfg) ops (path_start (KGoBackN 4) sample_cfg sample_cfg) = Some p"
    "pt_sent p = [(1, [7, 8, 9])]" "pt_got p = [Message 1 [7, 8, 9]]" "tx_is_empty (pt_tx p)" by auto
  have reach: "path_reach (KGoBackN 4) sample_cfg sample_cfg p" using path_run_reach [OF p(1) path_reach.start] .
  then show ?thesis using p reliable_in_order [OF reach sample_cfg_ok, of 1] by auto
qed

end
