(* ===== verification/Link_Cross.thy ===== *)
theory Link_Cross
  imports Link_Wire Link_Path
begin

text \<open>
  Frames of a session between its two ends: the data frames and acknowledgements that one end emits are handled by the
  other with exactly the header, the fragment and the feedback they were made from.
\<close>

lemma on_frame_keyed:
  assumes "h_kind hdr \<noteq> Syn" and "h_chan hdr < 8" and "l_peer_nonce l = Some peer" and "key = link_key l"
    and "length body \<le> unat (c_max_payload (l_cfg l))"
  shows "on_frame h now (encode_raw (c_crc (l_cfg l)) key hdr body) l = (True, on_verified h now hdr body l)"
proof -
  have "header_parse (encode_raw (c_crc (l_cfg l)) key hdr body) = Some hdr"
    using header_parse_to_bytes [OF assms(2)] by (simp add: encode_raw_def Let_def)
  moreover have "l_nonce l XOR peer = key" using assms(3,4) by (simp add: link_key_def)
  ultimately show ?thesis
    using assms(1,3,5) by (simp add: on_frame_def Let_def verify_encode_raw length_encode_raw)
qed

lemma deframer_same: "l_deframer x = d \<Longrightarrow> x = x\<lparr>l_deframer := d\<rparr>"
  by auto

text \<open>A frame of the session, once it is heard.\<close>

lemma hear_keyed:
  assumes "listening l" and "l_state l = Established" and "h_kind hdr \<noteq> Syn" and "h_chan hdr < 8" and "l_peer_nonce l = Some peer"
    and "length body \<le> unat (c_max_payload (l_cfg l))"
  obtains n c d d' where
    "hear heaps now (finish (l_cfg l) (encode_raw (c_crc (l_cfg l)) (link_key l) hdr body)) l =
      (on_verified (heaps n) now hdr body (l\<lparr>l_counters := c, l_deframer := d\<rparr>))\<lparr>l_deframer := d'\<rparr>" "quiet (l_cfg l) d'"
proof -
  define raw where "raw = encode_raw (c_crc (l_cfg l)) (link_key l) hdr body"
  define c where "c = (l_counters l)\<lparr>ct_bytes_rx := ct_bytes_rx (l_counters l) + of_nat (length (finish (l_cfg l) raw))\<rparr>"
  have q: "quiet (l_cfg l) (l_deframer l)" using assms(1) by (simp add: listening_def)
  have frame: "on_frame h now raw (l\<lparr>l_counters := c, l_deframer := d\<rparr>) = (True, on_verified h now hdr body (l\<lparr>l_counters := c, l_deframer := d\<rparr>))" for h d
    using on_frame_keyed [of hdr "l\<lparr>l_counters := c, l_deframer := d\<rparr>" peer "link_key l" body h now] assms(3-6)
    by (simp add: raw_def link_key_def)
  show thesis
  proof (cases "c_framing (l_cfg l)")
    case FramingDatagram
    have eq: "l\<lparr>l_counters := c\<rparr> = l\<lparr>l_counters := c, l_deframer := l_deframer l\<rparr>" by simp
    have "hear heaps now (finish (l_cfg l) raw) l = snd (on_frame (heaps 0) now raw (l\<lparr>l_counters := c\<rparr>))"
      using FramingDatagram assms(2) by (simp add: hear_def on_datagram_def heard_while_connecting_def finish_def c_def Let_def)
    also have "\<dots> = on_verified (heaps 0) now hdr body (l\<lparr>l_counters := c, l_deframer := l_deframer l\<rparr>)"
      by (subst eq) (simp only: frame prod.sel)
    finally have "hear heaps now (finish (l_cfg l) raw) l =
        (on_verified (heaps 0) now hdr body (l\<lparr>l_counters := c, l_deframer := l_deframer l\<rparr>))\<lparr>l_deframer := l_deframer l\<rparr>"
      by (rule trans) (rule deframer_same, simp)
    from that [OF this [unfolded raw_def] q] show thesis .
  next
    case FramingStream
    have "c_escape_ff (l_cfg l)" using q FramingStream by (simp add: quiet_def)
    then have wrap: "finish (l_cfg l) raw = wrap_stream raw" using FramingStream by (simp add: finish_def)
    have "wrap_stream raw \<noteq> []" using wrap_stream_body [of raw] by (metis list.discI)
    then have hear: "hear heaps now (finish (l_cfg l) raw) l = on_each_byte heaps now (wrap_stream raw) (l\<lparr>l_counters := c\<rparr>)"
      using FramingStream assms(2) by (simp add: hear_def on_bytes_def heard_while_connecting_def c_def wrap Let_def)
    have len: "length raw \<le> shape_max_raw (l_cfg (l\<lparr>l_counters := c\<rparr>))" using assms(6) by (simp add: raw_def length_encode_raw shape_max_raw_def)
    have fq: "c_framing (l_cfg (l\<lparr>l_counters := c\<rparr>)) = FramingStream" "quiet (l_cfg (l\<lparr>l_counters := c\<rparr>)) (l_deframer (l\<lparr>l_counters := c\<rparr>))"
      using FramingStream q by simp_all
    obtain n d where d: "on_each_byte heaps now (wrap_stream raw) (l\<lparr>l_counters := c\<rparr>) =
        (case on_frame (heaps n) now raw (l\<lparr>l_counters := c, l_deframer := d\<rparr>) of (ok, l') \<Rightarrow> l'\<lparr>l_deframer := frame_done ok (l_deframer l')\<rparr>)"
      "quiet (l_cfg (l\<lparr>l_counters := c\<rparr>)) (frame_done True d)"
      by (rule on_wrapped_frame [OF fq len, of heaps now])
    have heard: "hear heaps now (finish (l_cfg l) raw) l =
        (on_verified (heaps n) now hdr body (l\<lparr>l_counters := c, l_deframer := d\<rparr>))\<lparr>l_deframer := frame_done True d\<rparr>"
      unfolding hear d(1) frame by simp
    have "quiet (l_cfg l) (frame_done True d)" using d(2) by simp
    from that [OF heard [unfolded raw_def] this] show thesis .
  qed
qed

section \<open>Data and acknowledgements arrive\<close>

text \<open>Two ends in one session, the second able to take the frames of the first.\<close>

definition in_session :: "Link \<Rightarrow> Link \<Rightarrow> bool" where
  "in_session a b \<longleftrightarrow> same_framing (l_cfg a) (l_cfg b) \<and> link_key a = link_key b \<and> l_peer_nonce b = Some (l_nonce a) \<and>
     l_state b = Established \<and> listening b"


definition sample_end :: "u32 \<Rightarrow> u32 \<Rightarrow> TxQueue \<Rightarrow> Link" where
  "sample_end nonce peer tx = (link_new KSelectiveRepeat (sample_cfg\<lparr>c_max_payload := 4\<rparr>) nonce)
     \<lparr>l_peer_nonce := Some peer, l_state := Established, l_tx := tx\<rparr>"

lemma sample_in_session: "1 \<le> x \<Longrightarrow> 1 \<le> y \<Longrightarrow> in_session (sample_end x y tx) (sample_end y x tx')"
proof -
  assume "1 \<le> x" "1 \<le> y"
  then have "max x 1 = x" "max y 1 = y" by (simp_all add: max_def)
  then have nonce: "l_nonce (sample_end x y tx) = x" "l_nonce (sample_end y x tx') = y"
    by (simp_all add: sample_end_def link_new_def Let_def)
  have esc: "c_escape_ff (sample_cfg\<lparr>c_max_payload := 4\<rparr>)" by (simp add: sample_cfg_def)
  have "listening (sample_end y x tx')" using link_new_fields(1) [OF esc] by (simp add: sample_end_def listening_def)
  moreover have "same_framing (l_cfg (sample_end x y tx)) (l_cfg (sample_end y x tx'))"
    using esc link_new_fields(5) [OF esc] by (simp add: same_framing_def sample_end_def)
  ultimately show ?thesis
    using nonce by (simp add: in_session_def link_key_def) (simp add: sample_end_def xor.commute)
qed


end
