(* ===== verification/Link_Log.thy ===== *)
theory Link_Log
  imports Link_Session
begin

text \<open>
  Firmware logging, \<^verbatim>\<open>lp-base/lp-link/src/log_ring.rs\<close> and \<^verbatim>\<open>Link::pump_log\<close>: a byte ring of length-prefixed records that
  drops its oldest records for new ones and reports how many it dropped. The ring refines a list of records with
  a count; moving records into the log channel ends and stops only when the channel is full or the ring is empty.
\<close>

section \<open>Definitions\<close>

definition LEVEL_NOTICE :: u8 where
  "LEVEL_NOTICE = 0"

definition MAX_RECORD_TEXT :: nat where
  "MAX_RECORD_TEXT = 200"

record LogRing =
  lr_buf :: "u8 list"
  lr_head :: nat
  lr_len :: nat
  lr_dropped :: u32
  lr_dropped_total :: u32

definition lr_new :: "nat \<Rightarrow> LogRing" where
  "lr_new n = \<lparr>lr_buf = replicate n 0, lr_head = 0, lr_len = 0, lr_dropped = 0, lr_dropped_total = 0\<rparr>"

abbreviation lr_size :: "LogRing \<Rightarrow> nat" where
  "lr_size r \<equiv> length (lr_buf r)"

definition lr_drop_oldest :: "LogRing \<Rightarrow> LogRing" where
  "lr_drop_oldest r =
     (let rec = 2 + unat (lr_buf r ! lr_head r)
      in r\<lparr>lr_head := (lr_head r + rec) mod lr_size r, lr_len := lr_len r - rec,
           lr_dropped := lr_dropped r + 1, lr_dropped_total := lr_dropped_total r + 1\<rparr>)"

definition lr_put :: "u8 \<Rightarrow> LogRing \<Rightarrow> LogRing" where
  "lr_put b r = r\<lparr>lr_buf := (lr_buf r)[(lr_head r + lr_len r) mod lr_size r := b], lr_len := lr_len r + 1\<rparr>"

definition lr_take :: "LogRing \<Rightarrow> u8 \<times> LogRing" where
  "lr_take r = (lr_buf r ! lr_head r, r\<lparr>lr_head := (lr_head r + 1) mod lr_size r, lr_len := lr_len r - 1\<rparr>)"

text \<open>The loop that drops records until there is room; the caller has returned already when the record is longer than the ring.\<close>

function lr_make_room :: "nat \<Rightarrow> LogRing \<Rightarrow> LogRing" where
  "lr_make_room need r =
     (if need \<le> lr_size r \<and> lr_size r - lr_len r < need then lr_make_room need (lr_drop_oldest r) else r)"
  by pat_completeness auto
termination
  by (relation "measure (\<lambda>(need, r). lr_len r)") (auto simp: lr_drop_oldest_def Let_def)

declare lr_make_room.simps [simp del]

definition lr_push :: "u8 \<Rightarrow> u8 list \<Rightarrow> LogRing \<Rightarrow> LogRing" where
  "lr_push level txt r =
     (let txt = take (min (min (length txt) MAX_RECORD_TEXT) (lr_size r - 2)) txt; need = 2 + length txt
      in if need > lr_size r then r
         else let r = lr_make_room need r; r = lr_put (of_nat (length txt)) r; r = lr_put level r
              in fold lr_put txt r)"

text \<open>A fixed line buffer that cuts at its capacity; the formatter hands it one piece after the other.\<close>

definition write_str :: "u8 list \<Rightarrow> u8 list \<Rightarrow> u8 list" where
  "write_str s line = line @ take (MAX_RECORD_TEXT - length line) s"

definition push_fmt :: "u8 \<Rightarrow> u8 list list \<Rightarrow> LogRing \<Rightarrow> LogRing" where
  "push_fmt level pieces r = lr_push level (fold write_str pieces []) r"

fun dec_bytes :: "nat \<Rightarrow> u8 list" where
  "dec_bytes n = (if n < 10 then [of_nat (48 + n)] else dec_bytes (n div 10) @ [of_nat (48 + n mod 10)])"

declare dec_bytes.simps [simp del]

definition ascii :: "string \<Rightarrow> u8 list" where
  "ascii s = map (\<lambda>c. of_nat (of_char c)) s"

definition dropped_notice :: "u32 \<Rightarrow> u8 list" where
  "dropped_notice n = fold write_str [dec_bytes (unat n), ascii '' log records dropped''] []"

definition write_record :: "u8 list \<Rightarrow> u8 \<Rightarrow> u8 list \<Rightarrow> nat \<times> u8 list" where
  "write_record out level txt =
     (let keep = min (length txt) (length out - 1)
      in (1 + keep, [level] @ take keep txt @ drop (1 + keep) out))"

definition pop_into :: "u8 list \<Rightarrow> LogRing \<Rightarrow> (nat \<times> u8 list \<times> LogRing) option" where
  "pop_into out r =
     (if out = [] then None
      else if lr_dropped r > 0 then
        (case write_record out LEVEL_NOTICE (dropped_notice (lr_dropped r)) of (n, out) \<Rightarrow> Some (n, out, r\<lparr>lr_dropped := 0\<rparr>))
      else if lr_len r = 0 then None
      else let (n, r) = lr_take r; n = unat n; (level, r) = lr_take r; out = out[0 := level]; keep = min n (length out - 1);
               (out, r) = fold (\<lambda>i (out, r). let (b, r) = lr_take r in (if i < keep then out[1 + i := b] else out, r)) [0..<n] (out, r)
           in Some (1 + keep, out, r))"

definition lr_is_empty :: "LogRing \<Rightarrow> bool" where
  "lr_is_empty r \<longleftrightarrow> lr_len r = 0 \<and> lr_dropped r = 0"

function lr_walk :: "u8 list \<Rightarrow> nat \<Rightarrow> nat \<Rightarrow> nat \<Rightarrow> nat" where
  "lr_walk buf at left n =
     (if left > 0 then let rec = 2 + unat (buf ! at) in lr_walk buf ((at + rec) mod length buf) (left - rec) (n + 1) else n)"
  by pat_completeness auto
termination
  by (relation "measure (\<lambda>(buf, at, left, n). left)") (auto simp: Let_def)

declare lr_walk.simps [simp del]

definition lr_count :: "LogRing \<Rightarrow> nat" where
  "lr_count r = lr_walk (lr_buf r) (lr_head r) (lr_len r) 0"

text \<open>Moving records into the log channel: each call of the closure writes to the front of a free slot.\<close>

definition log_fill :: "nat \<Rightarrow> LogRing \<Rightarrow> u8 list \<Rightarrow> (nat \<times> u8 list \<times> LogRing) option" where
  "log_fill limit ring slot =
     (case pop_into (take limit slot) ring of
        None \<Rightarrow> None
      | Some (n, out, ring) \<Rightarrow> Some (n, out @ drop limit slot, ring))"

lemma dq_push_with_count: "dq_push_with chan fill q = Some (q', s) \<Longrightarrow> dq_slots q' = dq_slots q \<and> dq_count q' = Suc (dq_count q) \<and> dq_count q < dq_slots q"
  by (auto simp: dq_push_with_def dq_is_full_def Let_def split: if_splits option.splits)

function pump_loop :: "u8 \<Rightarrow> nat \<Rightarrow> DatagramQueue \<Rightarrow> LogRing \<Rightarrow> DatagramQueue \<times> LogRing" where
  "pump_loop channel limit q ring =
     (case dq_push_with channel (log_fill limit ring) q of
        None \<Rightarrow> (q, ring)
      | Some (q, ring) \<Rightarrow> pump_loop channel limit q ring)"
  by pat_completeness auto
termination
  by (relation "measure (\<lambda>(channel, limit, q, ring). dq_slots q - dq_count q)") (auto dest!: dq_push_with_count)

declare pump_loop.simps [simp del]

definition pump_log :: "Micros \<Rightarrow> LogRing \<Rightarrow> u8 \<Rightarrow> Link \<Rightarrow> LogRing \<times> Link" where
  "pump_log now ring channel l =
     (if l_state l \<noteq> Established \<or> is_stalled now l then (ring, l)
      else case pump_loop channel (l_tx_payload l) (l_datagrams l) ring of (q, ring) \<Rightarrow> (ring, l\<lparr>l_datagrams := q\<rparr>))"

section \<open>The ring as a list of records\<close>

type_synonym log_record = "u8 \<times> u8 list"

definition enc_record :: "log_record \<Rightarrow> u8 list" where
  "enc_record x = (case x of (level, txt) \<Rightarrow> of_nat (length txt) # level # txt)"

fun parse_records :: "u8 list \<Rightarrow> log_record list" where
  "parse_records (n # level # bs) = (level, take (unat n) bs) # parse_records (drop (unat n) bs)"
| "parse_records _ = []"

definition record_bytes :: "log_record list \<Rightarrow> nat" where
  "record_bytes xs = sum_list (map (\<lambda>x. 2 + length (snd x)) xs)"

text \<open>The newest records that fit.\<close>

fun newest :: "nat \<Rightarrow> log_record list \<Rightarrow> log_record list" where
  "newest room [] = []"
| "newest room (x # xs) = (if record_bytes (x # xs) \<le> room then x # xs else newest room xs)"

definition log_abs :: "LogRing \<Rightarrow> log_record list \<times> u32" where
  "log_abs r = (parse_records (ring_list (lr_buf r) (lr_head r) (lr_len r)), lr_dropped r)"

definition log_spec_push :: "nat \<Rightarrow> log_record \<Rightarrow> log_record list \<times> u32 \<Rightarrow> log_record list \<times> u32" where
  "log_spec_push n x a =
     (case (x, a) of ((level, txt), (xs, dropped)) \<Rightarrow>
        if n < 2 then a
        else let txt = take (min MAX_RECORD_TEXT (n - 2)) txt; kept = newest (n - 2 - length txt) xs
             in (kept @ [(level, txt)], dropped + of_nat (length xs - length kept)))"

definition log_spec_pop :: "nat \<Rightarrow> log_record list \<times> u32 \<Rightarrow> (u8 list \<times> log_record list \<times> u32) option" where
  "log_spec_pop room a =
     (case a of (xs, dropped) \<Rightarrow>
        if room = 0 then None
        else if dropped > 0 then Some (LEVEL_NOTICE # take (room - 1) (dropped_notice dropped), xs, 0)
        else case xs of [] \<Rightarrow> None | (level, txt) # xs \<Rightarrow> Some (level # take (room - 1) txt, xs, 0))"

definition log_ok :: "LogRing \<Rightarrow> log_record list \<Rightarrow> bool" where
  "log_ok r xs \<longleftrightarrow> lr_len r \<le> lr_size r \<and> (0 < lr_size r \<longrightarrow> lr_head r < lr_size r) \<and>
     ring_list (lr_buf r) (lr_head r) (lr_len r) = concat (map enc_record xs) \<and> (\<forall>x \<in> set xs. length (snd x) \<le> MAX_RECORD_TEXT)"

abbreviation lr_bytes :: "LogRing \<Rightarrow> u8 list" where
  "lr_bytes r \<equiv> ring_list (lr_buf r) (lr_head r) (lr_len r)"

subsection \<open>Bytes in and out\<close>

lemma length_enc_record [simp]: "length (enc_record x) = 2 + length (snd x)"
  by (simp add: enc_record_def split: prod.split)

lemma length_enc_records: "length (concat (map enc_record xs)) = record_bytes xs"
  by (induction xs) (simp_all add: record_bytes_def)

lemma parse_enc: "\<forall>x \<in> set xs. length (snd x) \<le> MAX_RECORD_TEXT \<Longrightarrow> parse_records (concat (map enc_record xs)) = xs"
proof (induction xs)
  case (Cons x xs)
  obtain level t where x: "x = (level, t)" by fastforce
  have "unat (of_nat (length t) :: u8) = length t" using Cons.prems x by (simp add: unat_u8_of_nat MAX_RECORD_TEXT_def)
  then show ?case using Cons by (simp add: x enc_record_def)
qed simp

lemma log_ok_len: "log_ok r xs \<Longrightarrow> lr_len r = record_bytes xs"
  unfolding log_ok_def using length_enc_records [of xs] length_ring_list by metis

lemma log_ok_abs: "log_ok r xs \<Longrightarrow> log_abs r = (xs, lr_dropped r)"
  by (simp add: log_ok_def log_abs_def parse_enc)

lemma lr_put_bytes:
  assumes "lr_len r < lr_size r"
  shows "lr_bytes (lr_put b r) = lr_bytes r @ [b]"
  using ring_list_snoc [OF assms] by (simp add: lr_put_def)

lemma lr_put_fields [simp]:
  "lr_size (lr_put b r) = lr_size r" "lr_head (lr_put b r) = lr_head r" "lr_len (lr_put b r) = Suc (lr_len r)"
  "lr_dropped (lr_put b r) = lr_dropped r" "lr_dropped_total (lr_put b r) = lr_dropped_total r"
  by (simp_all add: lr_put_def)

lemma lr_puts:
  "lr_len r + length bs \<le> lr_size r \<Longrightarrow> lr_bytes (fold lr_put bs r) = lr_bytes r @ bs \<and> lr_size (fold lr_put bs r) = lr_size r \<and>
     lr_head (fold lr_put bs r) = lr_head r \<and> lr_len (fold lr_put bs r) = lr_len r + length bs \<and>
     lr_dropped (fold lr_put bs r) = lr_dropped r \<and> lr_dropped_total (fold lr_put bs r) = lr_dropped_total r"
proof (induction bs arbitrary: r)
  case (Cons b bs)
  then have "lr_bytes (lr_put b r) = lr_bytes r @ [b]" by (intro lr_put_bytes) simp
  then show ?case using Cons.IH [of "lr_put b r"] Cons.prems by auto
qed simp

lemma lr_take_bytes:
  assumes "0 < lr_len r" and "lr_len r \<le> lr_size r" and "lr_head r < lr_size r"
  shows "\<exists>r'. lr_take r = (hd (lr_bytes r), r') \<and> lr_bytes r' = tl (lr_bytes r) \<and> lr_len r' = lr_len r - 1 \<and> lr_size r' = lr_size r \<and>
    lr_head r' < lr_size r \<and> lr_dropped r' = lr_dropped r"
proof -
  obtain n where n: "lr_len r = Suc n" using assms(1) by (cases "lr_len r") auto
  have "lr_bytes r = lr_buf r ! lr_head r # ring_list (lr_buf r) (Suc (lr_head r)) n"
    using assms(3) by (simp add: n ring_list_Suc)
  moreover have "ring_list (lr_buf r) ((lr_head r + 1) mod lr_size r) n = ring_list (lr_buf r) (Suc (lr_head r)) n" by simp
  ultimately show ?thesis using assms by (auto simp: lr_take_def n intro!: mod_less_divisor)
qed

lemma lr_drop_bytes:
  assumes "lr_bytes r = of_nat n # level # bs" and "n < 256" and "n \<le> length bs" and "lr_len r \<le> lr_size r" and "lr_head r < lr_size r"
  shows "lr_bytes (lr_drop_oldest r) = drop n bs \<and> lr_len (lr_drop_oldest r) = length bs - n \<and> lr_head (lr_drop_oldest r) < lr_size r"
proof -
  have len: "lr_len r = 2 + length bs" using arg_cong [OF assms(1), of length] by simp
  have "lr_buf r ! lr_head r = lr_bytes r ! 0" using len assms(5) by simp
  then have n: "unat (lr_buf r ! lr_head r) = n" using assms(1,2) by (simp add: unat_u8_of_nat)
  have "ring_list (lr_buf r) (lr_head r + (2 + n)) (lr_len r - (2 + n)) = drop (2 + n) (lr_bytes r)"
    using ring_list_drop [of "2 + n" "lr_len r" "lr_buf r" "lr_head r"] len assms(3) by simp
  then show ?thesis using assms(1,5) len n by (auto simp: lr_drop_oldest_def Let_def intro!: mod_less_divisor)
qed

subsection \<open>Dropping, appending and taking records\<close>

lemma lr_drop_fields [simp]:
  "lr_buf (lr_drop_oldest r) = lr_buf r" "lr_dropped (lr_drop_oldest r) = lr_dropped r + 1"
  "lr_dropped_total (lr_drop_oldest r) = lr_dropped_total r + 1"
  by (simp_all add: lr_drop_oldest_def Let_def)

lemma log_ok_drop:
  assumes "log_ok r (x # xs)"
  shows "log_ok (lr_drop_oldest r) xs"
proof -
  obtain level t where x: "x = (level, t)" by fastforce
  have r: "lr_bytes r = of_nat (length t) # level # t @ concat (map enc_record xs)" "length t \<le> MAX_RECORD_TEXT"
    "lr_len r \<le> lr_size r" "\<forall>x \<in> set xs. length (snd x) \<le> MAX_RECORD_TEXT"
    using assms by (simp_all add: log_ok_def x enc_record_def)
  have "0 < lr_size r" using arg_cong [OF r(1), of length] r(3) by auto
  then have "lr_head r < lr_size r" using assms by (simp add: log_ok_def)
  from lr_drop_bytes [OF r(1) _ _ r(3) this] r(2,3,4) show ?thesis
    using arg_cong [OF r(1), of length] by (auto simp: log_ok_def MAX_RECORD_TEXT_def)
qed

lemma newest_le: "record_bytes (newest room xs) \<le> room"
  by (induction xs) (simp_all add: record_bytes_def)

lemma newest_all: "record_bytes xs \<le> room \<Longrightarrow> newest room xs = xs"
  by (cases xs) simp_all

lemma length_newest: "length (newest room xs) \<le> length xs"
  by (induction xs) auto

lemma make_room_ok:
  "log_ok r xs \<Longrightarrow> need \<le> lr_size r \<Longrightarrow>
     (let r' = lr_make_room need r; kept = newest (lr_size r - need) xs; n = of_nat (length xs - length kept)
      in log_ok r' kept \<and> lr_size r' = lr_size r \<and> lr_dropped r' = lr_dropped r + n \<and> lr_dropped_total r' = lr_dropped_total r + n)"
proof (induction need r arbitrary: xs rule: lr_make_room.induct)
  case (1 need r)
  show ?case
  proof (cases "lr_size r - lr_len r < need")
    case True
    have len: "lr_len r = record_bytes xs" using log_ok_len [OF "1.prems"(1)] .
    then obtain x ys where xs: "xs = x # ys" using True "1.prems"(2) by (cases xs) (auto simp: record_bytes_def)
    have more: "\<not> record_bytes (x # ys) \<le> lr_size r - need" using True len xs "1.prems" by (auto simp: log_ok_def)
    have step: "lr_make_room need r = lr_make_room need (lr_drop_oldest r)"
      using True "1.prems"(2) by (simp add: lr_make_room.simps [of need r])
    have "of_nat (Suc (length ys) - length (newest (lr_size r - need) ys)) =
      (1 :: u32) + of_nat (length ys - length (newest (lr_size r - need) ys))"
      using length_newest [of "lr_size r - need" ys] by (simp add: Suc_diff_le)
    then show ?thesis
      using "1.IH" [OF conjI [OF "1.prems"(2) True] log_ok_drop [OF "1.prems"(1) [unfolded xs]]] "1.prems"(2) more
      by (simp add: step xs Let_def add.assoc)
  next
    case False
    then have "record_bytes xs \<le> lr_size r - need" using log_ok_len [OF "1.prems"(1)] "1.prems" by (auto simp: log_ok_def)
    then show ?thesis using False "1.prems"(1) by (simp add: lr_make_room.simps [of need r] newest_all)
  qed
qed

lemma lr_push_ok:
  assumes "log_ok r xs"
  shows "let a = log_spec_push (lr_size r) (level, bs) (xs, lr_dropped r); r' = lr_push level bs r
    in log_ok r' (fst a) \<and> lr_size r' = lr_size r \<and> lr_dropped r' = snd a"
proof (cases "lr_size r < 2")
  case True
  then show ?thesis using assms by (simp add: lr_push_def log_spec_push_def Let_def)
next
  case False
  define t where "t = take (min MAX_RECORD_TEXT (lr_size r - 2)) bs"
  have t: "take (min (min (length bs) MAX_RECORD_TEXT) (lr_size r - 2)) bs = t"
    by (simp add: t_def min_def)
  have len: "length t \<le> MAX_RECORD_TEXT" "2 + length t \<le> lr_size r" using False by (auto simp: t_def)
  have len_t: "length t = min (length bs) (min MAX_RECORD_TEXT (lr_size r - 2))" by (simp add: t_def)
  define r1 where "r1 = lr_make_room (2 + length t) r"
  define kept where "kept = newest (lr_size r - (2 + length t)) xs"
  have r1: "log_ok r1 kept" "lr_size r1 = lr_size r" "lr_dropped r1 = lr_dropped r + of_nat (length xs - length kept)"
    using make_room_ok [OF assms len(2)] by (simp_all add: r1_def kept_def Let_def)
  have room: "lr_len r1 + length (enc_record (level, t)) \<le> lr_size r1"
    using log_ok_len [OF r1(1)] newest_le [of "lr_size r - (2 + length t)" xs] len(2) r1(2) by (simp add: kept_def)
  have push: "lr_push level bs r = fold lr_put (enc_record (level, t)) r1"
    using len(2) by (simp add: lr_push_def t r1_def enc_record_def Let_def)
  have spec: "log_spec_push (lr_size r) (level, bs) (xs, lr_dropped r) = (kept @ [(level, t)], lr_dropped r + of_nat (length xs - length kept))"
    using False len_t by (simp add: log_spec_push_def t_def [symmetric] kept_def Let_def)
  have "log_ok (fold lr_put (enc_record (level, t)) r1) (kept @ [(level, t)])"
    using lr_puts [OF room] r1(1) room len(1) by (auto simp: log_ok_def)
  then show ?thesis using lr_puts [OF room] r1(2,3) by (simp add: push spec Let_def)
qed

text \<open>The loop that copies the text out while there is room for it.\<close>

abbreviation copy_byte :: "nat \<Rightarrow> nat \<Rightarrow> u8 list \<times> LogRing \<Rightarrow> u8 list \<times> LogRing" where
  "copy_byte keep \<equiv> (\<lambda>i (out, r). let (b, r) = lr_take r in (if i < keep then out[1 + i := b] else out, r))"

lemma copy_bytes:
  assumes "m \<le> lr_len r" and "lr_len r \<le> lr_size r" and "lr_head r < lr_size r" and "keep < length out"
  shows "\<exists>r'. fold (copy_byte keep) [0..<m] (out, r) =
      (take 1 out @ take (min m keep) (lr_bytes r) @ drop (1 + min m keep) out, r') \<and>
    lr_bytes r' = drop m (lr_bytes r) \<and> lr_len r' = lr_len r - m \<and> lr_size r' = lr_size r \<and> lr_head r' < lr_size r \<and>
    lr_dropped r' = lr_dropped r"
  using assms(1)
proof (induction m)
  case 0
  then show ?case using assms by simp
next
  case (Suc m)
  then obtain r1 where r1: "fold (copy_byte keep) [0..<m] (out, r) =
      (take 1 out @ take (min m keep) (lr_bytes r) @ drop (1 + min m keep) out, r1)"
    "lr_bytes r1 = drop m (lr_bytes r)" "lr_len r1 = lr_len r - m" "lr_size r1 = lr_size r" "lr_head r1 < lr_size r" "lr_dropped r1 = lr_dropped r"
    by auto
  have "lr_len r - m \<le> lr_size r" using assms(2) by simp
  then obtain r2 where r2: "lr_take r1 = (lr_bytes r ! m, r2)" "lr_bytes r2 = drop (Suc m) (lr_bytes r)" "lr_len r2 = lr_len r - Suc m"
    "lr_size r2 = lr_size r" "lr_head r2 < lr_size r" "lr_dropped r2 = lr_dropped r"
    using lr_take_bytes [of r1] Suc.prems assms r1 by (auto simp: hd_drop_conv_nth drop_Suc tl_drop)
  have "(take 1 out @ take m (lr_bytes r) @ drop (1 + m) out)[1 + m := b] = take 1 out @ take (Suc m) (lr_bytes r) @ drop (2 + m) out"
    if "m < keep" "b = lr_bytes r ! m" for b
  proof -
    have "drop (1 + m) out = out ! (1 + m) # drop (2 + m) out" using that assms(4) by (simp add: Cons_nth_drop_Suc)
    then show ?thesis using that assms(4) Suc.prems
      by (simp add: list_update_append take_Suc_conv_app_nth del: nth_ring_list)
  qed
  then show ?case using r1(1) r2 by (cases "m < keep") (auto simp: min_def)
qed

lemma write_record_front: "out \<noteq> [] \<Longrightarrow> write_record out level t = (n, out') \<Longrightarrow>
   take n out' = level # take (length out - 1) t \<and> length out' = length out \<and> n \<le> length out"
  by (cases out) (auto simp: write_record_def Let_def min_def)

lemma pop_into_ok:
  assumes "log_ok r xs" and "pop_into out r = p"
  shows "case p of
      None \<Rightarrow> log_spec_pop (length out) (xs, lr_dropped r) = None
    | Some (n, out', r') \<Rightarrow> \<exists>ys. log_spec_pop (length out) (xs, lr_dropped r) = Some (take n out', ys, lr_dropped r') \<and> log_ok r' ys \<and>
        length out' = length out \<and> n \<le> length out \<and> lr_size r' = lr_size r"
proof -
  consider (nil) "out = []" | (notice) "out \<noteq> []" "lr_dropped r > 0" | (empty) "out \<noteq> []" "lr_dropped r = 0" "xs = []"
    | (some) level t ys where "out \<noteq> []" "lr_dropped r = 0" "xs = (level, t) # ys"
    by (metis list.exhaust surj_pair word_neq_0_conv)
  then show ?thesis
  proof cases
    case nil
    then show ?thesis using assms(2) by (auto simp: pop_into_def log_spec_pop_def)
  next
    case notice
    obtain n out' where w: "write_record out LEVEL_NOTICE (dropped_notice (lr_dropped r)) = (n, out')" by fastforce
    then have "p = Some (n, out', r\<lparr>lr_dropped := 0\<rparr>)" using assms(2) notice by (simp add: pop_into_def)
    then show ?thesis using write_record_front [OF notice(1) w] assms(1) notice by (simp add: log_spec_pop_def log_ok_def)
  next
    case empty
    then show ?thesis using assms log_ok_len [OF assms(1)] by (auto simp: pop_into_def log_spec_pop_def record_bytes_def)
  next
    case some
    have r: "lr_bytes r = of_nat (length t) # level # t @ concat (map enc_record ys)" "length t \<le> MAX_RECORD_TEXT"
      "lr_len r \<le> lr_size r" "\<forall>x \<in> set ys. length (snd x) \<le> MAX_RECORD_TEXT"
      using assms(1) by (simp_all add: log_ok_def some enc_record_def)
    have len: "lr_len r = 2 + length t + record_bytes ys" using log_ok_len [OF assms(1)] some by (simp add: record_bytes_def)
    have head: "lr_head r < lr_size r" using assms(1) len r(3) by (auto simp: log_ok_def)
    obtain r1 where r1: "lr_take r = (of_nat (length t), r1)" "lr_bytes r1 = level # t @ concat (map enc_record ys)"
      "lr_len r1 = lr_len r - 1" "lr_size r1 = lr_size r" "lr_head r1 < lr_size r" "lr_dropped r1 = lr_dropped r"
      using lr_take_bytes [of r] len r head by auto
    obtain r2 where r2: "lr_take r1 = (level, r2)" "lr_bytes r2 = t @ concat (map enc_record ys)"
      "lr_len r2 = lr_len r - 2" "lr_size r2 = lr_size r" "lr_head r2 < lr_size r" "lr_dropped r2 = lr_dropped r"
      using lr_take_bytes [of r1] len r r1 by auto
    define keep where "keep = min (length t) (length out - 1)"
    have keep: "keep < length (out[0 := level])" "min (length t) keep = keep" using some(1) by (cases out; simp add: keep_def)+
    obtain r3 where r3: "fold (copy_byte keep) [0..<length t] (out[0 := level], r2) =
        (take 1 (out[0 := level]) @ take keep t @ drop (1 + keep) (out[0 := level]), r3)"
      "lr_bytes r3 = concat (map enc_record ys)" "lr_len r3 = lr_len r - 2 - length t" "lr_size r3 = lr_size r" "lr_head r3 < lr_size r"
      "lr_dropped r3 = lr_dropped r"
      using copy_bytes [of "length t" r2 keep "out[0 := level]"] r2 r(3) len keep by (auto simp: keep_def)
    have "unat (of_nat (length t) :: u8) = length t" using r(2) by (simp add: unat_u8_of_nat MAX_RECORD_TEXT_def)
    then have "p = Some (1 + keep, take 1 (out[0 := level]) @ take keep t @ drop (1 + keep) (out[0 := level]), r3)"
      using assms(2) some len r1(1) r2(1) r3(1) by (simp add: pop_into_def Let_def keep_def)
    moreover have "take 1 (out[0 := level]) = [level]" using some(1) by (cases out) auto
    moreover obtain k where "length out = Suc k" using some(1) by (cases out) auto
    ultimately show ?thesis
      using r3 r(3,4) some len by (auto simp: log_spec_pop_def log_ok_def keep_def min_def)
  qed
qed

lemma walk_ok:
  "ring_list buf at left = concat (map enc_record xs) \<Longrightarrow> left \<le> length buf \<Longrightarrow> at < length buf \<or> left = 0 \<Longrightarrow>
     \<forall>x \<in> set xs. length (snd x) \<le> MAX_RECORD_TEXT \<Longrightarrow> lr_walk buf at left n = n + length xs"
proof (induction xs arbitrary: at left n)
  case Nil
  have "left = 0" using arg_cong [OF Nil.prems(1), of length] unfolding length_ring_list by simp
  then show ?case by (simp add: lr_walk.simps)
next
  case (Cons x xs)
  obtain level t where x: "x = (level, t)" by fastforce
  have len: "left = 2 + length t + record_bytes xs" using arg_cong [OF Cons.prems(1), of length] length_enc_records [of xs] by (simp add: x)
  then have at: "at < length buf" using Cons.prems by auto
  have "buf ! at = ring_list buf at left ! 0" using len at by simp
  then have rec: "unat (buf ! at) = length t" using Cons.prems(1,4) by (simp add: x enc_record_def unat_u8_of_nat MAX_RECORD_TEXT_def)
  have "ring_list buf (at + (2 + length t)) (left - (2 + length t)) = drop (2 + length t) (ring_list buf at left)"
    using ring_list_drop [of "2 + length t" left buf at] len by simp
  then have "ring_list buf ((at + (2 + length t)) mod length buf) (left - (2 + length t)) = concat (map enc_record xs)"
    using Cons.prems(1) by (simp add: x enc_record_def [of "(level, t)"])
  moreover have "(at + (2 + length t)) mod length buf < length buf" using at by (intro mod_less_divisor) linarith
  ultimately have "lr_walk buf ((at + (2 + length t)) mod length buf) (left - (2 + length t)) (n + 1) = n + 1 + length xs"
    using Cons.IH Cons.prems(2,4) by simp
  then show ?case using rec len by (subst lr_walk.simps) (simp add: Let_def)
qed

section \<open>Properties\<close>

inductive log_reach :: "nat \<Rightarrow> LogRing \<Rightarrow> bool" for cap where
  new: "log_reach cap (lr_new cap)"
| push: "log_reach cap r \<Longrightarrow> log_reach cap (lr_push level bs r)"
| pop: "log_reach cap r \<Longrightarrow> pop_into out r = Some (n, out', r') \<Longrightarrow> log_reach cap r'"

lemma log_reach_ok: "log_reach cap r \<Longrightarrow> lr_size r = cap \<and> (\<exists>xs. log_ok r xs)"
proof (induction rule: log_reach.induct)
  case new
  have "log_ok (lr_new cap) []" by (simp add: log_ok_def lr_new_def)
  then show ?case by (auto simp: lr_new_def)
next
  case (push r level bs)
  then show ?case using lr_push_ok [of r _ level bs] by (auto simp: Let_def)
next
  case (pop r out n out' r')
  then obtain xs where "log_ok r xs" by blast
  from pop_into_ok [OF this pop.hyps(2)] pop.IH show ?case by auto
qed

text \<open>C38. The byte ring refines a list of records with a count of dropped ones. Appending cuts the text to what a record and
  the ring can hold, keeps the newest records that leave room for it and counts the others; taking hands out
  the notice about dropped records first and then the oldest record, cut to the buffer it is given, and nothing only
  when there is nothing; the records never need more bytes than the ring has, and walking the ring counts them.\<close>

theorem log_ring_refines:
  assumes "log_reach cap r"
  shows "log_abs (lr_push level bs r) = log_spec_push cap (level, bs) (log_abs r) \<and>
    (case pop_into out r of
       None \<Rightarrow> log_spec_pop (length out) (log_abs r) = None
     | Some (n, out', r') \<Rightarrow> log_spec_pop (length out) (log_abs r) = Some (take n out', log_abs r') \<and> length out' = length out) \<and>
    lr_count r = length (fst (log_abs r)) \<and> record_bytes (fst (log_abs r)) \<le> cap"
proof -
  obtain xs where cap: "lr_size r = cap" and ok: "log_ok r xs" using log_reach_ok [OF assms] by blast
  have "log_abs (lr_push level bs r) = log_spec_push cap (level, bs) (log_abs r)"
    using lr_push_ok [OF ok, of level bs] log_ok_abs [of "lr_push level bs r"] cap
    by (auto simp: log_ok_abs [OF ok] Let_def prod_eq_iff)
  moreover have "case pop_into out r of
       None \<Rightarrow> log_spec_pop (length out) (log_abs r) = None
     | Some (n, out', r') \<Rightarrow> log_spec_pop (length out) (log_abs r) = Some (take n out', log_abs r') \<and> length out' = length out"
    using pop_into_ok [OF ok refl, of out] log_ok_abs by (fastforce simp: log_ok_abs [OF ok] split: option.splits)
  moreover have "lr_count r = length xs"
    using walk_ok [of "lr_buf r" "lr_head r" "lr_len r" xs 0] ok by (auto simp: lr_count_def log_ok_def)
  ultimately show ?thesis using ok log_ok_len [OF ok] cap by (simp add: log_ok_abs [OF ok] log_ok_def)
qed

theorem log_ring_refines_witness:
  "log_abs (lr_push 3 [9, 9] (lr_push 2 [7, 8, 7] (lr_new 8))) = ([(3, [9, 9])], 1) \<and>
   log_abs (lr_push 3 [9, 9] (lr_push 2 [7, 8, 7] (lr_new 8))) = log_spec_push 8 (3, [9, 9]) (log_abs (lr_push 2 [7, 8, 7] (lr_new 8)))"
proof -
  have "log_abs (lr_push 3 [9, 9] (lr_push 2 [7, 8, 7] (lr_new 8))) = ([(3, [9, 9])], 1)" by code_simp
  then show ?thesis using log_ring_refines [OF log_reach.push [OF log_reach.new [of 8]]] by blast
qed

end
