(* ===== verification/Link_Safety.thy ===== *)
theory Link_Safety
  imports Link_Path Link_Wire Link_Log
begin

text \<open>
  Every link that can be reached: its queues, windows and timers stay well formed under all operations, whatever
  arrives; and it never falls silent: once its next deadline has passed it has a frame to send.
\<close>

section \<open>The parts\<close>

subsection \<open>The transmit window\<close>

definition tx_shape :: "nat \<Rightarrow> nat \<Rightarrow> TxQueue \<Rightarrow> bool" where
  "tx_shape window slot_len q \<longleftrightarrow> tx_inv q \<and> tx_window q = window \<and> tx_slot_len q = slot_len"

lemma tx_shape_touched: "tx_shape w n q \<Longrightarrow> touched q q' \<Longrightarrow> tx_shape w n q'"
  using touched_frags [of q q'] by (simp add: tx_shape_def)

lemma tx_shape_clear: "tx_shape w n q \<Longrightarrow> tx_shape w n (tx_clear q)"
  using tx_clear_inv [of q] by (simp add: tx_shape_def) (simp add: tx_clear_def)

lemma tx_shape_ack: "tx_shape w n q \<Longrightarrow> tx_ack_to ack now q = Some (acked, q') \<Longrightarrow> tx_shape w n q'"
proof -
  assume q: "tx_shape w n q" and ack: "tx_ack_to ack now q = Some (acked, q')"
  then have "unat (seq_dist (tx_base q) ack) \<le> length (tx_entries q)" by (auto simp: tx_ack_to_def Let_def split: if_splits)
  from tx_ack_to_frames [OF _ this, of now] q ack show "tx_shape w n q'" by (auto simp: tx_shape_def)
qed

lemma tx_shape_pop: "tx_shape w n q \<Longrightarrow> tx_shape w n (tx_pop_front q)"
  by (cases "tx_entries q") (auto simp: tx_shape_def tx_pop_front_def tx_inv_def)

lemma first_unsent_frame:
  assumes "tx_shape w n q" and "w \<le> 256" and "tx_first_unsent q = Some seq"
  shows "tx_frame_mut seq q \<noteq> None"
proof -
  have len: "length (tx_entries q) \<le> 256" using assms(1,2) by (simp add: tx_shape_def tx_inv_def)
  obtain i where "i < length (tx_entries q)" "seq = tx_base q + of_nat i"
    using assms(3) by (auto simp: tx_first_unsent_def Let_def split: if_splits)
  then show ?thesis using tx_frame_mut_nth [OF _ len] by simp
qed

lemma tx_shape_push:
  assumes "tx_shape w n tx" and "sq_inv pending" and "room \<le> n" and "tx_push_with (cut_into room source pending) tx = Some (seq, tx', q)"
    and "\<And>off m. source \<noteq> None \<Longrightarrow> length (the source off m) = m"
  shows "tx_shape w n tx' \<and> sq_inv q \<and> seq = tx_next_seq tx \<and> tx_base tx' = tx_base tx \<and> length (tx_entries tx') = Suc (length (tx_entries tx))"
proof -
  have inv: "tx_inv tx" "tx_window tx = w" "tx_slot_len tx = n" using assms(1) by (simp_all add: tx_shape_def)
  define slot where "slot = slot_get (tx_slot_len tx) (tx_slab tx) ((tx_head tx + length (tx_entries tx)) mod tx_window tx) (tx_slot_len tx)"
  have full: "\<not> tx_is_full tx" using assms(4) by (auto simp: tx_push_with_def)
  have "cut_into room source pending slot \<noteq> None"
    using assms(4) full by (auto simp: tx_push_with_def slot_def Let_def split: option.splits)
  then obtain t bytes q' where take: "sq_take room source pending = Some (t, bytes, q')" by (auto simp: cut_into_def split: option.splits)
  obtain it pre post where it: "cut_bytes room source it = Some bytes" "t = cut_taken room it" "sq_inv q'"
    using sq_take_items [OF assms(2), of room source] take by (auto split: option.splits)
  have len: "tk_len t = length bytes" "length bytes \<le> room"
    using it(1,2) assms(5) by (cases it; auto simp: cut_taken_def min_def)+
  have slot: "length slot = n" using inv slot_get_length [of "tx_slab tx" "tx_window tx" "tx_slot_len tx"] by (simp add: slot_def tx_inv_def)
  have cut: "cut_into room source pending slot = Some ((tk_chan t, tk_first t, tk_fin t, tk_len t), bytes @ drop (length bytes) slot, q')"
    by (simp add: cut_into_def take)
  have fits: "tk_len t \<le> tx_slot_len tx" "length (bytes @ drop (length bytes) slot) = tx_slot_len tx"
    using len slot assms(3) inv by auto
  obtain tx'' where "tx_push_with (cut_into room source pending) tx = Some (tx_next_seq tx, tx'', q')" "tx_inv tx''" "tx_base tx'' = tx_base tx"
    "tx_frames tx'' = tx_frames tx @ [(tx_new_entry (tk_chan t) (tk_first t) (tk_fin t) (tk_len t), take (tk_len t) (bytes @ drop (length bytes) slot))]"
    "tx_window tx'' = tx_window tx" "tx_slot_len tx'' = tx_slot_len tx"
    by (rule tx_push_with_frames [where fill = "cut_into room source pending", OF inv(1) full cut [unfolded slot_def] fits [unfolded slot_def]])
      (simp add: slot_def)
  then show ?thesis
    using assms(4) it(3) inv length_tx_frames [of tx''] by (simp add: tx_shape_def)
qed

lemma pushed_frame:
  assumes "tx_shape w n tx'" and "w \<le> 256" and "length (tx_entries tx') = Suc (length (tx_entries tx))" and "tx_base tx' = tx_base tx"
  shows "tx_frame_mut (tx_next_seq tx) tx' \<noteq> None"
proof -
  have len: "length (tx_entries tx') \<le> 256" using assms(1,2) by (simp add: tx_shape_def tx_inv_def)
  have "length (tx_entries tx) < length (tx_entries tx')" using assms(3) by simp
  from tx_frame_mut_nth [OF this len] show ?thesis using assms(4) by (simp add: tx_next_seq_def)
qed

subsection \<open>The datagram queue\<close>

definition dq_ok :: "nat \<Rightarrow> nat \<Rightarrow> DatagramQueue \<Rightarrow> bool" where
  "dq_ok slots slot_len q \<longleftrightarrow> 0 < slots \<and> dq_slots q = slots \<and> dq_slot_len q = slot_len \<and> slot_len < 65536 \<and> length (dq_meta q) = slots \<and>
     length (dq_slab q) = slots * slot_len \<and> dq_head q < slots \<and> dq_count q \<le> slots \<and> list_all (\<lambda>m. unat (snd m) \<le> slot_len) (dq_meta q)"

lemma dq_ok_new: "0 < slots \<Longrightarrow> slot_len < 65536 \<Longrightarrow> dq_ok slots slot_len (dq_new slots slot_len)"
  by (simp add: dq_ok_def dq_new_def list_all_iff)

lemma dq_ok_clear: "dq_ok slots n q \<Longrightarrow> dq_ok slots n (dq_clear q)"
  by (simp add: dq_ok_def dq_clear_def)

lemma dq_ok_pop: "dq_ok slots n q \<Longrightarrow> dq_ok slots n (dq_pop_front q)"
  by (auto simp: dq_ok_def dq_pop_front_def)

lemma dq_ok_push_with:
  assumes "dq_ok slots n q" and "dq_push_with chan fill q = Some (q', u)"
    and fill: "\<And>slot k bytes v. length slot = n \<Longrightarrow> fill slot = Some (k, bytes, v) \<Longrightarrow> k \<le> n \<and> length bytes = n"
  shows "dq_ok slots n q'"
proof -
  have q: "length (dq_slab q) = slots * n" "dq_slot_len q = n" "dq_slots q = slots" "0 < slots" "n < 65536" using assms(1) by (simp_all add: dq_ok_def)
  define slot where "slot = (dq_head q + dq_count q) mod dq_slots q"
  have slot: "slot < slots" using q by (simp add: slot_def)
  define old where "old = slot_get (dq_slot_len q) (dq_slab q) slot (dq_slot_len q)"
  have old: "length old = n" using slot_get_length [OF q(1) slot, of n] q(2) by (simp add: old_def)
  obtain k bytes where k: "fill old = Some (k, bytes, u)" and room: "dq_count q < slots"
    and q': "q' = q\<lparr>dq_slab := slot_put (dq_slot_len q) slot bytes (dq_slab q), dq_bytes := dq_bytes q + k,
      dq_meta := (dq_meta q)[slot := (chan, of_nat k)], dq_count := dq_count q + 1\<rparr>"
    using assms(2) q(3) by (auto simp: dq_push_with_def dq_is_full_def Let_def slot_def old_def split: if_splits option.splits)
  have len: "k \<le> n" "length bytes = n" using fill [OF old k] by simp_all
  have small: "unat (of_nat k :: u16) = k" using len(1) q(5) by (intro unat_u16_of_nat) simp
  have slab: "length (slot_put n slot bytes (dq_slab q)) = slots * n"
    using length_slot_put [OF q(1) slot, of bytes] len(2) q(1) by simp
  show ?thesis
    using assms(1) len slab room small q(2)
    by (auto simp: q' dq_ok_def list_all_iff dest!: set_update_subset_insert [THEN subsetD])
qed

lemma dq_ok_push:
  assumes "dq_ok slots n q" and "length data \<le> n"
    and "dq_push_with chan (\<lambda>slot. Some (length data, data @ drop (length data) slot, ())) q = Some (q', u)"
  shows "dq_ok slots n q'"
  using dq_ok_push_with [OF assms(1,3)] assms(2) by auto

text \<open>Whatever the ring holds, a log record moved into a slot fits it.\<close>

lemma pop_into_length: "pop_into out r = Some (n, out', r') \<Longrightarrow> n \<le> length out \<and> length out' = length out"
proof -
  have copy: "length (fst (fold (copy_byte keep) js (o0, r0))) = length o0" for keep js o0 r0
    by (induction js arbitrary: o0 r0) (simp_all add: Let_def case_prod_beta)
  assume pop: "pop_into out r = Some (n, out', r')"
  then have out: "out \<noteq> []" by (auto simp: pop_into_def)
  show ?thesis
  proof (cases "lr_dropped r > 0")
    case True
    then show ?thesis using pop out write_record_front [OF out, of LEVEL_NOTICE "dropped_notice (lr_dropped r)"]
      by (auto simp: pop_into_def split: prod.splits)
  next
    case False
    obtain m r1 where t1: "lr_take r = (m, r1)" by fastforce
    obtain level r2 where t2: "lr_take r1 = (level, r2)" by fastforce
    define keep where "keep = min (unat m) (length out - 1)"
    have "n = 1 + keep \<and> (out', r') = fold (copy_byte keep) [0..<unat m] (out[0 := level], r2)"
      using pop out False by (auto simp: pop_into_def t1 t2 keep_def Let_def split: if_splits prod.splits)
    then show ?thesis using copy [of keep "[0..<unat m]" "out[0 := level]" r2] out
      by (cases out) (auto simp: keep_def dest!: sym [of "(out', r')"])
  qed
qed

lemma dq_ok_pump: "dq_ok slots n q \<Longrightarrow> dq_ok slots n (fst (pump_loop channel limit q ring))"
proof (induction channel limit q ring rule: pump_loop.induct)
  case (1 channel limit q ring)
  have fill: "k \<le> n \<and> length bytes = n" if "length slot = n" "log_fill limit ring slot = Some (k, bytes, v)" for slot k bytes v
    using that by (auto simp: log_fill_def split: option.splits dest!: pop_into_length)
  show ?case
  proof (cases "dq_push_with channel (log_fill limit ring) q")
    case None
    then show ?thesis using "1.prems" by (simp add: pump_loop.simps)
  next
    case (Some s)
    obtain q' ring' where s: "s = (q', ring')" by fastforce
    have "dq_ok slots n q'" using dq_ok_push_with [OF "1.prems" Some [unfolded s] fill] .
    then show ?thesis using "1.IH" [OF Some] Some s by (simp add: pump_loop.simps [of channel limit q])
  qed
qed

section \<open>The invariant of a link\<close>

definition link_ok :: "ArqKind \<Rightarrow> LinkConfig \<Rightarrow> Link \<Rightarrow> bool" where
  "link_ok k cfg l \<longleftrightarrow> l_cfg l = cfg \<and> arq_kind (l_arq l) = k \<and>
     tx_shape (max (shape_tx_window k cfg) 1) (unat (c_max_payload cfg)) (l_tx l) \<and> sq_inv (l_pending l) \<and>
     dq_ok (c_datagram_queue cfg) (unat (c_max_payload cfg)) (l_datagrams l) \<and>
     l_nonce l \<noteq> 0 \<and> l_tx_payload l \<le> unat (c_max_payload cfg) \<and> l_backoff l \<le> 8 \<and>
     (l_state l = Established \<longrightarrow> l_peer_nonce l \<noteq> None \<and> 0 < l_tx_payload l) \<and>
     (l_state l = Connecting \<longrightarrow> l_syn_due l \<noteq> None \<and> tx_is_empty (l_tx l))"

lemma link_ok_upd [simp]:
  "link_ok k cfg (l\<lparr>l_counters := v0\<rparr>) = link_ok k cfg l"
  "link_ok k cfg (l\<lparr>l_inbox := v1\<rparr>) = link_ok k cfg l"
  "link_ok k cfg (l\<lparr>l_rtt := v2\<rparr>) = link_ok k cfg l"
  "link_ok k cfg (l\<lparr>l_send_order := v3\<rparr>) = link_ok k cfg l"
  "link_ok k cfg (l\<lparr>l_data_run := v4\<rparr>) = link_ok k cfg l"
  "link_ok k cfg (l\<lparr>l_dgram_tx_seq := v5\<rparr>) = link_ok k cfg l"
  "link_ok k cfg (l\<lparr>l_dgram_rx_next := v6\<rparr>) = link_ok k cfg l"
  "link_ok k cfg (l\<lparr>l_deframer := v7\<rparr>) = link_ok k cfg l"
  "link_ok k cfg (l\<lparr>l_peer_win := v8\<rparr>) = link_ok k cfg l"
  "link_ok k cfg (l\<lparr>l_ack_due := v9\<rparr>) = link_ok k cfg l"
  "link_ok k cfg (l\<lparr>l_ack_explicit := v10\<rparr>) = link_ok k cfg l"
  "link_ok k cfg (l\<lparr>l_ack_trigger := v11\<rparr>) = link_ok k cfg l"
  "link_ok k cfg (l\<lparr>l_unacked_rx := v12\<rparr>) = link_ok k cfg l"
  "link_ok k cfg (l\<lparr>l_last_adv_win := v13\<rparr>) = link_ok k cfg l"
  "link_ok k cfg (l\<lparr>l_syn_doublings := v14\<rparr>) = link_ok k cfg l"
  "link_ok k cfg (l\<lparr>l_syn_owed := v15\<rparr>) = link_ok k cfg l"
  "link_ok k cfg (l\<lparr>l_probe_armed := v16\<rparr>) = link_ok k cfg l"
  "link_ok k cfg (l\<lparr>l_last_data_tx := v17\<rparr>) = link_ok k cfg l"
  "link_ok k cfg (l\<lparr>l_last_tx := v18\<rparr>) = link_ok k cfg l"
  "link_ok k cfg (l\<lparr>l_last_rx := v19\<rparr>) = link_ok k cfg l"
  "link_ok k cfg (l\<lparr>l_peer_max_payload := v20\<rparr>) = link_ok k cfg l"
  "link_ok k cfg (l\<lparr>l_peer_rx_window := v21\<rparr>) = link_ok k cfg l"
  "link_ok k cfg (l\<lparr>l_prev_key := v22\<rparr>) = link_ok k cfg l"
  "link_ok k cfg (l\<lparr>l_generation := v23\<rparr>) = link_ok k cfg l"
  by (simp_all add: link_ok_def)

definition cfg_ok :: "LinkConfig \<Rightarrow> bool" where
  "cfg_ok cfg \<longleftrightarrow> cfg_validate cfg = Inr () \<and> 0 < c_send_budget cfg"

lemma cfg_okD: "cfg_ok cfg \<Longrightarrow> c_max_payload cfg \<noteq> 0 \<and> 0 < c_send_queue cfg \<and> 0 < c_datagram_queue cfg \<and> 0 < c_send_budget cfg"
  by (simp add: cfg_ok_def validated)

lemma small_payload: "unat (c_max_payload cfg) < 65536"
  using unsigned_less [of "c_max_payload cfg"] by simp

lemma arq_kind_new [simp]: "arq_kind (arq_new k w n) = k"
  by (cases k) simp_all

lemma arq_kind_reset [simp]: "arq_kind (arq_reset a) = arq_kind a"
  by (cases a) simp_all

lemma arq_kind_on_data: "arq_on_data h seq f a i = (v, a', i') \<Longrightarrow> arq_kind a' = arq_kind a"
  by (cases a) (auto split: prod.splits)

lemma arq_kind_drain: "arq_drain h a i = (n, a', i') \<Longrightarrow> arq_kind a' = arq_kind a"
  by (cases a) (auto split: prod.splits)

lemma max_nonce: "max x 1 \<noteq> (0 :: u32)"
  by (auto simp: max_def)

lemma tx_new_fields [simp]:
  "tx_window (tx_new w n) = max w 1" "tx_slot_len (tx_new w n) = n" "tx_entries (tx_new w n) = []"
  by (simp_all add: tx_new_def Let_def)

lemma link_ok_new: "cfg_ok cfg \<Longrightarrow> link_ok k cfg (link_new k cfg n)"
  using cfg_okD [of cfg] tx_new_inv [OF small_payload, of "shape_tx_window k cfg" cfg] sq_new_items [of "c_send_budget cfg" "c_send_queue cfg"]
    dq_ok_new [OF _ small_payload, of "c_datagram_queue cfg" cfg] max_nonce [of n]
  by (simp add: link_ok_def link_new_def tx_shape_def tx_is_empty_def Let_def)

lemma link_ok_establish:
  assumes "cfg_ok cfg" and "link_ok k cfg l" and "l_peer_nonce l \<noteq> None"
  shows "link_ok k cfg (establish now l)"
proof -
  have "0 < unat (c_max_payload cfg)" using cfg_okD [OF assms(1)] by (simp add: unat_gt_0)
  then have "unat (max (min (c_max_payload cfg) (l_peer_max_payload l)) 1) \<le> unat (c_max_payload cfg)"
    "0 < unat (max (min (c_max_payload cfg) (l_peer_max_payload l)) 1)"
    by (auto simp: max_def min_def word_le_nat_alt)
  then show ?thesis using assms(2,3) by (simp add: establish_def link_ok_def)
qed

lemma link_ok_reset: "link_ok k cfg l \<Longrightarrow> link_ok k cfg (link_reset now why l)"
  using tx_shape_clear [of _ _ "l_tx l"] sq_clear_items [of "l_pending l"] dq_ok_clear [of _ _ "l_datagrams l"]
    max_nonce
  by (simp add: link_reset_def Let_def link_ok_def tx_is_empty_def next_nonce_def) (simp add: tx_clear_def)

lemma link_ok_protocol_error: "link_ok k cfg l \<Longrightarrow> link_ok k cfg (protocol_error l)"
  by (simp add: protocol_error_def Let_def link_ok_reset)

section \<open>Receiving\<close>

lemma link_ok_on_syn:
  assumes "cfg_ok cfg" and "link_ok k cfg l"
  shows "link_ok k cfg (on_syn now syn l)"
proof -
  define l1 where "l1 = l\<lparr>l_peer_max_payload := s_max_payload syn, l_peer_rx_window := s_rx_window syn\<rparr>"
  have ok: "link_ok k cfg l1" using assms(2) by (simp add: l1_def)
  have peer: "link_ok k cfg (x\<lparr>l_peer_nonce := Some p\<rparr>)" if "link_ok k cfg x" for x p
    using that by (simp add: link_ok_def)
  have due: "link_ok k cfg (x\<lparr>l_syn_due := Some t\<rparr>)" if "link_ok k cfg x" for x t
    using that by (simp add: link_ok_def)
  show ?thesis
    unfolding on_syn_def Let_def l1_def [symmetric]
    using ok by (cases "l_state l1") (simp_all add: peer due link_ok_reset link_ok_establish [OF assms(1) peer])
qed

lemma link_ok_on_data:
  assumes "link_ok k cfg l"
  shows "link_ok k cfg (on_data h now hdr body l)"
proof -
  obtain v arq inbox where r: "arq_on_data h (h_seq hdr) \<lparr>f_chan = h_chan hdr, f_first = h_first hdr, f_fin = h_fin hdr, f_data = body\<rparr>
      (l_arq l) (l_inbox l) = (v, arq, inbox)" by (metis prod.exhaust)
  have "link_ok k cfg (l\<lparr>l_arq := arq\<rparr>)" using assms arq_kind_on_data [OF r] by (simp add: link_ok_def)
  then show ?thesis
    by (cases v) (simp_all add: on_data_def r Let_def link_ok_protocol_error)
qed

lemma link_ok_tx: "link_ok k cfg l \<Longrightarrow> tx_shape (max (shape_tx_window k cfg) 1) (unat (c_max_payload cfg)) tx \<Longrightarrow>
   tx_is_empty (l_tx l) \<longrightarrow> tx_is_empty tx \<Longrightarrow> link_ok k cfg (l\<lparr>l_tx := tx\<rparr>)"
  by (auto simp: link_ok_def)

lemma link_ok_touched: "link_ok k cfg l \<Longrightarrow> touched (l_tx l) tx \<Longrightarrow> link_ok k cfg (l\<lparr>l_tx := tx\<rparr>)"
proof (rule link_ok_tx)
  assume ok: "link_ok k cfg l" and t: "touched (l_tx l) tx"
  show "tx_shape (max (shape_tx_window k cfg) 1) (unat (c_max_payload cfg)) tx"
    using ok tx_shape_touched [OF _ t] by (simp add: link_ok_def)
  show "tx_is_empty (l_tx l) \<longrightarrow> tx_is_empty tx" using t by (auto simp: tx_is_empty_def touched_def)
qed

lemma tx_ack_empty: "tx_ack_to ack now q = Some (acked, q') \<Longrightarrow> tx_is_empty q \<Longrightarrow> tx_is_empty q'"
  by (auto simp: tx_ack_to_def Let_def tx_is_empty_def split: if_splits option.splits)

lemma link_ok_on_ack:
  assumes "link_ok k cfg l"
  shows "link_ok k cfg (snd (on_ack_fields now hdr sack trigger l))"
proof (cases "arq_reliable (l_arq l)")
  case True
  show ?thesis
  proof (cases "tx_ack_to (h_ack hdr) now (l_tx l)")
    case None
    then show ?thesis using True assms by (simp add: on_ack_fields_def Let_def link_ok_protocol_error)
  next
    case (Some r)
    obtain acked tx where r: "r = (acked, tx)" by fastforce
    have l1: "link_ok k cfg (l\<lparr>l_tx := tx\<rparr>)"
      using assms Some r tx_shape_ack tx_ack_empty by (intro link_ok_tx) (auto simp: link_ok_def)
    define l2 where "l2 = (let l = l\<lparr>l_tx := tx\<rparr>; l = (if acked_frames acked > 0 then l\<lparr>l_probe_armed := True\<rparr> else l);
        l = (case rtt_sample acked of Some r \<Rightarrow> l\<lparr>l_backoff := 0, l_rtt := rtt_add r (l_rtt l)\<rparr> | None \<Rightarrow> l)
      in l\<lparr>l_peer_win := h_win hdr\<rparr>)"
    have "link_ok k cfg (x\<lparr>l_backoff := 0\<rparr>)" if "link_ok k cfg x" for x using that by (simp add: link_ok_def)
    then have l2: "link_ok k cfg l2" using l1 by (cases "rtt_sample acked") (simp_all add: l2_def Let_def)
    define fb where "fb = \<lparr>fb_sack = sack, fb_trigger = trigger, fb_now = now, fb_srtt = rtt_smoothed (l_rtt l2),
      fb_reorder_threshold = c_reorder_threshold (l_cfg l2)\<rparr>"
    obtain n tx' where fbk: "arq_on_feedback (l_arq l2) fb (l_tx l2) = (n, tx')" by fastforce
    have "link_ok k cfg (l2\<lparr>l_tx := tx'\<rparr>)"
      using link_ok_touched [OF l2] touched_feedback [of "l_tx l2" "l_arq l2" fb] fbk by simp
    moreover have "snd (on_ack_fields now hdr sack trigger l) =
      count (\<lambda>c. c\<lparr>ct_fast_retransmits := ct_fast_retransmits c + of_nat n\<rparr>) (l2\<lparr>l_tx := tx'\<rparr>)"
      using True fbk unfolding on_ack_fields_def Some r fb_def l2_def Let_def by simp
    ultimately show ?thesis by simp
  qed
qed (simp add: on_ack_fields_def assms)

lemma link_ok_on_datagram_frame: "link_ok k cfg l \<Longrightarrow> link_ok k cfg (on_datagram_frame hdr body l)"
  by (simp add: on_datagram_frame_def Let_def)

lemma link_ok_on_verified:
  assumes "cfg_ok cfg" and "link_ok k cfg l" and "l_peer_nonce l \<noteq> None"
  shows "link_ok k cfg (on_verified h now hdr body l)"
proof -
  define l0 where "l0 = (count (\<lambda>c. c\<lparr>ct_frames_rx := ct_frames_rx c + 1\<rparr>) l)\<lparr>l_last_rx := now\<rparr>"
  define l1 where "l1 = (if l_state l0 = Connecting then establish now l0 else l0)"
  have "link_ok k cfg l0" "l_peer_nonce l0 \<noteq> None" using assms(2,3) by (simp_all add: l0_def)
  then have l1: "link_ok k cfg l1" using link_ok_establish [OF assms(1)] by (simp add: l1_def)
  obtain go l2 where a: "on_ack_fields now hdr 0 None l1 = (go, l2)" by fastforce
  have l2: "link_ok k cfg l2" using link_ok_on_ack [OF l1, of now hdr 0 None] by (simp add: a)
  show ?thesis
    unfolding on_verified_def Let_def l0_def [symmetric] l1_def [symmetric] a
    using l1 l2 link_ok_on_ack [OF l1]
    by (cases "h_kind hdr") (simp_all add: link_ok_on_data link_ok_on_datagram_frame)
qed

lemma link_ok_on_frame:
  assumes "cfg_ok cfg" and "link_ok k cfg l"
  shows "link_ok k cfg (snd (on_frame h now raw l))"
proof (cases "header_parse raw")
  case (Some hdr)
  show ?thesis
  proof (cases "h_kind hdr = Syn")
    case True
    then show ?thesis
      using assms by (cases "Option.bind (verify (c_crc (l_cfg l)) 0 raw) syn_parse") (simp_all add: on_frame_def Some Let_def link_ok_on_syn)
  next
    case False
    show ?thesis
    proof (cases "l_peer_nonce l")
      case None
      then show ?thesis using assms False by (simp add: on_frame_def Some Let_def)
    next
      case (Some peer)
      then show ?thesis
        using assms False \<open>header_parse raw = Some hdr\<close> link_ok_on_verified [OF assms]
        by (cases "verify (c_crc (l_cfg l)) (l_nonce l XOR peer) raw") (simp_all add: on_frame_def Let_def)
    qed
  qed
qed (simp add: on_frame_def assms)

lemma link_ok_flush_text: "link_ok k cfg l \<Longrightarrow> link_ok k cfg (flush_text l)"
  by (simp add: flush_text_def Let_def split: prod.split)

lemma link_ok_on_byte:
  assumes "cfg_ok cfg" and "link_ok k cfg l"
  shows "link_ok k cfg (on_byte h now b l)"
proof -
  obtain what d where push: "deframer_push now b (l_deframer l) = (what, d)" by fastforce
  have ok: "link_ok k cfg (l\<lparr>l_deframer := d\<rparr>)" using assms(2) by simp
  show ?thesis
  proof (cases "what = DFrame")
    case True
    define r where "r = (case unwrap_body (l_cfg (l\<lparr>l_deframer := d\<rparr>)) (d_buf d) of Inr raw \<Rightarrow> on_frame h now raw (l\<lparr>l_deframer := d\<rparr>)
      | Inl _ \<Rightarrow> (False, count (\<lambda>c. c\<lparr>ct_bad_frames := ct_bad_frames c + 1\<rparr>) (l\<lparr>l_deframer := d\<rparr>)))"
    have "link_ok k cfg (snd r)"
      using ok link_ok_on_frame [OF assms(1) ok]
      by (cases "unwrap_body (l_cfg (l\<lparr>l_deframer := d\<rparr>)) (d_buf d)") (simp_all add: r_def)
    moreover have "on_byte h now b l = (snd r)\<lparr>l_deframer := frame_done (fst r) (l_deframer (snd r))\<rparr>"
      unfolding on_byte_def push True Let_def r_def by (simp add: case_prod_beta)
    ultimately show ?thesis by simp
  next
    case False
    then show ?thesis using ok by (cases what) (simp_all add: on_byte_def push Let_def link_ok_flush_text)
  qed
qed

lemma link_ok_on_each_byte: "cfg_ok cfg \<Longrightarrow> link_ok k cfg l \<Longrightarrow> link_ok k cfg (on_each_byte heaps now bs l)"
  by (induction bs arbitrary: heaps l) (simp_all add: link_ok_on_byte)

lemma link_ok_heard: "link_ok k cfg l \<Longrightarrow> link_ok k cfg (heard_while_connecting now l)"
  by (simp add: heard_while_connecting_def Let_def link_ok_def)

lemma link_ok_on_bytes: "cfg_ok cfg \<Longrightarrow> link_ok k cfg l \<Longrightarrow> link_ok k cfg (on_bytes heaps now bytes l)"
  by (simp add: on_bytes_def Let_def link_ok_on_each_byte link_ok_heard)

lemma link_ok_on_datagram: "cfg_ok cfg \<Longrightarrow> link_ok k cfg l \<Longrightarrow> link_ok k cfg (on_datagram h now frame l)"
  by (simp add: on_datagram_def Let_def link_ok_on_frame link_ok_heard)

section \<open>Sending\<close>

lemma link_ok_pending: "link_ok k cfg l \<Longrightarrow> sq_inv q \<Longrightarrow> link_ok k cfg (l\<lparr>l_pending := q\<rparr>)"
  by (simp add: link_ok_def)

lemma link_ok_datagrams:
  "link_ok k cfg l \<Longrightarrow> dq_ok (c_datagram_queue cfg) (unat (c_max_payload cfg)) q \<Longrightarrow> link_ok k cfg (l\<lparr>l_datagrams := q\<rparr>)"
  by (simp add: link_ok_def)

lemma link_ok_parts: "link_ok k cfg l \<Longrightarrow> sq_inv (l_pending l) \<and> l_cfg l = cfg \<and>
   dq_ok (c_datagram_queue cfg) (unat (c_max_payload cfg)) (l_datagrams l)"
  by (simp add: link_ok_def)

lemma link_ok_send:
  assumes "link_ok k cfg l"
  shows "link_ok k cfg (snd (link_send channel payload l))"
proof -
  note parts = link_ok_parts [OF assms]
  show ?thesis
  proof (cases "is_reliable cfg channel")
    case True
    then show ?thesis
      using assms parts sq_push_items [of "l_pending l" channel payload]
      by (cases "sq_push channel payload (l_pending l)") (auto simp: link_send_def Let_def intro: link_ok_pending)
  next
    case False
    show ?thesis
    proof (cases "length payload > unat (c_max_payload cfg) \<or>
        dq_push_with channel (\<lambda>slot. Some (length payload, payload @ drop (length payload) slot, ())) (l_datagrams l) = None")
      case True
      then show ?thesis using False assms parts by (auto simp: link_send_def Let_def split: option.split)
    next
      case c: False
      then obtain q u where "dq_push_with channel (\<lambda>slot. Some (length payload, payload @ drop (length payload) slot, ())) (l_datagrams l) = Some (q, u)"
        by auto
      with c False assms parts dq_ok_push [of _ _ "l_datagrams l" payload channel q u] show ?thesis
        by (auto simp: link_send_def Let_def intro: link_ok_datagrams)
    qed
  qed
qed

lemma link_ok_send_external: "link_ok k cfg l \<Longrightarrow> link_ok k cfg (snd (send_external channel len l))"
  using sq_push_external_items [of "l_pending l" channel len] link_ok_parts [of k cfg l]
  by (auto simp: send_external_def split: option.split intro: link_ok_pending)

lemma link_ok_cancel: "link_ok k cfg l \<Longrightarrow> link_ok k cfg (snd (cancel_external l))"
  using sq_cancel_external_items [of "l_pending l"] link_ok_parts [of k cfg l]
  by (auto simp: cancel_external_def split: prod.split intro: link_ok_pending)

lemma link_ok_recv:
  assumes "link_ok k cfg l" and "link_recv heaps l = Some (ev, l')"
  shows "link_ok k cfg l'"
proof -
  obtain inbox where pop: "inbox_pop (l_inbox l) = Some (ev, inbox)"
    using assms(2) by (auto simp: link_recv_def Let_def split: option.splits prod.splits)
  obtain n arq inbox' where d: "arq_drain heaps (l_arq l) inbox = (n, arq, inbox')" by (metis prod.exhaust)
  have ok: "link_ok k cfg (l\<lparr>l_arq := arq\<rparr>)" using assms(1) arq_kind_drain [OF d] by (simp add: link_ok_def)
  define l1 where "l1 = count (\<lambda>c. c\<lparr>ct_oversize_messages := of_nat (in_oversize inbox')\<rparr>) (l\<lparr>l_arq := arq, l_inbox := inbox'\<rparr>)"
  have l1: "link_ok k cfg l1" using ok by (simp add: l1_def)
  define l2 where "l2 = (case n of None \<Rightarrow> protocol_error l1 | Some n \<Rightarrow> if n = 0 then l1 else l1\<lparr>l_ack_due := Some 0\<rparr>)"
  have "link_ok k cfg l2" using l1 by (cases n) (simp_all add: l2_def link_ok_protocol_error)
  moreover have "l' = (if l_state l2 = Established \<and> l_last_adv_win l2 = 0 \<and> adv_window l2 > 0 then l2\<lparr>l_ack_due := Some 0\<rparr> else l2)"
    using assms(2) unfolding link_recv_def pop option.case prod.case d Let_def l1_def [symmetric] l2_def [symmetric] by simp
  ultimately show ?thesis by simp
qed

lemma link_header_snd: "link_ok k cfg (snd (link_header kind chan l)) = link_ok k cfg l" "l_tx (snd (link_header kind chan l)) = l_tx l"
  by (simp_all add: link_header_def Let_def)

lemma emit_datagram_none: "emit_datagram l = (None, l') \<Longrightarrow> \<exists>c q. l' = l\<lparr>l_counters := c, l_datagrams := q\<rparr>"
proof (induction l rule: emit_datagram.induct)
  case (1 l)
  show ?case
  proof (cases "dq_front (l_datagrams l)")
    case None
    then have "l' = l\<lparr>l_counters := l_counters l, l_datagrams := l_datagrams l\<rparr>" using "1.prems" by (simp add: emit_datagram.simps [of l])
    then show ?thesis by blast
  next
    case (Some r)
    obtain chan data where r: "r = (chan, data)" by fastforce
    show ?thesis
    proof (cases "length data > l_tx_payload l")
      case True
      define l1 where "l1 = count (\<lambda>c. c\<lparr>ct_datagrams_dropped := ct_datagrams_dropped c + 1\<rparr>) (l\<lparr>l_datagrams := dq_pop_front (l_datagrams l)\<rparr>)"
      have "emit_datagram l1 = (None, l')" using "1.prems" Some r True by (simp add: emit_datagram.simps [of l] l1_def)
      from "1.IH" [OF Some r [symmetric] True, folded l1_def, OF this] obtain c q where "l' = l1\<lparr>l_counters := c, l_datagrams := q\<rparr>"
        by blast
      then have "l' = l\<lparr>l_counters := c, l_datagrams := q\<rparr>" by (simp add: l1_def)
      then show ?thesis by blast
    next
      case False
      then show ?thesis using "1.prems" Some r by (simp add: emit_datagram.simps [of l] Let_def split: prod.splits)
    qed
  qed
qed

lemma link_ok_emit_datagram: "link_ok k cfg l \<Longrightarrow> link_ok k cfg (snd (emit_datagram l))"
proof (induction l rule: emit_datagram.induct)
  case (1 l)
  have pop: "link_ok k cfg (l\<lparr>l_datagrams := dq_pop_front (l_datagrams l)\<rparr>)"
    using "1.prems" dq_ok_pop by (auto simp: link_ok_def)
  show ?case
  proof (cases "dq_front (l_datagrams l)")
    case None
    then show ?thesis using "1.prems" by (simp add: emit_datagram.simps [of l])
  next
    case (Some r)
    obtain chan data where r: "r = (chan, data)" by fastforce
    show ?thesis
    proof (cases "length data > l_tx_payload l")
      case True
      then show ?thesis using "1.IH" [OF Some r [symmetric] True] pop Some r by (simp add: emit_datagram.simps [of l])
    next
      case False
      then have "snd (emit_datagram l) = (let l = snd (link_header Datagram chan l); l = l\<lparr>l_dgram_tx_seq := l_dgram_tx_seq l + 1\<rparr>
        in l\<lparr>l_datagrams := dq_pop_front (l_datagrams l), l_data_run := 0\<rparr>)"
        using Some r by (simp add: emit_datagram.simps [of l] Let_def case_prod_beta)
      moreover have "dq_ok (c_datagram_queue cfg) (unat (c_max_payload cfg)) (dq_pop_front (l_datagrams l))"
        using "1.prems" dq_ok_pop link_ok_parts by blast
      ultimately show ?thesis using "1.prems" by (simp add: Let_def link_header_def link_ok_datagrams)
    qed
  qed
qed

lemma link_ok_pump: "link_ok k cfg l \<Longrightarrow> link_ok k cfg (snd (pump_log now ring channel l))"
  using dq_ok_pump [of _ _ "l_datagrams l" channel "l_tx_payload l" ring]
  by (auto simp: pump_log_def link_ok_def split: prod.splits)

subsection \<open>Choosing a frame\<close>

lemma let_eq: "x = y \<Longrightarrow> f y = r \<Longrightarrow> Let x f = r"
  by simp

lemma emit_data_frame:
  assumes "tx_frame_mut seq (l_tx l) = Some (e, payload)"
  shows "fst (emit_data now seq l) \<noteq> None" and "link_ok k cfg l \<Longrightarrow> link_ok k cfg (snd (emit_data now seq l))"
proof -
  obtain hdr l0 where h: "link_header Data 0 l = (hdr, l0)" by fastforce
  define l1 where "l1 = l0\<lparr>l_send_order := l_send_order l0 + 1\<rparr>"
  define l2 where "l2 = l1\<lparr>l_tx := tx_update seq (mark_sent now (l_send_order l1)) (l_tx l1)\<rparr>"
  define l3 where "l3 = (if te_sends (mark_sent now (l_send_order l2) e) > 1
    then count (\<lambda>c. c\<lparr>ct_retransmits := ct_retransmits c + 1\<rparr>) l2 else l2\<lparr>l_probe_armed := True\<rparr>)"
  define l4 where "l4 = count (\<lambda>c. c\<lparr>ct_data_frames_tx := ct_data_frames_tx c + 1\<rparr>) l3"
  define l5 where "l5 = l4\<lparr>l_last_data_tx := now, l_data_run := sat_inc (l_data_run l4)\<rparr>"
  have l0: "l0 = snd (link_header Data 0 l)" by (simp add: h)
  have tx: "l_tx l1 = l_tx l" by (simp add: l1_def l0 link_header_def Let_def)
  have emit: "emit_data now seq l = (Some (finish (l_cfg (if \<not> arq_reliable (l_arq l5) then l5\<lparr>l_tx := tx_pop_front (l_tx l5)\<rparr> else l5))
      (encode_raw (c_crc (l_cfg l5)) (link_key l5) (hdr\<lparr>h_chan := te_chan e, h_first := te_first e, h_fin := te_fin e, h_seq := seq\<rparr>) payload)),
      if \<not> arq_reliable (l_arq l5) then l5\<lparr>l_tx := tx_pop_front (l_tx l5)\<rparr> else l5)"
    unfolding emit_data_def h
    by (rule let_eq [OF refl], simp only: prod.case, rule let_eq [OF l1_def [symmetric]], simp only: tx assms option.case prod.case,
        rule let_eq [OF l2_def [unfolded tx, symmetric]], rule let_eq [OF l3_def [symmetric]], rule let_eq [OF l4_def [symmetric]],
        rule let_eq [OF l5_def [symmetric]], simp only: Let_def)
  show "fst (emit_data now seq l) \<noteq> None" by (simp add: emit)
  assume ok: "link_ok k cfg l"
  then have l1: "link_ok k cfg l1" by (simp add: l1_def l0 link_header_snd)
  have "touched (l_tx l1) (tx_update seq (mark_sent now (l_send_order l1)) (l_tx l1))"
    by (rule touched_update) (simp add: mark_sent_def same_frame_def)
  then have l2: "link_ok k cfg l2" using link_ok_touched [OF l1] by (simp add: l2_def)
  then have l5: "link_ok k cfg l5" by (simp add: l5_def l4_def l3_def)
  then have "link_ok k cfg (l5\<lparr>l_tx := tx_pop_front (l_tx l5)\<rparr>)"
    by (rule link_ok_tx) (use l5 in \<open>auto simp: link_ok_def tx_is_empty_def tx_pop_front_def intro: tx_shape_pop [unfolded tx_pop_front_def]\<close>)
  then show "link_ok k cfg (snd (emit_data now seq l))" using l5 by (simp add: emit)
qed

lemma window_small: "max (shape_tx_window k cfg) 1 \<le> 256"
proof -
  have "unat (x :: u8) \<le> 256" for x by (rule order_less_imp_le [OF order_less_le_trans [OF unsigned_less]]) simp
  then show ?thesis by (simp add: shape_tx_window_def)
qed

definition source_ok :: "source \<Rightarrow> bool" where
  "source_ok source \<longleftrightarrow> (\<forall>f. source = Some f \<longrightarrow> (\<forall>off m. length (f off m) = m))"

lemma next_fragment_ok:
  assumes "link_ok k cfg l" and "l_state l = Established" and "source_ok source" and "next_fragment source l = Some (seq, l')"
  shows "link_ok k cfg l' \<and> tx_frame_mut seq (l_tx l') \<noteq> None \<and> l_state l' = Established"
proof -
  obtain tx q where push: "tx_push_with (cut_into (l_tx_payload l) source (l_pending l)) (l_tx l) = Some (seq, tx, q)"
    and l': "l' = l\<lparr>l_tx := tx, l_pending := q\<rparr>"
    using assms(4) by (auto simp: next_fragment_def split: option.splits)
  note shape = assms(1) [unfolded link_ok_def]
  have len: "length (the source off m) = m" if "source \<noteq> None" for off m using assms(3) that by (auto simp: source_ok_def)
  have ok: "tx_shape (max (shape_tx_window k cfg) 1) (unat (c_max_payload cfg)) (l_tx l)" "sq_inv (l_pending l)"
    "l_tx_payload l \<le> unat (c_max_payload cfg)" using shape by simp_all
  have t: "tx_shape (max (shape_tx_window k cfg) 1) (unat (c_max_payload cfg)) tx" "sq_inv q" "seq = tx_next_seq (l_tx l)"
    "tx_base tx = tx_base (l_tx l)" "length (tx_entries tx) = Suc (length (tx_entries (l_tx l)))"
    using tx_shape_push [OF ok push len] by simp_all
  have "link_ok k cfg l'" using shape t(1,2) assms(2) by (simp add: l' link_ok_def)
  then show ?thesis using pushed_frame [OF t(1) window_small t(5,4)] t(3) assms(2) by (simp add: l')
qed

lemma emit_ack_ok: "link_ok k cfg l \<Longrightarrow> link_ok k cfg (snd (emit_ack l))"
  by (simp add: emit_ack_def link_header_def Let_def)

text \<open>An emitted frame, or a session that was reset; a link past its keepalive emits or resets.\<close>

lemma pick_data_ok:
  assumes "link_ok k cfg l" and "l_state l = Established" and "source_ok source"
  shows "link_ok k cfg (snd (pick_data now source ready l))"
    and "l_last_tx l + c_keepalive cfg \<le> now \<Longrightarrow> fst (pick_data now source ready l) = None \<Longrightarrow>
      l_state (snd (pick_data now source ready l)) = Connecting \<and> l_syn_due (snd (pick_data now source ready l)) = Some now"
proof -
  have cfg: "l_cfg l = cfg" using assms(1) by (simp add: link_ok_def)
  have "link_ok k cfg (snd (pick_data now source ready l)) \<and>
    (l_last_tx l + c_keepalive cfg \<le> now \<longrightarrow> fst (pick_data now source ready l) = None \<longrightarrow>
      l_state (snd (pick_data now source ready l)) = Connecting \<and> l_syn_due (snd (pick_data now source ready l)) = Some now)"
  proof (cases "tx_first_unsent (l_tx l)")
    case (Some seq)
    have "tx_frame_mut seq (l_tx l) \<noteq> None"
      using first_unsent_frame [OF _ window_small Some] assms(1) by (auto simp: link_ok_def)
    then obtain e payload where frame: "tx_frame_mut seq (l_tx l) = Some (e, payload)" by auto
    show ?thesis
    proof (cases "case tx_get seq (l_tx l) of Some e \<Rightarrow> te_sends e > c_max_retries (l_cfg l) | None \<Rightarrow> False")
      case True
      then have "pick_data now source ready l = (None, link_reset now RetryLimit l)" by (simp add: pick_data_def Some)
      then show ?thesis using link_ok_reset [OF assms(1)] by (simp add: link_reset_def Let_def)
    next
      case False
      then have "pick_data now source ready l = emit_data now seq l" by (simp only: pick_data_def Some option.case if_False)
      then show ?thesis using emit_data_frame(1) [OF frame, where now = now] emit_data_frame(2) [OF frame assms(1), where now = now] by auto
    qed
  next
    case None
    show ?thesis
    proof (cases "if can_send_new l then next_fragment source l else None")
      case (Some r)
      obtain seq l' where r: "r = (seq, l')" by fastforce
      have "next_fragment source l = Some (seq, l')" using Some r by (auto split: if_splits)
      note frag = next_fragment_ok [OF assms this]
      then obtain e payload where frame: "tx_frame_mut seq (l_tx l') = Some (e, payload)" by auto
      have "pick_data now source ready l = emit_data now seq l'" by (simp only: pick_data_def None Some r option.case prod.case)
      then show ?thesis using emit_data_frame(1) [OF frame, where now = now] emit_data_frame(2) [OF frame, where now = now] frag by auto
    next
      case no_new: None
      obtain out l' where d: "emit_datagram l = (out, l')" by fastforce
      have ok: "link_ok k cfg l'" using link_ok_emit_datagram [OF assms(1)] d by (metis snd_conv)
      show ?thesis
      proof (cases out)
        case (Some x)
        then have "pick_data now source ready l = (Some x, l')" by (simp only: pick_data_def None no_new d option.case prod.case)
        then show ?thesis using ok by simp
      next
        case empty: None
        then obtain c q where l': "l' = l\<lparr>l_counters := c, l_datagrams := q\<rparr>" using emit_datagram_none d by blast
        have "pick_data now source ready l =
          (if ready \<or> now \<ge> l_last_tx l' + c_keepalive (l_cfg l') then (Some (fst (emit_ack l')), snd (emit_ack l')) else (None, l'))"
          by (simp only: pick_data_def None no_new d empty option.case prod.case) (simp add: case_prod_beta)
        then show ?thesis using ok emit_ack_ok [OF ok] cfg by (auto simp: l')
      qed
    qed
  qed
  then show "link_ok k cfg (snd (pick_data now source ready l))"
    and "l_last_tx l + c_keepalive cfg \<le> now \<Longrightarrow> fst (pick_data now source ready l) = None \<Longrightarrow>
      l_state (snd (pick_data now source ready l)) = Connecting \<and> l_syn_due (snd (pick_data now source ready l)) = Some now"
    by blast+
qed

lemma connect_emit_ok:
  assumes "link_ok k cfg l"
  shows "link_ok k cfg (snd (connect_emit now l))"
    and "l_syn_due l = Some t \<Longrightarrow> t \<le> now \<Longrightarrow> fst (connect_emit now l) \<noteq> None"
proof -
  have "link_ok k cfg (x\<lparr>l_syn_due := Some t\<rparr>)" if "link_ok k cfg x" for x t using that by (simp add: link_ok_def)
  then show "link_ok k cfg (snd (connect_emit now l))" using assms by (simp add: connect_emit_def Let_def)
  show "l_syn_due l = Some t \<Longrightarrow> t \<le> now \<Longrightarrow> fst (connect_emit now l) \<noteq> None" by (simp add: connect_emit_def Let_def)
qed

lemma pick_and_emit_ok:
  assumes "link_ok k cfg l" and "source_ok source"
  shows "link_ok k cfg (snd (pick_and_emit now source l))"
    and "l_state l = Established \<Longrightarrow> l_last_tx l + c_keepalive cfg \<le> now \<Longrightarrow> fst (pick_and_emit now source l) = None \<Longrightarrow>
      l_state (snd (pick_and_emit now source l)) = Connecting \<and> l_syn_due (snd (pick_and_emit now source l)) = Some now"
proof -
  have "link_ok k cfg (snd (pick_and_emit now source l)) \<and>
    (l_state l = Established \<longrightarrow> l_last_tx l + c_keepalive cfg \<le> now \<longrightarrow> fst (pick_and_emit now source l) = None \<longrightarrow>
      l_state (snd (pick_and_emit now source l)) = Connecting \<and> l_syn_due (snd (pick_and_emit now source l)) = Some now)"
  proof (cases "l_state l")
    case Connecting
    then show ?thesis using connect_emit_ok(1) [OF assms(1)] by (simp add: pick_and_emit_def)
  next
    case Established
    define ready where "ready = (case l_ack_due l of Some t \<Rightarrow> t \<le> now | None \<Rightarrow> False)"
    consider (syn) "l_syn_owed l" | (ack) "\<not> l_syn_owed l" "ready \<and> l_ack_explicit l" | (other) "\<not> l_syn_owed l" "\<not> (ready \<and> l_ack_explicit l)" by blast
    then show ?thesis
    proof cases
      case syn
      then show ?thesis using Established assms(1) by (simp add: pick_and_emit_def Let_def)
    next
      case ack
      then have "pick_and_emit now source l = (Some (fst (emit_ack l)), snd (emit_ack l))"
        using Established by (simp add: pick_and_emit_def ready_def case_prod_beta)
      then show ?thesis using emit_ack_ok [OF assms(1)] by simp
    next
      case other
      define share where "share = (if c_datagram_every (l_cfg l) \<noteq> 0 \<and> l_data_run l \<ge> c_datagram_every (l_cfg l) then emit_datagram l else (None, l))"
      obtain out l' where d: "share = (out, l')" by fastforce
      have ok: "link_ok k cfg l'" using d link_ok_emit_datagram [OF assms(1)] assms(1) by (auto simp: share_def split: if_splits)
      have pick: "pick_and_emit now source l = (case share of (Some out, l) \<Rightarrow> (Some out, l) | (None, l) \<Rightarrow> pick_data now source ready l)"
        using Established other(1) by (simp add: pick_and_emit_def ready_def [symmetric] share_def [symmetric] Let_def if_not_P [OF other(2)])
      show ?thesis
      proof (cases out)
        case (Some x)
        then show ?thesis using pick d ok by simp
      next
        case None
        then have "\<exists>c q. l' = l\<lparr>l_counters := c, l_datagrams := q\<rparr>"
        proof (cases "c_datagram_every (l_cfg l) \<noteq> 0 \<and> l_data_run l \<ge> c_datagram_every (l_cfg l)")
          case True
          then show ?thesis using emit_datagram_none d None by (simp add: share_def)
        next
          case False
          then have "l' = l\<lparr>l_counters := l_counters l, l_datagrams := l_datagrams l\<rparr>" using d by (simp add: share_def if_not_P [OF False])
          then show ?thesis by blast
        qed
        then have keep: "l_state l' = l_state l" "l_last_tx l' = l_last_tx l" by auto
        have "pick_and_emit now source l = pick_data now source ready l'" using pick d None by simp
        then show ?thesis using pick_data_ok [OF ok _ assms(2), of now ready] keep Established by auto
      qed
    qed
  qed
  then show "link_ok k cfg (snd (pick_and_emit now source l))"
    and "l_state l = Established \<Longrightarrow> l_last_tx l + c_keepalive cfg \<le> now \<Longrightarrow> fst (pick_and_emit now source l) = None \<Longrightarrow>
      l_state (snd (pick_and_emit now source l)) = Connecting \<and> l_syn_due (snd (pick_and_emit now source l)) = Some now"
    by blast+
qed

subsection \<open>Timers\<close>

text \<open>The timers and the marking of text touch neither the state of the session nor when it last spoke.\<close>

definition same_session :: "Link \<Rightarrow> Link \<Rightarrow> bool" where
  "same_session l l' \<longleftrightarrow> l_state l' = l_state l \<and> l_syn_due l' = l_syn_due l \<and> l_last_tx l' = l_last_tx l"

lemma same_session_refl: "same_session l l"
  and same_session_trans: "same_session l l1 \<Longrightarrow> same_session l1 l2 \<Longrightarrow> same_session l l2"
  by (simp_all add: same_session_def)

lemma flush_text_session: "same_session l (flush_text l)"
  by (simp add: same_session_def flush_text_def Let_def split: prod.splits)

lemma fire_probe_ok: "link_ok k cfg l \<Longrightarrow> link_ok k cfg (fire_probe l)"
proof (cases "unsend_first (rev (tx_entries (l_tx l)))")
  case (Some es)
  assume "link_ok k cfg l"
  then have "link_ok k cfg ((l\<lparr>l_probe_armed := False\<rparr>)\<lparr>l_tx := (l_tx l)\<lparr>tx_entries := rev es\<rparr>\<rparr>)"
    by (intro link_ok_touched) (simp_all add: touched_probe [OF Some])
  then show ?thesis by (simp add: fire_probe_def Let_def Some)
qed (simp add: fire_probe_def Let_def)

lemma fire_probe_session: "same_session l (fire_probe l)"
  by (simp add: same_session_def fire_probe_def Let_def split: option.splits)

lemma timeout_ok:
  assumes "link_ok k cfg l"
  shows "link_ok k cfg (l\<lparr>l_counters := c, l_tx := arq_on_timeout (l_arq l) now rto (l_tx l), l_backoff := min (l_backoff l + 1) 8\<rparr>)"
proof -
  have "link_ok k cfg (l\<lparr>l_tx := arq_on_timeout (l_arq l) now rto (l_tx l)\<rparr>)" using link_ok_touched [OF assms touched_timeout] .
  then show ?thesis by (simp add: link_ok_def)
qed

lemma service_timers_ok:
  shows "same_session l (service_timers now l)" and "link_ok k cfg l \<Longrightarrow> link_ok k cfg (service_timers now l)"
proof -
  define due where "due t = (case t of Some t \<Rightarrow> t \<le> now | None \<Rightarrow> False)" for t
  define l1 where "l1 = (if due (idle_deadline (c_idle_flush (l_cfg l)) (c_frame_abandon (l_cfg l)) (l_deframer l))
    then (case flush_idle (l_deframer l) of
        (what, d) \<Rightarrow>
          let l = l\<lparr>l_deframer := d\<rparr>
          in case what of
               FlushText \<Rightarrow> flush_text l
             | FlushGarbage \<Rightarrow> count (\<lambda>c. c\<lparr>ct_stale_partials := ct_stale_partials c + 1\<rparr>) l
             | FlushNothing \<Rightarrow> l)
    else l)"
  define l2 where "l2 = (if l_state l1 = Established \<and> arq_reliable (l_arq l1) \<and> due (probe_deadline l1) then fire_probe l1 else l1)"
  have eq: "service_timers now l = (if l_state l2 = Established \<and> arq_reliable (l_arq l2) \<and> due (tx_next_timer (link_rto l2) (l_tx l2))
    then (count (\<lambda>c. c\<lparr>ct_timeouts := ct_timeouts c + 1\<rparr>) l2)\<lparr>
      l_tx := arq_on_timeout (l_arq l2) now (link_rto l2) (l_tx l2), l_backoff := min (l_backoff l2 + 1) 8\<rparr> else l2)"
    unfolding service_timers_def due_def [symmetric]
    by (rule let_eq [OF refl], rule let_eq [OF l1_def [symmetric]], rule let_eq [OF l2_def [symmetric]]) (rule refl)
  obtain what d where f: "flush_idle (l_deframer l) = (what, d)" by fastforce
  have s1: "same_session l l1"
    using flush_text_session [of "l\<lparr>l_deframer := d\<rparr>"] by (cases what) (simp_all add: l1_def f same_session_def Let_def)
  have s2: "same_session l l2" using same_session_trans [OF s1 fire_probe_session] s1 by (simp add: l2_def)
  then show "same_session l (service_timers now l)" unfolding eq by (simp add: same_session_def)
  assume ok: "link_ok k cfg l"
  have "link_ok k cfg (l\<lparr>l_deframer := d\<rparr>)" using ok by simp
  then have "link_ok k cfg l1"
    using ok link_ok_flush_text [of k cfg "l\<lparr>l_deframer := d\<rparr>"] by (cases what) (simp_all add: l1_def f Let_def)
  then have "link_ok k cfg l2" by (simp add: l2_def fire_probe_ok)
  then show "link_ok k cfg (service_timers now l)" unfolding eq using timeout_ok by simp
qed

subsection \<open>Polling\<close>

lemma poll_transmit_ok:
  assumes "link_ok k cfg l" and "source_ok source"
  shows "link_ok k cfg (snd (poll_transmit now source l))"
    and "(l_state l = Connecting \<and> (\<exists>t. l_syn_due l = Some t \<and> t \<le> now)) \<or> (l_state l = Established \<and> l_last_tx l + c_keepalive cfg \<le> now) \<Longrightarrow>
      fst (poll_transmit now source l) \<noteq> None"
proof -
  define l0 where "l0 = service_timers now l"
  obtain o1 l1 where p1: "pick_and_emit now source l0 = (o1, l1)" by fastforce
  obtain o2 l2 where p2: "pick_and_emit now source l1 = (o2, l2)" by fastforce
  define out where "out = (if o1 = None \<and> l_state l1 = Connecting then o2 else o1)"
  define l' where "l' = (if o1 = None \<and> l_state l1 = Connecting then l2 else l1)"
  have ok0: "link_ok k cfg l0" using service_timers_ok(2) [OF assms(1)] by (simp add: l0_def)
  have ok1: "link_ok k cfg l1" using pick_and_emit_ok(1) [OF ok0 assms(2), of now] p1 by simp
  have ok2: "link_ok k cfg l2" using pick_and_emit_ok(1) [OF ok1 assms(2), of now] p2 by simp
  have "(case (o1, l1) of (None, l) \<Rightarrow> if l_state l = Connecting then pick_and_emit now source l else (None, l) | r \<Rightarrow> r) = (out, l')"
    by (cases o1) (simp_all add: out_def l'_def p2)
  then have poll: "poll_transmit now source l = (case (out, l') of (None, l) \<Rightarrow> (None, l) | (Some out, l) \<Rightarrow>
      (Some out, (count (\<lambda>c. c\<lparr>ct_frames_tx := ct_frames_tx c + 1, ct_bytes_tx := ct_bytes_tx c + of_nat (length out)\<rparr>) l)\<lparr> l_last_tx := now\<rparr>))"
    unfolding poll_transmit_def by (intro let_eq [OF l0_def [symmetric]]) (simp only: p1)
  show "link_ok k cfg (snd (poll_transmit now source l))"
    using ok1 ok2 by (cases out) (simp_all add: poll l'_def)
  assume due: "(l_state l = Connecting \<and> (\<exists>t. l_syn_due l = Some t \<and> t \<le> now)) \<or> (l_state l = Established \<and> l_last_tx l + c_keepalive cfg \<le> now)"
  note same = service_timers_ok(1) [of l now, folded l0_def, unfolded same_session_def]
  have "out \<noteq> None"
  proof (cases "l_state l")
    case Connecting
    then obtain t where "l_syn_due l0 = Some t" "t \<le> now" using due same by auto
    then have "o1 \<noteq> None" using connect_emit_ok(2) [OF ok0, of t now] same p1 Connecting by (auto simp: pick_and_emit_def)
    then show ?thesis by (auto simp: out_def)
  next
    case Established
    then have resend: "o1 = None \<Longrightarrow> l_state l1 = Connecting \<and> l_syn_due l1 = Some now"
      using pick_and_emit_ok(2) [OF ok0 assms(2), of now] due same p1 by simp
    then have "o1 = None \<Longrightarrow> o2 \<noteq> None" using connect_emit_ok(2) [OF ok1, of now now] p2 by (simp add: pick_and_emit_def)
    then show ?thesis using resend by (auto simp: out_def)
  qed
  then show "fst (poll_transmit now source l) \<noteq> None" by (auto simp: poll)
qed

section \<open>Reachable links\<close>

text \<open>
  The calls an owner of a link may make, in any order and at any times: application calls, bytes and datagrams from the
  wire (any bytes at all, with any outcome of the allocations made on the way), and polls.
\<close>

datatype LinkOp =
    Send u8 "u8 list"
  | SendExternal u8 nat
  | CancelExternal
  | PumpLog Micros LogRing u8
  | Recv Heaps
  | Restart Micros
  | Bytes "nat \<Rightarrow> Heaps" Micros "u8 list"
  | Dgram Heaps Micros "u8 list"
  | Poll Micros source

fun link_do :: "LinkOp \<Rightarrow> Link \<Rightarrow> Link" where
  "link_do (Send channel payload) l = snd (link_send channel payload l)"
| "link_do (SendExternal channel len) l = snd (send_external channel len l)"
| "link_do CancelExternal l = snd (cancel_external l)"
| "link_do (PumpLog now ring channel) l = snd (pump_log now ring channel l)"
| "link_do (Recv heaps) l = (case link_recv heaps l of None \<Rightarrow> l | Some (ev, l') \<Rightarrow> l')"
| "link_do (Restart now) l = link_restart now l"
| "link_do (Bytes heaps now bytes) l = on_bytes heaps now bytes l"
| "link_do (Dgram heaps now frame) l = on_datagram heaps now frame l"
| "link_do (Poll now source) l = snd (poll_transmit now source l)"

fun op_ok :: "LinkOp \<Rightarrow> bool" where
  "op_ok (Poll now source) = source_ok source"
| "op_ok _ = True"

inductive link_reach :: "ArqKind \<Rightarrow> LinkConfig \<Rightarrow> Link \<Rightarrow> bool" for k cfg where
  start: "link_reach k cfg (link_new k cfg nonce)"
| step: "link_reach k cfg l \<Longrightarrow> op_ok x \<Longrightarrow> link_reach k cfg (link_do x l)"

lemma link_do_ok: "cfg_ok cfg \<Longrightarrow> link_ok k cfg l \<Longrightarrow> op_ok x \<Longrightarrow> link_ok k cfg (link_do x l)"
  by (cases x)
     (auto simp: link_restart_def link_ok_send link_ok_send_external link_ok_cancel link_ok_pump link_ok_reset link_ok_on_bytes
       link_ok_on_datagram poll_transmit_ok(1) split: option.split intro: link_ok_recv)

lemma link_reach_ok: "link_reach k cfg l \<Longrightarrow> cfg_ok cfg \<Longrightarrow> link_ok k cfg l"
  by (induction rule: link_reach.induct) (simp_all add: link_ok_new link_do_ok)

text \<open>C7. Invariant of every reachable link, whatever arrives on the wire and whenever it is polled: the configuration is the
  one it was built with; the transmit window keeps its width, slot size and byte count; the send queue and the datagram
  queue stay well formed; the nonce is never 0 and the timeout backoff never passes 8, so the shift by it is in range;
  a connected link knows its peer's nonce and may cut fragments of at least one byte and at most the configured payload;
  a connecting link has a SYN due and nothing in its window.
\<close>

theorem link_invariant:
  assumes "cfg_ok cfg" and "link_reach k cfg l"
  shows "l_cfg l = cfg \<and> arq_kind (l_arq l) = k \<and> tx_inv (l_tx l) \<and> tx_window (l_tx l) = max (shape_tx_window k cfg) 1 \<and>
    tx_slot_len (l_tx l) = unat (c_max_payload cfg) \<and> sq_inv (l_pending l) \<and>
    dq_ok (c_datagram_queue cfg) (unat (c_max_payload cfg)) (l_datagrams l) \<and> l_nonce l \<noteq> 0 \<and> l_backoff l \<le> 8 \<and>
    l_tx_payload l \<le> unat (c_max_payload cfg) \<and>
    (l_state l = Established \<longrightarrow> l_peer_nonce l \<noteq> None \<and> 0 < l_tx_payload l) \<and>
    (l_state l = Connecting \<longrightarrow> l_syn_due l \<noteq> None \<and> tx_is_empty (l_tx l))"
  using link_reach_ok [OF assms(2,1)] by (simp add: link_ok_def tx_shape_def)

text \<open>C8. A link never falls silent: poll it once the SYN it owes is due (while connecting) or once its keepalive interval has
  passed since its last frame (while connected), and it hands out a frame. A session whose oldest frame has run out of
  retries counts too: the link resets and the same poll hands out the SYN of the new attempt.
\<close>

theorem poll_speaks:
  assumes "cfg_ok cfg" and "link_reach k cfg l" and "source_ok source"
    and "case l_state l of Connecting \<Rightarrow> \<exists>t. l_syn_due l = Some t \<and> t \<le> now | Established \<Rightarrow> l_last_tx l + c_keepalive cfg \<le> now"
  shows "\<exists>frame. fst (poll_transmit now source l) = Some frame"
  using poll_transmit_ok(2) [OF link_reach_ok [OF assms(2,1)] assms(3), of now] assms(4) by (cases "l_state l") auto

subsection \<open>Witnesses\<close>

lemma sample_ok: "cfg_ok sample_cfg"
  by (simp add: cfg_ok_def validated sample_cfg_def EVENT_COST_def)

definition sample_syn :: SynBody where
  "sample_syn = \<lparr>s_nonce = 5, s_your = 7, s_established = False, s_max_payload = 2, s_rx_window = 2\<rparr>"

definition sample_link :: Link where
  "sample_link = on_datagram (\<lambda>_ _. True) 2 (encode_raw Crc32c 0 SYN_HEADER (syn_to_bytes sample_syn)) (link_new KSelectiveRepeat sample_cfg 7)"

lemma sample_link_reach: "link_reach KSelectiveRepeat sample_cfg sample_link"
  unfolding sample_link_def link_do.simps(8) [symmetric] by (intro link_reach.intros) simp_all

lemma sample_link_state: "l_state sample_link = Established \<and> l_last_tx sample_link = 2"
proof -
  define l where "l = heard_while_connecting 2 (count (\<lambda>c. c\<lparr>ct_bytes_rx := ct_bytes_rx c +
    of_nat (length (encode_raw Crc32c 0 SYN_HEADER (syn_to_bytes sample_syn)))\<rparr>) (link_new KSelectiveRepeat sample_cfg 7))"
  have "c_crc (l_cfg l) = Crc32c" by (simp add: l_def link_new_def sample_cfg_def Let_def)
  then have "sample_link = on_syn 2 sample_syn ((count (\<lambda>c. c\<lparr>ct_frames_rx := ct_frames_rx c + 1\<rparr>) l)\<lparr>l_last_rx := 2\<rparr>)"
    using on_frame_syn [of "\<lambda>_ _. True" 2 l sample_syn] by (simp add: sample_link_def on_datagram_def l_def [symmetric])
  moreover have "l_state (on_syn 2 sample_syn ((count (\<lambda>c. c\<lparr>ct_frames_rx := ct_frames_rx c + 1\<rparr>) l)\<lparr>l_last_rx := 2\<rparr>)) = Established \<and>
    l_last_tx (on_syn 2 sample_syn ((count (\<lambda>c. c\<lparr>ct_frames_rx := ct_frames_rx c + 1\<rparr>) l)\<lparr>l_last_rx := 2\<rparr>)) = 2"
    by (simp add: l_def on_syn_def establish_def heard_while_connecting_def link_new_def sample_syn_def Let_def max_def word_le_nat_alt)
  ultimately show ?thesis by simp
qed

theorem link_invariant_witness: "l_peer_nonce sample_link \<noteq> None \<and> 0 < l_tx_payload sample_link"
  using link_invariant [OF sample_ok sample_link_reach] sample_link_state by blast

theorem poll_speaks_witness: "\<exists>frame. fst (poll_transmit 7 None sample_link) = Some frame"
  using poll_speaks [OF sample_ok sample_link_reach, of None 7] sample_link_state by (simp add: source_ok_def sample_cfg_def)

end
