(* ===== verification/Link_Limits.thy ===== *)
theory Link_Limits
  imports Link_Wire
begin

text \<open>
  Two edges of the link that its documentation does not describe: the nonces a link restarts with, and the room a
  datagram is given on a channel whose current message is being dropped.
\<close>

section \<open>The nonce of the next session\<close>

text \<open>The mixing steps, each injective: addition, exclusive or with a shifted copy, multiplication by an odd constant.\<close>

lemma xor_shift_inj:
  fixes x y :: u32
  assumes "0 < n" and "x XOR drop_bit n x = y XOR drop_bit n y"
  shows "x = y"
proof -
  define d where "d = x XOR y"
  have "d = drop_bit n d" using assms(2) by (auto simp: d_def drop_bit_xor bit_eq_iff bit_xor_iff)
  then have "unat d = unat d div 2 ^ n" by (metis unat_drop_bit_eq drop_bit_eq_div)
  then have "unat d = 0" using assms(1) one_less_power [of "2 :: nat" n] div_less_dividend [of "2 ^ n" "unat d"] by (cases "unat d = 0") auto
  then have "x XOR y = 0" unfolding d_def by (simp only: unsigned_eq_0_iff)
  then show ?thesis by (auto simp: bit_eq_iff bit_xor_iff)
qed

lemma mult_inj: "c * d = 1 \<Longrightarrow> x * c = y * c \<Longrightarrow> x = (y :: u32)"
proof -
  assume c: "c * d = 1" and "x * c = y * c"
  then have "x * c * d = y * c * d" by simp
  then have "x * (c * d) = y * (c * d)" by (simp only: mult.assoc)
  then show ?thesis unfolding c by simp
qed

definition nonce_mix :: "u32 \<Rightarrow> u32" where
  "nonce_mix n =
     (let z = n + 0x9E3779B9;
          z = (z XOR drop_bit 16 z) * 0x85EBCA6B;
          z = (z XOR drop_bit 13 z) * 0xC2B2AE35
      in z XOR drop_bit 16 z)"

lemma next_nonce_mix: "next_nonce n = max (nonce_mix n) 1"
  by (simp add: next_nonce_def nonce_mix_def Let_def)

lemma nonce_mix_inj: "nonce_mix a = nonce_mix b \<Longrightarrow> a = b"
  unfolding nonce_mix_def Let_def
  by (drule xor_shift_inj [rotated], simp, drule mult_inj [rotated, where d = "0x7ED1B41D"], simp,
      drule xor_shift_inj [rotated], simp, drule mult_inj [rotated, where d = "0xA5CB9243"], simp,
      drule xor_shift_inj [rotated], simp, simp)

lemma nonce_values:
  "next_nonce 0x1784893B = 0x1784893B" "next_nonce 0x19A8593E = 0x19A8593E"
  "next_nonce 0x61C88647 = 1" "next_nonce 0x6F2A7A53 = 1"
  by (simp_all add: next_nonce_def Let_def max_def word_le_nat_alt)

text \<open>Restarting never loses a nonce by accident: the nonce of the next session is not 0, which means unknown on the
  wire, and two nonces lead to the same next nonce only if that next nonce is 1, the value 0 is replaced by.
\<close>

theorem next_nonce_distinct: "next_nonce a \<noteq> 0 \<and> (next_nonce a = next_nonce b \<longrightarrow> a = b \<or> next_nonce a = 1)"
proof (intro conjI impI)
  show "next_nonce a \<noteq> 0" by (auto simp: next_nonce_mix max_def)
  assume eq: "next_nonce a = next_nonce b"
  have "nonce_mix a = nonce_mix b" if "next_nonce a \<noteq> 1" using that eq unfolding next_nonce_mix max_def by argo
  then show "a = b \<or> next_nonce a = 1" using nonce_mix_inj by blast
qed

theorem next_nonce_distinct_witness: "next_nonce 7 \<noteq> 0 \<and> (next_nonce 7 = next_nonce 8 \<longrightarrow> next_nonce 7 = 1)"
  using next_nonce_distinct [of 7 8] by simp

text \<open>Two nonces are their own successors, so a link that holds one restarts into a session under the very key of the
  session it left: frames of the old session still verify, and a peer that remembers the nonce sees no restart. Two
  different nonces share the successor 1, so the mix is not a bijection either.
\<close>

theorem restart_keeps_key:
  "link_key (link_restart now (l\<lparr>l_nonce := 0x1784893B\<rparr>)) = link_key (l\<lparr>l_nonce := 0x1784893B\<rparr>) \<and>
   link_key (link_restart now (l\<lparr>l_nonce := 0x19A8593E\<rparr>)) = link_key (l\<lparr>l_nonce := 0x19A8593E\<rparr>) \<and>
   next_nonce 0x61C88647 = next_nonce 0x6F2A7A53"
  by (simp add: link_restart_def link_reset_def link_key_def nonce_values Let_def)

section \<open>Datagrams on a channel that is dropping a message\<close>

text \<open>The n-th of a run of empty datagrams on a channel.\<close>

definition nth_datagram :: "u8 \<Rightarrow> nat \<Rightarrow> Header" where
  "nth_datagram chan n = \<lparr>h_kind = Datagram, h_fin = False, h_first = False, h_chan = chan, h_seq = of_nat n, h_ack = 0, h_win = 0\<rparr>"

lemma datagram_while_dropping:
  assumes "in_dropping (l_inbox l) AND chan_bit (chan_index chan) \<noteq> 0" and "l_dgram_rx_next l = Some (of_nat n)"
  shows "let l' = on_datagram_frame (nth_datagram chan n) [] l
    in in_ready_bytes (l_inbox l') = in_ready_bytes (l_inbox l) + EVENT_COST \<and>
       in_dropping (l_inbox l') = in_dropping (l_inbox l) \<and> l_dgram_rx_next l' = Some (of_nat (Suc n))"
proof -
  have "\<not> (224 :: u8) \<le> 0" by code_simp
  then show ?thesis using assms
    by (simp only: on_datagram_frame_def nth_datagram_def seq_dist_def Header.simps option.case Let_def diff_self if_False)
       (simp add: has_room_def push_datagram_def inbox_deliver_def Let_def add.commute)
qed

text \<open>C37. While a channel is dropping an oversize message, every datagram on it is queued whatever the receive budget: after
  n empty datagrams the charge has grown by n event costs, so it passes any budget.
\<close>

theorem datagrams_pass_budget:
  assumes "in_dropping (l_inbox l) AND chan_bit (chan_index chan) \<noteq> 0" and "l_dgram_rx_next l = Some 0"
  shows "in_ready_bytes (l_inbox (fold (\<lambda>i. on_datagram_frame (nth_datagram chan i) []) [0..<n] l)) =
    in_ready_bytes (l_inbox l) + n * EVENT_COST"
proof -
  have "in_ready_bytes (l_inbox (fold (\<lambda>i. on_datagram_frame (nth_datagram chan i) []) [0..<n] l)) =
      in_ready_bytes (l_inbox l) + n * EVENT_COST \<and>
    in_dropping (l_inbox (fold (\<lambda>i. on_datagram_frame (nth_datagram chan i) []) [0..<n] l)) = in_dropping (l_inbox l) \<and>
    l_dgram_rx_next (fold (\<lambda>i. on_datagram_frame (nth_datagram chan i) []) [0..<n] l) = Some (of_nat n)"
  proof (induction n)
    case (Suc n)
    then show ?case
      using datagram_while_dropping [of "fold (\<lambda>i. on_datagram_frame (nth_datagram chan i) []) [0..<n] l" chan n] assms(1)
      by (simp add: Let_def)
  qed (simp add: assms(2))
  then show ?thesis by blast
qed

definition dropping_link :: Link where
  "dropping_link = (link_new KSelectiveRepeat cfg_usb 7)\<lparr>l_dgram_rx_next := Some 0,
     l_inbox := inbox_drop \<lparr>f_chan = 1, f_first = True, f_fin = False, f_data = []\<rparr> (inbox_new 256 0 0)\<rparr>"

theorem datagrams_pass_budget_witness:
  "in_budget (l_inbox dropping_link) < in_ready_bytes (l_inbox (fold (\<lambda>i. on_datagram_frame (nth_datagram 1 i) []) [0..<300] dropping_link))"
proof -
  have "in_dropping (l_inbox dropping_link) AND chan_bit (chan_index 1) \<noteq> 0"
    by (simp add: dropping_link_def inbox_drop_def inbox_abort_def inbox_new_def chan_bit_def chan_index_def CHANNELS_def Let_def)
  then show ?thesis using datagrams_pass_budget [of dropping_link 1 300]
    by (simp add: dropping_link_def inbox_drop_def inbox_abort_def inbox_new_def EVENT_COST_def Let_def)
qed

end
