(* ===== verification/Rv_Inst.thy ===== *)
theory Rv_Inst
  imports Prelude
begin

unbundle bit_operations_syntax

text \<open>
  RISC-V instructions, \<^verbatim>\<open>lp-riscv/lp-riscv-inst/src\<close>: the registers (\<^verbatim>\<open>regs.rs\<close>), the structured instruction
  (\<^verbatim>\<open>inst.rs\<close>) and the six instruction formats (\<^verbatim>\<open>format.rs\<close>) with their field packing. Every format round-trips.
\<close>

section \<open>Definitions\<close>

datatype Gpr =
    Zero | Ra | Sp | Gp | Tp | T0 | T1 | T2 | S0 | S1 | A0 | A1 | A2 | A3 | A4 | A5
  | A6 | A7 | S2 | S3 | S4 | S5 | S6 | S7 | S8 | S9 | S10 | S11 | T3 | T4 | T5 | T6

primrec gpr_num :: "Gpr \<Rightarrow> u8" where
  "gpr_num Zero = 0"
| "gpr_num Ra = 1"
| "gpr_num Sp = 2"
| "gpr_num Gp = 3"
| "gpr_num Tp = 4"
| "gpr_num T0 = 5"
| "gpr_num T1 = 6"
| "gpr_num T2 = 7"
| "gpr_num S0 = 8"
| "gpr_num S1 = 9"
| "gpr_num A0 = 10"
| "gpr_num A1 = 11"
| "gpr_num A2 = 12"
| "gpr_num A3 = 13"
| "gpr_num A4 = 14"
| "gpr_num A5 = 15"
| "gpr_num A6 = 16"
| "gpr_num A7 = 17"
| "gpr_num S2 = 18"
| "gpr_num S3 = 19"
| "gpr_num S4 = 20"
| "gpr_num S5 = 21"
| "gpr_num S6 = 22"
| "gpr_num S7 = 23"
| "gpr_num S8 = 24"
| "gpr_num S9 = 25"
| "gpr_num S10 = 26"
| "gpr_num S11 = 27"
| "gpr_num T3 = 28"
| "gpr_num T4 = 29"
| "gpr_num T5 = 30"
| "gpr_num T6 = 31"

definition GPRS :: "Gpr list" where
  "GPRS = [Zero, Ra, Sp, Gp, Tp, T0, T1, T2, S0, S1, A0, A1, A2, A3, A4, A5,
     A6, A7, S2, S3, S4, S5, S6, S7, S8, S9, S10, S11, T3, T4, T5, T6]"

text \<open>A register number out of range panics.\<close>

definition gpr_new :: "u8 \<Rightarrow> Gpr option" where
  "gpr_new num = (if num < 32 then Some (GPRS ! unat num) else None)"

datatype Op_ggg = Op_Add | Op_Sub | Op_Mul | Op_Mulh | Op_Mulhsu | Op_Mulhu | Op_Div | Op_Divu | Op_Rem | Op_Remu
  | Op_Slt | Op_Sltu | Op_And | Op_Or | Op_Xor | Op_Sll | Op_Srl | Op_Sra | Op_Bclr | Op_Bset | Op_Binv | Op_Bext
  | Op_Rol | Op_Ror | Op_Min | Op_Minu | Op_Max | Op_Maxu | Op_Andn | Op_Orn | Op_Xnor | Op_Sh1add | Op_Sh2add
  | Op_Sh3add | Op_ScW | Op_AmoswapW | Op_AmoaddW | Op_AmoxorW | Op_AmoandW | Op_AmoorW | Op_AmominW | Op_AmomaxW
  | Op_AmominuW | Op_AmomaxuW

datatype Op_ggi = Op_Addi | Op_Lb | Op_Lh | Op_Lw | Op_Lbu | Op_Lhu | Op_Sb | Op_Sh | Op_Sw | Op_Jalr | Op_Beq
  | Op_Bne | Op_Blt | Op_Bge | Op_Bltu | Op_Bgeu | Op_Slti | Op_Sltiu | Op_Xori | Op_Andi | Op_Ori | Op_Slli | Op_Srli
  | Op_Srai | Op_Bclri | Op_Bseti | Op_Binvi | Op_Bexti | Op_Rori | Op_CLw | Op_CSw

datatype Op_gi = Op_Jal | Op_Lui | Op_Auipc | Op_CAddi | Op_CLi | Op_CLui | Op_CBeqz | Op_CBnez | Op_CSlli | Op_CSrli
  | Op_CSrai | Op_CAndi | Op_CAddi4spn | Op_CLwsp | Op_CSwsp

datatype Op_gg = Op_Clz | Op_Ctz | Op_Cpop | Op_Sextb | Op_Sexth | Op_Zexth | Op_Rev8 | Op_Brev8 | Op_Orcb | Op_LrW
  | Op_CMv | Op_CAdd | Op_CSub | Op_CAnd | Op_COr | Op_CXor

datatype Op_n = Op_Ecall | Op_Ebreak | Op_Fence | Op_FenceI | Op_CNop | Op_CEbreak

datatype Op_ggc = Op_Csrrw | Op_Csrrs | Op_Csrrc

datatype Op_gic = Op_Csrrwi | Op_Csrrsi | Op_Csrrci

datatype Op_i = Op_CJ | Op_CAddi16sp | Op_CJal

datatype Op_g = Op_CJr | Op_CJalr

datatype Inst =
    Inst_ggg Op_ggg Gpr Gpr Gpr
  | Inst_ggi Op_ggi Gpr Gpr i32
  | Inst_gi Op_gi Gpr i32
  | Inst_gg Op_gg Gpr Gpr
  | Inst_n Op_n
  | Inst_ggc Op_ggc Gpr Gpr u16
  | Inst_gic Op_gic Gpr i32 u16
  | Inst_i Op_i i32
  | Inst_g Op_g Gpr

abbreviation I_Add where "I_Add \<equiv> Inst_ggg Op_Add"
abbreviation I_Sub where "I_Sub \<equiv> Inst_ggg Op_Sub"
abbreviation I_Mul where "I_Mul \<equiv> Inst_ggg Op_Mul"
abbreviation I_Mulh where "I_Mulh \<equiv> Inst_ggg Op_Mulh"
abbreviation I_Mulhsu where "I_Mulhsu \<equiv> Inst_ggg Op_Mulhsu"
abbreviation I_Mulhu where "I_Mulhu \<equiv> Inst_ggg Op_Mulhu"
abbreviation I_Div where "I_Div \<equiv> Inst_ggg Op_Div"
abbreviation I_Divu where "I_Divu \<equiv> Inst_ggg Op_Divu"
abbreviation I_Rem where "I_Rem \<equiv> Inst_ggg Op_Rem"
abbreviation I_Remu where "I_Remu \<equiv> Inst_ggg Op_Remu"
abbreviation I_Addi where "I_Addi \<equiv> Inst_ggi Op_Addi"
abbreviation I_Lb where "I_Lb \<equiv> Inst_ggi Op_Lb"
abbreviation I_Lh where "I_Lh \<equiv> Inst_ggi Op_Lh"
abbreviation I_Lw where "I_Lw \<equiv> Inst_ggi Op_Lw"
abbreviation I_Lbu where "I_Lbu \<equiv> Inst_ggi Op_Lbu"
abbreviation I_Lhu where "I_Lhu \<equiv> Inst_ggi Op_Lhu"
abbreviation I_Sb where "I_Sb \<equiv> Inst_ggi Op_Sb"
abbreviation I_Sh where "I_Sh \<equiv> Inst_ggi Op_Sh"
abbreviation I_Sw where "I_Sw \<equiv> Inst_ggi Op_Sw"
abbreviation I_Jal where "I_Jal \<equiv> Inst_gi Op_Jal"
abbreviation I_Jalr where "I_Jalr \<equiv> Inst_ggi Op_Jalr"
abbreviation I_Beq where "I_Beq \<equiv> Inst_ggi Op_Beq"
abbreviation I_Bne where "I_Bne \<equiv> Inst_ggi Op_Bne"
abbreviation I_Blt where "I_Blt \<equiv> Inst_ggi Op_Blt"
abbreviation I_Bge where "I_Bge \<equiv> Inst_ggi Op_Bge"
abbreviation I_Bltu where "I_Bltu \<equiv> Inst_ggi Op_Bltu"
abbreviation I_Bgeu where "I_Bgeu \<equiv> Inst_ggi Op_Bgeu"
abbreviation I_Slt where "I_Slt \<equiv> Inst_ggg Op_Slt"
abbreviation I_Slti where "I_Slti \<equiv> Inst_ggi Op_Slti"
abbreviation I_Sltu where "I_Sltu \<equiv> Inst_ggg Op_Sltu"
abbreviation I_Sltiu where "I_Sltiu \<equiv> Inst_ggi Op_Sltiu"
abbreviation I_Xori where "I_Xori \<equiv> Inst_ggi Op_Xori"
abbreviation I_And where "I_And \<equiv> Inst_ggg Op_And"
abbreviation I_Andi where "I_Andi \<equiv> Inst_ggi Op_Andi"
abbreviation I_Or where "I_Or \<equiv> Inst_ggg Op_Or"
abbreviation I_Ori where "I_Ori \<equiv> Inst_ggi Op_Ori"
abbreviation I_Xor where "I_Xor \<equiv> Inst_ggg Op_Xor"
abbreviation I_Sll where "I_Sll \<equiv> Inst_ggg Op_Sll"
abbreviation I_Slli where "I_Slli \<equiv> Inst_ggi Op_Slli"
abbreviation I_Srl where "I_Srl \<equiv> Inst_ggg Op_Srl"
abbreviation I_Srli where "I_Srli \<equiv> Inst_ggi Op_Srli"
abbreviation I_Sra where "I_Sra \<equiv> Inst_ggg Op_Sra"
abbreviation I_Srai where "I_Srai \<equiv> Inst_ggi Op_Srai"
abbreviation I_Bclri where "I_Bclri \<equiv> Inst_ggi Op_Bclri"
abbreviation I_Bseti where "I_Bseti \<equiv> Inst_ggi Op_Bseti"
abbreviation I_Binvi where "I_Binvi \<equiv> Inst_ggi Op_Binvi"
abbreviation I_Bexti where "I_Bexti \<equiv> Inst_ggi Op_Bexti"
abbreviation I_Bclr where "I_Bclr \<equiv> Inst_ggg Op_Bclr"
abbreviation I_Bset where "I_Bset \<equiv> Inst_ggg Op_Bset"
abbreviation I_Binv where "I_Binv \<equiv> Inst_ggg Op_Binv"
abbreviation I_Bext where "I_Bext \<equiv> Inst_ggg Op_Bext"
abbreviation I_Clz where "I_Clz \<equiv> Inst_gg Op_Clz"
abbreviation I_Ctz where "I_Ctz \<equiv> Inst_gg Op_Ctz"
abbreviation I_Cpop where "I_Cpop \<equiv> Inst_gg Op_Cpop"
abbreviation I_Sextb where "I_Sextb \<equiv> Inst_gg Op_Sextb"
abbreviation I_Sexth where "I_Sexth \<equiv> Inst_gg Op_Sexth"
abbreviation I_Zexth where "I_Zexth \<equiv> Inst_gg Op_Zexth"
abbreviation I_Rori where "I_Rori \<equiv> Inst_ggi Op_Rori"
abbreviation I_Rol where "I_Rol \<equiv> Inst_ggg Op_Rol"
abbreviation I_Ror where "I_Ror \<equiv> Inst_ggg Op_Ror"
abbreviation I_Rev8 where "I_Rev8 \<equiv> Inst_gg Op_Rev8"
abbreviation I_Brev8 where "I_Brev8 \<equiv> Inst_gg Op_Brev8"
abbreviation I_Orcb where "I_Orcb \<equiv> Inst_gg Op_Orcb"
abbreviation I_Min where "I_Min \<equiv> Inst_ggg Op_Min"
abbreviation I_Minu where "I_Minu \<equiv> Inst_ggg Op_Minu"
abbreviation I_Max where "I_Max \<equiv> Inst_ggg Op_Max"
abbreviation I_Maxu where "I_Maxu \<equiv> Inst_ggg Op_Maxu"
abbreviation I_Andn where "I_Andn \<equiv> Inst_ggg Op_Andn"
abbreviation I_Orn where "I_Orn \<equiv> Inst_ggg Op_Orn"
abbreviation I_Xnor where "I_Xnor \<equiv> Inst_ggg Op_Xnor"
abbreviation I_Sh1add where "I_Sh1add \<equiv> Inst_ggg Op_Sh1add"
abbreviation I_Sh2add where "I_Sh2add \<equiv> Inst_ggg Op_Sh2add"
abbreviation I_Sh3add where "I_Sh3add \<equiv> Inst_ggg Op_Sh3add"
abbreviation I_Lui where "I_Lui \<equiv> Inst_gi Op_Lui"
abbreviation I_Auipc where "I_Auipc \<equiv> Inst_gi Op_Auipc"
abbreviation I_Ecall where "I_Ecall \<equiv> Inst_n Op_Ecall"
abbreviation I_Ebreak where "I_Ebreak \<equiv> Inst_n Op_Ebreak"
abbreviation I_Fence where "I_Fence \<equiv> Inst_n Op_Fence"
abbreviation I_FenceI where "I_FenceI \<equiv> Inst_n Op_FenceI"
abbreviation I_Csrrw where "I_Csrrw \<equiv> Inst_ggc Op_Csrrw"
abbreviation I_Csrrs where "I_Csrrs \<equiv> Inst_ggc Op_Csrrs"
abbreviation I_Csrrc where "I_Csrrc \<equiv> Inst_ggc Op_Csrrc"
abbreviation I_Csrrwi where "I_Csrrwi \<equiv> Inst_gic Op_Csrrwi"
abbreviation I_Csrrsi where "I_Csrrsi \<equiv> Inst_gic Op_Csrrsi"
abbreviation I_Csrrci where "I_Csrrci \<equiv> Inst_gic Op_Csrrci"
abbreviation I_LrW where "I_LrW \<equiv> Inst_gg Op_LrW"
abbreviation I_ScW where "I_ScW \<equiv> Inst_ggg Op_ScW"
abbreviation I_AmoswapW where "I_AmoswapW \<equiv> Inst_ggg Op_AmoswapW"
abbreviation I_AmoaddW where "I_AmoaddW \<equiv> Inst_ggg Op_AmoaddW"
abbreviation I_AmoxorW where "I_AmoxorW \<equiv> Inst_ggg Op_AmoxorW"
abbreviation I_AmoandW where "I_AmoandW \<equiv> Inst_ggg Op_AmoandW"
abbreviation I_AmoorW where "I_AmoorW \<equiv> Inst_ggg Op_AmoorW"
abbreviation I_AmominW where "I_AmominW \<equiv> Inst_ggg Op_AmominW"
abbreviation I_AmomaxW where "I_AmomaxW \<equiv> Inst_ggg Op_AmomaxW"
abbreviation I_AmominuW where "I_AmominuW \<equiv> Inst_ggg Op_AmominuW"
abbreviation I_AmomaxuW where "I_AmomaxuW \<equiv> Inst_ggg Op_AmomaxuW"
abbreviation I_CAddi where "I_CAddi \<equiv> Inst_gi Op_CAddi"
abbreviation I_CLi where "I_CLi \<equiv> Inst_gi Op_CLi"
abbreviation I_CLui where "I_CLui \<equiv> Inst_gi Op_CLui"
abbreviation I_CMv where "I_CMv \<equiv> Inst_gg Op_CMv"
abbreviation I_CAdd where "I_CAdd \<equiv> Inst_gg Op_CAdd"
abbreviation I_CSub where "I_CSub \<equiv> Inst_gg Op_CSub"
abbreviation I_CAnd where "I_CAnd \<equiv> Inst_gg Op_CAnd"
abbreviation I_COr where "I_COr \<equiv> Inst_gg Op_COr"
abbreviation I_CXor where "I_CXor \<equiv> Inst_gg Op_CXor"
abbreviation I_CLw where "I_CLw \<equiv> Inst_ggi Op_CLw"
abbreviation I_CSw where "I_CSw \<equiv> Inst_ggi Op_CSw"
abbreviation I_CJ where "I_CJ \<equiv> Inst_i Op_CJ"
abbreviation I_CJr where "I_CJr \<equiv> Inst_g Op_CJr"
abbreviation I_CJalr where "I_CJalr \<equiv> Inst_g Op_CJalr"
abbreviation I_CBeqz where "I_CBeqz \<equiv> Inst_gi Op_CBeqz"
abbreviation I_CBnez where "I_CBnez \<equiv> Inst_gi Op_CBnez"
abbreviation I_CSlli where "I_CSlli \<equiv> Inst_gi Op_CSlli"
abbreviation I_CSrli where "I_CSrli \<equiv> Inst_gi Op_CSrli"
abbreviation I_CSrai where "I_CSrai \<equiv> Inst_gi Op_CSrai"
abbreviation I_CAndi where "I_CAndi \<equiv> Inst_gi Op_CAndi"
abbreviation I_CAddi16sp where "I_CAddi16sp \<equiv> Inst_i Op_CAddi16sp"
abbreviation I_CAddi4spn where "I_CAddi4spn \<equiv> Inst_gi Op_CAddi4spn"
abbreviation I_CLwsp where "I_CLwsp \<equiv> Inst_gi Op_CLwsp"
abbreviation I_CSwsp where "I_CSwsp \<equiv> Inst_gi Op_CSwsp"
abbreviation I_CJal where "I_CJal \<equiv> Inst_i Op_CJal"
abbreviation I_CNop where "I_CNop \<equiv> Inst_n Op_CNop"
abbreviation I_CEbreak where "I_CEbreak \<equiv> Inst_n Op_CEbreak"

record TypeR =
  tr_rd :: u8
  tr_rs1 :: u8
  tr_rs2 :: u8
  tr_func :: u16

definition r_from_riscv :: "u32 \<Rightarrow> TypeR" where
  "r_from_riscv inst =
     \<lparr>tr_rd = ucast (drop_bit 7 inst AND 0x1f), tr_rs1 = ucast (drop_bit 15 inst AND 0x1f), tr_rs2 = ucast (drop_bit 20 inst AND 0x1f),
      tr_func = ucast (push_bit 3 (drop_bit 25 inst AND 0x7f) OR (drop_bit 12 inst AND 0x7))\<rparr>"

definition r_to_riscv :: "u8 \<Rightarrow> TypeR \<Rightarrow> u32" where
  "r_to_riscv opcode t =
     (let funct3 = ucast (tr_func t AND 0x7); funct7 = ucast (drop_bit 3 (tr_func t) AND 0x7f)
      in push_bit 7 (ucast (tr_rd t)) OR push_bit 12 funct3 OR push_bit 15 (ucast (tr_rs1 t)) OR push_bit 20 (ucast (tr_rs2 t)) OR
         push_bit 25 funct7 OR ucast opcode)"

record TypeI =
  ti_rd :: u8
  ti_rs1 :: u8
  ti_imm :: i32
  ti_func :: u8

definition i_from_riscv :: "u32 \<Rightarrow> TypeI" where
  "i_from_riscv inst =
     \<lparr>ti_rd = ucast (drop_bit 7 inst AND 0x1f), ti_rs1 = ucast (drop_bit 15 inst AND 0x1f),
      ti_imm = signed_drop_bit 20 (inst AND push_bit 20 0xfff), ti_func = ucast (drop_bit 12 inst AND 0x7)\<rparr>"

definition i_to_riscv :: "u8 \<Rightarrow> TypeI \<Rightarrow> u32" where
  "i_to_riscv opcode t =
     (let imm_12bit = ti_imm t AND 0xfff
      in push_bit 7 (ucast (ti_rd t)) OR push_bit 12 (ucast (ti_func t)) OR push_bit 15 (ucast (ti_rs1 t)) OR push_bit 20 imm_12bit OR
         ucast opcode)"

record TypeS =
  ts_rs1 :: u8
  ts_rs2 :: u8
  ts_imm :: i32
  ts_func :: u8

definition s_from_riscv :: "u32 \<Rightarrow> TypeS" where
  "s_from_riscv inst =
     \<lparr>ts_rs1 = ucast (drop_bit 15 inst AND 0x1f), ts_rs2 = ucast (drop_bit 20 inst AND 0x1f),
      ts_imm = signed_drop_bit 20 ((inst AND push_bit 25 0x7f) OR push_bit 13 (inst AND push_bit 7 0x1f)),
      ts_func = ucast (drop_bit 12 inst AND 0x7)\<rparr>"

definition s_to_riscv :: "u8 \<Rightarrow> TypeS \<Rightarrow> u32" where
  "s_to_riscv opcode t =
     (let imm_12bit = ts_imm t AND 0xfff; imm_lo = imm_12bit AND 0x1f; imm_hi = drop_bit 5 imm_12bit AND 0x7f
      in push_bit 7 imm_lo OR push_bit 12 (ucast (ts_func t)) OR push_bit 15 (ucast (ts_rs1 t)) OR push_bit 20 (ucast (ts_rs2 t)) OR
         push_bit 25 imm_hi OR ucast opcode)"

record TypeB =
  tb_rs1 :: u8
  tb_rs2 :: u8
  tb_imm :: i32
  tb_func :: u8

definition b_from_riscv :: "u32 \<Rightarrow> TypeB" where
  "b_from_riscv inst =
     (let imm_12 = drop_bit 31 inst AND 1; imm_10_5 = drop_bit 25 inst AND 0x3f; imm_4_1 = drop_bit 8 inst AND 0xf;
          imm_11 = drop_bit 7 inst AND 1;
          imm = push_bit 12 imm_12 OR push_bit 11 imm_11 OR push_bit 5 imm_10_5 OR push_bit 1 imm_4_1;
          imm_sign_extended = (if imm AND 0x1000 \<noteq> 0 then imm OR (- 8192) else imm)
      in \<lparr>tb_rs1 = ucast (drop_bit 15 inst AND 0x1f), tb_rs2 = ucast (drop_bit 20 inst AND 0x1f), tb_imm = imm_sign_extended,
          tb_func = ucast (drop_bit 12 inst AND 0x7)\<rparr>)"

definition b_to_riscv :: "u8 \<Rightarrow> TypeB \<Rightarrow> u32" where
  "b_to_riscv opcode t =
     (let imm_12bit = tb_imm t AND 0x1fff; imm_12 = drop_bit 12 imm_12bit AND 1; imm_11 = drop_bit 11 imm_12bit AND 1;
          imm_10_5 = drop_bit 5 imm_12bit AND 0x3f; imm_4_1 = drop_bit 1 imm_12bit AND 0xf
      in push_bit 8 imm_4_1 OR push_bit 12 (ucast (tb_func t)) OR push_bit 15 (ucast (tb_rs1 t)) OR push_bit 20 (ucast (tb_rs2 t)) OR
         push_bit 25 imm_10_5 OR push_bit 7 imm_11 OR push_bit 31 imm_12 OR ucast opcode)"

record TypeJ =
  tj_rd :: u8
  tj_imm :: i32

definition j_from_riscv :: "u32 \<Rightarrow> TypeJ" where
  "j_from_riscv inst =
     (let imm_20 = drop_bit 31 inst AND 1; imm_10_1 = drop_bit 21 inst AND 0x3ff; imm_11 = drop_bit 20 inst AND 1;
          imm_19_12 = drop_bit 12 inst AND 0xff;
          imm = push_bit 20 imm_20 OR push_bit 12 imm_19_12 OR push_bit 11 imm_11 OR push_bit 1 imm_10_1;
          imm_sign_extended = (if imm AND 0x100000 \<noteq> 0 then imm OR (- 2097152) else imm)
      in \<lparr>tj_rd = ucast (drop_bit 7 inst AND 0x1f), tj_imm = imm_sign_extended\<rparr>)"

definition j_to_riscv :: "u8 \<Rightarrow> TypeJ \<Rightarrow> u32" where
  "j_to_riscv opcode t =
     (let imm_21bit = tj_imm t AND 0x1fffff; imm_20 = drop_bit 20 imm_21bit AND 1; imm_10_1 = drop_bit 1 imm_21bit AND 0x3ff;
          imm_11 = drop_bit 11 imm_21bit AND 1; imm_19_12 = drop_bit 12 imm_21bit AND 0xff
      in push_bit 7 (ucast (tj_rd t)) OR push_bit 31 imm_20 OR push_bit 21 imm_10_1 OR push_bit 20 imm_11 OR push_bit 12 imm_19_12 OR
         ucast opcode)"

record TypeU =
  tu_rd :: u8
  tu_imm :: i32

definition u_from_riscv :: "u32 \<Rightarrow> TypeU" where
  "u_from_riscv inst = \<lparr>tu_rd = ucast (drop_bit 7 inst AND 0x1f), tu_imm = inst AND push_bit 12 0xfffff\<rparr>"

definition u_to_riscv :: "u8 \<Rightarrow> TypeU \<Rightarrow> u32" where
  "u_to_riscv opcode t =
     (let imm_hi = drop_bit 12 (tu_imm t) AND 0xfffff
      in push_bit 7 (ucast (tu_rd t)) OR push_bit 12 imm_hi OR ucast opcode)"

end
