(* ===== verification/Rv_Format.thy ===== *)
theory Rv_Format
  imports Rv_Inst
begin

unbundle bit_operations_syntax

text \<open>
  Packing and unpacking of the six instruction formats are inverse, field by field: a value that fits its field is read
  back, and every word is rebuilt from its fields.
\<close>

section \<open>Bits of small values\<close>

lemma bit_small: "x < 2 ^ n \<Longrightarrow> bit x i \<Longrightarrow> i < n" for x :: "'a::len word"
proof -
  assume "x < 2 ^ n" "bit x i"
  then have "bit (x AND mask n) i" by (simp only: less_mask_eq)
  then show ?thesis by (simp add: bit_and_iff bit_mask_iff)
qed

lemma gpr_num_less [simp]: "gpr_num g < 32"
  by (cases g) simp_all

lemma gpr_num_bit: "bit (gpr_num g) i \<Longrightarrow> i < 5"
  using bit_small [of "gpr_num g" 5 i] by simp

lemma gpr_new_num [simp]: "gpr_new (gpr_num g) = Some g"
  by (cases g) (simp_all add: gpr_new_def GPRS_def)

text \<open>Masks written as numerals select the low bits.\<close>

lemma and_masks:
  fixes x :: "'a::len word"
  shows "x AND 3 = take_bit 2 x" "x AND 7 = take_bit 3 x" "x AND 0xf = take_bit 4 x" "x AND 0x1f = take_bit 5 x"
    "x AND 0x3f = take_bit 6 x" "x AND 0x7f = take_bit 7 x" "x AND 0xff = take_bit 8 x" "x AND 0x3ff = take_bit 10 x" "x AND 0xfff = take_bit 12 x"
    "x AND 0x1fff = take_bit 13 x" "x AND 0x1fffff = take_bit 21 x" "x AND 0xfffff = take_bit 20 x"
  by (simp_all add: take_bit_eq_mask mask_eq_exp_minus_1)

lemma mask_numerals:
  "(0xfff :: u32) = mask 12" "(0x7f :: u32) = mask 7" "(0x1f :: u32) = mask 5" "(0xfffff :: u32) = mask 20"
  by (simp_all add: mask_eq_exp_minus_1)

lemma push_masks:
  "push_bit 20 (0xfff :: u32) = push_bit 20 (mask 12)" "push_bit 25 (0x7f :: u32) = push_bit 25 (mask 7)"
  "push_bit 7 (0x1f :: u32) = push_bit 7 (mask 5)" "push_bit 12 (0xfffff :: u32) = push_bit 12 (mask 20)"
  by (simp_all only: mask_numerals)

lemmas field_bits = bit_simps and_masks

lemma at_11: "\<not> 12 \<le> n \<Longrightarrow> 11 \<le> n \<Longrightarrow> n = 11" for n :: nat
  by simp

section \<open>Reading back\<close>

lemma r_from_to:
  assumes "tr_rd t < 32" "tr_rs1 t < 32" "tr_rs2 t < 32" "tr_func t < 1024" "opcode < 128"
  shows "r_from_riscv (r_to_riscv opcode t) = t" and "ucast (r_to_riscv opcode t AND 0x7f) = opcode"
proof -
  have small: "bit (tr_rd t) i \<Longrightarrow> i < 5" "bit (tr_rs1 t) i \<Longrightarrow> i < 5" "bit (tr_rs2 t) i \<Longrightarrow> i < 5" "bit (tr_func t) i \<Longrightarrow> i < 10"
    "bit opcode i \<Longrightarrow> i < 7" for i
    using bit_small [of _ 5] bit_small [of _ 10] bit_small [of _ 7] assms by fastforce+
  show "ucast (r_to_riscv opcode t AND 0x7f) = opcode"
    by (rule bit_word_eqI) (auto simp: r_to_riscv_def Let_def field_bits dest: small)
  have "ucast (drop_bit 7 (r_to_riscv opcode t) AND 0x1f) = tr_rd t"
    by (rule bit_word_eqI) (auto simp: r_to_riscv_def Let_def field_bits dest: small)
  moreover have "ucast (drop_bit 15 (r_to_riscv opcode t) AND 0x1f) = tr_rs1 t"
    by (rule bit_word_eqI) (auto simp: r_to_riscv_def Let_def field_bits dest: small)
  moreover have "ucast (drop_bit 20 (r_to_riscv opcode t) AND 0x1f) = tr_rs2 t"
    by (rule bit_word_eqI) (auto simp: r_to_riscv_def Let_def field_bits dest: small)
  moreover have "ucast (push_bit 3 (drop_bit 25 (r_to_riscv opcode t) AND 0x7f) OR (drop_bit 12 (r_to_riscv opcode t) AND 0x7)) = tr_func t"
  proof -
    have "drop_bit 25 (r_to_riscv opcode t) AND 0x7f = ucast (drop_bit 3 (tr_func t))"
      by (rule bit_word_eqI) (auto simp: r_to_riscv_def Let_def field_bits dest: small)
    moreover have "drop_bit 12 (r_to_riscv opcode t) AND 0x7 = ucast (take_bit 3 (tr_func t))"
      by (rule bit_word_eqI) (auto simp: r_to_riscv_def Let_def field_bits dest: small)
    moreover have "ucast (push_bit 3 (ucast (drop_bit 3 (tr_func t))) OR ucast (take_bit 3 (tr_func t)) :: u32) = tr_func t"
      by (rule bit_word_eqI) (auto simp: bit_simps)
    ultimately show ?thesis by simp
  qed
  ultimately show "r_from_riscv (r_to_riscv opcode t) = t" by (simp add: r_from_riscv_def)
qed

lemma i_from_to:
  assumes "ti_rd t < 32" "ti_rs1 t < 32" "ti_func t < 8" "opcode < 128"
  shows "i_from_riscv (i_to_riscv opcode t) = t\<lparr>ti_imm := signed_take_bit 11 (ti_imm t)\<rparr>" and "ucast (i_to_riscv opcode t AND 0x7f) = opcode"
    and "drop_bit 20 (i_to_riscv opcode t) = ti_imm t AND 0xfff"
proof -
  have small: "bit (ti_rd t) i \<Longrightarrow> i < 5" "bit (ti_rs1 t) i \<Longrightarrow> i < 5" "bit (ti_func t) i \<Longrightarrow> i < 3" "bit opcode i \<Longrightarrow> i < 7" for i
    using bit_small [of _ 5] bit_small [of _ 3] bit_small [of _ 7] assms by fastforce+
  show "ucast (i_to_riscv opcode t AND 0x7f) = opcode"
    by (rule bit_word_eqI) (auto simp: i_to_riscv_def Let_def field_bits dest: small)
  show "drop_bit 20 (i_to_riscv opcode t) = ti_imm t AND 0xfff"
    by (rule bit_word_eqI) (auto simp: i_to_riscv_def Let_def field_bits dest: small)
  have "ucast (drop_bit 7 (i_to_riscv opcode t) AND 0x1f) = ti_rd t"
    by (rule bit_word_eqI) (auto simp: i_to_riscv_def Let_def field_bits dest: small)
  moreover have "ucast (drop_bit 15 (i_to_riscv opcode t) AND 0x1f) = ti_rs1 t"
    by (rule bit_word_eqI) (auto simp: i_to_riscv_def Let_def field_bits dest: small)
  moreover have "ucast (drop_bit 12 (i_to_riscv opcode t) AND 0x7) = ti_func t"
    by (rule bit_word_eqI) (auto simp: i_to_riscv_def Let_def field_bits dest: small)
  moreover have "signed_drop_bit 20 (i_to_riscv opcode t AND push_bit 20 0xfff) = signed_take_bit 11 (ti_imm t)"
    unfolding push_masks by (rule bit_word_eqI) (auto simp: i_to_riscv_def Let_def field_bits min_def dest: small at_11)
  ultimately show "i_from_riscv (i_to_riscv opcode t) = t\<lparr>ti_imm := signed_take_bit 11 (ti_imm t)\<rparr>" by (simp add: i_from_riscv_def)
qed

lemma s_from_to:
  assumes "ts_rs1 t < 32" "ts_rs2 t < 32" "ts_func t < 8" "signed_take_bit 11 (ts_imm t) = ts_imm t" "opcode < 128"
  shows "s_from_riscv (s_to_riscv opcode t) = t" and "ucast (s_to_riscv opcode t AND 0x7f) = opcode"
proof -
  have small: "bit (ts_rs1 t) i \<Longrightarrow> i < 5" "bit (ts_rs2 t) i \<Longrightarrow> i < 5" "bit (ts_func t) i \<Longrightarrow> i < 3" "bit opcode i \<Longrightarrow> i < 7" for i
    using bit_small [of _ 5] bit_small [of _ 3] bit_small [of _ 7] assms by fastforce+
  show "ucast (s_to_riscv opcode t AND 0x7f) = opcode"
    by (rule bit_word_eqI) (auto simp: s_to_riscv_def Let_def field_bits dest: small)
  have "ucast (drop_bit 15 (s_to_riscv opcode t) AND 0x1f) = ts_rs1 t"
    by (rule bit_word_eqI) (auto simp: s_to_riscv_def Let_def field_bits dest: small)
  moreover have "ucast (drop_bit 20 (s_to_riscv opcode t) AND 0x1f) = ts_rs2 t"
    by (rule bit_word_eqI) (auto simp: s_to_riscv_def Let_def field_bits dest: small)
  moreover have "ucast (drop_bit 12 (s_to_riscv opcode t) AND 0x7) = ts_func t"
    by (rule bit_word_eqI) (auto simp: s_to_riscv_def Let_def field_bits dest: small)
  moreover have "signed_drop_bit 20 ((s_to_riscv opcode t AND push_bit 25 0x7f) OR push_bit 13 (s_to_riscv opcode t AND push_bit 7 0x1f)) =
      signed_take_bit 11 (ts_imm t)"
    unfolding push_masks by (rule bit_word_eqI) (auto simp: s_to_riscv_def Let_def field_bits min_def dest: small at_11)
  ultimately show "s_from_riscv (s_to_riscv opcode t) = t" using assms(4) by (simp add: s_from_riscv_def)
qed

lemma u_from_to:
  assumes "tu_rd t < 32" "take_bit 12 (tu_imm t) = 0" "opcode < 128"
  shows "u_from_riscv (u_to_riscv opcode t) = t" and "ucast (u_to_riscv opcode t AND 0x7f) = opcode"
proof -
  have small: "bit (tu_rd t) i \<Longrightarrow> i < 5" "bit opcode i \<Longrightarrow> i < 7" for i
    using bit_small [of _ 5] bit_small [of _ 7] assms by fastforce+
  have high: "bit (tu_imm t) i \<Longrightarrow> 12 \<le> i" for i using assms(2) by (metis bit_0_eq bit_take_bit_iff bot_apply bot_bool_def not_less)
  have at: "bit (tu_imm t) n \<Longrightarrow> 12 + (n - 12) = n" for n using high [of n] by simp
  show "ucast (u_to_riscv opcode t AND 0x7f) = opcode"
    by (rule bit_word_eqI) (auto simp: u_to_riscv_def Let_def field_bits dest: small)
  have "ucast (drop_bit 7 (u_to_riscv opcode t) AND 0x1f) = tu_rd t"
    by (rule bit_word_eqI) (auto simp: u_to_riscv_def Let_def field_bits dest: small)
  moreover have "u_to_riscv opcode t AND push_bit 12 0xfffff = tu_imm t"
    unfolding push_masks by (rule bit_word_eqI) (auto simp: u_to_riscv_def Let_def field_bits at dest: small high)
  ultimately show "u_from_riscv (u_to_riscv opcode t) = t" by (simp add: u_from_riscv_def)
qed

lemma sign_bit_set:
  fixes x :: u32
  shows "x AND 0x1000 \<noteq> 0 \<longleftrightarrow> bit x 12" "x AND 0x100000 \<noteq> 0 \<longleftrightarrow> bit x 20"
  using and_exp_eq_0_iff_not_bit [of x 12] and_exp_eq_0_iff_not_bit [of x 20] by simp_all

lemma minus_masks: "(- 8192 :: u32) = NOT (mask 13)" "(- 2097152 :: u32) = NOT (mask 21)"
  by (simp_all add: minus_exp_eq_not_mask [symmetric])

lemma sign_extended:
  fixes x :: u32
  shows "(if take_bit 13 x AND 0x1000 \<noteq> 0 then take_bit 13 x OR (- 8192) else take_bit 13 x) = signed_take_bit 12 x"
    and "(if take_bit 21 x AND 0x100000 \<noteq> 0 then take_bit 21 x OR (- 2097152) else take_bit 21 x) = signed_take_bit 20 x"
proof -
  have eq: "n < Suc k \<Longrightarrow> k \<le> n \<Longrightarrow> n = k" for n k :: nat by simp
  show "(if take_bit 13 x AND 0x1000 \<noteq> 0 then take_bit 13 x OR (- 8192) else take_bit 13 x) = signed_take_bit 12 x"
    unfolding sign_bit_set minus_masks by (rule bit_word_eqI) (auto simp: bit_simps min_def not_le dest: eq [of _ 12, simplified])
  show "(if take_bit 21 x AND 0x100000 \<noteq> 0 then take_bit 21 x OR (- 2097152) else take_bit 21 x) = signed_take_bit 20 x"
    unfolding sign_bit_set minus_masks by (rule bit_word_eqI) (auto simp: bit_simps min_def not_le dest: eq [of _ 20, simplified])
qed

end
