(* ===== verification/Rv_Scatter.thy ===== *)
theory Rv_Scatter
  imports Rv_Format
begin

unbundle bit_operations_syntax

text \<open>
  The scattered immediates of branches and jumps: where each bit of a packed word comes from, and reading them back.
\<close>

lemma and_one_bit: "x AND 1 = take_bit 1 x" for x :: "'a::len word"
  by (simp add: take_bit_eq_mask)

lemma even_bit: "even x \<longleftrightarrow> \<not> bit x 0" for x :: "'a::len word"
  by (simp add: bit_0)

lemma b_bits:
  assumes "tb_rs1 t < 32" "tb_rs2 t < 32" "tb_func t < 8" "opcode < 128"
  shows "n < 32 \<Longrightarrow> bit (b_to_riscv opcode t) n \<longleftrightarrow>
    (if n < 7 then bit opcode n else if n = 7 then bit (tb_imm t) 11 else if n < 12 then bit (tb_imm t) (n - 7)
     else if n < 15 then bit (tb_func t) (n - 12) else if n < 20 then bit (tb_rs1 t) (n - 15)
     else if n < 25 then bit (tb_rs2 t) (n - 20) else if n < 31 then bit (tb_imm t) (n - 20) else bit (tb_imm t) 12)"
proof -
  have none: "5 \<le> i \<Longrightarrow> \<not> bit (tb_rs1 t) i" "5 \<le> i \<Longrightarrow> \<not> bit (tb_rs2 t) i" "3 \<le> i \<Longrightarrow> \<not> bit (tb_func t) i" "7 \<le> i \<Longrightarrow> \<not> bit opcode i" for i
    using bit_small [of _ 5 i] bit_small [of _ 3 i] bit_small [of _ 7 i] assms by fastforce+
  have suc: "8 \<le> n \<Longrightarrow> Suc (n - 8) = n - 7" by simp
  assume "n < 32"
  then consider "n < 7" | "n = 7" | "8 \<le> n" "n < 12" | "12 \<le> n" "n < 15" | "15 \<le> n" "n < 20" | "20 \<le> n" "n < 25" | "25 \<le> n" "n < 31" | "n = 31"
    by linarith
  then show ?thesis
    unfolding b_to_riscv_def Let_def and_one_bit and_masks
    by cases (simp_all add: bit_simps none less_diff_conv2 suc even_bit del: bit_0)
qed

lemma j_bits:
  assumes "tj_rd t < 32" "opcode < 128"
  shows "n < 32 \<Longrightarrow> bit (j_to_riscv opcode t) n \<longleftrightarrow>
    (if n < 7 then bit opcode n else if n < 12 then bit (tj_rd t) (n - 7) else if n < 20 then bit (tj_imm t) n
     else if n = 20 then bit (tj_imm t) 11 else if n < 31 then bit (tj_imm t) (n - 20) else bit (tj_imm t) 20)"
proof -
  have none: "5 \<le> i \<Longrightarrow> \<not> bit (tj_rd t) i" "7 \<le> i \<Longrightarrow> \<not> bit opcode i" for i
    using bit_small [of _ 5 i] bit_small [of _ 7 i] assms by fastforce+
  have suc: "21 \<le> n \<Longrightarrow> Suc (n - 21) = n - 20" by simp
  assume "n < 32"
  then consider "n < 7" | "7 \<le> n" "n < 12" | "12 \<le> n" "n < 20" | "n = 20" | "21 \<le> n" "n < 31" | "n = 31"
    by linarith
  then show ?thesis
    unfolding j_to_riscv_def Let_def and_one_bit and_masks
    by cases (simp_all add: bit_simps none less_diff_conv2 suc even_bit del: bit_0)
qed

lemma b_from_to:
  assumes "tb_rs1 t < 32" "tb_rs2 t < 32" "tb_func t < 8" "signed_take_bit 12 (tb_imm t) = tb_imm t" "\<not> bit (tb_imm t) 0" "opcode < 128"
  shows "b_from_riscv (b_to_riscv opcode t) = t" and "ucast (b_to_riscv opcode t AND 0x7f) = opcode"
proof -
  note bits = b_bits [OF assms(1,2,3,6)]
  have small: "bit (tb_rs1 t) i \<Longrightarrow> i < 5" "bit (tb_rs2 t) i \<Longrightarrow> i < 5" "bit (tb_func t) i \<Longrightarrow> i < 3" "bit opcode i \<Longrightarrow> i < 7" for i
    using bit_small [of _ 5] bit_small [of _ 3] bit_small [of _ 7] assms by fastforce+
  show "ucast (b_to_riscv opcode t AND 0x7f) = opcode"
    by (rule bit_word_eqI) (auto simp: field_bits bits dest: small)
  have "ucast (drop_bit 15 (b_to_riscv opcode t) AND 0x1f) = tb_rs1 t"
    by (rule bit_word_eqI) (auto simp: field_bits bits dest: small)
  moreover have "ucast (drop_bit 20 (b_to_riscv opcode t) AND 0x1f) = tb_rs2 t"
    by (rule bit_word_eqI) (auto simp: field_bits bits dest: small)
  moreover have "ucast (drop_bit 12 (b_to_riscv opcode t) AND 0x7) = tb_func t"
    by (rule bit_word_eqI) (auto simp: field_bits bits dest: small)
  moreover have "push_bit 12 (drop_bit 31 (b_to_riscv opcode t) AND 1) OR push_bit 11 (drop_bit 7 (b_to_riscv opcode t) AND 1) OR
      push_bit 5 (drop_bit 25 (b_to_riscv opcode t) AND 0x3f) OR push_bit 1 (drop_bit 8 (b_to_riscv opcode t) AND 0xf) = take_bit 13 (tb_imm t)"
    (is "?l = _")
  proof (rule bit_word_eqI)
    fix n assume "n < LENGTH(32)"
    consider "n = 0" | "1 \<le> n" "n < 5" | "5 \<le> n" "n < 11" | "n = 11" | "n = 12" | "13 \<le> n" by linarith
    then show "bit ?l n \<longleftrightarrow> bit (take_bit 13 (tb_imm t)) n"
      unfolding and_one_bit and_masks using assms(5) \<open>n < LENGTH(32)\<close>
      by cases (simp_all add: bit_simps bits less_diff_conv2 even_bit del: bit_0 push_bit_Suc)
  qed
  ultimately show "b_from_riscv (b_to_riscv opcode t) = t" using assms(4) by (simp only: b_from_riscv_def Let_def sign_extended) simp
qed

lemma j_from_to:
  assumes "tj_rd t < 32" "signed_take_bit 20 (tj_imm t) = tj_imm t" "\<not> bit (tj_imm t) 0" "opcode < 128"
  shows "j_from_riscv (j_to_riscv opcode t) = t" and "ucast (j_to_riscv opcode t AND 0x7f) = opcode"
proof -
  note bits = j_bits [OF assms(1,4)]
  have small: "bit (tj_rd t) i \<Longrightarrow> i < 5" "bit opcode i \<Longrightarrow> i < 7" for i
    using bit_small [of _ 5] bit_small [of _ 7] assms by fastforce+
  show "ucast (j_to_riscv opcode t AND 0x7f) = opcode"
    by (rule bit_word_eqI) (auto simp: field_bits bits dest: small)
  have "ucast (drop_bit 7 (j_to_riscv opcode t) AND 0x1f) = tj_rd t"
    by (rule bit_word_eqI) (auto simp: field_bits bits dest: small)
  moreover have "push_bit 20 (drop_bit 31 (j_to_riscv opcode t) AND 1) OR push_bit 12 (drop_bit 12 (j_to_riscv opcode t) AND 0xff) OR
      push_bit 11 (drop_bit 20 (j_to_riscv opcode t) AND 1) OR push_bit 1 (drop_bit 21 (j_to_riscv opcode t) AND 0x3ff) = take_bit 21 (tj_imm t)"
    (is "?l = _")
  proof (rule bit_word_eqI)
    fix n assume "n < LENGTH(32)"
    consider "n = 0" | "1 \<le> n" "n < 11" | "n = 11" | "12 \<le> n" "n < 20" | "n = 20" | "21 \<le> n" by linarith
    then show "bit ?l n \<longleftrightarrow> bit (take_bit 21 (tj_imm t)) n"
      unfolding and_one_bit and_masks using assms(3) \<open>n < LENGTH(32)\<close>
      by cases (simp_all add: bit_simps bits less_diff_conv2 even_bit del: bit_0 push_bit_Suc)
  qed
  ultimately show "j_from_riscv (j_to_riscv opcode t) = t" using assms(2) by (simp only: j_from_riscv_def Let_def sign_extended) simp
qed

end
