(* ===== verification/Rv_Encode.thy ===== *)
theory Rv_Encode
  imports Rv_Inst
begin

unbundle bit_operations_syntax

text \<open>
  The assembler, \<^verbatim>\<open>lp-riscv/lp-riscv-inst/src/encode.rs\<close>: one function per instruction over the packing of its format.
  A register built from a constant or a masked value is the entry of the register list, since it cannot panic.
\<close>

section \<open>Definitions\<close>

definition encode_r :: "u8 \<Rightarrow> Gpr \<Rightarrow> Gpr \<Rightarrow> Gpr \<Rightarrow> u8 \<Rightarrow> u8 \<Rightarrow> u32" where
  "encode_r opcode rd rs1 rs2 funct3 funct7 =
     (let func = push_bit 3 (ucast funct7) OR ucast funct3
      in r_to_riscv opcode \<lparr>tr_rd = gpr_num rd, tr_rs1 = gpr_num rs1, tr_rs2 = gpr_num rs2, tr_func = func\<rparr>)"

definition encode_i :: "u8 \<Rightarrow> Gpr \<Rightarrow> Gpr \<Rightarrow> i32 \<Rightarrow> u8 \<Rightarrow> u32" where
  "encode_i opcode rd rs1 imm funct3 =
     i_to_riscv opcode \<lparr>ti_rd = gpr_num rd, ti_rs1 = gpr_num rs1, ti_imm = imm, ti_func = funct3\<rparr>"

definition encode_s :: "u8 \<Rightarrow> Gpr \<Rightarrow> Gpr \<Rightarrow> i32 \<Rightarrow> u8 \<Rightarrow> u32" where
  "encode_s opcode rs1 rs2 imm funct3 =
     s_to_riscv opcode \<lparr>ts_rs1 = gpr_num rs1, ts_rs2 = gpr_num rs2, ts_imm = imm, ts_func = funct3\<rparr>"

definition encode_u :: "u8 \<Rightarrow> Gpr \<Rightarrow> u32 \<Rightarrow> u32" where
  "encode_u opcode rd imm = u_to_riscv opcode \<lparr>tu_rd = gpr_num rd, tu_imm = imm\<rparr>"

definition encode_j :: "u8 \<Rightarrow> Gpr \<Rightarrow> i32 \<Rightarrow> u32" where
  "encode_j opcode rd imm = j_to_riscv opcode \<lparr>tj_rd = gpr_num rd, tj_imm = imm\<rparr>"

definition encode_b :: "u8 \<Rightarrow> Gpr \<Rightarrow> Gpr \<Rightarrow> i32 \<Rightarrow> u8 \<Rightarrow> u32" where
  "encode_b opcode rs1 rs2 imm funct3 =
     b_to_riscv opcode \<lparr>tb_rs1 = gpr_num rs1, tb_rs2 = gpr_num rs2, tb_imm = imm, tb_func = funct3\<rparr>"

definition encode_i_with_imm_hi :: "u8 \<Rightarrow> Gpr \<Rightarrow> Gpr \<Rightarrow> i32 \<Rightarrow> u8 \<Rightarrow> u8 \<Rightarrow> u32" where
  "encode_i_with_imm_hi opcode rd rs1 imm_lo imm_hi funct3 =
     (let imm_lo = imm_lo AND 0x1f
      in ucast opcode OR push_bit 7 (ucast (gpr_num rd)) OR push_bit 12 (ucast funct3) OR push_bit 15 (ucast (gpr_num rs1)) OR
         push_bit 20 imm_lo OR push_bit 25 (ucast imm_hi))"

definition encode_i_shift_funct7 :: "u8 \<Rightarrow> Gpr \<Rightarrow> Gpr \<Rightarrow> i32 \<Rightarrow> u8 \<Rightarrow> u8 \<Rightarrow> u32" where
  "encode_i_shift_funct7 opcode rd rs1 shamt funct7 funct3 =
     (let shamt = shamt AND 0x1f
      in ucast opcode OR push_bit 7 (ucast (gpr_num rd)) OR push_bit 12 (ucast funct3) OR push_bit 15 (ucast (gpr_num rs1)) OR
         push_bit 20 shamt OR push_bit 25 (ucast funct7))"

definition encode_i_with_funct12 :: "u8 \<Rightarrow> Gpr \<Rightarrow> Gpr \<Rightarrow> u16 \<Rightarrow> u8 \<Rightarrow> u32" where
  "encode_i_with_funct12 opcode rd rs1 funct12 funct3 =
     ucast opcode OR push_bit 7 (ucast (gpr_num rd)) OR push_bit 12 (ucast funct3) OR push_bit 15 (ucast (gpr_num rs1)) OR
       push_bit 20 (ucast funct12)"

definition enc_add :: "Gpr \<Rightarrow> Gpr \<Rightarrow> Gpr \<Rightarrow> u32" where
  "enc_add rd rs1 rs2 = encode_r 0x33 rd rs1 rs2 0x0 0x0"

definition enc_sub :: "Gpr \<Rightarrow> Gpr \<Rightarrow> Gpr \<Rightarrow> u32" where
  "enc_sub rd rs1 rs2 = encode_r 0x33 rd rs1 rs2 0x0 0x20"

definition enc_mul :: "Gpr \<Rightarrow> Gpr \<Rightarrow> Gpr \<Rightarrow> u32" where
  "enc_mul rd rs1 rs2 = encode_r 0x33 rd rs1 rs2 0x0 0x01"

definition enc_mulh :: "Gpr \<Rightarrow> Gpr \<Rightarrow> Gpr \<Rightarrow> u32" where
  "enc_mulh rd rs1 rs2 = encode_r 0x33 rd rs1 rs2 0x1 0x01"

definition enc_mulhsu :: "Gpr \<Rightarrow> Gpr \<Rightarrow> Gpr \<Rightarrow> u32" where
  "enc_mulhsu rd rs1 rs2 = encode_r 0x33 rd rs1 rs2 0x2 0x01"

definition enc_mulhu :: "Gpr \<Rightarrow> Gpr \<Rightarrow> Gpr \<Rightarrow> u32" where
  "enc_mulhu rd rs1 rs2 = encode_r 0x33 rd rs1 rs2 0x3 0x01"

definition enc_div :: "Gpr \<Rightarrow> Gpr \<Rightarrow> Gpr \<Rightarrow> u32" where
  "enc_div rd rs1 rs2 = encode_r 0x33 rd rs1 rs2 0x4 0x01"

definition enc_divu :: "Gpr \<Rightarrow> Gpr \<Rightarrow> Gpr \<Rightarrow> u32" where
  "enc_divu rd rs1 rs2 = encode_r 0x33 rd rs1 rs2 0x5 0x01"

definition enc_rem :: "Gpr \<Rightarrow> Gpr \<Rightarrow> Gpr \<Rightarrow> u32" where
  "enc_rem rd rs1 rs2 = encode_r 0x33 rd rs1 rs2 0x6 0x01"

definition enc_remu :: "Gpr \<Rightarrow> Gpr \<Rightarrow> Gpr \<Rightarrow> u32" where
  "enc_remu rd rs1 rs2 = encode_r 0x33 rd rs1 rs2 0x7 0x01"

definition enc_addi :: "Gpr \<Rightarrow> Gpr \<Rightarrow> i32 \<Rightarrow> u32" where
  "enc_addi rd rs1 imm = encode_i 0x13 rd rs1 imm 0x0"

definition enc_lb :: "Gpr \<Rightarrow> Gpr \<Rightarrow> i32 \<Rightarrow> u32" where
  "enc_lb rd rs1 imm = encode_i 0x03 rd rs1 imm 0x0"

definition enc_lh :: "Gpr \<Rightarrow> Gpr \<Rightarrow> i32 \<Rightarrow> u32" where
  "enc_lh rd rs1 imm = encode_i 0x03 rd rs1 imm 0x1"

definition enc_lw :: "Gpr \<Rightarrow> Gpr \<Rightarrow> i32 \<Rightarrow> u32" where
  "enc_lw rd rs1 imm = encode_i 0x03 rd rs1 imm 0x2"

definition enc_lbu :: "Gpr \<Rightarrow> Gpr \<Rightarrow> i32 \<Rightarrow> u32" where
  "enc_lbu rd rs1 imm = encode_i 0x03 rd rs1 imm 0x4"

definition enc_lhu :: "Gpr \<Rightarrow> Gpr \<Rightarrow> i32 \<Rightarrow> u32" where
  "enc_lhu rd rs1 imm = encode_i 0x03 rd rs1 imm 0x5"

definition enc_sb :: "Gpr \<Rightarrow> Gpr \<Rightarrow> i32 \<Rightarrow> u32" where
  "enc_sb rs1 rs2 imm = encode_s 0x23 rs1 rs2 imm 0x0"

definition enc_sh :: "Gpr \<Rightarrow> Gpr \<Rightarrow> i32 \<Rightarrow> u32" where
  "enc_sh rs1 rs2 imm = encode_s 0x23 rs1 rs2 imm 0x1"

definition enc_sw :: "Gpr \<Rightarrow> Gpr \<Rightarrow> i32 \<Rightarrow> u32" where
  "enc_sw rs1 rs2 imm = encode_s 0x23 rs1 rs2 imm 0x2"

definition enc_jal :: "Gpr \<Rightarrow> i32 \<Rightarrow> u32" where
  "enc_jal rd imm = encode_j 0x6f rd imm"

definition enc_jalr :: "Gpr \<Rightarrow> Gpr \<Rightarrow> i32 \<Rightarrow> u32" where
  "enc_jalr rd rs1 imm = encode_i 0x67 rd rs1 imm 0x0"

definition enc_beq :: "Gpr \<Rightarrow> Gpr \<Rightarrow> i32 \<Rightarrow> u32" where
  "enc_beq rs1 rs2 imm = encode_b 0x63 rs1 rs2 imm 0x0"

definition enc_bne :: "Gpr \<Rightarrow> Gpr \<Rightarrow> i32 \<Rightarrow> u32" where
  "enc_bne rs1 rs2 imm = encode_b 0x63 rs1 rs2 imm 0x1"

definition enc_blt :: "Gpr \<Rightarrow> Gpr \<Rightarrow> i32 \<Rightarrow> u32" where
  "enc_blt rs1 rs2 imm = encode_b 0x63 rs1 rs2 imm 0x4"

definition enc_bge :: "Gpr \<Rightarrow> Gpr \<Rightarrow> i32 \<Rightarrow> u32" where
  "enc_bge rs1 rs2 imm = encode_b 0x63 rs1 rs2 imm 0x5"

definition enc_bltu :: "Gpr \<Rightarrow> Gpr \<Rightarrow> i32 \<Rightarrow> u32" where
  "enc_bltu rs1 rs2 imm = encode_b 0x63 rs1 rs2 imm 0x6"

definition enc_bgeu :: "Gpr \<Rightarrow> Gpr \<Rightarrow> i32 \<Rightarrow> u32" where
  "enc_bgeu rs1 rs2 imm = encode_b 0x63 rs1 rs2 imm 0x7"

definition enc_slt :: "Gpr \<Rightarrow> Gpr \<Rightarrow> Gpr \<Rightarrow> u32" where
  "enc_slt rd rs1 rs2 = encode_r 0x33 rd rs1 rs2 0x2 0x0"

definition enc_slti :: "Gpr \<Rightarrow> Gpr \<Rightarrow> i32 \<Rightarrow> u32" where
  "enc_slti rd rs1 imm = encode_i 0x13 rd rs1 imm 0x2"

definition enc_sltu :: "Gpr \<Rightarrow> Gpr \<Rightarrow> Gpr \<Rightarrow> u32" where
  "enc_sltu rd rs1 rs2 = encode_r 0x33 rd rs1 rs2 0x3 0x0"

definition enc_sltiu :: "Gpr \<Rightarrow> Gpr \<Rightarrow> i32 \<Rightarrow> u32" where
  "enc_sltiu rd rs1 imm = encode_i 0x13 rd rs1 imm 0x3"

definition enc_xori :: "Gpr \<Rightarrow> Gpr \<Rightarrow> i32 \<Rightarrow> u32" where
  "enc_xori rd rs1 imm = encode_i 0x13 rd rs1 imm 0x4"

definition enc_and :: "Gpr \<Rightarrow> Gpr \<Rightarrow> Gpr \<Rightarrow> u32" where
  "enc_and rd rs1 rs2 = encode_r 0x33 rd rs1 rs2 0x7 0x0"

definition enc_andi :: "Gpr \<Rightarrow> Gpr \<Rightarrow> i32 \<Rightarrow> u32" where
  "enc_andi rd rs1 imm = encode_i 0x13 rd rs1 imm 0x7"

definition enc_or :: "Gpr \<Rightarrow> Gpr \<Rightarrow> Gpr \<Rightarrow> u32" where
  "enc_or rd rs1 rs2 = encode_r 0x33 rd rs1 rs2 0x6 0x0"

definition enc_ori :: "Gpr \<Rightarrow> Gpr \<Rightarrow> i32 \<Rightarrow> u32" where
  "enc_ori rd rs1 imm = encode_i 0x13 rd rs1 imm 0x6"

definition enc_xor :: "Gpr \<Rightarrow> Gpr \<Rightarrow> Gpr \<Rightarrow> u32" where
  "enc_xor rd rs1 rs2 = encode_r 0x33 rd rs1 rs2 0x4 0x0"

definition enc_sll :: "Gpr \<Rightarrow> Gpr \<Rightarrow> Gpr \<Rightarrow> u32" where
  "enc_sll rd rs1 rs2 = encode_r 0x33 rd rs1 rs2 0x1 0x0"

definition enc_slli :: "Gpr \<Rightarrow> Gpr \<Rightarrow> i32 \<Rightarrow> u32" where
  "enc_slli rd rs1 imm = (let imm = imm AND 0x1f in encode_i 0x13 rd rs1 imm 0x1)"

definition enc_srl :: "Gpr \<Rightarrow> Gpr \<Rightarrow> Gpr \<Rightarrow> u32" where
  "enc_srl rd rs1 rs2 = encode_r 0x33 rd rs1 rs2 0x5 0x0"

definition enc_srli :: "Gpr \<Rightarrow> Gpr \<Rightarrow> i32 \<Rightarrow> u32" where
  "enc_srli rd rs1 imm = (let imm = imm AND 0x1f in encode_i 0x13 rd rs1 imm 0x5)"

definition enc_sra :: "Gpr \<Rightarrow> Gpr \<Rightarrow> Gpr \<Rightarrow> u32" where
  "enc_sra rd rs1 rs2 = encode_r 0x33 rd rs1 rs2 0x5 0x20"

definition enc_srai :: "Gpr \<Rightarrow> Gpr \<Rightarrow> i32 \<Rightarrow> u32" where
  "enc_srai rd rs1 imm = (let imm_lo = imm AND 0x1f; imm_hi = 0x20 in encode_i_with_imm_hi 0x13 rd rs1 imm_lo imm_hi 0x5)"

definition enc_bclri :: "Gpr \<Rightarrow> Gpr \<Rightarrow> i32 \<Rightarrow> u32" where
  "enc_bclri rd rs1 imm = encode_i_shift_funct7 0x13 rd rs1 imm 0x24 0x1"

definition enc_bseti :: "Gpr \<Rightarrow> Gpr \<Rightarrow> i32 \<Rightarrow> u32" where
  "enc_bseti rd rs1 imm = encode_i_shift_funct7 0x13 rd rs1 imm 0x14 0x1"

definition enc_binvi :: "Gpr \<Rightarrow> Gpr \<Rightarrow> i32 \<Rightarrow> u32" where
  "enc_binvi rd rs1 imm = encode_i_shift_funct7 0x13 rd rs1 imm 0x34 0x1"

definition enc_bexti :: "Gpr \<Rightarrow> Gpr \<Rightarrow> i32 \<Rightarrow> u32" where
  "enc_bexti rd rs1 imm = encode_i_shift_funct7 0x13 rd rs1 imm 0x24 0x5"

definition enc_bclr :: "Gpr \<Rightarrow> Gpr \<Rightarrow> Gpr \<Rightarrow> u32" where
  "enc_bclr rd rs1 rs2 = encode_r 0x33 rd rs1 rs2 0x1 0x24"

definition enc_bset :: "Gpr \<Rightarrow> Gpr \<Rightarrow> Gpr \<Rightarrow> u32" where
  "enc_bset rd rs1 rs2 = encode_r 0x33 rd rs1 rs2 0x1 0x14"

definition enc_binv :: "Gpr \<Rightarrow> Gpr \<Rightarrow> Gpr \<Rightarrow> u32" where
  "enc_binv rd rs1 rs2 = encode_r 0x33 rd rs1 rs2 0x1 0x34"

definition enc_bext :: "Gpr \<Rightarrow> Gpr \<Rightarrow> Gpr \<Rightarrow> u32" where
  "enc_bext rd rs1 rs2 = encode_r 0x33 rd rs1 rs2 0x5 0x24"

definition enc_clz :: "Gpr \<Rightarrow> Gpr \<Rightarrow> u32" where
  "enc_clz rd rs1 = encode_i_with_funct12 0x13 rd rs1 0x600 0x1"

definition enc_ctz :: "Gpr \<Rightarrow> Gpr \<Rightarrow> u32" where
  "enc_ctz rd rs1 = encode_i_with_funct12 0x13 rd rs1 0x601 0x1"

definition enc_cpop :: "Gpr \<Rightarrow> Gpr \<Rightarrow> u32" where
  "enc_cpop rd rs1 = encode_i_with_funct12 0x13 rd rs1 0x602 0x1"

definition enc_sextb :: "Gpr \<Rightarrow> Gpr \<Rightarrow> u32" where
  "enc_sextb rd rs1 = encode_i_with_funct12 0x13 rd rs1 0x604 0x1"

definition enc_sexth :: "Gpr \<Rightarrow> Gpr \<Rightarrow> u32" where
  "enc_sexth rd rs1 = encode_i_with_funct12 0x13 rd rs1 0x605 0x1"

definition enc_zexth :: "Gpr \<Rightarrow> Gpr \<Rightarrow> u32" where
  "enc_zexth rd rs1 = encode_r 0x33 rd rs1 (GPRS ! 0) 0x4 0x04"

definition enc_rori :: "Gpr \<Rightarrow> Gpr \<Rightarrow> i32 \<Rightarrow> u32" where
  "enc_rori rd rs1 imm = encode_i_shift_funct7 0x13 rd rs1 imm 0x30 0x5"

definition enc_rol :: "Gpr \<Rightarrow> Gpr \<Rightarrow> Gpr \<Rightarrow> u32" where
  "enc_rol rd rs1 rs2 = encode_r 0x33 rd rs1 rs2 0x1 0x30"

definition enc_ror :: "Gpr \<Rightarrow> Gpr \<Rightarrow> Gpr \<Rightarrow> u32" where
  "enc_ror rd rs1 rs2 = encode_r 0x33 rd rs1 rs2 0x5 0x30"

definition enc_rev8 :: "Gpr \<Rightarrow> Gpr \<Rightarrow> u32" where
  "enc_rev8 rd rs1 = encode_i_with_funct12 0x13 rd rs1 0x698 0x5"

definition enc_brev8 :: "Gpr \<Rightarrow> Gpr \<Rightarrow> u32" where
  "enc_brev8 rd rs1 = encode_i_with_funct12 0x13 rd rs1 0x687 0x5"

definition enc_orcb :: "Gpr \<Rightarrow> Gpr \<Rightarrow> u32" where
  "enc_orcb rd rs1 = encode_i_with_funct12 0x13 rd rs1 0x287 0x5"

definition enc_min :: "Gpr \<Rightarrow> Gpr \<Rightarrow> Gpr \<Rightarrow> u32" where
  "enc_min rd rs1 rs2 = encode_r 0x33 rd rs1 rs2 0x4 0x05"

definition enc_minu :: "Gpr \<Rightarrow> Gpr \<Rightarrow> Gpr \<Rightarrow> u32" where
  "enc_minu rd rs1 rs2 = encode_r 0x33 rd rs1 rs2 0x5 0x05"

definition enc_max :: "Gpr \<Rightarrow> Gpr \<Rightarrow> Gpr \<Rightarrow> u32" where
  "enc_max rd rs1 rs2 = encode_r 0x33 rd rs1 rs2 0x6 0x05"

definition enc_maxu :: "Gpr \<Rightarrow> Gpr \<Rightarrow> Gpr \<Rightarrow> u32" where
  "enc_maxu rd rs1 rs2 = encode_r 0x33 rd rs1 rs2 0x7 0x05"

definition enc_andn :: "Gpr \<Rightarrow> Gpr \<Rightarrow> Gpr \<Rightarrow> u32" where
  "enc_andn rd rs1 rs2 = encode_r 0x33 rd rs1 rs2 0x7 0x20"

definition enc_orn :: "Gpr \<Rightarrow> Gpr \<Rightarrow> Gpr \<Rightarrow> u32" where
  "enc_orn rd rs1 rs2 = encode_r 0x33 rd rs1 rs2 0x6 0x20"

definition enc_xnor :: "Gpr \<Rightarrow> Gpr \<Rightarrow> Gpr \<Rightarrow> u32" where
  "enc_xnor rd rs1 rs2 = encode_r 0x33 rd rs1 rs2 0x4 0x20"

definition enc_sh1add :: "Gpr \<Rightarrow> Gpr \<Rightarrow> Gpr \<Rightarrow> u32" where
  "enc_sh1add rd rs1 rs2 = encode_r 0x33 rd rs1 rs2 0x2 0x10"

definition enc_sh2add :: "Gpr \<Rightarrow> Gpr \<Rightarrow> Gpr \<Rightarrow> u32" where
  "enc_sh2add rd rs1 rs2 = encode_r 0x33 rd rs1 rs2 0x4 0x10"

definition enc_sh3add :: "Gpr \<Rightarrow> Gpr \<Rightarrow> Gpr \<Rightarrow> u32" where
  "enc_sh3add rd rs1 rs2 = encode_r 0x33 rd rs1 rs2 0x6 0x10"

definition enc_lui :: "Gpr \<Rightarrow> i32 \<Rightarrow> u32" where
  "enc_lui rd imm = encode_u 0x37 rd imm"

definition enc_auipc :: "Gpr \<Rightarrow> i32 \<Rightarrow> u32" where
  "enc_auipc rd imm = encode_u 0x17 rd imm"

definition enc_ecall :: "u32" where
  "enc_ecall = 0x00000073"

definition enc_ebreak :: "u32" where
  "enc_ebreak = 0x00100073"

definition enc_fence_i :: "u32" where
  "enc_fence_i = 0x0010100f"

definition enc_csrrw :: "Gpr \<Rightarrow> Gpr \<Rightarrow> u16 \<Rightarrow> u32" where
  "enc_csrrw rd rs1 csr = encode_i 0x73 rd rs1 (ucast csr) 1"

definition enc_csrrs :: "Gpr \<Rightarrow> Gpr \<Rightarrow> u16 \<Rightarrow> u32" where
  "enc_csrrs rd rs1 csr = encode_i 0x73 rd rs1 (ucast csr) 2"

definition enc_csrrc :: "Gpr \<Rightarrow> Gpr \<Rightarrow> u16 \<Rightarrow> u32" where
  "enc_csrrc rd rs1 csr = encode_i 0x73 rd rs1 (ucast csr) 3"

definition enc_csrrwi :: "Gpr \<Rightarrow> i32 \<Rightarrow> u16 \<Rightarrow> u32" where
  "enc_csrrwi rd imm csr = encode_i 0x73 rd (GPRS ! unat (ucast (imm AND 0x1f) :: u8)) (ucast csr) 5"

definition enc_csrrsi :: "Gpr \<Rightarrow> i32 \<Rightarrow> u16 \<Rightarrow> u32" where
  "enc_csrrsi rd imm csr = encode_i 0x73 rd (GPRS ! unat (ucast (imm AND 0x1f) :: u8)) (ucast csr) 6"

definition enc_csrrci :: "Gpr \<Rightarrow> i32 \<Rightarrow> u16 \<Rightarrow> u32" where
  "enc_csrrci rd imm csr = encode_i 0x73 rd (GPRS ! unat (ucast (imm AND 0x1f) :: u8)) (ucast csr) 7"

subsection \<open>Encoding an instruction\<close>

text \<open>
  \<^verbatim>\<open>Inst::encode\<close>, split by the shape of the operands. Atomic instructions are encoded as fixed words, compressed ones in
  their expanded form.
\<close>

definition encode_op_ggg :: "Op_ggg \<Rightarrow> Gpr \<Rightarrow> Gpr \<Rightarrow> Gpr \<Rightarrow> u32" where
  "encode_op_ggg op rd rs1 rs2 = (case op of
      Op_Add \<Rightarrow> enc_add rd rs1 rs2 | Op_Sub \<Rightarrow> enc_sub rd rs1 rs2
     | Op_Mul \<Rightarrow> enc_mul rd rs1 rs2 | Op_Mulh \<Rightarrow> enc_mulh rd rs1 rs2
     | Op_Mulhsu \<Rightarrow> enc_mulhsu rd rs1 rs2 | Op_Mulhu \<Rightarrow> enc_mulhu rd rs1 rs2
     | Op_Div \<Rightarrow> enc_div rd rs1 rs2 | Op_Divu \<Rightarrow> enc_divu rd rs1 rs2
     | Op_Rem \<Rightarrow> enc_rem rd rs1 rs2 | Op_Remu \<Rightarrow> enc_remu rd rs1 rs2
     | Op_Slt \<Rightarrow> enc_slt rd rs1 rs2 | Op_Sltu \<Rightarrow> enc_sltu rd rs1 rs2
     | Op_And \<Rightarrow> enc_and rd rs1 rs2 | Op_Or \<Rightarrow> enc_or rd rs1 rs2
     | Op_Xor \<Rightarrow> enc_xor rd rs1 rs2 | Op_Sll \<Rightarrow> enc_sll rd rs1 rs2
     | Op_Srl \<Rightarrow> enc_srl rd rs1 rs2 | Op_Sra \<Rightarrow> enc_sra rd rs1 rs2
     | Op_Bclr \<Rightarrow> enc_bclr rd rs1 rs2 | Op_Bset \<Rightarrow> enc_bset rd rs1 rs2
     | Op_Binv \<Rightarrow> enc_binv rd rs1 rs2 | Op_Bext \<Rightarrow> enc_bext rd rs1 rs2
     | Op_Rol \<Rightarrow> enc_rol rd rs1 rs2 | Op_Ror \<Rightarrow> enc_ror rd rs1 rs2
     | Op_Min \<Rightarrow> enc_min rd rs1 rs2 | Op_Minu \<Rightarrow> enc_minu rd rs1 rs2
     | Op_Max \<Rightarrow> enc_max rd rs1 rs2 | Op_Maxu \<Rightarrow> enc_maxu rd rs1 rs2
     | Op_Andn \<Rightarrow> enc_andn rd rs1 rs2 | Op_Orn \<Rightarrow> enc_orn rd rs1 rs2
     | Op_Xnor \<Rightarrow> enc_xnor rd rs1 rs2 | Op_Sh1add \<Rightarrow> enc_sh1add rd rs1 rs2
     | Op_Sh2add \<Rightarrow> enc_sh2add rd rs1 rs2 | Op_Sh3add \<Rightarrow> enc_sh3add rd rs1 rs2
     | Op_ScW \<Rightarrow> 0x1800202f | Op_AmoswapW \<Rightarrow> 0x0800202f | Op_AmoaddW \<Rightarrow> 0x0000202f
     | Op_AmoxorW \<Rightarrow> 0x2000202f | Op_AmoandW \<Rightarrow> 0x6000202f | Op_AmoorW \<Rightarrow> 0x4000202f
     | Op_AmominW \<Rightarrow> 0x8000202f | Op_AmomaxW \<Rightarrow> 0xa000202f | Op_AmominuW \<Rightarrow> 0xc000202f
     | Op_AmomaxuW \<Rightarrow> 0xe000202f)"

definition encode_op_ggi :: "Op_ggi \<Rightarrow> Gpr \<Rightarrow> Gpr \<Rightarrow> i32 \<Rightarrow> u32" where
  "encode_op_ggi op a b imm = (case op of
      Op_Addi \<Rightarrow> enc_addi a b imm | Op_Lb \<Rightarrow> enc_lb a b imm | Op_Lh \<Rightarrow> enc_lh a b imm
     | Op_Lw \<Rightarrow> enc_lw a b imm | Op_Lbu \<Rightarrow> enc_lbu a b imm | Op_Lhu \<Rightarrow> enc_lhu a b imm
     | Op_Sb \<Rightarrow> enc_sb a b imm | Op_Sh \<Rightarrow> enc_sh a b imm | Op_Sw \<Rightarrow> enc_sw a b imm
     | Op_Jalr \<Rightarrow> enc_jalr a b imm | Op_Beq \<Rightarrow> enc_beq a b imm | Op_Bne \<Rightarrow> enc_bne a b imm
     | Op_Blt \<Rightarrow> enc_blt a b imm | Op_Bge \<Rightarrow> enc_bge a b imm | Op_Bltu \<Rightarrow> enc_bltu a b imm
     | Op_Bgeu \<Rightarrow> enc_bgeu a b imm | Op_Slti \<Rightarrow> enc_slti a b imm
     | Op_Sltiu \<Rightarrow> enc_sltiu a b imm | Op_Xori \<Rightarrow> enc_xori a b imm
     | Op_Andi \<Rightarrow> enc_andi a b imm | Op_Ori \<Rightarrow> enc_ori a b imm | Op_Slli \<Rightarrow> enc_slli a b imm
     | Op_Srli \<Rightarrow> enc_srli a b imm | Op_Srai \<Rightarrow> enc_srai a b imm
     | Op_Bclri \<Rightarrow> enc_bclri a b imm | Op_Bseti \<Rightarrow> enc_bseti a b imm
     | Op_Binvi \<Rightarrow> enc_binvi a b imm | Op_Bexti \<Rightarrow> enc_bexti a b imm
     | Op_Rori \<Rightarrow> enc_rori a b imm | Op_CLw \<Rightarrow> enc_lw a b imm | Op_CSw \<Rightarrow> enc_sw a b imm)"

definition encode_op_gi :: "Op_gi \<Rightarrow> Gpr \<Rightarrow> i32 \<Rightarrow> u32" where
  "encode_op_gi op rd imm = (case op of
      Op_Jal \<Rightarrow> enc_jal rd imm | Op_Lui \<Rightarrow> enc_lui rd imm | Op_Auipc \<Rightarrow> enc_auipc rd imm
     | Op_CAddi \<Rightarrow> enc_addi rd rd imm | Op_CLi \<Rightarrow> enc_addi rd Zero imm
     | Op_CLui \<Rightarrow> enc_lui rd imm | Op_CBeqz \<Rightarrow> enc_beq rd Zero imm
     | Op_CBnez \<Rightarrow> enc_bne rd Zero imm | Op_CSlli \<Rightarrow> enc_slli rd rd imm
     | Op_CSrli \<Rightarrow> enc_srli rd rd imm | Op_CSrai \<Rightarrow> enc_srai rd rd imm
     | Op_CAndi \<Rightarrow> enc_andi rd rd imm | Op_CAddi4spn \<Rightarrow> enc_addi rd Sp imm
     | Op_CLwsp \<Rightarrow> enc_lw rd Sp imm | Op_CSwsp \<Rightarrow> enc_sw Sp rd imm)"

definition encode_op_gg :: "Op_gg \<Rightarrow> Gpr \<Rightarrow> Gpr \<Rightarrow> u32" where
  "encode_op_gg op rd rs = (case op of
      Op_Clz \<Rightarrow> enc_clz rd rs | Op_Ctz \<Rightarrow> enc_ctz rd rs | Op_Cpop \<Rightarrow> enc_cpop rd rs
     | Op_Sextb \<Rightarrow> enc_sextb rd rs | Op_Sexth \<Rightarrow> enc_sexth rd rs
     | Op_Zexth \<Rightarrow> enc_zexth rd rs | Op_Rev8 \<Rightarrow> enc_rev8 rd rs | Op_Brev8 \<Rightarrow> enc_brev8 rd rs
     | Op_Orcb \<Rightarrow> enc_orcb rd rs | Op_LrW \<Rightarrow> 0x1000202f | Op_CMv \<Rightarrow> enc_add rd Zero rs
     | Op_CAdd \<Rightarrow> enc_add rd rd rs | Op_CSub \<Rightarrow> enc_sub rd rd rs
     | Op_CAnd \<Rightarrow> enc_and rd rd rs | Op_COr \<Rightarrow> enc_or rd rd rs | Op_CXor \<Rightarrow> enc_xor rd rd rs)"

definition encode_op_n :: "Op_n \<Rightarrow> u32" where
  "encode_op_n op = (case op of
      Op_Ecall \<Rightarrow> enc_ecall | Op_Ebreak \<Rightarrow> enc_ebreak | Op_Fence \<Rightarrow> 0x0000000f
     | Op_FenceI \<Rightarrow> enc_fence_i | Op_CNop \<Rightarrow> enc_addi Zero Zero 0 | Op_CEbreak \<Rightarrow> enc_ebreak)"

definition encode_op_ggc :: "Op_ggc \<Rightarrow> Gpr \<Rightarrow> Gpr \<Rightarrow> u16 \<Rightarrow> u32" where
  "encode_op_ggc op rd rs1 csr = (case op of
      Op_Csrrw \<Rightarrow> enc_csrrw rd rs1 csr | Op_Csrrs \<Rightarrow> enc_csrrs rd rs1 csr
     | Op_Csrrc \<Rightarrow> enc_csrrc rd rs1 csr)"

definition encode_op_gic :: "Op_gic \<Rightarrow> Gpr \<Rightarrow> i32 \<Rightarrow> u16 \<Rightarrow> u32" where
  "encode_op_gic op rd imm csr = (case op of
      Op_Csrrwi \<Rightarrow> enc_csrrwi rd imm csr | Op_Csrrsi \<Rightarrow> enc_csrrsi rd imm csr
     | Op_Csrrci \<Rightarrow> enc_csrrci rd imm csr)"

definition encode_op_i :: "Op_i \<Rightarrow> i32 \<Rightarrow> u32" where
  "encode_op_i op imm = (case op of
      Op_CJ \<Rightarrow> enc_jal Zero imm | Op_CAddi16sp \<Rightarrow> enc_addi Sp Sp imm
     | Op_CJal \<Rightarrow> enc_jal Ra imm)"

definition encode_op_g :: "Op_g \<Rightarrow> Gpr \<Rightarrow> u32" where
  "encode_op_g op rs = (case op of
      Op_CJr \<Rightarrow> enc_jalr Zero rs 0 | Op_CJalr \<Rightarrow> enc_jalr Ra rs 0)"

definition inst_encode :: "Inst \<Rightarrow> u32" where
  "inst_encode i = (case i of
      Inst_ggg op rd rs1 rs2 \<Rightarrow> encode_op_ggg op rd rs1 rs2
    | Inst_ggi op a b imm \<Rightarrow> encode_op_ggi op a b imm
    | Inst_gi op rd imm \<Rightarrow> encode_op_gi op rd imm
    | Inst_gg op rd rs \<Rightarrow> encode_op_gg op rd rs
    | Inst_n op \<Rightarrow> encode_op_n op
    | Inst_ggc op rd rs1 csr \<Rightarrow> encode_op_ggc op rd rs1 csr
    | Inst_gic op rd imm csr \<Rightarrow> encode_op_gic op rd imm csr
    | Inst_i op imm \<Rightarrow> encode_op_i op imm
    | Inst_g op rs \<Rightarrow> encode_op_g op rs)"

end
