(* ===== verification/Rv_Decode.thy ===== *)
theory Rv_Decode
  imports Rv_Encode "HOL-Library.Monad_Syntax"
begin

unbundle bit_operations_syntax

text \<open>
  The disassembler, \<^verbatim>\<open>lp-riscv/lp-riscv-inst/src/decode.rs\<close> and \<^verbatim>\<open>decode_rvc.rs\<close>. A result is \<open>None\<close> for a panic, and
  otherwise an error message or an instruction. Decoding never panics; it inverts the assembler on every instruction
  whose immediate fits its field.
\<close>

section \<open>Definitions\<close>

subsection \<open>Formatting of numbers in messages\<close>

definition digit_char :: "nat \<Rightarrow> char" where
  "digit_char n = char_of (if n < 10 then 48 + n else 87 + n)"

fun radix_digits :: "nat \<Rightarrow> nat \<Rightarrow> string" where
  "radix_digits base n = (if n < base \<or> base < 2 then [digit_char n] else radix_digits base (n div base) @ [digit_char (n mod base)])"

declare radix_digits.simps [simp del]

definition fmt_radix :: "nat \<Rightarrow> nat \<Rightarrow> nat \<Rightarrow> string" where
  "fmt_radix base width n = (let s = radix_digits base n in replicate (width - length s) CHR ''0'' @ s)"

definition hex :: "nat \<Rightarrow> 'a::len word \<Rightarrow> string" where
  "hex width w = fmt_radix 16 width (unat w)"

definition bin :: "nat \<Rightarrow> 'a::len word \<Rightarrow> string" where
  "bin width w = fmt_radix 2 width (unat w)"

definition dec_str :: "'a::len word \<Rightarrow> string" where
  "dec_str w = fmt_radix 10 0 (unat w)"

subsection \<open>Compressed instructions\<close>

type_synonym decoded = "(string + Inst) option"

definition sign_extend :: "u16 \<Rightarrow> nat \<Rightarrow> i32" where
  "sign_extend value bits =
     (let sign_bit = push_bit (bits - 1) 1; mask = push_bit bits 1 - 1; value = ucast (value AND mask)
      in if value AND sign_bit \<noteq> 0 then value OR NOT (ucast mask) else value)"

definition compressed_reg :: "u8 \<Rightarrow> Gpr option" where
  "compressed_reg reg_prime = gpr_new (reg_prime + 8)"

definition decode_cj_offset :: "u16 \<Rightarrow> i32" where
  "decode_cj_offset inst =
     (let offset = (drop_bit 1 inst AND 0x800) OR (drop_bit 7 inst AND 0x10) OR (drop_bit 1 inst AND 0x300) OR
          (push_bit 2 inst AND 0x400) OR (drop_bit 1 inst AND 0x40) OR (push_bit 1 inst AND 0x80) OR
          (drop_bit 2 inst AND 0xe) OR (push_bit 3 inst AND 0x20)
      in sign_extend offset 12)"

definition decode_cb_offset :: "u16 \<Rightarrow> i32" where
  "decode_cb_offset inst =
     (let offset = (drop_bit 4 inst AND 0x100) OR (drop_bit 7 inst AND 0x18) OR (push_bit 1 inst AND 0xc0) OR
          (drop_bit 2 inst AND 0x6) OR (push_bit 3 inst AND 0x20)
      in sign_extend offset 9)"

definition decode_c_addi4spn :: "u16 \<Rightarrow> decoded" where
  "decode_c_addi4spn inst =
     do { rd \<leftarrow> compressed_reg (ucast (drop_bit 2 inst AND 0x7));
          let nzuimm = (drop_bit 7 inst AND 0x30) OR (drop_bit 1 inst AND 0x3c0) OR (drop_bit 4 inst AND 0x4) OR (drop_bit 2 inst AND 0x8);
          Some (if nzuimm = 0 then Inl ''C.ADDI4SPN with nzuimm=0 is reserved'' else Inr (I_CAddi4spn rd (ucast nzuimm))) }"

definition decode_c_lw :: "u16 \<Rightarrow> decoded" where
  "decode_c_lw inst =
     do { rd \<leftarrow> compressed_reg (ucast (drop_bit 2 inst AND 0x7));
          rs \<leftarrow> compressed_reg (ucast (drop_bit 7 inst AND 0x7));
          let uimm = (drop_bit 7 inst AND 0x38) OR (drop_bit 4 inst AND 0x4) OR (push_bit 1 inst AND 0x40);
          Some (Inr (I_CLw rd rs (ucast uimm))) }"

definition decode_c_sw :: "u16 \<Rightarrow> decoded" where
  "decode_c_sw inst =
     do { rs1 \<leftarrow> compressed_reg (ucast (drop_bit 7 inst AND 0x7));
          rs2 \<leftarrow> compressed_reg (ucast (drop_bit 2 inst AND 0x7));
          let uimm = (drop_bit 7 inst AND 0x38) OR (drop_bit 4 inst AND 0x4) OR (push_bit 1 inst AND 0x40);
          Some (Inr (I_CSw rs1 rs2 (ucast uimm))) }"

definition decode_c_addi_or_nop :: "u16 \<Rightarrow> decoded" where
  "decode_c_addi_or_nop inst =
     (let rd = ucast (drop_bit 7 inst AND 0x1f)
      in if rd = 0 then Some (Inr I_CNop)
         else do { let imm = sign_extend ((drop_bit 7 inst AND 0x20) OR (drop_bit 2 inst AND 0x1f)) 6;
                   rd \<leftarrow> gpr_new rd;
                   Some (Inr (I_CAddi rd imm)) })"

definition decode_c_jal :: "u16 \<Rightarrow> decoded" where
  "decode_c_jal inst = Some (Inr (I_CJal (decode_cj_offset inst)))"

definition decode_c_li :: "u16 \<Rightarrow> decoded" where
  "decode_c_li inst =
     (let rd = ucast (drop_bit 7 inst AND 0x1f)
      in if rd = 0 then Some (Inl ''C.LI with rd=x0 is a hint (nop)'')
         else do { let imm = sign_extend ((drop_bit 7 inst AND 0x20) OR (drop_bit 2 inst AND 0x1f)) 6;
                   rd \<leftarrow> gpr_new rd;
                   Some (Inr (I_CLi rd imm)) })"

definition decode_c_addi16sp_or_lui :: "u16 \<Rightarrow> decoded" where
  "decode_c_addi16sp_or_lui inst =
     (let rd = ucast (drop_bit 7 inst AND 0x1f)
      in if rd = 2 then
           let nzimm = sign_extend ((drop_bit 3 inst AND 0x200) OR (drop_bit 2 inst AND 0x10) OR (push_bit 1 inst AND 0x40) OR
                 (push_bit 4 inst AND 0x180) OR (push_bit 3 inst AND 0x20)) 10
           in if nzimm = 0 then Some (Inl ''C.ADDI16SP with nzimm=0 is reserved'') else Some (Inr (I_CAddi16sp nzimm))
         else if rd = 0 then Some (Inl ''C.LUI with rd=x0 is a hint (nop)'')
         else let nzimm = sign_extend ((drop_bit 7 inst AND 0x20) OR (drop_bit 2 inst AND 0x1f)) 6
              in if nzimm = 0 then Some (Inl ''C.LUI with nzimm=0 is reserved'')
                 else do { let imm = push_bit 12 nzimm; rd \<leftarrow> gpr_new rd; Some (Inr (I_CLui rd imm)) })"

definition decode_c_misc_alu :: "u16 \<Rightarrow> decoded" where
  "decode_c_misc_alu inst =
     (let funct2 = drop_bit 10 inst AND 0x3
      in do { rd \<leftarrow> compressed_reg (ucast (drop_bit 7 inst AND 0x7));
              let uimm = (drop_bit 7 inst AND 0x20) OR (drop_bit 2 inst AND 0x1f);
              if funct2 = 0 then Some (Inr (I_CSrli rd (ucast uimm)))
              else if funct2 = 1 then Some (Inr (I_CSrai rd (ucast uimm)))
              else if funct2 = 2 then Some (Inr (I_CAndi rd (sign_extend uimm 6)))
              else if funct2 = 3 then
                do { let funct6 = drop_bit 10 inst AND 0x3f;
                     rs \<leftarrow> compressed_reg (ucast (drop_bit 2 inst AND 0x7));
                     let sel = drop_bit 5 inst AND 0x3;
                     Some (if funct6 = 0x23 \<and> sel = 0 then Inr (I_CSub rd rs)
                           else if funct6 = 0x23 \<and> sel = 1 then Inr (I_CXor rd rs)
                           else if funct6 = 0x23 \<and> sel = 2 then Inr (I_COr rd rs)
                           else if funct6 = 0x23 \<and> sel = 3 then Inr (I_CAnd rd rs)
                           else Inl (''Unknown C.MISC_ALU instruction: funct6='' @ bin 6 funct6 @ '', inst=0x'' @ hex 4 inst)) }
              else None })"

definition decode_c_j :: "u16 \<Rightarrow> decoded" where
  "decode_c_j inst = Some (Inr (I_CJ (decode_cj_offset inst)))"

definition decode_c_beqz :: "u16 \<Rightarrow> decoded" where
  "decode_c_beqz inst =
     do { rs \<leftarrow> compressed_reg (ucast (drop_bit 7 inst AND 0x7)); Some (Inr (I_CBeqz rs (decode_cb_offset inst))) }"

definition decode_c_bnez :: "u16 \<Rightarrow> decoded" where
  "decode_c_bnez inst =
     do { rs \<leftarrow> compressed_reg (ucast (drop_bit 7 inst AND 0x7)); Some (Inr (I_CBnez rs (decode_cb_offset inst))) }"

definition decode_c_slli :: "u16 \<Rightarrow> decoded" where
  "decode_c_slli inst =
     (let rd = ucast (drop_bit 7 inst AND 0x1f)
      in if rd = 0 then Some (Inl ''C.SLLI with rd=x0 is a hint (nop)'')
         else do { let uimm = (drop_bit 7 inst AND 0x20) OR (drop_bit 2 inst AND 0x1f);
                   rd \<leftarrow> gpr_new rd;
                   Some (Inr (I_CSlli rd (ucast uimm))) })"

definition decode_c_lwsp :: "u16 \<Rightarrow> decoded" where
  "decode_c_lwsp inst =
     (let rd = ucast (drop_bit 7 inst AND 0x1f)
      in if rd = 0 then Some (Inl ''C.LWSP with rd=x0 is reserved'')
         else do { let uimm = (drop_bit 7 inst AND 0x20) OR (drop_bit 2 inst AND 0x1c) OR (push_bit 4 inst AND 0xc0);
                   rd \<leftarrow> gpr_new rd;
                   Some (Inr (I_CLwsp rd (ucast uimm))) })"

definition decode_c_misc_cr :: "u16 \<Rightarrow> decoded" where
  "decode_c_misc_cr inst =
     (let rd_rs1 = ucast (drop_bit 7 inst AND 0x1f) :: u8; rs2 = ucast (drop_bit 2 inst AND 0x1f) :: u8; funct4 = drop_bit 12 inst AND 0xf
      in if funct4 = 8 \<and> rs2 = 0 \<and> rd_rs1 \<noteq> 0 then do { rs \<leftarrow> gpr_new rd_rs1; Some (Inr (I_CJr rs)) }
         else if funct4 = 8 \<and> rd_rs1 \<noteq> 0 \<and> rs2 \<noteq> 0 then do { rd \<leftarrow> gpr_new rd_rs1; rs \<leftarrow> gpr_new rs2; Some (Inr (I_CMv rd rs)) }
         else if funct4 = 9 \<and> rs2 = 0 \<and> rd_rs1 = 0 then Some (Inr I_CEbreak)
         else if funct4 = 9 \<and> rs2 = 0 \<and> rd_rs1 \<noteq> 0 then do { rs \<leftarrow> gpr_new rd_rs1; Some (Inr (I_CJalr rs)) }
         else if funct4 = 9 \<and> rd_rs1 \<noteq> 0 \<and> rs2 \<noteq> 0 then do { rd \<leftarrow> gpr_new rd_rs1; rs \<leftarrow> gpr_new rs2; Some (Inr (I_CAdd rd rs)) }
         else Some (Inl (''Unknown C.MISC_CR instruction: funct4='' @ bin 4 funct4 @ '', rd_rs1='' @ dec_str rd_rs1 @ '', rs2='' @
                dec_str rs2 @ '', inst=0x'' @ hex 4 inst)))"

definition decode_c_swsp :: "u16 \<Rightarrow> decoded" where
  "decode_c_swsp inst =
     do { let uimm = (drop_bit 7 inst AND 0x3c) OR (drop_bit 1 inst AND 0xc0);
          rs \<leftarrow> gpr_new (ucast (drop_bit 2 inst AND 0x1f));
          Some (Inr (I_CSwsp rs (ucast uimm))) }"

definition decode_c0 :: "u16 \<Rightarrow> u16 \<Rightarrow> decoded" where
  "decode_c0 inst funct3 =
     (if funct3 = 0 then decode_c_addi4spn inst
      else if funct3 = 2 then decode_c_lw inst
      else if funct3 = 6 then decode_c_sw inst
      else Some (Inl (''Unknown C0 instruction: funct3='' @ bin 3 funct3 @ '', inst=0x'' @ hex 4 inst)))"

definition decode_c1 :: "u16 \<Rightarrow> u16 \<Rightarrow> decoded" where
  "decode_c1 inst funct3 =
     (if funct3 = 0 then decode_c_addi_or_nop inst
      else if funct3 = 1 then decode_c_jal inst
      else if funct3 = 2 then decode_c_li inst
      else if funct3 = 3 then decode_c_addi16sp_or_lui inst
      else if funct3 = 4 then decode_c_misc_alu inst
      else if funct3 = 5 then decode_c_j inst
      else if funct3 = 6 then decode_c_beqz inst
      else if funct3 = 7 then decode_c_bnez inst
      else None)"

definition decode_c2 :: "u16 \<Rightarrow> u16 \<Rightarrow> decoded" where
  "decode_c2 inst funct3 =
     (if funct3 = 0 then decode_c_slli inst
      else if funct3 = 2 then decode_c_lwsp inst
      else if funct3 = 4 then decode_c_misc_cr inst
      else if funct3 = 6 then decode_c_swsp inst
      else Some (Inl (''Unknown C2 instruction: funct3='' @ bin 3 funct3 @ '', inst=0x'' @ hex 4 inst)))"

definition decode_compressed :: "u16 \<Rightarrow> decoded" where
  "decode_compressed inst =
     (let opcode = inst AND 0x3; funct3 = drop_bit 13 inst AND 0x7
      in if opcode = 0 then decode_c0 inst funct3
         else if opcode = 1 then decode_c1 inst funct3
         else if opcode = 2 then decode_c2 inst funct3
         else None)"

subsection \<open>Instructions of 32 bits, by opcode\<close>

definition decode_op :: "u8 \<Rightarrow> u8 \<Rightarrow> Gpr \<Rightarrow> Gpr \<Rightarrow> Gpr \<Rightarrow> string + Inst" where
  "decode_op funct3 funct7 rd rs1 rs2 =
     (if funct3 = 0x0 \<and> funct7 = 0x0 then Inr (I_Add rd rs1 rs2)
      else if funct3 = 0x0 \<and> funct7 = 0x20 then Inr (I_Sub rd rs1 rs2)
      else if funct3 = 0x0 \<and> funct7 = 0x01 then Inr (I_Mul rd rs1 rs2)
      else if funct3 = 0x1 \<and> funct7 = 0x01 then Inr (I_Mulh rd rs1 rs2)
      else if funct3 = 0x2 \<and> funct7 = 0x01 then Inr (I_Mulhsu rd rs1 rs2)
      else if funct3 = 0x3 \<and> funct7 = 0x01 then Inr (I_Mulhu rd rs1 rs2)
      else if funct3 = 0x4 \<and> funct7 = 0x01 then Inr (I_Div rd rs1 rs2)
      else if funct3 = 0x5 \<and> funct7 = 0x01 then Inr (I_Divu rd rs1 rs2)
      else if funct3 = 0x6 \<and> funct7 = 0x01 then Inr (I_Rem rd rs1 rs2)
      else if funct3 = 0x7 \<and> funct7 = 0x01 then Inr (I_Remu rd rs1 rs2)
      else if funct3 = 0x2 \<and> funct7 = 0x0 then Inr (I_Slt rd rs1 rs2)
      else if funct3 = 0x3 \<and> funct7 = 0x0 then Inr (I_Sltu rd rs1 rs2)
      else if funct3 = 0x4 \<and> funct7 = 0x0 then Inr (I_Xor rd rs1 rs2)
      else if funct3 = 0x6 \<and> funct7 = 0x0 then Inr (I_Or rd rs1 rs2)
      else if funct3 = 0x7 \<and> funct7 = 0x0 then Inr (I_And rd rs1 rs2)
      else if funct3 = 0x1 \<and> funct7 = 0x0 then Inr (I_Sll rd rs1 rs2)
      else if funct3 = 0x5 \<and> funct7 = 0x0 then Inr (I_Srl rd rs1 rs2)
      else if funct3 = 0x5 \<and> funct7 = 0x20 then Inr (I_Sra rd rs1 rs2)
      else if funct3 = 0x1 \<and> funct7 = 0x30 then Inr (I_Rol rd rs1 rs2)
      else if funct3 = 0x5 \<and> funct7 = 0x30 then Inr (I_Ror rd rs1 rs2)
      else if funct3 = 0x7 \<and> funct7 = 0x20 then Inr (I_Andn rd rs1 rs2)
      else if funct3 = 0x6 \<and> funct7 = 0x20 then Inr (I_Orn rd rs1 rs2)
      else if funct3 = 0x4 \<and> funct7 = 0x20 then Inr (I_Xnor rd rs1 rs2)
      else if funct3 = 0x4 \<and> funct7 = 0x04 \<and> gpr_num rs2 = 0 then Inr (I_Zexth rd rs1)
      else if funct3 = 0x4 \<and> funct7 = 0x05 then Inr (I_Min rd rs1 rs2)
      else if funct3 = 0x5 \<and> funct7 = 0x05 then Inr (I_Minu rd rs1 rs2)
      else if funct3 = 0x6 \<and> funct7 = 0x05 then Inr (I_Max rd rs1 rs2)
      else if funct3 = 0x7 \<and> funct7 = 0x05 then Inr (I_Maxu rd rs1 rs2)
      else if funct3 = 0x1 \<and> funct7 = 0x24 then Inr (I_Bclr rd rs1 rs2)
      else if funct3 = 0x5 \<and> funct7 = 0x24 then Inr (I_Bext rd rs1 rs2)
      else if funct3 = 0x1 \<and> funct7 = 0x34 then Inr (I_Binv rd rs1 rs2)
      else if funct3 = 0x1 \<and> funct7 = 0x14 then Inr (I_Bset rd rs1 rs2)
      else if funct3 = 0x2 \<and> funct7 = 0x10 then Inr (I_Sh1add rd rs1 rs2)
      else if funct3 = 0x4 \<and> funct7 = 0x10 then Inr (I_Sh2add rd rs1 rs2)
      else if funct3 = 0x6 \<and> funct7 = 0x10 then Inr (I_Sh3add rd rs1 rs2)
      else Inl (''Unknown R-type instruction: funct3=0x'' @ hex 0 funct3 @ '', funct7=0x'' @ hex 0 funct7))"

definition decode_shift_left :: "u32 \<Rightarrow> u8 \<Rightarrow> u8 \<Rightarrow> Gpr \<Rightarrow> Gpr \<Rightarrow> i32 \<Rightarrow> string + Inst" where
  "decode_shift_left inst funct3 funct7 rd rs1 imm_i =
     (let shamt = drop_bit 20 inst AND 0x1f
      in if funct7 = 0x00 \<or> funct7 = 0x01 then Inr (I_Slli rd rs1 imm_i)
         else if funct7 = 0x24 then Inr (I_Bclri rd rs1 shamt)
         else if funct7 = 0x14 then Inr (I_Bseti rd rs1 shamt)
         else if funct7 = 0x34 then Inr (I_Binvi rd rs1 shamt)
         else if funct7 = 0x04 then Inl ''Invalid shift instruction: funct7=0x04 (reserved on RV32, SLLI.UW is RV64-only)''
         else let funct12 = ucast (drop_bit 20 inst AND 0xfff) :: u16
              in if funct12 = 0x600 then Inr (I_Clz rd rs1)
                 else if funct12 = 0x601 then Inr (I_Ctz rd rs1)
                 else if funct12 = 0x602 then Inr (I_Cpop rd rs1)
                 else if funct12 = 0x604 then Inr (I_Sextb rd rs1)
                 else if funct12 = 0x605 then Inr (I_Sexth rd rs1)
                 else Inl (''Unknown I-type instruction: funct3=0x'' @ hex 0 funct3 @ '', funct7=0x'' @ hex 0 funct7 @
                   '', funct12=0x'' @ hex 0 funct12))"

definition decode_shift_right :: "u32 \<Rightarrow> u8 \<Rightarrow> u8 \<Rightarrow> Gpr \<Rightarrow> Gpr \<Rightarrow> i32 \<Rightarrow> string + Inst" where
  "decode_shift_right inst funct3 funct7 rd rs1 imm_i =
     (let funct6 = ucast (drop_bit 26 inst AND 0x3f) :: u8; imm_5_0 = ucast (drop_bit 20 inst AND 0x3f) :: u8
      in if funct7 = 0 then Inr (I_Srli rd rs1 (imm_i AND 0x1f))
         else if funct7 = 0x20 then Inr (I_Srai rd rs1 (imm_i AND 0x1f))
         else if funct6 = 0x10 then Inr (I_Srai rd rs1 (ucast (imm_5_0 AND 0x1f)))
         else if funct6 = 0x0 then Inr (I_Srli rd rs1 (ucast (imm_5_0 AND 0x1f)))
         else let shamt = drop_bit 20 inst AND 0x1f
              in if funct7 = 0x30 then Inr (I_Rori rd rs1 shamt)
                 else if funct7 = 0x24 then Inr (I_Bexti rd rs1 shamt)
                 else let funct12 = ucast (drop_bit 20 inst AND 0xfff) :: u16
                      in if funct12 = 0x698 then Inr (I_Rev8 rd rs1)
                         else if funct12 = 0x287 then Inr (I_Orcb rd rs1)
                         else if funct12 = 0x687 then Inr (I_Brev8 rd rs1)
                         else if funct12 = 0x6b8 then Inl (''Invalid instruction: funct12=0x6b8 (reserved on RV32, this is the RV64 REV8 '' @
                           ''encoding; RV32 REV8 is 0x698)'')
                         else Inl (''Unknown I-type instruction: funct3=0x'' @ hex 0 funct3 @ '', funct7=0x'' @ hex 0 funct7 @
                           '', funct6=0x'' @ hex 0 funct6 @ '', funct12=0x'' @ hex 0 funct12))"

definition decode_op_imm :: "u32 \<Rightarrow> u8 \<Rightarrow> Gpr \<Rightarrow> Gpr \<Rightarrow> i32 \<Rightarrow> string + Inst" where
  "decode_op_imm inst funct3 rd rs1 imm_i =
     (let funct7 = ucast (drop_bit 25 inst AND 0x7f)
      in if funct3 = 0x0 then Inr (I_Addi rd rs1 imm_i)
         else if funct3 = 0x2 then Inr (I_Slti rd rs1 imm_i)
         else if funct3 = 0x3 then Inr (I_Sltiu rd rs1 imm_i)
         else if funct3 = 0x4 then Inr (I_Xori rd rs1 imm_i)
         else if funct3 = 0x6 then Inr (I_Ori rd rs1 imm_i)
         else if funct3 = 0x7 then Inr (I_Andi rd rs1 imm_i)
         else if funct3 = 0x1 then decode_shift_left inst funct3 funct7 rd rs1 imm_i
         else if funct3 = 0x5 then decode_shift_right inst funct3 funct7 rd rs1 imm_i
         else Inl (''Unknown I-type arithmetic instruction: funct3=0x'' @ hex 0 funct3))"

definition decode_load :: "u8 \<Rightarrow> Gpr \<Rightarrow> Gpr \<Rightarrow> i32 \<Rightarrow> string + Inst" where
  "decode_load func rd rs1 imm =
     (if func = 0x0 then Inr (I_Lb rd rs1 imm)
      else if func = 0x1 then Inr (I_Lh rd rs1 imm)
      else if func = 0x2 then Inr (I_Lw rd rs1 imm)
      else if func = 0x3 then Inl ''Invalid load instruction: funct3=0x3 (reserved on RV32, LD is RV64-only)''
      else if func = 0x4 then Inr (I_Lbu rd rs1 imm)
      else if func = 0x5 then Inr (I_Lhu rd rs1 imm)
      else Inl (''Unknown load instruction: funct3=0x'' @ hex 0 func))"

definition decode_store :: "u8 \<Rightarrow> Gpr \<Rightarrow> Gpr \<Rightarrow> i32 \<Rightarrow> string + Inst" where
  "decode_store func rs1 rs2 imm =
     (if func = 0x0 then Inr (I_Sb rs1 rs2 imm)
      else if func = 0x1 then Inr (I_Sh rs1 rs2 imm)
      else if func = 0x2 then Inr (I_Sw rs1 rs2 imm)
      else if func = 0x3 then Inr (I_Sw rs1 rs2 imm)
      else Inl (''Unknown store instruction: funct3=0x'' @ hex 0 func))"

definition decode_float_store :: "u8 \<Rightarrow> Gpr \<Rightarrow> Gpr \<Rightarrow> i32 \<Rightarrow> string + Inst" where
  "decode_float_store func rs1 rs2 imm =
     (if func = 0x1 then Inr (I_Sh rs1 rs2 imm)
      else if func = 0x2 then Inr (I_Sw rs1 rs2 imm)
      else if func = 0x3 then Inr (I_Sw rs1 rs2 imm)
      else Inl (''Unknown floating-point store instruction: funct3=0x'' @ hex 0 func))"

definition decode_branch :: "u8 \<Rightarrow> Gpr \<Rightarrow> Gpr \<Rightarrow> i32 \<Rightarrow> string + Inst" where
  "decode_branch func rs1 rs2 imm =
     (if func = 0x0 then Inr (I_Beq rs1 rs2 imm)
      else if func = 0x1 then Inr (I_Bne rs1 rs2 imm)
      else if func = 0x4 then Inr (I_Blt rs1 rs2 imm)
      else if func = 0x5 then Inr (I_Bge rs1 rs2 imm)
      else if func = 0x6 then Inr (I_Bltu rs1 rs2 imm)
      else if func = 0x7 then Inr (I_Bgeu rs1 rs2 imm)
      else Inl (''Unknown branch instruction: funct3=0x'' @ hex 0 func))"

definition decode_fence :: "u32 \<Rightarrow> Inst" where
  "decode_fence inst =
     (let funct3 = ucast (drop_bit 12 inst AND 0x7) :: u8; imm = ucast (drop_bit 20 inst AND 0xfff) :: u16;
          rs1 = ucast (drop_bit 15 inst AND 0x1f) :: u8; rd = ucast (drop_bit 7 inst AND 0x1f) :: u8
      in if funct3 = 0x1 \<and> imm = 0x001 \<and> rs1 = 0 \<and> rd = 0 then I_FenceI else I_Fence)"

definition decode_system :: "u32 \<Rightarrow> decoded" where
  "decode_system inst =
     (if inst = 0x00000073 then Some (Inr I_Ecall)
      else if inst = 0x00100073 then Some (Inr I_Ebreak)
      else let funct3 = ucast (drop_bit 12 inst AND 0x7) :: u8; rd = ucast (drop_bit 7 inst AND 0x1f) :: u8;
               rs1_or_imm = ucast (drop_bit 15 inst AND 0x1f) :: u8; csr = ucast (drop_bit 20 inst AND 0xfff) :: u16
           in if funct3 = 1 then do { rd \<leftarrow> gpr_new rd; rs1 \<leftarrow> gpr_new rs1_or_imm; Some (Inr (I_Csrrw rd rs1 csr)) }
              else if funct3 = 2 then do { rd \<leftarrow> gpr_new rd; rs1 \<leftarrow> gpr_new rs1_or_imm; Some (Inr (I_Csrrs rd rs1 csr)) }
              else if funct3 = 3 then do { rd \<leftarrow> gpr_new rd; rs1 \<leftarrow> gpr_new rs1_or_imm; Some (Inr (I_Csrrc rd rs1 csr)) }
              else if funct3 = 5 then do { rd \<leftarrow> gpr_new rd; Some (Inr (I_Csrrwi rd (ucast rs1_or_imm) csr)) }
              else if funct3 = 6 then do { rd \<leftarrow> gpr_new rd; Some (Inr (I_Csrrsi rd (ucast rs1_or_imm) csr)) }
              else if funct3 = 7 then do { rd \<leftarrow> gpr_new rd; Some (Inr (I_Csrrci rd (ucast rs1_or_imm) csr)) }
              else Some (Inl (''Unknown CSR instruction: funct3=0x'' @ hex 0 funct3 @ '', inst=0x'' @ hex 8 inst)))"

definition decode_atomic :: "u32 \<Rightarrow> u8 \<Rightarrow> Gpr \<Rightarrow> Gpr \<Rightarrow> Gpr \<Rightarrow> string + Inst" where
  "decode_atomic inst funct3 rd rs1 rs2 =
     (let funct5 = ucast (drop_bit 27 inst AND 0x1f) :: u8
      in if funct3 \<noteq> 0x2 then Inl (''Unsupported atomic width: funct3=0x'' @ hex 0 funct3)
         else if funct5 = 0x02 then Inr (I_LrW rd rs1)
         else if funct5 = 0x03 then Inr (I_ScW rd rs1 rs2)
         else if funct5 = 0x01 then Inr (I_AmoswapW rd rs1 rs2)
         else if funct5 = 0x00 then Inr (I_AmoaddW rd rs1 rs2)
         else if funct5 = 0x04 then Inr (I_AmoxorW rd rs1 rs2)
         else if funct5 = 0x0c then Inr (I_AmoandW rd rs1 rs2)
         else if funct5 = 0x08 then Inr (I_AmoorW rd rs1 rs2)
         else if funct5 = 0x10 then Inr (I_AmominW rd rs1 rs2)
         else if funct5 = 0x14 then Inr (I_AmomaxW rd rs1 rs2)
         else if funct5 = 0x18 then Inr (I_AmominuW rd rs1 rs2)
         else if funct5 = 0x1c then Inr (I_AmomaxuW rd rs1 rs2)
         else Inl (''Unknown atomic instruction: funct5=0x'' @ hex 0 funct5))"

definition decode_instruction :: "u32 \<Rightarrow> decoded" where
  "decode_instruction inst =
     (if inst AND 0x3 \<noteq> 0x3 then decode_compressed (ucast inst)
      else let opcode = ucast (inst AND 0x7f) :: u8
           in if opcode = 0x33 then
                let r = r_from_riscv inst
                in do { rd \<leftarrow> gpr_new (tr_rd r); rs1 \<leftarrow> gpr_new (tr_rs1 r); rs2 \<leftarrow> gpr_new (tr_rs2 r);
                        Some (decode_op (ucast (tr_func r AND 0x7)) (ucast (drop_bit 3 (tr_func r) AND 0x7f)) rd rs1 rs2) }
              else if opcode = 0x13 then
                let i = i_from_riscv inst
                in do { rd \<leftarrow> gpr_new (ti_rd i); rs1 \<leftarrow> gpr_new (ti_rs1 i); Some (decode_op_imm inst (ti_func i) rd rs1 (ti_imm i)) }
              else if opcode = 0x03 then
                let i = i_from_riscv inst
                in do { rd \<leftarrow> gpr_new (ti_rd i); rs1 \<leftarrow> gpr_new (ti_rs1 i); Some (decode_load (ti_func i) rd rs1 (ti_imm i)) }
              else if opcode = 0x23 then
                let s = s_from_riscv inst
                in do { rs1 \<leftarrow> gpr_new (ts_rs1 s); rs2 \<leftarrow> gpr_new (ts_rs2 s); Some (decode_store (ts_func s) rs1 rs2 (ts_imm s)) }
              else if opcode = 0x27 then
                let s = s_from_riscv inst
                in do { rs1 \<leftarrow> gpr_new (ts_rs1 s); rs2 \<leftarrow> gpr_new (ts_rs2 s); Some (decode_float_store (ts_func s) rs1 rs2 (ts_imm s)) }
              else if opcode = 0x37 then
                let u = u_from_riscv inst in do { rd \<leftarrow> gpr_new (tu_rd u); Some (Inr (I_Lui rd (tu_imm u))) }
              else if opcode = 0x17 then
                let u = u_from_riscv inst in do { rd \<leftarrow> gpr_new (tu_rd u); Some (Inr (I_Auipc rd (tu_imm u))) }
              else if opcode = 0x6f then
                let j = j_from_riscv inst in do { rd \<leftarrow> gpr_new (tj_rd j); Some (Inr (I_Jal rd (tj_imm j))) }
              else if opcode = 0x67 then
                let i = i_from_riscv inst
                in do { rd \<leftarrow> gpr_new (ti_rd i); rs1 \<leftarrow> gpr_new (ti_rs1 i);
                        Some (if ti_func i = 0x0 then Inr (I_Jalr rd rs1 (ti_imm i))
                              else Inl (''Unknown jalr instruction: funct3=0x'' @ hex 0 (ti_func i))) }
              else if opcode = 0x63 then
                let b = b_from_riscv inst
                in do { rs1 \<leftarrow> gpr_new (tb_rs1 b); rs2 \<leftarrow> gpr_new (tb_rs2 b); Some (decode_branch (tb_func b) rs1 rs2 (tb_imm b)) }
              else if opcode = 0x0f then Some (Inr (decode_fence inst))
              else if opcode = 0x73 then decode_system inst
              else if opcode = 0x2f then
                let r = r_from_riscv inst
                in do { rd \<leftarrow> gpr_new (tr_rd r); rs1 \<leftarrow> gpr_new (tr_rs1 r); rs2 \<leftarrow> gpr_new (tr_rs2 r);
                        Some (decode_atomic inst (ucast (tr_func r AND 0x7)) rd rs1 rs2) }
              else Some (Inl (''Unknown opcode: 0x'' @ hex 2 opcode)))"

text \<open>The helper for the immediate of AUIPC, \<^verbatim>\<open>auipc_imm.rs\<close>.\<close>

definition sign_extend_and_shift_auipc_imm :: "u32 \<Rightarrow> i32" where
  "sign_extend_and_shift_auipc_imm imm_20bit =
     (let imm_placed = push_bit 12 imm_20bit
      in if imm_20bit AND 0x80000 \<noteq> 0
         then let bits_19_12 = push_bit 12 (drop_bit 12 imm_20bit AND 0xff) in 0xfff00000 OR bits_19_12
         else imm_placed)"

end
