(* ===== verification/Rv_Roundtrip.thy ===== *)
theory Rv_Roundtrip
  imports Rv_Scatter Rv_Encode Rv_Decode
begin

unbundle bit_operations_syntax

text \<open>
  What the assembler of \<^verbatim>\<open>encode.rs\<close> emits is what the decoder of \<^verbatim>\<open>decode.rs\<close> reads back.
\<close>

section \<open>Words by format\<close>

lemma low_bits:
  fixes w :: u32 and opcode :: u8
  assumes "ucast (w AND 0x7f) = opcode"
  shows "w AND 3 = ucast (opcode AND 3)"
  by (rule bit_word_eqI) (auto simp: assms [symmetric] field_bits)

lemma func10:
  fixes funct3 funct7 :: u8
  assumes "funct3 < 8" "funct7 < 128"
  defines "f \<equiv> push_bit 3 (ucast funct7) OR ucast funct3 :: u16"
  shows "f < 1024" "ucast (f AND 7) = funct3" "ucast (drop_bit 3 f AND 0x7f) = funct7"
proof -
  have small: "bit funct3 i \<Longrightarrow> i < 3" "bit funct7 i \<Longrightarrow> i < 7" for i
    using bit_small [of _ 3] bit_small [of _ 7] assms by fastforce+
  have "take_bit 10 f = f" unfolding f_def by (rule bit_word_eqI) (auto simp: field_bits dest: small)
  then show "f < 1024" using and_mask_less' [of 10 f] by (simp add: take_bit_eq_mask)
  show "ucast (f AND 7) = funct3" unfolding f_def by (rule bit_word_eqI) (auto simp: field_bits dest: small)
  show "ucast (drop_bit 3 f AND 0x7f) = funct7" unfolding f_def by (rule bit_word_eqI) (auto simp: field_bits dest: small)
qed

lemma encode_r_read:
  assumes "funct3 < 8" "funct7 < 128" "opcode < 128"
  shows "r_from_riscv (encode_r opcode rd rs1 rs2 funct3 funct7) =
      \<lparr>tr_rd = gpr_num rd, tr_rs1 = gpr_num rs1, tr_rs2 = gpr_num rs2, tr_func = push_bit 3 (ucast funct7) OR ucast funct3\<rparr>"
    and "ucast (encode_r opcode rd rs1 rs2 funct3 funct7 AND 0x7f) = opcode"
  using r_from_to assms func10(1) [OF assms(1,2)] by (simp_all add: encode_r_def Let_def)

lemma decode_encode_r:
  assumes "funct3 < 8" "funct7 < 128"
  shows "decode_instruction (encode_r 0x33 rd rs1 rs2 funct3 funct7) = Some (decode_op funct3 funct7 rd rs1 rs2)"
proof -
  note read = encode_r_read [OF assms, of "0x33"]
  show ?thesis using low_bits [OF read(2)] read func10 [OF assms] by (simp add: decode_instruction_def)
qed

lemma encode_i_read:
  assumes "funct3 < 8" "opcode < 128"
  shows "i_from_riscv (encode_i opcode rd rs1 imm funct3) =
      \<lparr>ti_rd = gpr_num rd, ti_rs1 = gpr_num rs1, ti_imm = signed_take_bit 11 imm, ti_func = funct3\<rparr>"
    and "ucast (encode_i opcode rd rs1 imm funct3 AND 0x7f) = opcode"
    and "drop_bit 20 (encode_i opcode rd rs1 imm funct3) = imm AND 0xfff"
  using i_from_to assms by (simp_all add: encode_i_def)

lemma decode_encode_i:
  assumes "funct3 < 8"
  shows "decode_instruction (encode_i 0x13 rd rs1 imm funct3) =
      Some (decode_op_imm (encode_i 0x13 rd rs1 imm funct3) funct3 rd rs1 (signed_take_bit 11 imm))"
    and "decode_instruction (encode_i 0x03 rd rs1 imm funct3) = Some (decode_load funct3 rd rs1 (signed_take_bit 11 imm))"
  using encode_i_read [OF assms, of "0x13"] encode_i_read [OF assms, of "0x03"] low_bits [of _ "0x13"] low_bits [of _ "0x03"]
  by (simp_all add: decode_instruction_def)

lemma decode_encode_jalr: "decode_instruction (encode_i 0x67 rd rs1 imm 0) = Some (Inr (I_Jalr rd rs1 (signed_take_bit 11 imm)))"
  using encode_i_read [of 0 "0x67"] low_bits [of _ "0x67"] by (simp add: decode_instruction_def)

lemma decode_encode_s:
  assumes "funct3 < 8" "signed_take_bit 11 imm = imm"
  shows "decode_instruction (encode_s 0x23 rs1 rs2 imm funct3) = Some (decode_store funct3 rs1 rs2 imm)"
proof -
  let ?t = "\<lparr>ts_rs1 = gpr_num rs1, ts_rs2 = gpr_num rs2, ts_imm = imm, ts_func = funct3\<rparr>"
  have "s_from_riscv (s_to_riscv 0x23 ?t) = ?t" "ucast (s_to_riscv 0x23 ?t AND 0x7f) = (0x23 :: u8)"
    using s_from_to [of ?t "0x23"] assms by simp_all
  then show ?thesis using low_bits [of _ "0x23"] by (simp add: decode_instruction_def encode_s_def)
qed

lemma decode_encode_b:
  assumes "funct3 < 8" "signed_take_bit 12 imm = imm" "\<not> bit imm 0"
  shows "decode_instruction (encode_b 0x63 rs1 rs2 imm funct3) = Some (decode_branch funct3 rs1 rs2 imm)"
proof -
  let ?t = "\<lparr>tb_rs1 = gpr_num rs1, tb_rs2 = gpr_num rs2, tb_imm = imm, tb_func = funct3\<rparr>"
  have "b_from_riscv (b_to_riscv 0x63 ?t) = ?t" "ucast (b_to_riscv 0x63 ?t AND 0x7f) = (0x63 :: u8)"
    using b_from_to [of ?t "0x63"] assms by simp_all
  then show ?thesis using low_bits [of _ "0x63"] by (simp add: decode_instruction_def encode_b_def)
qed

lemma decode_encode_j:
  assumes "signed_take_bit 20 imm = imm" "\<not> bit imm 0"
  shows "decode_instruction (encode_j 0x6f rd imm) = Some (Inr (I_Jal rd imm))"
proof -
  let ?t = "\<lparr>tj_rd = gpr_num rd, tj_imm = imm\<rparr>"
  have "j_from_riscv (j_to_riscv 0x6f ?t) = ?t" "ucast (j_to_riscv 0x6f ?t AND 0x7f) = (0x6f :: u8)"
    using j_from_to [of ?t "0x6f"] assms by simp_all
  then show ?thesis using low_bits [of _ "0x6f"] by (simp add: decode_instruction_def encode_j_def)
qed

lemma decode_encode_u:
  assumes "take_bit 12 imm = 0"
  shows "decode_instruction (encode_u 0x37 rd imm) = Some (Inr (I_Lui rd imm))"
    and "decode_instruction (encode_u 0x17 rd imm) = Some (Inr (I_Auipc rd imm))"
proof -
  let ?t = "\<lparr>tu_rd = gpr_num rd, tu_imm = imm\<rparr>"
  have "u_from_riscv (u_to_riscv 0x37 ?t) = ?t" "ucast (u_to_riscv 0x37 ?t AND 0x7f) = (0x37 :: u8)"
    "u_from_riscv (u_to_riscv 0x17 ?t) = ?t" "ucast (u_to_riscv 0x17 ?t AND 0x7f) = (0x17 :: u8)"
    using u_from_to [of ?t "0x37"] u_from_to [of ?t "0x17"] assms by simp_all
  then show "decode_instruction (encode_u 0x37 rd imm) = Some (Inr (I_Lui rd imm))"
    and "decode_instruction (encode_u 0x17 rd imm) = Some (Inr (I_Auipc rd imm))"
    using low_bits [of _ "0x37"] low_bits [of _ "0x17"] by (simp_all add: decode_instruction_def encode_u_def)
qed

section \<open>Shifts, counts and system instructions\<close>

lemma shift_imm:
  fixes funct7 :: u8 and sh :: i32
  assumes "funct7 < 128"
  defines "imm \<equiv> push_bit 5 (ucast funct7) OR (sh AND 0x1f)"
  shows "drop_bit 5 imm AND 0x7f = ucast funct7" "imm AND 0x1f = sh AND 0x1f" "drop_bit 6 imm AND 0x3f = drop_bit 1 (ucast funct7)"
proof -
  have small: "bit funct7 i \<Longrightarrow> i < 7" for i using bit_small [of _ 7] assms by fastforce
  show "drop_bit 5 imm AND 0x7f = ucast funct7" "imm AND 0x1f = sh AND 0x1f"
    unfolding imm_def by (rule bit_word_eqI; auto simp: field_bits dest: small)+
  show "drop_bit 6 imm AND 0x3f = drop_bit 1 (ucast funct7)"
    unfolding imm_def by (rule bit_word_eqI) (auto simp: field_bits simp del: drop_bit_Suc dest: small)
qed

lemma shift_fields:
  fixes w imm :: u32
  assumes "drop_bit 20 w = imm AND 0xfff"
  shows "drop_bit 25 w AND 0x7f = drop_bit 5 imm AND 0x7f" "drop_bit 26 w AND 0x3f = drop_bit 6 imm AND 0x3f"
    "drop_bit 20 w AND 0x1f = imm AND 0x1f" "drop_bit 20 w AND 0xfff = imm AND 0xfff"
proof -
  have split: "drop_bit 25 w = drop_bit 5 (drop_bit 20 w)" "drop_bit 26 w = drop_bit 6 (drop_bit 20 w)" by simp_all
  show "drop_bit 25 w AND 0x7f = drop_bit 5 imm AND 0x7f" "drop_bit 26 w AND 0x3f = drop_bit 6 imm AND 0x3f"
    "drop_bit 20 w AND 0x1f = imm AND 0x1f" "drop_bit 20 w AND 0xfff = imm AND 0xfff"
    unfolding split assms by (rule bit_word_eqI; auto simp: field_bits)+
qed

lemma shift_as_i:
  assumes "funct7 < 128"
  shows "encode_i_shift_funct7 opcode rd rs1 sh funct7 funct3 = encode_i opcode rd rs1 (push_bit 5 (ucast funct7) OR (sh AND 0x1f)) funct3"
    and "encode_i_with_imm_hi opcode rd rs1 sh funct7 funct3 = encode_i opcode rd rs1 (push_bit 5 (ucast funct7) OR (sh AND 0x1f)) funct3"
proof -
  have small: "bit funct7 i \<Longrightarrow> i < 7" for i using bit_small [of _ 7] assms by fastforce
  show "encode_i_shift_funct7 opcode rd rs1 sh funct7 funct3 = encode_i opcode rd rs1 (push_bit 5 (ucast funct7) OR (sh AND 0x1f)) funct3"
    unfolding encode_i_shift_funct7_def encode_i_def i_to_riscv_def Let_def
    by (rule bit_word_eqI) (auto simp: field_bits dest: small)
  then show "encode_i_with_imm_hi opcode rd rs1 sh funct7 funct3 = encode_i opcode rd rs1 (push_bit 5 (ucast funct7) OR (sh AND 0x1f)) funct3"
    by (simp add: encode_i_with_imm_hi_def encode_i_shift_funct7_def)
qed

lemma funct12_as_i:
  assumes "funct12 < 4096"
  shows "encode_i_with_funct12 opcode rd rs1 funct12 funct3 = encode_i opcode rd rs1 (ucast funct12) funct3"
proof -
  have small: "bit funct12 i \<Longrightarrow> i < 12" for i using bit_small [of _ 12] assms by fastforce
  show ?thesis
    unfolding encode_i_with_funct12_def encode_i_def i_to_riscv_def Let_def
    by (rule bit_word_eqI) (auto simp: field_bits dest: small)
qed


lemma i_fields:
  assumes "i_from_riscv w = \<lparr>ti_rd = a, ti_rs1 = b, ti_imm = c, ti_func = d\<rparr>"
  shows "ucast (drop_bit 7 w AND 0x1f) = a" "ucast (drop_bit 15 w AND 0x1f) = b" "ucast (drop_bit 12 w AND 0x7) = d"
  using assms by (simp_all add: i_from_riscv_def)

lemma decode_encode_csr:
  fixes rd rs1 :: Gpr and csr :: u16 and funct3 :: u8
  assumes "funct3 < 8" "funct3 \<noteq> 0" "csr < 4096"
  defines "w \<equiv> encode_i 0x73 rd rs1 (ucast csr) funct3"
  shows "decode_instruction w = decode_system w" and "w \<noteq> 0x73" and "w \<noteq> 0x00100073"
    and "ucast (drop_bit 7 w AND 0x1f) = gpr_num rd" and "ucast (drop_bit 15 w AND 0x1f) = gpr_num rs1"
    and "ucast (drop_bit 12 w AND 0x7) = funct3" and "ucast (drop_bit 20 w AND 0xfff) = csr"
proof -
  note read = encode_i_read [OF assms(1), of "0x73" rd rs1 "ucast csr", folded w_def]
  show fields: "ucast (drop_bit 7 w AND 0x1f) = gpr_num rd" "ucast (drop_bit 15 w AND 0x1f) = gpr_num rs1"
    "ucast (drop_bit 12 w AND 0x7) = funct3"
    using i_fields [OF read(1)] by simp_all
  show "w \<noteq> 0x73" "w \<noteq> 0x00100073" using fields(3) assms(2) by auto
  have "bit csr i \<Longrightarrow> i < 12" for i using bit_small [of csr 12] assms(3) by simp
  then show "ucast (drop_bit 20 w AND 0xfff) = csr"
    using read(3) by (auto simp: field_bits intro!: bit_word_eqI)
  show "decode_instruction w = decode_system w"
    using read(2) low_bits [OF read(2)] by (simp add: decode_instruction_def)
qed

lemma GPRS_num: "imm < 32 \<Longrightarrow> gpr_num (GPRS ! unat (ucast (imm AND 0x1f) :: u8)) = ucast imm" for imm :: i32
proof -
  assume "imm < 32"
  have "unat imm < 32" using word_less_nat_alt [of imm 32] \<open>imm < 32\<close> by simp
  then obtain k where k: "imm = of_nat k" "k < 32" using that [of "unat imm"] by simp
  have "\<forall>k \<in> set [0..<32]. gpr_num (GPRS ! unat (ucast (of_nat k AND 0x1f :: i32) :: u8)) = ucast (of_nat k :: i32)"
    by (simp add: upt_rec GPRS_def del: set_upt)
  then show ?thesis using k by simp
qed

section \<open>Encoding an instruction\<close>

text \<open>The instruction a compressed one stands for; every other instruction stands for itself.\<close>

definition expand :: "Inst \<Rightarrow> Inst" where
  "expand i = (case i of
      Inst_ggi Op_CLw rd rs imm \<Rightarrow> I_Lw rd rs imm | Inst_ggi Op_CSw rs1 rs2 imm \<Rightarrow> I_Sw rs1 rs2 imm
    | Inst_gi Op_CAddi rd imm \<Rightarrow> I_Addi rd rd imm | Inst_gi Op_CLi rd imm \<Rightarrow> I_Addi rd Zero imm
    | Inst_gi Op_CLui rd imm \<Rightarrow> I_Lui rd imm | Inst_gi Op_CBeqz rs imm \<Rightarrow> I_Beq rs Zero imm
    | Inst_gi Op_CBnez rs imm \<Rightarrow> I_Bne rs Zero imm | Inst_gi Op_CSlli rd imm \<Rightarrow> I_Slli rd rd imm
    | Inst_gi Op_CSrli rd imm \<Rightarrow> I_Srli rd rd imm | Inst_gi Op_CSrai rd imm \<Rightarrow> I_Srai rd rd imm
    | Inst_gi Op_CAndi rd imm \<Rightarrow> I_Andi rd rd imm | Inst_gi Op_CAddi4spn rd imm \<Rightarrow> I_Addi rd Sp imm
    | Inst_gi Op_CLwsp rd imm \<Rightarrow> I_Lw rd Sp imm | Inst_gi Op_CSwsp rs imm \<Rightarrow> I_Sw Sp rs imm
    | Inst_gg Op_CMv rd rs \<Rightarrow> I_Add rd Zero rs | Inst_gg Op_CAdd rd rs \<Rightarrow> I_Add rd rd rs | Inst_gg Op_CSub rd rs \<Rightarrow> I_Sub rd rd rs
    | Inst_gg Op_CAnd rd rs \<Rightarrow> I_And rd rd rs | Inst_gg Op_COr rd rs \<Rightarrow> I_Or rd rd rs | Inst_gg Op_CXor rd rs \<Rightarrow> I_Xor rd rd rs
    | Inst_n Op_CNop \<Rightarrow> I_Addi Zero Zero 0 | Inst_n Op_CEbreak \<Rightarrow> I_Ebreak
    | Inst_i Op_CJ imm \<Rightarrow> I_Jal Zero imm | Inst_i Op_CAddi16sp imm \<Rightarrow> I_Addi Sp Sp imm | Inst_i Op_CJal imm \<Rightarrow> I_Jal Ra imm
    | Inst_g Op_CJr rs \<Rightarrow> I_Jalr Zero rs 0 | Inst_g Op_CJalr rs \<Rightarrow> I_Jalr Ra rs 0
    | _ \<Rightarrow> i)"

definition atomic_ggg :: "Op_ggg \<Rightarrow> bool" where
  "atomic_ggg op = (op \<in> {Op_ScW, Op_AmoswapW, Op_AmoaddW, Op_AmoxorW, Op_AmoandW, Op_AmoorW, Op_AmominW, Op_AmomaxW, Op_AmominuW, Op_AmomaxuW})"

definition atomic :: "Inst \<Rightarrow> bool" where
  "atomic i = (case i of Inst_ggg op rd rs1 rs2 \<Rightarrow> atomic_ggg op | Inst_gg op rd rs \<Rightarrow> op = Op_LrW | _ \<Rightarrow> False)"

text \<open>Immediates that the instruction's field can hold.\<close>

definition fits_ggi :: "Op_ggi \<Rightarrow> i32 \<Rightarrow> bool" where
  "fits_ggi op imm =
     (if op \<in> {Op_Slli, Op_Srli, Op_Srai, Op_Bclri, Op_Bseti, Op_Binvi, Op_Bexti, Op_Rori} then imm < 32
      else if op \<in> {Op_Beq, Op_Bne, Op_Blt, Op_Bge, Op_Bltu, Op_Bgeu} then signed_take_bit 12 imm = imm \<and> even imm
      else signed_take_bit 11 imm = imm)"

definition fits :: "Inst \<Rightarrow> bool" where
  "fits i = (case i of
      Inst_ggi op a b imm \<Rightarrow> fits_ggi op imm
    | Inst_gi op rd imm \<Rightarrow> (if op = Op_Jal then signed_take_bit 20 imm = imm \<and> even imm else take_bit 12 imm = 0)
    | Inst_ggc op rd rs1 csr \<Rightarrow> csr < 4096
    | Inst_gic op rd imm csr \<Rightarrow> imm < 32 \<and> csr < 4096
    | _ \<Rightarrow> True)"

section \<open>Reading back, shape by shape\<close>

lemma roundtrip_ggg: "\<not> atomic_ggg op \<Longrightarrow> decode_instruction (encode_op_ggg op rd rs1 rs2) = Some (Inr (Inst_ggg op rd rs1 rs2))"
  by (cases op)
    (simp_all add: atomic_ggg_def encode_op_ggg_def decode_encode_r decode_op_def enc_add_def enc_sub_def enc_mul_def enc_mulh_def enc_mulhsu_def
      enc_mulhu_def enc_div_def enc_divu_def enc_rem_def enc_remu_def enc_slt_def enc_sltu_def enc_and_def enc_or_def enc_xor_def enc_sll_def
      enc_srl_def enc_sra_def enc_bclr_def enc_bset_def enc_binv_def enc_bext_def enc_rol_def enc_ror_def enc_min_def enc_minu_def
      enc_max_def enc_maxu_def enc_andn_def enc_orn_def enc_xnor_def enc_sh1add_def enc_sh2add_def enc_sh3add_def)

lemma roundtrip_ggc:
  assumes "csr < 4096"
  shows "decode_instruction (encode_op_ggc op rd rs1 csr) = Some (Inr (Inst_ggc op rd rs1 csr))"
  using decode_encode_csr [of 1 csr rd rs1] decode_encode_csr [of 2 csr rd rs1] decode_encode_csr [of 3 csr rd rs1] assms
  by (cases op) (auto simp: encode_op_ggc_def decode_system_def Let_def enc_csrrw_def enc_csrrs_def enc_csrrc_def)

lemma roundtrip_gic:
  assumes "imm < 32" "csr < 4096"
  shows "decode_instruction (encode_op_gic op rd imm csr) = Some (Inr (Inst_gic op rd imm csr))"
proof -
  let ?g = "GPRS ! unat (ucast (imm AND 0x1f) :: u8)"
  have "bit imm i \<Longrightarrow> i < 8" for i using bit_small [of imm 5 i] assms(1) by simp
  then have "(ucast (ucast imm :: u8) :: i32) = imm" by (auto simp: bit_simps intro!: bit_word_eqI)
  then show ?thesis
    using decode_encode_csr [of 5 csr rd ?g] decode_encode_csr [of 6 csr rd ?g] decode_encode_csr [of 7 csr rd ?g] assms GPRS_num [OF assms(1)]
    by (cases op) (auto simp: encode_op_gic_def decode_system_def Let_def enc_csrrwi_def enc_csrrsi_def enc_csrrci_def)
qed

lemma roundtrip_n: "decode_instruction (encode_op_n op) = Some (Inr (expand (Inst_n op)))"
proof (cases op)
  case Op_CNop
  then show ?thesis using decode_encode_i(1) [of 0 Zero Zero 0] by (simp add: encode_op_n_def enc_addi_def expand_def decode_op_imm_def)
qed (simp_all add: encode_op_n_def expand_def decode_instruction_def decode_system_def decode_fence_def enc_ecall_def enc_ebreak_def enc_fence_i_def)

lemma decode_funct12:
  fixes funct12 :: u16 and rd rs1 :: Gpr
  assumes "funct12 < 4096"
  defines "w \<equiv> encode_i_with_funct12 0x13 rd rs1 funct12 1" and "v \<equiv> encode_i_with_funct12 0x13 rd rs1 funct12 5"
  shows "decode_instruction w = Some (decode_op_imm w 1 rd rs1 (signed_take_bit 11 (ucast funct12)))"
    and "decode_instruction v = Some (decode_op_imm v 5 rd rs1 (signed_take_bit 11 (ucast funct12)))"
    and "drop_bit 20 w = ucast funct12 AND 0xfff" and "drop_bit 20 v = ucast funct12 AND 0xfff"
  unfolding w_def v_def funct12_as_i [OF assms(1)] by (simp_all add: decode_encode_i encode_i_read)

lemma roundtrip_gg: "op \<in> {Op_Clz, Op_Ctz, Op_Cpop, Op_Sextb, Op_Sexth, Op_Zexth, Op_Rev8, Op_Brev8, Op_Orcb} \<Longrightarrow>
    decode_instruction (encode_op_gg op rd rs) = Some (Inr (Inst_gg op rd rs))"
  by (auto simp: encode_op_gg_def decode_encode_r decode_op_def decode_funct12 shift_fields [OF decode_funct12(3)] shift_fields [OF decode_funct12(4)]
      decode_op_imm_def decode_shift_left_def decode_shift_right_def GPRS_def
      enc_clz_def enc_ctz_def enc_cpop_def enc_sextb_def enc_sexth_def enc_zexth_def enc_rev8_def enc_brev8_def enc_orcb_def)

lemma decode_shift:
  fixes funct7 :: u8 and sh :: i32 and rd rs1 :: Gpr
  assumes "funct7 < 128" "sh < 32"
  defines "imm \<equiv> push_bit 5 (ucast funct7) OR (sh AND 0x1f)"
  defines "w \<equiv> encode_i 0x13 rd rs1 imm 1" and "v \<equiv> encode_i 0x13 rd rs1 imm 5"
  shows "decode_instruction w = Some (decode_op_imm w 1 rd rs1 (signed_take_bit 11 imm))"
    and "decode_instruction v = Some (decode_op_imm v 5 rd rs1 (signed_take_bit 11 imm))"
    and "drop_bit 25 w AND 0x7f = ucast funct7" and "drop_bit 25 v AND 0x7f = ucast funct7"
    and "drop_bit 26 v AND 0x3f = drop_bit 1 (ucast funct7)"
    and "drop_bit 20 w AND 0x1f = sh" and "drop_bit 20 v AND 0x1f = sh" and "signed_take_bit 11 imm AND 0x1f = sh"
proof -
  have sh: "sh AND 0x1f = sh" using less_mask_eq [of sh 5] assms(2) by (simp add: mask_eq_exp_minus_1)
  have fields: "drop_bit 20 w = imm AND 0xfff" "drop_bit 20 v = imm AND 0xfff" by (simp_all add: w_def v_def encode_i_read)
  show "decode_instruction w = Some (decode_op_imm w 1 rd rs1 (signed_take_bit 11 imm))"
    and "decode_instruction v = Some (decode_op_imm v 5 rd rs1 (signed_take_bit 11 imm))" by (simp_all add: w_def v_def decode_encode_i)
  show "drop_bit 25 w AND 0x7f = ucast funct7" and "drop_bit 25 v AND 0x7f = ucast funct7"
    and "drop_bit 26 v AND 0x3f = drop_bit 1 (ucast funct7)" and "drop_bit 20 w AND 0x1f = sh" and "drop_bit 20 v AND 0x1f = sh"
    using shift_fields [OF fields(1)] shift_fields [OF fields(2)] shift_imm [OF assms(1), of sh, folded imm_def] sh by simp_all
  have "signed_take_bit 11 imm AND 0x1f = imm AND 0x1f" by (rule bit_word_eqI) (auto simp: field_bits min_def)
  then show "signed_take_bit 11 imm AND 0x1f = sh" using shift_imm [OF assms(1), of sh, folded imm_def] sh by simp
qed

lemma small_signed: "imm < 32 \<Longrightarrow> signed_take_bit 11 imm = imm" for imm :: i32
proof -
  assume "imm < 32"
  then have "5 \<le> i \<Longrightarrow> \<not> bit imm i" for i using bit_small [of imm 5 i] by auto
  then show ?thesis by (intro bit_word_eqI) (auto simp: bit_simps min_def)
qed

lemma decode_shift_op:
  fixes funct7 :: u8 and sh :: i32 and rd rs1 :: Gpr
  assumes "funct7 < 128" "sh < 32"
  defines "imm \<equiv> push_bit 5 (ucast funct7) OR (sh AND 0x1f)"
  shows "funct7 = 0 \<Longrightarrow> decode_instruction (encode_i 0x13 rd rs1 imm 1) = Some (Inr (I_Slli rd rs1 (signed_take_bit 11 imm)))"
    and "funct7 = 0x24 \<Longrightarrow> decode_instruction (encode_i 0x13 rd rs1 imm 1) = Some (Inr (I_Bclri rd rs1 sh))"
    and "funct7 = 0x14 \<Longrightarrow> decode_instruction (encode_i 0x13 rd rs1 imm 1) = Some (Inr (I_Bseti rd rs1 sh))"
    and "funct7 = 0x34 \<Longrightarrow> decode_instruction (encode_i 0x13 rd rs1 imm 1) = Some (Inr (I_Binvi rd rs1 sh))"
    and "funct7 = 0 \<Longrightarrow> decode_instruction (encode_i 0x13 rd rs1 imm 5) = Some (Inr (I_Srli rd rs1 sh))"
    and "funct7 = 0x20 \<Longrightarrow> decode_instruction (encode_i 0x13 rd rs1 imm 5) = Some (Inr (I_Srai rd rs1 sh))"
    and "funct7 = 0x24 \<Longrightarrow> decode_instruction (encode_i 0x13 rd rs1 imm 5) = Some (Inr (I_Bexti rd rs1 sh))"
    and "funct7 = 0x30 \<Longrightarrow> decode_instruction (encode_i 0x13 rd rs1 imm 5) = Some (Inr (I_Rori rd rs1 sh))"
proof -
  define w where "w = encode_i 0x13 rd rs1 imm 1"
  define v where "v = encode_i 0x13 rd rs1 imm 5"
  note d = decode_shift(1-7) [OF assms(1,2), folded imm_def, of rd rs1, folded w_def v_def]
  note unfold = decode_op_imm_def decode_shift_left_def decode_shift_right_def Let_def
  note d' = d(3-7) decode_shift(8) [OF assms(1,2), folded imm_def]
  show "funct7 = 0 \<Longrightarrow> decode_instruction w = Some (Inr (I_Slli rd rs1 (signed_take_bit 11 imm)))"
    and "funct7 = 0x24 \<Longrightarrow> decode_instruction w = Some (Inr (I_Bclri rd rs1 sh))"
    and "funct7 = 0x14 \<Longrightarrow> decode_instruction w = Some (Inr (I_Bseti rd rs1 sh))"
    and "funct7 = 0x34 \<Longrightarrow> decode_instruction w = Some (Inr (I_Binvi rd rs1 sh))"
    by (simp_all add: d(1) unfold d')
  show "funct7 = 0 \<Longrightarrow> decode_instruction v = Some (Inr (I_Srli rd rs1 sh))"
    and "funct7 = 0x20 \<Longrightarrow> decode_instruction v = Some (Inr (I_Srai rd rs1 sh))"
    and "funct7 = 0x24 \<Longrightarrow> decode_instruction v = Some (Inr (I_Bexti rd rs1 sh))"
    and "funct7 = 0x30 \<Longrightarrow> decode_instruction v = Some (Inr (I_Rori rd rs1 sh))"
    by (simp_all add: d(2) unfold d')
qed

lemma roundtrip_shift:
  assumes "imm < 32"
  shows "decode_instruction (enc_slli rd rs1 imm) = Some (Inr (I_Slli rd rs1 imm))"
    and "decode_instruction (enc_srli rd rs1 imm) = Some (Inr (I_Srli rd rs1 imm))"
    and "decode_instruction (enc_srai rd rs1 imm) = Some (Inr (I_Srai rd rs1 imm))"
    and "decode_instruction (enc_bclri rd rs1 imm) = Some (Inr (I_Bclri rd rs1 imm))"
    and "decode_instruction (enc_bseti rd rs1 imm) = Some (Inr (I_Bseti rd rs1 imm))"
    and "decode_instruction (enc_binvi rd rs1 imm) = Some (Inr (I_Binvi rd rs1 imm))"
    and "decode_instruction (enc_bexti rd rs1 imm) = Some (Inr (I_Bexti rd rs1 imm))"
    and "decode_instruction (enc_rori rd rs1 imm) = Some (Inr (I_Rori rd rs1 imm))"
proof -
  have mask: "imm AND 0x1f = imm" using less_mask_eq [of imm 5] assms by (simp add: mask_eq_exp_minus_1)
  note d = decode_shift_op [OF _ assms]
  show "decode_instruction (enc_slli rd rs1 imm) = Some (Inr (I_Slli rd rs1 imm))"
    using d(1) [of 0 rd rs1] mask small_signed [OF assms] by (simp add: enc_slli_def)
  show "decode_instruction (enc_srli rd rs1 imm) = Some (Inr (I_Srli rd rs1 imm))"
    using d(5) [of 0 rd rs1] mask by (simp add: enc_srli_def)
  show "decode_instruction (enc_srai rd rs1 imm) = Some (Inr (I_Srai rd rs1 imm))"
    unfolding enc_srai_def Let_def mask by (subst shift_as_i(2); (rule d)?; simp)
  show "decode_instruction (enc_bclri rd rs1 imm) = Some (Inr (I_Bclri rd rs1 imm))"
    and "decode_instruction (enc_bseti rd rs1 imm) = Some (Inr (I_Bseti rd rs1 imm))"
    and "decode_instruction (enc_binvi rd rs1 imm) = Some (Inr (I_Binvi rd rs1 imm))"
    and "decode_instruction (enc_bexti rd rs1 imm) = Some (Inr (I_Bexti rd rs1 imm))"
    and "decode_instruction (enc_rori rd rs1 imm) = Some (Inr (I_Rori rd rs1 imm))"
    unfolding enc_bclri_def enc_bseti_def enc_binvi_def enc_bexti_def enc_rori_def
    by (subst shift_as_i(1); (rule d)?; simp)+
qed

lemma roundtrip_ggi:
  assumes "fits_ggi op imm" "op \<noteq> Op_CLw" "op \<noteq> Op_CSw"
  shows "decode_instruction (encode_op_ggi op a b imm) = Some (Inr (Inst_ggi op a b imm))"
  using assms roundtrip_shift [of imm a b]
  by (cases op)
    (auto simp: encode_op_ggi_def fits_ggi_def decode_encode_i decode_encode_jalr decode_encode_s decode_encode_b bit_0 decode_op_imm_def
      decode_load_def decode_store_def decode_branch_def enc_addi_def enc_lb_def enc_lh_def enc_lw_def enc_lbu_def enc_lhu_def enc_sb_def
      enc_sh_def enc_sw_def enc_jalr_def enc_beq_def enc_bne_def enc_blt_def enc_bge_def enc_bltu_def enc_bgeu_def enc_slti_def
      enc_sltiu_def enc_xori_def enc_andi_def enc_ori_def)

lemma roundtrip_gi:
  assumes "fits (Inst_gi op rd imm)" "op \<in> {Op_Jal, Op_Lui, Op_Auipc}"
  shows "decode_instruction (encode_op_gi op rd imm) = Some (Inr (Inst_gi op rd imm))"
  using assms decode_encode_u [of imm rd] decode_encode_j [of imm rd]
  by (auto simp: fits_def encode_op_gi_def enc_jal_def enc_lui_def enc_auipc_def bit_0)

section \<open>Properties\<close>

lemma encode_expand: "inst_encode (expand i) = inst_encode i"
  by (cases i)
    (auto simp: expand_def inst_encode_def encode_op_ggi_def encode_op_gi_def encode_op_gg_def encode_op_ggg_def encode_op_n_def encode_op_i_def
      encode_op_g_def split: Op_ggi.splits Op_gi.splits Op_gg.splits Op_n.splits Op_i.splits Op_g.splits)

lemma expand_expand: "expand (expand i) = expand i"
  by (cases i) (auto simp: expand_def split: Op_ggi.splits Op_gi.splits Op_gg.splits Op_n.splits Op_i.splits Op_g.splits)

lemma atomic_expand: "atomic (expand i) = atomic i"
  by (cases i) (auto simp: expand_def atomic_def atomic_ggg_def split: Op_ggi.splits Op_gi.splits Op_gg.splits Op_n.splits Op_i.splits Op_g.splits)

lemma roundtrip_basic:
  assumes "\<not> atomic i" "expand i = i" "fits i"
  shows "decode_instruction (inst_encode i) = Some (Inr i)"
proof (cases i)
  case (Inst_ggg op rd rs1 rs2)
  then show ?thesis using assms roundtrip_ggg by (simp add: atomic_def inst_encode_def)
next
  case (Inst_ggi op a b imm)
  then have "op \<noteq> Op_CLw" "op \<noteq> Op_CSw" using assms(2) by (auto simp: expand_def)
  then show ?thesis using Inst_ggi assms(3) roundtrip_ggi by (simp add: fits_def inst_encode_def)
next
  case (Inst_gi op rd imm)
  then have "op \<in> {Op_Jal, Op_Lui, Op_Auipc}" using assms(2) by (cases op) (auto simp: expand_def)
  then show ?thesis using Inst_gi assms(3) roundtrip_gi by (simp add: inst_encode_def)
next
  case (Inst_gg op rd rs)
  then have "op \<in> {Op_Clz, Op_Ctz, Op_Cpop, Op_Sextb, Op_Sexth, Op_Zexth, Op_Rev8, Op_Brev8, Op_Orcb}"
    using assms(1,2) by (cases op) (auto simp: expand_def atomic_def)
  then show ?thesis using Inst_gg roundtrip_gg by (simp add: inst_encode_def)
next
  case (Inst_n op)
  then show ?thesis using assms(2) roundtrip_n [of op] by (simp add: inst_encode_def)
next
  case (Inst_ggc op rd rs1 csr)
  then show ?thesis using assms(3) roundtrip_ggc by (simp add: fits_def inst_encode_def)
next
  case (Inst_gic op rd imm csr)
  then show ?thesis using assms(3) roundtrip_gic by (simp add: fits_def inst_encode_def)
next
  case (Inst_i op imm)
  then show ?thesis using assms(2) by (cases op) (auto simp: expand_def)
next
  case (Inst_g op rs)
  then show ?thesis using assms(2) by (cases op) (auto simp: expand_def)
qed

text \<open>C13. Every instruction but the atomic ones, whose immediate the field of its encoding can hold, is encoded to a word that the
  decoder reads back as that instruction, operands included; a compressed instruction is read back as the one it stands for.\<close>

theorem decode_encode:
  assumes "\<not> atomic i" "fits (expand i)"
  shows "decode_instruction (inst_encode i) = Some (Inr (expand i))"
  using roundtrip_basic [of "expand i"] assms by (simp add: atomic_expand expand_expand encode_expand)

lemma decode_encode_witness:
  "decode_instruction 0xfe62cee3 = Some (Inr (I_Blt T0 T1 (- 4))) \<and> decode_instruction 0x00812503 = Some (Inr (I_Lw A0 Sp 8))"
proof
  have "inst_encode (I_Blt T0 T1 (- 4)) = 0xfe62cee3"
    by (simp add: inst_encode_def encode_op_ggi_def enc_blt_def encode_b_def b_to_riscv_def Let_def)
  then show "decode_instruction 0xfe62cee3 = Some (Inr (I_Blt T0 T1 (- 4)))"
    using decode_encode [of "I_Blt T0 T1 (- 4)"] by (simp add: atomic_def expand_def fits_def fits_ggi_def)
  have "inst_encode (I_CLwsp A0 8) = 0x00812503"
    by (simp add: inst_encode_def encode_op_gi_def enc_lw_def encode_i_def i_to_riscv_def Let_def)
  then show "decode_instruction 0x00812503 = Some (Inr (I_Lw A0 Sp 8))"
    using decode_encode [of "I_CLwsp A0 8"] by (simp add: atomic_def expand_def fits_def fits_ggi_def)
qed

text \<open>The fixed words that stand for atomic instructions drop the operands: whatever registers an atomic instruction names,
  the decoder reads its encoding back as the same operation on register zero alone.\<close>

lemma atomic_operands_lost:
  "(\<forall>op \<in> {Op_ScW, Op_AmoswapW, Op_AmoaddW, Op_AmoxorW, Op_AmoandW, Op_AmoorW, Op_AmominW, Op_AmomaxW, Op_AmominuW, Op_AmomaxuW}.
      decode_instruction (inst_encode (Inst_ggg op rd rs1 rs2)) = Some (Inr (Inst_ggg op Zero Zero Zero))) \<and>
   decode_instruction (inst_encode (I_LrW rd rs1)) = Some (Inr (I_LrW Zero Zero))"
  by (simp add: inst_encode_def encode_op_ggg_def encode_op_gg_def decode_instruction_def decode_atomic_def r_from_riscv_def gpr_new_def GPRS_def)

end
