(* ===== verification/Rv_Total.thy ===== *)
theory Rv_Total
  imports Rv_Format Rv_Decode
begin

unbundle bit_operations_syntax

text \<open>
  Decoding never panics: every register number that reaches \<^verbatim>\<open>Gpr::new\<close> was masked below 32, and the unreachable
  match arms are unreachable. Branch and jump offsets are even and in the range of their field.
\<close>

section \<open>Register numbers in range\<close>

lemma masked_less:
  "(ucast (x AND 0x1f) :: u8) < 32" "(ucast (x AND 0x7) :: u8) < 8" for x :: "'a::len word"
proof -
  have "(ucast (x AND 0x1f) :: u8) = ucast x AND mask 5" "(ucast (x AND 0x7) :: u8) = ucast x AND mask 3"
    by (rule bit_word_eqI; auto simp: field_bits)+
  then show "(ucast (x AND 0x1f) :: u8) < 32" "(ucast (x AND 0x7) :: u8) < 8"
    using and_mask_less' [of 5 "ucast x :: u8"] and_mask_less' [of 3 "ucast x :: u8"] by simp_all
qed

lemma gpr_new_masked [simp]: "gpr_new (ucast (x AND 0x1f)) = Some (GPRS ! unat (ucast (x AND 0x1f) :: u8))" for x :: "'a::len word"
  using masked_less(1) [of x] by (simp add: gpr_new_def)

lemma compressed_reg_masked [simp]: "compressed_reg (ucast (x AND 0x7)) = Some (GPRS ! unat (ucast (x AND 0x7) + 8 :: u8))" for x :: "'a::len word"
  using masked_less(2) [of x] by (simp add: compressed_reg_def gpr_new_def word_less_nat_alt unat_word_ariths)

lemma gpr_new_0 [simp]: "gpr_new 0 = Some Zero"
  by (simp add: gpr_new_def GPRS_def)

section \<open>No panic\<close>

lemma masked_cases:
  fixes x :: u16
  shows "x AND 3 \<in> {0, 1, 2, 3}" and "x AND 7 \<in> {0, 1, 2, 3, 4, 5, 6, 7}"
proof -
  have small: "unat (x AND 3) < 4" "unat (x AND 7) < 8"
    using and_mask_less' [of 2 x] and_mask_less' [of 3 x] by (simp_all add: word_less_nat_alt mask_eq_exp_minus_1)
  have four: "(of_nat k :: u16) \<in> {0, 1, 2, 3}" if "k < 4" for k
  proof -
    from that consider "k = 0" | "k = 1" | "k = 2" | "k = 3" by linarith
    then show ?thesis by cases simp_all
  qed
  have eight: "(of_nat k :: u16) \<in> {0, 1, 2, 3, 4, 5, 6, 7}" if "k < 8" for k
  proof -
    from that consider "k = 0" | "k = 1" | "k = 2" | "k = 3" | "k = 4" | "k = 5" | "k = 6" | "k = 7" by linarith
    then show ?thesis by cases simp_all
  qed
  show "x AND 3 \<in> {0, 1, 2, 3}" and "x AND 7 \<in> {0, 1, 2, 3, 4, 5, 6, 7}"
    using four [OF small(1)] eight [OF small(2)] by simp_all
qed

lemma decode_c0_total: "decode_c0 inst funct3 \<noteq> None"
  by (simp add: decode_c0_def decode_c_addi4spn_def decode_c_lw_def decode_c_sw_def Let_def)

lemma decode_c_misc_alu_total: "decode_c_misc_alu inst \<noteq> None"
  using masked_cases(1) [of "drop_bit 10 inst"] by (auto simp: decode_c_misc_alu_def Let_def)

lemma decode_c1_total: "decode_c1 inst (x AND 7) \<noteq> None"
  using masked_cases(2) [of x] decode_c_misc_alu_total [of inst]
  by (auto simp: decode_c1_def decode_c_addi_or_nop_def decode_c_jal_def decode_c_li_def decode_c_addi16sp_or_lui_def decode_c_j_def
      decode_c_beqz_def decode_c_bnez_def Let_def)

lemma decode_c2_total: "decode_c2 inst funct3 \<noteq> None"
  by (simp add: decode_c2_def decode_c_slli_def decode_c_lwsp_def decode_c_misc_cr_def decode_c_swsp_def Let_def)

lemma decode_compressed_total: "inst AND 3 \<noteq> 3 \<Longrightarrow> decode_compressed inst \<noteq> None"
  using masked_cases(1) [of inst] decode_c0_total [of inst] decode_c1_total [of inst] decode_c2_total [of inst]
  by (auto simp: decode_compressed_def Let_def)

lemma decode_system_total: "decode_system inst \<noteq> None"
  by (simp add: decode_system_def Let_def)

lemma low_of_ucast: "(ucast w :: u16) AND 3 = 3 \<Longrightarrow> w AND 3 = 3" for w :: u32
proof -
  have "w AND 3 = ucast ((ucast w :: u16) AND 3)" by (rule bit_word_eqI) (auto simp: field_bits)
  then show "(ucast w :: u16) AND 3 = 3 \<Longrightarrow> w AND 3 = 3" by simp
qed

text \<open>C39. Decoding never panics: for every 32-bit word, compressed or not, the decoder returns an instruction or an error
  message; no register number out of range reaches the constructor, and no unreachable arm is reached.\<close>

theorem decode_total: "decode_instruction w \<noteq> None"
proof (cases "w AND 3 = 3")
  case True
  then show ?thesis using decode_system_total [of w]
    by (simp add: decode_instruction_def Let_def r_from_riscv_def i_from_riscv_def s_from_riscv_def b_from_riscv_def j_from_riscv_def u_from_riscv_def)
next
  case False
  then show ?thesis using decode_compressed_total [of "ucast w"] low_of_ucast [of w] by (auto simp: decode_instruction_def)
qed

section \<open>Sign extension and offsets of compressed instructions\<close>

lemma even_bit_iff: "even x \<longleftrightarrow> \<not> bit x 0" for x :: "'a::len word"
  by (simp add: bit_0)

lemma and_even: "even y \<Longrightarrow> even (x AND y)" for x :: "'a::len word"
  by (simp add: even_and_iff)

lemma sign_extend_signed:
  assumes "0 < n" "n < 16"
  shows "sign_extend v n = signed_take_bit (n - 1) (ucast v)"
proof -
  have mask: "push_bit n (1 :: u16) - 1 = mask n" by (simp add: mask_eq_exp_minus_1)
  have top: "n - Suc 0 \<le> k \<Longrightarrow> k < n \<Longrightarrow> k = n - Suc 0" for k by simp
  have lt: "n - Suc 0 < 16" "n - Suc 0 < 32" using assms by simp_all
  have sign: "(ucast (v AND mask n) :: i32) AND push_bit (n - 1) 1 \<noteq> 0 \<longleftrightarrow> bit v (n - 1)"
    using and_exp_eq_0_iff_not_bit [of "ucast (v AND mask n) :: i32" "n - 1"] assms lt by (simp add: bit_simps)
  show ?thesis
    unfolding sign_extend_def Let_def mask sign using assms
    by (intro bit_word_eqI) (auto simp: bit_simps min_def not_less not_le dest!: top)
qed

lemma sint_extended:
  fixes v :: u16
  assumes "0 < n" "n < 16"
  shows "- (2 ^ (n - 1)) \<le> sint (sign_extend v n)" "sint (sign_extend v n) < 2 ^ (n - 1)"
proof -
  have "sint (sign_extend v n) = signed_take_bit (n - 1) (uint v)"
  proof (rule bit_eqI)
    fix i
    show "bit (sint (sign_extend v n)) i \<longleftrightarrow> bit (signed_take_bit (n - 1) (uint v)) i"
      using assms by (auto simp: sign_extend_signed bit_simps min_def)
  qed
  then show "- (2 ^ (n - 1)) \<le> sint (sign_extend v n)" "sint (sign_extend v n) < 2 ^ (n - 1)"
    by (simp_all only: signed_take_bit_int_greater_eq_minus_exp signed_take_bit_int_less_exp)
qed

lemma even_extended: "0 < n \<Longrightarrow> n < 16 \<Longrightarrow> even v \<Longrightarrow> 2 \<le> n \<Longrightarrow> even (sign_extend v n)"
  by (simp add: even_bit_iff sign_extend_signed bit_simps min_def)

text \<open>The offsets of compressed jumps and branches are even and lie in the range of their field: 12 signed bits for
  \<^verbatim>\<open>c.j\<close> and \<^verbatim>\<open>c.jal\<close>, 9 for \<^verbatim>\<open>c.beqz\<close> and \<^verbatim>\<open>c.bnez\<close>.\<close>

theorem compressed_offsets:
  "even (decode_cj_offset inst) \<and> - 2048 \<le> sint (decode_cj_offset inst) \<and> sint (decode_cj_offset inst) < 2048 \<and>
   even (decode_cb_offset inst) \<and> - 256 \<le> sint (decode_cb_offset inst) \<and> sint (decode_cb_offset inst) < 256"
proof -
  have "even (decode_cj_offset inst)" "even (decode_cb_offset inst)"
    unfolding decode_cj_offset_def decode_cb_offset_def Let_def
    by (rule even_extended; simp add: even_or_iff even_and_iff)+
  then show ?thesis using sint_extended [of 12] sint_extended [of 9] by (simp add: decode_cj_offset_def decode_cb_offset_def Let_def)
qed

section \<open>The helper for AUIPC\<close>

lemma auipc_cases:
  fixes imm :: u32
  assumes "imm < 2 ^ 20"
  shows "imm AND 0x80000 \<noteq> 0 \<longleftrightarrow> bit imm 19" and "\<not> bit imm 19 \<longleftrightarrow> imm < 0x80000"
proof -
  show "imm AND 0x80000 \<noteq> 0 \<longleftrightarrow> bit imm 19" using and_exp_eq_0_iff_not_bit [of imm 19] by simp
  have high: "bit imm i \<Longrightarrow> i < 20" for i using bit_small [of imm 20] assms by simp
  have "imm = take_bit 19 imm" if "\<not> bit imm 19"
    by (rule bit_word_eqI) (use high that in \<open>auto simp: bit_simps less_Suc_eq numeral_eq_Suc\<close>)
  then show "\<not> bit imm 19 \<longleftrightarrow> imm < 0x80000"
    using bit_small [of imm 19 19] and_mask_less' [of 19 imm] by (auto simp: take_bit_eq_mask)
qed

text \<open>The helper for the immediate of AUIPC is the 20-bit immediate shifted left by twelve on the immediates without the sign
  bit and on the one whose bits are all set, and on no other.\<close>

theorem auipc_imm_shift:
  assumes "imm < 2 ^ 20"
  shows "sign_extend_and_shift_auipc_imm imm = push_bit 12 imm \<longleftrightarrow> imm < 0x80000 \<or> imm = 0xfffff"
proof (cases "bit imm 19")
  case False
  then show ?thesis using auipc_cases [OF assms] by (simp add: sign_extend_and_shift_auipc_imm_def)
next
  case True
  let ?r = "0xfff00000 OR push_bit 12 (drop_bit 12 imm AND 0xff) :: u32"
  have helper: "sign_extend_and_shift_auipc_imm imm = ?r"
    using True auipc_cases [OF assms] by (simp add: sign_extend_and_shift_auipc_imm_def Let_def)
  have high: "bit imm i \<Longrightarrow> i < 20" for i using bit_small [of imm 20] assms by simp
  have top: "(0xfff00000 :: u32) = push_bit 20 (mask 12)" by (simp add: mask_eq_exp_minus_1)
  have "imm = mask 20" if eq: "?r = push_bit 12 imm"
  proof (rule bit_word_eqI)
    fix j :: nat
    assume "j < LENGTH(32)"
    have bits: "bit ?r (j + 12) \<longleftrightarrow> bit imm j" if "j < 20" for j using that eq by (simp add: bit_simps)
    have one: "bit imm j" if "8 \<le> j" "j < 20" for j
      using bits [of j] that by (simp add: top field_bits less_diff_conv2)
    have two: "bit imm j" if "j < 8" for j
      using bits [of j] one [of "j + 12"] that by (simp add: top field_bits add.commute)
    show "bit imm j \<longleftrightarrow> bit (mask 20 :: u32) j"
      using one [of j] two [of j] high [of j] by (cases "j < 8") (auto simp: bit_simps)
  qed
  then show ?thesis using helper True auipc_cases [OF assms] by (auto simp: mask_eq_exp_minus_1 sign_extend_and_shift_auipc_imm_def)
qed

lemma auipc_imm_shift_witness: "sign_extend_and_shift_auipc_imm 0x80000 \<noteq> push_bit 12 0x80000"
  by (subst auipc_imm_shift) simp_all

end
