(* ===== verification/Rv_Regs.thy ===== *)
theory Rv_Regs
  imports Rv_Format Rv_Decode
begin

text \<open>
  Register names and roles, \<^verbatim>\<open>lp-riscv/lp-riscv-inst/src/regs.rs\<close> and \<^verbatim>\<open>register_role.rs\<close>: printing, parsing and the
  calling convention's classes.
\<close>

section \<open>Definitions\<close>

primrec gpr_name :: "Gpr \<Rightarrow> string" where
  "gpr_name Zero = ''zero''"
| "gpr_name Ra = ''ra''"
| "gpr_name Sp = ''sp''"
| "gpr_name Gp = ''gp''"
| "gpr_name Tp = ''tp''"
| "gpr_name T0 = ''t0''"
| "gpr_name T1 = ''t1''"
| "gpr_name T2 = ''t2''"
| "gpr_name S0 = ''s0''"
| "gpr_name S1 = ''s1''"
| "gpr_name A0 = ''a0''"
| "gpr_name A1 = ''a1''"
| "gpr_name A2 = ''a2''"
| "gpr_name A3 = ''a3''"
| "gpr_name A4 = ''a4''"
| "gpr_name A5 = ''a5''"
| "gpr_name A6 = ''a6''"
| "gpr_name A7 = ''a7''"
| "gpr_name S2 = ''s2''"
| "gpr_name S3 = ''s3''"
| "gpr_name S4 = ''s4''"
| "gpr_name S5 = ''s5''"
| "gpr_name S6 = ''s6''"
| "gpr_name S7 = ''s7''"
| "gpr_name S8 = ''s8''"
| "gpr_name S9 = ''s9''"
| "gpr_name S10 = ''s10''"
| "gpr_name S11 = ''s11''"
| "gpr_name T3 = ''t3''"
| "gpr_name T4 = ''t4''"
| "gpr_name T5 = ''t5''"
| "gpr_name T6 = ''t6''"

text \<open>Reading a decimal \<^verbatim>\<open>u8\<close>: an optional plus sign, at least one digit, at most 255.\<close>

definition is_digit :: "char \<Rightarrow> bool" where
  "is_digit c = (48 \<le> (of_char c :: nat) \<and> (of_char c :: nat) \<le> 57)"

definition dec_value :: "string \<Rightarrow> nat" where
  "dec_value s = foldl (\<lambda>n c. 10 * n + (of_char c - 48)) 0 s"

definition parse_u8 :: "string \<Rightarrow> u8 option" where
  "parse_u8 s =
     (let digits = (case s of c # cs \<Rightarrow> if c = CHR ''+'' then cs else s | [] \<Rightarrow> [])
      in if digits = [] \<or> \<not> list_all is_digit digits \<or> dec_value digits > 255 then None else Some (of_nat (dec_value digits)))"

definition REGISTER_NAMES :: "(string \<times> Gpr) list" where
  "REGISTER_NAMES =
     [(''zero'', Zero), (''x0'', Zero), (''ra'', Ra), (''x1'', Ra), (''sp'', Sp), (''x2'', Sp), (''gp'', Gp),
      (''x3'', Gp), (''tp'', Tp), (''x4'', Tp), (''t0'', T0), (''x5'', T0), (''t1'', T1), (''x6'', T1), (''t2'', T2),
      (''x7'', T2), (''s0'', S0), (''fp'', S0), (''x8'', S0), (''s1'', S1), (''x9'', S1), (''a0'', A0), (''x10'', A0),
      (''a1'', A1), (''x11'', A1), (''a2'', A2), (''x12'', A2), (''a3'', A3), (''x13'', A3), (''a4'', A4), (''x14'', A4),
      (''a5'', A5), (''x15'', A5), (''a6'', A6), (''x16'', A6), (''a7'', A7), (''x17'', A7), (''s2'', S2), (''x18'', S2),
      (''s3'', S3), (''x19'', S3), (''s4'', S4), (''x20'', S4), (''s5'', S5), (''x21'', S5), (''s6'', S6), (''x22'', S6),
      (''s7'', S7), (''x23'', S7), (''s8'', S8), (''x24'', S8), (''s9'', S9), (''x25'', S9), (''s10'', S10),
      (''x26'', S10), (''s11'', S11), (''x27'', S11), (''t3'', T3), (''x28'', T3), (''t4'', T4), (''x29'', T4),
      (''t5'', T5), (''x30'', T5), (''t6'', T6), (''x31'', T6)]"

definition from_name :: "string \<Rightarrow> string + Gpr" where
  "from_name name =
     (case map_of REGISTER_NAMES name of
        Some g \<Rightarrow> Inr g
      | None \<Rightarrow>
          (let err = Inl (''Invalid register name: '' @ name)
           in case name of
                c # num_str \<Rightarrow>
                  if c = CHR ''x''
                  then (case parse_u8 num_str of Some num \<Rightarrow> (case gpr_new num of Some g \<Rightarrow> Inr g | None \<Rightarrow> err) | None \<Rightarrow> err)
                  else err
              | [] \<Rightarrow> err))"

text \<open>Roles.\<close>

definition is_argument_register :: "Gpr \<Rightarrow> bool" where
  "is_argument_register g = (g \<in> {A0, A1, A2, A3, A4, A5, A6, A7})"

definition is_return_register :: "Gpr \<Rightarrow> bool" where
  "is_return_register g = is_argument_register g"

definition is_temporary :: "Gpr \<Rightarrow> bool" where
  "is_temporary g = (g \<in> {T0, T1, T2, T3, T4, T5, T6})"

definition is_callee_saved :: "Gpr \<Rightarrow> bool" where
  "is_callee_saved g = (g \<in> {S0, S1, S2, S3, S4, S5, S6, S7, S8, S9, S10, S11})"

definition is_caller_saved :: "Gpr \<Rightarrow> bool" where
  "is_caller_saved g = (is_argument_register g \<or> is_temporary g \<or> g = Ra)"

section \<open>Names are read back\<close>

lemma map_of_REGISTER_NAMES: "map_of REGISTER_NAMES (gpr_name g) = Some g"
  by (cases g) (simp_all add: REGISTER_NAMES_def)

lemma numeric_names: "\<forall>n \<in> set [0..<32]. from_name (CHR ''x'' # dec_str (of_nat n :: u8)) = Inr (GPRS ! n)"
  by code_simp

lemma GPRS_gpr_num: "GPRS ! unat (gpr_num g) = g" "unat (gpr_num g) < 32"
  using gpr_new_num [of g] gpr_num_less [of g] by (simp_all add: gpr_new_def word_less_nat_alt)

text \<open>Parsing a register name inverts printing it, for the name of the calling convention and for the numbered name alike.\<close>

theorem register_names: "from_name (gpr_name g) = Inr g \<and> from_name (CHR ''x'' # dec_str (gpr_num g)) = Inr g"
proof
  show "from_name (gpr_name g) = Inr g" by (simp add: from_name_def map_of_REGISTER_NAMES)
  have "unat (gpr_num g) \<in> set [0..<32]" using GPRS_gpr_num(2) [of g] by simp
  then show "from_name (CHR ''x'' # dec_str (gpr_num g)) = Inr g"
    using bspec [OF numeric_names, of "unat (gpr_num g)"] GPRS_gpr_num(1) [of g] by simp
qed

text \<open>The classes of the calling convention: every register but zero, the stack pointer, and the global and thread pointers is
  saved by exactly one of caller and callee.\<close>

lemma saved_by_one: "is_caller_saved g \<noteq> is_callee_saved g \<longleftrightarrow> g \<notin> {Zero, Sp, Gp, Tp}"
  by (cases g) (simp_all add: is_caller_saved_def is_callee_saved_def is_argument_register_def is_temporary_def)

end
