(* ===== verification/Emu_Memory.thy ===== *)
theory Emu_Memory
  imports Le_Bytes
begin

unbundle bit_operations_syntax

text \<open>
  Guest memory of the emulators, \<^verbatim>\<open>lp-emu/lp-emu-core/src/memory.rs\<close>: a read-only code region, an optional shared region and
  RAM, with little-endian accesses. The contract of the bus the executor works on (\<^verbatim>\<open>bus.rs\<close>) is the locale \<open>plain_bus\<close>,
  interpreted on this memory. The lock around the shared region is not modelled: one emulator owns it.
\<close>

section \<open>Definitions\<close>

datatype MemoryAccessKind = AccessRead | AccessWrite | AccessInstructionFetch

datatype MemoryError =
    InvalidAccess u32 nat MemoryAccessKind
  | Unaligned u32 nat
  | Watchpoint u32 MemoryAccessKind u8

record Memory =
  code :: "u8 list"
  ram :: "u8 list"
  code_start :: u32
  shared_start :: u32
  ram_start :: u32
  shared_backing :: "u8 list option"
  allow_unaligned_access :: bool

definition mem_new :: "u8 list \<Rightarrow> u8 list \<Rightarrow> u32 \<Rightarrow> u32 \<Rightarrow> Memory" where
  "mem_new c r c_start r_start =
     \<lparr>code = c, ram = r, code_start = c_start, shared_start = r_start, ram_start = r_start, shared_backing = None,
      allow_unaligned_access = False\<rparr>"

text \<open>A shared region at or above the RAM panics.\<close>

definition mem_new_with_shared :: "u8 list \<Rightarrow> u8 list \<Rightarrow> u8 list \<Rightarrow> u32 \<Rightarrow> u32 \<Rightarrow> u32 \<Rightarrow> Memory option" where
  "mem_new_with_shared c r shared c_start s_start r_start =
     (if s_start < r_start
      then Some \<lparr>code = c, ram = r, code_start = c_start, shared_start = s_start, ram_start = r_start, shared_backing = Some shared,
             allow_unaligned_access = False\<rparr>
      else None)"

definition DEFAULT_RAM_START :: u32 where "DEFAULT_RAM_START = 0x80000000"

definition DEFAULT_SHARED_START :: u32 where "DEFAULT_SHARED_START = 0x40000000"

definition with_default_addresses :: "u8 list \<Rightarrow> u8 list \<Rightarrow> Memory" where
  "with_default_addresses c r = mem_new c r 0x0 DEFAULT_RAM_START"

definition set_allow_unaligned_access :: "bool \<Rightarrow> Memory \<Rightarrow> Memory" where
  "set_allow_unaligned_access allow m = m\<lparr>allow_unaligned_access := allow\<rparr>"

definition has_shared :: "Memory \<Rightarrow> bool" where
  "has_shared m = (shared_backing m \<noteq> None)"

definition in_shared :: "Memory \<Rightarrow> u32 \<Rightarrow> bool" where
  "in_shared m address = (has_shared m \<and> address \<ge> shared_start m \<and> address < ram_start m)"

definition in_ram :: "Memory \<Rightarrow> u32 \<Rightarrow> bool" where
  "in_ram m address = (address \<ge> ram_start m)"

text \<open>
  The accessors of each width repeat one pattern: pick the region of the address, check the range, copy the bytes. The bytes of
  the region and the offset in it:
\<close>

definition region :: "Memory \<Rightarrow> u32 \<Rightarrow> u8 list \<times> nat" where
  "region m address =
     (if in_ram m address then (ram m, unat (address - ram_start m))
      else if in_shared m address then (the (shared_backing m), unat (address - shared_start m))
      else (code m, unat (address - code_start m)))"

definition read_bytes :: "nat \<Rightarrow> Memory \<Rightarrow> u32 \<Rightarrow> MemoryError + u8 list" where
  "read_bytes n m address =
     (let (bytes, offset) = region m address
      in if offset + n > length bytes then Inl (InvalidAccess address n AccessRead)
         else Inr (take n (drop offset bytes)))"

definition write_bytes :: "u8 list \<Rightarrow> Memory \<Rightarrow> u32 \<Rightarrow> MemoryError + Memory" where
  "write_bytes bs m address =
     (let n = length bs; (bytes, offset) = region m address; err = Inl (InvalidAccess address n AccessWrite);
          bytes' = take offset bytes @ bs @ drop (offset + n) bytes
      in if address = 0 then err
         else if in_ram m address then (if offset + n > length bytes then err else Inr (m\<lparr>ram := bytes'\<rparr>))
         else if in_shared m address then (if offset + n > length bytes then err else Inr (m\<lparr>shared_backing := Some bytes'\<rparr>))
         else err)"

definition mem_read_u8 :: "Memory \<Rightarrow> u32 \<Rightarrow> MemoryError + u8" where
  "mem_read_u8 m address = map_sum id hd (read_bytes 1 m address)"

definition read_byte :: "Memory \<Rightarrow> u32 \<Rightarrow> MemoryError + u8" where
  "read_byte m address = mem_read_u8 m address"

definition read_word_aligned :: "Memory \<Rightarrow> u32 \<Rightarrow> MemoryError + i32" where
  "read_word_aligned m address = map_sum id le_word (read_bytes 4 m address)"

definition read_halfword_aligned :: "Memory \<Rightarrow> u32 \<Rightarrow> MemoryError + u16" where
  "read_halfword_aligned m address = map_sum id le_word (read_bytes 2 m address)"

text \<open>Reading or writing byte by byte stops at the first error; the bytes written before it stay.\<close>

fun read_each :: "Memory \<Rightarrow> u32 list \<Rightarrow> MemoryError + u8 list" where
  "read_each m [] = Inr []"
| "read_each m (a # as) =
     (case mem_read_u8 m a of Inl e \<Rightarrow> Inl e
      | Inr b \<Rightarrow> (case read_each m as of Inl e \<Rightarrow> Inl e | Inr bs \<Rightarrow> Inr (b # bs)))"

definition read_word :: "Memory \<Rightarrow> u32 \<Rightarrow> MemoryError + i32" where
  "read_word m address =
     (if address mod 4 \<noteq> 0 \<and> \<not> allow_unaligned_access m then Inl (Unaligned address 4)
      else if address mod 4 = 0 then read_word_aligned m address
      else map_sum id le_word (read_each m [address, address + 1, address + 2, address + 3]))"

definition read_halfword :: "Memory \<Rightarrow> u32 \<Rightarrow> MemoryError + u16" where
  "read_halfword m address =
     (if address mod 2 \<noteq> 0 \<and> \<not> allow_unaligned_access m then Inl (Unaligned address 2)
      else if address mod 2 = 0 then read_halfword_aligned m address
      else map_sum id le_word (read_each m [address, address + 1]))"

text \<open>A write returns the memory also when it fails.\<close>

definition kept :: "Memory \<Rightarrow> MemoryError + Memory \<Rightarrow> (MemoryError + unit) \<times> Memory" where
  "kept m r = (case r of Inl e \<Rightarrow> (Inl e, m) | Inr m' \<Rightarrow> (Inr (), m'))"

definition write_byte :: "Memory \<Rightarrow> u32 \<Rightarrow> u8 \<Rightarrow> (MemoryError + unit) \<times> Memory" where
  "write_byte m address v = kept m (write_bytes [v] m address)"

fun write_each :: "Memory \<Rightarrow> (u32 \<times> u8) list \<Rightarrow> (MemoryError + unit) \<times> Memory" where
  "write_each m [] = (Inr (), m)"
| "write_each m ((a, b) # ws) =
     (case write_byte m a b of (Inl e, m') \<Rightarrow> (Inl e, m') | (Inr _, m') \<Rightarrow> write_each m' ws)"

definition write_word_aligned :: "Memory \<Rightarrow> u32 \<Rightarrow> i32 \<Rightarrow> (MemoryError + unit) \<times> Memory" where
  "write_word_aligned m address v = kept m (write_bytes (u32_to_le_bytes v) m address)"

definition write_halfword_aligned :: "Memory \<Rightarrow> u32 \<Rightarrow> u16 \<Rightarrow> (MemoryError + unit) \<times> Memory" where
  "write_halfword_aligned m address v = kept m (write_bytes (u16_to_le_bytes v) m address)"

definition write_word :: "Memory \<Rightarrow> u32 \<Rightarrow> i32 \<Rightarrow> (MemoryError + unit) \<times> Memory" where
  "write_word m address v =
     (if address mod 4 \<noteq> 0 \<and> \<not> allow_unaligned_access m then (Inl (Unaligned address 4), m)
      else if address mod 4 = 0 then write_word_aligned m address v
      else write_each m (zip [address, address + 1, address + 2, address + 3] (u32_to_le_bytes v)))"

definition write_halfword :: "Memory \<Rightarrow> u32 \<Rightarrow> u16 \<Rightarrow> (MemoryError + unit) \<times> Memory" where
  "write_halfword m address v =
     (if address mod 2 \<noteq> 0 \<and> \<not> allow_unaligned_access m then (Inl (Unaligned address 2), m)
      else if address mod 2 = 0 then write_halfword_aligned m address v
      else write_each m (zip [address, address + 1] (u16_to_le_bytes v)))"

definition fetch_instruction :: "Memory \<Rightarrow> u32 \<Rightarrow> MemoryError + u32" where
  "fetch_instruction m address =
     (if address mod 2 \<noteq> 0 then Inl (Unaligned address 2)
      else if in_shared m address then Inl (InvalidAccess address 2 AccessInstructionFetch)
      else let (data, offset) = region m address
           in if offset + 2 > length data then Inl (InvalidAccess address 2 AccessInstructionFetch)
              else let first_half = le_word (take 2 (drop offset data)) :: u16
                   in if first_half AND 0x3 \<noteq> 0x3 then Inr (ucast first_half)
                      else if offset + 4 > length data then Inl (InvalidAccess address 4 AccessInstructionFetch)
                      else Inr (le_word (take 4 (drop offset data))))"

text \<open>The plain accessors are the fields of the record; the mutable view of RAM is an update of its bytes, which keeps their number.\<close>

definition ram_mut :: "(u8 list \<Rightarrow> u8 list) \<Rightarrow> Memory \<Rightarrow> Memory" where
  "ram_mut f m = m\<lparr>ram := take (length (ram m)) (f (ram m))\<rparr>"

definition has_shared_region :: "Memory \<Rightarrow> bool" where
  "has_shared_region m = has_shared m"

definition ram_end :: "Memory \<Rightarrow> u32" where
  "ram_end m = ram_start m + of_nat (length (ram m))"

definition shared_slice_len :: "Memory \<Rightarrow> nat" where
  "shared_slice_len m = (case shared_backing m of None \<Rightarrow> 0 | Some bytes \<Rightarrow> length bytes)"

definition shared_end :: "Memory \<Rightarrow> u32 option" where
  "shared_end m = (if \<not> has_shared m then None else Some (shared_start m + of_nat (shared_slice_len m)))"

section \<open>Reading back what was written\<close>

lemma region_write:
  assumes "write_bytes bs m a = Inr m'"
  shows "in_ram m' x = in_ram m x" "in_shared m' x = in_shared m x" "allow_unaligned_access m' = allow_unaligned_access m"
    and "snd (region m' x) = snd (region m x)" and "length (fst (region m' x)) = length (fst (region m x))"
    and "code m' = code m" and "\<not> in_ram m a \<Longrightarrow> in_shared m a"
  using assms
  by (auto simp: write_bytes_def region_def in_ram_def in_shared_def has_shared_def Let_def split: if_splits prod.splits)

lemma region_written:
  assumes "write_bytes bs m a = Inr m'" "region m a = (bytes, k)"
  shows "region m' a = (take k bytes @ bs @ drop (k + length bs) bytes, k)" and "k + length bs \<le> length bytes"
  using assms
  by (auto simp: write_bytes_def region_def in_ram_def in_shared_def has_shared_def Let_def split: if_splits prod.splits)

lemma read_bytes_written:
  assumes "write_bytes bs m a = Inr m'"
  shows "read_bytes (length bs) m' a = Inr bs"
proof -
  obtain bytes k where r: "region m a = (bytes, k)" by (cases "region m a")
  show ?thesis using region_written [OF assms r] by (simp add: read_bytes_def)
qed

text \<open>The regions of two addresses either coincide, with offsets as far apart as the addresses, or are written separately.\<close>

lemma mem_read_u8_other:
  assumes "write_bytes bs m a = Inr m'" "length bs \<le> unat (x - a)"
  shows "mem_read_u8 m' x = mem_read_u8 m x"
proof -
  obtain bytes k where r: "region m a = (bytes, k)" by (cases "region m a")
  note w = region_write [OF assms(1)] region_written [OF assms(1) r]
  have far: "unat (x - s) < unat (a - s) \<or> unat (a - s) + length bs \<le> unat (x - s)" for s
  proof (rule ccontr)
    assume "\<not> ?thesis"
    then have near: "a - s \<le> x - s" "unat (x - s) < unat (a - s) + length bs" by (auto simp: word_le_nat_alt)
    have "unat (x - a) = unat ((x - s) - (a - s))" by simp
    also have "\<dots> = unat (x - s) - unat (a - s)" using near(1) by (rule unat_sub)
    finally have "unat (x - a) + unat (a - s) = unat (x - s)" using near(1) by (simp add: word_le_nat_alt)
    then show False using near(2) assms(2) by linarith
  qed
  have same: "(take k' l @ bs @ drop (k' + length bs) l) ! j = l ! j" if "j < k' \<or> k' + length bs \<le> j" "k' + length bs \<le> length l" for k' j and l :: "u8 list"
    using that by (auto simp: nth_append)
  have index: "k2 < length (fst (region m x)) \<Longrightarrow> fst (region m' x) ! k2 = fst (region m x) ! k2" if "k2 = snd (region m x)" for k2
  proof (cases "in_ram m a")
    case True
    then have "m' = m\<lparr>ram := take k bytes @ bs @ drop (k + length bs) bytes\<rparr>" "bytes = ram m" "k = unat (a - ram_start m)" "k + length bs \<le> length bytes"
      using assms(1) r by (auto simp: write_bytes_def region_def Let_def split: if_splits)
    then show "k2 < length (fst (region m x)) \<Longrightarrow> fst (region m' x) ! k2 = fst (region m x) ! k2"
      using that far [of "ram_start m"] by (auto simp: region_def in_ram_def in_shared_def has_shared_def intro!: same split: if_splits)
  next
    case False
    then have shared: "in_shared m a" using w(7) by simp
    with False have "m' = m\<lparr>shared_backing := Some (take k bytes @ bs @ drop (k + length bs) bytes)\<rparr>" "bytes = the (shared_backing m)"
      "k = unat (a - shared_start m)" "k + length bs \<le> length bytes"
      using assms(1) r by (auto simp: write_bytes_def region_def Let_def split: if_splits)
    then show "k2 < length (fst (region m x)) \<Longrightarrow> fst (region m' x) ! k2 = fst (region m x) ! k2"
      using that far [of "shared_start m"] shared by (auto simp: region_def in_ram_def in_shared_def has_shared_def intro!: same split: if_splits)
  qed
  have nth: "mem_read_u8 n x = (if snd (region n x) + 1 > length (fst (region n x)) then Inl (InvalidAccess x 1 AccessRead)
      else Inr (fst (region n x) ! snd (region n x)))" for n
    by (cases "region n x") (auto simp: mem_read_u8_def read_bytes_def hd_drop_conv_nth)
  show ?thesis using index [OF refl] w(4,5) [of x] by (simp add: nth)
qed

lemma write_byte_read:
  assumes "write_byte m a v = (Inr (), m')"
  shows "mem_read_u8 m' a = Inr v" "x \<noteq> a \<Longrightarrow> mem_read_u8 m' x = mem_read_u8 m x" "allow_unaligned_access m' = allow_unaligned_access m"
    "\<exists>b. mem_read_u8 m a = Inr b"
proof -
  have w: "write_bytes [v] m a = Inr m'" using assms by (simp add: write_byte_def kept_def split: sum.splits)
  show "mem_read_u8 m' a = Inr v" using read_bytes_written [OF w] by (simp add: mem_read_u8_def)
  show "mem_read_u8 m' x = mem_read_u8 m x" if "x \<noteq> a"
  proof -
    have "unat (x - a) \<noteq> 0" using that by (simp add: unat_eq_zero)
    then show ?thesis using mem_read_u8_other [OF w, of x] by simp
  qed
  show "allow_unaligned_access m' = allow_unaligned_access m" using region_write [OF w] by simp
  obtain bytes k where r: "region m a = (bytes, k)" by (cases "region m a")
  show "\<exists>b. mem_read_u8 m a = Inr b" using region_written [OF w r] r by (simp add: mem_read_u8_def read_bytes_def)
qed

lemma write_byte_failed: "write_byte m a v = (Inl e, m') \<Longrightarrow> m' = m"
  by (simp add: write_byte_def kept_def split: sum.splits)

lemma write_each_other: "write_each m ws = (r, m') \<Longrightarrow> x \<notin> fst ` set ws \<Longrightarrow> mem_read_u8 m' x = mem_read_u8 m x"
proof (induction ws arbitrary: m)
  case (Cons w ws)
  obtain a v where w: "w = (a, v)" by (cases w)
  with Cons show ?case by (auto split: prod.splits sum.splits dest: write_byte_failed write_byte_read(2) [of m a v _ x])
qed simp

lemma write_each_read:
  "write_each m ws = (Inr (), m') \<Longrightarrow> distinct (map fst ws) \<Longrightarrow>
     read_each m' (map fst ws) = Inr (map snd ws) \<and> (\<exists>bs. read_each m (map fst ws) = Inr bs \<and> length bs = length ws)"
proof (induction ws arbitrary: m)
  case (Cons w ws)
  obtain a v where w: "w = (a, v)" by (cases w)
  from Cons.prems(1) obtain m1 where m1: "write_byte m a v = (Inr (), m1)" "write_each m1 ws = (Inr (), m')"
    by (auto simp: w split: prod.splits sum.splits)
  have same: "(\<exists>bs. read_each m1 as = Inr bs \<and> length bs = n) \<Longrightarrow> (\<exists>bs. read_each m as = Inr bs \<and> length bs = n)" if "a \<notin> set as" for as n
  proof -
    have "read_each m1 as = read_each m as" using that
      by (induction as) (use write_byte_read(2) [OF m1(1)] in \<open>auto split: sum.splits\<close>)
    then show "(\<exists>bs. read_each m1 as = Inr bs \<and> length bs = n) \<Longrightarrow> (\<exists>bs. read_each m as = Inr bs \<and> length bs = n)" by simp
  qed
  have "a \<notin> set (map fst ws)" using Cons.prems(2) w by simp
  then show ?case
    using Cons.IH [OF m1(2)] Cons.prems(2) w write_each_other [OF m1(2), of a] write_byte_read(1,4) [OF m1(1)] same [of "map fst ws" "length ws"]
    by (auto split: sum.splits)
qed simp

lemma write_each_unaligned: "write_each m ws = (r, m') \<Longrightarrow> allow_unaligned_access m' = allow_unaligned_access m"
proof (induction ws arbitrary: m)
  case (Cons w ws)
  obtain a v where w: "w = (a, v)" by (cases w)
  with Cons show ?case by (auto split: prod.splits sum.splits dest: write_byte_failed write_byte_read(3) [of m a v])
qed simp

lemma four_addresses: "distinct [a, a + 1, a + 2, a + 3]" for a :: u32
  by simp

lemma two_addresses: "distinct [a, a + 1]" for a :: u32
  by simp

lemma zip_bytes:
  "map fst (zip [a, a + 1, a + 2, a + 3] (u32_to_le_bytes v)) = [a, a + 1, a + 2, a + 3]"
  "map snd (zip [a, a + 1, a + 2, a + 3] (u32_to_le_bytes v)) = u32_to_le_bytes v"
  "map fst (zip [a, a + 1] (u16_to_le_bytes h)) = [a, a + 1]"
  "map snd (zip [a, a + 1] (u16_to_le_bytes h)) = u16_to_le_bytes h"
  by (simp_all add: u32_to_le_bytes_def u16_to_le_bytes_def)

lemma kept_ok: "kept m r = (Inr (), m') \<longleftrightarrow> r = Inr m'"
  by (auto simp: kept_def split: sum.splits)

lemma readable_before:
  assumes "write_bytes bs m a = Inr m'"
  shows "\<exists>x. read_bytes (length bs) m a = Inr x"
proof -
  obtain bytes k where r: "region m a = (bytes, k)" by (cases "region m a")
  show ?thesis using region_written [OF assms r] r by (simp add: read_bytes_def)
qed

lemma write_word_read:
  assumes "write_word m a v = (Inr (), m')"
  shows "read_word m' a = Inr v" and "\<exists>x. read_word m a = Inr x"
proof -
  note split = write_word_def write_word_aligned_def read_word_def read_word_aligned_def
  have "read_word m' a = Inr v \<and> (\<exists>x. read_word m a = Inr x)"
  proof (cases "a mod 4 = 0")
    case True
    then have w: "write_bytes (u32_to_le_bytes v) m a = Inr m'" using assms by (simp add: split kept_ok)
    show ?thesis
      using read_bytes_written [OF w] readable_before [OF w] region_write(3) [OF w] True by (auto simp: split)
  next
    case False
    then have allow: "allow_unaligned_access m" and w: "write_each m (zip [a, a + 1, a + 2, a + 3] (u32_to_le_bytes v)) = (Inr (), m')"
      using assms by (simp_all add: split split: if_splits)
    show ?thesis
      using write_each_read [OF w, unfolded zip_bytes] write_each_unaligned [OF w] allow False
      by (auto simp: split simp del: read_each.simps)
  qed
  then show "read_word m' a = Inr v" and "\<exists>x. read_word m a = Inr x" by simp_all
qed

lemma write_halfword_read:
  assumes "write_halfword m a v = (Inr (), m')"
  shows "read_halfword m' a = Inr v" and "\<exists>x. read_halfword m a = Inr x"
proof -
  note split = write_halfword_def write_halfword_aligned_def read_halfword_def read_halfword_aligned_def
  have "read_halfword m' a = Inr v \<and> (\<exists>x. read_halfword m a = Inr x)"
  proof (cases "a mod 2 = 0")
    case True
    then have w: "write_bytes (u16_to_le_bytes v) m a = Inr m'" using assms by (simp add: split kept_ok)
    show ?thesis
      using read_bytes_written [OF w] readable_before [OF w] region_write(3) [OF w] True by (auto simp: split)
  next
    case False
    then have allow: "allow_unaligned_access m" and w: "write_each m (zip [a, a + 1] (u16_to_le_bytes v)) = (Inr (), m')"
      using assms by (simp_all add: split split: if_splits)
    show ?thesis
      using write_each_read [OF w, unfolded zip_bytes] write_each_unaligned [OF w] allow False
      by (auto simp: split simp del: read_each.simps)
  qed
  then show "read_halfword m' a = Inr v" and "\<exists>x. read_halfword m a = Inr x" by simp_all
qed

lemma write_word_other:
  assumes "write_word m a v = (r, m')" "4 \<le> unat (x - a)"
  shows "mem_read_u8 m' x = mem_read_u8 m x"
proof -
  have far: "x \<notin> {a, a + 1, a + 2, a + 3}" using assms(2) by auto
  have len: "length (u32_to_le_bytes v) = 4" by (simp add: u32_to_le_bytes_def)
  show ?thesis
  proof (cases "a mod 4 = 0")
    case True
    then show ?thesis using assms mem_read_u8_other [of "u32_to_le_bytes v" m a _ x] len
      by (auto simp: write_word_def write_word_aligned_def kept_def split: sum.splits)
  next
    case False
    have "x \<notin> fst ` set (zip [a, a + 1, a + 2, a + 3] (u32_to_le_bytes v))" using far by (auto dest: set_zip_leftD)
    then show ?thesis using assms(1) False write_each_other by (auto simp: write_word_def split: if_splits)
  qed
qed

text \<open>C40. A word that was stored is read back, aligned or not, in RAM or shared memory, and the store leaves every byte outside the word
  as it was.\<close>

theorem word_store:
  assumes "write_word m a v = (Inr (), m')" "4 \<le> unat (x - a)"
  shows "read_word m' a = Inr v \<and> mem_read_u8 m' x = mem_read_u8 m x"
  using write_word_read(1) [OF assms(1)] write_word_other [OF assms] by simp

lemma word_store_witness:
  "\<exists>m'. write_word (set_allow_unaligned_access True (mem_new [] [1, 2, 3, 4, 5, 6] 0 0x80000000)) 0x80000001 0xAABBCCDD = (Inr (), m') \<and>
     read_word m' 0x80000001 = Inr 0xAABBCCDD \<and> mem_read_u8 m' 0x80000005 = Inr 6"
proof -
  let ?m = "set_allow_unaligned_access True (mem_new [] [1, 2, 3, 4, 5, 6] 0 0x80000000)"
  let ?w = "write_word ?m 0x80000001 0xAABBCCDD"
  have "fst ?w = Inr ()" "mem_read_u8 ?m 0x80000005 = Inr 6" by code_simp+
  then have "?w = (Inr (), snd ?w)" by (simp add: prod_eq_iff)
  from word_store [OF this, of "0x80000005"] this \<open>mem_read_u8 ?m 0x80000005 = Inr 6\<close> show ?thesis by auto
qed

section \<open>The bus\<close>

text \<open>What the executor uses of \<^verbatim>\<open>trait Bus\<close>: reads may change the state of the bus.\<close>

record 'm Bus =
  bus_read_word :: "'m \<Rightarrow> u32 \<Rightarrow> (MemoryError + i32) \<times> 'm"
  bus_read_halfword :: "'m \<Rightarrow> u32 \<Rightarrow> (MemoryError + u16) \<times> 'm"
  bus_read_byte :: "'m \<Rightarrow> u32 \<Rightarrow> (MemoryError + u8) \<times> 'm"
  bus_write_word :: "'m \<Rightarrow> u32 \<Rightarrow> i32 \<Rightarrow> (MemoryError + unit) \<times> 'm"
  bus_write_halfword :: "'m \<Rightarrow> u32 \<Rightarrow> u16 \<Rightarrow> (MemoryError + unit) \<times> 'm"
  bus_write_byte :: "'m \<Rightarrow> u32 \<Rightarrow> u8 \<Rightarrow> (MemoryError + unit) \<times> 'm"

definition memory_bus :: "Memory Bus" where
  "memory_bus = \<lparr>bus_read_word = (\<lambda>m a. (read_word m a, m)), bus_read_halfword = (\<lambda>m a. (read_halfword m a, m)),
     bus_read_byte = (\<lambda>m a. (read_byte m a, m)), bus_write_word = write_word, bus_write_halfword = write_halfword,
     bus_write_byte = write_byte\<rparr>"

text \<open>The contract of a bus without devices: reads have no effect, and a word, halfword or byte that was written can be read, and
  could be read before.\<close>

locale plain_bus =
  fixes bus :: "'m Bus"
  assumes word_pure: "snd (bus_read_word bus m a) = m"
    and halfword_pure: "snd (bus_read_halfword bus m a) = m"
    and byte_pure: "snd (bus_read_byte bus m a) = m"
    and word_back: "bus_write_word bus m a v = (Inr (), m') \<Longrightarrow> fst (bus_read_word bus m' a) = Inr v"
    and halfword_back: "bus_write_halfword bus m a h = (Inr (), m') \<Longrightarrow> fst (bus_read_halfword bus m' a) = Inr h"
    and byte_back: "bus_write_byte bus m a b = (Inr (), m') \<Longrightarrow> fst (bus_read_byte bus m' a) = Inr b"
    and word_before: "bus_write_word bus m a v = (Inr (), m') \<Longrightarrow> \<exists>x. fst (bus_read_word bus m a) = Inr x"
    and halfword_before: "bus_write_halfword bus m a h = (Inr (), m') \<Longrightarrow> \<exists>x. fst (bus_read_halfword bus m a) = Inr x"
    and byte_before: "bus_write_byte bus m a b = (Inr (), m') \<Longrightarrow> \<exists>x. fst (bus_read_byte bus m a) = Inr x"

interpretation mb: plain_bus memory_bus
proof unfold_locales
  fix m m' :: Memory and a :: u32 and b :: u8
  show "bus_write_byte memory_bus m a b = (Inr (), m') \<Longrightarrow> fst (bus_read_byte memory_bus m' a) = Inr b"
    by (simp add: memory_bus_def read_byte_def write_byte_read(1))
  show "bus_write_byte memory_bus m a b = (Inr (), m') \<Longrightarrow> \<exists>x. fst (bus_read_byte memory_bus m a) = Inr x"
    by (simp add: memory_bus_def read_byte_def write_byte_read(4))
qed (auto simp: memory_bus_def dest: write_word_read write_halfword_read)

end
