(* ===== verification/Emu_Alu.thy ===== *)
theory Emu_Alu
  imports Emu_Memory Rv_Total
begin

unbundle bit_operations_syntax

text \<open>
  The executor of the RISC-V emulator, first part: \<^verbatim>\<open>lp-emu/lp-riscv-emu/src/emu/executor/mod.rs\<close> (results, registers),
  \<^verbatim>\<open>arithmetic.rs\<close>, \<^verbatim>\<open>immediate.rs\<close>, \<^verbatim>\<open>branch.rs\<close> and \<^verbatim>\<open>jump.rs\<close>. The register file is a map from registers, the compile-time
  logging mode an argument. A register number is masked to five bits before the register is built, so it is looked up
  in the register list.
\<close>

section \<open>Definitions\<close>

subsection \<open>Results\<close>

type_synonym regs = "Gpr \<Rightarrow> i32"

text \<open>The errors the executor raises.\<close>

datatype EmulatorError =
    InvalidMemoryAccess u32 nat MemoryAccessKind u32 regs
  | InvalidInstruction u32 u32 string regs
  | UnalignedAccess u32 nat u32 regs
  | WatchpointHit u32 MemoryAccessKind u8 u32 regs

definition from_memory_error :: "MemoryError \<Rightarrow> u32 \<Rightarrow> regs \<Rightarrow> EmulatorError" where
  "from_memory_error e pc regs =
     (case e of InvalidAccess address n kind \<Rightarrow> InvalidMemoryAccess address n kind pc regs
      | Unaligned address alignment \<Rightarrow> UnalignedAccess address alignment pc regs
      | Watchpoint address kind slot \<Rightarrow> WatchpointHit address kind slot pc regs)"

text \<open>Cost classes, \<^verbatim>\<open>lp-emu/lp-emu-core/src/cycle_model.rs\<close>.\<close>

datatype InstClass = ClassAlu | ClassMul | ClassDivRem | ClassLoad | ClassStore | ClassBranchTaken | ClassBranchNotTaken
  | ClassJalCall | ClassJalTail | ClassJalrCall | ClassJalrReturn | ClassJalrIndirect | ClassLui | ClassAuipc | ClassSystem
  | ClassFence | ClassAtomic | ClassFloatArith | ClassFloatMulAdd | ClassFloatConvert | ClassFloatCompare | ClassFloatEstimate

datatype CycleModel = InstructionCount | Esp32C6 | Esp32C6Kernels

definition cycles_for :: "CycleModel \<Rightarrow> InstClass \<Rightarrow> u8" where
  "cycles_for model c =
     (case model of
        InstructionCount \<Rightarrow> 1
      | Esp32C6 \<Rightarrow>
          (case c of ClassDivRem \<Rightarrow> 32 | ClassLoad \<Rightarrow> 2 | ClassBranchTaken \<Rightarrow> 2 | ClassJalCall \<Rightarrow> 2 | ClassJalTail \<Rightarrow> 2
           | ClassJalrCall \<Rightarrow> 3 | ClassJalrReturn \<Rightarrow> 3 | ClassJalrIndirect \<Rightarrow> 3 | ClassSystem \<Rightarrow> 4 | ClassFence \<Rightarrow> 4 | ClassAtomic \<Rightarrow> 4
           | _ \<Rightarrow> 1)
      | Esp32C6Kernels \<Rightarrow>
          (case c of ClassDivRem \<Rightarrow> 10 | ClassJalCall \<Rightarrow> 2 | ClassJalTail \<Rightarrow> 2
           | ClassJalrCall \<Rightarrow> 3 | ClassJalrReturn \<Rightarrow> 3 | ClassJalrIndirect \<Rightarrow> 3 | ClassSystem \<Rightarrow> 4 | ClassFence \<Rightarrow> 4 | ClassAtomic \<Rightarrow> 4
           | _ \<Rightarrow> 1))"

datatype SystemKind = KindEcall | KindEbreak

text \<open>Log entries carry the cycle (always zero here), the program counter and the instruction word first.\<close>

datatype InstLog =
    LogArithmetic u64 u32 u32 Gpr i32 "i32 option" i32 i32
  | LogLoad u64 u32 u32 Gpr i32 u32 i32 i32 i32
  | LogStore u64 u32 u32 i32 i32 u32 i32 i32
  | LogBranch u64 u32 u32 i32 i32 bool "u32 option"
  | LogJump u64 u32 u32 i32 "i32 option" u32
  | LogImmediate u64 u32 u32 Gpr i32 i32
  | LogSystem u64 u32 u32 SystemKind

record ExecutionResult =
  new_pc :: "u32 option"
  should_halt :: bool
  syscall :: bool
  inst_class :: InstClass
  inst_size :: u8
  inst_log :: "InstLog option"

definition read_reg :: "regs \<Rightarrow> Gpr \<Rightarrow> i32" where
  "read_reg regs reg = (if gpr_num reg = 0 then 0 else regs reg)"

text \<open>The guarded write every instruction with a destination ends with.\<close>

definition write_reg :: "regs \<Rightarrow> Gpr \<Rightarrow> i32 \<Rightarrow> regs" where
  "write_reg regs rd v = (if gpr_num rd \<noteq> 0 then regs(rd := v) else regs)"

definition gpr_at :: "u8 \<Rightarrow> Gpr" where
  "gpr_at n = GPRS ! unat n"

text \<open>The tail shared by the arithmetic instructions: the old value of the destination is logged, the result written.\<close>

definition arith_done :: "bool \<Rightarrow> u32 \<Rightarrow> u32 \<Rightarrow> InstClass \<Rightarrow> u8 \<Rightarrow> regs \<Rightarrow> Gpr \<Rightarrow> i32 \<Rightarrow> i32 option \<Rightarrow> i32 \<Rightarrow> ExecutionResult \<times> regs" where
  "arith_done m w pc c n regs rd val1 val2 result =
     (\<lparr>new_pc = None, should_halt = False, syscall = False, inst_class = c, inst_size = n,
       inst_log = (if m then Some (LogArithmetic 0 pc w rd val1 val2 (read_reg regs rd) result) else None)\<rparr>,
      write_reg regs rd result)"

subsection \<open>Register-register instructions\<close>

definition execute_add :: "bool \<Rightarrow> Gpr \<Rightarrow> Gpr \<Rightarrow> Gpr \<Rightarrow> u32 \<Rightarrow> u32 \<Rightarrow> regs \<Rightarrow> ExecutionResult \<times> regs" where
  "execute_add m rd rs1 rs2 w pc regs =
     (let val1 = read_reg regs rs1; val2 = read_reg regs rs2; result = val1 + val2
      in arith_done m w pc ClassAlu 4 regs rd val1 (Some val2) result)"

definition execute_sub :: "bool \<Rightarrow> Gpr \<Rightarrow> Gpr \<Rightarrow> Gpr \<Rightarrow> u32 \<Rightarrow> u32 \<Rightarrow> regs \<Rightarrow> ExecutionResult \<times> regs" where
  "execute_sub m rd rs1 rs2 w pc regs =
     (let val1 = read_reg regs rs1; val2 = read_reg regs rs2; result = val1 - val2
      in arith_done m w pc ClassAlu 4 regs rd val1 (Some val2) result)"

definition execute_mul :: "bool \<Rightarrow> Gpr \<Rightarrow> Gpr \<Rightarrow> Gpr \<Rightarrow> u32 \<Rightarrow> u32 \<Rightarrow> regs \<Rightarrow> ExecutionResult \<times> regs" where
  "execute_mul m rd rs1 rs2 w pc regs =
     (let val1 = read_reg regs rs1; val2 = read_reg regs rs2; result = val1 * val2
      in arith_done m w pc ClassMul 4 regs rd val1 (Some val2) result)"

definition execute_mulh :: "bool \<Rightarrow> Gpr \<Rightarrow> Gpr \<Rightarrow> Gpr \<Rightarrow> u32 \<Rightarrow> u32 \<Rightarrow> regs \<Rightarrow> ExecutionResult \<times> regs" where
  "execute_mulh m rd rs1 rs2 w pc regs =
     (let val1 = read_reg regs rs1; val2 = read_reg regs rs2; result = (let product = as_i64 val1 * as_i64 val2 in as_i32 (signed_drop_bit 32 product))
      in arith_done m w pc ClassMul 4 regs rd val1 (Some val2) result)"

definition execute_mulhsu :: "bool \<Rightarrow> Gpr \<Rightarrow> Gpr \<Rightarrow> Gpr \<Rightarrow> u32 \<Rightarrow> u32 \<Rightarrow> regs \<Rightarrow> ExecutionResult \<times> regs" where
  "execute_mulhsu m rd rs1 rs2 w pc regs =
     (let val1 = read_reg regs rs1; val2 = read_reg regs rs2; result = (let product = ucast (scast (as_i64 val1) * ucast (as_u64 val2) :: 128 word) :: i64 in as_i32 (signed_drop_bit 32 product))
      in arith_done m w pc ClassMul 4 regs rd val1 (Some val2) result)"

definition execute_mulhu :: "bool \<Rightarrow> Gpr \<Rightarrow> Gpr \<Rightarrow> Gpr \<Rightarrow> u32 \<Rightarrow> u32 \<Rightarrow> regs \<Rightarrow> ExecutionResult \<times> regs" where
  "execute_mulhu m rd rs1 rs2 w pc regs =
     (let val1 = read_reg regs rs1; val2 = read_reg regs rs2; result = (let product = as_u64 val1 * as_u64 val2 in as_u32 (drop_bit 32 product))
      in arith_done m w pc ClassMul 4 regs rd val1 (Some val2) result)"

definition execute_div :: "bool \<Rightarrow> Gpr \<Rightarrow> Gpr \<Rightarrow> Gpr \<Rightarrow> u32 \<Rightarrow> u32 \<Rightarrow> regs \<Rightarrow> ExecutionResult \<times> regs" where
  "execute_div m rd rs1 rs2 w pc regs =
     (let val1 = read_reg regs rs1; val2 = read_reg regs rs2; result = (if val2 = 0 then - 1 else if val1 = i32_MIN \<and> val2 = - 1 then i32_MIN else word_sdiv val1 val2)
      in arith_done m w pc ClassDivRem 4 regs rd val1 (Some val2) result)"

definition execute_divu :: "bool \<Rightarrow> Gpr \<Rightarrow> Gpr \<Rightarrow> Gpr \<Rightarrow> u32 \<Rightarrow> u32 \<Rightarrow> regs \<Rightarrow> ExecutionResult \<times> regs" where
  "execute_divu m rd rs1 rs2 w pc regs =
     (let val1 = read_reg regs rs1; val2 = read_reg regs rs2; result = (if val2 = 0 then - 1 else val1 div val2)
      in arith_done m w pc ClassDivRem 4 regs rd val1 (Some val2) result)"

definition execute_rem :: "bool \<Rightarrow> Gpr \<Rightarrow> Gpr \<Rightarrow> Gpr \<Rightarrow> u32 \<Rightarrow> u32 \<Rightarrow> regs \<Rightarrow> ExecutionResult \<times> regs" where
  "execute_rem m rd rs1 rs2 w pc regs =
     (let val1 = read_reg regs rs1; val2 = read_reg regs rs2; result = (if val2 = 0 then val1 else if val1 = i32_MIN \<and> val2 = - 1 then 0 else word_srem val1 val2)
      in arith_done m w pc ClassDivRem 4 regs rd val1 (Some val2) result)"

definition execute_remu :: "bool \<Rightarrow> Gpr \<Rightarrow> Gpr \<Rightarrow> Gpr \<Rightarrow> u32 \<Rightarrow> u32 \<Rightarrow> regs \<Rightarrow> ExecutionResult \<times> regs" where
  "execute_remu m rd rs1 rs2 w pc regs =
     (let val1 = read_reg regs rs1; val2 = read_reg regs rs2; result = (if val2 = 0 then val1 else val1 mod val2)
      in arith_done m w pc ClassDivRem 4 regs rd val1 (Some val2) result)"

definition execute_slt :: "bool \<Rightarrow> Gpr \<Rightarrow> Gpr \<Rightarrow> Gpr \<Rightarrow> u32 \<Rightarrow> u32 \<Rightarrow> regs \<Rightarrow> ExecutionResult \<times> regs" where
  "execute_slt m rd rs1 rs2 w pc regs =
     (let val1 = read_reg regs rs1; val2 = read_reg regs rs2; result = (if sint val1 < sint val2 then 1 else 0)
      in arith_done m w pc ClassAlu 4 regs rd val1 (Some val2) result)"

definition execute_sltu :: "bool \<Rightarrow> Gpr \<Rightarrow> Gpr \<Rightarrow> Gpr \<Rightarrow> u32 \<Rightarrow> u32 \<Rightarrow> regs \<Rightarrow> ExecutionResult \<times> regs" where
  "execute_sltu m rd rs1 rs2 w pc regs =
     (let val1 = read_reg regs rs1; val2 = read_reg regs rs2; result = (if val1 < val2 then 1 else 0)
      in arith_done m w pc ClassAlu 4 regs rd val1 (Some val2) result)"

definition execute_xor :: "bool \<Rightarrow> Gpr \<Rightarrow> Gpr \<Rightarrow> Gpr \<Rightarrow> u32 \<Rightarrow> u32 \<Rightarrow> regs \<Rightarrow> ExecutionResult \<times> regs" where
  "execute_xor m rd rs1 rs2 w pc regs =
     (let val1 = read_reg regs rs1; val2 = read_reg regs rs2; result = val1 XOR val2
      in arith_done m w pc ClassAlu 4 regs rd val1 (Some val2) result)"

definition execute_or :: "bool \<Rightarrow> Gpr \<Rightarrow> Gpr \<Rightarrow> Gpr \<Rightarrow> u32 \<Rightarrow> u32 \<Rightarrow> regs \<Rightarrow> ExecutionResult \<times> regs" where
  "execute_or m rd rs1 rs2 w pc regs =
     (let val1 = read_reg regs rs1; val2 = read_reg regs rs2; result = val1 OR val2
      in arith_done m w pc ClassAlu 4 regs rd val1 (Some val2) result)"

definition execute_and :: "bool \<Rightarrow> Gpr \<Rightarrow> Gpr \<Rightarrow> Gpr \<Rightarrow> u32 \<Rightarrow> u32 \<Rightarrow> regs \<Rightarrow> ExecutionResult \<times> regs" where
  "execute_and m rd rs1 rs2 w pc regs =
     (let val1 = read_reg regs rs1; val2 = read_reg regs rs2; result = val1 AND val2
      in arith_done m w pc ClassAlu 4 regs rd val1 (Some val2) result)"

definition execute_sll :: "bool \<Rightarrow> Gpr \<Rightarrow> Gpr \<Rightarrow> Gpr \<Rightarrow> u32 \<Rightarrow> u32 \<Rightarrow> regs \<Rightarrow> ExecutionResult \<times> regs" where
  "execute_sll m rd rs1 rs2 w pc regs =
     (let val1 = read_reg regs rs1; val2 = read_reg regs rs2; result = (let shift_amount = unat (val2 AND 0x1f) in push_bit shift_amount val1)
      in arith_done m w pc ClassAlu 4 regs rd val1 (Some val2) result)"

definition execute_srl :: "bool \<Rightarrow> Gpr \<Rightarrow> Gpr \<Rightarrow> Gpr \<Rightarrow> u32 \<Rightarrow> u32 \<Rightarrow> regs \<Rightarrow> ExecutionResult \<times> regs" where
  "execute_srl m rd rs1 rs2 w pc regs =
     (let val1 = read_reg regs rs1; val2 = read_reg regs rs2; result = (let shift_amount = unat (val2 AND 0x1f) in drop_bit shift_amount val1)
      in arith_done m w pc ClassAlu 4 regs rd val1 (Some val2) result)"

definition execute_sra :: "bool \<Rightarrow> Gpr \<Rightarrow> Gpr \<Rightarrow> Gpr \<Rightarrow> u32 \<Rightarrow> u32 \<Rightarrow> regs \<Rightarrow> ExecutionResult \<times> regs" where
  "execute_sra m rd rs1 rs2 w pc regs =
     (let val1 = read_reg regs rs1; val2 = read_reg regs rs2; result = (let shift_amount = unat (val2 AND 0x1f) in signed_drop_bit shift_amount val1)
      in arith_done m w pc ClassAlu 4 regs rd val1 (Some val2) result)"

definition execute_rol :: "bool \<Rightarrow> Gpr \<Rightarrow> Gpr \<Rightarrow> Gpr \<Rightarrow> u32 \<Rightarrow> u32 \<Rightarrow> regs \<Rightarrow> ExecutionResult \<times> regs" where
  "execute_rol m rd rs1 rs2 w pc regs =
     (let val1 = read_reg regs rs1; val2 = read_reg regs rs2; result = (let shift_amount = unat (val2 AND 0x1f) in word_rotl shift_amount val1)
      in arith_done m w pc ClassAlu 4 regs rd val1 (Some val2) result)"

definition execute_ror :: "bool \<Rightarrow> Gpr \<Rightarrow> Gpr \<Rightarrow> Gpr \<Rightarrow> u32 \<Rightarrow> u32 \<Rightarrow> regs \<Rightarrow> ExecutionResult \<times> regs" where
  "execute_ror m rd rs1 rs2 w pc regs =
     (let val1 = read_reg regs rs1; val2 = read_reg regs rs2; result = (let shift_amount = unat (val2 AND 0x1f) in word_rotr shift_amount val1)
      in arith_done m w pc ClassAlu 4 regs rd val1 (Some val2) result)"

definition execute_andn :: "bool \<Rightarrow> Gpr \<Rightarrow> Gpr \<Rightarrow> Gpr \<Rightarrow> u32 \<Rightarrow> u32 \<Rightarrow> regs \<Rightarrow> ExecutionResult \<times> regs" where
  "execute_andn m rd rs1 rs2 w pc regs =
     (let val1 = read_reg regs rs1; val2 = read_reg regs rs2; result = val1 AND NOT val2
      in arith_done m w pc ClassAlu 4 regs rd val1 (Some val2) result)"

definition execute_orn :: "bool \<Rightarrow> Gpr \<Rightarrow> Gpr \<Rightarrow> Gpr \<Rightarrow> u32 \<Rightarrow> u32 \<Rightarrow> regs \<Rightarrow> ExecutionResult \<times> regs" where
  "execute_orn m rd rs1 rs2 w pc regs =
     (let val1 = read_reg regs rs1; val2 = read_reg regs rs2; result = val1 OR NOT val2
      in arith_done m w pc ClassAlu 4 regs rd val1 (Some val2) result)"

definition execute_xnor :: "bool \<Rightarrow> Gpr \<Rightarrow> Gpr \<Rightarrow> Gpr \<Rightarrow> u32 \<Rightarrow> u32 \<Rightarrow> regs \<Rightarrow> ExecutionResult \<times> regs" where
  "execute_xnor m rd rs1 rs2 w pc regs =
     (let val1 = read_reg regs rs1; val2 = read_reg regs rs2; result = NOT (val1 XOR val2)
      in arith_done m w pc ClassAlu 4 regs rd val1 (Some val2) result)"

definition execute_min :: "bool \<Rightarrow> Gpr \<Rightarrow> Gpr \<Rightarrow> Gpr \<Rightarrow> u32 \<Rightarrow> u32 \<Rightarrow> regs \<Rightarrow> ExecutionResult \<times> regs" where
  "execute_min m rd rs1 rs2 w pc regs =
     (let val1 = read_reg regs rs1; val2 = read_reg regs rs2; result = smin val1 val2
      in arith_done m w pc ClassAlu 4 regs rd val1 (Some val2) result)"

definition execute_minu :: "bool \<Rightarrow> Gpr \<Rightarrow> Gpr \<Rightarrow> Gpr \<Rightarrow> u32 \<Rightarrow> u32 \<Rightarrow> regs \<Rightarrow> ExecutionResult \<times> regs" where
  "execute_minu m rd rs1 rs2 w pc regs =
     (let val1 = read_reg regs rs1; val2 = read_reg regs rs2; result = min val1 val2
      in arith_done m w pc ClassAlu 4 regs rd val1 (Some val2) result)"

definition execute_max :: "bool \<Rightarrow> Gpr \<Rightarrow> Gpr \<Rightarrow> Gpr \<Rightarrow> u32 \<Rightarrow> u32 \<Rightarrow> regs \<Rightarrow> ExecutionResult \<times> regs" where
  "execute_max m rd rs1 rs2 w pc regs =
     (let val1 = read_reg regs rs1; val2 = read_reg regs rs2; result = smax val1 val2
      in arith_done m w pc ClassAlu 4 regs rd val1 (Some val2) result)"

definition execute_maxu :: "bool \<Rightarrow> Gpr \<Rightarrow> Gpr \<Rightarrow> Gpr \<Rightarrow> u32 \<Rightarrow> u32 \<Rightarrow> regs \<Rightarrow> ExecutionResult \<times> regs" where
  "execute_maxu m rd rs1 rs2 w pc regs =
     (let val1 = read_reg regs rs1; val2 = read_reg regs rs2; result = max val1 val2
      in arith_done m w pc ClassAlu 4 regs rd val1 (Some val2) result)"

definition execute_bclr :: "bool \<Rightarrow> Gpr \<Rightarrow> Gpr \<Rightarrow> Gpr \<Rightarrow> u32 \<Rightarrow> u32 \<Rightarrow> regs \<Rightarrow> ExecutionResult \<times> regs" where
  "execute_bclr m rd rs1 rs2 w pc regs =
     (let val1 = read_reg regs rs1; val2 = read_reg regs rs2; result = (let bit_pos = unat (val2 AND 0x1f); mask = NOT (push_bit bit_pos 1) in val1 AND mask)
      in arith_done m w pc ClassAlu 4 regs rd val1 (Some val2) result)"

definition execute_bext :: "bool \<Rightarrow> Gpr \<Rightarrow> Gpr \<Rightarrow> Gpr \<Rightarrow> u32 \<Rightarrow> u32 \<Rightarrow> regs \<Rightarrow> ExecutionResult \<times> regs" where
  "execute_bext m rd rs1 rs2 w pc regs =
     (let val1 = read_reg regs rs1; val2 = read_reg regs rs2; result = (let bit_pos = unat (val2 AND 0x1f) in drop_bit bit_pos val1 AND 1)
      in arith_done m w pc ClassAlu 4 regs rd val1 (Some val2) result)"

definition execute_binv :: "bool \<Rightarrow> Gpr \<Rightarrow> Gpr \<Rightarrow> Gpr \<Rightarrow> u32 \<Rightarrow> u32 \<Rightarrow> regs \<Rightarrow> ExecutionResult \<times> regs" where
  "execute_binv m rd rs1 rs2 w pc regs =
     (let val1 = read_reg regs rs1; val2 = read_reg regs rs2; result = (let bit_pos = unat (val2 AND 0x1f); mask = push_bit bit_pos 1 in val1 XOR mask)
      in arith_done m w pc ClassAlu 4 regs rd val1 (Some val2) result)"

definition execute_bset :: "bool \<Rightarrow> Gpr \<Rightarrow> Gpr \<Rightarrow> Gpr \<Rightarrow> u32 \<Rightarrow> u32 \<Rightarrow> regs \<Rightarrow> ExecutionResult \<times> regs" where
  "execute_bset m rd rs1 rs2 w pc regs =
     (let val1 = read_reg regs rs1; val2 = read_reg regs rs2; result = (let bit_pos = unat (val2 AND 0x1f); mask = push_bit bit_pos 1 in val1 OR mask)
      in arith_done m w pc ClassAlu 4 regs rd val1 (Some val2) result)"

definition execute_sh1add :: "bool \<Rightarrow> Gpr \<Rightarrow> Gpr \<Rightarrow> Gpr \<Rightarrow> u32 \<Rightarrow> u32 \<Rightarrow> regs \<Rightarrow> ExecutionResult \<times> regs" where
  "execute_sh1add m rd rs1 rs2 w pc regs =
     (let val1 = read_reg regs rs1; val2 = read_reg regs rs2; result = push_bit 1 val1 + val2
      in arith_done m w pc ClassAlu 4 regs rd val1 (Some val2) result)"

definition execute_sh2add :: "bool \<Rightarrow> Gpr \<Rightarrow> Gpr \<Rightarrow> Gpr \<Rightarrow> u32 \<Rightarrow> u32 \<Rightarrow> regs \<Rightarrow> ExecutionResult \<times> regs" where
  "execute_sh2add m rd rs1 rs2 w pc regs =
     (let val1 = read_reg regs rs1; val2 = read_reg regs rs2; result = push_bit 2 val1 + val2
      in arith_done m w pc ClassAlu 4 regs rd val1 (Some val2) result)"

definition execute_sh3add :: "bool \<Rightarrow> Gpr \<Rightarrow> Gpr \<Rightarrow> Gpr \<Rightarrow> u32 \<Rightarrow> u32 \<Rightarrow> regs \<Rightarrow> ExecutionResult \<times> regs" where
  "execute_sh3add m rd rs1 rs2 w pc regs =
     (let val1 = read_reg regs rs1; val2 = read_reg regs rs2; result = push_bit 3 val1 + val2
      in arith_done m w pc ClassAlu 4 regs rd val1 (Some val2) result)"

definition execute_zexth :: "bool \<Rightarrow> Gpr \<Rightarrow> Gpr \<Rightarrow> u32 \<Rightarrow> u32 \<Rightarrow> regs \<Rightarrow> ExecutionResult \<times> regs" where
  "execute_zexth m rd rs1 w pc regs =
     (let val1 = read_reg regs rs1; result = val1 AND 0xffff in arith_done m w pc ClassAlu 4 regs rd val1 None result)"

text \<open>An instruction that cannot fail, as a result; one that is not known.\<close>

definition done_ok :: "ExecutionResult \<times> regs \<Rightarrow> (EmulatorError + ExecutionResult) \<times> regs" where
  "done_ok r = (Inr (fst r), snd r)"

definition invalid :: "u32 \<Rightarrow> u32 \<Rightarrow> string \<Rightarrow> regs \<Rightarrow> (EmulatorError + ExecutionResult) \<times> regs" where
  "invalid pc w reason regs = (Inl (InvalidInstruction pc w reason regs), regs)"

definition decode_execute_rtype :: "bool \<Rightarrow> u32 \<Rightarrow> u32 \<Rightarrow> regs \<Rightarrow> (EmulatorError + ExecutionResult) \<times> regs" where
  "decode_execute_rtype m w pc regs =
     (let r = r_from_riscv w; rd = gpr_at (tr_rd r); rs1 = gpr_at (tr_rs1 r); rs2 = gpr_at (tr_rs2 r);
          funct3 = ucast (tr_func r AND 0x7) :: u8; funct7 = ucast (drop_bit 3 (tr_func r) AND 0x7f) :: u8
      in if funct3 = 0x0 \<and> funct7 = 0x0 then done_ok (execute_add m rd rs1 rs2 w pc regs)
         else if funct3 = 0x0 \<and> funct7 = 0x20 then done_ok (execute_sub m rd rs1 rs2 w pc regs)
         else if funct3 = 0x0 \<and> funct7 = 0x01 then done_ok (execute_mul m rd rs1 rs2 w pc regs)
         else if funct3 = 0x1 \<and> funct7 = 0x01 then done_ok (execute_mulh m rd rs1 rs2 w pc regs)
         else if funct3 = 0x2 \<and> funct7 = 0x01 then done_ok (execute_mulhsu m rd rs1 rs2 w pc regs)
         else if funct3 = 0x3 \<and> funct7 = 0x01 then done_ok (execute_mulhu m rd rs1 rs2 w pc regs)
         else if funct3 = 0x4 \<and> funct7 = 0x01 then done_ok (execute_div m rd rs1 rs2 w pc regs)
         else if funct3 = 0x5 \<and> funct7 = 0x01 then done_ok (execute_divu m rd rs1 rs2 w pc regs)
         else if funct3 = 0x6 \<and> funct7 = 0x01 then done_ok (execute_rem m rd rs1 rs2 w pc regs)
         else if funct3 = 0x7 \<and> funct7 = 0x01 then done_ok (execute_remu m rd rs1 rs2 w pc regs)
         else if funct3 = 0x2 \<and> funct7 = 0x0 then done_ok (execute_slt m rd rs1 rs2 w pc regs)
         else if funct3 = 0x3 \<and> funct7 = 0x0 then done_ok (execute_sltu m rd rs1 rs2 w pc regs)
         else if funct3 = 0x4 \<and> funct7 = 0x0 then done_ok (execute_xor m rd rs1 rs2 w pc regs)
         else if funct3 = 0x6 \<and> funct7 = 0x0 then done_ok (execute_or m rd rs1 rs2 w pc regs)
         else if funct3 = 0x7 \<and> funct7 = 0x0 then done_ok (execute_and m rd rs1 rs2 w pc regs)
         else if funct3 = 0x1 \<and> funct7 = 0x0 then done_ok (execute_sll m rd rs1 rs2 w pc regs)
         else if funct3 = 0x5 \<and> funct7 = 0x0 then done_ok (execute_srl m rd rs1 rs2 w pc regs)
         else if funct3 = 0x5 \<and> funct7 = 0x20 then done_ok (execute_sra m rd rs1 rs2 w pc regs)
         else if funct3 = 0x1 \<and> funct7 = 0x30 then done_ok (execute_rol m rd rs1 rs2 w pc regs)
         else if funct3 = 0x5 \<and> funct7 = 0x30 then done_ok (execute_ror m rd rs1 rs2 w pc regs)
         else if funct3 = 0x7 \<and> funct7 = 0x20 then done_ok (execute_andn m rd rs1 rs2 w pc regs)
         else if funct3 = 0x6 \<and> funct7 = 0x20 then done_ok (execute_orn m rd rs1 rs2 w pc regs)
         else if funct3 = 0x4 \<and> funct7 = 0x20 then done_ok (execute_xnor m rd rs1 rs2 w pc regs)
         else if funct3 = 0x4 \<and> funct7 = 0x04 \<and> gpr_num rs2 = 0 then done_ok (execute_zexth m rd rs1 w pc regs)
         else if funct3 = 0x4 \<and> funct7 = 0x05 then done_ok (execute_min m rd rs1 rs2 w pc regs)
         else if funct3 = 0x5 \<and> funct7 = 0x05 then done_ok (execute_minu m rd rs1 rs2 w pc regs)
         else if funct3 = 0x6 \<and> funct7 = 0x05 then done_ok (execute_max m rd rs1 rs2 w pc regs)
         else if funct3 = 0x7 \<and> funct7 = 0x05 then done_ok (execute_maxu m rd rs1 rs2 w pc regs)
         else if funct3 = 0x1 \<and> funct7 = 0x24 then done_ok (execute_bclr m rd rs1 rs2 w pc regs)
         else if funct3 = 0x5 \<and> funct7 = 0x24 then done_ok (execute_bext m rd rs1 rs2 w pc regs)
         else if funct3 = 0x1 \<and> funct7 = 0x34 then done_ok (execute_binv m rd rs1 rs2 w pc regs)
         else if funct3 = 0x1 \<and> funct7 = 0x14 then done_ok (execute_bset m rd rs1 rs2 w pc regs)
         else if funct3 = 0x2 \<and> funct7 = 0x10 then done_ok (execute_sh1add m rd rs1 rs2 w pc regs)
         else if funct3 = 0x4 \<and> funct7 = 0x10 then done_ok (execute_sh2add m rd rs1 rs2 w pc regs)
         else if funct3 = 0x6 \<and> funct7 = 0x10 then done_ok (execute_sh3add m rd rs1 rs2 w pc regs)
         else invalid pc w (''Unknown R-type instruction: funct3=0x'' @ hex 0 funct3 @ '', funct7=0x'' @ hex 0 funct7) regs)"

subsection \<open>Immediate instructions\<close>

text \<open>The counts of the standard library.\<close>

definition leading_zeros :: "u32 \<Rightarrow> nat" where
  "leading_zeros v = length (takeWhile (\<lambda>i. \<not> bit v i) (rev [0..<32]))"

definition trailing_zeros :: "u32 \<Rightarrow> nat" where
  "trailing_zeros v = length (takeWhile (\<lambda>i. \<not> bit v i) [0..<32])"

definition count_ones :: "u32 \<Rightarrow> nat" where
  "count_ones v = length (filter (bit v) [0..<32])"

definition execute_addi :: "bool \<Rightarrow> Gpr \<Rightarrow> Gpr \<Rightarrow> i32 \<Rightarrow> u32 \<Rightarrow> u32 \<Rightarrow> regs \<Rightarrow> ExecutionResult \<times> regs" where
  "execute_addi m rd rs1 imm w pc regs =
     (let val1 = read_reg regs rs1; result = val1 + imm in arith_done m w pc ClassAlu 4 regs rd val1 None result)"

definition execute_slli :: "bool \<Rightarrow> Gpr \<Rightarrow> Gpr \<Rightarrow> i32 \<Rightarrow> u32 \<Rightarrow> u32 \<Rightarrow> regs \<Rightarrow> ExecutionResult \<times> regs" where
  "execute_slli m rd rs1 imm w pc regs =
     (let val1 = read_reg regs rs1; result = (let shift_amount = unat (imm AND 0x1f) in push_bit shift_amount val1) in arith_done m w pc ClassAlu 4 regs rd val1 None result)"

definition execute_srli :: "bool \<Rightarrow> Gpr \<Rightarrow> Gpr \<Rightarrow> i32 \<Rightarrow> u32 \<Rightarrow> u32 \<Rightarrow> regs \<Rightarrow> ExecutionResult \<times> regs" where
  "execute_srli m rd rs1 imm w pc regs =
     (let val1 = read_reg regs rs1; result = (let shift_amount = unat (imm AND 0x1f) in drop_bit shift_amount val1) in arith_done m w pc ClassAlu 4 regs rd val1 None result)"

definition execute_srai :: "bool \<Rightarrow> Gpr \<Rightarrow> Gpr \<Rightarrow> i32 \<Rightarrow> u32 \<Rightarrow> u32 \<Rightarrow> regs \<Rightarrow> ExecutionResult \<times> regs" where
  "execute_srai m rd rs1 imm w pc regs =
     (let val1 = read_reg regs rs1; result = (let shift_amount = unat (imm AND 0x1f) in signed_drop_bit shift_amount val1) in arith_done m w pc ClassAlu 4 regs rd val1 None result)"

definition execute_andi :: "bool \<Rightarrow> Gpr \<Rightarrow> Gpr \<Rightarrow> i32 \<Rightarrow> u32 \<Rightarrow> u32 \<Rightarrow> regs \<Rightarrow> ExecutionResult \<times> regs" where
  "execute_andi m rd rs1 imm w pc regs =
     (let val1 = read_reg regs rs1; result = val1 AND imm in arith_done m w pc ClassAlu 4 regs rd val1 None result)"

definition execute_ori :: "bool \<Rightarrow> Gpr \<Rightarrow> Gpr \<Rightarrow> i32 \<Rightarrow> u32 \<Rightarrow> u32 \<Rightarrow> regs \<Rightarrow> ExecutionResult \<times> regs" where
  "execute_ori m rd rs1 imm w pc regs =
     (let val1 = read_reg regs rs1; result = val1 OR imm in arith_done m w pc ClassAlu 4 regs rd val1 None result)"

definition execute_xori :: "bool \<Rightarrow> Gpr \<Rightarrow> Gpr \<Rightarrow> i32 \<Rightarrow> u32 \<Rightarrow> u32 \<Rightarrow> regs \<Rightarrow> ExecutionResult \<times> regs" where
  "execute_xori m rd rs1 imm w pc regs =
     (let val1 = read_reg regs rs1; result = val1 XOR imm in arith_done m w pc ClassAlu 4 regs rd val1 None result)"

definition execute_slti :: "bool \<Rightarrow> Gpr \<Rightarrow> Gpr \<Rightarrow> i32 \<Rightarrow> u32 \<Rightarrow> u32 \<Rightarrow> regs \<Rightarrow> ExecutionResult \<times> regs" where
  "execute_slti m rd rs1 imm w pc regs =
     (let val1 = read_reg regs rs1; result = (if sint val1 < sint imm then 1 else 0) in arith_done m w pc ClassAlu 4 regs rd val1 None result)"

definition execute_sltiu :: "bool \<Rightarrow> Gpr \<Rightarrow> Gpr \<Rightarrow> i32 \<Rightarrow> u32 \<Rightarrow> u32 \<Rightarrow> regs \<Rightarrow> ExecutionResult \<times> regs" where
  "execute_sltiu m rd rs1 imm w pc regs =
     (let val1 = read_reg regs rs1; result = (if val1 < imm then 1 else 0) in arith_done m w pc ClassAlu 4 regs rd val1 None result)"

definition execute_binvi :: "bool \<Rightarrow> Gpr \<Rightarrow> Gpr \<Rightarrow> i32 \<Rightarrow> u32 \<Rightarrow> u32 \<Rightarrow> regs \<Rightarrow> ExecutionResult \<times> regs" where
  "execute_binvi m rd rs1 imm w pc regs =
     (let val1 = read_reg regs rs1; result = (let bit_pos = unat (imm AND 0x1f); mask = push_bit bit_pos 1 in val1 XOR mask) in arith_done m w pc ClassAlu 4 regs rd val1 None result)"

definition execute_orcb :: "bool \<Rightarrow> Gpr \<Rightarrow> Gpr \<Rightarrow> u32 \<Rightarrow> u32 \<Rightarrow> regs \<Rightarrow> ExecutionResult \<times> regs" where
  "execute_orcb m rd rs1 w pc regs =
     (let val1 = read_reg regs rs1; result = fold (\<lambda>i result. if (ucast (drop_bit (8 * i) val1 AND 0xff) :: u8) \<noteq> 0 then result OR push_bit (8 * i) 0xff else result) [0, 1, 2, 3] 0
      in arith_done m w pc ClassAlu 4 regs rd val1 None result)"

definition execute_clz :: "bool \<Rightarrow> Gpr \<Rightarrow> Gpr \<Rightarrow> u32 \<Rightarrow> u32 \<Rightarrow> regs \<Rightarrow> ExecutionResult \<times> regs" where
  "execute_clz m rd rs1 w pc regs =
     (let val1 = read_reg regs rs1; result = (if val1 = 0 then 32 else of_nat (leading_zeros val1))
      in arith_done m w pc ClassAlu 4 regs rd val1 None result)"

definition execute_ctz :: "bool \<Rightarrow> Gpr \<Rightarrow> Gpr \<Rightarrow> u32 \<Rightarrow> u32 \<Rightarrow> regs \<Rightarrow> ExecutionResult \<times> regs" where
  "execute_ctz m rd rs1 w pc regs =
     (let val1 = read_reg regs rs1; result = (if val1 = 0 then 32 else of_nat (trailing_zeros val1))
      in arith_done m w pc ClassAlu 4 regs rd val1 None result)"

definition execute_cpop :: "bool \<Rightarrow> Gpr \<Rightarrow> Gpr \<Rightarrow> u32 \<Rightarrow> u32 \<Rightarrow> regs \<Rightarrow> ExecutionResult \<times> regs" where
  "execute_cpop m rd rs1 w pc regs =
     (let val1 = read_reg regs rs1; result = of_nat (count_ones val1)
      in arith_done m w pc ClassAlu 4 regs rd val1 None result)"

definition execute_sextb :: "bool \<Rightarrow> Gpr \<Rightarrow> Gpr \<Rightarrow> u32 \<Rightarrow> u32 \<Rightarrow> regs \<Rightarrow> ExecutionResult \<times> regs" where
  "execute_sextb m rd rs1 w pc regs =
     (let val1 = read_reg regs rs1; result = scast (ucast val1 :: 8 word)
      in arith_done m w pc ClassAlu 4 regs rd val1 None result)"

definition execute_sexth :: "bool \<Rightarrow> Gpr \<Rightarrow> Gpr \<Rightarrow> u32 \<Rightarrow> u32 \<Rightarrow> regs \<Rightarrow> ExecutionResult \<times> regs" where
  "execute_sexth m rd rs1 w pc regs =
     (let val1 = read_reg regs rs1; result = scast (ucast val1 :: 16 word)
      in arith_done m w pc ClassAlu 4 regs rd val1 None result)"

definition decode_execute_itype :: "bool \<Rightarrow> u32 \<Rightarrow> u32 \<Rightarrow> regs \<Rightarrow> (EmulatorError + ExecutionResult) \<times> regs" where
  "decode_execute_itype m w pc regs =
     (let i = i_from_riscv w; rd = gpr_at (ti_rd i); rs1 = gpr_at (ti_rs1 i); funct3 = ti_func i; imm = ti_imm i;
          funct7_bit5 = (drop_bit 25 w AND 0x20 \<noteq> 0)
      in if funct3 = 0x0 then done_ok (execute_addi m rd rs1 imm w pc regs)
         else if funct3 = 0x1 then
           (let funct6 = ucast (drop_bit 26 w AND 0x3f) :: u8; imm_5_0 = ucast (drop_bit 20 w AND 0x3f) :: u8;
                funct12 = ucast (drop_bit 20 w AND 0xfff) :: u16
            in if funct6 = 0x00 then done_ok (execute_slli m rd rs1 imm w pc regs)
               else if funct6 = 0x1a then done_ok (execute_binvi m rd rs1 (ucast imm_5_0) w pc regs)
               else if funct12 = 0x600 then done_ok (execute_clz m rd rs1 w pc regs)
               else if funct12 = 0x601 then done_ok (execute_ctz m rd rs1 w pc regs)
               else if funct12 = 0x602 then done_ok (execute_cpop m rd rs1 w pc regs)
               else if funct12 = 0x604 then done_ok (execute_sextb m rd rs1 w pc regs)
               else if funct12 = 0x605 then done_ok (execute_sexth m rd rs1 w pc regs)
               else invalid pc w (''Unknown I-type instruction: funct3=0x'' @ hex 0 funct3 @ '', funct6=0x'' @ hex 0 funct6 @
                 '', funct12=0x'' @ hex 0 funct12) regs)
         else if funct3 = 0x2 then done_ok (execute_slti m rd rs1 imm w pc regs)
         else if funct3 = 0x3 then done_ok (execute_sltiu m rd rs1 imm w pc regs)
         else if funct3 = 0x4 then done_ok (execute_xori m rd rs1 imm w pc regs)
         else if funct3 = 0x5 then
           (let funct12 = ucast (drop_bit 20 w AND 0xfff) :: u16
            in if funct7_bit5 then done_ok (execute_srai m rd rs1 imm w pc regs)
               else if funct12 = 0x287 then done_ok (execute_orcb m rd rs1 w pc regs)
               else done_ok (execute_srli m rd rs1 imm w pc regs))
         else if funct3 = 0x6 then done_ok (execute_ori m rd rs1 imm w pc regs)
         else if funct3 = 0x7 then done_ok (execute_andi m rd rs1 imm w pc regs)
         else invalid pc w (''Unknown I-type instruction: funct3=0x'' @ hex 0 funct3) regs)"

subsection \<open>Branches\<close>

text \<open>The part the branches share, from the comparison on.\<close>

definition branch_done :: "bool \<Rightarrow> u32 \<Rightarrow> u32 \<Rightarrow> u8 \<Rightarrow> i32 \<Rightarrow> i32 \<Rightarrow> i32 \<Rightarrow> bool \<Rightarrow> ExecutionResult" where
  "branch_done m w pc n val1 val2 imm taken =
     (let target = (if taken then Some (pc + imm) else None)
      in \<lparr>new_pc = target, should_halt = False, syscall = False,
          inst_class = (if taken then ClassBranchTaken else ClassBranchNotTaken), inst_size = n,
          inst_log = (if m then Some (LogBranch 0 pc w val1 val2 taken target) else None)\<rparr>)"

definition execute_beq :: "bool \<Rightarrow> Gpr \<Rightarrow> Gpr \<Rightarrow> i32 \<Rightarrow> u32 \<Rightarrow> u32 \<Rightarrow> regs \<Rightarrow> ExecutionResult \<times> regs" where
  "execute_beq m rs1 rs2 imm w pc regs =
     (let val1 = read_reg regs rs1; val2 = read_reg regs rs2; taken = (val1 = val2) in (branch_done m w pc 4 val1 val2 imm taken, regs))"

definition execute_bne :: "bool \<Rightarrow> Gpr \<Rightarrow> Gpr \<Rightarrow> i32 \<Rightarrow> u32 \<Rightarrow> u32 \<Rightarrow> regs \<Rightarrow> ExecutionResult \<times> regs" where
  "execute_bne m rs1 rs2 imm w pc regs =
     (let val1 = read_reg regs rs1; val2 = read_reg regs rs2; taken = (val1 \<noteq> val2) in (branch_done m w pc 4 val1 val2 imm taken, regs))"

definition execute_blt :: "bool \<Rightarrow> Gpr \<Rightarrow> Gpr \<Rightarrow> i32 \<Rightarrow> u32 \<Rightarrow> u32 \<Rightarrow> regs \<Rightarrow> ExecutionResult \<times> regs" where
  "execute_blt m rs1 rs2 imm w pc regs =
     (let val1 = read_reg regs rs1; val2 = read_reg regs rs2; taken = (sint val1 < sint val2) in (branch_done m w pc 4 val1 val2 imm taken, regs))"

definition execute_bge :: "bool \<Rightarrow> Gpr \<Rightarrow> Gpr \<Rightarrow> i32 \<Rightarrow> u32 \<Rightarrow> u32 \<Rightarrow> regs \<Rightarrow> ExecutionResult \<times> regs" where
  "execute_bge m rs1 rs2 imm w pc regs =
     (let val1 = read_reg regs rs1; val2 = read_reg regs rs2; taken = (sint val1 \<ge> sint val2) in (branch_done m w pc 4 val1 val2 imm taken, regs))"

definition execute_bltu :: "bool \<Rightarrow> Gpr \<Rightarrow> Gpr \<Rightarrow> i32 \<Rightarrow> u32 \<Rightarrow> u32 \<Rightarrow> regs \<Rightarrow> ExecutionResult \<times> regs" where
  "execute_bltu m rs1 rs2 imm w pc regs =
     (let val1 = read_reg regs rs1; val2 = read_reg regs rs2; taken = (val1 < val2) in (branch_done m w pc 4 val1 val2 imm taken, regs))"

definition execute_bgeu :: "bool \<Rightarrow> Gpr \<Rightarrow> Gpr \<Rightarrow> i32 \<Rightarrow> u32 \<Rightarrow> u32 \<Rightarrow> regs \<Rightarrow> ExecutionResult \<times> regs" where
  "execute_bgeu m rs1 rs2 imm w pc regs =
     (let val1 = read_reg regs rs1; val2 = read_reg regs rs2; taken = (val1 \<ge> val2) in (branch_done m w pc 4 val1 val2 imm taken, regs))"

definition decode_execute_branch :: "bool \<Rightarrow> u32 \<Rightarrow> u32 \<Rightarrow> regs \<Rightarrow> (EmulatorError + ExecutionResult) \<times> regs" where
  "decode_execute_branch m w pc regs =
     (let b = b_from_riscv w; rs1 = gpr_at (tb_rs1 b); rs2 = gpr_at (tb_rs2 b); funct3 = tb_func b; imm = tb_imm b
      in if funct3 = 0x0 then done_ok (execute_beq m rs1 rs2 imm w pc regs)
         else if funct3 = 0x1 then done_ok (execute_bne m rs1 rs2 imm w pc regs)
         else if funct3 = 0x4 then done_ok (execute_blt m rs1 rs2 imm w pc regs)
         else if funct3 = 0x5 then done_ok (execute_bge m rs1 rs2 imm w pc regs)
         else if funct3 = 0x6 then done_ok (execute_bltu m rs1 rs2 imm w pc regs)
         else if funct3 = 0x7 then done_ok (execute_bgeu m rs1 rs2 imm w pc regs)
         else invalid pc w (''Unknown branch instruction: funct3=0x'' @ hex 0 funct3) regs)"

subsection \<open>Jumps and upper immediates\<close>

definition execute_jal :: "bool \<Rightarrow> Gpr \<Rightarrow> i32 \<Rightarrow> u32 \<Rightarrow> u32 \<Rightarrow> regs \<Rightarrow> ExecutionResult \<times> regs" where
  "execute_jal m rd imm w pc regs =
     (let next_pc = pc + 4; target = (pc + imm) AND NOT 1
      in (\<lparr>new_pc = Some target, should_halt = False, syscall = False,
           inst_class = (if gpr_num rd = 0 then ClassJalTail else ClassJalCall), inst_size = 4,
           inst_log = (if m then Some (LogJump 0 pc w (read_reg regs rd) (if gpr_num rd = 0 then None else Some next_pc) target) else None)\<rparr>,
          write_reg regs rd next_pc))"

definition execute_jalr :: "bool \<Rightarrow> Gpr \<Rightarrow> Gpr \<Rightarrow> i32 \<Rightarrow> u32 \<Rightarrow> u32 \<Rightarrow> regs \<Rightarrow> ExecutionResult \<times> regs" where
  "execute_jalr m rd rs1 imm w pc regs =
     (let base = read_reg regs rs1; next_pc = pc + 4; target = (base + imm) AND NOT 1
      in (\<lparr>new_pc = Some target, should_halt = False, syscall = False,
           inst_class = (if gpr_num rd \<noteq> 0 then ClassJalrCall
             else if gpr_num rs1 = 1 \<and> imm = 0 then ClassJalrReturn else ClassJalrIndirect), inst_size = 4,
           inst_log = (if m then Some (LogJump 0 pc w (read_reg regs rd) (if gpr_num rd = 0 then None else Some next_pc) target) else None)\<rparr>,
          write_reg regs rd next_pc))"

text \<open>The tail of the instructions that load an immediate.\<close>

definition imm_done :: "bool \<Rightarrow> u32 \<Rightarrow> u32 \<Rightarrow> InstClass \<Rightarrow> u8 \<Rightarrow> regs \<Rightarrow> Gpr \<Rightarrow> i32 \<Rightarrow> ExecutionResult \<times> regs" where
  "imm_done m w pc c n regs rd value =
     (\<lparr>new_pc = None, should_halt = False, syscall = False, inst_class = c, inst_size = n,
       inst_log = (if m then Some (LogImmediate 0 pc w rd (read_reg regs rd) value) else None)\<rparr>,
      write_reg regs rd value)"

definition execute_lui :: "bool \<Rightarrow> Gpr \<Rightarrow> i32 \<Rightarrow> u32 \<Rightarrow> u32 \<Rightarrow> regs \<Rightarrow> ExecutionResult \<times> regs" where
  "execute_lui m rd imm w pc regs =
     (let upper_20_bits = drop_bit 12 imm AND 0xfffff; value = push_bit 12 upper_20_bits in imm_done m w pc ClassLui 4 regs rd value)"

definition execute_auipc :: "bool \<Rightarrow> Gpr \<Rightarrow> i32 \<Rightarrow> u32 \<Rightarrow> u32 \<Rightarrow> regs \<Rightarrow> ExecutionResult \<times> regs" where
  "execute_auipc m rd imm w pc regs = (let value = pc + imm in imm_done m w pc ClassAuipc 4 regs rd value)"

definition decode_execute_jal :: "bool \<Rightarrow> u32 \<Rightarrow> u32 \<Rightarrow> regs \<Rightarrow> (EmulatorError + ExecutionResult) \<times> regs" where
  "decode_execute_jal m w pc regs = (let j = j_from_riscv w in done_ok (execute_jal m (gpr_at (tj_rd j)) (tj_imm j) w pc regs))"

definition decode_execute_jalr :: "bool \<Rightarrow> u32 \<Rightarrow> u32 \<Rightarrow> regs \<Rightarrow> (EmulatorError + ExecutionResult) \<times> regs" where
  "decode_execute_jalr m w pc regs =
     (let i = i_from_riscv w in done_ok (execute_jalr m (gpr_at (ti_rd i)) (gpr_at (ti_rs1 i)) (ti_imm i) w pc regs))"

definition decode_execute_lui :: "bool \<Rightarrow> u32 \<Rightarrow> u32 \<Rightarrow> regs \<Rightarrow> (EmulatorError + ExecutionResult) \<times> regs" where
  "decode_execute_lui m w pc regs = (let u = u_from_riscv w in done_ok (execute_lui m (gpr_at (tu_rd u)) (tu_imm u) w pc regs))"

definition decode_execute_auipc :: "bool \<Rightarrow> u32 \<Rightarrow> u32 \<Rightarrow> regs \<Rightarrow> (EmulatorError + ExecutionResult) \<times> regs" where
  "decode_execute_auipc m w pc regs = (let u = u_from_riscv w in done_ok (execute_auipc m (gpr_at (tu_rd u)) (tu_imm u) w pc regs))"

end
