(* ===== verification/Emu_Exec.thy ===== *)
theory Emu_Exec
  imports Emu_Alu
begin

unbundle bit_operations_syntax

text \<open>
  The executor of the RISC-V emulator, second part: \<^verbatim>\<open>lp-emu/lp-riscv-emu/src/emu/executor\<close>, \<^verbatim>\<open>load_store.rs\<close>, \<^verbatim>\<open>atomic.rs\<close>,
  \<^verbatim>\<open>system.rs\<close>, \<^verbatim>\<open>compressed.rs\<close> and the dispatch of \<^verbatim>\<open>mod.rs\<close>, over any bus. The floating-point executor (\<^verbatim>\<open>float.rs\<close>) is an
  argument of the dispatch.
\<close>

section \<open>Definitions\<close>

subsection \<open>Loads and stores\<close>

text \<open>The \<^verbatim>\<open>?\<close> after a bus access: an error ends the instruction with its context attached.\<close>

definition try_mem :: "(MemoryError + 'a) \<times> 'm \<Rightarrow> u32 \<Rightarrow> regs \<Rightarrow> ('a \<Rightarrow> 'm \<Rightarrow> (EmulatorError + ExecutionResult) \<times> regs \<times> 'm) \<Rightarrow> (EmulatorError + ExecutionResult) \<times> regs \<times> 'm" where
  "try_mem r pc regs k = (case r of (Inl e, mem) \<Rightarrow> (Inl (from_memory_error e pc regs), regs, mem) | (Inr x, mem) \<Rightarrow> k x mem)"

definition load_done :: "bool \<Rightarrow> u32 \<Rightarrow> u32 \<Rightarrow> InstClass \<Rightarrow> u8 \<Rightarrow> regs \<Rightarrow> Gpr \<Rightarrow> i32 \<Rightarrow> u32 \<Rightarrow> i32 \<Rightarrow> 'm \<Rightarrow> (EmulatorError + ExecutionResult) \<times> regs \<times> 'm" where
  "load_done m w pc c n regs rd base address value mem =
     (Inr \<lparr>new_pc = None, should_halt = False, syscall = False, inst_class = c, inst_size = n,
        inst_log = (if m then Some (LogLoad 0 pc w rd base address value (read_reg regs rd) value) else None)\<rparr>,
      write_reg regs rd value, mem)"

definition store_result :: "bool \<Rightarrow> u32 \<Rightarrow> u32 \<Rightarrow> InstClass \<Rightarrow> u8 \<Rightarrow> i32 \<Rightarrow> i32 \<Rightarrow> u32 \<Rightarrow> i32 \<Rightarrow> i32 \<Rightarrow> ExecutionResult" where
  "store_result m w pc c n base value address old new =
     \<lparr>new_pc = None, should_halt = False, syscall = False, inst_class = c, inst_size = n,
      inst_log = (if m then Some (LogStore 0 pc w base value address old new) else None)\<rparr>"

definition execute_lb :: "'m Bus \<Rightarrow> bool \<Rightarrow> Gpr \<Rightarrow> Gpr \<Rightarrow> i32 \<Rightarrow> u32 \<Rightarrow> u32 \<Rightarrow> regs \<Rightarrow> 'm \<Rightarrow> (EmulatorError + ExecutionResult) \<times> regs \<times> 'm" where
  "execute_lb bus m rd rs1 imm w pc regs mem =
     (let base = read_reg regs rs1; address = base + imm
      in try_mem (bus_read_byte bus mem address) pc regs (\<lambda>v mem. load_done m w pc ClassLoad 4 regs rd base address (scast v) mem))"

definition execute_lh :: "'m Bus \<Rightarrow> bool \<Rightarrow> Gpr \<Rightarrow> Gpr \<Rightarrow> i32 \<Rightarrow> u32 \<Rightarrow> u32 \<Rightarrow> regs \<Rightarrow> 'm \<Rightarrow> (EmulatorError + ExecutionResult) \<times> regs \<times> 'm" where
  "execute_lh bus m rd rs1 imm w pc regs mem =
     (let base = read_reg regs rs1; address = base + imm
      in try_mem (bus_read_halfword bus mem address) pc regs (\<lambda>v mem. load_done m w pc ClassLoad 4 regs rd base address (scast v) mem))"

definition execute_lw :: "'m Bus \<Rightarrow> bool \<Rightarrow> Gpr \<Rightarrow> Gpr \<Rightarrow> i32 \<Rightarrow> u32 \<Rightarrow> u32 \<Rightarrow> regs \<Rightarrow> 'm \<Rightarrow> (EmulatorError + ExecutionResult) \<times> regs \<times> 'm" where
  "execute_lw bus m rd rs1 imm w pc regs mem =
     (let base = read_reg regs rs1; address = base + imm
      in try_mem (bus_read_word bus mem address) pc regs (\<lambda>v mem. load_done m w pc ClassLoad 4 regs rd base address (v) mem))"

definition execute_lbu :: "'m Bus \<Rightarrow> bool \<Rightarrow> Gpr \<Rightarrow> Gpr \<Rightarrow> i32 \<Rightarrow> u32 \<Rightarrow> u32 \<Rightarrow> regs \<Rightarrow> 'm \<Rightarrow> (EmulatorError + ExecutionResult) \<times> regs \<times> 'm" where
  "execute_lbu bus m rd rs1 imm w pc regs mem =
     (let base = read_reg regs rs1; address = base + imm
      in try_mem (bus_read_byte bus mem address) pc regs (\<lambda>v mem. load_done m w pc ClassLoad 4 regs rd base address (ucast v) mem))"

definition execute_lhu :: "'m Bus \<Rightarrow> bool \<Rightarrow> Gpr \<Rightarrow> Gpr \<Rightarrow> i32 \<Rightarrow> u32 \<Rightarrow> u32 \<Rightarrow> regs \<Rightarrow> 'm \<Rightarrow> (EmulatorError + ExecutionResult) \<times> regs \<times> 'm" where
  "execute_lhu bus m rd rs1 imm w pc regs mem =
     (let base = read_reg regs rs1; address = base + imm
      in try_mem (bus_read_halfword bus mem address) pc regs (\<lambda>v mem. load_done m w pc ClassLoad 4 regs rd base address (ucast v) mem))"

definition execute_sb :: "'m Bus \<Rightarrow> bool \<Rightarrow> Gpr \<Rightarrow> Gpr \<Rightarrow> i32 \<Rightarrow> u32 \<Rightarrow> u32 \<Rightarrow> regs \<Rightarrow> 'm \<Rightarrow> (EmulatorError + ExecutionResult) \<times> regs \<times> 'm" where
  "execute_sb bus m rs1 rs2 imm w pc regs mem =
     (let base = read_reg regs rs1; value = read_reg regs rs2; address = base + imm
      in try_mem (if m then bus_read_byte bus mem address else (Inr 0, mem)) pc regs (\<lambda>old mem.
           try_mem (bus_write_byte bus mem address (ucast value)) pc regs (\<lambda>_ mem.
             (Inr (store_result m w pc ClassStore 4 base value address (scast old) (scast (ucast value :: 8 word))), regs, mem))))"

definition execute_sh :: "'m Bus \<Rightarrow> bool \<Rightarrow> Gpr \<Rightarrow> Gpr \<Rightarrow> i32 \<Rightarrow> u32 \<Rightarrow> u32 \<Rightarrow> regs \<Rightarrow> 'm \<Rightarrow> (EmulatorError + ExecutionResult) \<times> regs \<times> 'm" where
  "execute_sh bus m rs1 rs2 imm w pc regs mem =
     (let base = read_reg regs rs1; value = read_reg regs rs2; address = base + imm
      in try_mem (if m then bus_read_halfword bus mem address else (Inr 0, mem)) pc regs (\<lambda>old mem.
           try_mem (bus_write_halfword bus mem address (ucast value)) pc regs (\<lambda>_ mem.
             (Inr (store_result m w pc ClassStore 4 base value address (scast old) (scast (ucast value :: 16 word))), regs, mem))))"

definition execute_sw :: "'m Bus \<Rightarrow> bool \<Rightarrow> Gpr \<Rightarrow> Gpr \<Rightarrow> i32 \<Rightarrow> u32 \<Rightarrow> u32 \<Rightarrow> regs \<Rightarrow> 'm \<Rightarrow> (EmulatorError + ExecutionResult) \<times> regs \<times> 'm" where
  "execute_sw bus m rs1 rs2 imm w pc regs mem =
     (let base = read_reg regs rs1; value = read_reg regs rs2; address = base + imm
      in try_mem (if m then bus_read_word bus mem address else (Inr 0, mem)) pc regs (\<lambda>old mem.
           try_mem (bus_write_word bus mem address (value)) pc regs (\<lambda>_ mem.
             (Inr (store_result m w pc ClassStore 4 base value address (old) (value)), regs, mem))))"

definition invalid_mem :: "u32 \<Rightarrow> u32 \<Rightarrow> string \<Rightarrow> regs \<Rightarrow> 'm \<Rightarrow> (EmulatorError + ExecutionResult) \<times> regs \<times> 'm" where
  "invalid_mem pc w reason regs mem = (Inl (InvalidInstruction pc w reason regs), regs, mem)"

definition decode_execute_load :: "'m Bus \<Rightarrow> bool \<Rightarrow> u32 \<Rightarrow> u32 \<Rightarrow> regs \<Rightarrow> 'm \<Rightarrow> (EmulatorError + ExecutionResult) \<times> regs \<times> 'm" where
  "decode_execute_load bus m w pc regs mem =
     (let i = i_from_riscv w; rd = gpr_at (ti_rd i); rs1 = gpr_at (ti_rs1 i); funct3 = ti_func i; imm = ti_imm i
      in if funct3 = 0x0 then execute_lb bus m rd rs1 imm w pc regs mem
         else if funct3 = 0x1 then execute_lh bus m rd rs1 imm w pc regs mem
         else if funct3 = 0x2 then execute_lw bus m rd rs1 imm w pc regs mem
         else if funct3 = 0x4 then execute_lbu bus m rd rs1 imm w pc regs mem
         else if funct3 = 0x5 then execute_lhu bus m rd rs1 imm w pc regs mem
         else invalid_mem pc w (''Invalid load instruction: funct3=0x'' @ hex 0 funct3 @ '' (reserved on RV32)'') regs mem)"

definition decode_execute_store :: "'m Bus \<Rightarrow> bool \<Rightarrow> u32 \<Rightarrow> u32 \<Rightarrow> regs \<Rightarrow> 'm \<Rightarrow> (EmulatorError + ExecutionResult) \<times> regs \<times> 'm" where
  "decode_execute_store bus m w pc regs mem =
     (let s = s_from_riscv w; rs1 = gpr_at (ts_rs1 s); rs2 = gpr_at (ts_rs2 s); funct3 = ts_func s; imm = ts_imm s
      in if funct3 = 0x0 then execute_sb bus m rs1 rs2 imm w pc regs mem
         else if funct3 = 0x1 then execute_sh bus m rs1 rs2 imm w pc regs mem
         else if funct3 = 0x2 then execute_sw bus m rs1 rs2 imm w pc regs mem
         else invalid_mem pc w (''Unknown store instruction: funct3=0x'' @ hex 0 funct3) regs mem)"

subsection \<open>Atomic instructions\<close>

text \<open>The reservation of \<^verbatim>\<open>lr_reservation.rs\<close> is the reserved word, if any: \<^verbatim>\<open>reserve\<close> sets it, \<^verbatim>\<open>take_for_store\<close> compares and clears it.\<close>

definition reserve :: "u32 \<Rightarrow> u32 option \<Rightarrow> u32 option" where
  "reserve address word = Some address"

definition take_for_store :: "u32 \<Rightarrow> u32 option \<Rightarrow> bool \<times> u32 option" where
  "take_for_store address word = (word = Some address, None)"

definition reservation_clear :: "u32 option \<Rightarrow> u32 option" where
  "reservation_clear word = None"

definition execute_lr_w :: "'m Bus \<Rightarrow> bool \<Rightarrow> Gpr \<Rightarrow> Gpr \<Rightarrow> u32 \<Rightarrow> u32 \<Rightarrow> regs \<Rightarrow> 'm \<Rightarrow> u32 option \<Rightarrow>
    (EmulatorError + ExecutionResult) \<times> regs \<times> 'm \<times> u32 option" where
  "execute_lr_w bus m rd rs1 w pc regs mem reservation =
     (let base = read_reg regs rs1; address = base
      in case try_mem (bus_read_word bus mem address) pc regs (\<lambda>v mem. load_done m w pc ClassAtomic 4 regs rd base address v mem) of
           (Inl e, regs, mem) \<Rightarrow> (Inl e, regs, mem, reservation)
         | (Inr r, regs, mem) \<Rightarrow> (Inr r, regs, mem, reserve address reservation))"

definition execute_sc_w :: "'m Bus \<Rightarrow> bool \<Rightarrow> Gpr \<Rightarrow> Gpr \<Rightarrow> Gpr \<Rightarrow> u32 \<Rightarrow> u32 \<Rightarrow> regs \<Rightarrow> 'm \<Rightarrow> u32 option \<Rightarrow>
    (EmulatorError + ExecutionResult) \<times> regs \<times> 'm \<times> u32 option" where
  "execute_sc_w bus m rd rs1 rs2 w pc regs mem reservation =
     (let base = read_reg regs rs1; value = read_reg regs rs2; address = base
      in case (if m then bus_read_word bus mem address else (Inr 0, mem)) of
           (Inl e, mem) \<Rightarrow> (Inl (from_memory_error e pc regs), regs, mem, reservation)
         | (Inr old, mem) \<Rightarrow>
             (let (stored, reservation) = take_for_store address reservation;
                  r = store_result m w pc ClassAtomic 4 base value address old (if stored then value else old)
              in case (if stored then bus_write_word bus mem address value else (Inr (), mem)) of
                   (Inl e, mem) \<Rightarrow> (Inl (from_memory_error e pc regs), regs, mem, reservation)
                 | (Inr _, mem) \<Rightarrow> (Inr r, write_reg regs rd (if stored then 0 else 1), mem, reservation)))"

text \<open>The read-modify-write instructions differ in the new value only.\<close>

definition execute_amo :: "(i32 \<Rightarrow> i32 \<Rightarrow> i32) \<Rightarrow> 'm Bus \<Rightarrow> bool \<Rightarrow> Gpr \<Rightarrow> Gpr \<Rightarrow> Gpr \<Rightarrow> u32 \<Rightarrow> u32 \<Rightarrow> regs \<Rightarrow> 'm \<Rightarrow> (EmulatorError + ExecutionResult) \<times> regs \<times> 'm" where
  "execute_amo f bus m rd rs1 rs2 w pc regs mem =
     (let base = read_reg regs rs1; operand = read_reg regs rs2; address = base
      in try_mem (bus_read_word bus mem address) pc regs (\<lambda>old mem.
           let new = f old operand
           in try_mem (bus_write_word bus mem address new) pc regs (\<lambda>_ mem.
                (Inr (store_result m w pc ClassAtomic 4 base operand address old new), write_reg regs rd old, mem))))"

definition amo_min_max :: "u8 \<Rightarrow> i32 \<Rightarrow> i32 \<Rightarrow> i32" where
  "amo_min_max funct5 old operand =
     (if funct5 = 0x10 then smin old operand else if funct5 = 0x14 then smax old operand
      else if funct5 = 0x18 then min old operand else max old operand)"

definition decode_execute_atomic :: "'m Bus \<Rightarrow> bool \<Rightarrow> u32 \<Rightarrow> u32 \<Rightarrow> regs \<Rightarrow> 'm \<Rightarrow> u32 option \<Rightarrow>
    (EmulatorError + ExecutionResult) \<times> regs \<times> 'm \<times> u32 option" where
  "decode_execute_atomic bus m w pc regs mem reservation =
     (let r = r_from_riscv w; rd = gpr_at (tr_rd r); rs1 = gpr_at (tr_rs1 r); rs2 = gpr_at (tr_rs2 r);
          funct3 = ucast (tr_func r AND 0x7) :: u8; funct5 = ucast (drop_bit 27 w AND 0x1f) :: u8;
          amo = (\<lambda>f. let (res, regs, mem) = execute_amo f bus m rd rs1 rs2 w pc regs mem in (res, regs, mem, reservation))
      in if funct3 \<noteq> 0x2 then (Inl (InvalidInstruction pc w (''Unsupported atomic width: funct3=0x'' @ hex 0 funct3) regs), regs, mem, reservation)
         else if funct5 = 0x02 then execute_lr_w bus m rd rs1 w pc regs mem reservation
         else if funct5 = 0x03 then execute_sc_w bus m rd rs1 rs2 w pc regs mem reservation
         else if funct5 = 0x01 then amo (\<lambda>old new. new)
         else if funct5 = 0x00 then amo (\<lambda>old addend. old + addend)
         else if funct5 = 0x04 then amo (\<lambda>old xor_val. old XOR xor_val)
         else if funct5 = 0x0c then amo (\<lambda>old and_val. old AND and_val)
         else if funct5 = 0x08 then amo (\<lambda>old or_val. old OR or_val)
         else if funct5 = 0x10 \<or> funct5 = 0x14 \<or> funct5 = 0x18 \<or> funct5 = 0x1c then amo (amo_min_max funct5)
         else (Inl (InvalidInstruction pc w (''Unknown atomic instruction: funct5=0x'' @ hex 0 funct5) regs), regs, mem, reservation))"

subsection \<open>System instructions\<close>

text \<open>The floating-point state of \<^verbatim>\<open>fp_regs.rs\<close>, with the three registers the CSR instructions reach.\<close>

record FpRegs =
  fp_bits :: "u8 \<Rightarrow> u32"
  fflags :: u8
  frm :: u8

definition fp_new :: FpRegs where
  "fp_new = \<lparr>fp_bits = (\<lambda>_. 0), fflags = 0, frm = 0\<rparr>"

definition FFLAGS_MASK :: u8 where "FFLAGS_MASK = 0x1f"
definition CSR_FFLAGS :: u16 where "CSR_FFLAGS = 0x001"
definition CSR_FRM :: u16 where "CSR_FRM = 0x002"
definition CSR_FCSR :: u16 where "CSR_FCSR = 0x003"

definition read_single :: "FpRegs \<Rightarrow> u8 \<Rightarrow> u32" where
  "read_single fp idx = fp_bits fp (idx AND 0x1f)"

definition write_single :: "FpRegs \<Rightarrow> u8 \<Rightarrow> u32 \<Rightarrow> FpRegs" where
  "write_single fp idx bits = fp\<lparr>fp_bits := (fp_bits fp)(idx AND 0x1f := bits)\<rparr>"

definition accrue :: "u8 \<Rightarrow> FpRegs \<Rightarrow> FpRegs" where
  "accrue flags fp = fp\<lparr>fflags := fflags fp OR (flags AND FFLAGS_MASK)\<rparr>"

definition set_fflags :: "u8 \<Rightarrow> FpRegs \<Rightarrow> FpRegs" where
  "set_fflags value fp = fp\<lparr>fflags := value AND FFLAGS_MASK\<rparr>"

definition set_frm :: "u8 \<Rightarrow> FpRegs \<Rightarrow> FpRegs" where
  "set_frm value fp = fp\<lparr>frm := value AND 0x7\<rparr>"

definition fcsr :: "FpRegs \<Rightarrow> u8" where
  "fcsr fp = push_bit 5 (frm fp) OR fflags fp"

definition set_fcsr :: "u32 \<Rightarrow> FpRegs \<Rightarrow> FpRegs" where
  "set_fcsr value fp = fp\<lparr>fflags := ucast value AND FFLAGS_MASK, frm := ucast (drop_bit 5 value) AND 0x7\<rparr>"

definition read_csr :: "FpRegs \<Rightarrow> u16 \<Rightarrow> u32 option" where
  "read_csr fp csr =
     (if csr = CSR_FFLAGS then Some (ucast (fflags fp)) else if csr = CSR_FRM then Some (ucast (frm fp))
      else if csr = CSR_FCSR then Some (ucast (fcsr fp)) else None)"

definition write_csr :: "u16 \<Rightarrow> u32 \<Rightarrow> FpRegs \<Rightarrow> bool \<times> FpRegs" where
  "write_csr csr value fp =
     (if csr = CSR_FFLAGS then (True, set_fflags (ucast value) fp) else if csr = CSR_FRM then (True, set_frm (ucast value) fp)
      else if csr = CSR_FCSR then (True, set_fcsr value fp) else (False, fp))"

datatype CsrOp = CsrWrite | CsrSet | CsrClear

definition system_result :: "bool \<Rightarrow> u32 \<Rightarrow> u32 \<Rightarrow> bool \<Rightarrow> bool \<Rightarrow> InstClass \<Rightarrow> u8 \<Rightarrow> SystemKind \<Rightarrow> ExecutionResult" where
  "system_result m w pc halt sys c n kind =
     \<lparr>new_pc = None, should_halt = halt, syscall = sys, inst_class = c, inst_size = n,
      inst_log = (if m then Some (LogSystem 0 pc w kind) else None)\<rparr>"

definition execute_csr :: "bool \<Rightarrow> Gpr \<Rightarrow> u16 \<Rightarrow> CsrOp \<Rightarrow> u32 \<Rightarrow> bool \<Rightarrow> u32 \<Rightarrow> u32 \<Rightarrow> regs \<Rightarrow> FpRegs \<Rightarrow> ExecutionResult \<times> regs \<times> FpRegs" where
  "execute_csr m rd csr op source source_is_zero w pc regs fp =
     (let old = (case read_csr fp csr of Some v \<Rightarrow> v | None \<Rightarrow> 0);
          write = (case op of CsrWrite \<Rightarrow> Some source
                   | CsrSet \<Rightarrow> if \<not> source_is_zero then Some (old OR source) else None
                   | CsrClear \<Rightarrow> if \<not> source_is_zero then Some (old AND NOT source) else None);
          fp = (case write of Some value \<Rightarrow> snd (write_csr csr value fp) | None \<Rightarrow> fp)
      in (system_result m w pc False False ClassSystem 4 KindEbreak, write_reg regs rd old, fp))"

definition execute_ecall :: "bool \<Rightarrow> u32 \<Rightarrow> u32 \<Rightarrow> ExecutionResult" where
  "execute_ecall m w pc = system_result m w pc False True ClassSystem 4 KindEcall"

definition execute_ebreak :: "bool \<Rightarrow> u32 \<Rightarrow> u32 \<Rightarrow> ExecutionResult" where
  "execute_ebreak m w pc = system_result m w pc True False ClassSystem 4 KindEbreak"

definition execute_fence :: "bool \<Rightarrow> u32 \<Rightarrow> u32 \<Rightarrow> ExecutionResult" where
  "execute_fence m w pc = system_result m w pc False False ClassFence 4 KindEbreak"

definition execute_fence_i :: "bool \<Rightarrow> u32 \<Rightarrow> u32 \<Rightarrow> ExecutionResult" where
  "execute_fence_i m w pc = system_result m w pc False False ClassFence 4 KindEbreak"

definition decode_execute_system :: "bool \<Rightarrow> u32 \<Rightarrow> u32 \<Rightarrow> regs \<Rightarrow> FpRegs \<Rightarrow> (EmulatorError + ExecutionResult) \<times> regs \<times> FpRegs" where
  "decode_execute_system m w pc regs fp =
     (let i = i_from_riscv w; funct3 = ti_func i; imm = ti_imm i
      in if funct3 = 0x0 then
           (let funct12 = ucast (imm AND 0xfff) :: u16
            in if funct12 = 0x000 then (Inr (execute_ecall m w pc), regs, fp)
               else if funct12 = 0x001 then (Inr (execute_ebreak m w pc), regs, fp)
               else (Inl (InvalidInstruction pc w (''Unknown system instruction: funct3=0x'' @ hex 0 funct3 @ '', funct12=0x'' @ hex 0 funct12)
                       regs), regs, fp))
         else
           (let rd = gpr_at (ti_rd i); csr = ucast (imm AND 0xfff) :: u16;
                op = (if funct3 = 1 \<or> funct3 = 5 then CsrWrite else if funct3 = 2 \<or> funct3 = 6 then CsrSet else CsrClear);
                go = (\<lambda>source source_is_zero.
                  let (r, regs, fp) = execute_csr m rd csr op source source_is_zero w pc regs fp in (Inr r, regs, fp))
            in if funct3 = 1 \<or> funct3 = 2 \<or> funct3 = 3 then
                 (let rs1 = gpr_at (ti_rs1 i) in go (read_reg regs rs1) (gpr_num rs1 = 0))
               else if funct3 = 5 \<or> funct3 = 6 \<or> funct3 = 7 then go (ucast (ti_rs1 i)) (ti_rs1 i = 0)
               else (Inl (InvalidInstruction pc w (''Unknown CSR instruction: funct3=0x'' @ hex 0 funct3) regs), regs, fp)))"

definition decode_execute_fence :: "bool \<Rightarrow> u32 \<Rightarrow> u32 \<Rightarrow> ExecutionResult" where
  "decode_execute_fence m w pc =
     (let funct3 = ucast (drop_bit 12 w AND 0x7) :: u8; imm = ucast (drop_bit 20 w AND 0xfff) :: u16;
          rs1 = ucast (drop_bit 15 w AND 0x1f) :: u8; rd = ucast (drop_bit 7 w AND 0x1f) :: u8
      in if funct3 = 0x1 \<and> imm = 0x001 \<and> rs1 = 0 \<and> rd = 0 then execute_fence_i m w pc else execute_fence m w pc)"

subsection \<open>Compressed instructions\<close>

text \<open>The immediates and offsets are decoded as in \<^verbatim>\<open>decode_rvc.rs\<close>, of which this file has its own copies.\<close>

definition execute_c_addi4spn :: "bool \<Rightarrow> Gpr \<Rightarrow> i32 \<Rightarrow> u32 \<Rightarrow> u32 \<Rightarrow> regs \<Rightarrow> ExecutionResult \<times> regs" where
  "execute_c_addi4spn m rd imm w pc regs =
     (let sp_val = read_reg regs Sp; result = sp_val + imm in arith_done m w pc ClassAlu 2 regs rd sp_val None result)"

definition execute_c_addi :: "bool \<Rightarrow> Gpr \<Rightarrow> i32 \<Rightarrow> u32 \<Rightarrow> u32 \<Rightarrow> regs \<Rightarrow> ExecutionResult \<times> regs" where
  "execute_c_addi m rd imm w pc regs =
     (let val1 = read_reg regs rd; result = val1 + imm in arith_done m w pc ClassAlu 2 regs rd val1 None result)"

definition execute_c_nop :: "bool \<Rightarrow> u32 \<Rightarrow> u32 \<Rightarrow> regs \<Rightarrow> ExecutionResult \<times> regs" where
  "execute_c_nop m w pc regs =
     (\<lparr>new_pc = None, should_halt = False, syscall = False, inst_class = ClassAlu, inst_size = 2,
       inst_log = (if m then Some (LogArithmetic 0 pc w Zero 0 None 0 0) else None)\<rparr>, regs)"

definition execute_c_jal :: "bool \<Rightarrow> i32 \<Rightarrow> u32 \<Rightarrow> u32 \<Rightarrow> regs \<Rightarrow> ExecutionResult \<times> regs" where
  "execute_c_jal m offset w pc regs =
     (let next_pc = pc + 2; target = pc + offset; regs = regs(Ra := next_pc)
      in (\<lparr>new_pc = Some target, should_halt = False, syscall = False, inst_class = ClassJalCall, inst_size = 2,
           inst_log = (if m then Some (LogJump 0 pc w (read_reg regs Ra) (Some next_pc) target) else None)\<rparr>, regs))"

definition execute_c_li :: "bool \<Rightarrow> Gpr \<Rightarrow> i32 \<Rightarrow> u32 \<Rightarrow> u32 \<Rightarrow> regs \<Rightarrow> ExecutionResult \<times> regs" where
  "execute_c_li m rd imm w pc regs =
     arith_done m w pc ClassAlu 2 regs rd 0 None imm"

definition execute_c_addi16sp :: "bool \<Rightarrow> i32 \<Rightarrow> u32 \<Rightarrow> u32 \<Rightarrow> regs \<Rightarrow> ExecutionResult \<times> regs" where
  "execute_c_addi16sp m imm w pc regs =
     (let sp_val = read_reg regs Sp; result = sp_val + imm
      in (\<lparr>new_pc = None, should_halt = False, syscall = False, inst_class = ClassAlu, inst_size = 2,
           inst_log = (if m then Some (LogArithmetic 0 pc w Sp sp_val None sp_val result) else None)\<rparr>, regs(Sp := result)))"

definition execute_c_lui :: "bool \<Rightarrow> Gpr \<Rightarrow> i32 \<Rightarrow> u32 \<Rightarrow> u32 \<Rightarrow> regs \<Rightarrow> ExecutionResult \<times> regs" where
  "execute_c_lui m rd imm w pc regs =
     imm_done m w pc ClassLui 2 regs rd imm"

definition execute_c_srli :: "bool \<Rightarrow> Gpr \<Rightarrow> i32 \<Rightarrow> u32 \<Rightarrow> u32 \<Rightarrow> regs \<Rightarrow> ExecutionResult \<times> regs" where
  "execute_c_srli m rd imm w pc regs =
     (let val1 = read_reg regs rd; shift_amt = unat (imm AND 0x1f); result = drop_bit shift_amt val1
      in arith_done m w pc ClassAlu 2 regs rd val1 None result)"

definition execute_c_srai :: "bool \<Rightarrow> Gpr \<Rightarrow> i32 \<Rightarrow> u32 \<Rightarrow> u32 \<Rightarrow> regs \<Rightarrow> ExecutionResult \<times> regs" where
  "execute_c_srai m rd imm w pc regs =
     (let val1 = read_reg regs rd; shift_amt = unat (imm AND 0x1f); result = signed_drop_bit shift_amt val1
      in arith_done m w pc ClassAlu 2 regs rd val1 None result)"

definition execute_c_slli :: "bool \<Rightarrow> Gpr \<Rightarrow> i32 \<Rightarrow> u32 \<Rightarrow> u32 \<Rightarrow> regs \<Rightarrow> ExecutionResult \<times> regs" where
  "execute_c_slli m rd imm w pc regs =
     (let val1 = read_reg regs rd; shift_amt = unat (imm AND 0x1f); result = push_bit shift_amt val1
      in arith_done m w pc ClassAlu 2 regs rd val1 None result)"

definition execute_c_andi :: "bool \<Rightarrow> Gpr \<Rightarrow> i32 \<Rightarrow> u32 \<Rightarrow> u32 \<Rightarrow> regs \<Rightarrow> ExecutionResult \<times> regs" where
  "execute_c_andi m rd imm w pc regs =
     (let val1 = read_reg regs rd; result = val1 AND imm in arith_done m w pc ClassAlu 2 regs rd val1 None result)"

definition execute_c_sub :: "bool \<Rightarrow> Gpr \<Rightarrow> Gpr \<Rightarrow> u32 \<Rightarrow> u32 \<Rightarrow> regs \<Rightarrow> ExecutionResult \<times> regs" where
  "execute_c_sub m rd rs w pc regs =
     (let val1 = read_reg regs rd; val2 = read_reg regs rs; result = val1 - val2
      in arith_done m w pc ClassAlu 2 regs rd val1 (Some val2) result)"

definition execute_c_xor :: "bool \<Rightarrow> Gpr \<Rightarrow> Gpr \<Rightarrow> u32 \<Rightarrow> u32 \<Rightarrow> regs \<Rightarrow> ExecutionResult \<times> regs" where
  "execute_c_xor m rd rs w pc regs =
     (let val1 = read_reg regs rd; val2 = read_reg regs rs; result = val1 XOR val2
      in arith_done m w pc ClassAlu 2 regs rd val1 (Some val2) result)"

definition execute_c_or :: "bool \<Rightarrow> Gpr \<Rightarrow> Gpr \<Rightarrow> u32 \<Rightarrow> u32 \<Rightarrow> regs \<Rightarrow> ExecutionResult \<times> regs" where
  "execute_c_or m rd rs w pc regs =
     (let val1 = read_reg regs rd; val2 = read_reg regs rs; result = val1 OR val2
      in arith_done m w pc ClassAlu 2 regs rd val1 (Some val2) result)"

definition execute_c_and :: "bool \<Rightarrow> Gpr \<Rightarrow> Gpr \<Rightarrow> u32 \<Rightarrow> u32 \<Rightarrow> regs \<Rightarrow> ExecutionResult \<times> regs" where
  "execute_c_and m rd rs w pc regs =
     (let val1 = read_reg regs rd; val2 = read_reg regs rs; result = val1 AND val2
      in arith_done m w pc ClassAlu 2 regs rd val1 (Some val2) result)"

definition execute_c_add :: "bool \<Rightarrow> Gpr \<Rightarrow> Gpr \<Rightarrow> u32 \<Rightarrow> u32 \<Rightarrow> regs \<Rightarrow> ExecutionResult \<times> regs" where
  "execute_c_add m rd rs w pc regs =
     (let val1 = read_reg regs rd; val2 = read_reg regs rs; result = val1 + val2
      in arith_done m w pc ClassAlu 2 regs rd val1 (Some val2) result)"

definition execute_c_j :: "bool \<Rightarrow> i32 \<Rightarrow> u32 \<Rightarrow> u32 \<Rightarrow> regs \<Rightarrow> ExecutionResult \<times> regs" where
  "execute_c_j m offset w pc regs =
     (let target = pc + offset
      in (\<lparr>new_pc = Some target, should_halt = False, syscall = False, inst_class = ClassJalTail, inst_size = 2,
           inst_log = (if m then Some (LogJump 0 pc w 0 None target) else None)\<rparr>, regs))"

definition execute_c_beqz :: "bool \<Rightarrow> Gpr \<Rightarrow> i32 \<Rightarrow> u32 \<Rightarrow> u32 \<Rightarrow> regs \<Rightarrow> ExecutionResult \<times> regs" where
  "execute_c_beqz m rs offset w pc regs =
     (let val = read_reg regs rs; taken = (val = 0) in (branch_done m w pc 2 val 0 offset taken, regs))"

definition execute_c_bnez :: "bool \<Rightarrow> Gpr \<Rightarrow> i32 \<Rightarrow> u32 \<Rightarrow> u32 \<Rightarrow> regs \<Rightarrow> ExecutionResult \<times> regs" where
  "execute_c_bnez m rs offset w pc regs =
     (let val = read_reg regs rs; taken = (val \<noteq> 0) in (branch_done m w pc 2 val 0 offset taken, regs))"

definition execute_c_jr :: "bool \<Rightarrow> Gpr \<Rightarrow> u32 \<Rightarrow> u32 \<Rightarrow> regs \<Rightarrow> ExecutionResult \<times> regs" where
  "execute_c_jr m rs w pc regs =
     (let base = read_reg regs rs; target = base AND NOT 1
      in (\<lparr>new_pc = Some target, should_halt = False, syscall = False,
           inst_class = (if gpr_num rs = 1 then ClassJalrReturn else ClassJalrIndirect), inst_size = 2,
           inst_log = (if m then Some (LogJump 0 pc w 0 None target) else None)\<rparr>, regs))"

definition execute_c_mv :: "bool \<Rightarrow> Gpr \<Rightarrow> Gpr \<Rightarrow> u32 \<Rightarrow> u32 \<Rightarrow> regs \<Rightarrow> ExecutionResult \<times> regs" where
  "execute_c_mv m rd rs w pc regs =
     (let val = read_reg regs rs in arith_done m w pc ClassAlu 2 regs rd 0 (Some val) val)"

definition execute_c_jalr :: "bool \<Rightarrow> Gpr \<Rightarrow> u32 \<Rightarrow> u32 \<Rightarrow> regs \<Rightarrow> ExecutionResult \<times> regs" where
  "execute_c_jalr m rs w pc regs =
     (let base = read_reg regs rs; next_pc = pc + 2; target = base AND NOT 1; regs = regs(Ra := next_pc)
      in (\<lparr>new_pc = Some target, should_halt = False, syscall = False, inst_class = ClassJalrCall, inst_size = 2,
           inst_log = (if m then Some (LogJump 0 pc w (read_reg regs Ra) (Some next_pc) target) else None)\<rparr>, regs))"

definition execute_c_ebreak :: "bool \<Rightarrow> u32 \<Rightarrow> u32 \<Rightarrow> regs \<Rightarrow> ExecutionResult \<times> regs" where
  "execute_c_ebreak m w pc regs =
     (system_result m w pc True False ClassSystem 2 KindEbreak, regs)"

definition execute_c_lw :: "'m Bus \<Rightarrow> bool \<Rightarrow> Gpr \<Rightarrow> Gpr \<Rightarrow> i32 \<Rightarrow> u32 \<Rightarrow> u32 \<Rightarrow> regs \<Rightarrow> 'm \<Rightarrow> (EmulatorError + ExecutionResult) \<times> regs \<times> 'm" where
  "execute_c_lw bus m rd rs offset w pc regs mem =
     (let base = read_reg regs rs; address = base + offset
      in try_mem (bus_read_word bus mem address) pc regs (\<lambda>v mem. load_done m w pc ClassLoad 2 regs rd base address v mem))"

definition execute_c_lwsp :: "'m Bus \<Rightarrow> bool \<Rightarrow> Gpr \<Rightarrow> i32 \<Rightarrow> u32 \<Rightarrow> u32 \<Rightarrow> regs \<Rightarrow> 'm \<Rightarrow> (EmulatorError + ExecutionResult) \<times> regs \<times> 'm" where
  "execute_c_lwsp bus m rd offset w pc regs mem =
     (let base = read_reg regs Sp; address = base + offset
      in try_mem (bus_read_word bus mem address) pc regs (\<lambda>v mem. load_done m w pc ClassLoad 2 regs rd base address v mem))"

definition execute_c_sw :: "'m Bus \<Rightarrow> bool \<Rightarrow> Gpr \<Rightarrow> Gpr \<Rightarrow> i32 \<Rightarrow> u32 \<Rightarrow> u32 \<Rightarrow> regs \<Rightarrow> 'm \<Rightarrow> (EmulatorError + ExecutionResult) \<times> regs \<times> 'm" where
  "execute_c_sw bus m rs1 rs2 offset w pc regs mem =
     (let base = read_reg regs rs1; value = read_reg regs rs2; address = base + offset
      in try_mem (if m then bus_read_word bus mem address else (Inr 0, mem)) pc regs (\<lambda>old mem.
           try_mem (bus_write_word bus mem address value) pc regs (\<lambda>_ mem.
             (Inr (store_result m w pc ClassStore 2 base value address old value), regs, mem))))"

definition execute_c_swsp :: "'m Bus \<Rightarrow> bool \<Rightarrow> Gpr \<Rightarrow> i32 \<Rightarrow> u32 \<Rightarrow> u32 \<Rightarrow> regs \<Rightarrow> 'm \<Rightarrow> (EmulatorError + ExecutionResult) \<times> regs \<times> 'm" where
  "execute_c_swsp bus m rs offset w pc regs mem =
     (let base = read_reg regs Sp; value = read_reg regs rs; address = base + offset
      in try_mem (if m then bus_read_word bus mem address else (Inr 0, mem)) pc regs (\<lambda>old mem.
           try_mem (bus_write_word bus mem address value) pc regs (\<lambda>_ mem.
             (Inr (store_result m w pc ClassStore 2 base value address old value), regs, mem))))"

text \<open>An instruction without memory, beside one; \<open>None\<close> is an unreachable arm.\<close>

definition plain :: "'m \<Rightarrow> ExecutionResult \<times> regs \<Rightarrow> ((EmulatorError + ExecutionResult) \<times> regs \<times> 'm) option" where
  "plain mem r = Some (Inr (fst r), snd r, mem)"

definition invalid_c :: "u32 \<Rightarrow> u16 \<Rightarrow> string \<Rightarrow> regs \<Rightarrow> 'm \<Rightarrow> ((EmulatorError + ExecutionResult) \<times> regs \<times> 'm) option" where
  "invalid_c pc inst reason regs mem = Some (Inl (InvalidInstruction pc (ucast inst) reason regs), regs, mem)"

definition c_reg :: "u8 \<Rightarrow> Gpr" where
  "c_reg reg_prime = gpr_at (reg_prime + 8)"

definition decode_execute_c0 :: "'m Bus \<Rightarrow> bool \<Rightarrow> u16 \<Rightarrow> u8 \<Rightarrow> u32 \<Rightarrow> regs \<Rightarrow> 'm \<Rightarrow> ((EmulatorError + ExecutionResult) \<times> regs \<times> 'm) option" where
  "decode_execute_c0 bus m inst funct3 pc regs mem =
     (let w = ucast inst
      in if funct3 = 0 then
           (let rd = c_reg (ucast (drop_bit 2 inst AND 0x7));
                nzuimm = (drop_bit 7 inst AND 0x30) OR (drop_bit 1 inst AND 0x3c0) OR (drop_bit 4 inst AND 0x4) OR (drop_bit 2 inst AND 0x8)
            in if nzuimm = 0 then invalid_c pc inst ''C.ADDI4SPN with nzuimm=0 is reserved'' regs mem
               else plain mem (execute_c_addi4spn m rd (ucast nzuimm) w pc regs))
         else if funct3 = 2 then
           (let rd = c_reg (ucast (drop_bit 2 inst AND 0x7)); rs = c_reg (ucast (drop_bit 7 inst AND 0x7));
                uimm = (drop_bit 7 inst AND 0x38) OR (drop_bit 4 inst AND 0x4) OR (push_bit 1 inst AND 0x40)
            in Some (execute_c_lw bus m rd rs (ucast uimm) w pc regs mem))
         else if funct3 = 6 then
           (let rs1 = c_reg (ucast (drop_bit 7 inst AND 0x7)); rs2 = c_reg (ucast (drop_bit 2 inst AND 0x7));
                uimm = (drop_bit 7 inst AND 0x38) OR (drop_bit 4 inst AND 0x4) OR (push_bit 1 inst AND 0x40)
            in Some (execute_c_sw bus m rs1 rs2 (ucast uimm) w pc regs mem))
         else invalid_c pc inst (''Unknown C0 instruction: funct3='' @ bin 3 funct3) regs mem)"

definition decode_execute_c1 :: "'m Bus \<Rightarrow> bool \<Rightarrow> u16 \<Rightarrow> u8 \<Rightarrow> u32 \<Rightarrow> regs \<Rightarrow> 'm \<Rightarrow> ((EmulatorError + ExecutionResult) \<times> regs \<times> 'm) option" where
  "decode_execute_c1 bus m inst funct3 pc regs mem =
     (let w = ucast inst; rd = ucast (drop_bit 7 inst AND 0x1f) :: u8;
          imm6 = (drop_bit 7 inst AND 0x20) OR (drop_bit 2 inst AND 0x1f)
      in if funct3 = 0 then
           (if rd = 0 then plain mem (execute_c_nop m w pc regs)
            else plain mem (execute_c_addi m (gpr_at rd) (sign_extend imm6 6) w pc regs))
         else if funct3 = 1 then plain mem (execute_c_jal m (decode_cj_offset inst) w pc regs)
         else if funct3 = 2 then
           (if rd = 0 then invalid_c pc inst ''C.LI with rd=x0 is a hint (nop)'' regs mem
            else plain mem (execute_c_li m (gpr_at rd) (sign_extend imm6 6) w pc regs))
         else if funct3 = 3 then
           (if rd = 2 then
              (let nzimm = sign_extend ((drop_bit 3 inst AND 0x200) OR (drop_bit 2 inst AND 0x10) OR (push_bit 1 inst AND 0x40) OR
                     (push_bit 4 inst AND 0x180) OR (push_bit 3 inst AND 0x20)) 10
               in if nzimm = 0 then invalid_c pc inst ''C.ADDI16SP with nzimm=0 is reserved'' regs mem
                  else plain mem (execute_c_addi16sp m nzimm w pc regs))
            else if rd = 0 then invalid_c pc inst ''C.LUI with rd=x0 is a hint (nop)'' regs mem
            else
              (let nzimm = sign_extend imm6 6
               in if nzimm = 0 then invalid_c pc inst ''C.LUI with nzimm=0 is reserved'' regs mem
                  else plain mem (execute_c_lui m (gpr_at rd) (push_bit 12 nzimm) w pc regs)))
         else if funct3 = 4 then
           (let funct2 = drop_bit 10 inst AND 0x3; rd = c_reg (ucast (drop_bit 7 inst AND 0x7))
            in if funct2 = 0 then plain mem (execute_c_srli m rd (ucast imm6) w pc regs)
               else if funct2 = 1 then plain mem (execute_c_srai m rd (ucast imm6) w pc regs)
               else if funct2 = 2 then plain mem (execute_c_andi m rd (sign_extend imm6 6) w pc regs)
               else if funct2 = 3 then
                 (let funct6 = drop_bit 10 inst AND 0x3f; rs = c_reg (ucast (drop_bit 2 inst AND 0x7)); funct2_low = drop_bit 5 inst AND 0x3
                  in if funct6 = 0x23 \<and> funct2_low = 0 then plain mem (execute_c_sub m rd rs w pc regs)
                     else if funct6 = 0x23 \<and> funct2_low = 1 then plain mem (execute_c_xor m rd rs w pc regs)
                     else if funct6 = 0x23 \<and> funct2_low = 2 then plain mem (execute_c_or m rd rs w pc regs)
                     else if funct6 = 0x23 \<and> funct2_low = 3 then plain mem (execute_c_and m rd rs w pc regs)
                     else invalid_c pc inst (''Unknown C.MISC_ALU instruction: funct6='' @ bin 6 funct6 @ '', funct2_low='' @ bin 2 funct2_low) regs mem)
               else None)
         else if funct3 = 5 then plain mem (execute_c_j m (decode_cj_offset inst) w pc regs)
         else if funct3 = 6 then plain mem (execute_c_beqz m (c_reg (ucast (drop_bit 7 inst AND 0x7))) (decode_cb_offset inst) w pc regs)
         else if funct3 = 7 then plain mem (execute_c_bnez m (c_reg (ucast (drop_bit 7 inst AND 0x7))) (decode_cb_offset inst) w pc regs)
         else None)"

definition decode_execute_c2 :: "'m Bus \<Rightarrow> bool \<Rightarrow> u16 \<Rightarrow> u8 \<Rightarrow> u32 \<Rightarrow> regs \<Rightarrow> 'm \<Rightarrow> ((EmulatorError + ExecutionResult) \<times> regs \<times> 'm) option" where
  "decode_execute_c2 bus m inst funct3 pc regs mem =
     (let w = ucast inst; rd = ucast (drop_bit 7 inst AND 0x1f) :: u8
      in if funct3 = 0 then
           (if rd = 0 then invalid_c pc inst ''C.SLLI with rd=x0 is a hint (nop)'' regs mem
            else plain mem (execute_c_slli m (gpr_at rd) (ucast ((drop_bit 7 inst AND 0x20) OR (drop_bit 2 inst AND 0x1f))) w pc regs))
         else if funct3 = 2 then
           (if rd = 0 then invalid_c pc inst ''C.LWSP with rd=x0 is reserved'' regs mem
            else (let uimm = (drop_bit 7 inst AND 0x20) OR (drop_bit 2 inst AND 0x1c) OR (push_bit 4 inst AND 0xc0)
                  in Some (execute_c_lwsp bus m (gpr_at rd) (ucast uimm) w pc regs mem)))
         else if funct3 = 4 then
           (let rs2 = ucast (drop_bit 2 inst AND 0x1f) :: u8; funct4 = drop_bit 12 inst AND 0xf
            in if funct4 = 8 \<and> rs2 = 0 \<and> rd \<noteq> 0 then plain mem (execute_c_jr m (gpr_at rd) w pc regs)
               else if funct4 = 8 \<and> rd \<noteq> 0 \<and> rs2 \<noteq> 0 then plain mem (execute_c_mv m (gpr_at rd) (gpr_at rs2) w pc regs)
               else if funct4 = 9 \<and> rs2 = 0 \<and> rd = 0 then plain mem (execute_c_ebreak m w pc regs)
               else if funct4 = 9 \<and> rs2 = 0 \<and> rd \<noteq> 0 then plain mem (execute_c_jalr m (gpr_at rd) w pc regs)
               else if funct4 = 9 \<and> rd \<noteq> 0 \<and> rs2 \<noteq> 0 then plain mem (execute_c_add m (gpr_at rd) (gpr_at rs2) w pc regs)
               else invalid_c pc inst (''Unknown C.MISC_CR instruction: funct4='' @ bin 4 funct4 @ '', rd_rs1='' @ dec_str rd @ '', rs2='' @ dec_str rs2)
                      regs mem)
         else if funct3 = 6 then
           (let uimm = (drop_bit 7 inst AND 0x3c) OR (drop_bit 1 inst AND 0xc0)
            in Some (execute_c_swsp bus m (gpr_at (ucast (drop_bit 2 inst AND 0x1f))) (ucast uimm) w pc regs mem))
         else invalid_c pc inst (''Unknown C2 instruction: funct3='' @ bin 3 funct3) regs mem)"

definition decode_execute_compressed :: "'m Bus \<Rightarrow> bool \<Rightarrow> u32 \<Rightarrow> u32 \<Rightarrow> regs \<Rightarrow> 'm \<Rightarrow> ((EmulatorError + ExecutionResult) \<times> regs \<times> 'm) option" where
  "decode_execute_compressed bus m w pc regs mem =
     (let inst_16 = ucast w :: u16; opcode = inst_16 AND 0x3; funct3 = ucast (drop_bit 13 inst_16 AND 0x7) :: u8
      in if opcode = 0 then decode_execute_c0 bus m inst_16 funct3 pc regs mem
         else if opcode = 1 then decode_execute_c1 bus m inst_16 funct3 pc regs mem
         else if opcode = 2 then decode_execute_c2 bus m inst_16 funct3 pc regs mem
         else Some (Inl (InvalidInstruction pc w (''Invalid compressed instruction opcode: 0x'' @ hex 0 opcode) regs), regs, mem))"

subsection \<open>Dispatch\<close>

text \<open>The state \<^verbatim>\<open>decode_execute\<close> works on; a panic is \<open>None\<close>.\<close>

record 'm Hart =
  h_regs :: regs
  h_mem :: 'm
  h_fp :: FpRegs
  h_reservation :: "u32 option"

type_synonym 'm outcome = "((EmulatorError + ExecutionResult) \<times> 'm Hart) option"

definition on_regs :: "'m Hart \<Rightarrow> (EmulatorError + ExecutionResult) \<times> regs \<Rightarrow> 'm outcome" where
  "on_regs h r = Some (fst r, h\<lparr>h_regs := snd r\<rparr>)"

definition on_memory :: "'m Hart \<Rightarrow> (EmulatorError + ExecutionResult) \<times> regs \<times> 'm \<Rightarrow> 'm outcome" where
  "on_memory h r = Some (fst r, h\<lparr>h_regs := fst (snd r), h_mem := snd (snd r)\<rparr>)"

definition is_float_opcode :: "u8 \<Rightarrow> bool" where
  "is_float_opcode opcode = (opcode = 0x07 \<or> opcode = 0x27 \<or> opcode = 0x43 \<or> opcode = 0x47 \<or> opcode = 0x4b \<or> opcode = 0x4f \<or> opcode = 0x53)"

definition decode_execute :: "'m Bus \<Rightarrow> (bool \<Rightarrow> u32 \<Rightarrow> u32 \<Rightarrow> 'm Hart \<Rightarrow> 'm outcome) \<Rightarrow> bool \<Rightarrow> u32 \<Rightarrow> u32 \<Rightarrow> 'm Hart \<Rightarrow> 'm outcome" where
  "decode_execute bus float m w pc h =
     (if w AND 0x3 \<noteq> 0x3 then Option.bind (decode_execute_compressed bus m w pc (h_regs h) (h_mem h)) (on_memory h)
      else let opcode = ucast (w AND 0x7f) :: u8; regs = h_regs h; mem = h_mem h
           in if opcode = 0x33 then on_regs h (decode_execute_rtype m w pc regs)
              else if opcode = 0x13 then on_regs h (decode_execute_itype m w pc regs)
              else if opcode = 0x03 then on_memory h (decode_execute_load bus m w pc regs mem)
              else if opcode = 0x23 then on_memory h (decode_execute_store bus m w pc regs mem)
              else if opcode = 0x63 then on_regs h (decode_execute_branch m w pc regs)
              else if opcode = 0x6f then on_regs h (decode_execute_jal m w pc regs)
              else if opcode = 0x67 then on_regs h (decode_execute_jalr m w pc regs)
              else if opcode = 0x37 then on_regs h (decode_execute_lui m w pc regs)
              else if opcode = 0x17 then on_regs h (decode_execute_auipc m w pc regs)
              else if opcode = 0x73 then
                (let (r, regs, fp) = decode_execute_system m w pc regs (h_fp h) in Some (r, h\<lparr>h_regs := regs, h_fp := fp\<rparr>))
              else if opcode = 0x0f then Some (Inr (decode_execute_fence m w pc), h)
              else if opcode = 0x2f then
                (let (r, regs, mem, reservation) = decode_execute_atomic bus m w pc regs mem (h_reservation h)
                 in Some (r, h\<lparr>h_regs := regs, h_mem := mem, h_reservation := reservation\<rparr>))
              else if is_float_opcode opcode then float m w pc h
              else Some (Inl (InvalidInstruction pc w (''Unknown opcode: 0x'' @ hex 2 opcode) regs), h))"

end
