(* ===== verification/Emu_Spec.thy ===== *)
theory Emu_Spec
  imports Emu_Exec Rv_Roundtrip
begin

unbundle bit_operations_syntax

text \<open>
  What the instructions of \<^verbatim>\<open>lp-riscv-inst\<close> mean, after the ISA manual and on integers where the manual speaks of integers: the
  reference the executor is compared with.
\<close>

section \<open>Reference semantics\<close>

definition shift_of :: "i32 \<Rightarrow> nat" where
  "shift_of b = unat b mod 32"

definition alu_ggg :: "Op_ggg \<Rightarrow> i32 \<Rightarrow> i32 \<Rightarrow> i32" where
  "alu_ggg op a b = (case op of
      Op_Add \<Rightarrow> word_of_int (sint a + sint b) | Op_Sub \<Rightarrow> word_of_int (sint a - sint b)
    | Op_Mul \<Rightarrow> word_of_int (sint a * sint b) | Op_Mulh \<Rightarrow> word_of_int (sint a * sint b div 2 ^ 32)
    | Op_Mulhsu \<Rightarrow> word_of_int (sint a * uint b div 2 ^ 32) | Op_Mulhu \<Rightarrow> word_of_int (uint a * uint b div 2 ^ 32)
    | Op_Div \<Rightarrow> (if b = 0 then - 1 else word_of_int (sint a sdiv sint b))
    | Op_Divu \<Rightarrow> (if b = 0 then - 1 else word_of_int (uint a div uint b))
    | Op_Rem \<Rightarrow> (if b = 0 then a else word_of_int (sint a smod sint b))
    | Op_Remu \<Rightarrow> (if b = 0 then a else word_of_int (uint a mod uint b))
    | Op_Slt \<Rightarrow> of_bool (sint a < sint b) | Op_Sltu \<Rightarrow> of_bool (uint a < uint b)
    | Op_And \<Rightarrow> a AND b | Op_Or \<Rightarrow> a OR b | Op_Xor \<Rightarrow> a XOR b
    | Op_Sll \<Rightarrow> word_of_int (uint a * 2 ^ shift_of b) | Op_Srl \<Rightarrow> word_of_int (uint a div 2 ^ shift_of b)
    | Op_Sra \<Rightarrow> word_of_int (sint a div 2 ^ shift_of b)
    | Op_Bclr \<Rightarrow> unset_bit (shift_of b) a | Op_Bset \<Rightarrow> set_bit (shift_of b) a | Op_Binv \<Rightarrow> flip_bit (shift_of b) a
    | Op_Bext \<Rightarrow> of_bool (bit a (shift_of b))
    | Op_Rol \<Rightarrow> word_rotl (shift_of b) a | Op_Ror \<Rightarrow> word_rotr (shift_of b) a
    | Op_Min \<Rightarrow> word_of_int (min (sint a) (sint b)) | Op_Minu \<Rightarrow> word_of_int (min (uint a) (uint b))
    | Op_Max \<Rightarrow> word_of_int (max (sint a) (sint b)) | Op_Maxu \<Rightarrow> word_of_int (max (uint a) (uint b))
    | Op_Andn \<Rightarrow> a AND NOT b | Op_Orn \<Rightarrow> a OR NOT b | Op_Xnor \<Rightarrow> NOT (a XOR b)
    | Op_Sh1add \<Rightarrow> word_of_int (2 * sint a + sint b) | Op_Sh2add \<Rightarrow> word_of_int (4 * sint a + sint b)
    | Op_Sh3add \<Rightarrow> word_of_int (8 * sint a + sint b) | _ \<Rightarrow> 0)"

text \<open>An immediate instruction computes what the register instruction of its name computes.\<close>

definition alu_ggi :: "Op_ggi \<Rightarrow> i32 \<Rightarrow> i32 \<Rightarrow> i32" where
  "alu_ggi op a imm = (case op of
      Op_Addi \<Rightarrow> alu_ggg Op_Add a imm | Op_Slti \<Rightarrow> alu_ggg Op_Slt a imm | Op_Sltiu \<Rightarrow> alu_ggg Op_Sltu a imm
    | Op_Xori \<Rightarrow> alu_ggg Op_Xor a imm | Op_Andi \<Rightarrow> alu_ggg Op_And a imm | Op_Ori \<Rightarrow> alu_ggg Op_Or a imm
    | Op_Slli \<Rightarrow> alu_ggg Op_Sll a imm | Op_Srli \<Rightarrow> alu_ggg Op_Srl a imm | Op_Srai \<Rightarrow> alu_ggg Op_Sra a imm
    | Op_Bclri \<Rightarrow> alu_ggg Op_Bclr a imm | Op_Bseti \<Rightarrow> alu_ggg Op_Bset a imm | Op_Binvi \<Rightarrow> alu_ggg Op_Binv a imm
    | Op_Bexti \<Rightarrow> alu_ggg Op_Bext a imm | Op_Rori \<Rightarrow> alu_ggg Op_Ror a imm | _ \<Rightarrow> 0)"

definition alu_gg :: "Op_gg \<Rightarrow> i32 \<Rightarrow> i32" where
  "alu_gg op a = (case op of
      Op_Clz \<Rightarrow> of_nat (leading_zeros a) | Op_Ctz \<Rightarrow> of_nat (trailing_zeros a) | Op_Cpop \<Rightarrow> of_nat (count_ones a)
    | Op_Sextb \<Rightarrow> signed_take_bit 7 a | Op_Sexth \<Rightarrow> signed_take_bit 15 a | Op_Zexth \<Rightarrow> take_bit 16 a
    | Op_Rev8 \<Rightarrow> le_word (rev (u32_to_le_bytes a))
    | Op_Brev8 \<Rightarrow> le_word (map (\<lambda>b. horner_sum of_bool 2 (rev (map (bit b) [0..<8]))) (u32_to_le_bytes a))
    | Op_Orcb \<Rightarrow> le_word (map (\<lambda>b. if b = 0 then 0 else 0xff) (u32_to_le_bytes a)) | _ \<Rightarrow> 0)"

definition branch_taken :: "Op_ggi \<Rightarrow> i32 \<Rightarrow> i32 \<Rightarrow> bool" where
  "branch_taken op a b = (case op of
      Op_Beq \<Rightarrow> a = b | Op_Bne \<Rightarrow> a \<noteq> b | Op_Blt \<Rightarrow> sint a < sint b | Op_Bge \<Rightarrow> sint b \<le> sint a
    | Op_Bltu \<Rightarrow> uint a < uint b | Op_Bgeu \<Rightarrow> uint b \<le> uint a | _ \<Rightarrow> False)"

text \<open>What an instruction of \<open>n\<close> bytes does, as the program counter it leaves, whether it stops and whether it calls the host, and
  the registers and memory it leaves. Atomic and CSR instructions are outside the reference; a compressed instruction is its expansion.\<close>

type_synonym 'm effect = "(EmulatorError + u32 \<times> bool \<times> bool) \<times> regs \<times> 'm"

definition goes :: "u32 \<Rightarrow> regs \<Rightarrow> 'm \<Rightarrow> 'm effect option" where
  "goes pc regs mem = Some (Inr (pc, False, False), regs, mem)"

definition loads :: "(MemoryError + i32) \<times> 'm \<Rightarrow> u32 \<Rightarrow> u32 \<Rightarrow> Gpr \<Rightarrow> regs \<Rightarrow> 'm effect option" where
  "loads r n pc rd regs = (case r of (Inl e, mem) \<Rightarrow> Some (Inl (from_memory_error e pc regs), regs, mem)
     | (Inr v, mem) \<Rightarrow> goes (pc + n) (write_reg regs rd v) mem)"

definition stores :: "(MemoryError + unit) \<times> 'm \<Rightarrow> u32 \<Rightarrow> u32 \<Rightarrow> regs \<Rightarrow> 'm effect option" where
  "stores r n pc regs = (case r of (Inl e, mem) \<Rightarrow> Some (Inl (from_memory_error e pc regs), regs, mem)
     | (Inr _, mem) \<Rightarrow> goes (pc + n) regs mem)"

definition isa_ggi :: "'m Bus \<Rightarrow> Op_ggi \<Rightarrow> Gpr \<Rightarrow> Gpr \<Rightarrow> i32 \<Rightarrow> u32 \<Rightarrow> u32 \<Rightarrow> regs \<Rightarrow> 'm \<Rightarrow> 'm effect option" where
  "isa_ggi bus op a b imm n pc regs mem =
     (let x = read_reg regs a; y = read_reg regs b
      in case op of
           Op_Lb \<Rightarrow> loads (apfst (map_sum id scast) (bus_read_byte bus mem (y + imm))) n pc a regs
         | Op_Lh \<Rightarrow> loads (apfst (map_sum id scast) (bus_read_halfword bus mem (y + imm))) n pc a regs
         | Op_Lw \<Rightarrow> loads (bus_read_word bus mem (y + imm)) n pc a regs
         | Op_Lbu \<Rightarrow> loads (apfst (map_sum id ucast) (bus_read_byte bus mem (y + imm))) n pc a regs
         | Op_Lhu \<Rightarrow> loads (apfst (map_sum id ucast) (bus_read_halfword bus mem (y + imm))) n pc a regs
         | Op_Sb \<Rightarrow> stores (bus_write_byte bus mem (x + imm) (ucast y)) n pc regs
         | Op_Sh \<Rightarrow> stores (bus_write_halfword bus mem (x + imm) (ucast y)) n pc regs
         | Op_Sw \<Rightarrow> stores (bus_write_word bus mem (x + imm) y) n pc regs
         | Op_Jalr \<Rightarrow> goes ((y + imm) AND NOT 1) (write_reg regs a (pc + n)) mem
         | _ \<Rightarrow> if op \<in> {Op_Beq, Op_Bne, Op_Blt, Op_Bge, Op_Bltu, Op_Bgeu}
                then goes (if branch_taken op x y then pc + imm else pc + n) regs mem
                else goes (pc + n) (write_reg regs a (alu_ggi op y imm)) mem)"

definition isa :: "'m Bus \<Rightarrow> Inst \<Rightarrow> u32 \<Rightarrow> u32 \<Rightarrow> regs \<Rightarrow> 'm \<Rightarrow> 'm effect option" where
  "isa bus i n pc regs mem = (case i of
      Inst_ggg op rd rs1 rs2 \<Rightarrow>
        if atomic_ggg op then None else goes (pc + n) (write_reg regs rd (alu_ggg op (read_reg regs rs1) (read_reg regs rs2))) mem
    | Inst_ggi op a b imm \<Rightarrow> isa_ggi bus op a b imm n pc regs mem
    | Inst_gi Op_Jal rd imm \<Rightarrow> goes (pc + imm) (write_reg regs rd (pc + n)) mem
    | Inst_gi Op_Lui rd imm \<Rightarrow> goes (pc + n) (write_reg regs rd imm) mem
    | Inst_gi Op_Auipc rd imm \<Rightarrow> goes (pc + n) (write_reg regs rd (pc + imm)) mem
    | Inst_gg op rd rs \<Rightarrow> if op = Op_LrW then None else goes (pc + n) (write_reg regs rd (alu_gg op (read_reg regs rs))) mem
    | Inst_n Op_Fence \<Rightarrow> goes (pc + n) regs mem | Inst_n Op_FenceI \<Rightarrow> goes (pc + n) regs mem
    | Inst_n Op_Ecall \<Rightarrow> Some (Inr (pc + n, False, True), regs, mem) | Inst_n Op_Ebreak \<Rightarrow> Some (Inr (pc + n, True, False), regs, mem)
    | _ \<Rightarrow> None)"

section \<open>Arithmetic on integers is arithmetic on words\<close>

lemma shift_of_mask: "shift_of b = unat (b AND 0x1f)" for b :: i32
proof -
  have "b AND 0x1f = take_bit 5 b" by (simp add: take_bit_eq_mask mask_eq_exp_minus_1)
  then show ?thesis by (simp add: shift_of_def unsigned_take_bit_eq take_bit_eq_mod unat_mod)
qed

lemma alu_ggg_ring:
  "alu_ggg Op_Add a b = a + b" "alu_ggg Op_Sub a b = a - b" "alu_ggg Op_Mul a b = a * b"
  "alu_ggg Op_Sh1add a b = push_bit 1 a + b" "alu_ggg Op_Sh2add a b = push_bit 2 a + b" "alu_ggg Op_Sh3add a b = push_bit 3 a + b"
  by (simp_all add: alu_ggg_def wi_hom_add wi_hom_sub wi_hom_mult push_bit_eq_mult wi_hom_syms)

lemma alu_ggg_compare:
  "alu_ggg Op_Slt a b = (if sint a < sint b then 1 else 0)" "alu_ggg Op_Sltu a b = (if a < b then 1 else 0)"
  "alu_ggg Op_Min a b = smin a b" "alu_ggg Op_Max a b = smax a b" "alu_ggg Op_Minu a b = min a b" "alu_ggg Op_Maxu a b = max a b"
  by (auto simp: alu_ggg_def word_less_def word_le_def smin_def smax_def min_def max_def)

lemma at_31: "31 \<le> k + n \<Longrightarrow> \<not> 32 - k \<le> n \<Longrightarrow> k + n = 31" for k n :: nat
  by simp

lemma alu_ggg_shift:
  "alu_ggg Op_Sll a b = push_bit (unat (b AND 0x1f)) a" "alu_ggg Op_Srl a b = drop_bit (unat (b AND 0x1f)) a"
  "alu_ggg Op_Sra a b = signed_drop_bit (unat (b AND 0x1f)) a"
  "alu_ggg Op_Rol a b = word_rotl (unat (b AND 0x1f)) a" "alu_ggg Op_Ror a b = word_rotr (unat (b AND 0x1f)) a"
proof -
  show "alu_ggg Op_Sll a b = push_bit (unat (b AND 0x1f)) a"
    by (simp add: alu_ggg_def shift_of_mask push_bit_eq_mult wi_hom_syms)
  show "alu_ggg Op_Srl a b = drop_bit (unat (b AND 0x1f)) a"
    by (rule bit_word_eqI) (simp add: alu_ggg_def shift_of_mask bit_simps flip: drop_bit_eq_div)
  show "alu_ggg Op_Sra a b = signed_drop_bit (unat (b AND 0x1f)) a"
    by (rule bit_word_eqI) (auto simp: alu_ggg_def shift_of_mask bit_simps min_def dest: at_31 simp flip: drop_bit_eq_div)
qed (simp_all add: alu_ggg_def shift_of_mask)

lemma alu_ggg_bit:
  "alu_ggg Op_Bclr a b = a AND NOT (push_bit (unat (b AND 0x1f)) 1)" "alu_ggg Op_Bset a b = a OR push_bit (unat (b AND 0x1f)) 1"
  "alu_ggg Op_Binv a b = a XOR push_bit (unat (b AND 0x1f)) 1" "alu_ggg Op_Bext a b = drop_bit (unat (b AND 0x1f)) a AND 1"
  by (simp_all add: alu_ggg_def shift_of_mask unset_bit_eq_and_not set_bit_eq_or flip_bit_eq_xor and_one_eq bit_iff_odd_drop_bit odd_iff_mod_2_eq_one)

lemma alu_ggg_logic:
  "alu_ggg Op_And a b = a AND b" "alu_ggg Op_Or a b = a OR b" "alu_ggg Op_Xor a b = a XOR b"
  "alu_ggg Op_Andn a b = a AND NOT b" "alu_ggg Op_Orn a b = a OR NOT b" "alu_ggg Op_Xnor a b = NOT (a XOR b)"
  by (simp_all add: alu_ggg_def)

lemma alu_ggg_div:
  "alu_ggg Op_Div a b = (if b = 0 then - 1 else if a = i32_MIN \<and> b = - 1 then i32_MIN else word_sdiv a b)"
  "alu_ggg Op_Rem a b = (if b = 0 then a else if a = i32_MIN \<and> b = - 1 then 0 else word_srem a b)"
  "alu_ggg Op_Divu a b = (if b = 0 then - 1 else a div b)" "alu_ggg Op_Remu a b = (if b = 0 then a else a mod b)"
  by (simp_all add: alu_ggg_def word_sdiv_def word_srem_def i32_MIN_def signed_modulo_int_def word_div_def word_mod_def)

lemma high_word:
  "as_i32 (signed_drop_bit 32 (word_of_int p)) = word_of_int (p div 2 ^ 32)"
  "as_u32 (drop_bit 32 (word_of_int p)) = word_of_int (p div 2 ^ 32)"
  unfolding drop_bit_eq_div [symmetric] by (rule bit_word_eqI; auto simp: as_i32_def as_u32_def bit_simps min_def)+

lemma narrow_word: "ucast (word_of_int p :: 128 word) = (word_of_int p :: i64)"
  by (rule bit_word_eqI) (auto simp: bit_simps)

lemma wide_products:
  "as_i64 a * as_i64 b = word_of_int (sint a * sint b)" "as_u64 a * as_u64 b = word_of_int (uint a * uint b)"
  by (simp_all only: as_i64_def as_u64_def scast_eq ucast_eq wi_hom_syms)

lemma wide_mixed: "scast (as_i64 a) * ucast (as_u64 b) = (word_of_int (sint a * uint b) :: 128 word)"
proof -
  have "scast (as_i64 a) = (word_of_int (sint a) :: 128 word)" "ucast (as_u64 b) = (word_of_int (uint b) :: 128 word)"
    by (rule bit_word_eqI; auto simp: as_i64_def as_u64_def bit_simps min_def dest: bit_imp_le_length)+
  then show ?thesis by (simp add: wi_hom_syms)
qed

lemma alu_ggg_high:
  "alu_ggg Op_Mulh a b = as_i32 (signed_drop_bit 32 (as_i64 a * as_i64 b))"
  "alu_ggg Op_Mulhu a b = as_u32 (drop_bit 32 (as_u64 a * as_u64 b))"
  "alu_ggg Op_Mulhsu a b = as_i32 (signed_drop_bit 32 (ucast (scast (as_i64 a) * ucast (as_u64 b) :: 128 word) :: i64))"
  unfolding wide_products wide_mixed narrow_word high_word by (simp_all add: alu_ggg_def)

lemmas alu_ggg_words = alu_ggg_ring alu_ggg_compare alu_ggg_shift alu_ggg_bit alu_ggg_logic alu_ggg_div alu_ggg_high

section \<open>The other operations\<close>

lemma no_leading: "leading_zeros 0 = 32" "trailing_zeros 0 = 32"
  by (simp_all add: leading_zeros_def trailing_zeros_def takeWhile_eq_all_conv [THEN iffD2])

lemma alu_gg_words:
  "alu_gg Op_Clz a = (if a = 0 then 32 else of_nat (leading_zeros a))" "alu_gg Op_Ctz a = (if a = 0 then 32 else of_nat (trailing_zeros a))"
  "alu_gg Op_Cpop a = of_nat (count_ones a)" "alu_gg Op_Sextb a = scast (ucast a :: 8 word)" "alu_gg Op_Sexth a = scast (ucast a :: 16 word)"
  "alu_gg Op_Zexth a = a AND 0xffff"
proof -
  show "alu_gg Op_Sextb a = scast (ucast a :: 8 word)" "alu_gg Op_Sexth a = scast (ucast a :: 16 word)"
    unfolding alu_gg_def Op_gg.case by (rule bit_word_eqI; auto simp: bit_simps min_def)+
qed (simp_all add: alu_gg_def no_leading take_bit_eq_mask mask_eq_exp_minus_1)

lemma ucast_low: "(ucast (x AND 0xff) :: u8) = ucast x" for x :: u32
  by (rule bit_word_eqI) (auto simp: field_bits)

lemma orcb_bytes:
  "alu_gg Op_Orcb a = fold (\<lambda>i result. if (ucast (drop_bit (8 * i) a AND 0xff) :: u8) \<noteq> 0 then result OR push_bit (8 * i) 0xff else result) [0, 1, 2, 3] 0"
  by (auto simp: alu_gg_def u32_to_le_bytes_def ucast_low)

end
