(* ===== verification/Emu_Agree.thy ===== *)
theory Emu_Agree
  imports Emu_Spec
begin

unbundle bit_operations_syntax

text \<open>
  The executor decodes instruction words itself. It agrees with decoding by \<^verbatim>\<open>decode_instruction\<close> and then running the
  reference semantics, on every instruction it means to run.
\<close>

section \<open>Definitions\<close>

text \<open>The program counter after an instruction, as \<^verbatim>\<open>step_inner\<close> computes it; what is seen of an execution.\<close>

definition next_pc :: "u32 \<Rightarrow> ExecutionResult \<Rightarrow> u32" where
  "next_pc pc r = (case new_pc r of Some p \<Rightarrow> p | None \<Rightarrow> pc + ucast (inst_size r))"

definition observe :: "u32 \<Rightarrow> (EmulatorError + ExecutionResult) \<times> regs \<times> 'm \<Rightarrow> 'm effect" where
  "observe pc e = (map_sum id (\<lambda>r. (next_pc pc r, should_halt r, syscall r)) (fst e), snd e)"

text \<open>The immediate bit-manipulation instructions the decoder knows and the executor does not.\<close>

definition emulated :: "Inst \<Rightarrow> bool" where
  "emulated i = (case i of
      Inst_ggi op a b imm \<Rightarrow> op \<notin> {Op_Rori, Op_Bexti, Op_Bclri, Op_Bseti}
    | Inst_gg op rd rs \<Rightarrow> op \<notin> {Op_Rev8, Op_Brev8} | _ \<Rightarrow> True)"

definition agrees :: "'m Bus \<Rightarrow> u32 \<Rightarrow> u32 \<Rightarrow> regs \<Rightarrow> 'm \<Rightarrow> string + Inst \<Rightarrow> (EmulatorError + ExecutionResult) \<times> regs \<times> 'm \<Rightarrow> bool" where
  "agrees bus n pc regs mem d e = (case d of Inl _ \<Rightarrow> True
     | Inr i \<Rightarrow> emulated i \<longrightarrow> isa bus (expand i) n pc regs mem = None \<or> isa bus (expand i) n pc regs mem = Some (observe pc e))"

section \<open>Running down the two decision trees\<close>

lemma agrees_if:
  "(c \<Longrightarrow> agrees bus n pc regs mem a x) \<Longrightarrow> (\<not> c \<Longrightarrow> agrees bus n pc regs mem b y) \<Longrightarrow>
     agrees bus n pc regs mem (if c then a else b) (if c then x else y)"
  by simp

lemma agrees_decoded:
  "(c \<Longrightarrow> agrees bus n pc regs mem a x) \<Longrightarrow> (\<not> c \<Longrightarrow> agrees bus n pc regs mem b x) \<Longrightarrow>
     agrees bus n pc regs mem (if c then a else b) x"
  by simp

lemma agrees_Inl [simp]: "agrees bus n pc regs mem (Inl s) e"
  by (simp add: agrees_def)

text \<open>An instruction without memory, beside one.\<close>

definition beside :: "'m \<Rightarrow> 'r \<times> regs \<Rightarrow> 'r \<times> regs \<times> 'm" where
  "beside mem r = (fst r, snd r, mem)"

lemma beside_if: "beside mem (if c then a else b) = (if c then beside mem a else beside mem b)"
  by simp

lemma observe_arith:
  "observe pc (beside mem (done_ok (arith_done m w pc c n regs rd a b v))) = (Inr (pc + ucast n, False, False), write_reg regs rd v, mem)"
  by (simp add: observe_def beside_def done_ok_def arith_done_def next_pc_def)

lemma observe_branch:
  "observe pc (beside mem (done_ok (branch_done m w pc n a b imm taken, regs))) =
     (Inr (if taken then pc + imm else pc + ucast n, False, False), regs, mem)"
  by (simp add: observe_def beside_def done_ok_def branch_done_def next_pc_def Let_def)

lemma observe_load:
  "Some (observe pc (try_mem r pc regs (\<lambda>v mem. load_done m w pc c n regs rd a b (f v) mem))) =
     loads (apfst (map_sum id f) r) (ucast n) pc rd regs"
  by (cases r; cases "fst r") (auto simp: observe_def try_mem_def load_done_def loads_def goes_def next_pc_def)

lemma unchanged: "apfst (map_sum id (\<lambda>v. v)) r = r"
  by (cases r; cases "fst r") auto

lemma observe_store:
  "Some (observe pc (try_mem r pc regs (\<lambda>_ mem. (Inr (store_result m w pc c n a v x old new), regs, mem)))) = stores r (ucast n) pc regs"
  by (cases r; cases "fst r") (auto simp: observe_def try_mem_def store_result_def stores_def goes_def next_pc_def)

lemma try_mem_ok: "try_mem (Inr x, mem) pc regs k = k x mem"
  by (simp add: try_mem_def)

lemmas observe_simps = observe_arith observe_branch observe_load unchanged observe_store try_mem_ok

lemmas isa_simps = isa_def isa_ggi_def expand_def emulated_def atomic_ggg_def goes_def alu_ggi_def

lemmas rtype_defs =
  execute_add_def execute_sub_def execute_mul_def execute_mulh_def execute_mulhsu_def execute_mulhu_def execute_div_def
    execute_divu_def execute_rem_def execute_remu_def execute_slt_def execute_sltu_def execute_xor_def execute_or_def
    execute_and_def execute_sll_def execute_srl_def execute_sra_def execute_rol_def execute_ror_def execute_andn_def
    execute_orn_def execute_xnor_def execute_min_def execute_minu_def execute_max_def execute_maxu_def execute_bclr_def
    execute_bext_def execute_binv_def execute_bset_def execute_sh1add_def execute_sh2add_def execute_sh3add_def execute_zexth_def

lemmas itype_defs =
  execute_addi_def execute_slli_def execute_srli_def execute_srai_def execute_andi_def execute_ori_def execute_xori_def
    execute_slti_def execute_sltiu_def execute_binvi_def execute_orcb_def execute_clz_def execute_ctz_def execute_cpop_def
    execute_sextb_def execute_sexth_def

lemmas branch_defs =
  execute_beq_def execute_bne_def execute_blt_def execute_bge_def execute_bltu_def execute_bgeu_def

section \<open>Instructions of 32 bits\<close>

lemma rtype_agrees:
  fixes regs :: regs and w :: u32
  defines "r \<equiv> r_from_riscv w"
  defines "op \<equiv> decode_op (ucast (tr_func r AND 0x7)) (ucast (drop_bit 3 (tr_func r) AND 0x7f)) (gpr_at (tr_rd r)) (gpr_at (tr_rs1 r)) (gpr_at (tr_rs2 r))"
  shows "agrees bus 4 pc regs mem op (beside mem (decode_execute_rtype False w pc regs))"
  unfolding op_def decode_op_def decode_execute_rtype_def Let_def r_def [symmetric] beside_if
  by (intro agrees_if; (rule agrees_Inl)?)
    (simp_all only: rtype_defs Let_def; simp add: agrees_def isa_simps alu_ggg_words alu_gg_words observe_simps)+

lemma branch_agrees:
  fixes regs :: regs and w :: u32
  defines "b \<equiv> b_from_riscv w"
  shows "agrees bus 4 pc regs mem (decode_branch (tb_func b) (gpr_at (tb_rs1 b)) (gpr_at (tb_rs2 b)) (tb_imm b)) (beside mem (decode_execute_branch False w pc regs))"
  unfolding decode_branch_def decode_execute_branch_def Let_def b_def [symmetric] beside_if
  by (intro agrees_if; (rule agrees_Inl)?)
    (simp_all add: branch_defs Let_def agrees_def isa_simps observe_simps branch_taken_def word_less_def word_le_def)

lemma load_agrees:
  fixes regs :: regs and w :: u32
  defines "i \<equiv> i_from_riscv w"
  shows "agrees bus 4 pc regs mem (decode_load (ti_func i) (gpr_at (ti_rd i)) (gpr_at (ti_rs1 i)) (ti_imm i)) (decode_execute_load bus False w pc regs mem)"
  unfolding decode_load_def decode_execute_load_def Let_def i_def [symmetric]
  by (intro agrees_decoded; (rule agrees_Inl)?)
    (simp add: execute_lb_def execute_lh_def execute_lw_def execute_lbu_def execute_lhu_def Let_def agrees_def isa_simps observe_simps)+

lemma store_agrees:
  fixes regs :: regs and w :: u32
  defines "s \<equiv> s_from_riscv w"
  assumes "ts_func s \<noteq> 3"
  shows "agrees bus 4 pc regs mem (decode_store (ts_func s) (gpr_at (ts_rs1 s)) (gpr_at (ts_rs2 s)) (ts_imm s)) (decode_execute_store bus False w pc regs mem)"
  unfolding decode_store_def decode_execute_store_def Let_def s_def [symmetric] using assms(2)
  by (intro agrees_decoded; (rule agrees_Inl)?)
    (simp add: execute_sb_def execute_sh_def execute_sw_def Let_def agrees_def isa_simps observe_simps)+

lemma imm_shifts:
  fixes w :: u32
  shows "ti_imm (i_from_riscv w) AND 0x1f = drop_bit 20 w AND 0x1f" and "(ucast (drop_bit 20 w AND 0x3f) :: u8) = ucast (drop_bit 20 w) AND 0x3f"
    and "(ucast ((ucast (drop_bit 20 w) :: u8) AND 0x3f) :: i32) AND 0x1f = drop_bit 20 w AND 0x1f"
    and "(ucast (((ucast (drop_bit 20 w) :: u8) AND 0x3f) AND 0x1f) :: i32) AND 0x1f = drop_bit 20 w AND 0x1f"
  unfolding i_from_riscv_def push_masks by (rule bit_word_eqI; auto simp: field_bits min_def)+

lemma funct_fields:
  fixes w :: u32
  shows "(ucast (drop_bit 25 w AND 0x7f) :: u8) = ucast (drop_bit 5 (ucast (drop_bit 20 w AND 0xfff) :: u16))"
    and "(ucast (drop_bit 26 w AND 0x3f) :: u8) = drop_bit 1 (ucast (drop_bit 25 w AND 0x7f))"
    and "drop_bit 25 w AND 0x20 \<noteq> 0 \<longleftrightarrow> bit (ucast (drop_bit 26 w AND 0x3f) :: u8) 4"
proof -
  show "drop_bit 25 w AND 0x20 \<noteq> 0 \<longleftrightarrow> bit (ucast (drop_bit 26 w AND 0x3f) :: u8) 4"
    using and_exp_eq_0_iff_not_bit [of "drop_bit 25 w" 5] by (simp add: field_bits)
qed (rule bit_word_eqI; auto simp: field_bits)+

lemma shift_left_agrees:
  fixes regs :: regs and w :: u32
  defines "i \<equiv> i_from_riscv w"
  assumes f: "ti_func i = 1"
  shows "agrees bus 4 pc regs mem (decode_shift_left w 1 (ucast (drop_bit 25 w AND 0x7f)) (gpr_at (ti_rd i)) (gpr_at (ti_rs1 i)) (ti_imm i))
    (beside mem (decode_execute_itype False w pc regs))"
  unfolding decode_shift_left_def decode_execute_itype_def Let_def i_def [symmetric] f
  by (intro agrees_decoded; (rule agrees_Inl)?)
    (auto simp: itype_defs Let_def agrees_def isa_simps alu_ggg_words alu_gg_words observe_simps imm_shifts imm_shifts [of w, folded i_def] funct_fields)

lemma shift_right_agrees:
  fixes regs :: regs and w :: u32
  defines "i \<equiv> i_from_riscv w"
  assumes f: "ti_func i = 5"
  shows "agrees bus 4 pc regs mem (decode_shift_right w 5 (ucast (drop_bit 25 w AND 0x7f)) (gpr_at (ti_rd i)) (gpr_at (ti_rs1 i)) (ti_imm i))
    (beside mem (decode_execute_itype False w pc regs))"
  unfolding decode_shift_right_def decode_execute_itype_def Let_def i_def [symmetric] f funct_fields(3)
  by (intro agrees_decoded; (rule agrees_Inl)?)
    (auto simp: itype_defs Let_def agrees_def isa_simps alu_ggg_words alu_gg_words orcb_bytes observe_simps imm_shifts imm_shifts [of w, folded i_def] funct_fields)

lemma itype_agrees:
  fixes regs :: regs and w :: u32
  defines "i \<equiv> i_from_riscv w"
  shows "agrees bus 4 pc regs mem (decode_op_imm w (ti_func i) (gpr_at (ti_rd i)) (gpr_at (ti_rs1 i)) (ti_imm i)) (beside mem (decode_execute_itype False w pc regs))"
proof -
  consider "ti_func i = 1" | "ti_func i = 5" | "ti_func i \<notin> {1, 5}" by blast
  then show ?thesis
  proof cases
    case 1
    then show ?thesis using shift_left_agrees [of w] by (simp add: decode_op_imm_def i_def)
  next
    case 2
    then show ?thesis using shift_right_agrees [of w] by (simp add: decode_op_imm_def i_def)
  next
    case 3
    then show ?thesis
      unfolding decode_op_imm_def decode_execute_itype_def Let_def i_def [symmetric]
      by (intro agrees_decoded; (rule agrees_Inl)?)
        (simp_all add: itype_defs Let_def agrees_def isa_simps alu_ggg_words observe_simps)
  qed
qed

lemma even_jump: "even (tj_imm (j_from_riscv w))"
  by (simp add: j_from_riscv_def Let_def even_or_iff even_and_iff)

lemma clear_low: "even x \<Longrightarrow> x AND NOT 1 = x" for x :: u32
  by (rule bit_word_eqI) (auto simp: bit_simps even_bit_iff intro: ccontr)

lemma jal_agrees:
  assumes "even pc"
  shows "agrees bus 4 pc regs mem (Inr (I_Jal (gpr_at (tj_rd (j_from_riscv w))) (tj_imm (j_from_riscv w)))) (beside mem (decode_execute_jal False w pc regs))"
proof -
  have target: "(pc + tj_imm (j_from_riscv w)) AND NOT 1 = pc + tj_imm (j_from_riscv w)" by (rule clear_low) (simp add: assms even_jump)
  show ?thesis
    unfolding decode_execute_jal_def execute_jal_def Let_def target
    by (simp add: agrees_def isa_simps observe_def beside_def done_ok_def next_pc_def)
qed

lemma jalr_agrees:
  fixes regs :: regs and w :: u32
  defines "i \<equiv> i_from_riscv w"
  shows "agrees bus 4 pc regs mem (Inr (I_Jalr (gpr_at (ti_rd i)) (gpr_at (ti_rs1 i)) (ti_imm i))) (beside mem (decode_execute_jalr False w pc regs))"
  by (simp add: decode_execute_jalr_def execute_jalr_def i_def agrees_def isa_simps observe_def beside_def done_ok_def next_pc_def Let_def)

lemma lui_imm: "push_bit 12 (drop_bit 12 (tu_imm (u_from_riscv w)) AND 0xfffff) = tu_imm (u_from_riscv w)"
  unfolding u_from_riscv_def push_masks by (rule bit_word_eqI) (auto simp: field_bits)

lemma upper_agrees:
  fixes regs :: regs and w :: u32
  defines "u \<equiv> u_from_riscv w"
  shows "agrees bus 4 pc regs mem (Inr (I_Lui (gpr_at (tu_rd u)) (tu_imm u))) (beside mem (decode_execute_lui False w pc regs))"
    and "agrees bus 4 pc regs mem (Inr (I_Auipc (gpr_at (tu_rd u)) (tu_imm u))) (beside mem (decode_execute_auipc False w pc regs))"
  unfolding decode_execute_lui_def execute_lui_def decode_execute_auipc_def execute_auipc_def Let_def u_def lui_imm
  by (simp_all add: imm_done_def agrees_def isa_simps observe_def beside_def done_ok_def next_pc_def)

lemma fence_agrees: "agrees bus 4 pc regs mem (Inr (decode_fence w)) (Inr (decode_execute_fence False w pc), regs, mem)"
  by (simp add: decode_fence_def decode_execute_fence_def execute_fence_def execute_fence_i_def system_result_def agrees_def isa_simps
      observe_def next_pc_def Let_def)

lemma calls: "ti_func (i_from_riscv 0x73) = 0" "ti_imm (i_from_riscv 0x73) = 0" "ti_func (i_from_riscv 0x100073) = 0" "ti_imm (i_from_riscv 0x100073) = 1"
  by (simp_all add: i_from_riscv_def)

lemma csr_outside: "decode_system w = Some (Inr i) \<Longrightarrow> w \<noteq> 0x73 \<Longrightarrow> w \<noteq> 0x100073 \<Longrightarrow> isa bus (expand i) n pc regs mem = None"
  by (auto simp: decode_system_def Let_def isa_def expand_def split: if_splits)

lemma system_agrees:
  assumes "decode_system w = Some d" "decode_execute_system False w pc regs fp = (x, regs', fp')"
  shows "agrees bus 4 pc regs mem d (x, regs', mem) \<and> (\<forall>i r. d = Inr i \<longrightarrow> isa bus (expand i) 4 pc regs mem = Some r \<longrightarrow> fp' = fp)"
proof (cases "w = 0x73 \<or> w = 0x100073")
  case True
  then show ?thesis using assms
    by (auto simp: decode_system_def decode_execute_system_def calls execute_ecall_def execute_ebreak_def system_result_def agrees_def isa_simps
        observe_def next_pc_def)
next
  case False
  then show ?thesis using assms(1) by (cases d) (simp_all add: agrees_def csr_outside [of w])
qed

section \<open>Compressed instructions\<close>

text \<open>The decoder and the executor of a group, side by side.\<close>

definition agrees_c :: "'m Bus \<Rightarrow> u32 \<Rightarrow> regs \<Rightarrow> 'm \<Rightarrow> decoded \<Rightarrow> ((EmulatorError + ExecutionResult) \<times> regs \<times> 'm) option \<Rightarrow> bool" where
  "agrees_c bus pc regs mem dd ee = (\<forall>d. dd = Some d \<longrightarrow> (\<exists>e. ee = Some e \<and> agrees bus 2 pc regs mem d e))"

lemma agrees_c_if:
  "(c \<Longrightarrow> agrees_c bus pc regs mem a x) \<Longrightarrow> (\<not> c \<Longrightarrow> agrees_c bus pc regs mem b y) \<Longrightarrow>
     agrees_c bus pc regs mem (if c then a else b) (if c then x else y)"
  by simp

lemma agrees_c_None [simp]: "agrees_c bus pc regs mem None e"
  by (simp add: agrees_c_def)

lemma agrees_c_Inl [simp]: "agrees_c bus pc regs mem (Some (Inl s)) (Some e)" "agrees_c bus pc regs mem (Some (Inl s)) (invalid_c pc w s' regs' mem')"
  by (simp_all add: agrees_c_def invalid_c_def)

lemma agrees_c_Some: "agrees_c bus pc regs mem (Some d) (Some e) = agrees bus 2 pc regs mem d e"
  by (simp add: agrees_c_def)

lemma agrees_c_plain: "agrees_c bus pc regs mem (Some d) (plain mem r) = agrees bus 2 pc regs mem d (beside mem (done_ok r))"
  by (simp add: agrees_c_def plain_def beside_def done_ok_def)

lemmas compressed_defs =
  execute_c_addi4spn_def execute_c_addi_def execute_c_nop_def execute_c_jal_def execute_c_li_def execute_c_addi16sp_def
  execute_c_lui_def execute_c_srli_def execute_c_srai_def execute_c_slli_def execute_c_andi_def execute_c_sub_def
  execute_c_xor_def execute_c_or_def execute_c_and_def execute_c_add_def execute_c_j_def execute_c_beqz_def execute_c_bnez_def
  execute_c_jr_def execute_c_mv_def execute_c_jalr_def execute_c_ebreak_def execute_c_lw_def execute_c_lwsp_def
  execute_c_sw_def execute_c_swsp_def c_reg_def gpr_at_def

lemma observe_done:
  "observe pc (beside mem (done_ok (\<lparr>new_pc = p, should_halt = halt, syscall = sys, inst_class = c, inst_size = n, inst_log = l\<rparr>, regs))) =
     (Inr (case p of Some p \<Rightarrow> p | None \<Rightarrow> pc + ucast n, halt, sys), regs, mem)"
  by (simp add: observe_def beside_def done_ok_def next_pc_def split: option.split)

lemma fixed_registers:
  "write_reg regs Ra v = regs(Ra := v)" "write_reg regs Sp v = regs(Sp := v)" "write_reg regs Zero v = regs" "read_reg regs Zero = 0"
  by (simp_all add: write_reg_def read_reg_def)

lemma numbered:
  "(ucast (x AND 7) :: u8) = 0 \<longleftrightarrow> x AND 7 = 0" "(ucast (x AND 7) :: u8) = 1 \<longleftrightarrow> x AND 7 = 1" "(ucast (x AND 7) :: u8) = 2 \<longleftrightarrow> x AND 7 = 2"
  "(ucast (x AND 7) :: u8) = 3 \<longleftrightarrow> x AND 7 = 3" "(ucast (x AND 7) :: u8) = 4 \<longleftrightarrow> x AND 7 = 4" "(ucast (x AND 7) :: u8) = 5 \<longleftrightarrow> x AND 7 = 5"
  "(ucast (x AND 7) :: u8) = 6 \<longleftrightarrow> x AND 7 = 6" "(ucast (x AND 7) :: u8) = 7 \<longleftrightarrow> x AND 7 = 7" for x :: u16
  using masked_cases(2) [of x] by auto

lemmas c_simps = agrees_c_Some agrees_c_plain compressed_defs Let_def agrees_def isa_simps alu_ggg_words observe_simps branch_taken_def
  observe_done fixed_registers imm_done_def system_result_def

lemma c0_agrees: "agrees_c bus pc regs mem (decode_c0 inst (x AND 7)) (decode_execute_c0 bus False inst (ucast (x AND 7)) pc regs mem)"
  unfolding decode_c0_def decode_execute_c0_def Let_def numbered
  by (intro agrees_c_if) (simp_all add: decode_c_addi4spn_def decode_c_lw_def decode_c_sw_def c_simps)

lemma c2_agrees: "agrees_c bus pc regs mem (decode_c2 inst (x AND 7)) (decode_execute_c2 bus False inst (ucast (x AND 7)) pc regs mem)"
  unfolding decode_c2_def decode_execute_c2_def Let_def numbered decode_c_slli_def decode_c_lwsp_def decode_c_misc_cr_def decode_c_swsp_def
  by (intro agrees_c_if) (simp_all add: c_simps)

lemma c1_agrees: "agrees_c bus pc regs mem (decode_c1 inst (x AND 7)) (decode_execute_c1 bus False inst (ucast (x AND 7)) pc regs mem)"
  unfolding decode_c1_def decode_execute_c1_def Let_def numbered
  by (intro agrees_c_if)
    (simp_all add: decode_c_addi_or_nop_def decode_c_jal_def decode_c_li_def decode_c_addi16sp_or_lui_def decode_c_misc_alu_def decode_c_j_def
      decode_c_beqz_def decode_c_bnez_def c_simps)

lemma compressed_agrees:
  "agrees_c bus pc regs mem (decode_compressed (ucast w)) (decode_execute_compressed bus False w pc regs mem)"
  unfolding decode_compressed_def decode_execute_compressed_def Let_def
  by (intro agrees_c_if) (simp_all only: c0_agrees c1_agrees c2_agrees agrees_c_None)

section \<open>The dispatch\<close>

lemma fields_in_range:
  "gpr_new (tr_rd (r_from_riscv w)) = Some (gpr_at (tr_rd (r_from_riscv w)))" "gpr_new (tr_rs1 (r_from_riscv w)) = Some (gpr_at (tr_rs1 (r_from_riscv w)))"
  "gpr_new (tr_rs2 (r_from_riscv w)) = Some (gpr_at (tr_rs2 (r_from_riscv w)))" "gpr_new (ti_rd (i_from_riscv w)) = Some (gpr_at (ti_rd (i_from_riscv w)))"
  "gpr_new (ti_rs1 (i_from_riscv w)) = Some (gpr_at (ti_rs1 (i_from_riscv w)))" "gpr_new (ts_rs1 (s_from_riscv w)) = Some (gpr_at (ts_rs1 (s_from_riscv w)))"
  "gpr_new (ts_rs2 (s_from_riscv w)) = Some (gpr_at (ts_rs2 (s_from_riscv w)))" "gpr_new (tb_rs1 (b_from_riscv w)) = Some (gpr_at (tb_rs1 (b_from_riscv w)))"
  "gpr_new (tb_rs2 (b_from_riscv w)) = Some (gpr_at (tb_rs2 (b_from_riscv w)))" "gpr_new (tu_rd (u_from_riscv w)) = Some (gpr_at (tu_rd (u_from_riscv w)))"
  "gpr_new (tj_rd (j_from_riscv w)) = Some (gpr_at (tj_rd (j_from_riscv w)))"
  by (simp_all add: r_from_riscv_def i_from_riscv_def s_from_riscv_def b_from_riscv_def u_from_riscv_def j_from_riscv_def gpr_at_def Let_def)

lemma atomic_outside: "decode_atomic w f rd rs1 rs2 = Inr i \<Longrightarrow> isa bus (expand i) n pc regs mem = None"
  by (auto simp: decode_atomic_def Let_def isa_def expand_def atomic_ggg_def split: if_splits)

text \<open>Stores of floating-point registers, and the store that is reserved on 32-bit machines, are decoded as integer stores but not
  executed as such.\<close>

definition integer_word :: "u32 \<Rightarrow> bool" where
  "integer_word w = (let opcode = w AND 0x7f in opcode \<noteq> 0x27 \<and> \<not> (opcode = 0x23 \<and> ts_func (s_from_riscv w) = 3))"

definition inst_len :: "u32 \<Rightarrow> u32" where
  "inst_len w = (if w AND 3 = 3 then 4 else 2)"

definition runs_to :: "u32 \<Rightarrow> 'm Hart \<Rightarrow> 'm outcome \<Rightarrow> 'm effect \<Rightarrow> bool" where
  "runs_to pc h out r = (\<exists>x. out = Some (x, h\<lparr>h_regs := fst (snd r), h_mem := snd (snd r)\<rparr>) \<and> observe pc (x, snd r) = r)"

lemma runs_regs: "observe pc (beside (h_mem h) e) = r \<Longrightarrow> runs_to pc h (on_regs h e) r"
  by (auto simp: runs_to_def on_regs_def observe_def beside_def)

lemma runs_memory: "observe pc e = r \<Longrightarrow> runs_to pc h (on_memory h e) r"
  by (auto simp: runs_to_def on_memory_def observe_def)

lemma agreed: "agrees bus n pc regs mem (Inr i) e \<Longrightarrow> emulated i \<Longrightarrow> isa bus (expand i) n pc regs mem = Some r \<Longrightarrow> observe pc e = r"
  by (auto simp: agrees_def)

lemma by_regs: "agrees bus n pc (h_regs h) (h_mem h) (Inr i) (beside (h_mem h) e) \<Longrightarrow> emulated i \<Longrightarrow>
    isa bus (expand i) n pc (h_regs h) (h_mem h) = Some r \<Longrightarrow> runs_to pc h (on_regs h e) r"
  by (rule runs_regs) (rule agreed)

lemma by_memory: "agrees bus n pc (h_regs h) (h_mem h) (Inr i) e \<Longrightarrow> emulated i \<Longrightarrow>
    isa bus (expand i) n pc (h_regs h) (h_mem h) = Some r \<Longrightarrow> runs_to pc h (on_memory h e) r"
  by (rule runs_memory) (rule agreed)

lemma narrow_agrees:
  assumes "w AND 3 \<noteq> 3" "decode_instruction w = Some (Inr i)" "emulated i" "isa bus (expand i) 2 pc (h_regs h) (h_mem h) = Some r"
  shows "runs_to pc h (decode_execute bus float False w pc h) r"
proof -
  obtain e where "decode_execute_compressed bus False w pc (h_regs h) (h_mem h) = Some e" "agrees bus 2 pc (h_regs h) (h_mem h) (Inr i) e"
    using compressed_agrees [of bus pc "h_regs h" "h_mem h" w] assms(1,2) by (auto simp: agrees_c_def decode_instruction_def)
  then show ?thesis using assms by (simp add: decode_execute_def by_memory)
qed

lemma wide_agrees:
  assumes "w AND 3 = 3" "decode_instruction w = Some (Inr i)" "emulated i" "isa bus (expand i) 4 pc (h_regs h) (h_mem h) = Some r"
    "even pc" "integer_word w"
  shows "runs_to pc h (decode_execute bus float False w pc h) r"
proof -
  define opcode :: u8 where "opcode = ucast (w AND 0x7f)"
  note dec = assms(2) [unfolded decode_instruction_def Let_def opcode_def [symmetric] fields_in_range]
  note exe = decode_execute_def [of bus float False w pc h, unfolded Let_def opcode_def [symmetric]]
  have opcodes: "opcode \<in> {0x33, 0x13, 0x03, 0x23, 0x27, 0x37, 0x17, 0x6f, 0x67, 0x63, 0x0f, 0x73, 0x2f}"
    using dec assms(1) by (auto split: if_splits)
  have low: "w AND 0x7f = ucast opcode" unfolding opcode_def by (rule bit_word_eqI) (auto simp: field_bits)
  note known = assms(6) [unfolded integer_word_def Let_def low]
  note here = agreed [OF _ assms(3,4)] by_regs [OF _ assms(3,4)] by_memory [OF _ assms(3,4)]
  note agree = rtype_agrees [of bus pc "h_regs h" "h_mem h" w] itype_agrees [of bus pc "h_regs h" "h_mem h" w]
    load_agrees [of bus pc "h_regs h" "h_mem h" w] store_agrees [of w bus pc "h_regs h" "h_mem h"] branch_agrees [of bus pc "h_regs h" "h_mem h" w]
    jal_agrees [OF assms(5), of bus "h_regs h" "h_mem h" w] jalr_agrees [of bus pc "h_regs h" "h_mem h" w]
    upper_agrees [of bus pc "h_regs h" "h_mem h" w]
  consider "opcode = 0x0f" | "opcode = 0x73" | "opcode = 0x2f" | "opcode \<in> {0x33, 0x13, 0x03, 0x23, 0x37, 0x17, 0x6f, 0x67, 0x63}"
    using opcodes known by auto
  then show ?thesis
  proof cases
    case 1
    then have "i = decode_fence w" using dec assms(1) by simp
    then have "observe pc (Inr (decode_execute_fence False w pc), h_regs h, h_mem h) = r"
      using here(1) fence_agrees [of bus pc "h_regs h" "h_mem h" w] by simp
    then show ?thesis using 1 assms(1) by (auto simp: exe runs_to_def observe_def)
  next
    case 2
    then have sys: "decode_system w = Some (Inr i)" using dec assms(1) by simp
    obtain x regs' fp' where e: "decode_execute_system False w pc (h_regs h) (h_fp h) = (x, regs', fp')" by (rule prod_cases3)
    note agrees = system_agrees [OF sys e, of bus "h_mem h"]
    have "observe pc (x, regs', h_mem h) = r" using here(1) [OF conjunct1 [OF agrees]] .
    moreover have "fp' = h_fp h" using conjunct2 [OF agrees, rule_format, OF refl assms(4)] .
    ultimately have "observe pc (x, regs', h_mem h) = r" "fp' = h_fp h" .
    then show ?thesis using 2 assms(1) e by (auto simp: exe runs_to_def observe_def)
  next
    case 3
    then obtain f rd rs1 rs2 where "decode_atomic w f rd rs1 rs2 = Inr i" using dec assms(1) by simp
    then show ?thesis using assms(4) by (simp add: atomic_outside)
  next
    case 4
    then show ?thesis using dec assms(1) known agree
      by (elim insertE emptyE; simp add: exe here split: if_splits)
  qed
qed



text \<open>Outside the agreement: a rotate by an immediate, which the assembler emits and the decoder reads, is executed as a shift.\<close>

lemma rotate_is_shift:
  "inst_encode (I_Rori T0 T1 4) = 0x60435293" "decode_instruction 0x60435293 = Some (Inr (I_Rori T0 T1 4))"
  "decode_execute_itype m 0x60435293 pc regs = done_ok (execute_srai m T0 T1 0x604 0x60435293 pc regs)"
proof -
  show "inst_encode (I_Rori T0 T1 4) = 0x60435293" by code_simp
  show "decode_instruction 0x60435293 = Some (Inr (I_Rori T0 T1 4))" by code_simp
  have "i_from_riscv 0x60435293 = \<lparr>ti_rd = 5, ti_rs1 = 6, ti_imm = 0x604, ti_func = 5\<rparr>" by code_simp
  then show "decode_execute_itype m 0x60435293 pc regs = done_ok (execute_srai m T0 T1 0x604 0x60435293 pc regs)"
    by (simp add: decode_execute_itype_def gpr_at_def GPRS_def Let_def)
qed

end
