(* ===== verification/Emu_Logging.thy ===== *)
theory Emu_Logging
  imports Emu_Agree
begin

unbundle bit_operations_syntax

text \<open>
  The executor is compiled twice, with and without logging. On a bus without devices logging changes nothing but the log, for every
  instruction that succeeds without it; the exception is a conditional store that has lost its reservation, which reads memory only
  when logging.
\<close>

section \<open>Results that differ in the log\<close>

definition same_but_log :: "(EmulatorError + ExecutionResult) \<times> 's \<Rightarrow> (EmulatorError + ExecutionResult) \<times> 's \<Rightarrow> bool" where
  "same_but_log x y = (\<forall>r. fst x = Inr r \<longrightarrow> (\<exists>l. fst y = Inr (r\<lparr>inst_log := l\<rparr>)) \<and> snd y = snd x)"

lemma same_but_log_if:
  "(c \<Longrightarrow> same_but_log a x) \<Longrightarrow> (\<not> c \<Longrightarrow> same_but_log b y) \<Longrightarrow> same_but_log (if c then a else b) (if c then x else y)"
  by simp

lemma same_but_log_refl [simp]: "same_but_log (Inl e, s) y" "same_but_log (invalid pc w reason regs) z" "same_but_log (invalid_mem pc w reason regs mem) u"
  by (simp_all add: same_but_log_def invalid_def invalid_mem_def)

lemma same_arith: "same_but_log (done_ok (arith_done False w pc c n regs rd a b v)) (done_ok (arith_done True w pc c n regs rd a b v))"
  by (simp add: same_but_log_def done_ok_def arith_done_def)

lemma same_branch: "same_but_log (done_ok (branch_done False w pc n a b imm taken, regs)) (done_ok (branch_done True w pc n a b imm taken, regs))"
  by (simp add: same_but_log_def done_ok_def branch_done_def Let_def)

lemma same_imm: "same_but_log (done_ok (imm_done False w pc c n regs rd v)) (done_ok (imm_done True w pc c n regs rd v))"
  by (simp add: same_but_log_def done_ok_def imm_done_def)

lemma same_jump: "same_but_log (done_ok (\<lparr>new_pc = p, should_halt = halt, syscall = sys, inst_class = c, inst_size = n, inst_log = l\<rparr>, regs))
    (done_ok (\<lparr>new_pc = p, should_halt = halt, syscall = sys, inst_class = c, inst_size = n, inst_log = l'\<rparr>, regs))"
  by (simp add: same_but_log_def done_ok_def)

lemmas same_simps = same_arith same_branch same_imm same_jump

section \<open>Instructions on registers\<close>

lemma rtype_same: "same_but_log (decode_execute_rtype False w pc regs) (decode_execute_rtype True w pc regs)"
  unfolding decode_execute_rtype_def Let_def
  by (intro same_but_log_if; (rule same_but_log_refl)?) (simp_all only: rtype_defs Let_def same_simps)

lemma itype_same: "same_but_log (decode_execute_itype False w pc regs) (decode_execute_itype True w pc regs)"
  unfolding decode_execute_itype_def Let_def
  by (intro same_but_log_if; (rule same_but_log_refl)?) (simp_all only: itype_defs Let_def same_simps)

lemma branch_same: "same_but_log (decode_execute_branch False w pc regs) (decode_execute_branch True w pc regs)"
  unfolding decode_execute_branch_def Let_def
  by (intro same_but_log_if; (rule same_but_log_refl)?) (simp_all only: branch_defs Let_def same_simps)

lemma jumps_same:
  "same_but_log (decode_execute_jal False w pc regs) (decode_execute_jal True w pc regs)"
  "same_but_log (decode_execute_jalr False w pc regs) (decode_execute_jalr True w pc regs)"
  "same_but_log (decode_execute_lui False w pc regs) (decode_execute_lui True w pc regs)"
  "same_but_log (decode_execute_auipc False w pc regs) (decode_execute_auipc True w pc regs)"
  by (simp_all only: decode_execute_jal_def execute_jal_def decode_execute_jalr_def execute_jalr_def decode_execute_lui_def execute_lui_def
      decode_execute_auipc_def execute_auipc_def Let_def same_simps)

lemma fence_same: "\<exists>l. decode_execute_fence True w pc = (decode_execute_fence False w pc)\<lparr>inst_log := l\<rparr>"
  by (simp add: decode_execute_fence_def execute_fence_def execute_fence_i_def system_result_def Let_def)

lemma system_same: "same_but_log (decode_execute_system False w pc regs fp) (decode_execute_system True w pc regs fp)"
  unfolding decode_execute_system_def Let_def
  by (intro same_but_log_if; (rule same_but_log_refl)?)
    (simp_all add: execute_ecall_def execute_ebreak_def execute_csr_def system_result_def same_but_log_def Let_def)

section \<open>Conditional stores\<close>

definition lost_store :: "u32 \<Rightarrow> regs \<Rightarrow> u32 option \<Rightarrow> bool" where
  "lost_store w regs reservation =
     (ucast (drop_bit 27 w AND 0x1f) = (0x03 :: u8) \<and> reservation \<noteq> Some (read_reg regs (gpr_at (tr_rs1 (r_from_riscv w)))))"

section \<open>Outcomes that may panic\<close>

definition same_outcome :: "((EmulatorError + ExecutionResult) \<times> 's) option \<Rightarrow> ((EmulatorError + ExecutionResult) \<times> 's) option \<Rightarrow> bool" where
  "same_outcome x y = (\<forall>a. x = Some a \<longrightarrow> (\<exists>b. y = Some b \<and> same_but_log a b))"

lemma same_outcome_if:
  "(c \<Longrightarrow> same_outcome a x) \<Longrightarrow> (\<not> c \<Longrightarrow> same_outcome b y) \<Longrightarrow> same_outcome (if c then a else b) (if c then x else y)"
  by simp

lemma same_outcome_refl [simp]: "same_outcome None y" "same_outcome (invalid_c pc v s regs mem) (invalid_c pc v s regs mem)"
  by (simp_all add: same_outcome_def invalid_c_def)

lemma same_outcome_Some: "same_outcome (Some a) (Some b) = same_but_log a b"
  by (simp add: same_outcome_def)

lemma same_plain: "same_but_log (done_ok a) (done_ok b) \<Longrightarrow> same_outcome (plain mem a) (plain mem b)"
  by (simp add: same_outcome_def same_but_log_def plain_def done_ok_def)

lemma same_bind:
  "same_outcome a b \<Longrightarrow> (\<And>x y. same_but_log x y \<Longrightarrow> same_outcome (f x) (f y)) \<Longrightarrow> same_outcome (Option.bind a f) (Option.bind b f)"
  by (cases a) (auto simp: same_outcome_def)

lemma same_states:
  "same_but_log a b \<Longrightarrow> same_outcome (on_regs h a) (on_regs h b)" "same_but_log c d \<Longrightarrow> same_outcome (on_memory h c) (on_memory h d)"
  by (auto simp: same_outcome_def same_but_log_def on_regs_def on_memory_def)

section \<open>Instructions on memory\<close>

context plain_bus
begin

lemma pure_reads:
  "bus_read_word bus m a = (fst (bus_read_word bus m a), m)" "bus_read_halfword bus m a = (fst (bus_read_halfword bus m a), m)"
  "bus_read_byte bus m a = (fst (bus_read_byte bus m a), m)"
  using word_pure halfword_pure byte_pure by (metis prod.collapse)+

lemma load_same:
  "same_but_log (try_mem r pc regs (\<lambda>v mem. load_done False w pc c n regs rd a b (f v) mem)) (try_mem r pc regs (\<lambda>v mem. load_done True w pc c n regs rd a b (f v) mem))"
  by (cases r; cases "fst r") (auto simp: same_but_log_def try_mem_def load_done_def)

lemma store_same:
  assumes "\<And>m'. wr mem = (Inr (), m') \<Longrightarrow> \<exists>x. rd = (Inr x, mem)"
  shows "same_but_log
    (try_mem (if False then rd else (Inr 0, mem)) pc regs (\<lambda>old mem. try_mem (wr mem) pc regs (\<lambda>_ mem. (Inr (store_result False w pc c n a v x (f old) new), regs, mem))))
    (try_mem (if True then rd else (Inr 0, mem)) pc regs (\<lambda>old mem. try_mem (wr mem) pc regs (\<lambda>_ mem. (Inr (store_result True w pc c n a v x (f old) new), regs, mem))))"
  using assms by (cases "wr mem"; cases "fst (wr mem)") (auto simp: same_but_log_def try_mem_def store_result_def split: sum.splits)

lemma readable_first:
  "bus_write_word bus m a v = (Inr (), m') \<Longrightarrow> \<exists>x. bus_read_word bus m a = (Inr x, m)"
  "bus_write_halfword bus m a h = (Inr (), m') \<Longrightarrow> \<exists>x. bus_read_halfword bus m a = (Inr x, m)"
  "bus_write_byte bus m a b = (Inr (), m') \<Longrightarrow> \<exists>x. bus_read_byte bus m a = (Inr x, m)"
  using word_before [of m a v m'] halfword_before [of m a h m'] byte_before [of m a b m'] pure_reads [of m a] by (metis prod.collapse)+

lemma stores_same:
  "same_but_log (execute_sb bus False rs1 rs2 imm w pc regs mem) (execute_sb bus True rs1 rs2 imm w pc regs mem)"
  "same_but_log (execute_sh bus False rs1 rs2 imm w pc regs mem) (execute_sh bus True rs1 rs2 imm w pc regs mem)"
  "same_but_log (execute_sw bus False rs1 rs2 imm w pc regs mem) (execute_sw bus True rs1 rs2 imm w pc regs mem)"
  "same_but_log (execute_c_sw bus False rs1 rs2 imm w pc regs mem) (execute_c_sw bus True rs1 rs2 imm w pc regs mem)"
  "same_but_log (execute_c_swsp bus False rs2 imm w pc regs mem) (execute_c_swsp bus True rs2 imm w pc regs mem)"
  unfolding execute_sb_def execute_sh_def execute_sw_def execute_c_sw_def execute_c_swsp_def Let_def
  by (rule store_same, erule readable_first)+

lemma load_decoded_same: "same_but_log (decode_execute_load bus False w pc regs mem) (decode_execute_load bus True w pc regs mem)"
  unfolding decode_execute_load_def Let_def
  by (intro same_but_log_if; (rule same_but_log_refl)?)
    (simp_all add: execute_lb_def execute_lh_def execute_lw_def execute_lbu_def execute_lhu_def Let_def load_same)

lemma store_decoded_same: "same_but_log (decode_execute_store bus False w pc regs mem) (decode_execute_store bus True w pc regs mem)"
  unfolding decode_execute_store_def Let_def
  by (intro same_but_log_if; (rule same_but_log_refl)?) (simp_all only: stores_same)

lemma c0_same: "same_outcome (decode_execute_c0 bus False inst f pc regs mem) (decode_execute_c0 bus True inst f pc regs mem)"
  unfolding decode_execute_c0_def Let_def
  by (intro same_outcome_if; (rule same_outcome_refl)?) (simp_all add: same_plain same_outcome_Some stores_same execute_c_addi4spn_def execute_c_lw_def
    same_simps load_same Let_def)

lemma c1_same: "same_outcome (decode_execute_c1 bus False inst f pc regs mem) (decode_execute_c1 bus True inst f pc regs mem)"
  unfolding decode_execute_c1_def Let_def
  by (intro same_outcome_if; (rule same_outcome_refl)?; (rule same_plain)?) (simp_all only: compressed_defs Let_def same_simps)

lemma c2_same: "same_outcome (decode_execute_c2 bus False inst f pc regs mem) (decode_execute_c2 bus True inst f pc regs mem)"
  unfolding decode_execute_c2_def Let_def
  by (intro same_outcome_if; (rule same_outcome_refl)?; (rule same_plain)?)
    (simp_all add: same_outcome_Some stores_same execute_c_lwsp_def execute_c_slli_def execute_c_jr_def execute_c_mv_def execute_c_ebreak_def
      execute_c_jalr_def execute_c_add_def system_result_def load_same same_simps Let_def)

lemma compressed_same:
  "same_outcome (decode_execute_compressed bus False w pc regs mem) (decode_execute_compressed bus True w pc regs mem)"
  unfolding decode_execute_compressed_def Let_def
  by (intro same_outcome_if c0_same c1_same c2_same) (simp add: same_outcome_Some)

lemma amo_same:
  "same_but_log (execute_amo f bus False rd rs1 rs2 w pc regs mem) (execute_amo f bus True rd rs1 rs2 w pc regs mem)"
  unfolding execute_amo_def Let_def
  by (auto simp: same_but_log_def try_mem_def store_result_def split: sum.splits prod.splits)

lemma lr_same: "same_but_log (execute_lr_w bus False rd rs1 w pc regs mem res) (execute_lr_w bus True rd rs1 w pc regs mem res)"
  unfolding execute_lr_w_def Let_def
  by (auto simp: same_but_log_def try_mem_def load_done_def split: sum.splits prod.splits)

lemma sc_same:
  assumes "reservation = Some (read_reg regs rs1)"
  shows "same_but_log (execute_sc_w bus False rd rs1 rs2 w pc regs mem reservation) (execute_sc_w bus True rd rs1 rs2 w pc regs mem reservation)"
proof (cases "bus_write_word bus mem (read_reg regs rs1) (read_reg regs rs2)")
  case (Pair q mem')
  show ?thesis
  proof (cases q)
    case (Inr u)
    then obtain x where "bus_read_word bus mem (read_reg regs rs1) = (Inr x, mem)" using readable_first(1) Pair by fastforce
    then show ?thesis using assms Pair Inr by (simp add: execute_sc_w_def Let_def take_for_store_def same_but_log_def store_result_def)
  qed (use assms Pair in \<open>simp add: execute_sc_w_def Let_def take_for_store_def\<close>)
qed

lemma beside_reservation:
  "same_but_log a b \<Longrightarrow> same_but_log (case a of (r, regs, mem) \<Rightarrow> (r, regs, mem, res)) (case b of (r, regs, mem) \<Rightarrow> (r, regs, mem, res))"
  by (auto simp: same_but_log_def split: prod.splits)

lemma atomic_same:
  assumes "\<not> lost_store w regs reservation"
  shows "same_but_log (decode_execute_atomic bus False w pc regs mem reservation) (decode_execute_atomic bus True w pc regs mem reservation)"
  unfolding decode_execute_atomic_def Let_def
  by (intro same_but_log_if beside_reservation; (rule same_but_log_refl amo_same lr_same)?) (use assms in \<open>auto simp: lost_store_def intro: sc_same\<close>)

text \<open>The whole dispatch, but for the floating-point opcodes.\<close>

lemma dispatch_same:
  assumes "w AND 3 = 3 \<Longrightarrow> \<not> is_float_opcode (ucast (w AND 0x7f))"
    "(ucast (w AND 0x7f) :: u8) = 0x2f \<Longrightarrow> \<not> lost_store w (h_regs h) (h_reservation h)"
  shows "same_outcome (decode_execute bus float False w pc h) (decode_execute bus float True w pc h)"
proof -
  define opcode :: u8 where "opcode = ucast (w AND 0x7f)"
  have system: "same_outcome (case decode_execute_system False w pc regs fp of (r, regs, fp) \<Rightarrow> Some (r, h\<lparr>h_regs := regs, h_fp := fp\<rparr>))
      (case decode_execute_system True w pc regs fp of (r, regs, fp) \<Rightarrow> Some (r, h\<lparr>h_regs := regs, h_fp := fp\<rparr>))" for regs fp
    using system_same [of w pc regs fp] by (auto simp: same_outcome_def same_but_log_def split: prod.splits)
  have fence: "same_outcome (Some (Inr (decode_execute_fence False w pc), h)) (Some (Inr (decode_execute_fence True w pc), h))"
    using fence_same [of w pc] by (simp add: same_outcome_def same_but_log_def)
  have atomic: "same_outcome
      (case decode_execute_atomic bus False w pc (h_regs h) mem (h_reservation h) of (r, regs, mem, res) \<Rightarrow>
         Some (r, h\<lparr>h_regs := regs, h_mem := mem, h_reservation := res\<rparr>))
      (case decode_execute_atomic bus True w pc (h_regs h) mem (h_reservation h) of (r, regs, mem, res) \<Rightarrow>
         Some (r, h\<lparr>h_regs := regs, h_mem := mem, h_reservation := res\<rparr>))" if "opcode = 0x2f" for mem
    using atomic_same [OF assms(2), of pc mem] that by (auto simp: opcode_def same_outcome_def same_but_log_def split: prod.splits)
  have unknown: "same_outcome (Some (Inl e, h)) (Some (Inl e, h))" for e by (simp add: same_outcome_def)
  show ?thesis
    unfolding decode_execute_def Let_def opcode_def [symmetric]
    by (intro same_outcome_if same_bind compressed_same same_states rtype_same itype_same branch_same jumps_same load_decoded_same
        store_decoded_same system fence atomic unknown) (use assms(1) in \<open>auto simp: opcode_def\<close>)
qed

end

section \<open>The property\<close>



section \<open>What the log records\<close>

text \<open>\<^verbatim>\<open>jal\<close> logs the link register as it was; its compressed form, and that of \<^verbatim>\<open>jalr\<close>, log it after the write.\<close>

lemma link_register_logged:
  "\<exists>target. inst_log (fst (execute_jal True Ra imm w pc regs)) = Some (LogJump 0 pc w (regs Ra) (Some (pc + 4)) target)"
  "inst_log (fst (execute_c_jal True imm w pc regs)) = Some (LogJump 0 pc w (pc + 2) (Some (pc + 2)) (pc + imm))"
  "\<exists>target. inst_log (fst (execute_c_jalr True rs w pc regs)) = Some (LogJump 0 pc w (pc + 2) (Some (pc + 2)) target)"
  by (simp_all add: execute_jal_def execute_c_jal_def execute_c_jalr_def read_reg_def Let_def)

text \<open>A store that fails reports a failed write; with logging on it reports the read that precedes it.\<close>

lemma failed_store_reported:
  assumes "read_word mem (read_reg regs rs1 + imm) = Inl e" "write_word mem (read_reg regs rs1 + imm) (read_reg regs rs2) = (Inl e', mem')"
  shows "fst (execute_sw memory_bus True rs1 rs2 imm w pc regs mem) = Inl (from_memory_error e pc regs)"
    and "fst (execute_sw memory_bus False rs1 rs2 imm w pc regs mem) = Inl (from_memory_error e' pc regs)"
  using assms by (simp_all add: execute_sw_def memory_bus_def try_mem_def Let_def)

end
