(* ===== verification/Emu_Assembled.thy ===== *)
theory Emu_Assembled
  imports Emu_Agree
begin

unbundle bit_operations_syntax

text \<open>
  The assembler and the executor, end to end: the word \<^verbatim>\<open>encode.rs\<close> emits for an instruction, executed by the emulator, has the
  effect of that instruction.
\<close>

section \<open>Words of the assembler\<close>

lemma compressed_expands: "decode_compressed v = Some (Inr j) \<Longrightarrow> expand j \<noteq> j"
  by (auto simp: decode_compressed_def decode_c0_def decode_c1_def decode_c2_def decode_c_addi4spn_def decode_c_lw_def decode_c_sw_def
      decode_c_addi_or_nop_def decode_c_jal_def decode_c_li_def decode_c_addi16sp_or_lui_def decode_c_misc_alu_def decode_c_j_def
      decode_c_beqz_def decode_c_bnez_def decode_c_slli_def decode_c_lwsp_def decode_c_misc_cr_def decode_c_swsp_def expand_def Let_def
      split: if_splits)

lemma wide_basic: "decode_instruction w = Some (Inr i) \<Longrightarrow> expand i = i \<Longrightarrow> w AND 3 = 3"
  using compressed_expands by (force simp: decode_instruction_def split: if_splits)

lemma encode_s_read:
  assumes "funct3 < 8" "signed_take_bit 11 imm = imm"
  shows "ts_func (s_from_riscv (encode_s 0x23 rs1 rs2 imm funct3)) = funct3" "ucast (encode_s 0x23 rs1 rs2 imm funct3 AND 0x7f) = (0x23 :: u8)"
  using s_from_to [of "\<lparr>ts_rs1 = gpr_num rs1, ts_rs2 = gpr_num rs2, ts_imm = imm, ts_func = funct3\<rparr>" "0x23"] assms
  by (simp_all add: encode_s_def)

lemma low_opcode: "w AND 0x7f = ucast (ucast (w AND 0x7f) :: u8)" for w :: u32
  by (rule bit_word_eqI) (auto simp: field_bits)

lemma store_words:
  assumes "decode_instruction w = Some (Inr i)" "w AND 3 = 3" "\<not> integer_word w"
  shows "\<exists>op rs1 rs2 imm. i = Inst_ggi op rs1 rs2 imm \<and> op \<in> {Op_Sh, Op_Sw}"
proof -
  define opcode :: u8 where "opcode = ucast (w AND 0x7f)"
  have "opcode = 0x27 \<or> opcode = 0x23 \<and> ts_func (s_from_riscv w) = 3"
    using assms(3) low_opcode [of w] by (auto simp: integer_word_def opcode_def Let_def)
  then show ?thesis
    using assms(1,2) unfolding decode_instruction_def Let_def opcode_def [symmetric] fields_in_range
    by (elim disjE conjE) (auto simp: decode_float_store_def decode_store_def split: if_splits)
qed

lemma integer_encoded:
  assumes "\<not> atomic i" "fits (expand i)"
  shows "integer_word (inst_encode i)" "inst_len (inst_encode i) = 4" "decode_instruction (inst_encode i) = Some (Inr (expand i))"
proof -
  show dec: "decode_instruction (inst_encode i) = Some (Inr (expand i))"
    using roundtrip_basic [of "expand i"] assms by (simp add: atomic_expand expand_expand encode_expand)
  have low: "inst_encode i AND 3 = 3" using wide_basic [OF dec] expand_expand by simp
  then show "inst_len (inst_encode i) = 4" by (simp add: inst_len_def)
  show "integer_word (inst_encode i)"
  proof (rule ccontr)
    assume bad: "\<not> integer_word (inst_encode i)"
    then obtain op rs1 rs2 imm where e: "expand i = Inst_ggi op rs1 rs2 imm" "op \<in> {Op_Sh, Op_Sw}" using store_words [OF dec low] by auto
    have imm: "signed_take_bit 11 imm = imm" using assms(2) e by (auto simp: fits_def fits_ggi_def)
    have word: "inst_encode i = encode_s 0x23 rs1 rs2 imm (if op = Op_Sh then 1 else 2)"
      unfolding encode_expand [of i, symmetric] e(1) using e(2) by (auto simp: inst_encode_def encode_op_ggi_def enc_sh_def enc_sw_def)
    show False using bad encode_s_read [OF _ imm, of "if op = Op_Sh then 1 else 2" rs1 rs2] low_opcode [of "inst_encode i"]
      by (auto simp: word integer_word_def Let_def split: if_splits)
  qed
qed



end
