(* ===== verification/Emu_Safety.thy ===== *)
theory Emu_Safety
  imports Emu_Agree
begin

unbundle bit_operations_syntax

text \<open>
  What no instruction can break: register zero stays as it is, the code and the extent of every memory region stay as they are, and
  the next program counter is even when this one is.
\<close>

section \<open>A step that keeps the invariants\<close>

definition even_next :: "u32 \<Rightarrow> EmulatorError + ExecutionResult \<Rightarrow> bool" where
  "even_next pc x = (case x of Inl _ \<Rightarrow> True | Inr r \<Rightarrow> even pc \<longrightarrow> even (next_pc pc r))"

definition safe :: "u32 \<Rightarrow> regs \<Rightarrow> (EmulatorError + ExecutionResult) \<times> regs \<Rightarrow> bool" where
  "safe pc regs e = (even_next pc (fst e) \<and> snd e Zero = regs Zero)"

lemma safe_if: "(c \<Longrightarrow> safe pc regs a) \<Longrightarrow> (\<not> c \<Longrightarrow> safe pc regs b) \<Longrightarrow> safe pc regs (if c then a else b)"
  by simp

lemma zero_kept: "write_reg regs rd v Zero = regs Zero"
  by (cases rd) (simp_all add: write_reg_def)

lemma safe_invalid: "safe pc regs (invalid pc w reason regs)"
  by (simp add: safe_def even_next_def invalid_def)

lemma even_size: "even n \<Longrightarrow> even (ucast n :: u32)" for n :: u8
  by (simp add: even_bit_iff bit_simps)

lemma safe_arith: "even n \<Longrightarrow> safe pc regs (done_ok (arith_done m w pc c n regs rd a b v))"
  by (simp add: safe_def even_next_def done_ok_def arith_done_def next_pc_def zero_kept even_size)

lemma safe_imm: "even n \<Longrightarrow> safe pc regs (done_ok (imm_done m w pc c n regs rd v))"
  by (simp add: safe_def even_next_def done_ok_def imm_done_def next_pc_def zero_kept even_size)

lemma safe_branch: "even n \<Longrightarrow> even imm \<Longrightarrow> safe pc regs (done_ok (branch_done m w pc n a b imm taken, regs))"
  by (simp add: safe_def even_next_def done_ok_def branch_done_def next_pc_def Let_def even_size)

lemma even_cleared: "even (x AND NOT 1)" for x :: u32
  by (simp add: even_and_iff)

lemma safe_jump: "(even pc \<Longrightarrow> even p) \<Longrightarrow> regs' Zero = regs Zero \<Longrightarrow>
    safe pc regs (done_ok (\<lparr>new_pc = Some p, should_halt = halt, syscall = sys, inst_class = c, inst_size = n, inst_log = l\<rparr>, regs'))"
  by (simp add: safe_def even_next_def done_ok_def next_pc_def)

lemma safe_straight: "even n \<Longrightarrow> regs' Zero = regs Zero \<Longrightarrow>
    safe pc regs (done_ok (\<lparr>new_pc = None, should_halt = halt, syscall = sys, inst_class = c, inst_size = n, inst_log = l\<rparr>, regs'))"
  by (simp add: safe_def even_next_def done_ok_def next_pc_def even_size)

section \<open>Instructions on registers\<close>

lemma rtype_safe: "safe pc regs (decode_execute_rtype m w pc regs)"
  unfolding decode_execute_rtype_def Let_def
  by (intro safe_if safe_invalid; (simp only: rtype_defs Let_def)?; (rule safe_arith safe_invalid)?) simp_all

lemma itype_safe: "safe pc regs (decode_execute_itype m w pc regs)"
  unfolding decode_execute_itype_def Let_def
  by (intro safe_if safe_invalid; (simp only: itype_defs Let_def)?; (rule safe_arith safe_invalid)?) simp_all

lemma even_branch_imm: "even (tb_imm (b_from_riscv w))"
  by (simp add: b_from_riscv_def Let_def even_or_iff even_and_iff)

lemma branch_safe: "safe pc regs (decode_execute_branch m w pc regs)"
  unfolding decode_execute_branch_def Let_def
  by (intro safe_if safe_invalid; (simp only: branch_defs Let_def)?; (rule safe_branch safe_invalid)?) (simp_all add: even_branch_imm)

lemma jumps_safe:
  "safe pc regs (decode_execute_jal m w pc regs)" "safe pc regs (decode_execute_jalr m w pc regs)"
  "safe pc regs (decode_execute_lui m w pc regs)" "safe pc regs (decode_execute_auipc m w pc regs)"
  unfolding decode_execute_jal_def execute_jal_def decode_execute_jalr_def execute_jalr_def decode_execute_lui_def execute_lui_def
    decode_execute_auipc_def execute_auipc_def Let_def
  by (rule safe_jump, rule even_cleared, rule zero_kept)+ (rule safe_imm, simp)+

lemma system_safe: "safe pc regs (fst (decode_execute_system m w pc regs fp), fst (snd (decode_execute_system m w pc regs fp)))"
  by (auto simp: decode_execute_system_def Let_def execute_csr_def execute_ecall_def execute_ebreak_def system_result_def safe_def even_next_def
      next_pc_def zero_kept split: prod.splits)

lemma fence_safe: "safe pc regs (Inr (decode_execute_fence m w pc), regs)"
  by (simp add: decode_execute_fence_def execute_fence_def execute_fence_i_def system_result_def safe_def even_next_def next_pc_def Let_def)

section \<open>Instructions on memory\<close>

text \<open>The contract of a bus that guards part of its state: no access changes it.\<close>

definition keeps :: "('m \<Rightarrow> 'l) \<Rightarrow> u32 \<Rightarrow> regs \<Rightarrow> 'm \<Rightarrow> (EmulatorError + ExecutionResult) \<times> regs \<times> 'm \<Rightarrow> bool" where
  "keeps layout pc regs mem e = (safe pc regs (fst e, fst (snd e)) \<and> layout (snd (snd e)) = layout mem)"

definition keeps_opt :: "('m \<Rightarrow> 'l) \<Rightarrow> u32 \<Rightarrow> regs \<Rightarrow> 'm \<Rightarrow> ((EmulatorError + ExecutionResult) \<times> regs \<times> 'm) option \<Rightarrow> bool" where
  "keeps_opt layout pc regs mem o' = (\<forall>e. o' = Some e \<longrightarrow> keeps layout pc regs mem e)"

lemma keeps_if: "(c \<Longrightarrow> keeps l pc regs mem a) \<Longrightarrow> (\<not> c \<Longrightarrow> keeps l pc regs mem b) \<Longrightarrow> keeps l pc regs mem (if c then a else b)"
  by simp

lemma keeps_opt_if: "(c \<Longrightarrow> keeps_opt l pc regs mem a) \<Longrightarrow> (\<not> c \<Longrightarrow> keeps_opt l pc regs mem b) \<Longrightarrow> keeps_opt l pc regs mem (if c then a else b)"
  by simp

lemma keeps_invalid:
  "keeps l pc regs mem (invalid_mem pc w s regs mem)" "keeps_opt l pc regs mem (invalid_c pc v s regs mem)" "keeps_opt l pc regs mem None"
  by (simp_all add: keeps_def keeps_opt_def safe_def even_next_def invalid_mem_def invalid_c_def)

lemma keeps_plain: "safe pc regs (done_ok r) \<Longrightarrow> keeps_opt l pc regs mem (plain mem r)"
  by (simp add: keeps_opt_def keeps_def plain_def done_ok_def)

lemma keeps_Some: "keeps l pc regs mem e \<Longrightarrow> keeps_opt l pc regs mem (Some e)"
  by (simp add: keeps_opt_def)

lemma keeps_try:
  assumes "layout (snd r) = layout mem" "\<And>x mem'. layout mem' = layout mem \<Longrightarrow> keeps layout pc regs mem (k x mem')"
  shows "keeps layout pc regs mem (try_mem r pc regs k)"
  using assms by (cases r; cases "fst r") (auto simp: try_mem_def keeps_def safe_def even_next_def)

lemma keeps_load: "layout mem' = layout mem \<Longrightarrow> even n \<Longrightarrow> keeps layout pc regs mem (load_done m w pc c n regs rd a b v mem')"
  by (simp add: keeps_def load_done_def safe_def even_next_def next_pc_def zero_kept even_size)

lemma keeps_store: "layout mem' = layout mem \<Longrightarrow> even n \<Longrightarrow> regs' Zero = regs Zero \<Longrightarrow>
    keeps layout pc regs mem (Inr (store_result m w pc c n a v x old new), regs', mem')"
  by (simp add: keeps_def store_result_def safe_def even_next_def next_pc_def even_size)

definition keeps_beside :: "('m \<Rightarrow> 'l) \<Rightarrow> u32 \<Rightarrow> regs \<Rightarrow> 'm \<Rightarrow> (EmulatorError + ExecutionResult) \<times> regs \<times> 'm \<times> 's \<Rightarrow> bool" where
  "keeps_beside layout pc regs mem e = keeps layout pc regs mem (fst e, fst (snd e), fst (snd (snd e)))"

lemma keeps_beside_if:
  "(c \<Longrightarrow> keeps_beside l pc regs mem a) \<Longrightarrow> (\<not> c \<Longrightarrow> keeps_beside l pc regs mem b) \<Longrightarrow> keeps_beside l pc regs mem (if c then a else b)"
  by simp

lemma keeps_beside_iff:
  "keeps_beside l pc regs mem e \<longleftrightarrow> (\<forall>x regs' mem' s. e = (x, regs', mem', s) \<longrightarrow> keeps l pc regs mem (x, regs', mem'))"
  by (cases e) (simp add: keeps_beside_def)

lemma keeps_beside_pair: "keeps l pc regs mem e \<Longrightarrow> keeps_beside l pc regs mem (case e of (x, regs, mem) \<Rightarrow> (x, regs, mem, s))"
  by (cases e) (simp add: keeps_beside_def)

lemma keeps_beside_error: "keeps_beside l pc regs mem (Inl e, regs, mem, s)"
  by (simp add: keeps_beside_def keeps_def safe_def even_next_def)

definition keeps_hart :: "('m \<Rightarrow> 'l) \<Rightarrow> u32 \<Rightarrow> 'm Hart \<Rightarrow> 'm outcome \<Rightarrow> bool" where
  "keeps_hart layout pc h out = (\<forall>x h'. out = Some (x, h') \<longrightarrow>
     layout (h_mem h') = layout (h_mem h) \<and> h_regs h' Zero = h_regs h Zero \<and> even_next pc x)"

lemma keeps_hart_if: "(c \<Longrightarrow> keeps_hart l pc h a) \<Longrightarrow> (\<not> c \<Longrightarrow> keeps_hart l pc h b) \<Longrightarrow> keeps_hart l pc h (if c then a else b)"
  by simp

lemma keeps_on_regs: "safe pc (h_regs h) e \<Longrightarrow> keeps_hart l pc h (on_regs h e)"
  by (simp add: keeps_hart_def on_regs_def safe_def)

lemma keeps_on_memory: "keeps l pc (h_regs h) (h_mem h) e \<Longrightarrow> keeps_hart l pc h (on_memory h e)"
  by (simp add: keeps_hart_def on_memory_def keeps_def safe_def)

locale guarded_bus =
  fixes bus :: "'m Bus" and layout :: "'m \<Rightarrow> 'l"
  assumes reads_guarded: "layout (snd (bus_read_word bus m a)) = layout m" "layout (snd (bus_read_halfword bus m a)) = layout m"
      "layout (snd (bus_read_byte bus m a)) = layout m"
    and writes_guarded: "layout (snd (bus_write_word bus m a v)) = layout m" "layout (snd (bus_write_halfword bus m a h)) = layout m"
      "layout (snd (bus_write_byte bus m a b)) = layout m"
begin

lemma optional_read: "layout (snd (if c then r else (Inr x, mem))) = layout mem" if "layout (snd r) = layout mem"
  using that by simp

lemma loads_keep:
  "keeps layout pc regs mem (execute_lb bus m rd rs1 imm w pc regs mem)" "keeps layout pc regs mem (execute_lh bus m rd rs1 imm w pc regs mem)"
  "keeps layout pc regs mem (execute_lw bus m rd rs1 imm w pc regs mem)" "keeps layout pc regs mem (execute_lbu bus m rd rs1 imm w pc regs mem)"
  "keeps layout pc regs mem (execute_lhu bus m rd rs1 imm w pc regs mem)" "keeps layout pc regs mem (execute_c_lw bus m rd rs1 imm w pc regs mem)"
  "keeps layout pc regs mem (execute_c_lwsp bus m rd imm w pc regs mem)"
  unfolding execute_lb_def execute_lh_def execute_lw_def execute_lbu_def execute_lhu_def execute_c_lw_def execute_c_lwsp_def Let_def
  by (rule keeps_try, rule reads_guarded, rule keeps_load, assumption, simp)+

lemma stores_keep:
  "keeps layout pc regs mem (execute_sb bus m rs1 rs2 imm w pc regs mem)" "keeps layout pc regs mem (execute_sh bus m rs1 rs2 imm w pc regs mem)"
  "keeps layout pc regs mem (execute_sw bus m rs1 rs2 imm w pc regs mem)" "keeps layout pc regs mem (execute_c_sw bus m rs1 rs2 imm w pc regs mem)"
  "keeps layout pc regs mem (execute_c_swsp bus m rs2 imm w pc regs mem)"
  unfolding execute_sb_def execute_sh_def execute_sw_def execute_c_sw_def execute_c_swsp_def Let_def
  by (rule keeps_try, rule optional_read, rule reads_guarded, rule keeps_try, simp only: writes_guarded, rule keeps_store, simp, simp, simp)+

lemma load_store_keep:
  "keeps layout pc regs mem (decode_execute_load bus m w pc regs mem)" "keeps layout pc regs mem (decode_execute_store bus m w pc regs mem)"
  unfolding decode_execute_load_def decode_execute_store_def Let_def by (intro keeps_if keeps_invalid loads_keep stores_keep)+

lemma compressed_keeps: "keeps_opt layout pc regs mem (decode_execute_compressed bus m w pc regs mem)"
  unfolding decode_execute_compressed_def Let_def decode_execute_c0_def decode_execute_c1_def decode_execute_c2_def
  by (intro keeps_opt_if keeps_invalid keeps_Some loads_keep stores_keep keeps_plain; (simp only: compressed_defs system_result_def Let_def)?;
      (rule safe_arith safe_imm safe_branch safe_jump safe_straight)?)
    (simp_all add: even_and_iff compressed_offsets zero_kept keeps_def safe_def even_next_def)

text \<open>Atomic instructions carry the reservation beside.\<close>

lemma amo_keeps: "keeps layout pc regs mem (execute_amo f bus m rd rs1 rs2 w pc regs mem)"
  unfolding execute_amo_def Let_def
  by (rule keeps_try, rule reads_guarded, rule keeps_try, simp only: writes_guarded, rule keeps_store, simp, simp, simp add: zero_kept)

lemma lr_keeps: "execute_lr_w bus m rd rs1 w pc regs mem res = (x, regs', mem', res') \<Longrightarrow> keeps layout pc regs mem (x, regs', mem')"
proof -
  let ?t = "try_mem (bus_read_word bus mem (read_reg regs rs1)) pc regs
    (\<lambda>v mem. load_done m w pc ClassAtomic 4 regs rd (read_reg regs rs1) (read_reg regs rs1) v mem)"
  have k: "keeps layout pc regs mem ?t" by (rule keeps_try, rule reads_guarded, rule keeps_load, assumption, simp)
  assume "execute_lr_w bus m rd rs1 w pc regs mem res = (x, regs', mem', res')"
  then have "?t = (x, regs', mem')" by (auto simp: execute_lr_w_def Let_def split: prod.splits sum.splits)
  with k show ?thesis by simp
qed

lemma sc_keeps:
  assumes "execute_sc_w bus m rd rs1 rs2 w pc regs mem res = (x, regs', mem', res')"
  shows "keeps layout pc regs mem (x, regs', mem')"
proof -
  let ?a = "read_reg regs rs1" and ?v = "read_reg regs rs2"
  obtain q mem1 where q: "(if m then bus_read_word bus mem ?a else (Inr 0, mem)) = (q, mem1)" by fastforce
  have mem1: "layout mem1 = layout mem" using optional_read [OF reads_guarded(1), of m mem ?a 0] q by simp
  obtain stored res1 where t: "take_for_store ?a res = (stored, res1)" by fastforce
  obtain u mem2 where u: "(if stored then bus_write_word bus mem1 ?a ?v else (Inr (), mem1)) = (u, mem2)" by fastforce
  have mem2: "layout mem2 = layout mem1" using writes_guarded(1) [of mem1 ?a ?v] u by (auto split: if_splits)
  show ?thesis
    using assms mem1 mem2
    by (cases q; cases u) (auto simp: execute_sc_w_def Let_def q t u keeps_def safe_def even_next_def next_pc_def store_result_def zero_kept)
qed

lemma atomic_keeps: "keeps_beside layout pc regs mem (decode_execute_atomic bus m w pc regs mem res)"
  unfolding decode_execute_atomic_def Let_def
  by (intro keeps_beside_if keeps_beside_pair amo_keeps keeps_beside_error; simp only: keeps_beside_iff; blast intro: lr_keeps sc_keeps)

text \<open>The whole dispatch.\<close>

lemma dispatch_keeps:
  assumes "w AND 3 = 3 \<Longrightarrow> \<not> is_float_opcode (ucast (w AND 0x7f))"
  shows "keeps_hart layout pc h (decode_execute bus float m w pc h)"
proof -
  have compressed: "keeps_hart layout pc h (Option.bind (decode_execute_compressed bus m w pc (h_regs h) (h_mem h)) (on_memory h))"
    using compressed_keeps [of pc "h_regs h" "h_mem h" m w]
    by (auto simp: keeps_opt_def keeps_def safe_def keeps_hart_def on_memory_def bind_eq_Some_conv)
  have system: "keeps_hart layout pc h (case decode_execute_system m w pc (h_regs h) (h_fp h) of (r, regs, fp) \<Rightarrow> Some (r, h\<lparr>h_regs := regs, h_fp := fp\<rparr>))"
    using system_safe [of pc "h_regs h" m w "h_fp h"] by (auto simp: keeps_hart_def safe_def split: prod.splits)
  have atomic: "keeps_hart layout pc h
      (case decode_execute_atomic bus m w pc (h_regs h) (h_mem h) (h_reservation h) of (r, regs, mem, res) \<Rightarrow>
         Some (r, h\<lparr>h_regs := regs, h_mem := mem, h_reservation := res\<rparr>))"
    using atomic_keeps [of pc "h_regs h" "h_mem h" m w "h_reservation h"]
    by (auto simp: keeps_hart_def keeps_beside_def keeps_def safe_def split: prod.splits)
  have fence: "keeps_hart layout pc h (Some (Inr (decode_execute_fence m w pc), h))"
    using fence_safe [of pc "h_regs h" m w] by (simp add: keeps_hart_def safe_def)
  have unknown: "keeps_hart layout pc h (Some (Inl e, h))" for e by (simp add: keeps_hart_def even_next_def)
  show ?thesis
    unfolding decode_execute_def Let_def
    by (intro keeps_hart_if compressed keeps_on_regs keeps_on_memory rtype_safe itype_safe load_store_keep branch_safe jumps_safe system fence
        atomic unknown) (use assms in auto)
qed

end

section \<open>The properties\<close>

text \<open>The emulator's memory guards the code, and where its regions lie.\<close>

definition fixed_memory :: "Memory \<Rightarrow> u8 list \<times> nat \<times> u32 \<times> u32 \<times> u32 \<times> nat option \<times> bool" where
  "fixed_memory m = (code m, length (ram m), code_start m, shared_start m, ram_start m, map_option length (shared_backing m), allow_unaligned_access m)"

lemma write_bytes_fixed: "write_bytes bs m a = Inr m' \<Longrightarrow> fixed_memory m' = fixed_memory m"
  by (auto simp: write_bytes_def region_def fixed_memory_def in_shared_def has_shared_def Let_def split: if_splits)

lemma kept_fixed: "fixed_memory (snd (kept m (write_bytes bs m a))) = fixed_memory m"
  using write_bytes_fixed [of bs m a] by (auto simp: kept_def split: sum.splits)

lemma write_each_fixed: "fixed_memory (snd (write_each m ws)) = fixed_memory m"
proof (induction m ws rule: write_each.induct)
  case (2 m a b ws)
  then show ?case using kept_fixed [of m "[b]" a] by (auto simp: write_byte_def split: prod.splits sum.splits)
qed simp

interpretation gb: guarded_bus memory_bus fixed_memory
  by unfold_locales
    (simp_all add: memory_bus_def write_word_def write_word_aligned_def write_halfword_def write_halfword_aligned_def write_byte_def
      kept_fixed write_each_fixed)

lemma instruction_safe:
  assumes "decode_execute memory_bus float m w pc h = Some (x, h')" "w AND 3 = 3 \<Longrightarrow> \<not> is_float_opcode (ucast (w AND 0x7f))"
  shows "fixed_memory (h_mem h') = fixed_memory (h_mem h) \<and> h_regs h' Zero = h_regs h Zero \<and> even_next pc x"
  using gb.dispatch_keeps [OF assms(2), of pc h float m] assms(1) by (simp add: keeps_hart_def)

text \<open>One turn of \<^verbatim>\<open>step_inner\<close> that succeeds on an instruction that is not floating-point: fetch, execute, set the program counter.\<close>

inductive emu_step :: "bool \<Rightarrow> (bool \<Rightarrow> u32 \<Rightarrow> u32 \<Rightarrow> Memory Hart \<Rightarrow> Memory outcome) \<Rightarrow> u32 \<times> Memory Hart \<Rightarrow> u32 \<times> Memory Hart \<Rightarrow> bool"
  for m float where
  step: "fetch_instruction (h_mem h) pc = Inr w \<Longrightarrow> w AND 3 = 3 \<longrightarrow> \<not> is_float_opcode (ucast (w AND 0x7f)) \<Longrightarrow>
     decode_execute memory_bus float m w pc h = Some (Inr r, h') \<Longrightarrow> emu_step m float (pc, h) (next_pc pc r, h')"

inductive_cases emu_stepE: "emu_step m float (pc, h) s"

lemma step_safe:
  assumes "emu_step m float (pc, h) (pc', h')"
  shows "fixed_memory (h_mem h') = fixed_memory (h_mem h) \<and> h_regs h' Zero = h_regs h Zero \<and> (even pc \<longrightarrow> even pc')"
  using assms by (elim emu_stepE) (auto dest!: instruction_safe simp: even_next_def)



end
